(* ===== verification/Prelude.thy ===== *)
theory Prelude
  imports Main "HOL-Library.AList" "HOL-Library.List_Lexorder" "HOL-Library.Char_ord"
begin

text \<open>
  Shared vocabulary of the development: errors as values of a sum type, Python's
  insertion-ordered dictionaries as association lists, \<open>dict.fromkeys\<close>, the in-place
  update of the first matching row, and the list facts that the components share.
  Collections of hints:
  \<^item> \<open>py_simps\<close>: how the dictionary and row operations look up and update;
  \<^item> \<open>op_defs\<close>: the defining equations of the operations of a component, unfolded
    together when a proof runs an operation symbolically.
\<close>

named_theorems py_simps "evaluation of dictionary and row operations"
named_theorems op_defs "defining equations of the modelled operations"

section \<open>Errors as values\<close>

abbreviation Ok :: "'a \<Rightarrow> 'e + 'a" where
  "Ok \<equiv> Inr"

abbreviation Raise :: "'e \<Rightarrow> 'e + 'a" where
  "Raise \<equiv> Inl"

text \<open>Sequencing: the first exception wins, as an uncaught \<open>raise\<close> does.\<close>

definition ebind :: "'e + 'a \<Rightarrow> ('a \<Rightarrow> 'e + 'b) \<Rightarrow> 'e + 'b" where
  "ebind m k = (case m of Inl e \<Rightarrow> Inl e | Inr x \<Rightarrow> k x)"

lemma ebind_Ok [simp]: "ebind (Ok x) k = k x"
  by (simp add: ebind_def)

lemma ebind_Raise [simp]: "ebind (Raise e) k = Raise e"
  by (simp add: ebind_def)

lemma ebind_eq_Ok: "ebind m k = Ok y \<longleftrightarrow> (\<exists>x. m = Ok x \<and> k x = Ok y)"
  by (cases m) auto

lemma ebind_eq_Raise:
  "ebind m k = Raise e \<longleftrightarrow> m = Raise e \<or> (\<exists>x. m = Ok x \<and> k x = Raise e)"
  by (cases m) auto

text \<open>A guard: raise \<open>e\<close> unless the condition holds.\<close>

definition require :: "bool \<Rightarrow> 'e \<Rightarrow> 'e + unit" where
  "require c e = (if c then Ok () else Raise e)"

lemma require_Ok [simp]: "require c e = Ok u \<longleftrightarrow> c"
  by (simp add: require_def)

lemma require_Raise [simp]: "require c e = Raise e' \<longleftrightarrow> \<not> c \<and> e' = e"
  by (auto simp: require_def)

lemma ebind_require [simp]: "ebind (require c e) k = (if c then k () else Raise e)"
  by (simp add: require_def)

text \<open>A loop over a list that stops at the first exception.\<close>

fun mapE :: "('a \<Rightarrow> 'e + 'b) \<Rightarrow> 'a list \<Rightarrow> 'e + 'b list" where
  "mapE f [] = Ok []"
| "mapE f (x # xs) = ebind (f x) (\<lambda>y. ebind (mapE f xs) (\<lambda>ys. Ok (y # ys)))"

lemma mapE_eq_Ok_iff:
  "mapE f xs = Ok ys \<longleftrightarrow> list_all2 (\<lambda>x y. f x = Ok y) xs ys"
  by (induction xs arbitrary: ys) (auto simp: ebind_eq_Ok list_all2_Cons1)

lemma mapE_Ok_elem: "mapE f xs = Ok ys \<Longrightarrow> x \<in> set xs \<Longrightarrow> \<exists>y. f x = Ok y"
  by (induction xs arbitrary: ys) (auto simp: ebind_eq_Ok)

lemma mapE_Ok_self: "(\<And>x. x \<in> set xs \<Longrightarrow> f x = Ok (g x)) \<Longrightarrow> mapE f xs = Ok (map g xs)"
  by (induction xs) auto

section \<open>Dictionaries\<close>

text \<open>
  A Python \<open>dict\<close> keeps its insertion order; assigning to an existing key keeps the
  key's position. \<open>AList.update\<close> does exactly that on association lists.
\<close>

type_synonym ('k, 'v) pydict = "('k \<times> 'v) list"

abbreviation dget :: "('k, 'v) pydict \<Rightarrow> 'k \<Rightarrow> 'v option" where
  "dget d k \<equiv> map_of d k"

abbreviation dput :: "'k \<Rightarrow> 'v \<Rightarrow> ('k, 'v) pydict \<Rightarrow> ('k, 'v) pydict" where
  "dput k v d \<equiv> AList.update k v d"

abbreviation dkeys :: "('k, 'v) pydict \<Rightarrow> 'k list" where
  "dkeys d \<equiv> map fst d"

abbreviation dvalues :: "('k, 'v) pydict \<Rightarrow> 'v list" where
  "dvalues d \<equiv> map snd d"

lemma dget_dput [py_simps]: "dget (dput k v d) k' = (if k' = k then Some v else dget d k')"
  by (simp add: update_conv')

lemma dkeys_dput [py_simps]:
  "dkeys (dput k v d) = (if k \<in> set (dkeys d) then dkeys d else dkeys d @ [k])"
  by (simp add: update_keys)

lemma distinct_dkeys_dput: "distinct (dkeys d) \<Longrightarrow> distinct (dkeys (dput k v d))"
  by (simp add: distinct_update)

lemma dput_fresh: "k \<notin> set (dkeys d) \<Longrightarrow> dput k v d = d @ [(k, v)]"
  by (induction d) auto

lemma dget_None_iff: "dget d k = None \<longleftrightarrow> k \<notin> set (dkeys d)"
  by (simp add: map_of_eq_None_iff)

section \<open>Order-preserving removal of duplicates\<close>

text \<open>\<open>list(dict.fromkeys(xs))\<close>: every value once, at its first position.\<close>

fun fromkeys_acc :: "'a list \<Rightarrow> 'a list \<Rightarrow> 'a list" where
  "fromkeys_acc seen [] = []"
| "fromkeys_acc seen (x # xs) =
     (if x \<in> set seen then fromkeys_acc seen xs else x # fromkeys_acc (x # seen) xs)"

definition fromkeys :: "'a list \<Rightarrow> 'a list" where
  "fromkeys xs = fromkeys_acc [] xs"

lemma set_fromkeys_acc: "set (fromkeys_acc seen xs) = set xs - set seen"
  by (induction seen xs rule: fromkeys_acc.induct) auto

lemma distinct_fromkeys_acc: "distinct (fromkeys_acc seen xs)"
  by (induction seen xs rule: fromkeys_acc.induct) (auto simp: set_fromkeys_acc)

lemma fromkeys_acc_id:
  "distinct xs \<Longrightarrow> set xs \<inter> set seen = {} \<Longrightarrow> fromkeys_acc seen xs = xs"
  by (induction seen xs rule: fromkeys_acc.induct) auto

lemma set_fromkeys [simp]: "set (fromkeys xs) = set xs"
  by (simp add: fromkeys_def set_fromkeys_acc)

lemma distinct_fromkeys [simp]: "distinct (fromkeys xs)"
  by (simp add: fromkeys_def distinct_fromkeys_acc)

lemma fromkeys_distinct_id [simp]: "distinct xs \<Longrightarrow> fromkeys xs = xs"
  by (simp add: fromkeys_def fromkeys_acc_id)

lemma fromkeys_eq_Nil [simp]: "fromkeys xs = [] \<longleftrightarrow> xs = []"
  using set_fromkeys [of xs] by (metis set_empty)

section \<open>Rows of a table\<close>

text \<open>Rewrite the first row that satisfies \<open>P\<close>; \<open>None\<close> when no row does.\<close>

fun update_first :: "('a \<Rightarrow> bool) \<Rightarrow> ('a \<Rightarrow> 'a) \<Rightarrow> 'a list \<Rightarrow> 'a list option" where
  "update_first P f [] = None"
| "update_first P f (x # xs) =
     (if P x then Some (f x # xs) else map_option ((#) x) (update_first P f xs))"

lemma update_first_None_iff: "update_first P f xs = None \<longleftrightarrow> (\<forall>x \<in> set xs. \<not> P x)"
  by (induction xs) auto

lemma update_first_split:
  assumes "update_first P f xs = Some ys"
  shows "\<exists>us x vs. xs = us @ x # vs \<and> P x \<and> (\<forall>u \<in> set us. \<not> P u) \<and> ys = us @ f x # vs"
  using assms
proof (induction xs arbitrary: ys)
  case Nil
  then show ?case by simp
next
  case (Cons a xs)
  show ?case
  proof (cases "P a")
    case True
    with Cons.prems have "a # xs = [] @ a # xs \<and> P a \<and> (\<forall>u \<in> set []. \<not> P u) \<and> ys = [] @ f a # xs"
      by simp
    then show ?thesis by blast
  next
    case False
    with Cons.prems obtain zs where zs: "update_first P f xs = Some zs" and ys: "ys = a # zs"
      by auto
    from Cons.IH [OF zs] obtain us x vs where
      "xs = us @ x # vs" "P x" "\<forall>u \<in> set us. \<not> P u" "zs = us @ f x # vs" by blast
    with False ys have "a # xs = (a # us) @ x # vs \<and> P x \<and> (\<forall>u \<in> set (a # us). \<not> P u)
        \<and> ys = (a # us) @ f x # vs"
      by simp
    then show ?thesis by blast
  qed
qed

lemma update_first_map:
  assumes "update_first P f xs = Some ys" and "\<And>x. P x \<Longrightarrow> g (f x) = g x"
  shows "map g ys = map g xs"
  using assms by (induction xs arbitrary: ys) (auto split: if_splits)

lemma update_first_length: "update_first P f xs = Some ys \<Longrightarrow> length ys = length xs"
  by (induction xs arbitrary: ys) (auto split: if_splits)

text \<open>With a key that no two rows share, the first match is the only one.\<close>

lemma update_first_unique:
  assumes "distinct (map key xs)" and "\<And>x. P x \<Longrightarrow> key x = k"
  shows "update_first P f xs =
    (if \<exists>x \<in> set xs. P x then Some (map (\<lambda>x. if P x then f x else x) xs) else None)"
  using assms
proof (induction xs)
  case Nil
  then show ?case by simp
next
  case (Cons a xs)
  show ?case
  proof (cases "P a")
    case True
    have "\<not> P x" if "x \<in> set xs" for x
    proof
      assume "P x"
      with Cons.prems(2) True have "key x = key a" by simp
      with that Cons.prems(1) show False by (auto simp: image_iff)
    qed
    then have "map (\<lambda>x. if P x then f x else x) xs = xs"
      by (induction xs) auto
    with True show ?thesis by simp
  next
    case False
    with Cons show ?thesis by auto
  qed
qed

section \<open>Further list facts\<close>

lemma map_upd_eq: "(\<And>x. x \<in> set xs \<Longrightarrow> \<not> P x) \<Longrightarrow> map (\<lambda>x. if P x then f x else x) xs = xs"
  by (induction xs) auto

lemma sort_key_unique:
  fixes f :: "'a \<Rightarrow> 'b::linorder"
  assumes "set xs = set ys" and "distinct xs" and "distinct ys" and "inj_on f (set xs)"
  shows "sort_key f xs = sort_key f ys"
proof (rule map_inj_on)
  show "inj_on f (set (sort_key f xs) \<union> set (sort_key f ys))" using assms(1,4) by simp
  have "distinct (map f (sort_key f xs))" "distinct (map f (sort_key f ys))"
    using assms by (simp_all add: distinct_map)
  then show "map f (sort_key f xs) = map f (sort_key f ys)"
    by (intro sorted_distinct_set_unique) (simp_all add: assms(1))
qed

lemma sorted_upt_int: "sorted (map (\<lambda>i. int (Suc i)) [0..<n])"
  by (induction n) (auto simp: sorted_append)

text \<open>The largest element under a key, the earliest one among equals (Python's \<open>max\<close>).\<close>

fun max_by :: "('a \<Rightarrow> 'b::linorder) \<Rightarrow> 'a \<Rightarrow> 'a list \<Rightarrow> 'a" where
  "max_by k m [] = m"
| "max_by k m (x # xs) = max_by k (if k m < k x then x else m) xs"

definition py_max :: "('a \<Rightarrow> 'b::linorder) \<Rightarrow> 'a list \<Rightarrow> 'a option" where
  "py_max k xs = (case xs of [] \<Rightarrow> None | x # rest \<Rightarrow> Some (max_by k x rest))"

lemma max_by_in: "max_by k m xs \<in> insert m (set xs)"
  by (induction k m xs rule: max_by.induct) auto

lemma max_by_ge_start: "k m \<le> k (max_by k m xs)"
proof (induction xs arbitrary: m)
  case Nil
  then show ?case by simp
next
  case (Cons y xs)
  have "k m \<le> k (if k m < k y then y else m)" by auto
  also have "\<dots> \<le> k (max_by k (if k m < k y then y else m) xs)" by (rule Cons.IH)
  finally show ?case by simp
qed

lemma max_by_ge: "x \<in> set xs \<Longrightarrow> k x \<le> k (max_by k m xs)"
proof (induction xs arbitrary: m)
  case Nil
  then show ?case by simp
next
  case (Cons y xs)
  let ?m = "if k m < k y then y else m"
  show ?case
  proof (cases "x \<in> set xs")
    case True
    then show ?thesis using Cons.IH [of ?m] by simp
  next
    case False
    with Cons.prems have "k x \<le> k ?m" by auto
    also have "\<dots> \<le> k (max_by k ?m xs)" by (rule max_by_ge_start)
    finally show ?thesis by simp
  qed
qed

lemma py_max_None [simp]: "py_max k xs = None \<longleftrightarrow> xs = []"
  by (simp add: py_max_def split: list.splits)

lemma py_max_Some:
  assumes "py_max k xs = Some m"
  shows "m \<in> set xs \<and> (\<forall>x \<in> set xs. k x \<le> k m)"
proof -
  from assms obtain a rest where xs: "xs = a # rest" and m: "m = max_by k a rest"
    by (auto simp: py_max_def split: list.splits)
  show ?thesis
    using max_by_in [of k a rest] max_by_ge_start [of k a rest] max_by_ge [of _ rest k a]
    by (auto simp: xs m)
qed

end
