(* ===== verification/PyValue.thy ===== *)
theory PyValue
  imports Prelude Complex_Main
begin

text \<open>
  The Python values that cross the program's boundaries: JSON documents, text and the
  library functions the sources apply to them (\<open>str.split\<close>, \<open>str.strip\<close>,
  \<open>str.lower\<close>, \<open>bool\<close>, \<open>str\<close>, \<open>fnmatch.fnmatchcase\<close> and the
  character classes of the regular expressions). Text is a list of code points below
  256; case mapping is the ASCII one. Time stamps are microseconds since the epoch, UTC.
  The shortest decimal text of a floating-point number, the text of a container and the
  reading of a number from text are CPython's own and are arguments of the functions
  that use them.
\<close>

type_synonym time = int

section \<open>Values\<close>

text \<open>A double as \<open>json\<close> and \<open>float()\<close> deliver it: an exact rational or a special value.\<close>

datatype pyfloat = Fin rat | PosInf | NegInf | NotANumber

fun pf_less :: "pyfloat \<Rightarrow> pyfloat \<Rightarrow> bool" where
  "pf_less (Fin a) (Fin b) = (a < b)"
| "pf_less NegInf (Fin b) = True"
| "pf_less NegInf PosInf = True"
| "pf_less (Fin a) PosInf = True"
| "pf_less _ _ = False"

datatype json =
    JNull
  | JBool bool
  | JInt int
  | JFloat pyfloat
  | JStr string
  | JArr "json list"
  | JObj "(string \<times> json) list"

type_synonym document = "(string, json) pydict"

text \<open>Python's truth value of an object.\<close>

fun truthy :: "json \<Rightarrow> bool" where
  "truthy JNull = False"
| "truthy (JBool b) = b"
| "truthy (JInt n) = (n \<noteq> 0)"
| "truthy (JFloat f) = (f \<noteq> Fin 0)"
| "truthy (JStr s) = (s \<noteq> [])"
| "truthy (JArr xs) = (xs \<noteq> [])"
| "truthy (JObj kvs) = (kvs \<noteq> [])"

text \<open>\<open>d.get(k)\<close>: \<open>None\<close> stands both for a missing key and for a stored null.\<close>

definition jget :: "document \<Rightarrow> string \<Rightarrow> json" where
  "jget d k = (case dget d k of None \<Rightarrow> JNull | Some v \<Rightarrow> v)"

lemma jget_dput [py_simps]: "jget (dput k v d) k' = (if k' = k then v else jget d k')"
  by (simp add: jget_def dget_dput)

text \<open>Numbers in decimal.\<close>

fun nat_str :: "nat \<Rightarrow> string" where
  "nat_str n = (if n < 10 then [char_of (48 + n)] else nat_str (n div 10) @ [char_of (48 + n mod 10)])"

declare nat_str.simps [simp del]

definition int_str :: "int \<Rightarrow> string" where
  "int_str i = (if i < 0 then CHR ''-'' # nat_str (nat (- i)) else nat_str (nat i))"

text \<open>\<open>str(value)\<close>; \<open>repr_of\<close> renders floats and containers.\<close>

fun py_str :: "(json \<Rightarrow> string) \<Rightarrow> json \<Rightarrow> string" where
  "py_str repr_of (JStr s) = s"
| "py_str repr_of JNull = ''None''"
| "py_str repr_of (JBool b) = (if b then ''True'' else ''False'')"
| "py_str repr_of (JInt i) = int_str i"
| "py_str repr_of v = repr_of v"

section \<open>Text\<close>

fun split_acc :: "char \<Rightarrow> string \<Rightarrow> string \<Rightarrow> string list" where
  "split_acc sep cur [] = [rev cur]"
| "split_acc sep cur (c # cs) =
     (if c = sep then rev cur # split_acc sep [] cs else split_acc sep (c # cur) cs)"

text \<open>\<open>text.split(sep)\<close> for a one-character separator: never an empty list.\<close>

definition split_on :: "char \<Rightarrow> string \<Rightarrow> string list" where
  "split_on sep s = split_acc sep [] s"

fun join_with :: "string \<Rightarrow> string list \<Rightarrow> string" where
  "join_with sep [] = []"
| "join_with sep [x] = x"
| "join_with sep (x # y # ys) = x @ sep @ join_with sep (y # ys)"

lemma split_acc_not_Nil [simp]: "split_acc sep cur s \<noteq> []"
  by (induction sep cur s rule: split_acc.induct) auto

lemma split_on_not_Nil [simp]: "split_on sep s \<noteq> []"
  by (simp add: split_on_def)

lemma join_Cons: "xs \<noteq> [] \<Longrightarrow> join_with sep (x # xs) = x @ sep @ join_with sep xs"
  by (cases xs) auto

lemma join_split_acc: "join_with [sep] (split_acc sep cur s) = rev cur @ s"
  by (induction sep cur s rule: split_acc.induct) (auto simp: join_Cons)

lemma join_split: "join_with [sep] (split_on sep s) = s"
  by (simp add: split_on_def join_split_acc)

lemma split_acc_no_sep: "sep \<notin> set x \<Longrightarrow> split_acc sep cur x = [rev cur @ x]"
  by (induction x arbitrary: cur) auto

lemma split_acc_append:
  "sep \<notin> set x \<Longrightarrow> split_acc sep cur (x @ sep # s) = (rev cur @ x) # split_acc sep [] s"
  by (induction x arbitrary: cur) auto

lemma split_join:
  assumes "xs \<noteq> []" and "\<forall>x \<in> set xs. sep \<notin> set x"
  shows "split_on sep (join_with [sep] xs) = xs"
  using assms
proof (induction xs rule: induct_list012)
  case 1
  then show ?case by simp
next
  case (2 x)
  then show ?case by (simp add: split_on_def split_acc_no_sep)
next
  case (3 x y ys)
  then show ?case by (simp add: split_on_def split_acc_append)
qed

text \<open>Joining separator-free parts is injective: the parts can be read back.\<close>

lemma join_inject:
  assumes "join_with [sep] xs = join_with [sep] ys" and "xs \<noteq> []" and "ys \<noteq> []"
    and "\<forall>x \<in> set xs. sep \<notin> set x" and "\<forall>y \<in> set ys. sep \<notin> set y"
  shows "xs = ys"
  using split_join [of xs sep] split_join [of ys sep] assms by metis

text \<open>\<open>str.isspace\<close> on the code points below 256, as \<open>strip\<close> uses it.\<close>

definition is_space :: "char \<Rightarrow> bool" where
  "is_space c = (let n = of_char c :: nat in
     (9 \<le> n \<and> n \<le> 13) \<or> (28 \<le> n \<and> n \<le> 32) \<or> n = 133 \<or> n = 160)"

definition strip :: "string \<Rightarrow> string" where
  "strip s = rev (dropWhile is_space (rev (dropWhile is_space s)))"

lemma strip_id: "\<forall>c \<in> set s. \<not> is_space c \<Longrightarrow> strip s = s"
proof -
  assume "\<forall>c \<in> set s. \<not> is_space c"
  then have "dropWhile is_space s = s" "dropWhile is_space (rev s) = rev s"
    by (auto simp: dropWhile_eq_self_iff hd_rev)
  then show ?thesis by (simp add: strip_def)
qed

definition lower_char :: "char \<Rightarrow> char" where
  "lower_char c = (let n = of_char c :: nat in if 65 \<le> n \<and> n \<le> 90 then char_of (n + 32) else c)"

definition lower :: "string \<Rightarrow> string" where
  "lower s = map lower_char s"

text \<open>\<open>str.isprintable\<close> on a code point below 256.\<close>

definition is_printable :: "char \<Rightarrow> bool" where
  "is_printable c = (let n = of_char c :: nat in
     (32 \<le> n \<and> n \<le> 126) \<or> (161 \<le> n \<and> n \<noteq> 173))"

section \<open>Character classes of the regular expressions\<close>

definition is_digit :: "char \<Rightarrow> bool" where
  "is_digit c = (CHR ''0'' \<le> c \<and> c \<le> CHR ''9'')"

definition is_lower :: "char \<Rightarrow> bool" where
  "is_lower c = (CHR ''a'' \<le> c \<and> c \<le> CHR ''z'')"

definition is_upper :: "char \<Rightarrow> bool" where
  "is_upper c = (CHR ''A'' \<le> c \<and> c \<le> CHR ''Z'')"

definition is_alnum :: "char \<Rightarrow> bool" where
  "is_alnum c = (is_digit c \<or> is_lower c \<or> is_upper c)"

definition is_hex :: "char \<Rightarrow> bool" where
  "is_hex c = (is_digit c \<or> (CHR ''a'' \<le> c \<and> c \<le> CHR ''f''))"

text \<open>A full match of \<open>[class]{lo,hi}\<close>.\<close>

definition matches :: "(char \<Rightarrow> bool) \<Rightarrow> nat \<Rightarrow> nat \<Rightarrow> string \<Rightarrow> bool" where
  "matches cls lo hi s = (lo \<le> length s \<and> length s \<le> hi \<and> list_all cls s)"

lemma matches_mono:
  "matches cls lo hi s \<Longrightarrow> lo' \<le> lo \<Longrightarrow> hi \<le> hi' \<Longrightarrow> (\<And>c. cls c \<Longrightarrow> cls' c) \<Longrightarrow> matches cls' lo' hi' s"
  by (auto simp: matches_def list_all_iff)

section \<open>Nested documents\<close>

text \<open>Follow a dotted path; a missing part or a non-object on the way gives \<open>None\<close>.\<close>

fun walk_path :: "json \<Rightarrow> string list \<Rightarrow> json" where
  "walk_path v [] = v"
| "walk_path v (part # parts) =
     (case v of
        JObj kvs \<Rightarrow> (case dget kvs part of None \<Rightarrow> JNull | Some w \<Rightarrow> walk_path w parts)
      | _ \<Rightarrow> JNull)"

section \<open>Shell-style patterns (\<open>fnmatch.fnmatchcase\<close>)\<close>

text \<open>
  The members of a bracket expression: single characters and ranges \<open>a-z\<close>.
\<close>

fun class_member :: "char \<Rightarrow> string \<Rightarrow> bool" where
  "class_member c (lo # d # hi # rest) =
     (if d = CHR ''-'' then (lo \<le> c \<and> c \<le> hi) \<or> class_member c rest
      else c = lo \<or> class_member c (d # hi # rest))"
| "class_member c (x # rest) = (c = x \<or> class_member c rest)"
| "class_member c [] = False"

text \<open>Split at the closing bracket; a bracket in first place belongs to the set.\<close>

fun bracket_body :: "string \<Rightarrow> (string \<times> string) option" where
  "bracket_body [] = None"
| "bracket_body (c # cs) =
     (if c = CHR '']'' then Some ([], cs)
      else map_option (\<lambda>(body, rest). (c # body, rest)) (bracket_body cs))"

definition bracket :: "string \<Rightarrow> (bool \<times> string \<times> string) option" where
  "bracket p =
     (let (neg, q) = (case p of c # cs \<Rightarrow> if c = CHR ''!'' then (True, cs) else (False, p) | [] \<Rightarrow> (False, p))
      in case q of
           [] \<Rightarrow> None
         | c # cs \<Rightarrow> map_option (\<lambda>(body, rest). (neg, c # body, rest)) (bracket_body cs))"

lemma bracket_body_length: "bracket_body p = Some (body, rest) \<Longrightarrow> length rest < length p"
  by (induction p arbitrary: body rest) (auto split: if_splits)

lemma bracket_length: "bracket p = Some (neg, body, rest) \<Longrightarrow> length rest < length p"
  by (auto simp: bracket_def Let_def split: list.splits if_splits dest!: bracket_body_length)

function (sequential) fnmatch :: "string \<Rightarrow> string \<Rightarrow> bool" where
  "fnmatch s [] = (s = [])"
| "fnmatch s (p # ps) =
     (if p = CHR ''*'' then fnmatch s ps \<or> (case s of [] \<Rightarrow> False | _ # cs \<Rightarrow> fnmatch cs (p # ps))
      else (case s of
          [] \<Rightarrow> False
        | c # cs \<Rightarrow>
            if p = CHR ''?'' then fnmatch cs ps
            else if p = CHR ''['' then
              (case bracket ps of
                 None \<Rightarrow> c = p \<and> fnmatch cs ps
               | Some (neg, body, rest) \<Rightarrow> (class_member c body \<noteq> neg) \<and> fnmatch cs rest)
            else c = p \<and> fnmatch cs ps))"
  by pat_completeness auto
termination
  by (relation "measure (\<lambda>(s, p). length s + length p)")
    (auto dest: bracket_length)

declare fnmatch.simps [simp del]

definition plain_pattern :: "string \<Rightarrow> bool" where
  "plain_pattern p = (set p \<inter> {CHR ''*'', CHR ''?'', CHR ''[''} = {})"

lemma fnmatch_plain: "plain_pattern p \<Longrightarrow> fnmatch s p \<longleftrightarrow> s = p"
proof (induction p arbitrary: s)
  case Nil
  then show ?case by (simp add: fnmatch.simps)
next
  case (Cons p ps)
  then have "plain_pattern ps" and "p \<noteq> CHR ''*''" "p \<noteq> CHR ''?''" "p \<noteq> CHR ''[''"
    by (auto simp: plain_pattern_def)
  then show ?case using Cons.IH
    by (cases s) (auto simp: fnmatch.simps)
qed

lemma fnmatch_star: "fnmatch s ''*''"
  by (induction s) (simp_all add: fnmatch.simps)

end
