(* ===== verification/RolloutDomain.thy ===== *)
theory RolloutDomain
  imports PyValue
begin

text \<open>
  \<open>query_api/app/domain/routing_rollout.py\<close>: the revisioned life cycle of a routing
  policy change. A rollout carries the evidence (gates) that its next phases demand; every
  operation returns the next immutable version or fails closed. The clock is the argument
  \<open>now\<close> of the operations (the source's \<open>now or _utc_now()\<close>), and the ISO text of
  a time stamp is the pair of functions \<open>isoformat\<close>, \<open>fromisoformat\<close>.
\<close>

section \<open>Data\<close>

datatype RolloutPhase =
    DRAFT | VALIDATING | DUAL_WRITE | BACKFILL | VERIFYING | CUTOVER | DRAIN
  | COMPLETED | FAILED | CANCELLED | ROLLING_BACK | ROLLED_BACK

fun phase_value :: "RolloutPhase \<Rightarrow> string" where
  "phase_value DRAFT = ''draft''"
| "phase_value VALIDATING = ''validating''"
| "phase_value DUAL_WRITE = ''dual_write''"
| "phase_value BACKFILL = ''backfill''"
| "phase_value VERIFYING = ''verifying''"
| "phase_value CUTOVER = ''cutover''"
| "phase_value DRAIN = ''drain''"
| "phase_value COMPLETED = ''completed''"
| "phase_value FAILED = ''failed''"
| "phase_value CANCELLED = ''cancelled''"
| "phase_value ROLLING_BACK = ''rolling_back''"
| "phase_value ROLLED_BACK = ''rolled_back''"

definition all_phases :: "RolloutPhase list" where
  "all_phases = [DRAFT, VALIDATING, DUAL_WRITE, BACKFILL, VERIFYING, CUTOVER, DRAIN,
     COMPLETED, FAILED, CANCELLED, ROLLING_BACK, ROLLED_BACK]"

text \<open>\<open>RolloutPhase(text)\<close>: look a member up by its value.\<close>

definition phase_of_value :: "string \<Rightarrow> RolloutPhase option" where
  "phase_of_value s = find (\<lambda>p. phase_value p = s) all_phases"

record RoutingRolloutGates =
  validation_passed :: bool
  capacity_passed :: bool
  backfill_complete :: bool
  source_barrier :: string
  parity_passed :: bool
  parity_digest :: string
  unresolved_dlq :: int
  kafka_lag :: int
  max_kafka_lag :: int

definition default_gates :: RoutingRolloutGates where
  "default_gates = \<lparr>validation_passed = False, capacity_passed = False,
     backfill_complete = False, source_barrier = [], parity_passed = False,
     parity_digest = [], unresolved_dlq = 0, kafka_lag = 0, max_kafka_lag = 0\<rparr>"

record RoutingRollout =
  rollout_id :: string
  rollout_collection :: string
  active_policy :: document
  candidate_policy :: document
  created_by :: string
  rollback_window_seconds :: int
  rollout_version :: int
  phase :: RolloutPhase
  gates :: RoutingRolloutGates
  backfill_checkpoint :: document
  rollout_created_at :: "time option"
  rollout_updated_at :: "time option"
  cutover_at :: "time option"
  rollback_deadline :: "time option"
  failure_reason :: string

datatype rollout_error =
    RolloutVersionConflict int int
  | InvalidRolloutTransition
  | RolloutGateError string

text \<open>The constructor call with the defaults of the data class.\<close>

definition new_rollout ::
  "string \<Rightarrow> string \<Rightarrow> document \<Rightarrow> document \<Rightarrow> string \<Rightarrow> int \<Rightarrow> time \<Rightarrow> RoutingRollout" where
  "new_rollout rid coll active candidate actor window now =
     \<lparr>rollout_id = rid, rollout_collection = coll, active_policy = active,
      candidate_policy = candidate, created_by = actor, rollback_window_seconds = window,
      rollout_version = 1, phase = DRAFT, gates = default_gates, backfill_checkpoint = [],
      rollout_created_at = Some now, rollout_updated_at = Some now, cutover_at = None,
      rollback_deadline = None, failure_reason = []\<rparr>"

section \<open>Transitions\<close>

fun ALLOWED_TRANSITIONS :: "RolloutPhase \<Rightarrow> RolloutPhase list" where
  "ALLOWED_TRANSITIONS DRAFT = [VALIDATING, CANCELLED]"
| "ALLOWED_TRANSITIONS VALIDATING = [DUAL_WRITE, FAILED, CANCELLED]"
| "ALLOWED_TRANSITIONS DUAL_WRITE = [BACKFILL, ROLLING_BACK, FAILED]"
| "ALLOWED_TRANSITIONS BACKFILL = [VERIFYING, ROLLING_BACK, FAILED]"
| "ALLOWED_TRANSITIONS VERIFYING = [BACKFILL, CUTOVER, ROLLING_BACK, FAILED]"
| "ALLOWED_TRANSITIONS CUTOVER = [DRAIN, ROLLING_BACK, FAILED]"
| "ALLOWED_TRANSITIONS DRAIN = [COMPLETED, ROLLING_BACK, FAILED]"
| "ALLOWED_TRANSITIONS FAILED = [ROLLING_BACK]"
| "ALLOWED_TRANSITIONS ROLLING_BACK = [ROLLED_BACK, FAILED]"
| "ALLOWED_TRANSITIONS COMPLETED = []"
| "ALLOWED_TRANSITIONS CANCELLED = []"
| "ALLOWED_TRANSITIONS ROLLED_BACK = []"

definition validate_transition_gates ::
  "RoutingRollout \<Rightarrow> RolloutPhase \<Rightarrow> RoutingRolloutGates \<Rightarrow> time \<Rightarrow> rollout_error + unit" where
  "validate_transition_gates r target g now =
     (if target = DUAL_WRITE \<and> (\<not> validation_passed g \<or> \<not> capacity_passed g)
      then Raise (RolloutGateError ''validation and capacity'')
      else if target = VERIFYING \<and> (\<not> backfill_complete g \<or> source_barrier g = [])
      then Raise (RolloutGateError ''backfill and barrier'')
      else if target = CUTOVER \<and> (\<not> parity_passed g \<or> parity_digest g = [])
      then Raise (RolloutGateError ''parity'')
      else if target = CUTOVER \<and> unresolved_dlq g \<noteq> 0
      then Raise (RolloutGateError ''dlq'')
      else if target = CUTOVER \<and> kafka_lag g > max_kafka_lag g
      then Raise (RolloutGateError ''lag'')
      else if target = COMPLETED \<and>
        (case rollback_deadline r of None \<Rightarrow> True | Some deadline \<Rightarrow> now < deadline)
      then Raise (RolloutGateError ''rollback window'')
      else if target = COMPLETED \<and> (unresolved_dlq g \<noteq> 0 \<or> kafka_lag g > max_kafka_lag g)
      then Raise (RolloutGateError ''lag and dlq'')
      else Ok ())"

text \<open>Microseconds of \<open>timedelta(seconds=n)\<close>.\<close>

definition seconds :: "int \<Rightarrow> time" where
  "seconds n = n * 1000000"

definition transition ::
  "RoutingRollout \<Rightarrow> RolloutPhase \<Rightarrow> int \<Rightarrow> RoutingRolloutGates option \<Rightarrow> document option
   \<Rightarrow> string \<Rightarrow> time \<Rightarrow> rollout_error + RoutingRollout" where
  "transition r target expected_version new_gates checkpoint reason now =
     (if expected_version \<noteq> rollout_version r
      then Raise (RolloutVersionConflict expected_version (rollout_version r))
      else if target \<notin> set (ALLOWED_TRANSITIONS (phase r)) then Raise InvalidRolloutTransition
      else
        let effective_gates = (case new_gates of Some g \<Rightarrow> g | None \<Rightarrow> gates r) in
        ebind (validate_transition_gates r target effective_gates now) (\<lambda>_.
          Ok (r\<lparr>phase := target,
                rollout_version := rollout_version r + 1,
                gates := effective_gates,
                backfill_checkpoint :=
                  (case checkpoint of Some c \<Rightarrow> c | None \<Rightarrow> backfill_checkpoint r),
                rollout_updated_at := Some now,
                cutover_at := (if target = CUTOVER then Some now else cutover_at r),
                rollback_deadline :=
                  (if target = CUTOVER then Some (now + seconds (rollback_window_seconds r))
                   else rollback_deadline r),
                failure_reason := (if target = FAILED then reason else [])\<rparr>)))"

definition record_backfill_progress ::
  "RoutingRollout \<Rightarrow> int \<Rightarrow> document \<Rightarrow> string \<Rightarrow> bool \<Rightarrow> time \<Rightarrow> rollout_error + RoutingRollout" where
  "record_backfill_progress r expected_version checkpoint barrier is_complete now =
     (if expected_version \<noteq> rollout_version r
      then Raise (RolloutVersionConflict expected_version (rollout_version r))
      else if phase r \<noteq> BACKFILL then Raise InvalidRolloutTransition
      else if barrier = [] then Raise (RolloutGateError ''durable source barrier'')
      else Ok (r\<lparr>rollout_version := rollout_version r + 1,
                 gates := (gates r)\<lparr>backfill_complete := is_complete, source_barrier := barrier,
                   parity_passed := False, parity_digest := []\<rparr>,
                 backfill_checkpoint := checkpoint,
                 rollout_updated_at := Some now\<rparr>))"

definition record_parity_evidence ::
  "RoutingRollout \<Rightarrow> int \<Rightarrow> bool \<Rightarrow> string \<Rightarrow> document \<Rightarrow> time \<Rightarrow> rollout_error + RoutingRollout" where
  "record_parity_evidence r expected_version passed digest checkpoint now =
     (if expected_version \<noteq> rollout_version r
      then Raise (RolloutVersionConflict expected_version (rollout_version r))
      else if phase r \<noteq> VERIFYING then Raise InvalidRolloutTransition
      else if passed \<and> (\<not> backfill_complete (gates r) \<or> source_barrier (gates r) = [])
      then Raise (RolloutGateError ''backfill and barrier for parity'')
      else if passed \<and> digest = [] then Raise (RolloutGateError ''parity digest'')
      else Ok (r\<lparr>rollout_version := rollout_version r + 1,
                 gates := (gates r)\<lparr>parity_passed := passed,
                   parity_digest := (if passed then digest else [])\<rparr>,
                 backfill_checkpoint := checkpoint,
                 rollout_updated_at := Some now\<rparr>))"

section \<open>The policies read and written in a phase\<close>

datatype policy_name = Active | Candidate

definition policy_modes :: "RoutingRollout \<Rightarrow> policy_name list \<times> policy_name list" where
  "policy_modes r =
     (if phase r \<in> {DRAFT, VALIDATING, CANCELLED, ROLLED_BACK} then ([Active], [Active])
      else if phase r \<in> {DUAL_WRITE, BACKFILL, VERIFYING, ROLLING_BACK}
      then ([Active, Candidate], [Active, Candidate])
      else if phase r \<in> {CUTOVER, DRAIN} then ([Candidate], [Active, Candidate])
      else if phase r = COMPLETED then ([Candidate], [Candidate])
      else ([Active, Candidate], [Active, Candidate]))"

definition read_modes :: "RoutingRollout \<Rightarrow> policy_name list" where
  "read_modes r = fst (policy_modes r)"

definition write_modes :: "RoutingRollout \<Rightarrow> policy_name list" where
  "write_modes r = snd (policy_modes r)"

lemmas modes_defs = read_modes_def write_modes_def policy_modes_def

definition unique_targets :: "string list \<Rightarrow> string list" where
  "unique_targets targets = fromkeys targets"

section \<open>Persistence\<close>

definition time_json :: "(time \<Rightarrow> string) \<Rightarrow> time option \<Rightarrow> json" where
  "time_json isoformat t = (case t of Some x \<Rightarrow> JStr (isoformat x) | None \<Rightarrow> JNull)"

definition gates_to_dict :: "RoutingRolloutGates \<Rightarrow> document" where
  "gates_to_dict g =
     [(''validation_passed'', JBool (validation_passed g)),
      (''capacity_passed'', JBool (capacity_passed g)),
      (''backfill_complete'', JBool (backfill_complete g)),
      (''source_barrier'', JStr (source_barrier g)),
      (''parity_passed'', JBool (parity_passed g)),
      (''parity_digest'', JStr (parity_digest g)),
      (''unresolved_dlq'', JInt (unresolved_dlq g)),
      (''kafka_lag'', JInt (kafka_lag g)),
      (''max_kafka_lag'', JInt (max_kafka_lag g))]"

definition to_dict :: "(time \<Rightarrow> string) \<Rightarrow> RoutingRollout \<Rightarrow> document" where
  "to_dict isoformat r =
     [(''rollout_id'', JStr (rollout_id r)),
      (''collection'', JStr (rollout_collection r)),
      (''active_policy'', JObj (active_policy r)),
      (''candidate_policy'', JObj (candidate_policy r)),
      (''created_by'', JStr (created_by r)),
      (''rollback_window_seconds'', JInt (rollback_window_seconds r)),
      (''version'', JInt (rollout_version r)),
      (''phase'', JStr (phase_value (phase r))),
      (''gates'', JObj (gates_to_dict (gates r))),
      (''backfill_checkpoint'', JObj (backfill_checkpoint r)),
      (''created_at'', time_json isoformat (rollout_created_at r)),
      (''updated_at'', time_json isoformat (rollout_updated_at r)),
      (''cutover_at'', time_json isoformat (cutover_at r)),
      (''rollback_deadline'', time_json isoformat (rollback_deadline r)),
      (''failure_reason'', JStr (failure_reason r))]"

datatype payload_error =
    KeyError string          \<comment> \<open>\<open>values["phase"]\<close> on a payload without it\<close>
  | ValueError string        \<comment> \<open>not a phase, not an ISO time\<close>
  | TypeError string         \<comment> \<open>missing or unexpected constructor argument\<close>
  | IllTyped string          \<comment> \<open>a JSON type the typed record cannot hold\<close>

text \<open>The readers of one constructor argument; \<open>None\<close> when the JSON type is another.\<close>

fun as_str :: "json \<Rightarrow> string option" where
  "as_str (JStr s) = Some s"
| "as_str _ = None"

fun as_bool :: "json \<Rightarrow> bool option" where
  "as_bool (JBool b) = Some b"
| "as_bool _ = None"

fun as_int :: "json \<Rightarrow> int option" where
  "as_int (JInt i) = Some i"
| "as_int _ = None"

fun as_obj :: "json \<Rightarrow> document option" where
  "as_obj (JObj d) = Some d"
| "as_obj _ = None"

definition argument :: "(json \<Rightarrow> 'a option) \<Rightarrow> 'a option \<Rightarrow> document \<Rightarrow> string \<Rightarrow> payload_error + 'a" where
  "argument reader fallback d k =
     (case dget d k of
        None \<Rightarrow> (case fallback of Some x \<Rightarrow> Ok x | None \<Rightarrow> Raise (TypeError k))
      | Some v \<Rightarrow> (case reader v of Some x \<Rightarrow> Ok x | None \<Rightarrow> Raise (IllTyped k)))"

definition known_arguments :: "string list \<Rightarrow> document \<Rightarrow> payload_error + unit" where
  "known_arguments names d =
     (case find (\<lambda>k. k \<notin> set names) (dkeys d) of
        Some k \<Rightarrow> Raise (TypeError k)
      | None \<Rightarrow> Ok ())"

definition gate_fields :: "string list" where
  "gate_fields = [''validation_passed'', ''capacity_passed'', ''backfill_complete'',
     ''source_barrier'', ''parity_passed'', ''parity_digest'', ''unresolved_dlq'',
     ''kafka_lag'', ''max_kafka_lag'']"

definition gates_from_dict :: "document \<Rightarrow> payload_error + RoutingRolloutGates" where
  "gates_from_dict d =
     ebind (known_arguments gate_fields d) (\<lambda>_.
     ebind (argument as_bool (Some False) d ''validation_passed'') (\<lambda>vp.
     ebind (argument as_bool (Some False) d ''capacity_passed'') (\<lambda>cp.
     ebind (argument as_bool (Some False) d ''backfill_complete'') (\<lambda>bc.
     ebind (argument as_str (Some []) d ''source_barrier'') (\<lambda>sb.
     ebind (argument as_bool (Some False) d ''parity_passed'') (\<lambda>pp.
     ebind (argument as_str (Some []) d ''parity_digest'') (\<lambda>pd.
     ebind (argument as_int (Some 0) d ''unresolved_dlq'') (\<lambda>dlq.
     ebind (argument as_int (Some 0) d ''kafka_lag'') (\<lambda>lag.
     ebind (argument as_int (Some 0) d ''max_kafka_lag'') (\<lambda>mx.
       Ok \<lparr>validation_passed = vp, capacity_passed = cp, backfill_complete = bc,
         source_barrier = sb, parity_passed = pp, parity_digest = pd,
         unresolved_dlq = dlq, kafka_lag = lag, max_kafka_lag = mx\<rparr>))))))))))"

definition time_from_json ::
  "(string \<Rightarrow> time option) \<Rightarrow> document \<Rightarrow> string \<Rightarrow> payload_error + time option" where
  "time_from_json fromisoformat d k =
     (let v = jget d k in
      if \<not> truthy v then Ok None
      else (case as_str v of
              None \<Rightarrow> Raise (TypeError k)
            | Some s \<Rightarrow> (case fromisoformat s of None \<Rightarrow> Raise (ValueError k) | Some t \<Rightarrow> Ok (Some t))))"

definition rollout_fields :: "string list" where
  "rollout_fields = [''rollout_id'', ''collection'', ''active_policy'', ''candidate_policy'',
     ''created_by'', ''rollback_window_seconds'', ''version'', ''phase'', ''gates'',
     ''backfill_checkpoint'', ''created_at'', ''updated_at'', ''cutover_at'',
     ''rollback_deadline'', ''failure_reason'']"

definition phase_from_payload :: "document \<Rightarrow> payload_error + RolloutPhase" where
  "phase_from_payload d =
     (case dget d ''phase'' of
        None \<Rightarrow> Raise (KeyError ''phase'')
      | Some v \<Rightarrow> (case Option.bind (as_str v) phase_of_value of
          None \<Rightarrow> Raise (ValueError ''phase'') | Some p \<Rightarrow> Ok p))"

definition from_dict :: "(string \<Rightarrow> time option) \<Rightarrow> document \<Rightarrow> payload_error + RoutingRollout" where
  "from_dict fromisoformat d =
     ebind (phase_from_payload d) (\<lambda>ph.
     ebind (argument as_obj (Some []) d ''gates'') (\<lambda>gd.
     ebind (gates_from_dict gd) (\<lambda>g.
     ebind (time_from_json fromisoformat d ''created_at'') (\<lambda>created.
     ebind (time_from_json fromisoformat d ''updated_at'') (\<lambda>updated.
     ebind (time_from_json fromisoformat d ''cutover_at'') (\<lambda>cut.
     ebind (time_from_json fromisoformat d ''rollback_deadline'') (\<lambda>deadline.
     ebind (known_arguments rollout_fields d) (\<lambda>_.
     ebind (argument as_str None d ''rollout_id'') (\<lambda>rid.
     ebind (argument as_str None d ''collection'') (\<lambda>coll.
     ebind (argument as_obj None d ''active_policy'') (\<lambda>ap.
     ebind (argument as_obj None d ''candidate_policy'') (\<lambda>cp.
     ebind (argument as_str None d ''created_by'') (\<lambda>cb.
     ebind (argument as_int None d ''rollback_window_seconds'') (\<lambda>w.
     ebind (argument as_int (Some 1) d ''version'') (\<lambda>ver.
     ebind (argument as_obj (Some []) d ''backfill_checkpoint'') (\<lambda>bc.
     ebind (argument as_str (Some []) d ''failure_reason'') (\<lambda>reason.
       Ok \<lparr>rollout_id = rid, rollout_collection = coll, active_policy = ap,
         candidate_policy = cp, created_by = cb, rollback_window_seconds = w,
         rollout_version = ver, phase = ph, gates = g, backfill_checkpoint = bc,
         rollout_created_at = created, rollout_updated_at = updated, cutover_at = cut,
         rollback_deadline = deadline, failure_reason = reason\<rparr>)))))))))))))))))"

lemmas rollout_ops [op_defs] =
  transition_def record_backfill_progress_def record_parity_evidence_def

section \<open>Histories of a rollout\<close>

text \<open>
  Whatever its callers ask for, a rollout is what a chain of successful operations made of
  the draft that \<open>new_rollout\<close> returned.
\<close>

inductive rollout_step :: "RoutingRollout \<Rightarrow> RoutingRollout \<Rightarrow> bool" where
  Transition: "transition r target v g c reason now = Ok r' \<Longrightarrow> rollout_step r r'"
| Progress: "record_backfill_progress r v c barrier done_flag now = Ok r' \<Longrightarrow> rollout_step r r'"
| Parity: "record_parity_evidence r v passed digest c now = Ok r' \<Longrightarrow> rollout_step r r'"

inductive rollout_history :: "RoutingRollout \<Rightarrow> RoutingRollout \<Rightarrow> bool" where
  Created: "rollout_history r r"
| Stepped: "rollout_history r0 r \<Longrightarrow> rollout_step r r' \<Longrightarrow> rollout_history r0 r'"

inductive_cases rollout_stepE: "rollout_step r r'"

lemma validate_Ok_iff:
  "validate_transition_gates r target g now = Ok u \<longleftrightarrow>
     (target = DUAL_WRITE \<longrightarrow> validation_passed g \<and> capacity_passed g) \<and>
     (target = VERIFYING \<longrightarrow> backfill_complete g \<and> source_barrier g \<noteq> []) \<and>
     (target = CUTOVER \<longrightarrow> parity_passed g \<and> parity_digest g \<noteq> [] \<and> unresolved_dlq g = 0 \<and>
        kafka_lag g \<le> max_kafka_lag g) \<and>
     (target = COMPLETED \<longrightarrow> (\<exists>deadline. rollback_deadline r = Some deadline \<and> deadline \<le> now) \<and>
        unresolved_dlq g = 0 \<and> kafka_lag g \<le> max_kafka_lag g)"
  unfolding validate_transition_gates_def
  by (cases target; cases "rollback_deadline r") auto

lemma transition_OkD:
  assumes "transition r target v g c reason now = Ok r'"
  shows "v = rollout_version r" and "target \<in> set (ALLOWED_TRANSITIONS (phase r))"
    and "rollout_version r' = rollout_version r + 1" and "phase r' = target"
    and "gates r' = (case g of Some g' \<Rightarrow> g' | None \<Rightarrow> gates r)"
    and "validate_transition_gates r target (gates r') now = Ok ()"
    and "cutover_at r' = (if target = CUTOVER then Some now else cutover_at r)"
    and "rollback_deadline r' = (if target = CUTOVER
           then Some (now + seconds (rollback_window_seconds r)) else rollback_deadline r)"
    and "rollback_window_seconds r' = rollback_window_seconds r"
    and "rollout_updated_at r' = Some now"
    and "failure_reason r' = (if target = FAILED then reason else [])"
    and "rollout_id r' = rollout_id r" and "rollout_collection r' = rollout_collection r"
    and "active_policy r' = active_policy r" and "candidate_policy r' = candidate_policy r"
    and "created_by r' = created_by r" and "rollout_created_at r' = rollout_created_at r"
  using assms by (auto simp: transition_def Let_def ebind_eq_Ok split: if_splits)

lemma progress_OkD:
  assumes "record_backfill_progress r v c barrier d now = Ok r'"
  shows "v = rollout_version r" and "phase r = BACKFILL" and "barrier \<noteq> []"
    and "r' = r\<lparr>rollout_version := rollout_version r + 1,
                gates := (gates r)\<lparr>backfill_complete := d, source_barrier := barrier,
                  parity_passed := False, parity_digest := []\<rparr>,
                backfill_checkpoint := c, rollout_updated_at := Some now\<rparr>"
  using assms by (auto simp: record_backfill_progress_def split: if_splits)

lemma parity_OkD:
  assumes "record_parity_evidence r v passed digest c now = Ok r'"
  shows "v = rollout_version r" and "phase r = VERIFYING"
    and "passed \<Longrightarrow> backfill_complete (gates r) \<and> source_barrier (gates r) \<noteq> [] \<and> digest \<noteq> []"
    and "r' = r\<lparr>rollout_version := rollout_version r + 1,
                gates := (gates r)\<lparr>parity_passed := passed,
                  parity_digest := (if passed then digest else [])\<rparr>,
                backfill_checkpoint := c, rollout_updated_at := Some now\<rparr>"
  using assms by (auto simp: record_parity_evidence_def split: if_splits)

text \<open>What every operation keeps, and the version it moves by one.\<close>

lemma rollout_step_frame:
  assumes "rollout_step r r'"
  shows "rollout_version r' = rollout_version r + 1 \<and> rollout_id r' = rollout_id r
    \<and> rollout_collection r' = rollout_collection r \<and> active_policy r' = active_policy r
    \<and> candidate_policy r' = candidate_policy r \<and> created_by r' = created_by r
    \<and> rollback_window_seconds r' = rollback_window_seconds r
    \<and> rollout_created_at r' = rollout_created_at r"
  using assms
proof (cases rule: rollout_step.cases)
  case Transition
  then show ?thesis by (simp add: transition_OkD)
next
  case Progress
  from progress_OkD(4) [OF this] show ?thesis by simp
next
  case Parity
  from parity_OkD(4) [OF this] show ?thesis by simp
qed

lemma rollout_step_phase:
  assumes "rollout_step r r'"
  shows "phase r' = phase r \<or> phase r' \<in> set (ALLOWED_TRANSITIONS (phase r))"
  using assms
proof (cases rule: rollout_step.cases)
  case Transition
  then show ?thesis by (simp add: transition_OkD)
next
  case Progress
  from progress_OkD(4) [OF this] show ?thesis by simp
next
  case Parity
  from parity_OkD(4) [OF this] show ?thesis by simp
qed

text \<open>The evidence a rollout carries in each phase.\<close>

fun phase_evidence :: "RolloutPhase \<Rightarrow> RoutingRollout \<Rightarrow> bool" where
  "phase_evidence VERIFYING r =
     (cutover_at r = None \<and> rollback_deadline r = None \<and>
      backfill_complete (gates r) \<and> source_barrier (gates r) \<noteq> [])"
| "phase_evidence CUTOVER r =
     ((\<exists>t. cutover_at r = Some t \<and>
           rollback_deadline r = Some (t + seconds (rollback_window_seconds r))) \<and>
      parity_passed (gates r) \<and> parity_digest (gates r) \<noteq> [] \<and>
      unresolved_dlq (gates r) = 0 \<and> kafka_lag (gates r) \<le> max_kafka_lag (gates r))"
| "phase_evidence DRAIN r =
     (\<exists>t. cutover_at r = Some t \<and>
          rollback_deadline r = Some (t + seconds (rollback_window_seconds r)))"
| "phase_evidence COMPLETED r =
     ((\<exists>t now. cutover_at r = Some t \<and>
           rollback_deadline r = Some (t + seconds (rollback_window_seconds r)) \<and>
           rollout_updated_at r = Some now \<and> t + seconds (rollback_window_seconds r) \<le> now) \<and>
      unresolved_dlq (gates r) = 0 \<and> kafka_lag (gates r) \<le> max_kafka_lag (gates r))"
| "phase_evidence FAILED r = True"
| "phase_evidence ROLLING_BACK r = True"
| "phase_evidence ROLLED_BACK r = True"
| "phase_evidence _ r = (cutover_at r = None \<and> rollback_deadline r = None)"

definition rollout_inv :: "RoutingRollout \<Rightarrow> bool" where
  "rollout_inv r \<longleftrightarrow>
     phase_evidence (phase r) r \<and> (failure_reason r \<noteq> [] \<longrightarrow> phase r = FAILED)"

lemma rollout_inv_new: "rollout_inv (new_rollout rid coll ap cp actor w now)"
  by (simp add: rollout_inv_def new_rollout_def)

lemma rollout_inv_transition:
  assumes "rollout_inv r" and "transition r target v g c reason now = Ok r'"
  shows "rollout_inv r'"
proof -
  note facts = transition_OkD(2,4,6-11) [OF assms(2)]
  have "phase_evidence target r'"
    using assms(1) facts by (cases "phase r"; cases target) (auto simp: rollout_inv_def validate_Ok_iff)
  with facts show ?thesis by (simp add: rollout_inv_def)
qed

lemma rollout_inv_progress:
  assumes "rollout_inv r" and "record_backfill_progress r v c barrier d now = Ok r'"
  shows "rollout_inv r'"
  using assms(1) progress_OkD(2) [OF assms(2)]
  unfolding progress_OkD(4) [OF assms(2)] by (simp add: rollout_inv_def)

lemma rollout_inv_parity:
  assumes "rollout_inv r" and "record_parity_evidence r v p dg c now = Ok r'"
  shows "rollout_inv r'"
  using assms(1) parity_OkD(2) [OF assms(2)]
  unfolding parity_OkD(4) [OF assms(2)] by (simp add: rollout_inv_def)

lemma rollout_inv_step: "rollout_step r r' \<Longrightarrow> rollout_inv r \<Longrightarrow> rollout_inv r'"
  by (erule rollout_step.cases)
    (auto dest: rollout_inv_transition rollout_inv_progress rollout_inv_parity)

lemma rollout_inv_history: "rollout_history r0 r \<Longrightarrow> rollout_inv r0 \<Longrightarrow> rollout_inv r"
  by (induction rule: rollout_history.induct) (auto dest: rollout_inv_step)

section \<open>Evidence, lost updates, rollback\<close>

lemma rollout_history_version: "rollout_history r0 r \<Longrightarrow> rollout_version r0 \<le> rollout_version r"
  by (induction rule: rollout_history.induct) (auto dest: rollout_step_frame)

lemma rollout_history_frame:
  "rollout_history r0 r \<Longrightarrow>
     rollout_collection r = rollout_collection r0 \<and> active_policy r = active_policy r0 \<and>
     candidate_policy r = candidate_policy r0 \<and>
     rollback_window_seconds r = rollback_window_seconds r0"
  by (induction rule: rollout_history.induct) (auto dest: rollout_step_frame)

text \<open>
  C3. Every rollout that any sequence of successful calls can produce carries the evidence of its
  phase: verification only with a complete backfill and a barrier, cutover only with passing
  parity, its digest, no unresolved DLQ message and lag within budget, drain and completion only
  with the deadline that the configured rollback window sets after the cutover, and completion
  only once that deadline has passed. The policies and the window never change.
\<close>

theorem reachable_rollout_evidence:
  assumes "rollout_history (new_rollout rid coll ap cp actor w t0) r"
  shows "phase_evidence (phase r) r \<and> (failure_reason r \<noteq> [] \<longrightarrow> phase r = FAILED) \<and>
    1 \<le> rollout_version r \<and> active_policy r = ap \<and> candidate_policy r = cp \<and>
    rollback_window_seconds r = w"
  using rollout_inv_history [OF assms rollout_inv_new] rollout_history_version [OF assms]
    rollout_history_frame [OF assms]
  by (simp add: rollout_inv_def new_rollout_def)

text \<open>A concrete rollout in its cutover phase, used by the witnesses.\<close>

definition sample_gates :: RoutingRolloutGates where
  "sample_gates = \<lparr>validation_passed = True, capacity_passed = True, backfill_complete = True,
     source_barrier = ''7'', parity_passed = True, parity_digest = ''d'', unresolved_dlq = 0,
     kafka_lag = 2, max_kafka_lag = 5\<rparr>"

definition sample_draft :: RoutingRollout where
  "sample_draft = new_rollout ''r1'' ''books'' [] [(''default_cluster'', JStr ''b'')] ''ops'' 60 0"

fun sample_run :: "RolloutPhase list \<Rightarrow> RoutingRollout \<Rightarrow> rollout_error + RoutingRollout" where
  "sample_run [] r = Ok r"
| "sample_run (p # ps) r =
     ebind (transition r p (rollout_version r) (Some sample_gates) None [] 100) (sample_run ps)"

lemma sample_run_history:
  "rollout_history r0 r \<Longrightarrow> sample_run ps r = Ok r' \<Longrightarrow> rollout_history r0 r'"
  by (induction ps r rule: sample_run.induct)
    (auto simp: ebind_eq_Ok dest: rollout_history.Stepped [OF _ rollout_step.Transition])

definition sample_cutover :: RoutingRollout where
  "sample_cutover = sample_draft\<lparr>phase := CUTOVER, rollout_version := 6, gates := sample_gates,
     rollout_updated_at := Some 100, cutover_at := Some 100, rollback_deadline := Some 60000100\<rparr>"

lemma sample_cutover_run:
  "sample_run [VALIDATING, DUAL_WRITE, BACKFILL, VERIFYING, CUTOVER] sample_draft = Ok sample_cutover"
  by (simp add: sample_draft_def new_rollout_def sample_cutover_def transition_def
      validate_transition_gates_def sample_gates_def seconds_def)

lemma sample_cutover_history: "rollout_history sample_draft sample_cutover"
  using sample_run_history [OF rollout_history.Created sample_cutover_run] .

theorem reachable_rollout_evidence_witness:
  "phase_evidence (phase sample_cutover) sample_cutover \<and> rollback_window_seconds sample_cutover = 60"
  using reachable_rollout_evidence [OF sample_cutover_history [unfolded sample_draft_def]] by blast

text \<open>
  C4. No update is lost: once any operation has succeeded on a version, every operation that
  still names that version is refused with the version conflict, whatever happened since.
\<close>

theorem stale_rollout_writer_refused:
  assumes "rollout_step r r'" and "rollout_history r' r''"
  shows "transition r'' target (rollout_version r) g c reason now =
      Raise (RolloutVersionConflict (rollout_version r) (rollout_version r'')) \<and>
    record_backfill_progress r'' (rollout_version r) ck barrier d now =
      Raise (RolloutVersionConflict (rollout_version r) (rollout_version r'')) \<and>
    record_parity_evidence r'' (rollout_version r) passed digest ck now =
      Raise (RolloutVersionConflict (rollout_version r) (rollout_version r''))"
  using rollout_step_frame [OF assms(1)] rollout_history_version [OF assms(2)]
  by (auto simp: op_defs)

theorem stale_rollout_writer_refused_witness:
  "\<exists>r'. rollout_step sample_cutover r' \<and>
     transition r' DRAIN (rollout_version sample_cutover) None None [] 5 =
       Raise (RolloutVersionConflict (rollout_version sample_cutover) (rollout_version r'))"
proof -
  have "\<exists>r'. transition sample_cutover DRAIN 6 None None [] 200 = Ok r'"
    by (simp add: sample_cutover_def transition_def validate_transition_gates_def)
  then obtain r' where "rollout_step sample_cutover r'" by (auto intro: rollout_step.Transition)
  with stale_rollout_writer_refused [OF this rollout_history.Created] show ?thesis by blast
qed

text \<open>
  C5. Rollback can always be taken: from every phase between the start of dual writing and
  completion, and from a failure, two gate-free transitions lead to \<open>ROLLED_BACK\<close>;
  until then the active policy is still written, so that no write is lost by going back;
  while rolling back both policies are read and written, and afterwards only the active one.
\<close>

theorem rollback_always_available:
  assumes "phase r \<in> {DUAL_WRITE, BACKFILL, VERIFYING, CUTOVER, DRAIN, FAILED}"
  shows "Active \<in> set (snd (policy_modes r)) \<and>
    (\<exists>r1 r2. transition r ROLLING_BACK (rollout_version r) None None [] t1 = Ok r1 \<and>
    policy_modes r1 = ([Active, Candidate], [Active, Candidate]) \<and>
    transition r1 ROLLED_BACK (rollout_version r1) None None [] t2 = Ok r2 \<and>
    policy_modes r2 = ([Active], [Active]) \<and> ALLOWED_TRANSITIONS (phase r2) = [])"
  using assms
  by (auto simp: transition_def validate_transition_gates_def policy_modes_def)

theorem rollback_always_available_witness:
  "\<exists>r1 r2. transition sample_cutover ROLLING_BACK 6 None None [] 7 = Ok r1 \<and>
    transition r1 ROLLED_BACK (rollout_version r1) None None [] 8 = Ok r2 \<and>
    policy_modes r2 = ([Active], [Active])"
proof -
  have "phase sample_cutover \<in> {DUAL_WRITE, BACKFILL, VERIFYING, CUTOVER, DRAIN, FAILED}"
    and "rollout_version sample_cutover = 6" by (simp_all add: sample_cutover_def)
  with rollback_always_available [of sample_cutover 7 8] show ?thesis by fastforce
qed

section \<open>Round trip of the persisted document\<close>

lemma phase_of_value_value [simp]: "phase_of_value (phase_value p) = Some p"
  by (cases p) (simp_all add: phase_of_value_def all_phases_def)

lemma gates_roundtrip: "gates_from_dict (gates_to_dict g) = Ok g"
  by (simp add: gates_from_dict_def gates_to_dict_def known_arguments_def gate_fields_def
      argument_def)

lemma time_from_json_stored:
  assumes "\<And>t. fromisoformat (isoformat t) = Some t" and "\<And>t. isoformat t \<noteq> []"
    and "dget d k = Some (time_json isoformat t)"
  shows "time_from_json fromisoformat d k = Ok t"
  using assms by (cases t) (simp_all add: time_from_json_def time_json_def jget_def)

text \<open>
  Writing a rollout into the control-plane document and reading it back gives the same
  rollout, whatever its phase, gates and time stamps, when the ISO text of a time reads back.
\<close>

theorem rollout_dict_roundtrip:
  assumes "\<And>t. fromisoformat (isoformat t) = Some t" and "\<And>t. isoformat t \<noteq> []"
  shows "from_dict fromisoformat (to_dict isoformat r) = Ok r"
proof -
  note stored = time_from_json_stored [of fromisoformat isoformat, OF assms]
  have "time_from_json fromisoformat (to_dict isoformat r) ''created_at'' = Ok (rollout_created_at r)"
    "time_from_json fromisoformat (to_dict isoformat r) ''updated_at'' = Ok (rollout_updated_at r)"
    "time_from_json fromisoformat (to_dict isoformat r) ''cutover_at'' = Ok (cutover_at r)"
    "time_from_json fromisoformat (to_dict isoformat r) ''rollback_deadline'' = Ok (rollback_deadline r)"
    by (rule stored, simp add: to_dict_def)+
  then show ?thesis
    by (simp add: from_dict_def phase_from_payload_def argument_def known_arguments_def
        rollout_fields_def to_dict_def gates_roundtrip)
qed

text \<open>A decimal clock text for the witness.\<close>

fun unary :: "string \<Rightarrow> time option" where
  "unary [] = None"
| "unary (c # cs) = (if c = CHR ''+'' then Some (int (length cs))
     else if c = CHR ''-'' then Some (- int (length cs)) else None)"

definition unary_text :: "time \<Rightarrow> string" where
  "unary_text t = (if t < 0 then CHR ''-'' # replicate (nat (- t)) CHR ''x''
     else CHR ''+'' # replicate (nat t) CHR ''x'')"

lemma unary_reads: "unary (unary_text t) = Some t" and unary_text_not_Nil: "unary_text t \<noteq> []"
  by (simp_all add: unary_text_def)

theorem rollout_dict_roundtrip_witness:
  "from_dict unary (to_dict unary_text sample_cutover) = Ok sample_cutover"
  using rollout_dict_roundtrip [of unary unary_text, OF unary_reads unary_text_not_Nil] .

end
