(* ===== verification/SecretResolver.thy ===== *)
theory SecretResolver
  imports PyValue
begin

text \<open>
  \<open>query_api/app/secret_resolver.py\<close>: provider-neutral references to cluster
  credentials. A reference \<open>scheme:locator\<close> names a provider and what to ask it; the
  value is resolved at use and refused unless it is safe. The process environment is the
  provider's own dictionary; the file system and UTF-8 decoding are arguments. The
  \<open>SecretProvider\<close> protocol is the locale \<open>secret_provider\<close>, interpreted on the two
  providers of the file.
\<close>

datatype secret_error =
    ReferenceNotTrimmed | ReferenceTooLong | ReferenceFormat | LocatorCharacters
  | SecretEmpty | SecretNul
  | EnvLocatorInvalid | EnvUnavailable
  | FileEscapesRoot | FileUnavailable | FileInaccessible | FileNotRegular | FileTooLarge
  | FileUnreadable | FileNotUtf8
  | ProviderNotConfigured | NoProvider | BadProviderName
  | ExactlyOneSecret | InlineForbidden

section \<open>References\<close>

text \<open>\<open>^[A-Za-z_][A-Za-z0-9_]*$\<close> and \<open>^[a-z][a-z0-9_-]{0,31}$\<close>.\<close>

fun ENV_NAME_PATTERN :: "string \<Rightarrow> bool" where
  "ENV_NAME_PATTERN [] = False"
| "ENV_NAME_PATTERN (c # cs) =
     ((is_lower c \<or> is_upper c \<or> c = CHR ''_'') \<and> list_all (\<lambda>x. is_alnum x \<or> x = CHR ''_'') cs)"

fun SCHEME_PATTERN :: "string \<Rightarrow> bool" where
  "SCHEME_PATTERN [] = False"
| "SCHEME_PATTERN (c # cs) =
     (is_lower c \<and>
      matches (\<lambda>x. is_lower x \<or> is_digit x \<or> x = CHR ''_'' \<or> x = CHR ''-'') 0 31 cs)"

definition MAX_REFERENCE_LENGTH :: nat where "MAX_REFERENCE_LENGTH = 1024"
definition MAX_SECRET_BYTES :: nat where "MAX_SECRET_BYTES = 64 * 1024"

text \<open>\<open>text.partition(sep)\<close>: head, whether the separator occurs, tail.\<close>

definition partition_on :: "char \<Rightarrow> string \<Rightarrow> string \<times> bool \<times> string" where
  "partition_on sep s =
     (let h = takeWhile (\<lambda>c. c \<noteq> sep) s; t = dropWhile (\<lambda>c. c \<noteq> sep) s
      in case t of [] \<Rightarrow> (s, False, []) | _ # rest \<Rightarrow> (h, True, rest))"

definition parse_secret_reference :: "string \<Rightarrow> secret_error + string \<times> string" where
  "parse_secret_reference ref =
     (if ref = [] \<or> ref \<noteq> strip ref then Raise ReferenceNotTrimmed
      else if length ref > MAX_REFERENCE_LENGTH then Raise ReferenceTooLong
      else case partition_on CHR '':'' ref of (scheme, found, locator) \<Rightarrow>
        if \<not> found \<or> \<not> SCHEME_PATTERN scheme \<or> locator = [] then Raise ReferenceFormat
        else if (\<exists>c \<in> set locator. c \<in> {CHR 0x00, CHR 0x0D, CHR 0x0A}) then Raise LocatorCharacters
        else Ok (scheme, locator))"

section \<open>Values\<close>

definition is_crlf :: "char \<Rightarrow> bool" where
  "is_crlf c = (c = CHR 0x0D \<or> c = CHR 0x0A)"

definition rstrip_crlf :: "string \<Rightarrow> string" where
  "rstrip_crlf s = rev (dropWhile is_crlf (rev s))"

definition validated_secret_value :: "string \<Rightarrow> secret_error + string" where
  "validated_secret_value v =
     (let normalized = rstrip_crlf v in
      if normalized = [] then Raise SecretEmpty
      else if CHR 0x00 \<in> set normalized then Raise SecretNul
      else Ok normalized)"

definition safe_secret :: "string \<Rightarrow> bool" where
  "safe_secret v \<longleftrightarrow> v \<noteq> [] \<and> CHR 0x00 \<notin> set v \<and> \<not> is_crlf (last v)"

lemma rstrip_crlf_last: "rstrip_crlf v \<noteq> [] \<Longrightarrow> \<not> is_crlf (last (rstrip_crlf v))"
  unfolding rstrip_crlf_def using hd_dropWhile [of is_crlf "rev v"] by (simp add: last_rev)

lemma validated_secret_safe: "validated_secret_value v = Ok w \<Longrightarrow> safe_secret w"
  using rstrip_crlf_last [of v]
  by (auto simp: validated_secret_value_def safe_secret_def Let_def split: if_splits)

section \<open>Providers\<close>

text \<open>What the file system says about a locator below the root.\<close>

datatype file_entry =
    Missing | Inaccessible | Special
  | Regular nat "nat list option"   \<comment> \<open>\<open>st_size\<close>, and the bytes when they can be read\<close>

text \<open>\<open>Path(locator).parts\<close>: empty and dot segments do not count.\<close>

definition path_parts :: "string \<Rightarrow> string list" where
  "path_parts s = filter (\<lambda>p. p \<noteq> [] \<and> p \<noteq> ''.'') (split_on CHR ''/'' s)"

definition env_resolve :: "(string, string) pydict \<Rightarrow> string \<Rightarrow> secret_error + string" where
  "env_resolve environ locator =
     (if \<not> ENV_NAME_PATTERN locator then Raise EnvLocatorInvalid
      else case dget environ locator of
        None \<Rightarrow> Raise EnvUnavailable
      | Some v \<Rightarrow> validated_secret_value v)"

definition file_resolve ::
  "(nat list \<Rightarrow> string option) \<Rightarrow> (string \<Rightarrow> file_entry) \<Rightarrow> nat \<Rightarrow> string \<Rightarrow> secret_error + string" where
  "file_resolve utf8 fs max_bytes locator =
     (if (\<exists>rest. locator = CHR ''/'' # rest) \<or> path_parts locator = [] \<or> ''..'' \<in> set (path_parts locator)
      then Raise FileEscapesRoot
      else case fs locator of
        Missing \<Rightarrow> Raise FileUnavailable
      | Inaccessible \<Rightarrow> Raise FileInaccessible
      | Special \<Rightarrow> Raise FileNotRegular
      | Regular st_size bytes \<Rightarrow>
          if st_size > max_bytes then Raise FileTooLarge
          else case bytes of
            None \<Rightarrow> Raise FileUnreadable
          | Some data \<Rightarrow>
              if length data > max_bytes then Raise FileTooLarge
              else case utf8 data of
                None \<Rightarrow> Raise FileNotUtf8
              | Some v \<Rightarrow> validated_secret_value v)"

datatype secret_provider =
    EnvSecretProvider "(string, string) pydict"
  | FileSecretProvider "nat list \<Rightarrow> string option" "string \<Rightarrow> file_entry" nat

fun provider_resolve :: "secret_provider \<Rightarrow> string \<Rightarrow> secret_error + string" where
  "provider_resolve (EnvSecretProvider environ) locator = env_resolve environ locator"
| "provider_resolve (FileSecretProvider utf8 fs max_bytes) locator =
     file_resolve utf8 fs max_bytes locator"

section \<open>The resolver\<close>

type_synonym 'p resolver = "(string, 'p) pydict"

definition make_resolver :: "(string, 'p) pydict \<Rightarrow> secret_error + 'p resolver" where
  "make_resolver providers =
     (if providers = [] then Raise NoProvider
      else if \<not> list_all SCHEME_PATTERN (dkeys providers) then Raise BadProviderName
      else Ok providers)"

definition validate_reference :: "'p resolver \<Rightarrow> string \<Rightarrow> secret_error + unit" where
  "validate_reference rs ref =
     ebind (parse_secret_reference ref) (\<lambda>(scheme, _).
       require (scheme \<in> set (dkeys rs)) ProviderNotConfigured)"

definition resolver_resolve ::
  "('p \<Rightarrow> string \<Rightarrow> secret_error + string) \<Rightarrow> 'p resolver \<Rightarrow> string \<Rightarrow> secret_error + string" where
  "resolver_resolve ask rs ref =
     ebind (parse_secret_reference ref) (\<lambda>(scheme, locator).
       case dget rs scheme of
         None \<Rightarrow> Raise ProviderNotConfigured
       | Some p \<Rightarrow> ask p locator)"

definition build_secret_resolver ::
  "(nat list \<Rightarrow> string option) \<Rightarrow> (string, string) pydict \<Rightarrow> (string \<Rightarrow> file_entry)
   \<Rightarrow> secret_error + secret_provider resolver" where
  "build_secret_resolver utf8 environ fs =
     make_resolver [(''env'', EnvSecretProvider environ),
       (''file'', FileSecretProvider utf8 fs MAX_SECRET_BYTES)]"

section \<open>Cluster credentials\<close>

definition nonempty_text :: "json \<Rightarrow> string option" where
  "nonempty_text v = (case v of JStr s \<Rightarrow> if s \<noteq> [] then Some s else None | _ \<Rightarrow> None)"

definition validate_cluster_secret_config ::
  "document \<Rightarrow> bool \<Rightarrow> 'p resolver option \<Rightarrow> secret_error + unit" where
  "validate_cluster_secret_config config allow_inline resolver =
     (let inline = nonempty_text (jget config ''api_key'');
          reference = nonempty_text (jget config ''api_key_ref'') in
      if (inline \<noteq> None) = (reference \<noteq> None) then Raise ExactlyOneSecret
      else if inline \<noteq> None \<and> \<not> allow_inline then Raise InlineForbidden
      else case reference of
        None \<Rightarrow> Ok ()
      | Some ref \<Rightarrow> ebind (parse_secret_reference ref) (\<lambda>_.
          case resolver of None \<Rightarrow> Ok () | Some rs \<Rightarrow> validate_reference rs ref))"

definition materialize_cluster_secret ::
  "('p \<Rightarrow> string \<Rightarrow> secret_error + string) \<Rightarrow> document \<Rightarrow> bool \<Rightarrow> 'p resolver \<Rightarrow> secret_error + string" where
  "materialize_cluster_secret ask config allow_inline rs =
     ebind (validate_cluster_secret_config config allow_inline (Some rs)) (\<lambda>_.
       case nonempty_text (jget config ''api_key_ref'') of
         Some ref \<Rightarrow> resolver_resolve ask rs ref
       | None \<Rightarrow> (case jget config ''api_key'' of
           JStr s \<Rightarrow> validated_secret_value s
         | _ \<Rightarrow> Raise ExactlyOneSecret))"

section \<open>The provider protocol\<close>

text \<open>
  What the resolver relies on: a provider fails closed, so whatever it returns is safe to use
  as a header value.
\<close>

locale secret_source =
  fixes ask :: "'p \<Rightarrow> string \<Rightarrow> secret_error + string"
  assumes fails_closed: "ask p locator = Ok v \<Longrightarrow> safe_secret v"
begin

lemma resolved_safe: "resolver_resolve ask rs ref = Ok v \<Longrightarrow> safe_secret v"
  by (auto simp: resolver_resolve_def ebind_eq_Ok split: option.splits prod.splits
      dest: fails_closed)

lemma materialized_safe:
  "materialize_cluster_secret ask config allow rs = Ok v \<Longrightarrow> safe_secret v"
  by (auto simp: materialize_cluster_secret_def ebind_eq_Ok split: option.splits json.splits
      dest: resolved_safe validated_secret_safe)

lemma materialized_from_config:
  assumes "materialize_cluster_secret ask config allow rs = Ok v"
  shows "(nonempty_text (jget config ''api_key'') = None) \<noteq>
     (nonempty_text (jget config ''api_key_ref'') = None)"
    and "nonempty_text (jget config ''api_key_ref'') = None \<Longrightarrow> allow"
  using assms
  by (auto simp: materialize_cluster_secret_def validate_cluster_secret_config_def ebind_eq_Ok
      Let_def split: if_splits option.splits)

end

lemma env_resolve_safe: "env_resolve environ locator = Ok v \<Longrightarrow> safe_secret v"
  by (auto simp: env_resolve_def split: if_splits option.splits dest: validated_secret_safe)

lemma file_resolve_safe: "file_resolve utf8 fs mx locator = Ok v \<Longrightarrow> safe_secret v"
  by (auto simp: file_resolve_def split: if_splits option.splits file_entry.splits
      dest: validated_secret_safe)

lemma provider_resolve_safe: "provider_resolve p locator = Ok v \<Longrightarrow> safe_secret v"
  by (cases p) (auto dest: env_resolve_safe file_resolve_safe)

interpretation providers: secret_source provider_resolve
  by unfold_locales (rule provider_resolve_safe)

text \<open>
  A cluster credential is materialised only from a configuration that holds exactly one of
  an inline key and a reference, an inline key only where the profile allows it, and the value
  handed to the client is never empty, holds no NUL and does not end in a line break.
\<close>

theorem materialized_secret_safe:
  assumes "materialize_cluster_secret provider_resolve config allow_inline rs = Ok v"
  shows "safe_secret v \<and>
    (nonempty_text (jget config ''api_key'') = None) \<noteq> (nonempty_text (jget config ''api_key_ref'') = None) \<and>
    (nonempty_text (jget config ''api_key_ref'') = None \<longrightarrow> allow_inline)"
  using providers.materialized_safe [OF assms] providers.materialized_from_config [OF assms]
  by blast

theorem materialized_secret_safe_witness: "safe_secret ''k1''"
proof -
  have "materialize_cluster_secret provider_resolve [(''api_key_ref'', JStr ''env:KEY'')] False
      [(''env'', EnvSecretProvider [(''KEY'', ''k1'' @ [CHR 0x0A])])] = Ok ''k1''"
    by (simp add: materialize_cluster_secret_def validate_cluster_secret_config_def jget_def
        nonempty_text_def parse_secret_reference_def strip_def is_space_def partition_on_def
        matches_def is_lower_def is_digit_def is_upper_def is_alnum_def MAX_REFERENCE_LENGTH_def
        validate_reference_def resolver_resolve_def env_resolve_def validated_secret_value_def
        rstrip_crlf_def is_crlf_def less_eq_char_def)
  from materialized_secret_safe [OF this] show ?thesis by blast
qed

end
