(* ===== verification/Federation.thy ===== *)
theory Federation
  imports RolloutDomain SecretResolver "HOL-Library.Product_Lexorder"
begin

text \<open>
  \<open>query_api/app/services/federation.py\<close>: registered clusters, routing policies, and the
  decision which clusters a document is written to, deleted from and searched on. A Typesense
  client is identified with the name of its cluster, so \<open>clients\<close> is the ordered list of the
  dictionary's keys. Policies and rules are the JSON documents that the request schemas
  (\<open>FieldRule\<close>, \<open>RoutingRules\<close>) have validated: \<open>rules\<close> is a list of objects. The
  text of floats and containers (\<open>repr_of\<close>) and the reading of a non-boolean value as a
  float (\<open>py_float\<close>, \<open>None\<close> for \<open>TypeError\<close> and \<open>ValueError\<close>) are CPython's.
\<close>

section \<open>The runtime snapshot\<close>

record FederationRuntime =
  rt_revision :: int
  clusters_config :: "(string, document) pydict"
  clients :: "string list"
  routing_rules :: "(string, document) pydict"
  collection_schemas :: "(string, document) pydict"
  collection_aliases :: "(string, (string, document) pydict) pydict"
  routing_rollouts :: "(string, document) pydict"

definition empty_runtime :: FederationRuntime where
  "empty_runtime = \<lparr>rt_revision = 0, clusters_config = [], clients = [], routing_rules = [],
     collection_schemas = [], collection_aliases = [], routing_rollouts = []\<rparr>"

datatype federation_error =
    RevisionBackwards | BadProtocol | AlreadyRegistered | NotReachable "string list"
  | ClusterNotFound | InUseAsDefault string | InUseByRule string
  | NotRegistered "string list" | SecretError secret_error | CorruptRollout payload_error

definition mark_applied_revision ::
  "FederationRuntime \<Rightarrow> int \<Rightarrow> federation_error + FederationRuntime" where
  "mark_applied_revision rt revision =
     (if revision < rt_revision rt then Raise RevisionBackwards
      else Ok (rt\<lparr>rt_revision := revision\<rparr>))"

text \<open>\<open>d.get(k, default)\<close> for a stored text.\<close>

definition text_or :: "document \<Rightarrow> string \<Rightarrow> string \<Rightarrow> string" where
  "text_or d k fallback = (case dget d k of Some (JStr s) \<Rightarrow> s | _ \<Rightarrow> fallback)"

definition policy_of :: "FederationRuntime \<Rightarrow> string \<Rightarrow> document" where
  "policy_of rt coll = (case dget (routing_rules rt) coll of Some p \<Rightarrow> p | None \<Rightarrow> [])"

definition policy_rules :: "document \<Rightarrow> document list" where
  "policy_rules p = (case jget p ''rules'' of
     JArr rs \<Rightarrow> map (\<lambda>r. case r of JObj kvs \<Rightarrow> kvs | _ \<Rightarrow> []) rs | _ \<Rightarrow> [])"

definition policy_default :: "document \<Rightarrow> string" where
  "policy_default p = text_or p ''default_cluster'' ''default''"

section \<open>Cluster configuration\<close>

definition split_hosts :: "string \<Rightarrow> string list" where
  "split_hosts hosts = map strip (filter (\<lambda>h. strip h \<noteq> []) (split_on CHR '','' hosts))"

definition normalize_protocol :: "(json \<Rightarrow> string) \<Rightarrow> json \<Rightarrow> federation_error + string" where
  "normalize_protocol repr_of protocol =
     (let p = lower (strip (if truthy protocol then py_str repr_of protocol else ''http'')) in
      if p \<in> {''http'', ''https''} then Ok p else Raise BadProtocol)"

definition normalize_cluster_config ::
  "(json \<Rightarrow> string) \<Rightarrow> document \<Rightarrow> string option \<Rightarrow> federation_error + document" where
  "normalize_cluster_config repr_of config name =
     (let named = (case name of
            Some n \<Rightarrow> if n \<noteq> [] \<and> \<not> truthy (jget config ''name'') then dput ''name'' (JStr n) config else config
          | None \<Rightarrow> config) in
      ebind (normalize_protocol repr_of (jget named ''protocol'')) (\<lambda>p.
        Ok (dput ''protocol'' (JStr p) named)))"

definition lift_secret :: "secret_error + 'a \<Rightarrow> federation_error + 'a" where
  "lift_secret m = (case m of Inl e \<Rightarrow> Raise (SecretError e) | Inr x \<Rightarrow> Ok x)"

definition create_client_config ::
  "(json \<Rightarrow> string) \<Rightarrow> string \<Rightarrow> string \<Rightarrow> string option \<Rightarrow> json \<Rightarrow> string option \<Rightarrow> bool
   \<Rightarrow> federation_error + document" where
  "create_client_config repr_of name nodes_str api_key protocol api_key_ref allow_inline =
     ebind (normalize_protocol repr_of protocol) (\<lambda>p.
       let base = [(''name'', JStr name), (''host'', JStr nodes_str), (''port'', JInt 8108),
                   (''protocol'', JStr p)];
           opt = (\<lambda>k v. case v of Some s \<Rightarrow> if s \<noteq> [] then [(k, JStr s)] else [] | None \<Rightarrow> []);
           config = base @ opt ''api_key_ref'' api_key_ref @ opt ''api_key'' api_key in
       ebind (lift_secret (validate_cluster_secret_config config allow_inline
                (None :: secret_provider resolver option))) (\<lambda>_. Ok config))"

text \<open>\<open>reachable\<close> is what one pinned client finds when it lists the collections of a node.\<close>

definition node_statuses ::
  "(string \<Rightarrow> int \<Rightarrow> string \<Rightarrow> string \<Rightarrow> bool) \<Rightarrow> string \<Rightarrow> int \<Rightarrow> string \<Rightarrow> string \<Rightarrow> (string \<times> bool) list" where
  "node_statuses reachable hosts port key protocol =
     map (\<lambda>h. (h, reachable h port key protocol)) (split_hosts hosts)"

definition register_cluster ::
  "(json \<Rightarrow> string) \<Rightarrow> ('p \<Rightarrow> string \<Rightarrow> secret_error + string) \<Rightarrow> 'p resolver \<Rightarrow> bool
   \<Rightarrow> (string \<Rightarrow> int \<Rightarrow> string \<Rightarrow> string \<Rightarrow> bool)
   \<Rightarrow> FederationRuntime \<Rightarrow> string \<Rightarrow> string \<Rightarrow> int \<Rightarrow> string option \<Rightarrow> json \<Rightarrow> string option
   \<Rightarrow> federation_error + FederationRuntime" where
  "register_cluster repr_of ask rs allow_inline reachable rt name host port api_key protocol api_key_ref =
     (if name \<in> set (clients rt) then Raise AlreadyRegistered
      else ebind (normalize_protocol repr_of protocol) (\<lambda>p.
        let opt = (\<lambda>k v. case v of Some s \<Rightarrow> if s \<noteq> [] then [(k, JStr s)] else [] | None \<Rightarrow> []);
            config = [(''name'', JStr name), (''host'', JStr host), (''port'', JInt port),
                      (''protocol'', JStr p)] @ opt ''api_key_ref'' api_key_ref @ opt ''api_key'' api_key in
        ebind (lift_secret (materialize_cluster_secret ask config allow_inline rs)) (\<lambda>key.
          let statuses = node_statuses reachable host port key p;
              failed = map fst (filter (\<lambda>n. \<not> snd n) statuses) in
          if statuses = [] \<or> failed \<noteq> [] then Raise (NotReachable failed)
          else Ok (rt\<lparr>clients := clients rt @ [name],
                      clusters_config := dput name config (clusters_config rt)\<rparr>))))"

definition rule_mentions :: "string \<Rightarrow> document \<Rightarrow> bool" where
  "rule_mentions name rule \<longleftrightarrow>
     jget rule ''cluster'' = JStr name \<or>
     (case jget rule ''clusters'' of JArr cs \<Rightarrow> JStr name \<in> set cs | _ \<Rightarrow> False)"

fun in_use :: "string \<Rightarrow> (string \<times> document) list \<Rightarrow> federation_error option" where
  "in_use name [] = None"
| "in_use name ((coll, config) # rest) =
     (if jget config ''default_cluster'' = JStr name then Some (InUseAsDefault coll)
      else if (\<exists>rule \<in> set (policy_rules config). rule_mentions name rule) then Some (InUseByRule coll)
      else in_use name rest)"

definition unregister_cluster ::
  "FederationRuntime \<Rightarrow> string \<Rightarrow> federation_error + FederationRuntime" where
  "unregister_cluster rt name =
     (if name \<notin> set (clients rt) then Raise ClusterNotFound
      else case in_use name (routing_rules rt) of
        Some e \<Rightarrow> Raise e
      | None \<Rightarrow> Ok (rt\<lparr>clients := remove1 name (clients rt),
                       clusters_config := AList.delete name (clusters_config rt),
                       collection_aliases := AList.delete name (collection_aliases rt)\<rparr>))"

section \<open>Resolving names\<close>

definition resolve_default_cluster :: "FederationRuntime \<Rightarrow> string option" where
  "resolve_default_cluster rt =
     (if ''default'' \<in> set (clients rt) then Some ''default''
      else if ''default-data-cluster'' \<in> set (clients rt) then Some ''default-data-cluster''
      else case clients rt of c # _ \<Rightarrow> Some c | [] \<Rightarrow> None)"

definition resolve_cluster_name :: "FederationRuntime \<Rightarrow> string \<Rightarrow> string option" where
  "resolve_cluster_name rt name =
     (if name = ''default'' then resolve_default_cluster rt
      else if name \<in> set (clients rt) then Some name else None)"

definition document_value :: "document \<Rightarrow> string \<Rightarrow> json" where
  "document_value doc path = walk_path (JObj doc) (split_on CHR ''.'' path)"

section \<open>Rules\<close>

definition rule_targets :: "(json \<Rightarrow> string) \<Rightarrow> document \<Rightarrow> string list" where
  "rule_targets repr_of rule =
     (let targets = (case jget rule ''clusters'' of
            JNull \<Rightarrow> [jget rule ''cluster''] | JArr cs \<Rightarrow> cs | _ \<Rightarrow> [])
      in map (py_str repr_of) (filter truthy targets))"

definition rule_key :: "nat \<times> document \<Rightarrow> int \<times> nat" where
  "rule_key item = (case item of (i, rule) \<Rightarrow>
     (case jget rule ''priority'' of JInt p \<Rightarrow> (p, i) | _ \<Rightarrow> (int i, i)))"

definition ordered_rules_with_index :: "document list \<Rightarrow> (nat \<times> document) list" where
  "ordered_rules_with_index rules = sort_key rule_key (enumerate 0 rules)"

definition numeric_value :: "(json \<Rightarrow> pyfloat option) \<Rightarrow> json \<Rightarrow> pyfloat option" where
  "numeric_value py_float v = (case v of JBool _ \<Rightarrow> None | _ \<Rightarrow> py_float v)"

definition rule_values :: "document \<Rightarrow> json list" where
  "rule_values rule = (case jget rule ''values'' of JArr vs \<Rightarrow> vs | _ \<Rightarrow> [])"

definition rule_operator :: "(json \<Rightarrow> string) \<Rightarrow> document \<Rightarrow> string" where
  "rule_operator repr_of rule =
     (let v = jget rule ''operator'' in
      lower (strip (if truthy v then py_str repr_of v else ''equals'')))"

definition rule_field :: "(json \<Rightarrow> string) \<Rightarrow> document \<Rightarrow> string" where
  "rule_field repr_of rule = (case dget rule ''field'' of None \<Rightarrow> [] | Some v \<Rightarrow> py_str repr_of v)"

definition range_matches :: "(json \<Rightarrow> pyfloat option) \<Rightarrow> json \<Rightarrow> json \<Rightarrow> json \<Rightarrow> bool" where
  "range_matches py_float lo hi v =
     (case numeric_value py_float v of
        None \<Rightarrow> False
      | Some x \<Rightarrow>
          (case numeric_value py_float lo of Some a \<Rightarrow> \<not> pf_less x a | None \<Rightarrow> True) \<and>
          (case numeric_value py_float hi of Some b \<Rightarrow> \<not> pf_less b x | None \<Rightarrow> True) \<and>
          (numeric_value py_float lo \<noteq> None \<or> numeric_value py_float hi \<noteq> None))"

definition rule_matches ::
  "(json \<Rightarrow> string) \<Rightarrow> (json \<Rightarrow> pyfloat option) \<Rightarrow> document \<Rightarrow> document \<Rightarrow> bool" where
  "rule_matches repr_of py_float rule doc =
     (let v = document_value doc (rule_field repr_of rule);
          operator = rule_operator repr_of rule in
      if v = JNull then False
      else if operator = ''equals'' then
        (let given = jget rule ''value'';
             expected = (if given = JNull
               then (case rule_values rule of x # _ \<Rightarrow> x | [] \<Rightarrow> JNull) else given)
         in expected \<noteq> JNull \<and> py_str repr_of v = py_str repr_of expected)
      else if operator = ''in'' then
        py_str repr_of v \<in> set (map (py_str repr_of) (rule_values rule))
      else if operator = ''glob'' then
        (let pattern = (if truthy (jget rule ''pattern'') then jget rule ''pattern'' else jget rule ''value'')
         in truthy pattern \<and> fnmatch (py_str repr_of v) (py_str repr_of pattern))
      else if operator = ''range'' then range_matches py_float (jget rule ''min'') (jget rule ''max'') v
      else False)"

section \<open>Targets of a document\<close>

definition targets_for_names :: "FederationRuntime \<Rightarrow> string list \<Rightarrow> string list" where
  "targets_for_names rt names =
     List.map_filter (\<lambda>n. case resolve_cluster_name rt n of
       Some c \<Rightarrow> if c \<noteq> [] then Some c else None | None \<Rightarrow> None) names"

definition default_targets :: "FederationRuntime \<Rightarrow> string \<Rightarrow> string list" where
  "default_targets rt name = (case resolve_cluster_name rt name of None \<Rightarrow> [] | Some c \<Rightarrow> [c])"

record RoutingPreview =
  matched_rule :: "(nat \<times> document) option"
  routed_to :: "string list"
  target_clusters :: "string list"

definition preview_routing ::
  "(json \<Rightarrow> string) \<Rightarrow> (json \<Rightarrow> pyfloat option) \<Rightarrow> FederationRuntime \<Rightarrow> string \<Rightarrow> document
   \<Rightarrow> document option \<Rightarrow> RoutingPreview" where
  "preview_routing repr_of py_float rt coll doc rules_config =
     (let config = (case rules_config of
            Some c \<Rightarrow> if c \<noteq> [] then c else policy_of rt coll
          | None \<Rightarrow> policy_of rt coll) in
      case find (\<lambda>(_, rule). rule_matches repr_of py_float rule doc)
             (ordered_rules_with_index (policy_rules config)) of
        Some (i, rule) \<Rightarrow>
          \<lparr>matched_rule = Some (i, rule),
           routed_to = targets_for_names rt (rule_targets repr_of rule),
           target_clusters = rule_targets repr_of rule\<rparr>
      | None \<Rightarrow>
          \<lparr>matched_rule = None,
           routed_to = default_targets rt (policy_default config),
           target_clusters = [policy_default config]\<rparr>)"

text \<open>\<open>max(candidates, key=(updated_at, rollout_id))\<close>: the first of the greatest items.\<close>

definition rollout_newer :: "RoutingRollout \<Rightarrow> RoutingRollout \<Rightarrow> payload_error + bool" where
  "rollout_newer a b =
     (if rollout_updated_at a = rollout_updated_at b then Ok (rollout_id b < rollout_id a)
      else case (rollout_updated_at a, rollout_updated_at b) of
        (Some x, Some y) \<Rightarrow> Ok (y < x)
      | _ \<Rightarrow> Raise (TypeError ''updated_at''))"

fun newest_rollout :: "RoutingRollout \<Rightarrow> RoutingRollout list \<Rightarrow> payload_error + RoutingRollout" where
  "newest_rollout best [] = Ok best"
| "newest_rollout best (r # rs) =
     ebind (rollout_newer r best) (\<lambda>newer. newest_rollout (if newer then r else best) rs)"

definition rollout_for_collection ::
  "(string \<Rightarrow> time option) \<Rightarrow> FederationRuntime \<Rightarrow> string \<Rightarrow> payload_error + RoutingRollout option" where
  "rollout_for_collection fromisoformat rt coll =
     ebind (mapE (from_dict fromisoformat)
        (filter (\<lambda>p. jget p ''collection'' = JStr coll) (dvalues (routing_rollouts rt)))) (\<lambda>rollouts.
      let active = filter (\<lambda>r. phase r \<notin> {COMPLETED, CANCELLED, ROLLED_BACK}) rollouts;
          candidates = (if active \<noteq> [] then active else rollouts) in
      case candidates of
        [] \<Rightarrow> Ok None
      | r # rs \<Rightarrow> ebind (newest_rollout r rs) (\<lambda>best. Ok (Some best)))"

datatype access = Read | Write

definition policy_named :: "RoutingRollout \<Rightarrow> policy_name \<Rightarrow> document" where
  "policy_named r m = (case m of Active \<Rightarrow> active_policy r | Candidate \<Rightarrow> candidate_policy r)"

definition is_disabled :: "FederationRuntime \<Rightarrow> string \<Rightarrow> bool" where
  "is_disabled rt coll \<longleftrightarrow> jget (policy_of rt coll) ''disabled'' = JBool True"

definition policies_under :: "FederationRuntime \<Rightarrow> string \<Rightarrow> RoutingRollout option \<Rightarrow> access \<Rightarrow> document list" where
  "policies_under rt coll rollout acc =
     (case rollout of
        None \<Rightarrow> [policy_of rt coll]
      | Some r \<Rightarrow> map (policy_named r) (case acc of Read \<Rightarrow> read_modes r | Write \<Rightarrow> write_modes r))"

definition routing_policies ::
  "(string \<Rightarrow> time option) \<Rightarrow> FederationRuntime \<Rightarrow> string \<Rightarrow> access \<Rightarrow> payload_error + document list" where
  "routing_policies fromisoformat rt coll acc =
     (if is_disabled rt coll then Ok []
      else ebind (rollout_for_collection fromisoformat rt coll) (\<lambda>rollout.
        Ok (policies_under rt coll rollout acc)))"

definition targets_for_policy_document ::
  "(json \<Rightarrow> string) \<Rightarrow> (json \<Rightarrow> pyfloat option) \<Rightarrow> FederationRuntime \<Rightarrow> string \<Rightarrow> document
   \<Rightarrow> document \<Rightarrow> string list" where
  "targets_for_policy_document repr_of py_float rt coll doc policy =
     (let preview = preview_routing repr_of py_float rt coll doc (Some policy) in
      if matched_rule preview = None
      then default_targets rt (case target_clusters preview of c # _ \<Rightarrow> c | [] \<Rightarrow> ''default'')
      else targets_for_names rt (target_clusters preview))"

definition get_indexing_route ::
  "(string \<Rightarrow> time option) \<Rightarrow> (json \<Rightarrow> string) \<Rightarrow> (json \<Rightarrow> pyfloat option) \<Rightarrow> FederationRuntime
   \<Rightarrow> string \<Rightarrow> document \<Rightarrow> payload_error + string list \<times> int \<times> string option" where
  "get_indexing_route fromisoformat repr_of py_float rt coll doc =
     ebind (routing_policies fromisoformat rt coll Write) (\<lambda>policies.
     ebind (rollout_for_collection fromisoformat rt coll) (\<lambda>rollout.
       Ok (fromkeys (concat (map (targets_for_policy_document repr_of py_float rt coll doc) policies)),
           rt_revision rt, map_option rollout_id rollout)))"

definition get_delete_route ::
  "(string \<Rightarrow> time option) \<Rightarrow> FederationRuntime \<Rightarrow> string
   \<Rightarrow> payload_error + string list \<times> int \<times> string option" where
  "get_delete_route fromisoformat rt coll =
     (if is_disabled rt coll then Ok ([], rt_revision rt, None)
      else ebind (rollout_for_collection fromisoformat rt coll) (\<lambda>rollout.
        Ok (clients rt, rt_revision rt, map_option rollout_id rollout)))"

section \<open>Clusters of a search\<close>

text \<open>The nested \<open>add_cluster\<close>.\<close>

definition add_cluster :: "FederationRuntime \<Rightarrow> string list \<Rightarrow> string \<Rightarrow> string list" where
  "add_cluster rt acc name =
     (let n = (if name = ''default'' then (case resolve_default_cluster rt of Some c \<Rightarrow> c | None \<Rightarrow> []) else name)
      in if n \<noteq> [] \<and> n \<in> set (clients rt) \<and> n \<notin> set acc then acc @ [n] else acc)"

definition search_names_of_policy ::
  "(json \<Rightarrow> string) \<Rightarrow> FederationRuntime \<Rightarrow> bool \<Rightarrow> document \<Rightarrow> string list" where
  "search_names_of_policy repr_of rt has_rollout policy =
     (if policy_rules policy = [] then (if has_rollout then [policy_default policy] else clients rt)
      else concat (map (rule_targets repr_of) (policy_rules policy)) @ [policy_default policy])"

definition cluster_names_for_search ::
  "(string \<Rightarrow> time option) \<Rightarrow> (json \<Rightarrow> string) \<Rightarrow> FederationRuntime \<Rightarrow> string
   \<Rightarrow> payload_error + string list" where
  "cluster_names_for_search fromisoformat repr_of rt coll =
     ebind (rollout_for_collection fromisoformat rt coll) (\<lambda>rollout.
     ebind (routing_policies fromisoformat rt coll Read) (\<lambda>policies.
       Ok (foldl (add_cluster rt) []
             (concat (map (search_names_of_policy repr_of rt (rollout \<noteq> None)) policies)))))"

section \<open>Changing policies\<close>

definition validate_routing_policy ::
  "(json \<Rightarrow> string) \<Rightarrow> FederationRuntime \<Rightarrow> document list \<Rightarrow> string \<Rightarrow> federation_error + unit" where
  "validate_routing_policy repr_of rt rules default_cluster =
     (let named = map (\<lambda>n. case resolve_cluster_name rt n of Some c \<Rightarrow> c | None \<Rightarrow> n)
            (concat (map (rule_targets repr_of) rules));
          effective_default = (if default_cluster = ''default'' then resolve_default_cluster rt
            else Some default_cluster);
          all_clusters = named @ (case effective_default of Some c \<Rightarrow> if c \<noteq> [] then [c] else [] | None \<Rightarrow> []);
          missing = filter (\<lambda>c. c \<notin> set (clients rt)) all_clusters in
      if missing \<noteq> [] then Raise (NotRegistered (fromkeys missing)) else Ok ())"

definition set_routing_rules ::
  "(json \<Rightarrow> string) \<Rightarrow> FederationRuntime \<Rightarrow> string \<Rightarrow> document list \<Rightarrow> string
   \<Rightarrow> federation_error + FederationRuntime" where
  "set_routing_rules repr_of rt coll rules default_cluster =
     ebind (validate_routing_policy repr_of rt rules default_cluster) (\<lambda>_.
       Ok (rt\<lparr>routing_rules := dput coll
             [(''collection'', JStr coll), (''rules'', JArr (map JObj rules)),
              (''default_cluster'', JStr default_cluster)] (routing_rules rt)\<rparr>))"

definition delete_routing_rules :: "FederationRuntime \<Rightarrow> string \<Rightarrow> FederationRuntime" where
  "delete_routing_rules rt coll =
     rt\<lparr>routing_rules := dput coll [(''rules'', JArr []), (''default_cluster'', JStr ''default'')]
          (routing_rules rt)\<rparr>"

definition load_from_state ::
  "(json \<Rightarrow> string) \<Rightarrow> (document \<Rightarrow> federation_error + unit) \<Rightarrow> FederationRuntime
   \<Rightarrow> (string, document) pydict \<Rightarrow> (string, document) pydict \<Rightarrow> (string, document) pydict
   \<Rightarrow> (string, (string, document) pydict) pydict \<Rightarrow> (string, document) pydict \<Rightarrow> int
   \<Rightarrow> federation_error + FederationRuntime" where
  "load_from_state repr_of build_client rt configs rules schemas aliases rollouts revision =
     ebind (mapE (\<lambda>(name, config). ebind (normalize_cluster_config repr_of config (Some name))
              (\<lambda>c. Ok (name, c))) configs) (\<lambda>normalized.
     ebind (mapE (\<lambda>(name, config). build_client config) normalized) (\<lambda>_.
       Ok \<lparr>rt_revision = revision, clusters_config = normalized, clients = map fst normalized,
          routing_rules = rules, collection_schemas = schemas, collection_aliases = aliases,
          routing_rollouts = rollouts\<rparr>))"

section \<open>Resolution lemmas\<close>

lemma resolve_default_in: "resolve_default_cluster rt = Some c \<Longrightarrow> c \<in> set (clients rt)"
  by (auto simp: resolve_default_cluster_def split: if_splits list.splits)

lemma resolve_in: "resolve_cluster_name rt n = Some c \<Longrightarrow> c \<in> set (clients rt)"
  by (auto simp: resolve_cluster_name_def split: if_splits dest: resolve_default_in)

lemma resolve_registered: "c \<in> set (clients rt) \<Longrightarrow> resolve_cluster_name rt c = Some c"
  by (auto simp: resolve_cluster_name_def resolve_default_cluster_def)

lemma set_targets_for_names:
  "set (targets_for_names rt ns) = {c. c \<noteq> [] \<and> (\<exists>n \<in> set ns. resolve_cluster_name rt n = Some c)}"
proof -
  have "set (List.map_filter f xs) = {y. \<exists>x \<in> set xs. f x = Some y}" for f :: "string \<Rightarrow> string option" and xs
    by (induction xs) (auto simp: List.map_filter_simps split: option.splits)
  then show ?thesis by (auto simp: targets_for_names_def split: option.splits if_splits)
qed

lemma set_default_targets:
  "set (default_targets rt n) = {c. resolve_cluster_name rt n = Some c}"
  by (auto simp: default_targets_def split: option.splits)

lemma set_add_cluster:
  "set (add_cluster rt acc n) =
     set acc \<union> {c. c \<noteq> [] \<and> resolve_cluster_name rt n = Some c}"
  by (auto simp: add_cluster_def resolve_cluster_name_def Let_def split: option.splits
      dest: resolve_default_in)

lemma set_add_clusters:
  "set (foldl (add_cluster rt) acc ns) =
     set acc \<union> {c. c \<noteq> [] \<and> (\<exists>n \<in> set ns. resolve_cluster_name rt n = Some c)}"
  by (induction ns arbitrary: acc) (auto simp: set_add_cluster)

lemma distinct_add_clusters:
  "distinct acc \<Longrightarrow> distinct (foldl (add_cluster rt) acc ns)"
proof (induction ns arbitrary: acc)
  case (Cons n ns)
  then have "distinct (add_cluster rt acc n)" by (simp add: add_cluster_def Let_def)
  then show ?case using Cons.IH by simp
qed simp

lemma set_ordered_rules: "set (ordered_rules_with_index rules) = set (enumerate 0 rules)"
  by (simp add: ordered_rules_with_index_def)

lemma ordered_rule_in:
  assumes "find P (ordered_rules_with_index rules) = Some (i, rule)"
  shows "i < length rules" and "rules ! i = rule" and "P (i, rule)" and "rule \<in> set rules"
proof -
  have "(i, rule) \<in> set (enumerate 0 rules)" and "P (i, rule)"
    using assms by (auto simp: find_Some_iff set_ordered_rules [symmetric])
  then show "i < length rules" "rules ! i = rule" "P (i, rule)" "rule \<in> set rules"
    by (auto simp: in_set_enumerate_eq)
qed

text \<open>The names a policy can send a document to are names that a search of the policy asks for.\<close>

definition effective_policy :: "FederationRuntime \<Rightarrow> string \<Rightarrow> document \<Rightarrow> document" where
  "effective_policy rt coll p = (if p \<noteq> [] then p else policy_of rt coll)"

lemma targets_of_policy:
  "c \<in> set (targets_for_policy_document repr_of py_float rt coll doc p) \<Longrightarrow>
   \<exists>n \<in> set (concat (map (rule_targets repr_of) (policy_rules (effective_policy rt coll p)))
        @ [policy_default (effective_policy rt coll p)]). resolve_cluster_name rt n = Some c"
  by (auto simp: targets_for_policy_document_def preview_routing_def effective_policy_def Let_def
      set_targets_for_names set_default_targets split: option.splits if_splits
      dest: ordered_rule_in(4))

lemma targets_registered:
  "set (targets_for_policy_document repr_of py_float rt coll doc p) \<subseteq> set (clients rt)"
  using targets_of_policy resolve_in by blast

lemma policy_targets_searched:
  assumes "c \<in> set (targets_for_policy_document repr_of py_float rt coll doc p)"
    and "effective_policy rt coll p = p" and "[] \<notin> set (clients rt)"
  shows "\<exists>n \<in> set (search_names_of_policy repr_of rt has_rollout p).
    resolve_cluster_name rt n = Some c"
proof -
  have "\<exists>n \<in> set (concat (map (rule_targets repr_of) (policy_rules p)) @ [policy_default p]).
      resolve_cluster_name rt n = Some c"
    using targets_of_policy [OF assms(1)] assms(2) by simp
  then show ?thesis
    using resolve_in [of rt _ c] resolve_registered [of c rt]
    by (auto simp: search_names_of_policy_def)
qed

lemma modes_read_written: "set (read_modes r) \<subseteq> set (write_modes r)"
  by (auto simp: modes_defs)

lemma policies_read_written:
  "set (policies_under rt coll ro Read) \<subseteq> set (policies_under rt coll ro Write)"
  using modes_read_written by (force simp: policies_under_def split: option.splits)

section \<open>Properties of routing\<close>

text \<open>
  C12. No policy that searches read can hide a document: for every policy in read mode, whatever
  the phase of the collection's rollout, the clusters that the policy assigns to a document are
  both written by the indexing route and asked by the search, in one snapshot.
\<close>

theorem searched_where_written:
  assumes "rollout_for_collection fromisoformat rt coll = Ok ro"
    and "\<not> is_disabled rt coll" and "[] \<notin> set (clients rt)"
    and "\<And>r. ro = Some r \<Longrightarrow> active_policy r \<noteq> [] \<and> candidate_policy r \<noteq> []"
    and "cluster_names_for_search fromisoformat repr_of rt coll = Ok names"
    and "get_indexing_route fromisoformat repr_of py_float rt coll doc = Ok (targets, revision, rid)"
    and "p \<in> set (policies_under rt coll ro Read)"
  shows "set (targets_for_policy_document repr_of py_float rt coll doc p) \<subseteq> set names \<inter> set targets"
proof
  fix c assume c: "c \<in> set (targets_for_policy_document repr_of py_float rt coll doc p)"
  have "effective_policy rt coll p = p"
    using assms(4,7) by (auto simp: effective_policy_def policies_under_def policy_named_def
        split: option.splits policy_name.splits)
  from policy_targets_searched [OF c this assms(3)]
  have asked: "\<exists>n \<in> set (search_names_of_policy repr_of rt (ro \<noteq> None) p).
      resolve_cluster_name rt n = Some c" .
  then have "c \<noteq> []" using resolve_in [of rt _ c] assms(3) by auto
  have "names = foldl (add_cluster rt) []
      (concat (map (search_names_of_policy repr_of rt (ro \<noteq> None)) (policies_under rt coll ro Read)))"
    using assms(1,2,5) by (simp add: cluster_names_for_search_def routing_policies_def)
  with asked \<open>c \<noteq> []\<close> assms(7) have "c \<in> set names"
    unfolding set_concat set_map by (simp only: set_add_clusters) fastforce
  moreover have "c \<in> set targets"
    using c assms(1,2,6) subsetD [OF policies_read_written assms(7)]
    by (auto simp: get_indexing_route_def routing_policies_def)
  ultimately show "c \<in> set names \<inter> set targets" by simp
qed

text \<open>A runtime with two clusters and a rollout in its cutover phase.\<close>

definition show_nothing :: "json \<Rightarrow> string" where
  "show_nothing v = []"

definition no_float :: "json \<Rightarrow> pyfloat option" where
  "no_float v = None"

definition sample_routed :: RoutingRollout where
  "sample_routed = sample_cutover\<lparr>active_policy := [(''default_cluster'', JStr ''a'')]\<rparr>"

definition sample_runtime :: FederationRuntime where
  "sample_runtime = empty_runtime\<lparr>rt_revision := 4, clients := [''a'', ''b''],
     routing_rollouts := [(''r1'', to_dict unary_text sample_routed)]\<rparr>"

lemmas sample_rollout_defs =
  sample_routed_def sample_cutover_def sample_draft_def new_rollout_def sample_gates_def

lemma unary_roundtrip: "from_dict unary (to_dict unary_text r) = Ok r"
proof -
  have "time_from_json unary d k = Ok t" if "dget d k = Some (time_json unary_text t)" for d k t
    using that by (rule time_from_json_stored [OF unary_reads unary_text_not_Nil])
  then show ?thesis
    by (simp add: from_dict_def phase_from_payload_def argument_def known_arguments_def
        rollout_fields_def to_dict_def gates_roundtrip)
qed

lemma sample_runtime_rollout:
  "rollout_for_collection unary sample_runtime ''books'' = Ok (Some sample_routed)"
proof -
  have "jget (to_dict unary_text sample_routed) ''collection'' = JStr ''books''"
    by (simp add: to_dict_def jget_def sample_rollout_defs)
  then show ?thesis
    by (simp add: rollout_for_collection_def sample_runtime_def unary_roundtrip Let_def)
qed

lemma sample_runtime_enabled: "\<not> is_disabled sample_runtime ''books''"
  by (simp add: is_disabled_def policy_of_def sample_runtime_def empty_runtime_def jget_def)

lemmas routing_eval =
  targets_for_policy_document_def preview_routing_def policy_rules_def jget_def
  ordered_rules_with_index_def policy_default_def text_or_def default_targets_def
  resolve_cluster_name_def search_names_of_policy_def add_cluster_def Let_def

lemma sample_search: "cluster_names_for_search unary show_nothing sample_runtime ''books'' = Ok [''b'']"
  using sample_runtime_rollout sample_runtime_enabled
  by (simp add: cluster_names_for_search_def routing_policies_def policies_under_def)
    (simp add: modes_defs policy_named_def routing_eval sample_rollout_defs sample_runtime_def)

lemma sample_route:
  "get_indexing_route unary show_nothing no_float sample_runtime ''books'' [] =
     Ok ([''a'', ''b''], 4, Some ''r1'')"
  using sample_runtime_rollout sample_runtime_enabled
  by (simp add: get_indexing_route_def routing_policies_def policies_under_def)
    (simp add: modes_defs policy_named_def routing_eval sample_rollout_defs sample_runtime_def
      fromkeys_def)

theorem searched_where_written_witness:
  "set (targets_for_policy_document show_nothing no_float sample_runtime ''books'' []
      [(''default_cluster'', JStr ''b'')]) \<subseteq> {''b''}"
proof -
  have "[(''default_cluster'', JStr ''b'')] \<in> set (policies_under sample_runtime ''books'' (Some sample_routed) Read)"
    by (simp add: policies_under_def modes_defs policy_named_def sample_rollout_defs)
  from searched_where_written [OF sample_runtime_rollout sample_runtime_enabled _ _ sample_search
      sample_route this]
  show ?thesis by (simp add: sample_runtime_def sample_rollout_defs)
qed

text \<open>
  The indexing route names each cluster once, only registered clusters, the revision of the
  snapshot it was computed from, and never a cluster that the delete route of the same snapshot
  leaves out: every copy that was written can be deleted.
\<close>

theorem indexing_route_deletable:
  assumes "get_indexing_route fromisoformat repr_of py_float rt coll doc = Ok (targets, revision, rid)"
  shows "distinct targets \<and> set targets \<subseteq> set (clients rt) \<and> revision = rt_revision rt \<and>
    (\<exists>copies rid'. get_delete_route fromisoformat rt coll = Ok (copies, revision, rid') \<and>
       set targets \<subseteq> set copies)"
proof -
  from assms obtain policies rollout where
    policies: "routing_policies fromisoformat rt coll Write = Ok policies"
    and rollout: "rollout_for_collection fromisoformat rt coll = Ok rollout"
    and targets: "targets = fromkeys (concat (map (targets_for_policy_document repr_of py_float rt coll doc) policies))"
    and revision: "revision = rt_revision rt"
    by (auto simp: get_indexing_route_def ebind_eq_Ok)
  have "set targets \<subseteq> set (clients rt)" unfolding targets using targets_registered by (fastforce dest: subsetD [OF targets_registered])
  moreover have "targets = []" if "is_disabled rt coll"
    using that policies unfolding targets by (simp add: routing_policies_def)
  moreover have "distinct targets" by (simp add: targets)
  ultimately show ?thesis
    by (cases "is_disabled rt coll") (simp_all add: get_delete_route_def rollout revision)
qed

theorem indexing_route_deletable_witness:
  "\<exists>copies rid'. get_delete_route unary sample_runtime ''books'' = Ok (copies, 4, rid') \<and>
     {''a'', ''b''} \<subseteq> set copies"
  using indexing_route_deletable [OF sample_route] by simp

lemma sorted_find_first:
  assumes "sorted (map key xs)" and "find P xs = Some x" and "y \<in> set xs" and "P y"
  shows "key x \<le> key y"
  using assms
proof (induction xs)
  case (Cons z zs)
  then show ?case by (cases "P z") auto
qed simp

lemma ordered_rule_least:
  assumes "find P (ordered_rules_with_index rules) = Some (i, rule)"
    and "j < length rules" and "P (j, rules ! j)"
  shows "rule_key (i, rule) \<le> rule_key (j, rules ! j)"
proof (rule sorted_find_first [where x = "(i, rule)" and y = "(j, rules ! j)" and key = rule_key
      and xs = "ordered_rules_with_index rules" and P = P])
  show "sorted (map rule_key (ordered_rules_with_index rules))"
    by (simp add: ordered_rules_with_index_def)
  show "(j, rules ! j) \<in> set (ordered_rules_with_index rules)"
    using assms(2) by (simp add: set_ordered_rules in_set_enumerate_eq)
qed (use assms in auto)

lemma ordered_rule_none:
  assumes "find P (ordered_rules_with_index rules) = None" and "j < length rules"
  shows "\<not> P (j, rules ! j)"
  using assms by (force simp: find_None_iff set_ordered_rules in_set_enumerate_eq)

text \<open>
  The first matching rule wins: the rule a preview reports is a rule of the policy at the
  reported index, it matches, and every other matching rule has a larger (priority, position)
  key; without a match no rule matches and the default cluster is the only target.
\<close>

theorem preview_first_match:
  assumes "preview_routing repr_of py_float rt coll doc None = pv"
    and "policy_rules (policy_of rt coll) = rules"
  shows "(case matched_rule pv of
      Some (i, rule) \<Rightarrow> i < length rules \<and> rules ! i = rule \<and>
        rule_matches repr_of py_float rule doc \<and> target_clusters pv = rule_targets repr_of rule \<and>
        (\<forall>j < length rules. rule_matches repr_of py_float (rules ! j) doc \<longrightarrow>
           rule_key (i, rule) \<le> rule_key (j, rules ! j))
    | None \<Rightarrow> (\<forall>j < length rules. \<not> rule_matches repr_of py_float (rules ! j) doc) \<and>
        target_clusters pv = [policy_default (policy_of rt coll)])"
proof (cases "find (\<lambda>(_, rule). rule_matches repr_of py_float rule doc) (ordered_rules_with_index rules)")
  case None
  with assms ordered_rule_none [OF None] show ?thesis
    by (auto simp: preview_routing_def Let_def)
next
  case (Some item)
  then obtain i rule where item: "item = (i, rule)" by (cases item)
  with Some have find: "find (\<lambda>(_, rule). rule_matches repr_of py_float rule doc)
      (ordered_rules_with_index rules) = Some (i, rule)" by simp
  from assms find ordered_rule_in(1-3) [OF find] ordered_rule_least [OF find]
  show ?thesis by (auto simp: preview_routing_def Let_def)
qed

definition two_rules :: "document list" where
  "two_rules =
     [[(''field'', JStr ''k''), (''value'', JStr ''x''), (''cluster'', JStr ''a'')],
      [(''field'', JStr ''k''), (''operator'', JStr ''in''), (''values'', JArr [JStr ''x'']),
       (''priority'', JInt 0), (''cluster'', JStr ''b'')]]"

definition rules_runtime :: FederationRuntime where
  "rules_runtime = empty_runtime\<lparr>clients := [''a'', ''b''],
     routing_rules := [(''books'', [(''rules'', JArr (map JObj two_rules))])]\<rparr>"

theorem preview_first_match_witness:
  "(case matched_rule (preview_routing show_nothing no_float rules_runtime ''books'' [(''k'', JStr ''x'')] None) of
      Some (i, rule) \<Rightarrow> i < length two_rules \<and> two_rules ! i = rule
    | None \<Rightarrow> True)"
proof -
  have "policy_rules (policy_of rules_runtime ''books'') = two_rules"
    by (simp add: policy_of_def policy_rules_def rules_runtime_def jget_def comp_def)
  from preview_first_match [OF refl this, of show_nothing no_float "[(''k'', JStr ''x'')]"]
  show ?thesis by (auto split: option.splits)
qed

lemma targets_for_names_length:
  "\<forall>n \<in> set ns. \<exists>c. resolve_cluster_name rt n = Some c \<and> c \<noteq> [] \<Longrightarrow>
   length (targets_for_names rt ns) = length ns"
  by (induction ns) (auto simp: targets_for_names_def List.map_filter_simps)

lemma validated_targets:
  assumes "validate_routing_policy repr_of rt rules d = Ok ()" and "rule \<in> set rules"
    and "[] \<notin> set (clients rt)" and "n \<in> set (rule_targets repr_of rule)"
  shows "\<exists>c. resolve_cluster_name rt n = Some c \<and> c \<noteq> []"
proof -
  let ?res = "\<lambda>n. case resolve_cluster_name rt n of Some c \<Rightarrow> c | None \<Rightarrow> n"
  have "?res n \<in> set (clients rt)"
    using assms(1,2,4) by (force simp: validate_routing_policy_def Let_def filter_empty_conv
        split: if_splits)
  moreover have False if "resolve_cluster_name rt n = None"
    using that calculation resolve_registered [of n rt] by simp
  ultimately show ?thesis
    using assms(3) by (cases "resolve_cluster_name rt n") auto
qed

lemma validated_default:
  assumes "validate_routing_policy repr_of rt rules d = Ok ()"
    and "clients rt \<noteq> []" and "d \<noteq> []"
  shows "\<exists>c. resolve_cluster_name rt d = Some c"
proof (cases "d = ''default''")
  case True
  with assms(2) show ?thesis
    by (cases "clients rt") (simp_all add: resolve_cluster_name_def resolve_default_cluster_def)
next
  case False
  with assms(1,3) have "d \<in> set (clients rt)"
    by (simp add: validate_routing_policy_def Let_def filter_empty_conv split: if_splits)
  then show ?thesis using resolve_registered by blast
qed

text \<open>
  A validated policy loses no document: once \<open>set_routing_rules\<close> has accepted rules that
  name at least one cluster each, every document of the collection is routed to exactly as many
  registered clusters as its rule (or the default) names.
\<close>

theorem validated_policy_routes_all:
  assumes "set_routing_rules repr_of rt coll rules d = Ok rt'"
    and "clients rt \<noteq> []" and "[] \<notin> set (clients rt)" and "d \<noteq> []"
    and "\<And>rule. rule \<in> set rules \<Longrightarrow> rule_targets repr_of rule \<noteq> []"
  shows "length (routed_to (preview_routing repr_of py_float rt' coll doc None)) =
      length (target_clusters (preview_routing repr_of py_float rt' coll doc None)) \<and>
    routed_to (preview_routing repr_of py_float rt' coll doc None) \<noteq> []"
proof -
  have valid: "validate_routing_policy repr_of rt rules d = Ok ()"
    and rt': "rt' = rt\<lparr>routing_rules := dput coll
             [(''collection'', JStr coll), (''rules'', JArr (map JObj rules)),
              (''default_cluster'', JStr d)] (routing_rules rt)\<rparr>"
    using assms(1) by (auto simp: set_routing_rules_def ebind_eq_Ok)
  have names: "resolve_cluster_name rt' = resolve_cluster_name rt"
    by (rule ext) (simp add: rt' resolve_cluster_name_def resolve_default_cluster_def)
  have policy: "policy_rules (policy_of rt' coll) = rules" "policy_default (policy_of rt' coll) = d"
    by (simp_all add: rt' policy_of_def policy_rules_def policy_default_def text_or_def jget_def
        dget_dput comp_def)
  have all: "length (targets_for_names rt' (rule_targets repr_of rule)) = length (rule_targets repr_of rule)"
    if "rule \<in> set rules" for rule
    by (rule targets_for_names_length) (simp add: names validated_targets [OF valid that assms(3)])
  obtain c where "resolve_cluster_name rt d = Some c"
    using validated_default [OF valid assms(2,4)] by blast
  then have default: "default_targets rt' d = [c]" by (simp add: default_targets_def names)
  show ?thesis
  proof (cases "find (\<lambda>(_, rule). rule_matches repr_of py_float rule doc) (ordered_rules_with_index rules)")
    case None
    then show ?thesis by (simp add: preview_routing_def policy default Let_def)
  next
    case (Some item)
    then obtain i rule where find: "find (\<lambda>(_, rule). rule_matches repr_of py_float rule doc)
        (ordered_rules_with_index rules) = Some (i, rule)" by (cases item) simp
    from all [OF ordered_rule_in(4) [OF find]] assms(5) [OF ordered_rule_in(4) [OF find]] find
    show ?thesis by (auto simp: preview_routing_def policy Let_def)
  qed
qed

theorem validated_policy_routes_all_witness:
  "\<exists>rt'. set_routing_rules show_nothing sample_runtime ''films'' two_rules ''b'' = Ok rt' \<and>
     routed_to (preview_routing show_nothing no_float rt' ''films'' [] None) \<noteq> []"
proof -
  have "\<exists>rt'. set_routing_rules show_nothing sample_runtime ''films'' two_rules ''b'' = Ok rt'"
    by (simp add: set_routing_rules_def validate_routing_policy_def two_rules_def rule_targets_def
        jget_def sample_runtime_def resolve_cluster_name_def)
  then obtain rt' where set: "set_routing_rules show_nothing sample_runtime ''films'' two_rules ''b'' = Ok rt'"
    by blast
  have "rule_targets show_nothing rule \<noteq> []" if "rule \<in> set two_rules" for rule
    using that by (auto simp: two_rules_def rule_targets_def jget_def)
  from validated_policy_routes_all [OF set _ _ _ this, of no_float "[]"] set
  show ?thesis by (auto simp: sample_runtime_def)
qed

text \<open>
  A stored rollout shadows the routing rules of its collection for good: while the control
  plane holds any rollout of the collection, finished, cancelled or rolled back ones included,
  an accepted \<open>set_routing_rules\<close> changes neither the policies that are read nor those that
  are written.
\<close>

theorem rollout_shadows_rules:
  assumes "rollout_for_collection fromisoformat rt coll = Ok (Some r)"
    and "set_routing_rules repr_of rt coll rules d = Ok rt'" and "\<not> is_disabled rt coll"
  shows "routing_policies fromisoformat rt' coll acc = routing_policies fromisoformat rt coll acc"
proof -
  have rt': "rt' = rt\<lparr>routing_rules := dput coll
             [(''collection'', JStr coll), (''rules'', JArr (map JObj rules)),
              (''default_cluster'', JStr d)] (routing_rules rt)\<rparr>"
    using assms(2) by (auto simp: set_routing_rules_def ebind_eq_Ok)
  have "\<not> is_disabled rt' coll" by (simp add: rt' is_disabled_def policy_of_def jget_def dget_dput)
  moreover have "rollout_for_collection fromisoformat rt' coll = Ok (Some r)"
    using assms(1) by (simp add: rt' rollout_for_collection_def)
  ultimately show ?thesis
    using assms(1,3) by (simp add: routing_policies_def policies_under_def)
qed

theorem rollout_shadows_rules_witness:
  "\<exists>rt'. set_routing_rules show_nothing sample_runtime ''books'' two_rules ''b'' = Ok rt' \<and>
     routing_policies unary rt' ''books'' Read = routing_policies unary sample_runtime ''books'' Read"
proof -
  have "\<exists>rt'. set_routing_rules show_nothing sample_runtime ''books'' two_rules ''b'' = Ok rt'"
    by (simp add: set_routing_rules_def validate_routing_policy_def two_rules_def rule_targets_def
        jget_def sample_runtime_def resolve_cluster_name_def)
  then obtain rt' where "set_routing_rules show_nothing sample_runtime ''books'' two_rules ''b'' = Ok rt'"
    by blast
  with rollout_shadows_rules [OF sample_runtime_rollout this sample_runtime_enabled, of Read]
  show ?thesis by blast
qed

text \<open>
  Unregistering a cluster consults the routing rules only: a cluster that is the candidate of
  a rollout in its cutover phase, and the only one that is read, can be removed, after which the
  collection is searched nowhere.
\<close>

theorem unregister_ignores_rollouts:
  "cluster_names_for_search unary show_nothing sample_runtime ''books'' = Ok [''b''] \<and>
   (\<exists>rt'. unregister_cluster sample_runtime ''b'' = Ok rt' \<and>
      cluster_names_for_search unary show_nothing rt' ''books'' = Ok [])"
proof -
  obtain rt' where un: "unregister_cluster sample_runtime ''b'' = Ok rt'"
    and rt': "rt' = sample_runtime\<lparr>clients := [''a'']\<rparr>"
    by (simp add: unregister_cluster_def sample_runtime_def empty_runtime_def)
  have "rollout_for_collection unary rt' ''books'' = Ok (Some sample_routed)"
    using sample_runtime_rollout by (simp add: rt' rollout_for_collection_def)
  moreover have "\<not> is_disabled rt' ''books''"
    using sample_runtime_enabled by (simp add: rt' is_disabled_def policy_of_def)
  ultimately have "cluster_names_for_search unary show_nothing rt' ''books'' = Ok []"
    by (simp add: cluster_names_for_search_def routing_policies_def policies_under_def)
      (simp add: modes_defs policy_named_def routing_eval sample_rollout_defs sample_runtime_def rt')
  with un sample_search show ?thesis by blast
qed

end
