(* ===== verification/Integrity.thy ===== *)
theory Integrity
  imports PyValue
begin

text \<open>
  \<open>query_api/app/control_plane/integrity.py\<close>: the canonical JSON text of a value (sorted
  keys, no spaces, no NaN), the digest of a control-plane state and the hash-chained material
  of an audit event. SHA-256, the decimal text of a float and the ISO text of a UTC time are
  the fields of a \<open>platform\<close> record, which every function that uses them takes.
\<close>

record platform =
  sha256 :: "string \<Rightarrow> string"
  float_text :: "pyfloat \<Rightarrow> string"
  iso_text :: "time \<Rightarrow> string"

section \<open>Canonical JSON\<close>

text \<open>What \<open>json.dumps(allow_nan=False)\<close> accepts.\<close>

fun finite_json :: "json \<Rightarrow> bool" where
  "finite_json (JFloat f) = (case f of Fin _ \<Rightarrow> True | _ \<Rightarrow> False)"
| "finite_json (JArr xs) = (\<forall>x \<in> set xs. finite_json x)"
| "finite_json (JObj kvs) = (\<forall>kv \<in> set kvs. finite_json (snd kv))"
| "finite_json _ = True"

text \<open>\<open>sort_keys=True\<close>, at every level.\<close>

fun sort_json :: "json \<Rightarrow> json" where
  "sort_json (JArr xs) = JArr (map sort_json xs)"
| "sort_json (JObj kvs) = JObj (sort_key fst (map (\<lambda>kv. (fst kv, sort_json (snd kv))) kvs))"
| "sort_json v = v"

definition hex_digit :: "nat \<Rightarrow> char" where
  "hex_digit n = ''0123456789abcdef'' ! (n mod 16)"

definition escape_char :: "char \<Rightarrow> string" where
  "escape_char c = (let n = of_char c :: nat in
     if n = 34 then [CHR 0x5C, CHR 0x22]
     else if n = 92 then [CHR 0x5C, CHR 0x5C]
     else if n = 10 then CHR 0x5C # ''n''
     else if n = 13 then CHR 0x5C # ''r''
     else if n = 9 then CHR 0x5C # ''t''
     else if n = 12 then CHR 0x5C # ''f''
     else if n = 8 then CHR 0x5C # ''b''
     else if n < 32 then CHR 0x5C # ''u00'' @ [hex_digit (n div 16), hex_digit n]
     else [c])"

definition json_string :: "string \<Rightarrow> string" where
  "json_string s = CHR 0x22 # concat (map escape_char s) @ [CHR 0x22]"

fun print_json :: "(pyfloat \<Rightarrow> string) \<Rightarrow> json \<Rightarrow> string" where
  "print_json ft JNull = ''null''"
| "print_json ft (JBool b) = (if b then ''true'' else ''false'')"
| "print_json ft (JInt i) = int_str i"
| "print_json ft (JFloat f) = ft f"
| "print_json ft (JStr s) = json_string s"
| "print_json ft (JArr xs) = ''['' @ join_with '','' (map (print_json ft) xs) @ '']''"
| "print_json ft (JObj kvs) =
     ''{'' @ join_with '','' (map (\<lambda>kv. json_string (fst kv) @ '':'' @ print_json ft (snd kv)) kvs) @ ''}''"

definition canonical_json :: "platform \<Rightarrow> json \<Rightarrow> string" where
  "canonical_json pl v = print_json (float_text pl) (sort_json v)"

text \<open>
  \<open>normalize_json_object\<close>: encode and decode again; the result has sorted keys, and a
  NaN or an infinity is refused.
\<close>

definition normalize_json_object :: "document \<Rightarrow> document option" where
  "normalize_json_object d =
     (if finite_json (JObj d)
      then (case sort_json (JObj d) of JObj d' \<Rightarrow> Some d' | _ \<Rightarrow> None)
      else None)"

definition canonical_state_digest :: "platform \<Rightarrow> document \<Rightarrow> string" where
  "canonical_state_digest pl state = sha256 pl (canonical_json pl (JObj state))"

lemma map_sort_key_fst:
  assumes "\<And>x. fst (g x) = fst x"
  shows "map g (sort_key fst xs) = sort_key fst (map g xs)"
proof -
  have insort: "map g (insort_key fst x ys) = insort_key fst (g x) (map g ys)" for x ys
    using assms by (induction ys) auto
  show ?thesis by (induction xs) (simp_all add: insort)
qed

lemma sort_json_idem: "sort_json (sort_json v) = sort_json v"
proof (induction v rule: sort_json.induct)
  case (1 xs)
  then show ?case by (simp add: comp_def cong: map_cong)
next
  case (2 kvs)
  let ?g = "\<lambda>kv. (fst kv, sort_json (snd kv))"
  have twice: "map ?g (map ?g kvs) = map ?g kvs" using 2 by auto
  have "map ?g (sort_key fst (map ?g kvs)) = sort_key fst (map ?g (map ?g kvs))"
    by (rule map_sort_key_fst) simp
  then have "sort_key fst (map ?g (sort_key fst (map ?g kvs))) =
      sort_key fst (sort_key fst (map ?g kvs))"
    by (simp only: twice)
  then show ?case by (simp add: sort_key_id_if_sorted)
qed auto

lemma sort_json_finite: "finite_json (sort_json v) = finite_json v"
  by (induction v rule: sort_json.induct) auto

lemma normalize_idem:
  assumes "normalize_json_object d = Some d'"
  shows "normalize_json_object d' = Some d'"
proof -
  from assms have s: "sort_json (JObj d) = JObj d'" and "finite_json (JObj d)"
    by (auto simp: normalize_json_object_def split: if_splits)
  then have "sort_json (JObj d') = JObj d'" "finite_json (JObj d')"
    using sort_json_idem [of "JObj d"] sort_json_finite [of "JObj d"] by (simp_all only:)
  then show ?thesis by (simp add: normalize_json_object_def)
qed

lemma normalize_total: "finite_json (JObj d) \<Longrightarrow> \<exists>d'. normalize_json_object d = Some d'"
  by (simp add: normalize_json_object_def)

text \<open>The digest does not see the order of keys.\<close>

lemma digest_normalized:
  "normalize_json_object d = Some d' \<Longrightarrow> canonical_state_digest pl d' = canonical_state_digest pl d"
  using sort_json_idem [of "JObj d"]
  by (auto simp: normalize_json_object_def canonical_state_digest_def canonical_json_def
      split: if_splits)

section \<open>Audit material\<close>

definition ZERO_AUDIT_HASH :: string where
  "ZERO_AUDIT_HASH = replicate 64 CHR ''0''"

record AuditEvent =
  ae_actor :: string
  ae_action :: string
  ae_resource_type :: string
  ae_resource_id :: string
  ae_status :: string
  ae_request_id :: string
  ae_details :: document

definition revision_json :: "int option \<Rightarrow> json" where
  "revision_json r = (case r of None \<Rightarrow> JNull | Some i \<Rightarrow> JInt i)"

definition build_audit_material ::
  "platform \<Rightarrow> string \<Rightarrow> int \<Rightarrow> int option \<Rightarrow> time \<Rightarrow> AuditEvent \<Rightarrow> string \<Rightarrow> document option" where
  "build_audit_material pl event_id sequence revision timestamp a previous_hash =
     map_option (\<lambda>details.
       [(''id'', JStr event_id), (''sequence'', JInt sequence),
        (''revision'', revision_json revision), (''timestamp'', JStr (iso_text pl timestamp)),
        (''actor'', JStr (ae_actor a)), (''action'', JStr (ae_action a)),
        (''resource_type'', JStr (ae_resource_type a)), (''resource_id'', JStr (ae_resource_id a)),
        (''status'', JStr (ae_status a)), (''request_id'', JStr (ae_request_id a)),
        (''details'', JObj details), (''previous_hash'', JStr previous_hash)])
       (normalize_json_object (ae_details a))"

definition audit_event_hash :: "platform \<Rightarrow> document \<Rightarrow> string" where
  "audit_event_hash pl material = sha256 pl (canonical_json pl (JObj material))"

lemma material_fields:
  assumes "build_audit_material pl eid sq rv t a prev = Some m"
  shows "dget m ''sequence'' = Some (JInt sq)" and "dget m ''previous_hash'' = Some (JStr prev)"
    and "\<And>h. filter (\<lambda>kv. fst kv \<noteq> ''event_hash'') (m @ [(''event_hash'', h)]) = m"
    and "dget m ''event_hash'' = None"
  using assms by (auto simp: build_audit_material_def)

end
