(* ===== verification/RoutingMigration.thy ===== *)
theory RoutingMigration
  imports Federation Integrity
begin

text \<open>
  \<open>query_api/app/services/routing_migration.py\<close>: the bounded, restart-safe copy of a
  collection's documents to the clusters of a candidate policy, and the exact comparison of
  both sides. The Typesense documents API is the record \<open>provider\<close> over a world
  \<open>'w\<close>; CPython's \<open>json.loads\<close> of one line, \<open>int()\<close> and the text and float
  readings of \<open>Federation\<close> are the fields of the record \<open>python\<close>.
\<close>

section \<open>Data\<close>

record python =
  platform_of :: platform
  json_loads :: "string \<Rightarrow> json option"       \<comment> \<open>\<open>None\<close>: \<open>JSONDecodeError\<close>\<close>
  text_of :: "json \<Rightarrow> string"
  float_of :: "json \<Rightarrow> pyfloat option"
  int_of :: "json \<Rightarrow> int option"             \<comment> \<open>of a value that is not an int\<close>

datatype migration_error =
    NotCanonical | Undecodable | NonTextExport string | InvalidJsonl string nat
  | NonObject string | NoStringId string
  | UnavailableCluster string | NoClient string | ExportFailed string
  | ConflictingCopies string string string | NoTarget
  | InvalidDiagnostics string | UnsupportedReply string | ImportRefused string
  | ImportFailed string "string list"
  | WrongPhase | OutOfRange | BadCheckpoint

text \<open>What \<open>documents.export()\<close> and \<open>documents.import_()\<close> return or raise.\<close>

datatype export_reply =
  ExportText string | ExportBytes "string option" | ExportOther | ExportRaised

datatype import_reply =
  ImportNone | ImportText string | ImportList "json list" | ImportOther | ImportRaised

record 'w provider =
  export_documents :: "'w \<Rightarrow> string \<Rightarrow> string \<Rightarrow> export_reply"
  import_documents :: "'w \<Rightarrow> string \<Rightarrow> string \<Rightarrow> document list \<Rightarrow> 'w \<times> import_reply"

record BackfillStepResult =
  bs_checkpoint :: document
  bs_copied :: nat
  bs_complete :: bool
  bs_source_documents :: nat

record ParityReport =
  pr_passed :: bool
  pr_digest :: string
  pr_source_documents :: nat
  pr_candidate_documents :: nat
  pr_missing_ids :: "string list"
  pr_unexpected_ids :: "string list"
  pr_different_ids :: "string list"

section \<open>Canonical documents\<close>

abbreviation canon :: "python \<Rightarrow> document \<Rightarrow> string" where
  "canon py d \<equiv> canonical_json (platform_of py) (JObj d)"

definition canonical :: "python \<Rightarrow> document \<Rightarrow> migration_error + string" where
  "canonical py d = (if finite_json (JObj d) then Ok (canon py d) else Raise NotCanonical)"

text \<open>The sorted keys of a dictionary, each with its value.\<close>

definition logical_digest :: "python \<Rightarrow> (string, document) pydict \<Rightarrow> migration_error + string" where
  "logical_digest py docs =
     ebind (mapE (\<lambda>(i, d). ebind (canonical py d) (\<lambda>t. Ok (i @ [CHR 0x1F] @ t @ [CHR 0x0A])))
              (sort_key fst docs)) (\<lambda>parts.
       Ok (''sha256:'' @ sha256 (platform_of py) (concat parts)))"

section \<open>Reading an export\<close>

text \<open>\<open>str.splitlines\<close> on the code points below 256.\<close>

definition is_line_end :: "char \<Rightarrow> bool" where
  "is_line_end c = (let n = of_char c :: nat in
     (10 \<le> n \<and> n \<le> 13) \<or> (28 \<le> n \<and> n \<le> 30) \<or> n = 133)"

fun splitlines_acc :: "string \<Rightarrow> string \<Rightarrow> string list" where
  "splitlines_acc cur [] = (if cur = [] then [] else [rev cur])"
| "splitlines_acc cur (c # cs) =
     (if c = CHR 0x0D \<and> take 1 cs = [CHR 0x0A] then splitlines_acc cur cs
      else if is_line_end c then rev cur # splitlines_acc [] cs
      else splitlines_acc (c # cur) cs)"

definition splitlines :: "string \<Rightarrow> string list" where
  "splitlines s = splitlines_acc [] s"

definition document_id :: "document \<Rightarrow> string" where
  "document_id d = text_or d ''id'' []"

definition parse_line :: "python \<Rightarrow> string \<Rightarrow> nat \<Rightarrow> string \<Rightarrow> migration_error + document" where
  "parse_line py cluster n line =
     (case json_loads py line of
        None \<Rightarrow> Raise (InvalidJsonl cluster n)
      | Some (JObj d) \<Rightarrow> if document_id d = [] then Raise (NoStringId cluster) else Ok d
      | Some _ \<Rightarrow> Raise (NonObject cluster))"

text \<open>The generator: what each of its steps yields or raises.\<close>

definition parse_export :: "python \<Rightarrow> string \<Rightarrow> string \<Rightarrow> (migration_error + document) list" where
  "parse_export py cluster raw =
     map (\<lambda>(n, line). parse_line py cluster n line)
       (filter (\<lambda>(n, line). strip line \<noteq> []) (enumerate 1 (splitlines raw)))"

definition export_text :: "string \<Rightarrow> export_reply \<Rightarrow> migration_error + string" where
  "export_text cluster reply =
     (case reply of
        ExportText s \<Rightarrow> Ok s
      | ExportBytes (Some s) \<Rightarrow> Ok s
      | ExportBytes None \<Rightarrow> Raise Undecodable
      | ExportOther \<Rightarrow> Raise (NonTextExport cluster)
      | ExportRaised \<Rightarrow> Raise (ExportFailed cluster))"

section \<open>The union of the clusters of a policy\<close>

definition named_cluster :: "FederationRuntime \<Rightarrow> string \<Rightarrow> migration_error + string" where
  "named_cluster rt name = (case resolve_cluster_name rt name of
     None \<Rightarrow> Raise (UnavailableCluster name) | Some c \<Rightarrow> Ok c)"

definition policy_names :: "python \<Rightarrow> document \<Rightarrow> string list" where
  "policy_names py policy =
     concat (map (rule_targets (text_of py)) (policy_rules policy)) @
     [let v = jget policy ''default_cluster'' in if truthy v then py_str (text_of py) v else ''default'']"

definition policy_clusters :: "python \<Rightarrow> FederationRuntime \<Rightarrow> document \<Rightarrow> migration_error + string list" where
  "policy_clusters py rt policy =
     ebind (mapE (named_cluster rt) (policy_names py policy)) (\<lambda>cs. Ok (fromkeys cs))"

definition candidate_cluster_names ::
  "python \<Rightarrow> FederationRuntime \<Rightarrow> RoutingRollout \<Rightarrow> migration_error + string list" where
  "candidate_cluster_names py rt r = policy_clusters py rt (candidate_policy r)"

definition same_copy :: "python \<Rightarrow> string \<Rightarrow> string \<Rightarrow> string \<Rightarrow> document option \<Rightarrow> document
    \<Rightarrow> migration_error + unit" where
  "same_copy py i origin cluster existing d =
     (case existing of
        None \<Rightarrow> Ok ()
      | Some e \<Rightarrow> ebind (canonical py e) (\<lambda>a. ebind (canonical py d) (\<lambda>b.
          require (a = b) (ConflictingCopies i origin cluster))))"

fun absorb :: "python \<Rightarrow> string \<Rightarrow> (string, document) pydict \<Rightarrow> (string, string) pydict
    \<Rightarrow> (migration_error + document) list \<Rightarrow> migration_error + (string, document) pydict \<times> (string, string) pydict" where
  "absorb py cluster docs origins [] = Ok (docs, origins)"
| "absorb py cluster docs origins (r # rs) =
     ebind r (\<lambda>d. let i = document_id d in
     ebind (same_copy py i (case dget origins i of Some x \<Rightarrow> x | None \<Rightarrow> []) cluster (dget docs i) d) (\<lambda>_.
       absorb py cluster (dput i d docs) (dput i cluster origins) rs))"

fun export_clusters :: "python \<Rightarrow> 'w provider \<Rightarrow> FederationRuntime \<Rightarrow> 'w \<Rightarrow> string
    \<Rightarrow> (string, document) pydict \<Rightarrow> (string, string) pydict \<Rightarrow> string list
    \<Rightarrow> migration_error + (string, document) pydict" where
  "export_clusters py pr rt w coll docs origins [] = Ok docs"
| "export_clusters py pr rt w coll docs origins (c # cs) =
     (if c \<notin> set (clients rt) then Raise (NoClient c)
      else ebind (export_text c (export_documents pr w c coll)) (\<lambda>raw.
        ebind (absorb py c docs origins (parse_export py c raw)) (\<lambda>(docs', origins').
          export_clusters py pr rt w coll docs' origins' cs)))"

definition export_policy_union :: "python \<Rightarrow> 'w provider \<Rightarrow> FederationRuntime \<Rightarrow> 'w \<Rightarrow> string
    \<Rightarrow> document \<Rightarrow> migration_error + (string, document) pydict" where
  "export_policy_union py pr rt w coll policy =
     ebind (policy_clusters py rt policy) (export_clusters py pr rt w coll [] [])"

section \<open>One backfill step\<close>

definition candidate_targets ::
  "python \<Rightarrow> FederationRuntime \<Rightarrow> RoutingRollout \<Rightarrow> document \<Rightarrow> migration_error + string list" where
  "candidate_targets py rt r d =
     ebind (mapE (named_cluster rt)
        (target_clusters (preview_routing (text_of py) (float_of py) rt (rollout_collection r) d
           (Some (candidate_policy r))))) (\<lambda>names.
       if names = [] then Raise NoTarget else Ok (fromkeys names))"

definition import_items :: "python \<Rightarrow> string \<Rightarrow> import_reply \<Rightarrow> migration_error + json list" where
  "import_items py cluster reply =
     (case reply of
        ImportText s \<Rightarrow> (case those (map (json_loads py) (filter (\<lambda>l. strip l \<noteq> []) (splitlines s))) of
          None \<Rightarrow> Raise (InvalidDiagnostics cluster) | Some items \<Rightarrow> Ok items)
      | ImportNone \<Rightarrow> Ok []
      | ImportList items \<Rightarrow> Ok items
      | ImportOther \<Rightarrow> Raise (UnsupportedReply cluster)
      | ImportRaised \<Rightarrow> Raise (ImportRefused cluster))"

fun item_succeeded :: "json \<Rightarrow> bool" where
  "item_succeeded (JObj item) = truthy (jget item ''success'')"
| "item_succeeded _ = False"

fun item_error :: "python \<Rightarrow> json \<Rightarrow> string option" where
  "item_error py (JObj item) = Some (take 256 (case dget item ''error'' of
     Some v \<Rightarrow> py_str (text_of py) v | None \<Rightarrow> ''unknown error''))"
| "item_error py _ = None"

definition validate_import_result :: "python \<Rightarrow> string \<Rightarrow> import_reply \<Rightarrow> migration_error + unit" where
  "validate_import_result py cluster reply =
     ebind (import_items py cluster reply) (\<lambda>items.
       let failed = filter (\<lambda>item. \<not> item_succeeded item) items;
           errors = List.map_filter (item_error py) failed in
       require (failed = []) (ImportFailed cluster (if errors = [] then [''unknown error''] else errors)))"

text \<open>\<open>batches.setdefault(cluster_name, []).append(document)\<close>.\<close>

definition add_to_batch :: "document \<Rightarrow> (string, document list) pydict \<Rightarrow> string \<Rightarrow> (string, document list) pydict" where
  "add_to_batch d batches c =
     dput c ((case dget batches c of Some ds \<Rightarrow> ds | None \<Rightarrow> []) @ [d]) batches"

fun plan_batches :: "python \<Rightarrow> FederationRuntime \<Rightarrow> RoutingRollout \<Rightarrow> (string, document list) pydict
    \<Rightarrow> document list \<Rightarrow> migration_error + (string, document list) pydict" where
  "plan_batches py rt r batches [] = Ok batches"
| "plan_batches py rt r batches (d # ds) =
     ebind (candidate_targets py rt r d) (\<lambda>ts.
       plan_batches py rt r (foldl (add_to_batch d) batches ts) ds)"

fun import_batches :: "python \<Rightarrow> 'w provider \<Rightarrow> string \<Rightarrow> 'w \<Rightarrow> (string, document list) pydict
    \<Rightarrow> 'w \<times> (migration_error + unit)" where
  "import_batches py pr coll w [] = (w, Ok ())"
| "import_batches py pr coll w ((c, ds) # rest) =
     (let (w', reply) = import_documents pr w c coll ds in
      case validate_import_result py c reply of
        Raise e \<Rightarrow> (w', Raise e)
      | Ok _ \<Rightarrow> import_batches py pr coll w' rest)"

definition last_document_id :: "python \<Rightarrow> document \<Rightarrow> string" where
  "last_document_id py cp = (let v = jget cp ''last_document_id'' in
     if truthy v then py_str (text_of py) v else [])"

definition processed_documents :: "python \<Rightarrow> document \<Rightarrow> migration_error + int" where
  "processed_documents py cp = (let v = jget cp ''processed_documents'' in
     if \<not> truthy v then Ok 0
     else case v of JInt n \<Rightarrow> Ok n
       | _ \<Rightarrow> (case int_of py v of Some n \<Rightarrow> Ok n | None \<Rightarrow> Raise BadCheckpoint))"

definition pending_documents :: "string \<Rightarrow> (string, document) pydict \<Rightarrow> (string \<times> document) list" where
  "pending_documents last_id source = filter (\<lambda>(i, d). last_id < i) (sort_key fst source)"

definition next_checkpoint :: "document \<Rightarrow> string \<Rightarrow> int \<Rightarrow> nat \<Rightarrow> string \<Rightarrow> bool \<Rightarrow> document" where
  "next_checkpoint cp last_id processed seen digest finished =
     dput ''backfill_complete'' (JBool finished) (dput ''source_digest_at_step'' (JStr digest)
       (dput ''source_documents_seen'' (JInt (int seen)) (dput ''processed_documents'' (JInt processed)
         (dput ''last_document_id'' (JStr last_id) cp))))"

definition run_step :: "python \<Rightarrow> 'w provider \<Rightarrow> FederationRuntime \<Rightarrow> 'w \<Rightarrow> RoutingRollout
    \<Rightarrow> document \<Rightarrow> nat \<Rightarrow> 'w \<times> (migration_error + BackfillStepResult)" where
  "run_step py pr rt w r cp max_documents =
     (if phase r \<noteq> BACKFILL then (w, Raise WrongPhase)
      else if max_documents < 1 \<or> max_documents > 10000 then (w, Raise OutOfRange)
      else case export_policy_union py pr rt w (rollout_collection r) (active_policy r) of
        Raise e \<Rightarrow> (w, Raise e)
      | Ok source \<Rightarrow>
        (let last_id = last_document_id py cp;
             pending = pending_documents last_id source;
             selected = take max_documents pending in
         case plan_batches py rt r [] (map snd selected) of
           Raise e \<Rightarrow> (w, Raise e)
         | Ok batches \<Rightarrow>
           (case import_batches py pr (rollout_collection r) w batches of
              (w', Raise e) \<Rightarrow> (w', Raise e)
            | (w', Ok _) \<Rightarrow>
              (w', ebind (processed_documents py cp) (\<lambda>processed.
                   ebind (logical_digest py source) (\<lambda>digest.
                     let finished = (length selected = length pending) in
                     Ok \<lparr>bs_checkpoint = next_checkpoint cp
                           (if selected = [] then last_id else fst (last selected))
                           (processed + int (length selected)) (length source) digest finished,
                         bs_copied = length selected, bs_complete = finished,
                         bs_source_documents = length source\<rparr>))))))"

section \<open>Parity\<close>

fun different_copies :: "python \<Rightarrow> (string, document) pydict \<Rightarrow> (string \<times> document) list
    \<Rightarrow> migration_error + string list" where
  "different_copies py candidate [] = Ok []"
| "different_copies py candidate ((i, d) # rest) =
     (case dget candidate i of
        None \<Rightarrow> different_copies py candidate rest
      | Some d' \<Rightarrow> ebind (canonical py d) (\<lambda>a. ebind (canonical py d') (\<lambda>b.
          ebind (different_copies py candidate rest) (\<lambda>ids. Ok (if a = b then ids else i # ids)))))"

definition verify_parity :: "python \<Rightarrow> 'w provider \<Rightarrow> FederationRuntime \<Rightarrow> 'w \<Rightarrow> RoutingRollout
    \<Rightarrow> nat \<Rightarrow> migration_error + ParityReport" where
  "verify_parity py pr rt w r sample_limit =
     (if phase r \<notin> {BACKFILL, VERIFYING} then Raise WrongPhase
      else if sample_limit < 1 \<or> sample_limit > 1000 then Raise OutOfRange
      else
        ebind (export_policy_union py pr rt w (rollout_collection r) (active_policy r)) (\<lambda>source.
        ebind (export_policy_union py pr rt w (rollout_collection r) (candidate_policy r)) (\<lambda>candidate.
        let missing = sort (filter (\<lambda>i. i \<notin> set (dkeys candidate)) (dkeys source));
            unexpected = sort (filter (\<lambda>i. i \<notin> set (dkeys source)) (dkeys candidate)) in
        ebind (different_copies py candidate source) (\<lambda>differing.
        ebind (logical_digest py source) (\<lambda>source_digest.
        ebind (logical_digest py candidate) (\<lambda>candidate_digest.
          Ok \<lparr>pr_passed = (missing = [] \<and> unexpected = [] \<and> differing = [] \<and> source_digest = candidate_digest),
             pr_digest = (if source_digest = candidate_digest then source_digest else []),
             pr_source_documents = length source, pr_candidate_documents = length candidate,
             pr_missing_ids = take sample_limit missing,
             pr_unexpected_ids = take sample_limit unexpected,
             pr_different_ids = take sample_limit (sort differing)\<rparr>))))))"

end
