(* ===== verification/BackfillParity.thy ===== *)
theory BackfillParity
  imports RoutingMigration
begin

text \<open>
  What the backfill and the parity check of \<open>RoutingMigration\<close> guarantee about the documents
  of the clusters. The documents interface of Typesense is described by two contracts over the
  contents \<open>stored\<close> of the clusters; no other writer changes them meanwhile. Every step, also
  one that fails part-way, only adds copies of source documents (\<open>grown\<close>), so the source of all
  steps is the one of the first, and the checkpoint bounds what has been copied.
\<close>

section \<open>What the documents interface promises\<close>

text \<open>
  \<open>stored w c coll i\<close> is the document that cluster \<open>c\<close> holds in the collection under the
  id. An export that answers lists exactly the stored documents, one per line.
\<close>

type_synonym 'w contents = "'w \<Rightarrow> string \<Rightarrow> string \<Rightarrow> string \<Rightarrow> document option"

definition by_id :: "document list \<Rightarrow> (string, document) pydict" where
  "by_id ds = map (\<lambda>d. (document_id d, d)) ds"

definition export_contract :: "python \<Rightarrow> 'w provider \<Rightarrow> 'w contents \<Rightarrow> bool" where
  "export_contract py pr stored \<longleftrightarrow>
     (\<forall>w c coll raw. export_text c (export_documents pr w c coll) = Ok raw \<longrightarrow>
       (\<exists>ds. parse_export py c raw = map Ok ds \<and> distinct (map document_id ds) \<and>
         (\<forall>d \<in> set ds. finite_json (JObj d)) \<and> stored w c coll = dget (by_id ds)))"

definition texts :: "python \<Rightarrow> (string, document) pydict \<Rightarrow> string \<Rightarrow> string option" where
  "texts py docs i = map_option (canon py) (dget docs i)"

definition kept_document :: "string \<Rightarrow> document \<Rightarrow> bool" where
  "kept_document i d \<longleftrightarrow> document_id d = i \<and> i \<noteq> [] \<and> finite_json (JObj d)"

definition well_kept :: "(string, document) pydict \<Rightarrow> bool" where
  "well_kept docs \<longleftrightarrow> distinct (dkeys docs) \<and> (\<forall>(i, d) \<in> set docs. kept_document i d)"

lemma texts_dput: "texts py (dput k d docs) i = (if i = k then Some (canon py d) else texts py docs i)"
  by (simp add: texts_def dget_dput)

lemma set_dput_subset: "set (dput k d docs) \<subseteq> insert (k, d) (set docs)"
  by (induction docs) auto

lemma well_kept_dput: "well_kept docs \<Longrightarrow> kept_document i d \<Longrightarrow> well_kept (dput i d docs)"
  using set_dput_subset [of i d docs] by (fastforce simp: well_kept_def distinct_update)

lemma well_kept_get: "well_kept docs \<Longrightarrow> dget docs i = Some d \<Longrightarrow> kept_document i d"
  by (auto simp: well_kept_def dest!: map_of_SomeD)

lemma parse_line_id: "parse_line py c n line = Ok d \<Longrightarrow> document_id d \<noteq> []"
  by (auto simp: parse_line_def split: option.splits json.splits if_splits)

lemma parsed_kept:
  assumes "parse_export py c raw = map Ok ds" and "\<forall>d \<in> set ds. finite_json (JObj d)"
  shows "\<forall>d \<in> set ds. kept_document (document_id d) d"
proof
  fix d assume d: "d \<in> set ds"
  then have "Ok d \<in> set (parse_export py c raw)" by (simp add: assms(1))
  then have "document_id d \<noteq> []" by (auto simp: parse_export_def dest!: sym [THEN parse_line_id])
  with d assms(2) show "kept_document (document_id d) d" by (simp add: kept_document_def)
qed

lemma same_copy_Ok:
  assumes "well_kept docs" and "kept_document i d"
  shows "same_copy py i origin c (dget docs i) d = Ok () \<longleftrightarrow> (\<forall>t. texts py docs i = Some t \<longrightarrow> t = canon py d)"
  using assms well_kept_get [of docs i]
  by (cases "dget docs i")
    (auto simp: same_copy_def texts_def canonical_def kept_document_def simp del: finite_json.simps)

lemma absorb_view:
  assumes "absorb py c docs origins (map Ok ds) = Ok (docs', origins')" and "well_kept docs"
    and "\<forall>d \<in> set ds. kept_document (document_id d) d" and "distinct (map document_id ds)"
  shows "well_kept docs' \<and> (\<forall>i. dget docs' i = (dget docs ++ dget (by_id ds)) i) \<and>
    (\<forall>i d t. dget (by_id ds) i = Some d \<longrightarrow> texts py docs i = Some t \<longrightarrow> t = canon py d)"
  using assms
proof (induction ds arbitrary: docs origins)
  case (Cons d ds)
  let ?i = "document_id d"
  from Cons.prems(1) obtain x where "same_copy py ?i x c (dget docs ?i) d = Ok ()"
    and rest: "absorb py c (dput ?i d docs) (dput ?i c origins) (map Ok ds) = Ok (docs', origins')"
    by (auto simp: ebind_eq_Ok Let_def)
  then have same: "\<forall>t. texts py docs ?i = Some t \<longrightarrow> t = canon py d"
    using Cons.prems by (simp add: same_copy_Ok)
  have fresh: "dget (by_id ds) ?i = None"
    using Cons.prems(4) by (auto simp: map_of_eq_None_iff by_id_def)
  have "well_kept docs' \<and> (\<forall>i. dget docs' i = (dget (dput ?i d docs) ++ dget (by_id ds)) i) \<and>
      (\<forall>i d' t. dget (by_id ds) i = Some d' \<longrightarrow> texts py (dput ?i d docs) i = Some t \<longrightarrow> t = canon py d')"
    using Cons.prems by (intro Cons.IH [OF rest well_kept_dput]) auto
  with same fresh show ?case
    by (auto simp: texts_dput dget_dput map_add_def by_id_def split: option.splits if_splits)
qed (simp add: by_id_def)

lemma absorb_total:
  assumes "well_kept docs" and "\<forall>d \<in> set ds. kept_document (document_id d) d" and "distinct (map document_id ds)"
    and "\<And>i d t. dget (by_id ds) i = Some d \<Longrightarrow> texts py docs i = Some t \<Longrightarrow> t = canon py d"
  shows "\<exists>docs' origins'. absorb py c docs origins (map Ok ds) = Ok (docs', origins')"
  using assms
proof (induction ds arbitrary: docs origins)
  case (Cons d ds)
  let ?i = "document_id d"
  have "t = canon py d" if "texts py docs ?i = Some t" for t
    using that Cons.prems(4) [of ?i d t] by (simp add: by_id_def)
  then have same: "same_copy py ?i x c (dget docs ?i) d = Ok ()" for x
    using Cons.prems by (simp add: same_copy_Ok)
  have fresh: "dget (by_id ds) ?i = None"
    using Cons.prems(3) by (auto simp: map_of_eq_None_iff by_id_def)
  have "\<exists>docs' origins'. absorb py c (dput ?i d docs) (dput ?i c origins) (map Ok ds) = Ok (docs', origins')"
  proof (rule Cons.IH)
    show "well_kept (dput ?i d docs)" using Cons.prems by (intro well_kept_dput) auto
    show "t = canon py d'" if "dget (by_id ds) i = Some d'" "texts py (dput ?i d docs) i = Some t" for i d' t
      using that fresh Cons.prems(4) [of i d' t] by (auto simp: texts_dput by_id_def split: if_splits)
  qed (use Cons.prems in auto)
  with same show ?case by (simp add: Let_def)
qed simp

text \<open>The last cluster that holds a document decides its copy.\<close>

definition latest_copy :: "'w contents \<Rightarrow> 'w \<Rightarrow> string \<Rightarrow> string \<Rightarrow> string list \<Rightarrow> document option \<Rightarrow> document option" where
  "latest_copy stored w coll i cs start = foldl (\<lambda>found c. (case stored w c coll i of None \<Rightarrow> found | Some d \<Rightarrow> Some d)) start cs"

definition agreeing :: "python \<Rightarrow> 'w contents \<Rightarrow> 'w \<Rightarrow> string \<Rightarrow> string list \<Rightarrow> bool" where
  "agreeing py stored w coll cs \<longleftrightarrow>
     (\<forall>i. \<forall>c \<in> set cs. \<forall>c' \<in> set cs. \<forall>d d'. stored w c coll i = Some d \<longrightarrow> stored w c' coll i = Some d' \<longrightarrow>
        canon py d = canon py d')"

lemma agreeing_subset: "agreeing py stored w coll cs \<Longrightarrow> set cs' \<subseteq> set cs \<Longrightarrow> agreeing py stored w coll cs'"
  unfolding agreeing_def by (meson subsetD)

lemma agreeing_copies:
  assumes "agreeing py stored w coll cs" "c \<in> set cs" "c' \<in> set cs"
    and "stored w c coll i = Some d" "stored w c' coll i = Some d'"
  shows "canon py d = canon py d'"
  using assms unfolding agreeing_def by blast

lemma export_clusters_view:
  assumes contract: "export_contract py pr stored"
    and "export_clusters py pr rt w coll docs origins cs = Ok docs'" and "well_kept docs"
  shows "well_kept docs' \<and> (\<forall>i. dget docs' i = latest_copy stored w coll i cs (dget docs i)) \<and>
    (\<forall>i t. texts py docs' i = Some t \<longleftrightarrow>
       texts py docs i = Some t \<or> (\<exists>c \<in> set cs. map_option (canon py) (stored w c coll i) = Some t))"
  using assms(2,3)
proof (induction cs arbitrary: docs origins)
  case (Cons c cs)
  from Cons.prems(1) obtain raw docs1 origins1
    where raw: "export_text c (export_documents pr w c coll) = Ok raw"
      and one: "absorb py c docs origins (parse_export py c raw) = Ok (docs1, origins1)"
      and rest: "export_clusters py pr rt w coll docs1 origins1 cs = Ok docs'"
    by (auto simp: ebind_eq_Ok split: if_splits)
  from contract raw obtain ds where ds: "parse_export py c raw = map Ok ds" "distinct (map document_id ds)"
      "\<forall>d \<in> set ds. finite_json (JObj d)" "stored w c coll = dget (by_id ds)"
    unfolding export_contract_def by blast
  from absorb_view [OF one [unfolded ds(1)] Cons.prems(2) parsed_kept [OF ds(1,3)] ds(2)]
  have one: "well_kept docs1" "\<And>i. dget docs1 i = (dget docs ++ stored w c coll) i"
    and agree: "\<And>i d t. stored w c coll i = Some d \<Longrightarrow> texts py docs i = Some t \<Longrightarrow> t = canon py d"
    by (auto simp: ds(4))
  have "texts py docs1 i = Some t \<longleftrightarrow> texts py docs i = Some t \<or> map_option (canon py) (stored w c coll i) = Some t" for i t
    using agree [of i] by (auto simp: texts_def one(2) map_add_def split: option.splits)
  with Cons.IH [OF rest one(1)] show ?case
    by (auto simp: one(2) latest_copy_def map_add_def split: option.splits)
qed (simp add: latest_copy_def)

lemma export_clusters_total:
  assumes contract: "export_contract py pr stored"
    and answers: "\<forall>c \<in> set cs. \<exists>raw. export_text c (export_documents pr w c coll) = Ok raw"
    and "set cs \<subseteq> set (clients rt)" and "agreeing py stored w coll cs" and "well_kept docs"
    and "\<And>i c d t. c \<in> set cs \<Longrightarrow> stored w c coll i = Some d \<Longrightarrow> texts py docs i = Some t \<Longrightarrow> t = canon py d"
  shows "\<exists>docs'. export_clusters py pr rt w coll docs origins cs = Ok docs'"
  using assms(2-6)
proof (induction cs arbitrary: docs origins)
  case (Cons c cs)
  then obtain raw where raw: "export_text c (export_documents pr w c coll) = Ok raw" by auto
  with contract obtain ds where ds: "parse_export py c raw = map Ok ds" "distinct (map document_id ds)"
      "\<forall>d \<in> set ds. finite_json (JObj d)" "stored w c coll = dget (by_id ds)"
    unfolding export_contract_def by blast
  have "\<exists>docs1 origins1. absorb py c docs origins (map Ok ds) = Ok (docs1, origins1)"
    using Cons.prems(4) Cons.prems(5) [of c]
    by (intro absorb_total parsed_kept [OF ds(1,3)] ds(2)) (auto simp: ds(4))
  then obtain docs1 origins1 where one: "absorb py c docs origins (map Ok ds) = Ok (docs1, origins1)" by blast
  from absorb_view [OF one Cons.prems(4) parsed_kept [OF ds(1,3)] ds(2)]
  have view: "well_kept docs1" "\<And>i. dget docs1 i = (dget docs ++ stored w c coll) i"
    by (auto simp: ds(4))
  have "\<exists>docs'. export_clusters py pr rt w coll docs1 origins1 cs = Ok docs'"
  proof (rule Cons.IH)
    show "agreeing py stored w coll cs" by (rule agreeing_subset [OF Cons.prems(3)]) auto
    show "t = canon py d" if given: "c' \<in> set cs" "stored w c' coll i = Some d" "texts py docs1 i = Some t" for i c' d t
    proof (cases "stored w c coll i")
      case None
      with given Cons.prems(5) [of c' i d t] show ?thesis by (simp add: texts_def view(2) map_add_def)
    next
      case (Some e)
      then have "canon py e = canon py d"
        using given(1,2) by (intro agreeing_copies [OF Cons.prems(3)]) auto
      with Some given(3) show ?thesis by (simp add: texts_def view(2) map_add_def)
    qed
  qed (use Cons.prems view in auto)
  with one raw Cons.prems(2) show ?case by (simp add: ds(1))
qed simp

lemma union_view:
  assumes "export_contract py pr stored" and "export_policy_union py pr rt w coll policy = Ok docs"
    and "policy_clusters py rt policy = Ok cs"
  shows "well_kept docs" and "dget docs i = latest_copy stored w coll i cs None"
    and "texts py docs i = Some t \<longleftrightarrow> (\<exists>c \<in> set cs. map_option (canon py) (stored w c coll i) = Some t)"
proof -
  have "export_clusters py pr rt w coll [] [] cs = Ok docs" and "well_kept []"
    using assms(2,3) by (simp_all add: export_policy_union_def well_kept_def)
  note view = export_clusters_view [OF assms(1) this]
  from view show "well_kept docs" "dget docs i = latest_copy stored w coll i cs None" by simp_all
  have "texts py [] i \<noteq> Some t" by (simp add: texts_def)
  with view show "texts py docs i = Some t \<longleftrightarrow> (\<exists>c \<in> set cs. map_option (canon py) (stored w c coll i) = Some t)"
    by blast
qed

section \<open>Exact comparison\<close>

lemma well_kept_texts_set:
  assumes "well_kept docs"
  shows "map (\<lambda>(i, d). (i, canon py d)) (sort_key fst docs) = sort_key fst (map (\<lambda>(i, d). (i, canon py d)) docs)"
    and "set (map (\<lambda>(i, d). (i, canon py d)) docs) = {(i, t). texts py docs i = Some t}"
proof -
  show "map (\<lambda>(i, d). (i, canon py d)) (sort_key fst docs) = sort_key fst (map (\<lambda>(i, d). (i, canon py d)) docs)"
    by (rule map_sort_key_fst) auto
  have "distinct (dkeys docs)" using assms by (simp add: well_kept_def)
  then show "set (map (\<lambda>(i, d). (i, canon py d)) docs) = {(i, t). texts py docs i = Some t}"
    by (force simp: texts_def dest: map_of_SomeD)
qed

lemma digest_of_texts:
  assumes "well_kept docs"
  shows "logical_digest py docs = Ok (''sha256:'' @ sha256 (platform_of py)
    (concat (map (\<lambda>(i, t). i @ [CHR 0x1F] @ t @ [CHR 0x0A]) (sort_key fst (map (\<lambda>(i, d). (i, canon py d)) docs)))))"
proof -
  have "mapE (\<lambda>(i, d). ebind (canonical py d) (\<lambda>t. Ok (i @ [CHR 0x1F] @ t @ [CHR 0x0A]))) (sort_key fst docs)
      = Ok (map (\<lambda>(i, d). i @ [CHR 0x1F] @ canon py d @ [CHR 0x0A]) (sort_key fst docs))"
    using assms by (intro mapE_Ok_self) (auto simp: canonical_def well_kept_def kept_document_def simp del: finite_json.simps)
  moreover have "map (\<lambda>(i, d). i @ [CHR 0x1F] @ canon py d @ [CHR 0x0A]) (sort_key fst docs) =
      map (\<lambda>(i, t). i @ [CHR 0x1F] @ t @ [CHR 0x0A]) (map (\<lambda>(i, d). (i, canon py d)) (sort_key fst docs))"
    by (simp add: split_beta)
  ultimately show ?thesis
    by (simp only: logical_digest_def ebind_Ok well_kept_texts_set(1) [OF assms])
qed

lemma same_texts_digest:
  assumes "well_kept docs" "well_kept docs'" and "\<And>i. texts py docs i = texts py docs' i"
  shows "logical_digest py docs = logical_digest py docs'"
proof -
  let ?view = "\<lambda>docs. map (\<lambda>(i, d). (i, canon py d)) docs"
  have keys: "map fst (?view ds) = dkeys ds" for ds by (induction ds) auto
  have "sort_key fst (?view docs) = sort_key fst (?view docs')"
  proof (rule sort_key_unique)
    show "set (?view docs) = set (?view docs')" using assms by (simp only: well_kept_texts_set(2))
    have "distinct (map fst (?view docs))" "distinct (map fst (?view docs'))"
      using assms(1,2) by (simp_all only: keys) (simp_all add: well_kept_def)
    then show "distinct (?view docs)" "distinct (?view docs')" "inj_on fst (set (?view docs))"
      by (simp_all only: distinct_map)
  qed
  then show ?thesis using assms(1,2) by (simp add: digest_of_texts)
qed

lemma different_copies_total:
  assumes "\<forall>(i, d) \<in> set docs. finite_json (JObj d)" and "well_kept candidate"
  shows "different_copies py candidate docs =
    Ok (map fst (filter (\<lambda>(i, d). \<exists>t. texts py candidate i = Some t \<and> t \<noteq> canon py d) docs))"
  using assms(1)
proof (induction docs)
  case (Cons item docs)
  obtain i d where item: "item = (i, d)" by (cases item)
  show ?case
    using Cons well_kept_get [OF assms(2), of i]
    by (cases "dget candidate i") (auto simp: item texts_def canonical_def kept_document_def simp del: finite_json.simps)
qed simp

lemma differing_empty:
  assumes "well_kept docs" and "well_kept candidate"
  shows "filter (\<lambda>i. i \<notin> set (dkeys candidate)) (dkeys docs) = [] \<and> filter (\<lambda>i. i \<notin> set (dkeys docs)) (dkeys candidate) = []
      \<and> filter (\<lambda>(i, d). \<exists>t. texts py candidate i = Some t \<and> t \<noteq> canon py d) docs = [] \<longleftrightarrow>
    (\<forall>i. texts py docs i = texts py candidate i)"
proof -
  have get: "dget docs i = Some d \<longleftrightarrow> (i, d) \<in> set docs" "dget candidate i = Some d \<longleftrightarrow> (i, d) \<in> set candidate" for i d
    using assms by (auto simp: well_kept_def map_of_eq_Some_iff)
  show ?thesis
  proof
    assume no_differences: "filter (\<lambda>i. i \<notin> set (dkeys candidate)) (dkeys docs) = [] \<and> filter (\<lambda>i. i \<notin> set (dkeys docs)) (dkeys candidate) = []
      \<and> filter (\<lambda>(i, d). \<exists>t. texts py candidate i = Some t \<and> t \<noteq> canon py d) docs = []"
    then have keys: "set (dkeys docs) = set (dkeys candidate)"
      and equal: "\<And>i d t. (i, d) \<in> set docs \<Longrightarrow> texts py candidate i = Some t \<Longrightarrow> t = canon py d"
      by (auto simp: filter_empty_conv)
    show "\<forall>i. texts py docs i = texts py candidate i"
    proof
      fix i
      show "texts py docs i = texts py candidate i"
      proof (cases "dget docs i")
        case None
        then have "dget candidate i = None" by (simp only: dget_None_iff keys simp_thms)
        then show ?thesis using None by (simp add: texts_def)
      next
        case (Some d)
        then have "i \<in> set (dkeys candidate)" using keys dget_None_iff [of docs i] by auto
        then obtain d' where d': "dget candidate i = Some d'" using dget_None_iff [of candidate i] by fastforce
        have "canon py d' = canon py d"
        proof (rule equal)
          show "(i, d) \<in> set docs" using Some by (simp add: get)
          show "texts py candidate i = Some (canon py d')" using d' by (simp add: texts_def)
        qed
        with Some d' show ?thesis by (simp add: texts_def)
      qed
    qed
  next
    assume same: "\<forall>i. texts py docs i = texts py candidate i"
    have "set (dkeys docs) = set (dkeys candidate)"
    proof (intro set_eqI)
      fix i
      have "dget docs i = None \<longleftrightarrow> dget candidate i = None"
        using same [rule_format, of i] by (auto simp: texts_def)
      then show "i \<in> set (dkeys docs) \<longleftrightarrow> i \<in> set (dkeys candidate)" by (simp add: dget_None_iff)
    qed
    moreover have "t = canon py d" if "(i, d) \<in> set docs" "texts py candidate i = Some t" for i d t
      using that same [rule_format, of i] get(1) [of i d] by (auto simp: texts_def)
    ultimately show "filter (\<lambda>i. i \<notin> set (dkeys candidate)) (dkeys docs) = [] \<and> filter (\<lambda>i. i \<notin> set (dkeys docs)) (dkeys candidate) = []
      \<and> filter (\<lambda>(i, d). \<exists>t. texts py candidate i = Some t \<and> t \<noteq> canon py d) docs = []"
      by (auto simp: filter_empty_conv)
  qed
qed

lemma sort_Nil [simp]: "sort xs = [] \<longleftrightarrow> xs = []"
  by (metis set_empty set_sort)

lemma verify_parity_passed:
  assumes "verify_parity py pr rt w r n = Ok report"
    and "export_policy_union py pr rt w (rollout_collection r) (active_policy r) = Ok source" and "well_kept source"
    and "export_policy_union py pr rt w (rollout_collection r) (candidate_policy r) = Ok candidate" and "well_kept candidate"
  shows "pr_passed report \<longleftrightarrow> (\<forall>i. texts py source i = texts py candidate i)"
proof -
  have finite_docs: "\<forall>(i, d) \<in> set source. finite_json (JObj d)" using assms(3) by (auto simp: well_kept_def kept_document_def)
  have "pr_passed report \<longleftrightarrow> (\<forall>i. texts py source i = texts py candidate i) \<and> logical_digest py source = logical_digest py candidate"
    using assms(1,2,4) differing_empty [OF assms(3,5), of py]
    by (auto simp: verify_parity_def ebind_eq_Ok Let_def different_copies_total [OF finite_docs assms(5)]
        digest_of_texts [OF assms(3)] digest_of_texts [OF assms(5)] split: if_splits)
  with same_texts_digest [OF assms(3,5)] show ?thesis by blast
qed

section \<open>What imports leave behind\<close>

text \<open>
  An import answers with one diagnostic per document, in order, or raises; a document whose
  diagnostic reports success is stored as it was sent. Whatever the answer, an import changes
  no other cluster, no other collection and no document outside the batch.
\<close>

definition import_contract :: "'w provider \<Rightarrow> 'w contents \<Rightarrow> bool" where
  "import_contract pr stored \<longleftrightarrow>
     (\<forall>w c coll batch w' reply. import_documents pr w c coll batch = (w', reply) \<longrightarrow> distinct (map document_id batch) \<longrightarrow>
        (\<forall>c' coll' i. stored w' c' coll' i = stored w c' coll' i \<or>
           c' = c \<and> coll' = coll \<and> (\<exists>d \<in> set batch. document_id d = i \<and> stored w' c coll i = Some d)) \<and>
        (reply = ImportRaised \<or> (\<exists>items. reply = ImportList items \<and> length items = length batch \<and>
           (\<forall>(d, item) \<in> set (zip batch items). item_succeeded item \<longrightarrow> stored w' c coll (document_id d) = Some d))))"

text \<open>\<open>S\<close> is the source of a backfill: only its documents are ever imported.\<close>

definition grown :: "'w contents \<Rightarrow> string \<Rightarrow> (string \<Rightarrow> document option) \<Rightarrow> 'w \<Rightarrow> 'w \<Rightarrow> bool" where
  "grown stored coll S w w' \<longleftrightarrow>
     (\<forall>c i. stored w' c coll i = stored w c coll i \<or> S i \<noteq> None \<and> stored w' c coll i = S i)"

lemma grown_refl [simp]: "grown stored coll S w w"
  by (simp add: grown_def)

lemma grown_trans: "grown stored coll S w w1 \<Longrightarrow> grown stored coll S w1 w2 \<Longrightarrow> grown stored coll S w w2"
  unfolding grown_def by metis

lemma grown_keeps: "grown stored coll S w w' \<Longrightarrow> stored w c coll i = Some d \<Longrightarrow> S i = Some d \<Longrightarrow> stored w' c coll i = Some d"
  unfolding grown_def by metis

lemma accepted_items:
  assumes "validate_import_result py c (ImportList items) = Ok u" shows "\<forall>item \<in> set items. item_succeeded item"
  using assms by (auto simp: validate_import_result_def import_items_def Let_def filter_empty_conv)

lemma import_batches_grown:
  assumes contract: "import_contract pr stored"
    and "import_batches py pr coll w batches = (w', res)"
    and "\<forall>(c, ds) \<in> set batches. distinct (map document_id ds) \<and> (\<forall>d \<in> set ds. S (document_id d) = Some d)"
  shows "grown stored coll S w w' \<and>
    (res = Ok () \<longrightarrow> (\<forall>(c, ds) \<in> set batches. \<forall>d \<in> set ds. stored w' c coll (document_id d) = Some d))"
  using assms(2,3)
proof (induction batches arbitrary: w)
  case (Cons batch batches)
  obtain c ds where batch: "batch = (c, ds)" by (cases batch)
  obtain w1 reply where one: "import_documents pr w c coll ds = (w1, reply)" by (cases "import_documents pr w c coll ds")
  have ds: "distinct (map document_id ds)" "\<forall>d \<in> set ds. S (document_id d) = Some d"
    using Cons.prems(2) by (auto simp: batch)
  have effect: "\<forall>c' i. stored w1 c' coll i = stored w c' coll i \<or>
        c' = c \<and> (\<exists>d \<in> set ds. document_id d = i \<and> stored w1 c coll i = Some d)"
      "reply = ImportRaised \<or> (\<exists>items. reply = ImportList items \<and> length items = length ds \<and>
         (\<forall>(d, item) \<in> set (zip ds items). item_succeeded item \<longrightarrow> stored w1 c coll (document_id d) = Some d))"
    using contract [unfolded import_contract_def, rule_format, OF one ds(1)] by blast+
  have grown: "grown stored coll S w w1"
    unfolding grown_def using effect(1) ds(2) by (metis option.distinct(1))
  show ?case
  proof (cases "validate_import_result py c reply")
    case (Inl e)
    with Cons.prems(1) one grown show ?thesis by (auto simp: batch)
  next
    case (Inr u)
    then obtain items where items: "reply = ImportList items" "length items = length ds"
        "\<forall>(d, item) \<in> set (zip ds items). item_succeeded item \<longrightarrow> stored w1 c coll (document_id d) = Some d"
      using effect(2) by (auto simp: validate_import_result_def import_items_def)
    have "stored w1 c coll (document_id d) = Some d" if "d \<in> set ds" for d
    proof -
      from that items(2) obtain item where "(d, item) \<in> set (zip ds items)"
        by (metis in_set_impl_in_set_zip1)
      with items accepted_items [OF Inr [unfolded items(1)]] show ?thesis by (auto dest: set_zip_rightD)
    qed
    moreover have rest: "import_batches py pr coll w1 batches = (w', res)"
      using Cons.prems(1) one Inr by (simp add: batch)
    note later = Cons.IH [OF rest]
    moreover have "grown stored coll S w1 w'" using later Cons.prems(2) by auto
    ultimately show ?thesis
      using grown_trans [OF grown] grown_keeps [of stored coll S w1 w'] ds(2) Cons.prems(2)
      by (auto simp: batch)
  qed
qed simp

lemma import_batches_accepted:
  assumes "\<And>w c ds. c \<in> fst ` set batches \<Longrightarrow> ds \<in> snd ` set batches \<Longrightarrow>
      \<exists>w' items. import_documents pr w c coll ds = (w', ImportList items) \<and> (\<forall>item \<in> set items. item_succeeded item)"
  shows "\<exists>w'. import_batches py pr coll w batches = (w', Ok ())"
  using assms
proof (induction batches arbitrary: w)
  case (Cons batch batches)
  obtain c ds where batch: "batch = (c, ds)" by (cases batch)
  obtain w1 items where "import_documents pr w c coll ds = (w1, ImportList items)" "\<forall>item \<in> set items. item_succeeded item"
    using Cons.prems [of c ds w] by (auto simp: batch)
  moreover have "\<exists>w'. import_batches py pr coll w1 batches = (w', Ok ())" by (rule Cons.IH) (rule Cons.prems, auto)
  ultimately show ?case
    by (simp add: batch validate_import_result_def import_items_def filter_False require_def)
qed simp

section \<open>The plan of a step\<close>

text \<open>Every planned batch goes to a target of its documents, and every target gets the document.\<close>

definition planned :: "python \<Rightarrow> FederationRuntime \<Rightarrow> RoutingRollout \<Rightarrow> document list \<Rightarrow> (string, document list) pydict \<Rightarrow> bool" where
  "planned py rt r ds batches \<longleftrightarrow> distinct (dkeys batches) \<and>
     (\<forall>c. (case dget batches c of Some xs \<Rightarrow> xs | None \<Rightarrow> []) =
        filter (\<lambda>d. case candidate_targets py rt r d of Ok ts \<Rightarrow> c \<in> set ts | _ \<Rightarrow> False) ds)"

lemma add_targets:
  "distinct ts \<Longrightarrow> (case dget (foldl (add_to_batch d) b ts) c of Some xs \<Rightarrow> xs | None \<Rightarrow> []) =
     (case dget b c of Some xs \<Rightarrow> xs | None \<Rightarrow> []) @ (if c \<in> set ts then [d] else [])"
  by (induction ts arbitrary: b) (auto simp: add_to_batch_def dget_dput)

lemma add_targets_distinct: "distinct (dkeys b) \<Longrightarrow> distinct (dkeys (foldl (add_to_batch d) b ts))"
  by (induction ts arbitrary: b) (auto simp: add_to_batch_def distinct_update)

lemma candidate_targets_distinct: "candidate_targets py rt r d = Ok ts \<Longrightarrow> distinct ts"
  by (auto simp: candidate_targets_def ebind_eq_Ok distinct_fromkeys split: if_splits)

lemma plan_batches_planned:
  assumes "plan_batches py rt r b ds = Ok batches" and "planned py rt r seen b"
  shows "planned py rt r (seen @ ds) batches \<and> (\<forall>d \<in> set ds. \<exists>ts. candidate_targets py rt r d = Ok ts)"
  using assms
proof (induction ds arbitrary: b seen)
  case (Cons d ds)
  from Cons.prems(1) obtain ts where ts: "candidate_targets py rt r d = Ok ts"
    and rest: "plan_batches py rt r (foldl (add_to_batch d) b ts) ds = Ok batches"
    by (auto simp: ebind_eq_Ok)
  have "planned py rt r (seen @ [d]) (foldl (add_to_batch d) b ts)"
    using Cons.prems(2) candidate_targets_distinct [OF ts]
    by (simp add: planned_def add_targets add_targets_distinct ts)
  from Cons.IH [OF rest this] ts show ?case by auto
qed simp

lemma planned_batch:
  assumes "planned py rt r ds batches" and "(c, xs) \<in> set batches"
  shows "xs = filter (\<lambda>d. case candidate_targets py rt r d of Ok ts \<Rightarrow> c \<in> set ts | _ \<Rightarrow> False) ds"
proof -
  have "dget batches c = Some xs" using assms by (simp add: planned_def)
  with assms(1) show ?thesis unfolding planned_def by (metis option.simps(5))
qed

lemma planned_documents: "planned py rt r ds batches \<Longrightarrow> (c, xs) \<in> set batches \<Longrightarrow> set xs \<subseteq> set ds"
  by (drule (1) planned_batch) auto

lemma planned_batches:
  assumes "planned py rt r ds batches" and "distinct (map document_id ds)"
  shows "\<forall>(c, xs) \<in> set batches. distinct (map document_id xs) \<and> set xs \<subseteq> set ds"
    and "d \<in> set ds \<Longrightarrow> candidate_targets py rt r d = Ok ts \<Longrightarrow> c \<in> set ts \<Longrightarrow> \<exists>xs. (c, xs) \<in> set batches \<and> d \<in> set xs"
proof -
  show "\<forall>(c, xs) \<in> set batches. distinct (map document_id xs) \<and> set xs \<subseteq> set ds"
    using planned_documents [OF assms(1)] assms(2)
    by (fastforce simp: distinct_map_filter dest: planned_batch [OF assms(1)])
  assume d: "d \<in> set ds" "candidate_targets py rt r d = Ok ts" "c \<in> set ts"
  then have "d \<in> set (filter (\<lambda>d. case candidate_targets py rt r d of Ok ts \<Rightarrow> c \<in> set ts | _ \<Rightarrow> False) ds)" by simp
  then have "d \<in> set (case dget batches c of Some xs \<Rightarrow> xs | None \<Rightarrow> [])"
    using assms(1) unfolding planned_def by metis
  then show "\<exists>xs. (c, xs) \<in> set batches \<and> d \<in> set xs"
    by (cases "dget batches c") (auto dest: map_of_SomeD)
qed

section \<open>The source of a step\<close>

definition source_of :: "'w contents \<Rightarrow> 'w \<Rightarrow> string \<Rightarrow> string list \<Rightarrow> string \<Rightarrow> document option" where
  "source_of stored w coll cs i = latest_copy stored w coll i cs None"

lemma latest_copy_snoc:
  "latest_copy stored w coll i (cs @ [c]) start =
     (case stored w c coll i of None \<Rightarrow> latest_copy stored w coll i cs start | Some d \<Rightarrow> Some d)"
  by (simp add: latest_copy_def split: option.split)

lemma grown_source:
  assumes "grown stored coll (source_of stored w coll cs) w w'"
  shows "source_of stored w' coll cs = source_of stored w coll cs"
proof
  fix i
  let ?S = "source_of stored w coll cs"
  have "latest_copy stored w' coll i bs None = latest_copy stored w coll i bs None \<or> latest_copy stored w' coll i bs None = ?S i" for bs
  proof (induction bs rule: rev_induct)
    case Nil
    show ?case by (simp add: latest_copy_def)
  next
    case (snoc c bs)
    have "stored w' c coll i = stored w c coll i \<or> ?S i \<noteq> None \<and> stored w' c coll i = ?S i"
      using assms by (simp add: grown_def)
    with snoc show ?case by (auto simp: latest_copy_snoc split: option.splits)
  qed
  then show "source_of stored w' coll cs i = ?S i" by (auto simp: source_of_def)
qed

lemma source_held:
  "source_of stored w coll cs i = Some d \<Longrightarrow> \<exists>c \<in> set cs. stored w c coll i = Some d"
  unfolding source_of_def
  by (induction cs rule: rev_induct) (auto simp: latest_copy_snoc latest_copy_def split: option.splits)

lemma held_source:
  "c \<in> set cs \<Longrightarrow> stored w c coll i = Some d \<Longrightarrow> \<exists>d'. source_of stored w coll cs i = Some d'"
  unfolding source_of_def
  by (induction cs rule: rev_induct) (auto simp: latest_copy_snoc split: option.splits)

text \<open>A step takes the next documents in the order of their ids.\<close>

abbreviation ascending :: "(string \<times> document) list \<Rightarrow> bool" where
  "ascending \<equiv> sorted_wrt (\<lambda>x y. fst x < fst y)"

lemma ascending_pending: "well_kept docs \<Longrightarrow> ascending (pending_documents l docs)"
proof -
  assume "well_kept docs"
  then have "sorted (map fst (sort_key fst docs))" "distinct (map fst (sort_key fst docs))"
    by (simp_all add: well_kept_def distinct_map)
  then have "ascending (sort_key fst docs)"
    by (simp add: strict_sorted_iff flip: sorted_wrt_map)
  then show ?thesis by (simp add: pending_documents_def sorted_wrt_filter)
qed

lemma set_pending:
  "well_kept docs \<Longrightarrow> set (pending_documents l docs) = {(i, d). dget docs i = Some d \<and> l < i}"
  by (auto simp: pending_documents_def well_kept_def)

lemma ascending_split:
  assumes "ascending xs" and "take n xs \<noteq> []" and "x \<in> set xs"
  shows "x \<in> set (take n xs) \<longleftrightarrow> fst x \<le> fst (last (take n xs))"
proof -
  have before: "fst y < fst z" if "y \<in> set (take n xs)" "z \<in> set (drop n xs)" for y z
    using assms(1) that sorted_wrt_append [of "\<lambda>x y. fst x < fst y" "take n xs" "drop n xs"] by simp
  have up: "fst y \<le> fst (last (take n xs))" if "y \<in> set (take n xs)" for y
  proof -
    have "ascending (butlast (take n xs) @ [last (take n xs)])"
      using assms(1,2) by (simp add: sorted_wrt_take)
    moreover have "y \<in> set (butlast (take n xs)) \<or> y = last (take n xs)"
      using that assms(2) by (metis Un_iff append_butlast_last_id empty_iff insertE list.set(1,2) set_append)
    ultimately show ?thesis by (auto simp: sorted_wrt_append)
  qed
  show ?thesis
    using up [of x] before [of "last (take n xs)" x] assms(2,3)
    by (metis Un_iff append_take_drop_id last_in_set leD set_append)
qed

lemma pending_after:
  assumes "well_kept docs" and "take n (pending_documents l docs) \<noteq> []"
  shows "pending_documents (fst (last (take n (pending_documents l docs)))) docs = drop n (pending_documents l docs)"
proof -
  let ?p = "pending_documents l docs" let ?k = "fst (last (take n ?p))"
  have "last (take n ?p) \<in> set ?p" using assms(2) by (meson in_set_takeD last_in_set)
  then have "l < ?k" by (auto simp: set_pending [OF assms(1)])
  then have "pending_documents ?k docs = filter (\<lambda>x. ?k < fst x) ?p"
    by (auto simp: pending_documents_def intro!: filter_cong)
  also have "\<dots> = filter (\<lambda>x. ?k < fst x) (take n ?p) @ filter (\<lambda>x. ?k < fst x) (drop n ?p)"
    by (metis append_take_drop_id filter_append)
  also have "filter (\<lambda>x. ?k < fst x) (take n ?p) = []"
  proof -
    have "fst x \<le> ?k" if "x \<in> set (take n ?p)" for x
      using ascending_split [OF ascending_pending [OF assms(1)] assms(2)] that by (meson in_set_takeD)
    then show ?thesis by (auto simp: filter_empty_conv not_less)
  qed
  also have "filter (\<lambda>x. ?k < fst x) (drop n ?p) = drop n ?p"
  proof (rule filter_True, intro ballI)
    fix x assume x: "x \<in> set (drop n ?p)"
    have "ascending (take n ?p @ drop n ?p)" by (simp add: ascending_pending [OF assms(1)])
    with x assms(2) show "?k < fst x" unfolding sorted_wrt_append by (meson last_in_set)
  qed
  finally show ?thesis by simp
qed

section \<open>Steps\<close>

lemma last_document_id_next:
  "last_document_id py (next_checkpoint cp l processed seen digest finished) = l"
  by (simp add: last_document_id_def next_checkpoint_def jget_dput)

lemma run_step_OkD:
  assumes "run_step py pr rt w r cp n = (w', Ok result)"
    and "export_policy_union py pr rt w (rollout_collection r) (active_policy r) = Ok source"
  shows "\<exists>batches. plan_batches py rt r [] (map snd (take n (pending_documents (last_document_id py cp) source))) = Ok batches \<and>
      import_batches py pr (rollout_collection r) w batches = (w', Ok ())"
    and "bs_complete result \<longleftrightarrow> length (pending_documents (last_document_id py cp) source) \<le> n"
    and "last_document_id py (bs_checkpoint result) =
      (let sel = take n (pending_documents (last_document_id py cp) source) in
       if sel = [] then last_document_id py cp else fst (last sel))"
  using assms
  by (auto simp: run_step_def Let_def ebind_eq_Ok last_document_id_next min_def
      split: if_splits sum.splits prod.splits)

lemma run_step_RaiseD:
  assumes "run_step py pr rt w r cp n = (w', Raise e)"
    and "export_policy_union py pr rt w (rollout_collection r) (active_policy r) = Ok source"
  shows "w' = w \<or> (\<exists>batches res. plan_batches py rt r [] (map snd (take n (pending_documents (last_document_id py cp) source))) = Ok batches \<and>
      import_batches py pr (rollout_collection r) w batches = (w', res))"
  using assms
  by (auto simp: run_step_def Let_def split: if_splits sum.splits prod.splits)

lemma run_step_no_export:
  assumes "run_step py pr rt w r cp n = (w', res)"
    and "export_policy_union py pr rt w (rollout_collection r) (active_policy r) = Raise e"
  shows "w' = w \<and> (\<exists>e. res = Raise e)"
  using assms by (auto simp: run_step_def split: if_splits)

definition on_targets :: "python \<Rightarrow> FederationRuntime \<Rightarrow> RoutingRollout \<Rightarrow> 'w contents \<Rightarrow> 'w \<Rightarrow> string \<Rightarrow> document \<Rightarrow> bool" where
  "on_targets py rt r stored w i d \<longleftrightarrow>
     (\<exists>ts. candidate_targets py rt r d = Ok ts \<and> (\<forall>c \<in> set ts. stored w c (rollout_collection r) i = Some d))"

lemma on_targets_grown:
  "grown stored (rollout_collection r) S w w' \<Longrightarrow> S i = Some d \<Longrightarrow> on_targets py rt r stored w i d \<Longrightarrow>
    on_targets py rt r stored w' i d"
  unfolding on_targets_def using grown_keeps by metis

text \<open>What a successful step took from the source, and the checkpoint it left.\<close>

definition step_took :: "python \<Rightarrow> FederationRuntime \<Rightarrow> RoutingRollout \<Rightarrow> 'w contents \<Rightarrow> (string \<Rightarrow> document option)
    \<Rightarrow> 'w \<Rightarrow> document \<Rightarrow> nat \<Rightarrow> BackfillStepResult \<Rightarrow> (string, document) pydict \<Rightarrow> bool" where
  "step_took py rt r stored S w' cp n result source \<longleftrightarrow>
     well_kept source \<and> (\<forall>i. dget source i = S i) \<and>
     (let pending = pending_documents (last_document_id py cp) source; sel = take n pending in
       (\<forall>i d. (i, d) \<in> set sel \<longrightarrow> on_targets py rt r stored w' i d) \<and>
       bs_complete result = (length pending \<le> n) \<and>
       last_document_id py (bs_checkpoint result) = (if sel = [] then last_document_id py cp else fst (last sel)))"

text \<open>One step, successful or not, only adds copies of the source; a successful one adds all it took.\<close>

lemma run_step_effect:
  assumes contracts: "export_contract py pr stored" "import_contract pr stored"
    and active: "policy_clusters py rt (active_policy r) = Ok active"
    and run: "run_step py pr rt w r cp n = (w', res)"
  shows "grown stored (rollout_collection r) (source_of stored w (rollout_collection r) active) w w' \<and>
    (\<forall>result. res = Ok result \<longrightarrow> (\<exists>source. step_took py rt r stored
       (source_of stored w (rollout_collection r) active) w' cp n result source))"
proof (cases "export_policy_union py pr rt w (rollout_collection r) (active_policy r)")
  case (Inl e)
  from run_step_no_export [OF run this] show ?thesis by auto
next
  case (Inr source)
  let ?coll = "rollout_collection r" let ?S = "source_of stored w ?coll active"
  let ?sel = "take n (pending_documents (last_document_id py cp) source)"
  from union_view [OF contracts(1) Inr active]
  have kept: "well_kept source" and view: "\<And>i. dget source i = ?S i" by (simp_all add: source_of_def)
  have sel: "document_id d = i \<and> ?S i = Some d" if "(i, d) \<in> set ?sel" for i d
  proof -
    have "dget source i = Some d" using in_set_takeD [OF that] by (simp add: set_pending [OF kept])
    with well_kept_get [OF kept this] show ?thesis by (simp add: view kept_document_def)
  qed
  then have ids: "map document_id (map snd ?sel) = map fst ?sel" by (auto simp: comp_def)
  have "ascending ?sel" by (intro sorted_wrt_take ascending_pending kept)
  then have "distinct (map fst ?sel)" by (simp add: sorted_wrt_map strict_sorted_iff flip: sorted_wrt_map)
  then have distinct_ids: "distinct (map document_id (map snd ?sel))" by (simp only: ids)
  have copied: "grown stored ?coll ?S w w1 \<and> (res' = Ok () \<longrightarrow> (\<forall>i d. (i, d) \<in> set ?sel \<longrightarrow> on_targets py rt r stored w1 i d))"
    if plan: "plan_batches py rt r [] (map snd ?sel) = Ok batches" and imp: "import_batches py pr ?coll w batches = (w1, res')"
    for batches w1 res'
  proof -
    have "planned py rt r [] []" by (simp add: planned_def)
    from plan_batches_planned [OF plan this]
    have planned: "planned py rt r (map snd ?sel) batches"
      and targets: "\<forall>d \<in> snd ` set ?sel. \<exists>ts. candidate_targets py rt r d = Ok ts" by simp_all
    note batches = planned_batches [OF planned distinct_ids]
    have "\<forall>(c, xs) \<in> set batches. distinct (map document_id xs) \<and> (\<forall>d \<in> set xs. ?S (document_id d) = Some d)"
      using batches(1) sel by fastforce
    note effect = import_batches_grown [OF contracts(2) imp this]
    show ?thesis
    proof (intro conjI impI allI)
      show "grown stored ?coll ?S w w1" using effect by blast
    next
      fix i d assume ok: "res' = Ok ()" and item: "(i, d) \<in> set ?sel"
      then obtain ts where ts: "candidate_targets py rt r d = Ok ts" using targets by force
      have "stored w1 c ?coll i = Some d" if "c \<in> set ts" for c
      proof -
        have "d \<in> set (map snd ?sel)" using item by force
        from batches(2) [OF this ts that] obtain xs where "(c, xs) \<in> set batches" "d \<in> set xs" by blast
        moreover have "document_id d = i" using sel [OF item] by simp
        ultimately show ?thesis using effect ok by fastforce
      qed
      with ts show "on_targets py rt r stored w1 i d" by (auto simp: on_targets_def)
    qed
  qed
  show ?thesis
  proof (cases res)
    case (Inl e)
    with run_step_RaiseD [OF run [unfolded Inl] Inr] copied show ?thesis by auto
  next
    case ok: (Inr result)
    from run_step_OkD(1) [OF run [unfolded ok] Inr] obtain batches where
      "plan_batches py rt r [] (map snd ?sel) = Ok batches" "import_batches py pr ?coll w batches = (w', Ok ())" by blast
    from copied [OF this] kept view run_step_OkD(2,3) [OF run [unfolded ok] Inr]
    have "step_took py rt r stored ?S w' cp n result source" by (simp add: step_took_def Let_def)
    with copied [OF \<open>plan_batches py rt r [] (map snd ?sel) = Ok batches\<close> \<open>import_batches py pr ?coll w batches = (w', Ok ())\<close>]
    show ?thesis using ok by blast
  qed
qed

section \<open>Attempts\<close>

text \<open>
  A backfill as the operator sees it: steps of any size, some of which fail part-way and leave
  the persisted checkpoint as it was, and the entries that the caller adds to the checkpoint.
\<close>

inductive attempts :: "python \<Rightarrow> 'w provider \<Rightarrow> FederationRuntime \<Rightarrow> RoutingRollout \<Rightarrow> 'w \<Rightarrow> 'w \<Rightarrow> document \<Rightarrow> bool"
  for py pr rt r w0 where
  Fresh: "attempts py pr rt r w0 w0 []"
| Stepped: "attempts py pr rt r w0 w cp \<Longrightarrow> run_step py pr rt w r cp n = (w', Ok res) \<Longrightarrow>
    attempts py pr rt r w0 w' (bs_checkpoint res)"
| Failed: "attempts py pr rt r w0 w cp \<Longrightarrow> run_step py pr rt w r cp n = (w', Raise e) \<Longrightarrow>
    attempts py pr rt r w0 w' cp"
| Annotated: "attempts py pr rt r w0 w cp \<Longrightarrow> last_document_id py cp' = last_document_id py cp \<Longrightarrow>
    attempts py pr rt r w0 w cp'"

text \<open>After a successful step every document up to the new checkpoint is on its targets.\<close>

lemma step_covers:
  assumes contracts: "export_contract py pr stored" "import_contract pr stored"
    and active: "policy_clusters py rt (active_policy r) = Ok active"
    and run: "run_step py pr rt w r cp n = (w', Ok result)"
    and S: "source_of stored w (rollout_collection r) active = S"
    and before: "\<And>i d. S i = Some d \<Longrightarrow> i \<noteq> [] \<Longrightarrow> i \<le> last_document_id py cp \<Longrightarrow> on_targets py rt r stored w i d"
    and doc: "S i = Some d"
  shows "i \<le> last_document_id py (bs_checkpoint result) \<or> bs_complete result \<Longrightarrow> on_targets py rt r stored w' i d"
proof -
  assume reached: "i \<le> last_document_id py (bs_checkpoint result) \<or> bs_complete result"
  let ?l = "last_document_id py cp"
  from run_step_effect [OF contracts active run] obtain source where
    grown: "grown stored (rollout_collection r) S w w'" and took: "step_took py rt r stored S w' cp n result source"
    unfolding S by blast
  let ?p = "pending_documents ?l source"
  from took have kept: "well_kept source" and view: "\<And>i. dget source i = S i"
    and sel: "\<And>i d. (i, d) \<in> set (take n ?p) \<Longrightarrow> on_targets py rt r stored w' i d"
    and complete: "bs_complete result \<longleftrightarrow> length ?p \<le> n"
    and next_id: "last_document_id py (bs_checkpoint result) = (if take n ?p = [] then ?l else fst (last (take n ?p)))"
    unfolding step_took_def Let_def by blast+
  have "i \<noteq> []" using well_kept_get [OF kept] doc by (simp add: view kept_document_def)
  show ?thesis
  proof (cases "i \<le> ?l")
    case True
    with before [OF doc \<open>i \<noteq> []\<close>] on_targets_grown [OF grown doc] show ?thesis by blast
  next
    case False
    then have pending: "(i, d) \<in> set (pending_documents ?l source)"
      using doc by (simp add: set_pending [OF kept] view)
    moreover have "take n (pending_documents ?l source) \<noteq> [] \<and> i \<le> fst (last (take n (pending_documents ?l source)))"
      if "\<not> bs_complete result" using reached that False next_id by (simp split: if_splits)
    ultimately have "(i, d) \<in> set (take n (pending_documents ?l source))"
      using complete ascending_split [OF ascending_pending [OF kept], of n ?l "(i, d)"]
      by (cases "bs_complete result") simp_all
    then show ?thesis by (rule sel)
  qed
qed

lemma attempts_inv:
  assumes contracts: "export_contract py pr stored" "import_contract pr stored"
    and active: "policy_clusters py rt (active_policy r) = Ok active"
    and "attempts py pr rt r w0 w cp" and S: "source_of stored w0 (rollout_collection r) active = S"
  shows "grown stored (rollout_collection r) S w0 w \<and>
    (\<forall>i d. S i = Some d \<longrightarrow> i \<noteq> [] \<longrightarrow> i \<le> last_document_id py cp \<longrightarrow> on_targets py rt r stored w i d)"
  using assms(4)
proof induction
  case Fresh
  have "i = []" if "i \<le> last_document_id py []" for i
    using that by (simp add: last_document_id_def jget_def)
  then show ?case by auto
next
  case (Stepped w cp n w' res)
  then have source: "source_of stored w (rollout_collection r) active = S"
    using grown_source [of stored "rollout_collection r" w0 active w] S by simp
  have grown: "grown stored (rollout_collection r) S w w'"
    using run_step_effect [OF contracts active Stepped.hyps(2)] by (simp add: source)
  show ?case
  proof (intro conjI allI impI)
    show "grown stored (rollout_collection r) S w0 w'"
      by (rule grown_trans [OF conjunct1 [OF Stepped.IH] grown])
    show "on_targets py rt r stored w' i d" if "S i = Some d" "i \<le> last_document_id py (bs_checkpoint res)" for i d
      by (rule step_covers [OF contracts active Stepped.hyps(2) source])
        (simp_all add: that conjunct2 [OF Stepped.IH, rule_format])
  qed
next
  case (Failed w cp n w' e)
  then have source: "source_of stored w (rollout_collection r) active = S"
    using grown_source [of stored "rollout_collection r" w0 active w] S by simp
  have grown: "grown stored (rollout_collection r) S w w'"
    using run_step_effect [OF contracts active Failed.hyps(2)] by (simp add: source)
  show ?case
  proof (intro conjI allI impI)
    show "grown stored (rollout_collection r) S w0 w'"
      by (rule grown_trans [OF conjunct1 [OF Failed.IH] grown])
    show "on_targets py rt r stored w' i d" if "S i = Some d" "i \<noteq> []" "i \<le> last_document_id py cp" for i d
      by (rule on_targets_grown [OF grown that(1) conjunct2 [OF Failed.IH, rule_format, OF that]])
  qed
qed auto

section \<open>A backfill that runs to its end\<close>

text \<open>Steps of \<open>n\<close> documents until one reports completion, at most \<open>fuel\<close> of them.\<close>

fun backfill :: "python \<Rightarrow> 'w provider \<Rightarrow> FederationRuntime \<Rightarrow> RoutingRollout \<Rightarrow> nat \<Rightarrow> nat \<Rightarrow> 'w \<Rightarrow> document
    \<Rightarrow> 'w \<times> document option" where
  "backfill py pr rt r n 0 w cp = (w, None)"
| "backfill py pr rt r n (Suc fuel) w cp =
     (case run_step py pr rt w r cp n of
        (w', Raise e) \<Rightarrow> (w', None)
      | (w', Ok res) \<Rightarrow> if bs_complete res then (w', Some (bs_checkpoint res))
          else backfill py pr rt r n fuel w' (bs_checkpoint res))"

text \<open>Every cluster holds only copies of source documents.\<close>

definition copies_of :: "python \<Rightarrow> 'w contents \<Rightarrow> string \<Rightarrow> (string \<Rightarrow> document option) \<Rightarrow> string list \<Rightarrow> 'w \<Rightarrow> bool" where
  "copies_of py stored coll S cs w \<longleftrightarrow>
     (\<forall>c \<in> set cs. \<forall>i d. stored w c coll i = Some d \<longrightarrow> map_option (canon py) (S i) = Some (canon py d))"

lemma copies_ofD:
  "copies_of py stored coll S cs w \<Longrightarrow> c \<in> set cs \<Longrightarrow> stored w c coll i = Some d \<Longrightarrow>
    map_option (canon py) (S i) = Some (canon py d)"
  by (simp add: copies_of_def)

lemma copies_grown:
  assumes "copies_of py stored coll S cs w" and "grown stored coll S w w'" shows "copies_of py stored coll S cs w'"
  unfolding copies_of_def
proof (intro ballI allI impI)
  fix c i d assume "c \<in> set cs" "stored w' c coll i = Some d"
  moreover have "stored w' c coll i = stored w c coll i \<or> stored w' c coll i = S i"
    using assms(2) unfolding grown_def by blast
  ultimately have "stored w c coll i = Some d \<or> S i = Some d" by auto
  then show "map_option (canon py) (S i) = Some (canon py d)"
    using assms(1) \<open>c \<in> set cs\<close> unfolding copies_of_def by (elim disjE) (blast, simp)
qed

lemma copies_agree: "copies_of py stored coll S cs w \<Longrightarrow> agreeing py stored w coll cs"
  unfolding copies_of_def agreeing_def by (metis option.inject)

lemma named_clusters:
  "mapE (named_cluster rt) names = Ok cs \<Longrightarrow> set cs = {c. \<exists>n \<in> set names. named_cluster rt n = Ok c} \<and> set cs \<subseteq> set (clients rt)"
proof (induction names arbitrary: cs)
  case (Cons n names)
  then obtain c cs' where "named_cluster rt n = Ok c" "mapE (named_cluster rt) names = Ok cs'" "cs = c # cs'"
    by (auto simp: ebind_eq_Ok)
  moreover from this(1) have "c \<in> set (clients rt)" by (auto simp: named_cluster_def split: option.splits dest: resolve_in)
  ultimately show ?case using Cons.IH [of cs'] by auto
qed simp

lemma policy_clusters_registered:
  assumes "policy_clusters py rt p = Ok cs" shows "set cs \<subseteq> set (clients rt)"
  using assms named_clusters by (fastforce simp: policy_clusters_def ebind_eq_Ok set_fromkeys)

lemma union_total:
  assumes "export_contract py pr stored" and "policy_clusters py rt p = Ok cs" and "copies_of py stored coll S cs w"
    and "\<forall>c \<in> set cs. \<exists>raw. export_text c (export_documents pr w c coll) = Ok raw"
  shows "\<exists>docs. export_policy_union py pr rt w coll p = Ok docs"
  using export_clusters_total [OF assms(1,4) policy_clusters_registered [OF assms(2)] copies_agree [OF assms(3)], of "[]" "[]"]
    assms(2) by (simp add: export_policy_union_def well_kept_def texts_def)

lemma union_copies:
  assumes "export_contract py pr stored" and "policy_clusters py rt p = Ok cs"
    and "export_policy_union py pr rt w coll p = Ok docs"
  shows "copies_of py stored coll (source_of stored w coll cs) cs w"
  unfolding copies_of_def
proof (intro ballI allI impI)
  fix c i d assume "c \<in> set cs" "stored w c coll i = Some d"
  then have "texts py docs i = Some (canon py d)"
    unfolding union_view(3) [OF assms(1,3,2)] by force
  then show "map_option (canon py) (source_of stored w coll cs i) = Some (canon py d)"
    by (simp add: texts_def union_view(2) [OF assms(1,3,2)] source_of_def)
qed

section \<open>Totality of a step\<close>

text \<open>
  A candidate policy as the rollout schema validates it: its default cluster is a name, and
  every rule names a target.
\<close>

definition policy_complete :: "python \<Rightarrow> document \<Rightarrow> bool" where
  "policy_complete py p \<longleftrightarrow> p \<noteq> [] \<and>
     (case dget p ''default_cluster'' of None \<Rightarrow> True | Some (JStr s) \<Rightarrow> s \<noteq> [] | Some _ \<Rightarrow> False) \<and>
     (\<forall>rule \<in> set (policy_rules p). rule_targets (text_of py) rule \<noteq> [])"

lemma policy_names_default: "policy_complete py p \<Longrightarrow> policy_default p \<in> set (policy_names py p)"
  by (auto simp: policy_complete_def policy_names_def policy_default_def text_or_def jget_def Let_def
      split: option.splits json.splits)

lemma preview_names:
  assumes "policy_complete py p"
  shows "set (target_clusters (preview_routing (text_of py) fl rt coll d (Some p))) \<subseteq> set (policy_names py p) \<and>
    target_clusters (preview_routing (text_of py) fl rt coll d (Some p)) \<noteq> []"
proof (cases "find (\<lambda>(_, rule). rule_matches (text_of py) fl rule d) (ordered_rules_with_index (policy_rules p))")
  case None
  then show ?thesis using assms policy_names_default [OF assms]
    by (simp add: preview_routing_def policy_complete_def)
next
  case (Some item)
  obtain i rule where item: "item = (i, rule)" by (cases item)
  have "rule \<in> set (policy_rules p)" using ordered_rule_in(4) Some unfolding item by blast
  then show ?thesis using Some assms
    by (auto simp: item preview_routing_def policy_complete_def policy_names_def)
qed

lemma mapE_named_subset:
  "mapE (named_cluster rt) names = Ok cs \<Longrightarrow> set xs \<subseteq> set names \<Longrightarrow> \<exists>ys. mapE (named_cluster rt) xs = Ok ys"
proof (induction xs)
  case (Cons x xs)
  have "\<exists>c. named_cluster rt x = Ok c"
  proof -
    have "x \<in> set names" using Cons.prems(2) by simp
    then show ?thesis using Cons.prems(1) by (auto simp: mapE_eq_Ok_iff list_all2_conv_all_nth in_set_conv_nth)
  qed
  with Cons show ?case by auto
qed simp

lemma candidate_targets_total:
  assumes "policy_clusters py rt (candidate_policy r) = Ok cs" and "policy_complete py (candidate_policy r)"
  shows "\<exists>ts. candidate_targets py rt r d = Ok ts \<and> ts \<noteq> [] \<and> set ts \<subseteq> set cs"
proof -
  let ?names = "target_clusters (preview_routing (text_of py) (float_of py) rt (rollout_collection r) d (Some (candidate_policy r)))"
  note names = preview_names [OF assms(2), of "float_of py" rt "rollout_collection r" d]
  from assms(1) obtain xs where xs: "mapE (named_cluster rt) (policy_names py (candidate_policy r)) = Ok xs" "cs = fromkeys xs"
    by (auto simp: policy_clusters_def ebind_eq_Ok)
  from mapE_named_subset [OF xs(1)] names obtain ys where ys: "mapE (named_cluster rt) ?names = Ok ys" by blast
  then have "length ys = length ?names" by (auto simp: mapE_eq_Ok_iff list_all2_lengthD)
  then have "ys \<noteq> []" using names by auto
  moreover have "set ys \<subseteq> set cs"
    using named_clusters [OF ys] named_clusters [OF xs(1)] names by (auto simp: xs(2) set_fromkeys)
  ultimately show ?thesis by (simp add: candidate_targets_def ys set_fromkeys fromkeys_eq_Nil)
qed

lemma plan_batches_total:
  assumes "\<And>d. \<exists>ts. candidate_targets py rt r d = Ok ts" shows "\<exists>batches. plan_batches py rt r b ds = Ok batches"
proof (induction ds arbitrary: b)
  case (Cons d ds)
  obtain ts where "candidate_targets py rt r d = Ok ts" using assms by blast
  then show ?case using Cons.IH by simp
qed simp

lemma processed_next:
  "\<exists>k. processed_documents py (next_checkpoint cp l n seen digest finished) = Ok k"
  by (simp add: processed_documents_def next_checkpoint_def jget_dput Let_def)

text \<open>An import of source documents that nothing interrupts.\<close>

definition accepting :: "'w provider \<Rightarrow> (string \<Rightarrow> document option) \<Rightarrow> bool" where
  "accepting pr S \<longleftrightarrow> (\<forall>w c coll batch. (\<forall>d \<in> set batch. \<exists>i. S i = Some d) \<longrightarrow> (\<exists>w' items.
     import_documents pr w c coll batch = (w', ImportList items) \<and> (\<forall>item \<in> set items. item_succeeded item)))"

lemma run_step_total:
  assumes "phase r = BACKFILL" "1 \<le> n" "n \<le> 10000" and "accepting pr (dget source)"
    and "export_policy_union py pr rt w (rollout_collection r) (active_policy r) = Ok source" "well_kept source"
    and "\<And>d. \<exists>ts. candidate_targets py rt r d = Ok ts" and "\<exists>k. processed_documents py cp = Ok k"
  shows "\<exists>w' result. run_step py pr rt w r cp n = (w', Ok result) \<and> (\<exists>k. processed_documents py (bs_checkpoint result) = Ok k)"
proof -
  let ?sel = "take n (pending_documents (last_document_id py cp) source)"
  obtain batches where batches: "plan_batches py rt r [] (map snd ?sel) = Ok batches"
    using plan_batches_total [OF assms(7)] by blast
  have "planned py rt r [] []" by (simp add: planned_def)
  from plan_batches_planned [OF batches this] have planned: "planned py rt r (map snd ?sel) batches" by simp
  have sourced: "\<forall>d \<in> set ds. \<exists>i. dget source i = Some d" if "ds \<in> snd ` set batches" for ds
  proof
    fix d assume "d \<in> set ds"
    then have "d \<in> set (map snd ?sel)" using planned_documents [OF planned, of _ ds] that by fastforce
    then obtain i where "(i, d) \<in> set (pending_documents (last_document_id py cp) source)" by (auto dest: in_set_takeD)
    then show "\<exists>i. dget source i = Some d" by (auto simp: set_pending [OF assms(6)])
  qed
  have "\<exists>w'. import_batches py pr (rollout_collection r) w batches = (w', Ok ())"
    by (rule import_batches_accepted) (use assms(4) sourced in \<open>simp add: accepting_def\<close>)
  then obtain w' where "import_batches py pr (rollout_collection r) w batches = (w', Ok ())" by blast
  with assms batches digest_of_texts [OF assms(6), of py] show ?thesis
    by (auto simp: run_step_def Let_def processed_next)
qed

section \<open>The whole backfill\<close>

lemma same_pending:
  assumes "well_kept docs" "well_kept docs'" and "\<And>i. dget docs i = dget docs' i"
  shows "pending_documents l docs = pending_documents l docs'"
proof -
  have member: "x \<in> set ds \<longleftrightarrow> dget ds (fst x) = Some (snd x)" if "well_kept ds" for x ds
    using that by (cases x) (simp add: well_kept_def)
  have "set docs = set docs'" using member [OF assms(1)] member [OF assms(2)] assms(3) by auto
  moreover have "distinct docs" "distinct docs'" "inj_on fst (set docs)"
    using assms(1,2) by (simp_all add: well_kept_def distinct_map)
  ultimately have "sort_key fst docs = sort_key fst docs'" by (intro sort_key_unique) simp_all
  then show ?thesis by (simp add: pending_documents_def)
qed

lemma length_pending: "length (pending_documents l docs) \<le> length docs"
  by (simp add: pending_documents_def) (metis length_filter_le length_sort)

lemma backfill_total:
  assumes contracts: "export_contract py pr stored" "import_contract pr stored" "accepting pr S"
    and active: "policy_clusters py rt (active_policy r) = Ok active"
    and answers: "\<forall>w. \<forall>c \<in> set active. \<exists>raw. export_text c (export_documents pr w c (rollout_collection r)) = Ok raw"
    and targets: "\<And>d. \<exists>ts. candidate_targets py rt r d = Ok ts"
    and bounds: "phase r = BACKFILL" "1 \<le> n" "n \<le> 10000"
    and S: "source_of stored w0 (rollout_collection r) active = S"
    and copies: "copies_of py stored (rollout_collection r) S active w0"
    and source: "well_kept source" "\<And>i. dget source i = S i"
    and "attempts py pr rt r w0 w cp" and "\<exists>k. processed_documents py cp = Ok k"
    and "length (pending_documents (last_document_id py cp) source) \<le> fuel * n" and "0 < fuel"
  shows "\<exists>w' cp'. backfill py pr rt r n fuel w cp = (w', Some cp') \<and>
    grown stored (rollout_collection r) S w0 w' \<and> (\<forall>i d. S i = Some d \<longrightarrow> on_targets py rt r stored w' i d)"
  using assms(14-17)
proof (induction fuel arbitrary: w cp)
  case (Suc fuel)
  let ?coll = "rollout_collection r" let ?p = "pending_documents (last_document_id py cp) source"
  note inv = attempts_inv [OF contracts(1,2) active Suc.prems(1) S]
  have same: "source_of stored w ?coll active = S"
    using grown_source [of stored ?coll w0 active w] S inv by simp
  obtain docs where docs: "export_policy_union py pr rt w ?coll (active_policy r) = Ok docs"
    using union_total [OF contracts(1) active copies_grown [OF copies conjunct1 [OF inv]]] answers by blast
  note view = union_view [OF contracts(1) docs active]
  have docs_S: "dget docs i = S i" for i using view(2) [of i] same by (auto simp: source_of_def)
  have "accepting pr (dget docs)" using contracts(3) by (simp add: accepting_def docs_S)
  from run_step_total [OF bounds this docs view(1) targets Suc.prems(2)] obtain w1 result where
    run: "run_step py pr rt w r cp n = (w1, Ok result)" and "\<exists>k. processed_documents py (bs_checkpoint result) = Ok k"
    by blast
  from run_step_effect [OF contracts(1,2) active run] obtain source1 where
    grown: "grown stored ?coll S w w1" and took: "step_took py rt r stored S w1 cp n result source1"
    unfolding same by blast
  from took have "well_kept source1" "\<And>i. dget source1 i = S i" by (simp_all add: step_took_def)
  then have p: "pending_documents l source1 = pending_documents l source" for l
    by (intro same_pending source) (simp_all add: source)
  show ?case
  proof (cases "bs_complete result")
    case True
    have "on_targets py rt r stored w1 i d" if "S i = Some d" for i d
      by (rule step_covers [OF contracts(1,2) active run same])
        (simp_all add: that True conjunct2 [OF inv, rule_format])
    with True run grown_trans [OF conjunct1 [OF inv] grown] show ?thesis by simp
  next
    case False
    with took have more: "n < length ?p" by (auto simp: step_took_def p Let_def)
    then have "take n ?p \<noteq> []" using bounds(2) by (cases ?p) auto
    then have next_p: "pending_documents (last_document_id py (bs_checkpoint result)) source = drop n ?p"
      using took pending_after [OF source(1)] by (simp add: step_took_def p Let_def)
    have "\<exists>w' cp'. backfill py pr rt r n fuel w1 (bs_checkpoint result) = (w', Some cp') \<and>
        grown stored ?coll S w0 w' \<and> (\<forall>i d. S i = Some d \<longrightarrow> on_targets py rt r stored w' i d)"
    proof (rule Suc.IH)
      show "attempts py pr rt r w0 w1 (bs_checkpoint result)" by (rule attempts.Stepped [OF Suc.prems(1) run])
      show "length (pending_documents (last_document_id py (bs_checkpoint result)) source) \<le> fuel * n"
        using Suc.prems(3) by (simp add: next_p)
      show "0 < fuel" using Suc.prems(3) more by (cases fuel) auto
    qed fact
    with run False show ?thesis by simp
  qed
qed simp

lemma verify_parity_total:
  assumes "export_policy_union py pr rt w (rollout_collection r) (active_policy r) = Ok source" "well_kept source"
    and "export_policy_union py pr rt w (rollout_collection r) (candidate_policy r) = Ok candidate" "well_kept candidate"
    and "phase r \<in> {BACKFILL, VERIFYING}" "1 \<le> k" "k \<le> 1000"
  shows "\<exists>report. verify_parity py pr rt w r k = Ok report"
proof -
  have finite_docs: "\<forall>(i, d) \<in> set source. finite_json (JObj d)"
    using assms(2) by (auto simp: well_kept_def kept_document_def)
  show ?thesis
    using assms(1,3,5-7) different_copies_total [OF finite_docs assms(4)]
      digest_of_texts [OF assms(2)] digest_of_texts [OF assms(4)]
    by (simp add: verify_parity_def Let_def)
qed

section \<open>Properties\<close>

text \<open>
  C6. Parity is exact: a verification that answers passes if and only if the clusters of the
  active policy and those of the candidate policy hold the same documents, compared by id and
  canonical text. In particular no two clusters of one side disagree about a document.
\<close>

theorem parity_exact:
  assumes "export_contract py pr stored" and "verify_parity py pr rt w r k = Ok report"
    and "policy_clusters py rt (active_policy r) = Ok active"
    and "policy_clusters py rt (candidate_policy r) = Ok candidates"
  shows "pr_passed report \<longleftrightarrow> (\<forall>i t.
    (\<exists>c \<in> set active. map_option (canon py) (stored w c (rollout_collection r) i) = Some t) \<longleftrightarrow>
    (\<exists>c \<in> set candidates. map_option (canon py) (stored w c (rollout_collection r) i) = Some t))"
proof -
  let ?coll = "rollout_collection r"
  from assms(2) obtain source candidate where
    source: "export_policy_union py pr rt w ?coll (active_policy r) = Ok source" and
    candidate: "export_policy_union py pr rt w ?coll (candidate_policy r) = Ok candidate"
    by (auto simp: verify_parity_def ebind_eq_Ok split: if_splits)
  note s = union_view [OF assms(1) source assms(3)] and c = union_view [OF assms(1) candidate assms(4)]
  have "(\<forall>i. texts py source i = texts py candidate i) \<longleftrightarrow>
      (\<forall>i t. texts py source i = Some t \<longleftrightarrow> texts py candidate i = Some t)"
    by (metis option.exhaust)
  then show ?thesis
    unfolding verify_parity_passed [OF assms(2) source s(1) candidate c(1)] by (simp only: s(3) c(3))
qed

text \<open>
  C7. A backfill is restart-safe: however many steps failed part-way before, with whatever
  batch sizes, once a step reports completion every document of the source is stored unchanged
  on every cluster that the candidate policy assigns to it.
\<close>

theorem backfill_restart_safe:
  assumes contracts: "export_contract py pr stored" "import_contract pr stored"
    and active: "policy_clusters py rt (active_policy r) = Ok active"
    and before: "attempts py pr rt r w0 w cp"
    and run: "run_step py pr rt w r cp n = (w', Ok result)" and finished: "bs_complete result"
    and doc: "source_of stored w0 (rollout_collection r) active i = Some d"
  shows "\<exists>targets. candidate_targets py rt r d = Ok targets \<and>
    (\<forall>c \<in> set targets. stored w' c (rollout_collection r) i = Some d)"
proof -
  note inv = attempts_inv [OF contracts active before refl]
  have same: "source_of stored w (rollout_collection r) active = source_of stored w0 (rollout_collection r) active"
    by (rule grown_source [OF conjunct1 [OF inv]])
  have "on_targets py rt r stored w' i d"
    by (rule step_covers [OF contracts active run same _ doc])
      (simp_all add: finished conjunct2 [OF inv, rule_format])
  then show ?thesis by (simp add: on_targets_def)
qed

text \<open>
  C9. A backfill that nothing interrupts ends, and then parity holds: with \<open>fuel\<close> steps of
  \<open>n\<close> documents, enough for the documents of the source, the last step reports completion and
  the following verification passes, provided that the candidate clusters held nothing but
  copies of source documents at the start.
\<close>

theorem backfill_reaches_parity:
  assumes contracts: "export_contract py pr stored" "import_contract pr stored"
    and "policy_clusters py rt (active_policy r) = Ok active"
    and "policy_clusters py rt (candidate_policy r) = Ok candidates"
    and "policy_complete py (candidate_policy r)"
    and answers: "\<forall>w. \<forall>c \<in> set active \<union> set candidates. \<exists>raw.
      export_text c (export_documents pr w c (rollout_collection r)) = Ok raw"
    and "export_policy_union py pr rt w (rollout_collection r) (active_policy r) = Ok source"
    and "accepting pr (dget source)" and "copies_of py stored (rollout_collection r) (dget source) candidates w"
    and "phase r = BACKFILL" "1 \<le> n" "n \<le> 10000" and "length source \<le> fuel * n" "0 < fuel"
  shows "\<exists>w' cp report. backfill py pr rt r n fuel w [] = (w', Some cp) \<and>
    verify_parity py pr rt w' r 1 = Ok report \<and> pr_passed report"
proof -
  let ?coll = "rollout_collection r" let ?S = "dget source"
  note view = union_view [OF contracts(1) assms(7,3)]
  have S: "source_of stored w ?coll active = ?S" by (rule ext) (simp add: view(2) source_of_def)
  have active_copies: "copies_of py stored ?coll ?S active w"
    using union_copies [OF contracts(1) assms(3,7)] by (simp only: S)
  have targets: "\<exists>ts. candidate_targets py rt r d = Ok ts \<and> ts \<noteq> [] \<and> set ts \<subseteq> set candidates" for d
    by (rule candidate_targets_total [OF assms(4,5)])
  have "\<exists>w' cp'. backfill py pr rt r n fuel w [] = (w', Some cp') \<and> grown stored ?coll ?S w w' \<and>
      (\<forall>i d. ?S i = Some d \<longrightarrow> on_targets py rt r stored w' i d)"
  proof (rule backfill_total [OF contracts assms(8,3) _ _ assms(10-12) S active_copies view(1)])
    show "\<exists>k. processed_documents py [] = Ok k" by (simp add: processed_documents_def jget_def)
    show "length (pending_documents (last_document_id py []) source) \<le> fuel * n"
      using length_pending [of _ source] assms(13) le_trans by blast
    show "\<forall>w. \<forall>c \<in> set active. \<exists>raw. export_text c (export_documents pr w c ?coll) = Ok raw"
      using answers by simp
    show "\<exists>ts. candidate_targets py rt r d = Ok ts" for d using targets [of d] by blast
    show "attempts py pr rt r w w []" by (rule attempts.Fresh)
    show "0 < fuel" by fact
  qed simp
  then obtain w' cp where run: "backfill py pr rt r n fuel w [] = (w', Some cp)" and grown: "grown stored ?coll ?S w w'"
    and placed: "\<And>i d. ?S i = Some d \<Longrightarrow> on_targets py rt r stored w' i d" by blast
  note copies = copies_grown [OF active_copies grown] copies_grown [OF assms(9) grown]
  from union_total [OF contracts(1) assms(3) copies(1)] answers obtain docs where
    docs: "export_policy_union py pr rt w' ?coll (active_policy r) = Ok docs" by blast
  from union_total [OF contracts(1) assms(4) copies(2)] answers obtain docs' where
    docs': "export_policy_union py pr rt w' ?coll (candidate_policy r) = Ok docs'" by blast
  note v = union_view [OF contracts(1) docs assms(3)] and v' = union_view [OF contracts(1) docs' assms(4)]
  have "source_of stored w' ?coll active = ?S"
    using grown_source [of stored ?coll w active w'] grown by (simp add: S)
  then have "dget docs i = ?S i" for i using v(2) [of i] by (metis source_of_def)
  then have "texts py docs i = map_option (canon py) (?S i)" for i by (simp add: texts_def)
  moreover have "texts py docs' i = map_option (canon py) (?S i)" for i
  proof (cases "?S i")
    case None
    then have "stored w' c ?coll i = None" if "c \<in> set candidates" for c
      using copies_ofD [OF copies(2) that, of i] None by (cases "stored w' c ?coll i") auto
    then have "texts py docs' i \<noteq> Some t" for t unfolding v'(3) by simp
    with None show ?thesis by auto
  next
    case (Some d)
    from targets [of d] obtain ts where ts: "candidate_targets py rt r d = Ok ts" "ts \<noteq> []" "set ts \<subseteq> set candidates" by blast
    then have "hd ts \<in> set candidates \<and> stored w' (hd ts) ?coll i = Some d"
      using placed [OF Some] by (auto simp: on_targets_def dest: hd_in_set)
    then have "texts py docs' i = Some (canon py d)" unfolding v'(3) by force
    with Some show ?thesis by simp
  qed
  ultimately have same: "\<forall>i. texts py docs i = texts py docs' i" by simp
  from verify_parity_total [OF docs v(1) docs' v'(1), of 1] assms(10) obtain report where
    report: "verify_parity py pr rt w' r 1 = Ok report" by auto
  with verify_parity_passed [OF report docs v(1) docs' v'(1)] same run show ?thesis by blast
qed

section \<open>A provider that keeps the contracts\<close>

text \<open>
  Documents that are nothing but their lower-case id, one collection of them per cluster; the
  text of a document in an export is its id.
\<close>

definition toy_doc :: "string \<Rightarrow> document" where
  "toy_doc i = [(''id'', JStr i)]"

definition plain_id :: "string \<Rightarrow> bool" where
  "plain_id i \<longleftrightarrow> i \<noteq> [] \<and> list_all is_lower i"

definition toy_python :: python where
  "toy_python = \<lparr>platform_of = \<lparr>sha256 = id, float_text = (\<lambda>_. []), iso_text = (\<lambda>_. [])\<rparr>,
     json_loads = (\<lambda>line. Some (JObj (toy_doc line))), text_of = show_nothing, float_of = no_float, int_of = (\<lambda>_. None)\<rparr>"

type_synonym toy_world = "(string \<times> string \<times> string) list"

definition toy_ids :: "toy_world \<Rightarrow> string \<Rightarrow> string \<Rightarrow> string list" where
  "toy_ids w c coll = filter plain_id (remdups (map (\<lambda>(_, _, i). i) (filter (\<lambda>(c', coll', _). c' = c \<and> coll' = coll) w)))"

definition toy_accepts :: "document \<Rightarrow> bool" where
  "toy_accepts d \<longleftrightarrow> plain_id (document_id d) \<and> d = toy_doc (document_id d)"

definition toy_provider :: "toy_world provider" where
  "toy_provider = \<lparr>export_documents = (\<lambda>w c coll. ExportText (concat (map (\<lambda>i. i @ [CHR 0x0A]) (toy_ids w c coll)))),
     import_documents = (\<lambda>w c coll batch. (w @ map (\<lambda>d. (c, coll, document_id d)) (filter toy_accepts batch),
        ImportList (map (\<lambda>d. JObj [(''success'', JBool (toy_accepts d))]) batch)))\<rparr>"

definition toy_stored :: "toy_world contents" where
  "toy_stored w c coll i = (if i \<in> set (toy_ids w c coll) then Some (toy_doc i) else None)"

lemma toy_doc_id [simp]: "document_id (toy_doc i) = i"
  by (simp add: document_id_def toy_doc_def text_or_def)

lemma lower_not_blank: "is_lower c \<Longrightarrow> \<not> is_line_end c \<and> \<not> is_space c \<and> c \<noteq> CHR 0x0D"
  by (auto simp: is_lower_def is_line_end_def is_space_def less_eq_char_def)

lemma plain_line: "list_all is_lower i \<Longrightarrow> splitlines_acc cur (i @ CHR 0x0A # s) = (rev cur @ i) # splitlines_acc [] s"
proof (induction i arbitrary: cur)
  case Nil
  then show ?case by (simp add: is_line_end_def)
next
  case (Cons c i)
  then show ?case using lower_not_blank [of c] by simp
qed

lemma plain_lines: "list_all plain_id ids \<Longrightarrow> splitlines (concat (map (\<lambda>i. i @ [CHR 0x0A]) ids)) = ids"
  by (induction ids) (simp_all add: splitlines_def plain_id_def plain_line)

lemma plain_id_shown: "plain_id i \<Longrightarrow> strip i \<noteq> []"
proof -
  assume i: "plain_id i"
  then have "strip i = i" using lower_not_blank by (intro strip_id) (auto simp: plain_id_def list_all_iff)
  with i show ?thesis by (simp add: plain_id_def)
qed

lemma toy_parse:
  assumes "list_all plain_id ids"
  shows "parse_export toy_python c (concat (map (\<lambda>i. i @ [CHR 0x0A]) ids)) = map Ok (map toy_doc ids)"
proof -
  have shown: "filter (\<lambda>(n, line). strip line \<noteq> []) (enumerate k ids) = enumerate k ids" for k
    using assms by (induction ids arbitrary: k) (simp_all add: plain_id_shown)
  have "map (\<lambda>(n, line). parse_line toy_python c n line) (enumerate k ids) = map Ok (map toy_doc ids)" for k
    using assms by (induction ids arbitrary: k) (auto simp: parse_line_def toy_python_def plain_id_def)
  then show ?thesis by (simp add: parse_export_def plain_lines [OF assms] shown)
qed

lemma toy_plain: "list_all plain_id (toy_ids w c coll)"
  by (simp add: toy_ids_def list_all_iff)

lemma toy_by_id: "dget (by_id (map toy_doc ids)) i = (if i \<in> set ids then Some (toy_doc i) else None)"
  by (induction ids) (auto simp: by_id_def)

lemma toy_export_contract: "export_contract toy_python toy_provider toy_stored"
  unfolding export_contract_def
proof (intro allI impI)
  fix w c coll raw assume "export_text c (export_documents toy_provider w c coll) = Ok raw"
  then have "parse_export toy_python c raw = map Ok (map toy_doc (toy_ids w c coll))"
    by (auto simp: toy_provider_def export_text_def toy_parse [OF toy_plain])
  moreover have "distinct (map document_id (map toy_doc (toy_ids w c coll)))" by (simp add: comp_def toy_ids_def)
  moreover have "toy_stored w c coll = dget (by_id (map toy_doc (toy_ids w c coll)))"
    by (rule ext) (simp only: toy_by_id toy_stored_def)
  ultimately show "\<exists>ds. parse_export toy_python c raw = map Ok ds \<and> distinct (map document_id ds) \<and>
      (\<forall>d \<in> set ds. finite_json (JObj d)) \<and> toy_stored w c coll = dget (by_id ds)"
    by (intro exI [of _ "map toy_doc (toy_ids w c coll)"]) (simp add: toy_doc_def)
qed

lemma set_toy_ids: "set (toy_ids w c coll) = {i. (c, coll, i) \<in> set w \<and> plain_id i}"
  by (force simp: toy_ids_def)

lemma toy_ids_append: "set (toy_ids (w @ w') c coll) = set (toy_ids w c coll) \<union> set (toy_ids w' c coll)"
  by (auto simp: set_toy_ids)

lemma toy_ids_batch:
  "set (toy_ids (map (\<lambda>d. (c, coll, document_id d)) (filter toy_accepts batch)) c' coll') =
     (if c' = c \<and> coll' = coll then {i. \<exists>d \<in> set batch. toy_accepts d \<and> document_id d = i} else {})"
  by (auto simp: set_toy_ids toy_accepts_def)

lemma toy_import_contract: "import_contract toy_provider toy_stored"
  unfolding import_contract_def
proof (intro allI impI conjI)
  fix w c coll batch w' reply
  assume run: "import_documents toy_provider w c coll batch = (w', reply)"
  then have w': "set (toy_ids w' c' coll') = set (toy_ids w c' coll') \<union>
      (if c' = c \<and> coll' = coll then {i. \<exists>d \<in> set batch. toy_accepts d \<and> document_id d = i} else {})" for c' coll'
    by (auto simp: toy_provider_def toy_ids_append toy_ids_batch)
  show "toy_stored w' c' coll' i = toy_stored w c' coll' i \<or> c' = c \<and> coll' = coll \<and>
      (\<exists>d \<in> set batch. document_id d = i \<and> toy_stored w' c coll i = Some d)" for c' coll' i
    by (auto simp: toy_stored_def w' toy_accepts_def)
  have "reply = ImportList (map (\<lambda>d. JObj [(''success'', JBool (toy_accepts d))]) batch)"
    using run by (auto simp: toy_provider_def)
  moreover have "toy_stored w' c coll (document_id d) = Some d"
    if "(d, item) \<in> set (zip batch (map (\<lambda>d. JObj [(''success'', JBool (toy_accepts d))]) batch))" "item_succeeded item" for d item
    using that by (auto simp: zip_map2 zip_same jget_def toy_stored_def w' toy_accepts_def)
  ultimately show "reply = ImportRaised \<or> (\<exists>items. reply = ImportList items \<and> length items = length batch \<and>
      (\<forall>(d, item) \<in> set (zip batch items). item_succeeded item \<longrightarrow> toy_stored w' c coll (document_id d) = Some d))"
    by auto
qed

text \<open>Two clusters; the collection moves from \<open>a\<close> to \<open>b\<close>.\<close>

definition toy_runtime :: FederationRuntime where
  "toy_runtime = empty_runtime\<lparr>clients := [''a'', ''b'']\<rparr>"

definition toy_rollout :: RoutingRollout where
  "toy_rollout = (new_rollout ''r1'' ''books'' [(''default_cluster'', JStr ''a'')] [(''default_cluster'', JStr ''b'')] ''ops'' 0 0)
     \<lparr>phase := BACKFILL\<rparr>"

definition toy_start :: toy_world where
  "toy_start = [(''a'', ''books'', ''y''), (''a'', ''books'', ''x'')]"

lemma toy_phase: "phase toy_rollout = BACKFILL" "rollout_collection toy_rollout = ''books''"
  by (simp_all add: toy_rollout_def new_rollout_def)

lemma toy_clusters:
  "policy_clusters toy_python toy_runtime (active_policy toy_rollout) = Ok [''a'']"
  "policy_clusters toy_python toy_runtime (candidate_policy toy_rollout) = Ok [''b'']"
  by code_simp+

lemma toy_export: "export_policy_union toy_python toy_provider toy_runtime toy_start ''books'' (active_policy toy_rollout) =
    Ok [(''y'', toy_doc ''y''), (''x'', toy_doc ''x'')]"
  by code_simp

lemma toy_complete: "policy_complete toy_python (candidate_policy toy_rollout)"
  by code_simp

lemma toy_start_copies: "copies_of toy_python toy_stored ''books'' S [''b''] toy_start"
  by (simp add: copies_of_def toy_stored_def set_toy_ids toy_start_def)

lemma toy_accepting: "accepting toy_provider (dget [(''y'', toy_doc ''y''), (''x'', toy_doc ''x'')])"
proof -
  have "plain_id ''y''" "plain_id ''x''" by code_simp+
  then show ?thesis by (auto simp: accepting_def toy_provider_def toy_accepts_def jget_def split: if_splits)
qed

theorem backfill_reaches_parity_witness:
  "\<exists>w cp report. backfill toy_python toy_provider toy_runtime toy_rollout 1 2 toy_start [] = (w, Some cp) \<and>
     verify_parity toy_python toy_provider toy_runtime w toy_rollout 1 = Ok report \<and> pr_passed report"
proof -
  have "\<forall>w. \<forall>c \<in> set [''a''] \<union> set [''b'']. \<exists>raw.
      export_text c (export_documents toy_provider w c (rollout_collection toy_rollout)) = Ok raw"
    by (simp add: toy_provider_def export_text_def)
  from backfill_reaches_parity [OF toy_export_contract toy_import_contract toy_clusters toy_complete this
      toy_export [folded toy_phase(2)] toy_accepting toy_start_copies [folded toy_phase(2)] toy_phase(1)]
  show ?thesis by simp
qed

lemma ok_run: "(case m of (w, Ok x) \<Rightarrow> P w x | _ \<Rightarrow> False) \<Longrightarrow> \<exists>w x. m = (w, Ok x) \<and> P w x"
  by (auto split: prod.splits sum.splits)

theorem backfill_restart_safe_witness:
  "\<exists>w cp w' result. run_step toy_python toy_provider toy_runtime w toy_rollout cp 1 = (w', Ok result) \<and>
     attempts toy_python toy_provider toy_runtime toy_rollout toy_start w cp \<and>
     (\<exists>targets. candidate_targets toy_python toy_runtime toy_rollout (toy_doc ''y'') = Ok targets \<and>
       (\<forall>c \<in> set targets. toy_stored w' c ''books'' ''y'' = Some (toy_doc ''y'')))"
proof -
  have "case run_step toy_python toy_provider toy_runtime toy_start toy_rollout [] 1 of
      (w, Ok first) \<Rightarrow> (case run_step toy_python toy_provider toy_runtime w toy_rollout (bs_checkpoint first) 1 of
          (w', Ok second) \<Rightarrow> bs_complete second | _ \<Rightarrow> False)
    | _ \<Rightarrow> False"
    by code_simp
  from ok_run [OF this] obtain w step where
    step: "run_step toy_python toy_provider toy_runtime toy_start toy_rollout [] 1 = (w, Ok step)" and
    second: "case run_step toy_python toy_provider toy_runtime w toy_rollout (bs_checkpoint step) 1 of
      (w', Ok result) \<Rightarrow> bs_complete result | _ \<Rightarrow> False"
    by (elim exE conjE) (rule that)
  from ok_run [OF second] obtain w' result where
    run: "run_step toy_python toy_provider toy_runtime w toy_rollout (bs_checkpoint step) 1 = (w', Ok result)" and
    finished: "bs_complete result" by blast
  have before: "attempts toy_python toy_provider toy_runtime toy_rollout toy_start w (bs_checkpoint step)"
    by (rule attempts.Stepped [OF attempts.Fresh step])
  have "source_of toy_stored toy_start ''books'' [''a''] ''y'' = Some (toy_doc ''y'')"
    by code_simp
  from backfill_restart_safe [OF toy_export_contract toy_import_contract toy_clusters(1) before run finished
      this [folded toy_phase(2)]] run before
  show ?thesis unfolding toy_phase(2) by blast
qed

theorem parity_exact_witness:
  "\<exists>report. verify_parity toy_python toy_provider toy_runtime [(''b'', ''books'', ''x''), (''a'', ''books'', ''x'')] toy_rollout 1 = Ok report \<and>
     (\<forall>i t. map_option (canon toy_python) (toy_stored [(''b'', ''books'', ''x''), (''a'', ''books'', ''x'')] ''a'' ''books'' i) = Some t \<longleftrightarrow>
       map_option (canon toy_python) (toy_stored [(''b'', ''books'', ''x''), (''a'', ''books'', ''x'')] ''b'' ''books'' i) = Some t)"
proof -
  let ?w = "[(''b'', ''books'', ''x''), (''a'', ''books'', ''x'')]"
  have "case verify_parity toy_python toy_provider toy_runtime ?w toy_rollout 1 of Ok report \<Rightarrow> pr_passed report | _ \<Rightarrow> False"
    by code_simp
  then obtain report where report: "verify_parity toy_python toy_provider toy_runtime ?w toy_rollout 1 = Ok report" "pr_passed report"
    by (auto split: sum.splits)
  from parity_exact [OF toy_export_contract report(1) toy_clusters] report show ?thesis
    by (simp only: toy_phase list.set ball_simps bex_simps simp_thms) blast
qed

section \<open>What modelling showed\<close>

text \<open>
  \<open>str.splitlines\<close> also ends a line at the control character U+0085, which JSON lets a
  string contain as it is: a document with it splits into two lines, and the export is refused.
\<close>

lemma export_splits_documents:
  assumes "\<forall>c \<in> set a. \<not> is_line_end c" and "json_loads py a = None" and "strip a \<noteq> []"
  shows "\<exists>rest. parse_export py cluster (a @ CHR 0x85 # b) = Raise (InvalidJsonl cluster 1) # rest"
proof -
  have "splitlines_acc cur (a @ CHR 0x85 # b) = (rev cur @ a) # splitlines_acc [] b" for cur
    using assms(1)
  proof (induction a arbitrary: cur)
    case (Cons c a)
    have "c \<noteq> CHR 0x0D" using Cons.prems by (auto simp: is_line_end_def)
    then show ?case using Cons by simp
  qed (simp add: is_line_end_def)
  then show ?thesis using assms(2,3) by (simp add: parse_export_def splitlines_def parse_line_def)
qed

text \<open>An import that acknowledges no document at all is accepted.\<close>

lemma unacknowledged_import_accepted: "validate_import_result py c (ImportList []) = Ok ()"
  by (simp add: validate_import_result_def import_items_def require_def)

text \<open>
  Parity compares the union of the clusters, not the place of a document, and a completed rollout
  writes its candidate policy alone. A document that the candidate policy moves from \<open>a\<close> to
  \<open>b\<close>, both named by the policy, keeps its copy on \<open>a\<close>: updates no longer reach it, and
  searches still ask \<open>a\<close>.
\<close>

definition moving_rollout :: RoutingRollout where
  "moving_rollout = (new_rollout ''r1'' ''books'' [(''default_cluster'', JStr ''a'')]
     [(''rules'', JArr [JObj [(''field'', JStr ''id''), (''value'', JStr ''x''), (''cluster'', JStr ''b'')]]),
      (''default_cluster'', JStr ''a'')] ''ops'' 0 0)\<lparr>phase := COMPLETED\<rparr>"

definition moved_runtime :: FederationRuntime where
  "moved_runtime = toy_runtime\<lparr>routing_rollouts := [(''r1'', to_dict unary_text moving_rollout)]\<rparr>"

lemma moved_document_keeps_old_copy:
  "get_indexing_route unary show_nothing no_float moved_runtime ''books'' (toy_doc ''x'') = Ok ([''b''], 0, Some ''r1'')"
  "cluster_names_for_search unary show_nothing moved_runtime ''books'' = Ok [''b'', ''a'']"
  "candidate_targets toy_python toy_runtime moving_rollout (toy_doc ''x'') = Ok [''b'']"
  by code_simp+

lemma moved_document_passes_parity:
  "map_option pr_passed (case verify_parity toy_python toy_provider toy_runtime
     [(''a'', ''books'', ''x''), (''b'', ''books'', ''x'')] (moving_rollout\<lparr>phase := VERIFYING\<rparr>) 1 of
       Ok report \<Rightarrow> Some report | _ \<Rightarrow> None) = Some True"
  by code_simp

end
