(* ===== verification/ControlPlane.thy ===== *)
theory ControlPlane
  imports Integrity
begin

text \<open>
  \<open>query_api/app/control_plane\<close>: the store of the authoritative configuration.
  \<open>contracts.py\<close> is the data, the errors and the locale \<open>control_plane_store\<close>;
  \<open>in_memory_store.py\<close> is \<open>MemStore\<close> and its operations; \<open>postgres_store.py\<close> over
  \<open>schema.py\<close> is \<open>ControlPlaneDb\<close>, its tables as lists of rows with the columns'
  constraints. A database transaction is one function: when it raises, no state comes back.
  The clock and the random identifiers of a call are its \<open>call_env\<close>.
\<close>

section \<open>Contracts\<close>

definition CURRENT_STATE_SCHEMA_VERSION :: int where
  "CURRENT_STATE_SCHEMA_VERSION = 1"

datatype cp_error =
    StateConflictError int int
  | UnsupportedStateSchemaError int int
  | StateIntegrityError int
  | AuditIntegrityError string
  | StoreNotReadyError string
  | InvalidValue string         \<comment> \<open>\<open>ValueError\<close>\<close>
  | IntegrityViolation          \<comment> \<open>a unique key, SQLAlchemy's \<open>IntegrityError\<close>\<close>
  | DatabaseRejects             \<comment> \<open>a column's length, range or check\<close>

record ControlPlaneRecord =
  cr_revision :: int
  cr_schema_version :: int
  cr_state :: document
  cr_digest :: string
  cr_updated_at :: time

record OutboxRecord =
  ob_event_id :: string
  ob_revision :: int
  ob_event_type :: string
  ob_payload :: document
  ob_created_at :: time
  ob_published_at :: "time option"
  ob_last_error :: "string option"
  ob_attempts :: int

record call_env =
  env_now :: time
  env_audit_id :: string
  env_outbox_id :: string

text \<open>\<open>{**payload, "revision": r, "schema_version": v, "state_digest": d}\<close>.\<close>

definition notice_payload :: "document \<Rightarrow> int \<Rightarrow> int \<Rightarrow> string \<Rightarrow> document" where
  "notice_payload payload r v d =
     dput ''state_digest'' (JStr d) (dput ''schema_version'' (JInt v) (dput ''revision'' (JInt r) payload))"

definition new_outbox :: "string \<Rightarrow> int \<Rightarrow> string \<Rightarrow> document \<Rightarrow> time \<Rightarrow> OutboxRecord" where
  "new_outbox eid r ty payload now =
     \<lparr>ob_event_id = eid, ob_revision = r, ob_event_type = ty, ob_payload = payload,
      ob_created_at = now, ob_published_at = None, ob_last_error = None, ob_attempts = 0\<rparr>"

definition pending_with_id :: "string \<Rightarrow> OutboxRecord \<Rightarrow> bool" where
  "pending_with_id eid ob \<longleftrightarrow> ob_event_id ob = eid \<and> ob_published_at ob = None"

definition delivered :: "time \<Rightarrow> OutboxRecord \<Rightarrow> OutboxRecord" where
  "delivered t ob = ob\<lparr>ob_published_at := Some t, ob_last_error := None,
     ob_attempts := ob_attempts ob + 1\<rparr>"

definition failed_once :: "string \<Rightarrow> OutboxRecord \<Rightarrow> OutboxRecord" where
  "failed_once e ob = ob\<lparr>ob_last_error := Some (take 4096 e), ob_attempts := ob_attempts ob + 1\<rparr>"

section \<open>The in-memory store\<close>

record MemStore =
  mem_record :: "ControlPlaneRecord option"
  mem_audit :: "document list"
  mem_outbox :: "OutboxRecord list"
  mem_audit_hash :: string

definition mem_empty :: MemStore where
  "mem_empty = \<lparr>mem_record = None, mem_audit = [], mem_outbox = [], mem_audit_hash = ZERO_AUDIT_HASH\<rparr>"

definition mem_load :: "MemStore \<Rightarrow> cp_error + ControlPlaneRecord option" where
  "mem_load s = Ok (mem_record s)"

definition mem_latest_revision :: "MemStore \<Rightarrow> int option" where
  "mem_latest_revision s = map_option cr_revision (mem_record s)"

definition mem_build_audit_record ::
  "platform \<Rightarrow> MemStore \<Rightarrow> string \<Rightarrow> AuditEvent \<Rightarrow> int option \<Rightarrow> time \<Rightarrow> (document \<times> string) option" where
  "mem_build_audit_record pl s eid a rv now =
     map_option (\<lambda>m. (m @ [(''event_hash'', JStr (audit_event_hash pl m))], audit_event_hash pl m))
       (build_audit_material pl eid (int (length (mem_audit s)) + 1) rv now a (mem_audit_hash s))"

definition mem_commit ::
  "platform \<Rightarrow> MemStore \<Rightarrow> call_env \<Rightarrow> int \<Rightarrow> document \<Rightarrow> AuditEvent \<Rightarrow> string \<Rightarrow> document \<Rightarrow> int
   \<Rightarrow> cp_error + MemStore \<times> ControlPlaneRecord" where
  "mem_commit pl s env expected state a ty payload schema =
     (if schema \<noteq> CURRENT_STATE_SCHEMA_VERSION
      then Raise (UnsupportedStateSchemaError CURRENT_STATE_SCHEMA_VERSION schema)
      else case normalize_json_object state of
        None \<Rightarrow> Raise (InvalidValue ''state'')
      | Some st \<Rightarrow> (case normalize_json_object payload of
          None \<Rightarrow> Raise (InvalidValue ''event_payload'')
        | Some pay \<Rightarrow>
          let actual = (case mem_record s of Some r \<Rightarrow> cr_revision r | None \<Rightarrow> 0) in
          if actual \<noteq> expected then Raise (StateConflictError expected actual)
          else
            let record = \<lparr>cr_revision = actual + 1, cr_schema_version = schema, cr_state = st,
                          cr_digest = canonical_state_digest pl st, cr_updated_at = env_now env\<rparr> in
            case mem_build_audit_record pl s (env_audit_id env) a (Some (actual + 1)) (env_now env) of
              None \<Rightarrow> Raise (InvalidValue ''audit.details'')
            | Some (row, h) \<Rightarrow>
                Ok (s\<lparr>mem_record := Some record, mem_audit := mem_audit s @ [row],
                      mem_audit_hash := h,
                      mem_outbox := mem_outbox s @ [new_outbox (env_outbox_id env) (actual + 1) ty
                        (notice_payload pay (actual + 1) schema (cr_digest record)) (env_now env)]\<rparr>,
                    record)))"

definition mem_append_audit ::
  "platform \<Rightarrow> MemStore \<Rightarrow> call_env \<Rightarrow> AuditEvent \<Rightarrow> int option \<Rightarrow> cp_error + MemStore" where
  "mem_append_audit pl s env a rv =
     (case mem_build_audit_record pl s (env_audit_id env) a rv (env_now env) of
        None \<Rightarrow> Raise (InvalidValue ''audit.details'')
      | Some (row, h) \<Rightarrow> Ok (s\<lparr>mem_audit := mem_audit s @ [row], mem_audit_hash := h\<rparr>))"

definition last_n :: "nat \<Rightarrow> 'a list \<Rightarrow> 'a list" where
  "last_n n xs = drop (length xs - n) xs"

definition mem_list_audit ::
  "MemStore \<Rightarrow> int \<Rightarrow> string option \<Rightarrow> string option \<Rightarrow> cp_error + document list" where
  "mem_list_audit s limit act rtype =
     (if limit < 1 then Raise (InvalidValue ''limit'')
      else Ok (rev (last_n (nat limit) (filter (\<lambda>row.
        (case act of None \<Rightarrow> True | Some x \<Rightarrow> jget row ''action'' = JStr x) \<and>
        (case rtype of None \<Rightarrow> True | Some x \<Rightarrow> jget row ''resource_type'' = JStr x)) (mem_audit s)))))"

definition row_sequence :: "document \<Rightarrow> int" where
  "row_sequence row = (case jget row ''sequence'' of JInt i \<Rightarrow> i | _ \<Rightarrow> 0)"

definition mem_export_audit :: "MemStore \<Rightarrow> int \<Rightarrow> int \<Rightarrow> cp_error + document list" where
  "mem_export_audit s after limit =
     (if after < 0 then Raise (InvalidValue ''after_sequence'')
      else if limit < 1 then Raise (InvalidValue ''limit'')
      else Ok (take (nat limit) (filter (\<lambda>row. after < row_sequence row) (mem_audit s))))"

definition mem_list_outbox :: "MemStore \<Rightarrow> int \<Rightarrow> int \<Rightarrow> cp_error + OutboxRecord list" where
  "mem_list_outbox s after limit =
     (if limit < 1 then Raise (InvalidValue ''limit'')
      else Ok (take (nat limit) (filter (\<lambda>ob. after < ob_revision ob) (mem_outbox s))))"

definition mem_list_unpublished :: "MemStore \<Rightarrow> int \<Rightarrow> cp_error + OutboxRecord list" where
  "mem_list_unpublished s limit =
     (if limit < 1 then Raise (InvalidValue ''limit'')
      else Ok (take (nat limit) (filter (\<lambda>ob. ob_published_at ob = None) (mem_outbox s))))"

definition row_chain_material :: "document \<Rightarrow> document" where
  "row_chain_material row = filter (\<lambda>kv. fst kv \<noteq> ''event_hash'') row"

fun verify_chain :: "platform \<Rightarrow> document list \<Rightarrow> int \<Rightarrow> string \<Rightarrow> cp_error + string" where
  "verify_chain pl [] n prev = Ok prev"
| "verify_chain pl (row # rows) n prev =
     (if dget row ''sequence'' \<noteq> Some (JInt n) then Raise (AuditIntegrityError ''sequence gap'')
      else if dget row ''previous_hash'' \<noteq> Some (JStr prev)
      then Raise (AuditIntegrityError ''previous hash'')
      else
        let calculated = audit_event_hash pl (row_chain_material row) in
        if dget row ''event_hash'' \<noteq> Some (JStr calculated)
        then Raise (AuditIntegrityError ''event hash'')
        else verify_chain pl rows (n + 1) calculated)"

definition mem_verify_audit_chain :: "platform \<Rightarrow> MemStore \<Rightarrow> cp_error + unit" where
  "mem_verify_audit_chain pl s =
     ebind (verify_chain pl (mem_audit s) 1 ZERO_AUDIT_HASH) (\<lambda>h.
       require (mem_audit_hash s = h) (AuditIntegrityError ''head''))"

definition mem_mark_outbox_published :: "MemStore \<Rightarrow> string \<Rightarrow> time \<Rightarrow> MemStore \<times> bool" where
  "mem_mark_outbox_published s eid t =
     (case update_first (pending_with_id eid) (delivered t) (mem_outbox s) of
        Some rows \<Rightarrow> (s\<lparr>mem_outbox := rows\<rparr>, True)
      | None \<Rightarrow> (s, False))"

definition mem_record_outbox_failure :: "MemStore \<Rightarrow> string \<Rightarrow> string \<Rightarrow> MemStore \<times> bool" where
  "mem_record_outbox_failure s eid e =
     (case update_first (pending_with_id eid) (failed_once e) (mem_outbox s) of
        Some rows \<Rightarrow> (s\<lparr>mem_outbox := rows\<rparr>, True)
      | None \<Rightarrow> (s, False))"

section \<open>The PostgreSQL store\<close>

record AuditRow =
  ar_id :: string
  ar_sequence :: int
  ar_revision :: "int option"
  ar_timestamp :: time
  ar_event :: AuditEvent         \<comment> \<open>actor, action, resource, status, request and \<open>details_json\<close>\<close>
  ar_previous_hash :: string
  ar_event_hash :: string

record ControlPlaneDb =
  state_row :: "ControlPlaneRecord option"     \<comment> \<open>the row with id \<open>current\<close>\<close>
  audit_head :: "(int \<times> string) option"         \<comment> \<open>the row with id \<open>head\<close>\<close>
  audit_rows :: "AuditRow list"
  outbox_rows :: "OutboxRecord list"

text \<open>After the migrations: an empty state, and the head of an empty chain.\<close>

definition migrated_db :: ControlPlaneDb where
  "migrated_db = \<lparr>state_row = None, audit_head = Some (0, ZERO_AUDIT_HASH), audit_rows = [], outbox_rows = []\<rparr>"

definition bigint :: "int \<Rightarrow> bool" where
  "bigint i \<longleftrightarrow> - (2 ^ 63) \<le> i \<and> i < 2 ^ 63"

definition state_row_fits :: "ControlPlaneRecord \<Rightarrow> bool" where
  "state_row_fits r \<longleftrightarrow> 1 \<le> cr_revision r \<and> bigint (cr_revision r) \<and>
     1 \<le> cr_schema_version r \<and> length (cr_digest r) = 64"

definition audit_row_fits :: "AuditRow \<Rightarrow> bool" where
  "audit_row_fits r \<longleftrightarrow>
     length (ar_id r) \<le> 36 \<and> 1 \<le> ar_sequence r \<and> bigint (ar_sequence r) \<and>
     length (ae_actor (ar_event r)) \<le> 256 \<and> length (ae_action (ar_event r)) \<le> 128 \<and>
     length (ae_resource_type (ar_event r)) \<le> 128 \<and> length (ae_resource_id (ar_event r)) \<le> 512 \<and>
     length (ae_status (ar_event r)) \<le> 64 \<and> length (ae_request_id (ar_event r)) \<le> 128 \<and>
     length (ar_previous_hash r) = 64 \<and> length (ar_event_hash r) = 64"

definition outbox_row_fits :: "OutboxRecord \<Rightarrow> bool" where
  "outbox_row_fits r \<longleftrightarrow>
     length (ob_event_id r) \<le> 36 \<and> 1 \<le> ob_revision r \<and> bigint (ob_revision r) \<and>
     length (ob_event_type r) \<le> 128 \<and> 0 \<le> ob_attempts r"

text \<open>\<open>check_ready\<close> sees the catalogue of the connection next to the rows.\<close>

record Catalog =
  dialect :: string
  table_columns :: "(string, string list) pydict"
  alembic_version :: "string option"

definition REQUIRED_COLUMNS :: "(string, string list) pydict" where
  "REQUIRED_COLUMNS =
     [(''control_plane_state'', [''id'', ''revision'', ''schema_version'', ''state_json'',
         ''state_digest'', ''updated_at'']),
      (''control_plane_audit_head'', [''id'', ''sequence'', ''event_hash'']),
      (''control_plane_audit'', [''id'', ''sequence'', ''revision'', ''timestamp'', ''actor'',
         ''action'', ''resource_type'', ''resource_id'', ''status'', ''request_id'',
         ''details_json'', ''previous_hash'', ''event_hash'']),
      (''control_plane_outbox'', [''id'', ''revision'', ''event_type'', ''payload_json'',
         ''created_at'', ''published_at'', ''last_error'', ''publish_attempts''])]"

definition ALEMBIC_HEAD_REVISION :: string where
  "ALEMBIC_HEAD_REVISION = ''0003_audit_delivery_deletion''"

definition check_ready ::
  "bool \<Rightarrow> string \<Rightarrow> int \<Rightarrow> Catalog \<Rightarrow> ControlPlaneDb \<Rightarrow> cp_error + unit" where
  "check_ready require_postgres migration schema cat db =
     (let missing_tables = filter (\<lambda>t. t \<notin> set (dkeys (table_columns cat))) (dkeys REQUIRED_COLUMNS);
          incomplete = filter (\<lambda>(t, cols). \<not> set cols \<subseteq>
            set (case dget (table_columns cat) t of Some cs \<Rightarrow> cs | None \<Rightarrow> [])) REQUIRED_COLUMNS in
      if require_postgres \<and> dialect cat \<noteq> ''postgresql'' then Raise (StoreNotReadyError ''dialect'')
      else if missing_tables \<noteq> [] then Raise (StoreNotReadyError ''tables'')
      else if ''alembic_version'' \<notin> set (dkeys (table_columns cat))
      then Raise (StoreNotReadyError ''alembic'')
      else if incomplete \<noteq> [] then Raise (StoreNotReadyError ''columns'')
      else if alembic_version cat \<noteq> Some migration then Raise (StoreNotReadyError ''migration'')
      else case audit_head db of
        None \<Rightarrow> Raise (StoreNotReadyError ''audit head missing'')
      | Some (_, h) \<Rightarrow>
          if length h \<noteq> 64 then Raise (StoreNotReadyError ''audit head invalid'')
          else case state_row db of
            Some r \<Rightarrow> require (cr_schema_version r = schema)
                        (UnsupportedStateSchemaError schema (cr_schema_version r))
          | None \<Rightarrow> Ok ())"

definition validate_state_schema :: "int \<Rightarrow> cp_error + unit" where
  "validate_state_schema v =
     require (v = CURRENT_STATE_SCHEMA_VERSION)
       (UnsupportedStateSchemaError CURRENT_STATE_SCHEMA_VERSION v)"

definition record_from_row :: "platform \<Rightarrow> ControlPlaneRecord \<Rightarrow> cp_error + ControlPlaneRecord" where
  "record_from_row pl row =
     ebind (validate_state_schema (cr_schema_version row)) (\<lambda>_.
       case normalize_json_object (cr_state row) of
         None \<Rightarrow> Raise (InvalidValue ''persisted state'')
       | Some st \<Rightarrow>
           if canonical_state_digest pl st \<noteq> cr_digest row
           then Raise (StateIntegrityError (cr_revision row))
           else Ok (row\<lparr>cr_state := st\<rparr>))"

definition pg_load :: "platform \<Rightarrow> ControlPlaneDb \<Rightarrow> cp_error + ControlPlaneRecord option" where
  "pg_load pl db =
     (case state_row db of
        None \<Rightarrow> Ok None
      | Some row \<Rightarrow> ebind (record_from_row pl row) (\<lambda>r. Ok (Some r)))"

definition pg_latest_revision :: "ControlPlaneDb \<Rightarrow> int option" where
  "pg_latest_revision db = map_option cr_revision (state_row db)"

definition cas_state ::
  "ControlPlaneDb \<Rightarrow> int \<Rightarrow> ControlPlaneRecord \<Rightarrow> cp_error + ControlPlaneDb" where
  "cas_state db expected new =
     (case state_row db of
        None \<Rightarrow>
          if expected \<noteq> 0 then Raise (StateConflictError expected 0)
          else if \<not> state_row_fits new then Raise DatabaseRejects
          else Ok (db\<lparr>state_row := Some new\<rparr>)
      | Some row \<Rightarrow>
          if cr_revision row \<noteq> expected then Raise (StateConflictError expected (cr_revision row))
          else if \<not> state_row_fits new then Raise DatabaseRejects
          else Ok (db\<lparr>state_row := Some new\<rparr>))"

definition append_audit_in_transaction ::
  "platform \<Rightarrow> ControlPlaneDb \<Rightarrow> string \<Rightarrow> AuditEvent \<Rightarrow> int option \<Rightarrow> time \<Rightarrow> cp_error + ControlPlaneDb" where
  "append_audit_in_transaction pl db eid a rv now =
     (case audit_head db of
        None \<Rightarrow> Raise (StoreNotReadyError ''audit head missing'')
      | Some (n, h) \<Rightarrow>
          (case build_audit_material pl eid (n + 1) rv now a h of
             None \<Rightarrow> Raise (InvalidValue ''audit.details'')
           | Some m \<Rightarrow>
               let row = \<lparr>ar_id = eid, ar_sequence = n + 1, ar_revision = rv, ar_timestamp = now,
                          ar_event = a\<lparr>ae_details := the (normalize_json_object (ae_details a))\<rparr>,
                          ar_previous_hash = h, ar_event_hash = audit_event_hash pl m\<rparr> in
               if eid \<in> set (map ar_id (audit_rows db)) \<or> n + 1 \<in> set (map ar_sequence (audit_rows db))
               then Raise IntegrityViolation
               else if \<not> audit_row_fits row then Raise DatabaseRejects
               else Ok (db\<lparr>audit_rows := audit_rows db @ [row],
                           audit_head := Some (n + 1, audit_event_hash pl m)\<rparr>)))"

definition insert_outbox :: "ControlPlaneDb \<Rightarrow> OutboxRecord \<Rightarrow> cp_error + ControlPlaneDb" where
  "insert_outbox db ob =
     (if ob_event_id ob \<in> set (map ob_event_id (outbox_rows db)) \<or>
         ob_revision ob \<in> set (map ob_revision (outbox_rows db)) then Raise IntegrityViolation
      else if \<not> outbox_row_fits ob then Raise DatabaseRejects
      else Ok (db\<lparr>outbox_rows := outbox_rows db @ [ob]\<rparr>))"

definition pg_commit ::
  "platform \<Rightarrow> ControlPlaneDb \<Rightarrow> call_env \<Rightarrow> int \<Rightarrow> document \<Rightarrow> AuditEvent \<Rightarrow> string \<Rightarrow> document \<Rightarrow> int
   \<Rightarrow> cp_error + ControlPlaneDb \<times> ControlPlaneRecord" where
  "pg_commit pl db env expected state a ty payload schema =
     (if expected < 0 then Raise (InvalidValue ''expected_revision'')
      else ebind (validate_state_schema schema) (\<lambda>_.
        case normalize_json_object state of
          None \<Rightarrow> Raise (InvalidValue ''state'')
        | Some st \<Rightarrow> (case normalize_json_object payload of
            None \<Rightarrow> Raise (InvalidValue ''event_payload'')
          | Some pay \<Rightarrow>
            let record = \<lparr>cr_revision = expected + 1, cr_schema_version = schema, cr_state = st,
                          cr_digest = canonical_state_digest pl st, cr_updated_at = env_now env\<rparr>;
                result =
                  ebind (cas_state db expected record) (\<lambda>db1.
                  ebind (append_audit_in_transaction pl db1 (env_audit_id env) a (Some (expected + 1))
                          (env_now env)) (\<lambda>db2.
                  insert_outbox db2 (new_outbox (env_outbox_id env) (expected + 1) ty
                    (notice_payload pay (expected + 1) schema (cr_digest record)) (env_now env)))) in
            case result of
              Inr db' \<Rightarrow> Ok (db', record)
            | Inl e \<Rightarrow>
                let actual = (case pg_latest_revision db of Some r \<Rightarrow> r | None \<Rightarrow> 0) in
                if e = IntegrityViolation \<and> actual \<noteq> expected
                then Raise (StateConflictError expected actual)
                else Raise e)))"

definition pg_append_audit ::
  "platform \<Rightarrow> ControlPlaneDb \<Rightarrow> call_env \<Rightarrow> AuditEvent \<Rightarrow> int option \<Rightarrow> cp_error + ControlPlaneDb" where
  "pg_append_audit pl db env a rv =
     (if (case rv of None \<Rightarrow> False
          | Some r \<Rightarrow> (case pg_latest_revision db of None \<Rightarrow> True | Some cur \<Rightarrow> cur < r))
      then Raise (InvalidValue ''audit revision must reference committed state'')
      else append_audit_in_transaction pl db (env_audit_id env) a rv (env_now env))"

text \<open>\<open>_public_audit_row\<close>: the material of a row with its hash.\<close>

definition row_material :: "platform \<Rightarrow> AuditRow \<Rightarrow> document option" where
  "row_material pl r =
     build_audit_material pl (ar_id r) (ar_sequence r) (ar_revision r) (ar_timestamp r)
       (ar_event r) (ar_previous_hash r)"

definition public_audit_row :: "platform \<Rightarrow> AuditRow \<Rightarrow> document" where
  "public_audit_row pl r =
     (case row_material pl r of Some m \<Rightarrow> m | None \<Rightarrow> []) @ [(''event_hash'', JStr (ar_event_hash r))]"

definition by_sequence :: "AuditRow list \<Rightarrow> AuditRow list" where
  "by_sequence rows = sort_key ar_sequence rows"

definition by_revision :: "OutboxRecord list \<Rightarrow> OutboxRecord list" where
  "by_revision rows = sort_key ob_revision rows"

text \<open>\<open>if action:\<close>: an empty filter is no filter.\<close>

definition sql_filter :: "string option \<Rightarrow> string \<Rightarrow> bool" where
  "sql_filter f v = (case f of None \<Rightarrow> True | Some x \<Rightarrow> x = [] \<or> v = x)"

definition pg_list_audit ::
  "platform \<Rightarrow> ControlPlaneDb \<Rightarrow> int \<Rightarrow> string option \<Rightarrow> string option \<Rightarrow> cp_error + document list" where
  "pg_list_audit pl db limit act rtype =
     (if limit < 1 then Raise (InvalidValue ''limit'')
      else Ok (map (public_audit_row pl) (take (nat limit) (rev (by_sequence (filter (\<lambda>r.
        sql_filter act (ae_action (ar_event r)) \<and> sql_filter rtype (ae_resource_type (ar_event r)))
        (audit_rows db)))))))"

definition pg_export_audit ::
  "platform \<Rightarrow> ControlPlaneDb \<Rightarrow> int \<Rightarrow> int \<Rightarrow> cp_error + document list" where
  "pg_export_audit pl db after limit =
     (if after < 0 then Raise (InvalidValue ''after_sequence'')
      else if limit < 1 then Raise (InvalidValue ''limit'')
      else Ok (map (public_audit_row pl)
        (take (nat limit) (by_sequence (filter (\<lambda>r. after < ar_sequence r) (audit_rows db))))))"

definition pg_list_outbox :: "ControlPlaneDb \<Rightarrow> int \<Rightarrow> int \<Rightarrow> cp_error + OutboxRecord list" where
  "pg_list_outbox db after limit =
     (if limit < 1 then Raise (InvalidValue ''limit'')
      else Ok (take (nat limit) (by_revision (filter (\<lambda>ob. after < ob_revision ob) (outbox_rows db)))))"

definition pg_list_unpublished :: "ControlPlaneDb \<Rightarrow> int \<Rightarrow> cp_error + OutboxRecord list" where
  "pg_list_unpublished db limit =
     (if limit < 1 then Raise (InvalidValue ''limit'')
      else Ok (take (nat limit) (by_revision (filter (\<lambda>ob. ob_published_at ob = None) (outbox_rows db)))))"

fun verify_rows :: "platform \<Rightarrow> AuditRow list \<Rightarrow> int \<Rightarrow> string \<Rightarrow> cp_error + string" where
  "verify_rows pl [] n prev = Ok prev"
| "verify_rows pl (r # rs) n prev =
     (if ar_sequence r \<noteq> n then Raise (AuditIntegrityError ''sequence gap'')
      else if ar_previous_hash r \<noteq> prev then Raise (AuditIntegrityError ''previous hash'')
      else case row_material pl r of
        None \<Rightarrow> Raise (InvalidValue ''audit.details'')
      | Some m \<Rightarrow>
          if ar_event_hash r \<noteq> audit_event_hash pl m then Raise (AuditIntegrityError ''event hash'')
          else verify_rows pl rs (n + 1) (audit_event_hash pl m))"

definition pg_verify_audit_chain :: "platform \<Rightarrow> ControlPlaneDb \<Rightarrow> cp_error + unit" where
  "pg_verify_audit_chain pl db =
     (case audit_head db of
        None \<Rightarrow> Raise (AuditIntegrityError ''head missing'')
      | Some (n, h) \<Rightarrow>
          ebind (verify_rows pl (by_sequence (audit_rows db)) 1 ZERO_AUDIT_HASH) (\<lambda>last.
            require (n = int (length (audit_rows db)) \<and> h = last) (AuditIntegrityError ''head'')))"

text \<open>\<open>UPDATE ... WHERE id = :id AND published_at IS NULL\<close>; the row count must be one.\<close>

definition update_where :: "('a \<Rightarrow> bool) \<Rightarrow> ('a \<Rightarrow> 'a) \<Rightarrow> 'a list \<Rightarrow> 'a list" where
  "update_where P f rows = map (\<lambda>r. if P r then f r else r) rows"

definition pg_mark_outbox_published :: "ControlPlaneDb \<Rightarrow> string \<Rightarrow> time \<Rightarrow> ControlPlaneDb \<times> bool" where
  "pg_mark_outbox_published db eid t =
     (db\<lparr>outbox_rows := update_where (pending_with_id eid) (delivered t) (outbox_rows db)\<rparr>,
      length (filter (pending_with_id eid) (outbox_rows db)) = 1)"

definition pg_record_outbox_failure :: "ControlPlaneDb \<Rightarrow> string \<Rightarrow> string \<Rightarrow> ControlPlaneDb \<times> bool" where
  "pg_record_outbox_failure db eid e =
     (db\<lparr>outbox_rows := update_where (pending_with_id eid) (failed_once e) (outbox_rows db)\<rparr>,
      length (filter (pending_with_id eid) (outbox_rows db)) = 1)"

section \<open>The audit chain\<close>

lemma verify_chain_append:
  "verify_chain pl (rows @ rest) n prev =
     ebind (verify_chain pl rows n prev) (verify_chain pl rest (n + int (length rows)))"
  by (induction rows arbitrary: n prev) (auto simp: Let_def algebra_simps)

lemma verify_chain_built:
  assumes "build_audit_material pl eid n rv t a prev = Some m"
  shows "verify_chain pl [m @ [(''event_hash'', JStr (audit_event_hash pl m))]] n prev =
    Ok (audit_event_hash pl m)"
  using material_fields [OF assms] by (simp add: Let_def map_add_def row_chain_material_def)

lemma verify_chain_Cons_Ok:
  "verify_chain pl (row # rows) n prev = Ok h \<longleftrightarrow>
     dget row ''sequence'' = Some (JInt n) \<and> dget row ''previous_hash'' = Some (JStr prev) \<and>
     dget row ''event_hash'' = Some (JStr (audit_event_hash pl (row_chain_material row))) \<and>
     verify_chain pl rows (n + 1) (audit_event_hash pl (row_chain_material row)) = Ok h"
  by (auto simp: Let_def)

text \<open>
  Two chains that verify from the same start to the same head, with as many rows, carry the
  same material when the digest has no collision among that material.
\<close>

lemma chain_head_determines:
  assumes "verify_chain pl rows n prev = Ok h" and "verify_chain pl rows' n prev' = Ok h"
    and "length rows = length rows'"
    and "inj_on (audit_event_hash pl) (row_chain_material ` (set rows \<union> set rows'))"
  shows "map row_chain_material rows = map row_chain_material rows' \<and> (rows \<noteq> [] \<longrightarrow> prev = prev')"
  using assms
proof (induction rows arbitrary: rows' n prev prev')
  case Nil
  then show ?case by simp
next
  case (Cons row rows)
  then obtain row' tail' where rows': "rows' = row' # tail'" by (cases rows') auto
  note v = Cons.prems(1) [unfolded verify_chain_Cons_Ok]
  note v' = Cons.prems(2) [unfolded rows' verify_chain_Cons_Ok]
  let ?m = "row_chain_material row" and ?m' = "row_chain_material row'"
  have inj: "inj_on (audit_event_hash pl) (row_chain_material ` (set rows \<union> set tail'))"
    using Cons.prems(4) by (rule inj_on_subset) (auto simp: rows')
  have IH: "map row_chain_material rows = map row_chain_material tail' \<and>
      (rows \<noteq> [] \<longrightarrow> audit_event_hash pl ?m = audit_event_hash pl ?m')"
    by (rule Cons.IH [OF _ _ _ inj]) (use v v' Cons.prems(3) rows' in auto)
  have hash: "audit_event_hash pl ?m = audit_event_hash pl ?m'"
  proof (cases "rows = []")
    case True
    then have "tail' = []" using Cons.prems(3) rows' by simp
    with True v v' show ?thesis by simp
  next
    case False
    with IH show ?thesis by blast
  qed
  then have "?m = ?m'"
    using inj_onD [OF Cons.prems(4), of ?m ?m'] rows' by simp
  moreover from this have "prev = prev'"
  proof -
    have keep: "dget (row_chain_material r) ''previous_hash'' = dget r ''previous_hash''" for r
      by (induction r) (auto simp: row_chain_material_def)
    show ?thesis using v v' keep [of row] keep [of row'] \<open>?m = ?m'\<close> by simp
  qed
  ultimately show ?case using IH rows' by simp
qed

section \<open>The invariant of the in-memory store\<close>

definition record_ok :: "platform \<Rightarrow> ControlPlaneRecord \<Rightarrow> bool" where
  "record_ok pl r \<longleftrightarrow> cr_schema_version r = CURRENT_STATE_SCHEMA_VERSION \<and>
     normalize_json_object (cr_state r) = Some (cr_state r) \<and>
     cr_digest r = canonical_state_digest pl (cr_state r)"

definition head_revision :: "ControlPlaneRecord option \<Rightarrow> int" where
  "head_revision r = (case r of Some x \<Rightarrow> cr_revision x | None \<Rightarrow> 0)"

definition revisions_upto :: "nat \<Rightarrow> int list" where
  "revisions_upto n = map (\<lambda>i. int (Suc i)) [0..<n]"

lemma revisions_upto_Suc: "revisions_upto (Suc n) = revisions_upto n @ [int n + 1]"
  by (simp add: revisions_upto_def)

lemma set_revisions_upto: "set (revisions_upto n) = {1..int n}"
proof (induction n)
  case 0
  show ?case by (simp add: revisions_upto_def)
next
  case (Suc n)
  have "{1..int (Suc n)} = insert (int n + 1) {1..int n}"
    by (rule set_eqI) (simp, linarith)
  with Suc show ?case by (simp add: revisions_upto_Suc)
qed

lemma sorted_revisions_upto: "sorted (revisions_upto n)"
  unfolding revisions_upto_def by (rule sorted_upt_int)

text \<open>
  The outbox announces exactly the revisions 1 to the head, the stored state is canonical and
  carries its digest, and the audit chain verifies.
\<close>

definition mem_inv :: "platform \<Rightarrow> MemStore \<Rightarrow> bool" where
  "mem_inv pl s \<longleftrightarrow>
     head_revision (mem_record s) = int (length (mem_outbox s)) \<and>
     map ob_revision (mem_outbox s) = revisions_upto (length (mem_outbox s)) \<and>
     (\<forall>r. mem_record s = Some r \<longrightarrow> 1 \<le> cr_revision r \<and> record_ok pl r) \<and>
     mem_verify_audit_chain pl s = Ok ()"

lemma mem_verify_iff:
  "mem_verify_audit_chain pl s = Ok u \<longleftrightarrow>
     verify_chain pl (mem_audit s) 1 ZERO_AUDIT_HASH = Ok (mem_audit_hash s)"
  by (auto simp: mem_verify_audit_chain_def ebind_eq_Ok)

lemma mem_inv_empty: "mem_inv pl mem_empty"
  by (simp add: mem_inv_def mem_empty_def head_revision_def revisions_upto_def mem_verify_iff)

lemma mem_audit_extends:
  assumes "mem_verify_audit_chain pl s = Ok ()"
    and "mem_build_audit_record pl s eid a rv now = Some (row, h)"
  shows "verify_chain pl (mem_audit s @ [row]) 1 ZERO_AUDIT_HASH = Ok h"
proof -
  from assms(2) obtain m where
    m: "build_audit_material pl eid (int (length (mem_audit s)) + 1) rv now a (mem_audit_hash s) = Some m"
    and row: "row = m @ [(''event_hash'', JStr (audit_event_hash pl m))]" "h = audit_event_hash pl m"
    by (auto simp: mem_build_audit_record_def)
  show ?thesis
    unfolding verify_chain_append row
    using assms(1) verify_chain_built [OF m] by (simp add: mem_verify_iff add.commute)
qed

lemma mem_commit_OkD:
  assumes "mem_commit pl s env e st a ty pay v = Ok (s', rec)"
  shows "v = CURRENT_STATE_SCHEMA_VERSION" and "head_revision (mem_record s) = e"
    and "\<exists>st' pay' row h. normalize_json_object st = Some st' \<and> normalize_json_object pay = Some pay' \<and>
      rec = \<lparr>cr_revision = e + 1, cr_schema_version = v, cr_state = st',
             cr_digest = canonical_state_digest pl st', cr_updated_at = env_now env\<rparr> \<and>
      mem_build_audit_record pl s (env_audit_id env) a (Some (e + 1)) (env_now env) = Some (row, h) \<and>
      s' = s\<lparr>mem_record := Some rec, mem_audit := mem_audit s @ [row], mem_audit_hash := h,
             mem_outbox := mem_outbox s @ [new_outbox (env_outbox_id env) (e + 1) ty
                (notice_payload pay' (e + 1) v (cr_digest rec)) (env_now env)]\<rparr>"
  using assms
  by (auto simp: mem_commit_def head_revision_def Let_def split: if_splits option.splits)

lemma mem_inv_commit:
  assumes "mem_inv pl s" and "mem_commit pl s env e st a ty pay v = Ok (s', rec)"
  shows "mem_inv pl s'"
proof -
  from mem_commit_OkD(3) [OF assms(2)] obtain st' pay' row h where
    st': "normalize_json_object st = Some st'" and
    rec: "rec = \<lparr>cr_revision = e + 1, cr_schema_version = v, cr_state = st',
             cr_digest = canonical_state_digest pl st', cr_updated_at = env_now env\<rparr>" and
    row: "mem_build_audit_record pl s (env_audit_id env) a (Some (e + 1)) (env_now env) = Some (row, h)" and
    s': "s' = s\<lparr>mem_record := Some rec, mem_audit := mem_audit s @ [row], mem_audit_hash := h,
             mem_outbox := mem_outbox s @ [new_outbox (env_outbox_id env) (e + 1) ty
                (notice_payload pay' (e + 1) v (cr_digest rec)) (env_now env)]\<rparr>"
    by blast
  have e: "e = int (length (mem_outbox s))"
    using assms(1) mem_commit_OkD(2) [OF assms(2)] by (simp add: mem_inv_def)
  have "record_ok pl rec"
    using mem_commit_OkD(1) [OF assms(2)] normalize_idem [OF st'] by (simp add: rec record_ok_def)
  moreover have "mem_verify_audit_chain pl s' = Ok ()"
    using mem_audit_extends [OF _ row] assms(1) by (simp add: mem_inv_def mem_verify_iff s')
  ultimately show ?thesis
    using assms(1) by (simp add: mem_inv_def s' rec e head_revision_def revisions_upto_Suc new_outbox_def)
qed

lemma mem_inv_append_audit:
  assumes "mem_inv pl s" and "mem_append_audit pl s env a rv = Ok s'"
  shows "mem_inv pl s'"
proof -
  from assms(2) obtain row h where
    "mem_build_audit_record pl s (env_audit_id env) a rv (env_now env) = Some (row, h)"
    "s' = s\<lparr>mem_audit := mem_audit s @ [row], mem_audit_hash := h\<rparr>"
    by (auto simp: mem_append_audit_def split: option.splits)
  with mem_audit_extends assms(1) show ?thesis by (auto simp: mem_inv_def mem_verify_iff)
qed

lemma outbox_update_revisions:
  "update_first (pending_with_id eid) f xs = Some ys \<Longrightarrow> f = delivered t \<or> f = failed_once e \<Longrightarrow>
   map ob_revision ys = map ob_revision xs \<and> length ys = length xs"
  by (frule update_first_length, drule update_first_map [where g = ob_revision])
    (auto simp: delivered_def failed_once_def)

lemma mem_inv_mark: "mem_inv pl s \<Longrightarrow> mem_inv pl (fst (mem_mark_outbox_published s eid t))"
  by (auto simp: mem_inv_def mem_mark_outbox_published_def mem_verify_audit_chain_def
      dest!: outbox_update_revisions split: option.splits)

lemma mem_inv_failure: "mem_inv pl s \<Longrightarrow> mem_inv pl (fst (mem_record_outbox_failure s eid e))"
  by (auto simp: mem_inv_def mem_record_outbox_failure_def mem_verify_audit_chain_def
      dest!: outbox_update_revisions split: option.splits)

section \<open>The tables refine the in-memory store\<close>

text \<open>The rows as the in-memory store holds them.\<close>

definition abs_db :: "platform \<Rightarrow> ControlPlaneDb \<Rightarrow> MemStore" where
  "abs_db pl db = \<lparr>mem_record = state_row db, mem_audit = map (public_audit_row pl) (audit_rows db),
     mem_outbox = outbox_rows db, mem_audit_hash = snd (the (audit_head db))\<rparr>"

definition db_inv :: "platform \<Rightarrow> ControlPlaneDb \<Rightarrow> bool" where
  "db_inv pl db \<longleftrightarrow>
     mem_inv pl (abs_db pl db) \<and>
     (\<exists>h. audit_head db = Some (int (length (audit_rows db)), h)) \<and>
     map ar_sequence (audit_rows db) = revisions_upto (length (audit_rows db)) \<and>
     (\<forall>r \<in> set (audit_rows db). normalize_json_object (ae_details (ar_event r)) = Some (ae_details (ar_event r))) \<and>
     distinct (map ob_event_id (outbox_rows db))"

lemma db_inv_migrated: "db_inv pl migrated_db"
  by (simp add: db_inv_def migrated_db_def abs_db_def revisions_upto_def mem_inv_def head_revision_def
      mem_verify_iff)

lemma append_audit_refines:
  assumes "db_inv pl db" and "append_audit_in_transaction pl db1 eid a rv now = Ok db'"
    and "audit_rows db1 = audit_rows db" and "audit_head db1 = audit_head db"
  shows "\<exists>r h. db' = db1\<lparr>audit_rows := audit_rows db @ [r],
            audit_head := Some (int (length (audit_rows db)) + 1, h)\<rparr> \<and>
      mem_build_audit_record pl (abs_db pl db) eid a rv now = Some (public_audit_row pl r, h) \<and>
      ar_sequence r = int (length (audit_rows db)) + 1 \<and>
      normalize_json_object (ae_details (ar_event r)) = Some (ae_details (ar_event r))"
proof -
  obtain h0 where head: "audit_head db = Some (int (length (audit_rows db)), h0)"
    using assms(1) by (auto simp: db_inv_def)
  from assms(2) obtain m where
    m: "build_audit_material pl eid (int (length (audit_rows db)) + 1) rv now a h0 = Some m" and
    db': "db' = db1\<lparr>audit_rows := audit_rows db @ [\<lparr>ar_id = eid,
          ar_sequence = int (length (audit_rows db)) + 1, ar_revision = rv, ar_timestamp = now,
          ar_event = a\<lparr>ae_details := the (normalize_json_object (ae_details a))\<rparr>,
          ar_previous_hash = h0, ar_event_hash = audit_event_hash pl m\<rparr>],
        audit_head := Some (int (length (audit_rows db)) + 1, audit_event_hash pl m)\<rparr>"
    by (auto simp: append_audit_in_transaction_def assms(3,4) head Let_def split: option.splits if_splits)
  from m obtain d where d: "normalize_json_object (ae_details a) = Some d"
    by (auto simp: build_audit_material_def)
  let ?r = "\<lparr>ar_id = eid, ar_sequence = int (length (audit_rows db)) + 1, ar_revision = rv,
     ar_timestamp = now, ar_event = a\<lparr>ae_details := d\<rparr>, ar_previous_hash = h0,
     ar_event_hash = audit_event_hash pl m\<rparr>"
  have "row_material pl ?r = Some m"
    using m normalize_idem [OF d] d by (simp add: row_material_def build_audit_material_def)
  then have "mem_build_audit_record pl (abs_db pl db) eid a rv now =
      Some (public_audit_row pl ?r, audit_event_hash pl m)"
    using m by (simp add: mem_build_audit_record_def abs_db_def head public_audit_row_def)
  with db' d normalize_idem [OF d] show ?thesis by auto
qed

lemma pg_commit_OkD:
  assumes "pg_commit pl db env e st a ty pay v = Ok (db', rec)"
  shows "0 \<le> e" and "v = CURRENT_STATE_SCHEMA_VERSION" and "head_revision (state_row db) = e"
    and "\<exists>st' pay' db2. normalize_json_object st = Some st' \<and> normalize_json_object pay = Some pay' \<and>
      rec = \<lparr>cr_revision = e + 1, cr_schema_version = v, cr_state = st',
             cr_digest = canonical_state_digest pl st', cr_updated_at = env_now env\<rparr> \<and>
      append_audit_in_transaction pl (db\<lparr>state_row := Some rec\<rparr>) (env_audit_id env) a (Some (e + 1))
        (env_now env) = Ok db2 \<and>
      env_outbox_id env \<notin> set (map ob_event_id (outbox_rows db2)) \<and>
      db' = db2\<lparr>outbox_rows := outbox_rows db2 @ [new_outbox (env_outbox_id env) (e + 1) ty
                (notice_payload pay' (e + 1) v (cr_digest rec)) (env_now env)]\<rparr>"
  using assms
  by (auto simp: pg_commit_def cas_state_def insert_outbox_def validate_state_schema_def
      head_revision_def Let_def new_outbox_def ebind_eq_Ok
      split: if_splits option.splits sum.splits)

lemma pg_commit_refines:
  assumes "db_inv pl db" and "pg_commit pl db env e st a ty pay v = Ok (db', rec)"
  shows "mem_commit pl (abs_db pl db) env e st a ty pay v = Ok (abs_db pl db', rec)" and "db_inv pl db'"
proof -
  from pg_commit_OkD(4) [OF assms(2)] obtain st' pay' db2 where
    st': "normalize_json_object st = Some st'" "normalize_json_object pay = Some pay'" and
    rec: "rec = \<lparr>cr_revision = e + 1, cr_schema_version = v, cr_state = st',
             cr_digest = canonical_state_digest pl st', cr_updated_at = env_now env\<rparr>" and
    app: "append_audit_in_transaction pl (db\<lparr>state_row := Some rec\<rparr>) (env_audit_id env) a
        (Some (e + 1)) (env_now env) = Ok db2" and
    fresh: "env_outbox_id env \<notin> set (map ob_event_id (outbox_rows db2))" and
    db': "db' = db2\<lparr>outbox_rows := outbox_rows db2 @ [new_outbox (env_outbox_id env) (e + 1) ty
                (notice_payload pay' (e + 1) v (cr_digest rec)) (env_now env)]\<rparr>"
    by blast
  from append_audit_refines [OF assms(1) app] obtain r h where
    db2: "db2 = db\<lparr>state_row := Some rec, audit_rows := audit_rows db @ [r],
            audit_head := Some (int (length (audit_rows db)) + 1, h)\<rparr>" and
    row: "mem_build_audit_record pl (abs_db pl db) (env_audit_id env) a (Some (e + 1)) (env_now env) =
      Some (public_audit_row pl r, h)" and
    r: "ar_sequence r = int (length (audit_rows db)) + 1"
      "normalize_json_object (ae_details (ar_event r)) = Some (ae_details (ar_event r))"
    by auto
  have "head_revision (state_row db) = e" "v = CURRENT_STATE_SCHEMA_VERSION"
    using pg_commit_OkD(2,3) [OF assms(2)] by simp_all
  then have actual: "(case mem_record (abs_db pl db) of Some r \<Rightarrow> cr_revision r | None \<Rightarrow> 0) = e"
    and v: "v = CURRENT_STATE_SCHEMA_VERSION"
    by (simp_all add: abs_db_def head_revision_def)
  show commit: "mem_commit pl (abs_db pl db) env e st a ty pay v = Ok (abs_db pl db', rec)"
    unfolding mem_commit_def
    using actual row v by (simp add: st' Let_def rec db' db2) (simp add: abs_db_def)
  have "mem_inv pl (abs_db pl db')"
    using mem_inv_commit [OF _ commit] assms(1) by (simp add: db_inv_def)
  then show "db_inv pl db'"
    using assms(1) r fresh by (auto simp: db_inv_def db' db2 revisions_upto_Suc new_outbox_def)
qed

lemma pg_commit_conflict_refines:
  assumes "db_inv pl db" and "pg_commit pl db env e st a ty pay v = Raise (StateConflictError x y)"
  shows "mem_commit pl (abs_db pl db) env e st a ty pay v = Raise (StateConflictError x y)"
proof -
  have head: "head_revision (state_row db) = int (length (outbox_rows db))"
    using assms(1) by (simp add: db_inv_def mem_inv_def abs_db_def)
  show ?thesis
  using assms(2) head
  by (auto simp: pg_commit_def mem_commit_def cas_state_def insert_outbox_def validate_state_schema_def
      append_audit_in_transaction_def require_def pg_latest_revision_def
      head_revision_def Let_def abs_db_def ebind_eq_Raise
      split: if_splits option.splits sum.splits)
qed

lemma pg_append_refines:
  assumes "db_inv pl db" and "pg_append_audit pl db env a rv = Ok db'"
  shows "mem_append_audit pl (abs_db pl db) env a rv = Ok (abs_db pl db')" and "db_inv pl db'"
proof -
  have "append_audit_in_transaction pl db (env_audit_id env) a rv (env_now env) = Ok db'"
    using assms(2) by (auto simp: pg_append_audit_def split: if_splits)
  from append_audit_refines [OF assms(1) this] obtain r h where
    db': "db' = db\<lparr>audit_rows := audit_rows db @ [r],
            audit_head := Some (int (length (audit_rows db)) + 1, h)\<rparr>" and
    row: "mem_build_audit_record pl (abs_db pl db) (env_audit_id env) a rv (env_now env) =
      Some (public_audit_row pl r, h)" and
    r: "ar_sequence r = int (length (audit_rows db)) + 1"
      "normalize_json_object (ae_details (ar_event r)) = Some (ae_details (ar_event r))"
    by auto
  show app: "mem_append_audit pl (abs_db pl db) env a rv = Ok (abs_db pl db')"
    using row by (simp add: mem_append_audit_def db' abs_db_def)
  have "mem_inv pl (abs_db pl db')"
    using mem_inv_append_audit [OF _ app] assms(1) by (simp add: db_inv_def)
  then show "db_inv pl db'"
    using assms(1) r by (auto simp: db_inv_def db' revisions_upto_Suc)
qed

lemma outbox_update_refines:
  assumes "distinct (map ob_event_id rows)"
  shows "update_first (pending_with_id eid) f rows =
    (if length (filter (pending_with_id eid) rows) = 1
     then Some (update_where (pending_with_id eid) f rows) else None)"
    and "length (filter (pending_with_id eid) rows) \<noteq> 1 \<Longrightarrow>
      update_where (pending_with_id eid) f rows = rows"
proof -
  have unique: "update_first (pending_with_id eid) f rows =
      (if \<exists>x \<in> set rows. pending_with_id eid x
       then Some (update_where (pending_with_id eid) f rows) else None)"
    unfolding update_where_def
    by (rule update_first_unique [OF assms]) (simp add: pending_with_id_def)
  have "length (filter (pending_with_id eid) rows) \<le> 1"
    using assms
  proof (induction rows)
    case (Cons x xs)
    show ?case
    proof (cases "pending_with_id eid x")
      case True
      with Cons.prems have "filter (pending_with_id eid) xs = []"
        by (auto simp: filter_empty_conv pending_with_id_def image_iff)
      with True show ?thesis by simp
    next
      case False
      with Cons show ?thesis by simp
    qed
  qed simp
  then have one: "(length (filter (pending_with_id eid) rows) = 1) =
      (\<exists>x \<in> set rows. pending_with_id eid x)"
    by (metis One_nat_def Suc_leI filter_empty_conv le_antisym length_0_conv length_greater_0_conv
        zero_neq_one)
  with unique show "update_first (pending_with_id eid) f rows =
    (if length (filter (pending_with_id eid) rows) = 1
     then Some (update_where (pending_with_id eid) f rows) else None)" by simp
  show "update_where (pending_with_id eid) f rows = rows"
    if "length (filter (pending_with_id eid) rows) \<noteq> 1"
    unfolding update_where_def using that one by (intro map_upd_eq) auto
qed

lemma pg_mark_refines:
  assumes "db_inv pl db"
  shows "mem_mark_outbox_published (abs_db pl db) eid t =
    (abs_db pl (fst (pg_mark_outbox_published db eid t)), snd (pg_mark_outbox_published db eid t))"
  using assms
  by (auto simp: mem_mark_outbox_published_def pg_mark_outbox_published_def abs_db_def db_inv_def
      outbox_update_refines)

lemma pg_failure_refines:
  assumes "db_inv pl db"
  shows "mem_record_outbox_failure (abs_db pl db) eid e =
    (abs_db pl (fst (pg_record_outbox_failure db eid e)), snd (pg_record_outbox_failure db eid e))"
  using assms
  by (auto simp: mem_record_outbox_failure_def pg_record_outbox_failure_def abs_db_def db_inv_def
      outbox_update_refines)

lemma update_where_key:
  "(\<And>r. g (f r) = g r) \<Longrightarrow> map g (update_where P f rows) = map g rows"
  by (induction rows) (auto simp: update_where_def)

lemma update_where_ids:
  "map ob_event_id (update_where P (delivered t) rows) = map ob_event_id rows"
  "map ob_event_id (update_where P (failed_once e) rows) = map ob_event_id rows"
  by (rule update_where_key, simp add: delivered_def failed_once_def)+

lemma db_inv_mark: "db_inv pl db \<Longrightarrow> db_inv pl (fst (pg_mark_outbox_published db eid t))"
  using mem_inv_mark [of pl "abs_db pl db" eid t] pg_mark_refines [of pl db eid t]
  by (simp add: db_inv_def pg_mark_outbox_published_def update_where_ids)

lemma db_inv_failure: "db_inv pl db \<Longrightarrow> db_inv pl (fst (pg_record_outbox_failure db eid e))"
  using mem_inv_failure [of pl "abs_db pl db" eid e] pg_failure_refines [of pl db eid e]
  by (simp add: db_inv_def pg_record_outbox_failure_def update_where_ids)

section \<open>The store contract\<close>

text \<open>
  \<open>ControlPlaneStore\<close>: what the clients of a store rely on. A successful commit moves the
  head from the expected revision to the next one, is what the next load returns and announces
  itself in one new pending outbox record; a failed call returns no new store.
\<close>

definition head_of :: "int option \<Rightarrow> int" where
  "head_of r = (case r of Some x \<Rightarrow> x | None \<Rightarrow> 0)"

locale control_plane_store =
  fixes latest :: "'s \<Rightarrow> int option"
    and load :: "'s \<Rightarrow> cp_error + ControlPlaneRecord option"
    and commit :: "'s \<Rightarrow> call_env \<Rightarrow> int \<Rightarrow> document \<Rightarrow> AuditEvent \<Rightarrow> string \<Rightarrow> document \<Rightarrow> int
      \<Rightarrow> cp_error + 's \<times> ControlPlaneRecord"
    and outbox :: "'s \<Rightarrow> OutboxRecord list"
    and inv :: "'s \<Rightarrow> bool"
  assumes commit_inv: "inv s \<Longrightarrow> commit s env e st a ty pay v = Ok (s', rec) \<Longrightarrow> inv s'"
    and commit_cas: "inv s \<Longrightarrow> commit s env e st a ty pay v = Ok (s', rec) \<Longrightarrow>
      head_of (latest s) = e \<and> latest s' = Some (e + 1) \<and> cr_revision rec = e + 1"
    and commit_loads: "inv s \<Longrightarrow> commit s env e st a ty pay v = Ok (s', rec) \<Longrightarrow>
      load s' = Ok (Some rec) \<and> normalize_json_object st = Some (cr_state rec)"
    and commit_announces: "inv s \<Longrightarrow> commit s env e st a ty pay v = Ok (s', rec) \<Longrightarrow>
      \<exists>ob. outbox s' = outbox s @ [ob] \<and> ob_revision ob = e + 1 \<and> ob_published_at ob = None"
    and load_latest: "inv s \<Longrightarrow> load s = Ok r \<Longrightarrow> latest s = map_option cr_revision r"
begin

text \<open>Of two commits that expect the same revision, the second is refused.\<close>

lemma one_winner:
  assumes "inv s" and "commit s env e st a ty pay v = Ok (s1, r1)"
  shows "commit s1 env' e st' a' ty' pay' v' \<noteq> Ok (s2, r2)"
proof
  assume "commit s1 env' e st' a' ty' pay' v' = Ok (s2, r2)"
  from commit_cas [OF commit_inv [OF assms] this] commit_cas [OF assms]
  show False by (simp add: head_of_def)
qed

end

lemma mem_load_latest: "mem_load s = Ok r \<Longrightarrow> mem_latest_revision s = map_option cr_revision r"
  by (auto simp: mem_load_def mem_latest_revision_def)

lemma head_of_latest:
  "head_of (mem_latest_revision s) = head_revision (mem_record s)"
  "head_of (pg_latest_revision db) = head_revision (state_row db)"
  by (auto simp: head_of_def mem_latest_revision_def pg_latest_revision_def head_revision_def
      split: option.splits)

interpretation mem_store: control_plane_store mem_latest_revision mem_load "mem_commit pl" mem_outbox "mem_inv pl"
proof
  fix s env e st a ty pay v s' rec
  assume inv: "mem_inv pl s" and ok: "mem_commit pl s env e st a ty pay v = Ok (s', rec)"
  from mem_inv_commit [OF this] show "mem_inv pl s'" .
  from mem_commit_OkD(2,3) [OF ok]
  show "head_of (mem_latest_revision s) = e \<and> mem_latest_revision s' = Some (e + 1) \<and> cr_revision rec = e + 1"
    and "mem_load s' = Ok (Some rec) \<and> normalize_json_object st = Some (cr_state rec)"
    and "\<exists>ob. mem_outbox s' = mem_outbox s @ [ob] \<and> ob_revision ob = e + 1 \<and> ob_published_at ob = None"
    unfolding head_of_latest
    by (auto simp: mem_latest_revision_def mem_load_def new_outbox_def)
qed (rule mem_load_latest)

lemma record_from_row_ok: "record_ok pl r \<Longrightarrow> record_from_row pl r = Ok r"
  by (simp add: record_ok_def record_from_row_def validate_state_schema_def)

lemma pg_load_committed: "db_inv pl db \<Longrightarrow> pg_load pl db = Ok (state_row db)"
  by (auto simp: pg_load_def db_inv_def mem_inv_def abs_db_def record_from_row_ok split: option.splits)

interpretation pg_store: control_plane_store pg_latest_revision "pg_load pl" "pg_commit pl" outbox_rows "db_inv pl"
proof
  fix db env e st a ty pay v db' rec
  assume inv: "db_inv pl db" and ok: "pg_commit pl db env e st a ty pay v = Ok (db', rec)"
  note mem = pg_commit_refines(1) [OF inv ok]
  have mem_inv: "mem_inv pl (abs_db pl db)" using inv by (simp add: db_inv_def)
  from pg_commit_refines(2) [OF inv ok] show inv': "db_inv pl db'" .
  from mem_store.commit_cas [OF mem_inv mem]
  show "head_of (pg_latest_revision db) = e \<and> pg_latest_revision db' = Some (e + 1) \<and> cr_revision rec = e + 1"
    by (simp add: mem_latest_revision_def pg_latest_revision_def abs_db_def)
  from mem_store.commit_loads [OF mem_inv mem]
  show "pg_load pl db' = Ok (Some rec) \<and> normalize_json_object st = Some (cr_state rec)"
    by (simp add: pg_load_committed [OF inv'] mem_load_def abs_db_def)
  from mem_store.commit_announces [OF mem_inv mem]
  show "\<exists>ob. outbox_rows db' = outbox_rows db @ [ob] \<and> ob_revision ob = e + 1 \<and> ob_published_at ob = None"
    by (simp add: abs_db_def)
next
  fix db r assume "db_inv pl db" and "pg_load pl db = Ok r"
  then show "pg_latest_revision db = map_option cr_revision r"
    by (simp add: pg_load_committed pg_latest_revision_def)
qed

section \<open>Properties of the control plane\<close>

text \<open>The databases that the operations of the store can produce from the migrated one.\<close>

inductive db_reachable :: "platform \<Rightarrow> ControlPlaneDb \<Rightarrow> bool" for pl where
  Migrated: "db_reachable pl migrated_db"
| Committed: "db_reachable pl db \<Longrightarrow> pg_commit pl db env e st a ty pay v = Ok (db', rec) \<Longrightarrow> db_reachable pl db'"
| Audited: "db_reachable pl db \<Longrightarrow> pg_append_audit pl db env a rv = Ok db' \<Longrightarrow> db_reachable pl db'"
| Published: "db_reachable pl db \<Longrightarrow> db_reachable pl (fst (pg_mark_outbox_published db eid t))"
| PublishFailed: "db_reachable pl db \<Longrightarrow> db_reachable pl (fst (pg_record_outbox_failure db eid e))"

lemma db_reachable_inv: "db_reachable pl db \<Longrightarrow> db_inv pl db"
  by (induction rule: db_reachable.induct)
    (auto intro: db_inv_migrated pg_commit_refines pg_append_refines db_inv_mark db_inv_failure)

lemma by_sequence_id: "db_inv pl db \<Longrightarrow> by_sequence (audit_rows db) = audit_rows db"
  unfolding by_sequence_def
  by (rule sort_key_id_if_sorted) (simp add: db_inv_def sorted_revisions_upto)

text \<open>The columns of a row and its public document verify alike.\<close>

lemma verify_rows_chain:
  "verify_rows pl rs n prev = Ok h \<Longrightarrow>
     verify_chain pl (map (public_audit_row pl) rs) n prev = Ok h \<and>
     map (public_audit_row pl) rs =
       map (\<lambda>m. m @ [(''event_hash'', JStr (audit_event_hash pl m))])
         (map row_chain_material (map (public_audit_row pl) rs))"
proof (induction pl rs n prev rule: verify_rows.induct)
  case (2 pl r rs n prev)
  then obtain m where m: "row_material pl r = Some m" "ar_sequence r = n" "ar_previous_hash r = prev"
    "ar_event_hash r = audit_event_hash pl m" "verify_rows pl rs (n + 1) (audit_event_hash pl m) = Ok h"
    by (auto split: if_splits option.splits)
  have IH: "verify_chain pl (map (public_audit_row pl) rs) (n + 1) (audit_event_hash pl m) = Ok h \<and>
     map (public_audit_row pl) rs =
       map (\<lambda>m. m @ [(''event_hash'', JStr (audit_event_hash pl m))])
         (map row_chain_material (map (public_audit_row pl) rs))"
    using 2 m by simp
  have row: "public_audit_row pl r = m @ [(''event_hash'', JStr (audit_event_hash pl m))]"
    using m by (simp add: public_audit_row_def)
  note fields = material_fields [OF m(1) [unfolded row_material_def]]
  have mat: "row_chain_material (public_audit_row pl r) = m"
    unfolding row row_chain_material_def by (rule fields(3))
  show ?case
    using IH fields mat m by (simp add: row map_add_def Let_def)
qed simp

lemma verify_rows_of_chain:
  assumes "\<forall>r \<in> set rs. normalize_json_object (ae_details (ar_event r)) = Some (ae_details (ar_event r))"
    and "verify_chain pl (map (public_audit_row pl) rs) n prev = Ok h"
  shows "verify_rows pl rs n prev = Ok h"
  using assms
proof (induction rs arbitrary: n prev)
  case (Cons r rs)
  obtain m where m: "row_material pl r = Some m"
    using Cons.prems(1) by (auto simp: row_material_def build_audit_material_def)
  note fields = material_fields [OF m [unfolded row_material_def]]
  have row: "public_audit_row pl r = m @ [(''event_hash'', JStr (ar_event_hash r))]"
    using m by (simp add: public_audit_row_def)
  have mat: "row_chain_material (public_audit_row pl r) = m"
    unfolding row row_chain_material_def by (rule fields(3))
  show ?case
    using Cons m fields mat by (simp add: row map_add_def Let_def split: if_splits)
qed simp

text \<open>The head of a coherent database is the verified end of its chain.\<close>

lemma db_inv_verified:
  assumes "db_inv pl db"
  shows "\<exists>h. audit_head db = Some (int (length (audit_rows db)), h) \<and>
    verify_rows pl (audit_rows db) 1 ZERO_AUDIT_HASH = Ok h"
proof -
  from assms obtain h where head: "audit_head db = Some (int (length (audit_rows db)), h)"
    by (auto simp: db_inv_def)
  then show ?thesis
    using assms verify_rows_of_chain [of "audit_rows db" pl 1 ZERO_AUDIT_HASH h]
    by (simp add: db_inv_def mem_inv_def mem_verify_iff abs_db_def)
qed


definition sample_platform :: platform where
  "sample_platform = \<lparr>sha256 = (\<lambda>s. take 64 (s @ replicate 64 CHR ''0'')), float_text = (\<lambda>_. ''0.0''),
     iso_text = (\<lambda>t. int_str t)\<rparr>"


lemma sample_sha_length [simp]: "length (sha256 sample_platform s) = 64"
  by (simp add: sample_platform_def)

definition sample_event :: AuditEvent where
  "sample_event = \<lparr>ae_actor = ''ops'', ae_action = ''set'', ae_resource_type = ''rule'',
     ae_resource_id = ''books'', ae_status = ''success'', ae_request_id = [], ae_details = []\<rparr>"

definition sample_env :: call_env where
  "sample_env = \<lparr>env_now = 5, env_audit_id = ''a1'', env_outbox_id = ''o1''\<rparr>"

lemma zero_hash_length [simp]: "length ZERO_AUDIT_HASH = 64"
  by (simp add: ZERO_AUDIT_HASH_def)

lemma sample_commit:
  "\<exists>db rec. pg_commit sample_platform migrated_db sample_env 0 [] sample_event ''set'' [] 1 = Ok (db, rec) \<and>
     cr_revision rec = 1"
  by (simp add: pg_commit_def migrated_db_def validate_state_schema_def CURRENT_STATE_SCHEMA_VERSION_def
      normalize_json_object_def cas_state_def state_row_fits_def canonical_state_digest_def bigint_def
      append_audit_in_transaction_def build_audit_material_def sample_event_def sample_env_def Let_def
      audit_row_fits_def audit_event_hash_def insert_outbox_def outbox_row_fits_def new_outbox_def)




text \<open>
  C22. The audit log is tamper-evident: two tables that both verify and end in the same head
  (sequence and hash) hold the same audit rows, provided the digest has no collision among the
  material of those rows. Changing, dropping, inserting or reordering a past event therefore
  changes the head or fails verification.
\<close>

theorem audit_tamper_evident:
  assumes "pg_verify_audit_chain pl db = Ok ()" and "pg_verify_audit_chain pl db' = Ok ()"
    and "audit_head db = audit_head db'"
    and "inj_on (audit_event_hash pl)
      (row_chain_material ` public_audit_row pl ` (set (audit_rows db) \<union> set (audit_rows db')))"
  shows "map (public_audit_row pl) (by_sequence (audit_rows db)) =
    map (public_audit_row pl) (by_sequence (audit_rows db'))"
proof -
  let ?p = "public_audit_row pl" and ?r = "by_sequence (audit_rows db)" and ?r' = "by_sequence (audit_rows db')"
  from assms(1) obtain n h where head: "audit_head db = Some (n, h)"
    and v: "verify_rows pl ?r 1 ZERO_AUDIT_HASH = Ok h" and n: "n = int (length (audit_rows db))"
    by (auto simp: pg_verify_audit_chain_def ebind_eq_Ok split: option.splits)
  from head assms(3) have "audit_head db' = Some (n, h)" by simp
  with assms(2) have v': "verify_rows pl ?r' 1 ZERO_AUDIT_HASH = Ok h"
    and n': "n = int (length (audit_rows db'))"
    by (auto simp: pg_verify_audit_chain_def ebind_eq_Ok)
  have len: "length (map ?p ?r) = length (map ?p ?r')"
    using n n' by (simp add: by_sequence_def)
  have inj: "inj_on (audit_event_hash pl) (row_chain_material ` (set (map ?p ?r) \<union> set (map ?p ?r')))"
    using assms(4) by (simp add: by_sequence_def image_Un)
  have "map row_chain_material (map ?p ?r) = map row_chain_material (map ?p ?r')"
    using chain_head_determines [OF _ _ len inj] verify_rows_chain [OF v] verify_rows_chain [OF v'] by blast
  then show ?thesis using verify_rows_chain [OF v] verify_rows_chain [OF v'] by metis
qed

lemma verify_ignores_outbox:
  "pg_verify_audit_chain pl (db\<lparr>outbox_rows := obs\<rparr>) = pg_verify_audit_chain pl db"
  by (cases "audit_head db") (auto simp: pg_verify_audit_chain_def)

theorem audit_tamper_evident_witness:
  "\<exists>db rec. pg_commit sample_platform migrated_db sample_env 0 [] sample_event ''set'' [] 1 = Ok (db, rec) \<and>
     audit_rows db \<noteq> [] \<and>
     map (public_audit_row sample_platform) (by_sequence (audit_rows db)) =
     map (public_audit_row sample_platform) (by_sequence (audit_rows (db\<lparr>outbox_rows := []\<rparr>)))"
proof -
  obtain db rec where ok:
    "pg_commit sample_platform migrated_db sample_env 0 [] sample_event ''set'' [] 1 = Ok (db, rec)"
    using sample_commit by blast
  have inv: "db_inv sample_platform db" using pg_commit_refines(2) [OF db_inv_migrated ok] .
  from pg_commit_OkD(4) [OF ok] obtain db2 where
    "append_audit_in_transaction sample_platform (migrated_db\<lparr>state_row := Some rec\<rparr>) (env_audit_id sample_env)
        sample_event (Some 1) (env_now sample_env) = Ok db2" "audit_rows db = audit_rows db2" by auto
  then obtain r where rows: "audit_rows db = [r]"
    by (auto simp: append_audit_in_transaction_def migrated_db_def Let_def split: option.splits if_splits)
  have "pg_verify_audit_chain sample_platform db = Ok ()"
  proof -
    obtain h where head: "audit_head db = Some (int (length (audit_rows db)), h)"
      using inv by (auto simp: db_inv_def)
    then have "verify_rows sample_platform (audit_rows db) 1 ZERO_AUDIT_HASH = Ok h"
      using inv verify_rows_of_chain [of "audit_rows db" sample_platform 1 ZERO_AUDIT_HASH h]
      by (simp add: db_inv_def mem_inv_def mem_verify_iff abs_db_def)
    then show ?thesis by (simp add: pg_verify_audit_chain_def head by_sequence_id [OF inv])
  qed
  then have "map (public_audit_row sample_platform) (by_sequence (audit_rows db)) =
     map (public_audit_row sample_platform) (by_sequence (audit_rows (db\<lparr>outbox_rows := []\<rparr>)))"
    by (intro audit_tamper_evident) (simp_all add: verify_ignores_outbox rows)
  with ok rows show ?thesis by auto
qed

end
