(* ===== verification/DeletionLedger.thy ===== *)
theory DeletionLedger
  imports PyValue
begin

text \<open>
  \<open>query_api/app/control_plane/deletion_ledger.py\<close> over the tables \<open>deletion_ledger\<close>
  and \<open>deletion_ledger_targets\<close> of \<open>schema.py\<close>: one row per deleted identity with its
  newest tombstone, one row per target that must prove the document gone, and the
  reconciler that replays every suppression before a restored store serves traffic. A
  statement with \<open>WHERE\<close> maps over the rows; a transaction that raises returns no tables.
  SHA-256 and the provider's \<open>suppress\<close> call are arguments.
\<close>

section \<open>Data\<close>

record TombstoneRegistration =
  tr_identity_hash :: string
  tr_tenant_id :: string
  tr_collection :: string
  tr_document_id :: string
  tr_sequence :: int
  tr_document_version :: int
  tr_event_id :: string
  tr_event_digest :: string
  tr_routing_revision :: int
  tr_target_ids :: "string list"
  tr_requested_at :: time
  tr_rollout_id :: string
  tr_retention_until :: "time option"

record LedgerRow =
  lr_identity_hash :: string
  lr_tenant_id :: string
  lr_collection :: string
  lr_document_id :: string
  lr_sequence :: int
  lr_document_version :: int
  lr_event_id :: string
  lr_event_digest :: string
  lr_routing_revision :: int
  lr_rollout_id :: string
  lr_requested_at :: time
  lr_retention_until :: "time option"
  lr_legal_hold :: bool
  lr_hold_reference :: "string option"
  lr_converged_at :: "time option"
  lr_verified_at :: "time option"
  lr_updated_at :: time

datatype target_status = Pending | Applied | Absent

record TargetRow =
  tg_identity_hash :: string
  tg_target_id :: string
  tg_sequence :: int
  tg_status :: target_status
  tg_checkpoint :: "int option"
  tg_receipt_hash :: "string option"
  tg_verified_at :: "time option"
  tg_updated_at :: time

record LedgerDb =
  ledger_rows :: "LedgerRow list"
  target_rows :: "TargetRow list"

definition empty_ledger :: LedgerDb where
  "empty_ledger = \<lparr>ledger_rows = [], target_rows = []\<rparr>"

record SuppressionReceipt =
  rc_identity_hash :: string
  rc_target_id :: string
  rc_sequence :: int
  rc_checkpoint :: int
  rc_status :: target_status
  rc_receipt_id :: string

datatype ledger_error =
    InvalidField string | StaleTombstoneError string | DeletionLedgerError string | ProviderFailed

section \<open>Validation\<close>

definition HASH :: "string \<Rightarrow> bool" where
  "HASH s = matches is_hex 64 64 s"

definition TARGET :: "string \<Rightarrow> bool" where
  "TARGET s = matches (\<lambda>c. is_alnum c \<or> c = CHR ''.'' \<or> c = CHR ''_'' \<or> c = CHR ''-'') 1 128 s"

definition bounded_text :: "string \<Rightarrow> nat \<Rightarrow> bool" where
  "bounded_text s n \<longleftrightarrow> s \<noteq> [] \<and> length s \<le> n"

definition validate_registration :: "TombstoneRegistration \<Rightarrow> ledger_error + unit" where
  "validate_registration v =
     (if \<not> HASH (tr_identity_hash v) then Raise (InvalidField ''identity_hash'')
      else if \<not> HASH (tr_event_digest v) then Raise (InvalidField ''event_digest'')
      else if \<not> bounded_text (tr_tenant_id v) 256 then Raise (InvalidField ''tenant_id'')
      else if \<not> bounded_text (tr_collection v) 128 then Raise (InvalidField ''collection'')
      else if \<not> bounded_text (tr_document_id v) 256 then Raise (InvalidField ''document_id'')
      else if \<not> bounded_text (tr_event_id v) 128 then Raise (InvalidField ''event_id'')
      else if length (tr_rollout_id v) > 128 then Raise (InvalidField ''rollout_id'')
      else if tr_sequence v < 1 \<or> tr_document_version v < 1 then Raise (InvalidField ''sequence'')
      else if tr_routing_revision v < 1 then Raise (InvalidField ''routing_revision'')
      else if fromkeys (tr_target_ids v) = [] \<or> (\<exists>t \<in> set (fromkeys (tr_target_ids v)). \<not> TARGET t)
      then Raise (InvalidField ''target_id'')
      else if (case tr_retention_until v of None \<Rightarrow> False | Some t \<Rightarrow> t \<le> tr_requested_at v)
      then Raise (InvalidField ''retention'')
      else Ok ())"

text \<open>\<open>None\<close> is indefinite retention, which nothing shortens.\<close>

definition later_retention :: "time option \<Rightarrow> time option \<Rightarrow> time option" where
  "later_retention current requested =
     (case (current, requested) of (Some c, Some r) \<Rightarrow> Some (max c r) | _ \<Rightarrow> None)"

section \<open>Registration\<close>

definition ledger_of :: "LedgerDb \<Rightarrow> string \<Rightarrow> LedgerRow option" where
  "ledger_of db ident = find (\<lambda>r. lr_identity_hash r = ident) (ledger_rows db)"

definition pending_target :: "TombstoneRegistration \<Rightarrow> time \<Rightarrow> string \<Rightarrow> TargetRow" where
  "pending_target v now t =
     \<lparr>tg_identity_hash = tr_identity_hash v, tg_target_id = t, tg_sequence = tr_sequence v,
      tg_status = Pending, tg_checkpoint = None, tg_receipt_hash = None, tg_verified_at = None,
      tg_updated_at = now\<rparr>"

definition new_ledger_row :: "TombstoneRegistration \<Rightarrow> time \<Rightarrow> LedgerRow" where
  "new_ledger_row v now =
     \<lparr>lr_identity_hash = tr_identity_hash v, lr_tenant_id = tr_tenant_id v,
      lr_collection = tr_collection v, lr_document_id = tr_document_id v,
      lr_sequence = tr_sequence v, lr_document_version = tr_document_version v,
      lr_event_id = tr_event_id v, lr_event_digest = tr_event_digest v,
      lr_routing_revision = tr_routing_revision v, lr_rollout_id = tr_rollout_id v,
      lr_requested_at = tr_requested_at v, lr_retention_until = tr_retention_until v,
      lr_legal_hold = False, lr_hold_reference = None, lr_converged_at = None,
      lr_verified_at = None, lr_updated_at = now\<rparr>"

definition advanced_row :: "TombstoneRegistration \<Rightarrow> time \<Rightarrow> LedgerRow \<Rightarrow> LedgerRow" where
  "advanced_row v now current = (new_ledger_row v now)
     \<lparr>lr_retention_until := later_retention (lr_retention_until current) (tr_retention_until v),
      lr_legal_hold := lr_legal_hold current, lr_hold_reference := lr_hold_reference current\<rparr>"

definition register_tombstone_in_transaction ::
  "LedgerDb \<Rightarrow> TombstoneRegistration \<Rightarrow> time \<Rightarrow> ledger_error + LedgerDb" where
  "register_tombstone_in_transaction db v now =
     ebind (validate_registration v) (\<lambda>_.
       let ident = tr_identity_hash v;
           fresh_targets = map (pending_target v now) (fromkeys (tr_target_ids v)) in
       case ledger_of db ident of
         Some current \<Rightarrow>
           if tr_sequence v < lr_sequence current then Raise (StaleTombstoneError ''newer exists'')
           else if tr_sequence v = lr_sequence current then
             (if lr_event_id current \<noteq> tr_event_id v \<or> lr_event_digest current \<noteq> tr_event_digest v
              then Raise (DeletionLedgerError ''conflicting event'') else Ok db)
           else Ok \<lparr>ledger_rows = map (\<lambda>r. if lr_identity_hash r = ident
                      then advanced_row v now current else r) (ledger_rows db),
                    target_rows = filter (\<lambda>t. tg_identity_hash t \<noteq> ident) (target_rows db) @ fresh_targets\<rparr>
       | None \<Rightarrow> Ok \<lparr>ledger_rows = ledger_rows db @ [new_ledger_row v now],
                      target_rows = target_rows db @ fresh_targets\<rparr>)"

definition register :: "LedgerDb \<Rightarrow> TombstoneRegistration \<Rightarrow> time \<Rightarrow> ledger_error + LedgerDb" where
  "register db v now =
     ebind (validate_registration v) (\<lambda>_. register_tombstone_in_transaction db v now)"

section \<open>Acknowledgements\<close>

definition is_target :: "string \<Rightarrow> string \<Rightarrow> int \<Rightarrow> TargetRow \<Rightarrow> bool" where
  "is_target ident target sq t \<longleftrightarrow>
     tg_identity_hash t = ident \<and> tg_target_id t = target \<and> tg_sequence t = sq"

definition pending_of :: "TargetRow list \<Rightarrow> string \<Rightarrow> TargetRow list" where
  "pending_of ts ident = filter (\<lambda>t. tg_identity_hash t = ident \<and> tg_status t = Pending) ts"

definition record_target ::
  "(string \<Rightarrow> string) \<Rightarrow> LedgerDb \<Rightarrow> string \<Rightarrow> string \<Rightarrow> int \<Rightarrow> int \<Rightarrow> target_status \<Rightarrow> string \<Rightarrow> time
   \<Rightarrow> ledger_error + LedgerDb" where
  "record_target sha db ident target sq checkpoint status receipt now =
     (if \<not> HASH ident then Raise (InvalidField ''identity_hash'')
      else if \<not> TARGET target then Raise (InvalidField ''target_id'')
      else if status = Pending then Raise (InvalidField ''status'')
      else if checkpoint < sq then Raise (StaleTombstoneError ''checkpoint'')
      else if receipt = [] \<or> length receipt > 2048 then Raise (InvalidField ''receipt'')
      else case ledger_of db ident of
        None \<Rightarrow> Raise (DeletionLedgerError ''not registered'')
      | Some row \<Rightarrow>
          if lr_sequence row \<noteq> sq then Raise (StaleTombstoneError ''receipt'')
          else if length (filter (is_target ident target sq) (target_rows db)) \<noteq> 1
          then Raise (DeletionLedgerError ''not a target'')
          else
            let ts = map (\<lambda>t. if is_target ident target sq t
                   then t\<lparr>tg_status := status, tg_checkpoint := Some checkpoint,
                          tg_receipt_hash := Some (sha receipt), tg_verified_at := Some now,
                          tg_updated_at := now\<rparr> else t) (target_rows db) in
            Ok \<lparr>ledger_rows = map (\<lambda>r. if lr_identity_hash r = ident
                  then r\<lparr>lr_converged_at := (if pending_of ts ident = [] then Some now else None),
                         lr_verified_at := Some now, lr_updated_at := now\<rparr> else r) (ledger_rows db),
                target_rows = ts\<rparr>)"

definition should_suppress :: "LedgerDb \<Rightarrow> string \<Rightarrow> int \<Rightarrow> ledger_error + bool" where
  "should_suppress db ident candidate =
     (if \<not> HASH ident then Raise (InvalidField ''identity_hash'')
      else if candidate < 1 then Raise (InvalidField ''candidate_sequence'')
      else Ok (case ledger_of db ident of None \<Rightarrow> False | Some r \<Rightarrow> candidate \<le> lr_sequence r))"

definition list_restore_suppressions :: "LedgerDb \<Rightarrow> string \<Rightarrow> int \<Rightarrow> ledger_error + LedgerRow list" where
  "list_restore_suppressions db after limit =
     (if after \<noteq> [] \<and> \<not> HASH after then Raise (InvalidField ''after_identity_hash'')
      else if limit < 1 \<or> limit > 5000 then Raise (InvalidField ''limit'')
      else Ok (take (nat limit) (sort_key lr_identity_hash
        (filter (\<lambda>r. after = [] \<or> after < lr_identity_hash r) (ledger_rows db)))))"

definition set_legal_hold ::
  "(string \<Rightarrow> string) \<Rightarrow> LedgerDb \<Rightarrow> string \<Rightarrow> bool \<Rightarrow> string \<Rightarrow> time \<Rightarrow> ledger_error + LedgerDb" where
  "set_legal_hold sha db ident enabled reference now =
     (if \<not> HASH ident then Raise (InvalidField ''identity_hash'')
      else if strip reference = [] then Raise (InvalidField ''reference'')
      else if ledger_of db ident = None then Raise (DeletionLedgerError ''not registered'')
      else Ok (db\<lparr>ledger_rows := map (\<lambda>r. if lr_identity_hash r = ident
             then r\<lparr>lr_legal_hold := enabled, lr_hold_reference := Some (sha reference),
                    lr_updated_at := now\<rparr> else r) (ledger_rows db)\<rparr>))"

definition pending_targets :: "LedgerDb \<Rightarrow> string \<Rightarrow> string list" where
  "pending_targets db ident = sort (map tg_target_id (pending_of (target_rows db) ident))"

definition target_ids :: "LedgerDb \<Rightarrow> string \<Rightarrow> string list" where
  "target_ids db ident =
     sort (map tg_target_id (filter (\<lambda>t. tg_identity_hash t = ident) (target_rows db)))"

section \<open>The reconciler\<close>

text \<open>
  Every acknowledged target is its own transaction, so a failure keeps what was recorded
  before it: the loops return the tables next to the result.
\<close>

definition replay_allowed :: "LedgerDb \<Rightarrow> string \<Rightarrow> int \<Rightarrow> ledger_error + bool" where
  "replay_allowed db ident sq = ebind (should_suppress db ident sq) (\<lambda>s. Ok (\<not> s))"

definition reconcile_target ::
  "(string \<Rightarrow> string) \<Rightarrow> (LedgerRow \<Rightarrow> string \<Rightarrow> SuppressionReceipt option) \<Rightarrow> time
   \<Rightarrow> LedgerDb \<Rightarrow> LedgerRow \<Rightarrow> string \<Rightarrow> ledger_error + LedgerDb" where
  "reconcile_target sha suppress now db r target =
     (case suppress r target of
        None \<Rightarrow> Raise ProviderFailed
      | Some rc \<Rightarrow>
          if rc_identity_hash rc \<noteq> lr_identity_hash r \<or> rc_target_id rc \<noteq> target \<or>
             rc_sequence rc \<noteq> lr_sequence r
          then Raise (DeletionLedgerError ''different deletion boundary'')
          else record_target sha db (lr_identity_hash r) target (lr_sequence r)
                 (rc_checkpoint rc) (rc_status rc) (rc_receipt_id rc) now)"

fun reconcile_targets ::
  "(string \<Rightarrow> string) \<Rightarrow> (LedgerRow \<Rightarrow> string \<Rightarrow> SuppressionReceipt option) \<Rightarrow> time
   \<Rightarrow> LedgerDb \<Rightarrow> LedgerRow \<Rightarrow> string list \<Rightarrow> nat \<Rightarrow> LedgerDb \<times> (ledger_error + nat)" where
  "reconcile_targets sha suppress now db r [] n = (db, Ok n)"
| "reconcile_targets sha suppress now db r (t # ts) n =
     (case reconcile_target sha suppress now db r t of
        Inl e \<Rightarrow> (db, Raise e)
      | Inr db' \<Rightarrow> reconcile_targets sha suppress now db' r ts (n + 1))"

fun reconcile_records ::
  "(string \<Rightarrow> string) \<Rightarrow> (LedgerRow \<Rightarrow> string \<Rightarrow> SuppressionReceipt option) \<Rightarrow> time
   \<Rightarrow> (LedgerDb \<Rightarrow> string \<Rightarrow> string list) \<Rightarrow> LedgerDb \<Rightarrow> LedgerRow list \<Rightarrow> nat
   \<Rightarrow> LedgerDb \<times> (ledger_error + nat)" where
  "reconcile_records sha suppress now select db [] n = (db, Ok n)"
| "reconcile_records sha suppress now select db (r # rs) n =
     (case reconcile_targets sha suppress now db r (select db (lr_identity_hash r)) n of
        (db', Inl e) \<Rightarrow> (db', Raise e)
      | (db', Inr m) \<Rightarrow> reconcile_records sha suppress now select db' rs m)"

definition reconcile_once ::
  "(string \<Rightarrow> string) \<Rightarrow> (LedgerRow \<Rightarrow> string \<Rightarrow> SuppressionReceipt option) \<Rightarrow> time \<Rightarrow> LedgerDb \<Rightarrow> int
   \<Rightarrow> LedgerDb \<times> (ledger_error + nat)" where
  "reconcile_once sha suppress now db limit =
     (case list_restore_suppressions db [] limit of
        Inl e \<Rightarrow> (db, Raise e)
      | Inr rows \<Rightarrow> reconcile_records sha suppress now pending_targets db rows 0)"

definition reconcile_restore ::
  "(string \<Rightarrow> string) \<Rightarrow> (LedgerRow \<Rightarrow> string \<Rightarrow> SuppressionReceipt option) \<Rightarrow> time \<Rightarrow> LedgerDb \<Rightarrow> int
   \<Rightarrow> LedgerDb \<times> (ledger_error + nat)" where
  "reconcile_restore sha suppress now db limit =
     (case list_restore_suppressions db [] limit of
        Inl e \<Rightarrow> (db, Raise e)
      | Inr rows \<Rightarrow> reconcile_records sha suppress now target_ids db rows 0)"

section \<open>The invariant of the ledger\<close>

definition row_ok :: "TargetRow list \<Rightarrow> LedgerRow \<Rightarrow> bool" where
  "row_ok ts r \<longleftrightarrow>
     HASH (lr_identity_hash r) \<and>
     (lr_converged_at r = None \<longleftrightarrow> pending_of ts (lr_identity_hash r) \<noteq> []) \<and>
     (\<exists>t \<in> set ts. tg_identity_hash t = lr_identity_hash r) \<and>
     (\<forall>t \<in> set ts. tg_identity_hash t = lr_identity_hash r \<longrightarrow>
        tg_sequence t = lr_sequence r \<and> TARGET (tg_target_id t) \<and>
        (tg_status t \<noteq> Pending \<longrightarrow> (\<exists>c. tg_checkpoint t = Some c \<and> lr_sequence r \<le> c)))"

definition ledger_inv :: "LedgerDb \<Rightarrow> bool" where
  "ledger_inv db \<longleftrightarrow>
     distinct (map lr_identity_hash (ledger_rows db)) \<and>
     distinct (map (\<lambda>t. (tg_identity_hash t, tg_target_id t)) (target_rows db)) \<and>
     (\<forall>t \<in> set (target_rows db). tg_identity_hash t \<in> lr_identity_hash ` set (ledger_rows db)) \<and>
     (\<forall>r \<in> set (ledger_rows db). row_ok (target_rows db) r)"

text \<open>Rewriting rows without touching their identity keeps the keys.\<close>

lemma ledger_inv_map_rows:
  assumes "\<And>r. r \<in> set rows \<Longrightarrow> lr_identity_hash (f r) = lr_identity_hash r"
    and "distinct (map lr_identity_hash rows)"
    and "distinct (map (\<lambda>t. (tg_identity_hash t, tg_target_id t)) ts)"
    and "\<And>t. t \<in> set ts \<Longrightarrow> tg_identity_hash t \<in> lr_identity_hash ` set rows"
    and "\<And>r. r \<in> set rows \<Longrightarrow> row_ok ts (f r)"
  shows "ledger_inv \<lparr>ledger_rows = map f rows, target_rows = ts\<rparr>"
proof -
  have keys: "map lr_identity_hash (map f rows) = map lr_identity_hash rows"
    using assms(1) by simp
  then have "lr_identity_hash ` set (map f rows) = lr_identity_hash ` set rows"
    by (metis set_map)
  moreover from keys have "distinct (map lr_identity_hash (map f rows))" using assms(2) by metis
  moreover have "\<forall>r \<in> set (map f rows). row_ok ts r" using assms(5) by auto
  ultimately show ?thesis using assms(3,4) by (simp only: ledger_inv_def LedgerDb.simps) simp
qed

lemma ledger_inv_empty: "ledger_inv empty_ledger"
  by (simp add: ledger_inv_def empty_ledger_def)

lemma ledger_of_Some: "ledger_of db ident = Some r \<Longrightarrow> r \<in> set (ledger_rows db) \<and> lr_identity_hash r = ident"
  by (auto simp: ledger_of_def find_Some_iff)

lemma ledger_of_None: "ledger_of db ident = None \<longleftrightarrow> ident \<notin> lr_identity_hash ` set (ledger_rows db)"
  by (auto simp: ledger_of_def find_None_iff)

lemma ledger_of_unique:
  "distinct (map lr_identity_hash (ledger_rows db)) \<Longrightarrow> r \<in> set (ledger_rows db) \<Longrightarrow>
   ledger_of db (lr_identity_hash r) = Some r"
proof -
  assume d: "distinct (map lr_identity_hash (ledger_rows db))" and r: "r \<in> set (ledger_rows db)"
  then obtain r' where r': "ledger_of db (lr_identity_hash r) = Some r'"
    using ledger_of_None by (cases "ledger_of db (lr_identity_hash r)") auto
  from ledger_of_Some [OF this] d r have "r' = r" by (auto simp: distinct_map inj_on_def)
  with r' show ?thesis by simp
qed

text \<open>Rows are found again after a rewrite that keeps the identities.\<close>

lemma find_map_key:
  "(\<And>r. key (f r) = key r) \<Longrightarrow>
   find (\<lambda>r. key r = k) (map f rows) = map_option f (find (\<lambda>r. key r = k) rows)"
  by (induction rows) auto

lemma pending_of_append [simp]: "pending_of (ts @ us) i = pending_of ts i @ pending_of us i"
  by (simp add: pending_of_def)

lemma pending_of_other:
  "i \<noteq> ident \<Longrightarrow> pending_of (filter (\<lambda>t. tg_identity_hash t \<noteq> ident) ts) i = pending_of ts i"
  by (induction ts) (auto simp: pending_of_def)

lemma pending_of_none: "\<forall>t \<in> set ts. tg_identity_hash t \<noteq> i \<Longrightarrow> pending_of ts i = []"
  by (auto simp: pending_of_def filter_empty_conv)

lemma pending_of_fresh:
  "pending_of (map (pending_target v now) ts) i =
     (if i = tr_identity_hash v then map (pending_target v now) ts else [])"
  by (induction ts) (auto simp: pending_of_def pending_target_def)

lemma row_ok_fresh:
  assumes "validate_registration v = Ok ()"
    and "\<forall>t \<in> set ts. tg_identity_hash t \<noteq> tr_identity_hash v"
    and "lr_identity_hash r = tr_identity_hash v" "lr_converged_at r = None" "lr_sequence r = tr_sequence v"
  shows "row_ok (ts @ map (pending_target v now) (fromkeys (tr_target_ids v))) r"
proof -
  have v: "HASH (tr_identity_hash v)" "fromkeys (tr_target_ids v) \<noteq> []"
    "\<forall>t \<in> set (fromkeys (tr_target_ids v)). TARGET t"
    using assms(1) by (auto simp: validate_registration_def split: if_splits)
  from v(2) obtain t0 where t0: "t0 \<in> set (fromkeys (tr_target_ids v))"
    by (cases "fromkeys (tr_target_ids v)") auto
  have mine: "\<exists>t \<in> set (ts @ map (pending_target v now) (fromkeys (tr_target_ids v))).
      tg_identity_hash t = tr_identity_hash v"
    using t0 by (intro bexI [of _ "pending_target v now t0"]) (auto simp: pending_target_def)
  show ?thesis
    unfolding row_ok_def assms(3-5)
    using v mine assms(2) by (auto simp: pending_of_none pending_of_fresh pending_target_def)
qed

lemma row_ok_other:
  assumes "row_ok ts r" and "\<And>t. tg_identity_hash t = lr_identity_hash r \<Longrightarrow> t \<in> set ts' \<longleftrightarrow> t \<in> set ts"
  shows "row_ok ts' r"
proof -
  have "pending_of ts' (lr_identity_hash r) = [] \<longleftrightarrow> pending_of ts (lr_identity_hash r) = []"
    using assms(2) by (auto simp: pending_of_def filter_empty_conv)
  with assms show ?thesis unfolding row_ok_def by blast
qed

lemma fresh_targets_distinct:
  "distinct (map (\<lambda>t. (tg_identity_hash t, tg_target_id t)) (map (pending_target v now) (fromkeys ts)))"
  by (simp add: comp_def pending_target_def distinct_map inj_on_def)

lemma ledger_inv_register:
  assumes "ledger_inv db" and "register_tombstone_in_transaction db v now = Ok db'"
  shows "ledger_inv db'"
proof -
  let ?i = "tr_identity_hash v" and ?new = "map (pending_target v now) (fromkeys (tr_target_ids v))"
  have v: "validate_registration v = Ok ()"
    using assms(2) by (auto simp: register_tombstone_in_transaction_def ebind_eq_Ok)
  show ?thesis
  proof (cases "ledger_of db ?i")
    case None
    then have fresh: "?i \<notin> lr_identity_hash ` set (ledger_rows db)" by (simp add: ledger_of_None)
    have db': "db' = \<lparr>ledger_rows = ledger_rows db @ [new_ledger_row v now], target_rows = target_rows db @ ?new\<rparr>"
      using assms(2) None v by (simp add: register_tombstone_in_transaction_def Let_def)
    have no_targets: "\<forall>t \<in> set (target_rows db). tg_identity_hash t \<noteq> ?i"
      using assms(1) fresh by (metis ledger_inv_def)
    have "row_ok (target_rows db @ ?new) (new_ledger_row v now)"
      by (rule row_ok_fresh [OF v no_targets]) (simp_all add: new_ledger_row_def)
    moreover have "row_ok (target_rows db @ ?new) r" if r: "r \<in> set (ledger_rows db)" for r
    proof (rule row_ok_other)
      show "row_ok (target_rows db) r" using assms(1) r by (simp add: ledger_inv_def)
      have "lr_identity_hash r \<noteq> ?i" using r fresh by (metis image_eqI)
      then show "t \<in> set (target_rows db @ ?new) \<longleftrightarrow> t \<in> set (target_rows db)"
        if "tg_identity_hash t = lr_identity_hash r" for t
        using that by (auto simp: pending_target_def)
    qed
    ultimately show ?thesis
      using assms(1) fresh no_targets fresh_targets_distinct [of v now "tr_target_ids v"]
      by (auto simp: ledger_inv_def db' new_ledger_row_def pending_target_def)
  next
    case (Some current)
    note cur = ledger_of_Some [OF this]
    show ?thesis
    proof (cases "tr_sequence v = lr_sequence current")
      case True
      then have "db' = db"
        using assms(2) Some v by (simp add: register_tombstone_in_transaction_def Let_def split: if_splits)
      with assms(1) show ?thesis by simp
    next
      case False
      let ?upd = "\<lambda>r. if lr_identity_hash r = ?i then advanced_row v now current else r"
      let ?ts = "filter (\<lambda>t. tg_identity_hash t \<noteq> ?i) (target_rows db)"
      have db': "db' = \<lparr>ledger_rows = map ?upd (ledger_rows db), target_rows = ?ts @ ?new\<rparr>"
        using assms(2) Some v False
        by (simp add: register_tombstone_in_transaction_def Let_def split: if_splits)
      have adv: "lr_identity_hash (advanced_row v now current) = ?i"
        "lr_converged_at (advanced_row v now current) = None"
        "lr_sequence (advanced_row v now current) = tr_sequence v"
        by (simp_all add: advanced_row_def new_ledger_row_def)
      have "row_ok (?ts @ ?new) (advanced_row v now current)"
        by (rule row_ok_fresh [OF v _ adv]) simp
      moreover have "row_ok (?ts @ ?new) r" if r: "r \<in> set (ledger_rows db)" "lr_identity_hash r \<noteq> ?i" for r
      proof (rule row_ok_other)
        show "row_ok (target_rows db) r" using assms(1) r by (simp add: ledger_inv_def)
        show "t \<in> set (?ts @ ?new) \<longleftrightarrow> t \<in> set (target_rows db)"
          if "tg_identity_hash t = lr_identity_hash r" for t
          using that r(2) by (auto simp: pending_target_def)
      qed
      ultimately have rows: "row_ok (?ts @ ?new) (?upd r)" if "r \<in> set (ledger_rows db)" for r
        using that by auto
      have "distinct (map (\<lambda>t. (tg_identity_hash t, tg_target_id t)) (?ts @ ?new))"
        using assms(1) fresh_targets_distinct [of v now "tr_target_ids v"]
        by (auto simp: ledger_inv_def distinct_map_filter pending_target_def)
      moreover have "tg_identity_hash t \<in> lr_identity_hash ` set (ledger_rows db)"
        if t: "t \<in> set (?ts @ ?new)" for t
      proof (cases "t \<in> set (target_rows db)")
        case True
        then show ?thesis using assms(1) by (simp add: ledger_inv_def)
      next
        case False
        with t have "tg_identity_hash t = lr_identity_hash current"
          using cur by (auto simp: pending_target_def)
        with cur show ?thesis by blast
      qed
      ultimately show ?thesis
        unfolding db' using assms(1) rows adv(1)
        by (intro ledger_inv_map_rows) (auto simp: ledger_inv_def)
    qed
  qed
qed

definition acknowledged :: "(string \<Rightarrow> string) \<Rightarrow> string \<Rightarrow> int \<Rightarrow> target_status \<Rightarrow> time \<Rightarrow> TargetRow \<Rightarrow> TargetRow" where
  "acknowledged sha receipt checkpoint status now t = t\<lparr>tg_status := status,
     tg_checkpoint := Some checkpoint, tg_receipt_hash := Some (sha receipt),
     tg_verified_at := Some now, tg_updated_at := now\<rparr>"

lemma record_target_OkD:
  assumes "record_target sha db ident target sq checkpoint status receipt now = Ok db'"
  shows "HASH ident" and "TARGET target" and "status \<noteq> Pending" and "sq \<le> checkpoint"
    and "\<exists>row. ledger_of db ident = Some row \<and> lr_sequence row = sq"
    and "target_rows db' = map (\<lambda>t. if is_target ident target sq t
      then acknowledged sha receipt checkpoint status now t else t) (target_rows db)"
    and "ledger_rows db' = map (\<lambda>r. if lr_identity_hash r = ident
      then r\<lparr>lr_converged_at := (if pending_of (target_rows db') ident = [] then Some now else None),
             lr_verified_at := Some now, lr_updated_at := now\<rparr> else r) (ledger_rows db)"
  using assms
  by (auto simp: record_target_def Let_def acknowledged_def split: if_splits option.splits)

lemma map_if_in:
  "t \<in> set (map (\<lambda>x. if P x then f x else x) xs) \<longleftrightarrow> (\<exists>x \<in> set xs. t = (if P x then f x else x))"
  by auto

lemma ledger_inv_record_target:
  assumes "ledger_inv db" and ok: "record_target sha db ident target sq cp status receipt now = Ok db'"
  shows "ledger_inv db'"
proof -
  note facts = record_target_OkD [OF ok]
  let ?f = "\<lambda>t. if is_target ident target sq t then acknowledged sha receipt cp status now t else t"
  have f: "tg_identity_hash (?f t) = tg_identity_hash t" "tg_target_id (?f t) = tg_target_id t"
    "tg_sequence (?f t) = tg_sequence t" for t
    by (simp_all add: acknowledged_def)
  have rows: "map lr_identity_hash (ledger_rows db') = map lr_identity_hash (ledger_rows db)"
    unfolding facts(7) by simp
  then have ids: "lr_identity_hash ` set (ledger_rows db') = lr_identity_hash ` set (ledger_rows db)"
    by (metis set_map)
  have "row_ok (target_rows db') r'" if "r' \<in> set (ledger_rows db')" for r'
  proof -
    from that obtain r where r: "r \<in> set (ledger_rows db)"
      and r': "r' = (if lr_identity_hash r = ident
        then r\<lparr>lr_converged_at := (if pending_of (target_rows db') ident = [] then Some now else None),
               lr_verified_at := Some now, lr_updated_at := now\<rparr> else r)"
      unfolding facts(7) by auto
    have ok: "row_ok (target_rows db) r" using assms(1) r by (auto simp: ledger_inv_def)
    show ?thesis
    proof (cases "lr_identity_hash r = ident")
      case False
      have "t \<in> set (target_rows db') \<longleftrightarrow> t \<in> set (target_rows db)"
        if t: "tg_identity_hash t = lr_identity_hash r" for t
        unfolding facts(6) map_if_in using t False
        by (auto simp: is_target_def acknowledged_def) (metis (no_types, lifting))
      with ok False r' show ?thesis by (simp add: row_ok_other)
    next
      case True
      obtain row where row: "ledger_of db ident = Some row" "lr_sequence row = sq" using facts(5) by blast
      have "row = r" using ledger_of_unique [of db r] assms(1) r True row by (simp add: ledger_inv_def)
      then have sq: "lr_sequence r = sq" using row by simp
      obtain t0 where "t0 \<in> set (target_rows db)" "tg_identity_hash t0 = ident"
        using ok True by (auto simp: row_ok_def)
      then have "?f t0 \<in> set (target_rows db')" "tg_identity_hash (?f t0) = ident"
        unfolding facts(6) using f(1) by auto
      then have "\<exists>t \<in> set (target_rows db'). tg_identity_hash t = ident" by blast
      moreover have "tg_sequence t = sq \<and> TARGET (tg_target_id t) \<and>
          (tg_status t \<noteq> Pending \<longrightarrow> (\<exists>c. tg_checkpoint t = Some c \<and> sq \<le> c))"
        if t': "t \<in> set (target_rows db')" "tg_identity_hash t = ident" for t
      proof -
        from t' obtain u where u: "u \<in> set (target_rows db)" "t = ?f u"
          unfolding facts(6) map_if_in by blast
        then have "tg_identity_hash u = ident" using t'(2) f by simp
        with ok u True sq have "tg_sequence u = sq \<and> TARGET (tg_target_id u) \<and>
            (tg_status u \<noteq> Pending \<longrightarrow> (\<exists>c. tg_checkpoint u = Some c \<and> sq \<le> c))"
          unfolding row_ok_def by blast
        with u f facts(4) show ?thesis by (auto simp: acknowledged_def)
      qed
      ultimately show ?thesis
        using ok True sq unfolding r' row_ok_def by simp
    qed
  qed
  moreover have "map (\<lambda>t. (tg_identity_hash t, tg_target_id t)) (target_rows db') =
      map (\<lambda>t. (tg_identity_hash t, tg_target_id t)) (target_rows db)"
    unfolding facts(6) by (simp add: acknowledged_def)
  moreover have "tg_identity_hash t \<in> lr_identity_hash ` set (ledger_rows db)"
    if "t \<in> set (target_rows db')" for t
  proof -
    from that obtain u where "u \<in> set (target_rows db)" "t = ?f u"
      unfolding facts(6) map_if_in by blast
    moreover from this have "tg_identity_hash t = tg_identity_hash u" by (simp only: f(1))
    ultimately show ?thesis using assms(1) by (simp add: ledger_inv_def)
  qed
  ultimately show ?thesis
    using assms(1) rows ids by (simp add: ledger_inv_def)
qed

lemma ledger_inv_hold:
  assumes "ledger_inv db" and "set_legal_hold sha db ident enabled reference now = Ok db'"
  shows "ledger_inv db'"
proof -
  let ?f = "\<lambda>r. if lr_identity_hash r = ident then r\<lparr>lr_legal_hold := enabled,
     lr_hold_reference := Some (sha reference), lr_updated_at := now\<rparr> else r"
  have db': "db' = \<lparr>ledger_rows = map ?f (ledger_rows db), target_rows = target_rows db\<rparr>"
    using assms(2) by (auto simp: set_legal_hold_def split: if_splits)
  show ?thesis
    unfolding db'
  proof (rule ledger_inv_map_rows)
    fix r assume "r \<in> set (ledger_rows db)"
    then have "row_ok (target_rows db) r" using assms(1) by (simp add: ledger_inv_def)
    moreover have "row_ok (target_rows db) (?f r) = row_ok (target_rows db) r"
      by (cases "lr_identity_hash r = ident") (simp_all add: row_ok_def)
    ultimately show "row_ok (target_rows db) (?f r)" by simp
  qed (use assms(1) in \<open>simp_all add: ledger_inv_def\<close>)
qed

text \<open>A later row of the same identity: no older tombstone, no shorter retention.\<close>

definition row_advances :: "LedgerRow \<Rightarrow> LedgerRow \<Rightarrow> bool" where
  "row_advances r r' \<longleftrightarrow> lr_sequence r \<le> lr_sequence r' \<and>
     (case lr_retention_until r of
        None \<Rightarrow> lr_retention_until r' = None
      | Some t \<Rightarrow> (case lr_retention_until r' of None \<Rightarrow> True | Some t' \<Rightarrow> t \<le> t'))"

lemma row_advances_refl: "row_advances r r"
  by (simp add: row_advances_def split: option.splits)

lemma row_advances_same:
  "lr_sequence r' = lr_sequence r \<Longrightarrow> lr_retention_until r' = lr_retention_until r \<Longrightarrow> row_advances r r'"
  by (simp add: row_advances_def split: option.splits)

lemma row_advances_trans: "row_advances a b \<Longrightarrow> row_advances b c \<Longrightarrow> row_advances a c"
  by (auto simp: row_advances_def split: option.splits)

section \<open>Tombstones only advance\<close>

inductive ledger_step :: "LedgerDb \<Rightarrow> LedgerDb \<Rightarrow> bool" where
  Registered: "register db v now = Ok db' \<Longrightarrow> ledger_step db db'"
| Acknowledged: "record_target sha db ident target sq cp status receipt now = Ok db' \<Longrightarrow> ledger_step db db'"
| Held: "set_legal_hold sha db ident enabled reference now = Ok db' \<Longrightarrow> ledger_step db db'"

inductive ledger_reachable :: "LedgerDb \<Rightarrow> bool" where
  Empty: "ledger_reachable empty_ledger"
| Step: "ledger_reachable db \<Longrightarrow> ledger_step db db' \<Longrightarrow> ledger_reachable db'"

lemma ledger_reachable_inv: "ledger_reachable db \<Longrightarrow> ledger_inv db"
  by (induction rule: ledger_reachable.induct)
    (auto simp: register_def ebind_eq_Ok elim!: ledger_step.cases
      intro: ledger_inv_empty ledger_inv_register ledger_inv_record_target ledger_inv_hold)

lemma ledger_of_map:
  "(\<And>r. lr_identity_hash (f r) = lr_identity_hash r) \<Longrightarrow> ledger_rows db' = map f (ledger_rows db) \<Longrightarrow>
   ledger_of db' i = map_option f (ledger_of db i)"
  unfolding ledger_of_def by (simp add: find_map_key)

lemma register_advances:
  assumes "register_tombstone_in_transaction db v now = Ok db'" and "ledger_of db i = Some r"
  shows "\<exists>r'. ledger_of db' i = Some r' \<and> row_advances r r' \<and> lr_legal_hold r' = lr_legal_hold r"
proof (cases "ledger_of db (tr_identity_hash v)")
  case None
  with assms have "db' = \<lparr>ledger_rows = ledger_rows db @ [new_ledger_row v now],
      target_rows = target_rows db @ map (pending_target v now) (fromkeys (tr_target_ids v))\<rparr>"
    by (auto simp: register_tombstone_in_transaction_def ebind_eq_Ok Let_def)
  moreover have "find P xs = Some x \<Longrightarrow> find P (xs @ ys) = Some x" for P xs ys and x :: LedgerRow
    by (induction xs) auto
  ultimately have "ledger_of db' i = Some r" using assms(2) by (simp add: ledger_of_def)
  then show ?thesis using row_advances_refl by blast
next
  case (Some current)
  let ?f = "\<lambda>r. if lr_identity_hash r = tr_identity_hash v then advanced_row v now current else r"
  show ?thesis
  proof (cases "tr_sequence v = lr_sequence current")
    case True
    then have "db' = db"
      using assms(1) Some by (auto simp: register_tombstone_in_transaction_def ebind_eq_Ok Let_def split: if_splits)
    with assms(2) show ?thesis using row_advances_refl by blast
  next
    case False
    then have rows: "ledger_rows db' = map ?f (ledger_rows db)" and newer: "lr_sequence current < tr_sequence v"
      using assms(1) Some by (auto simp: register_tombstone_in_transaction_def ebind_eq_Ok Let_def split: if_splits)
    have "ledger_of db' i = Some (?f r)"
      using ledger_of_map [OF _ rows, of i] assms(2) by (simp add: advanced_row_def new_ledger_row_def)
    moreover have "r = current" if "lr_identity_hash r = tr_identity_hash v"
      using that Some assms(2) ledger_of_Some [OF assms(2)] by simp
    moreover have "row_advances current (advanced_row v now current)"
      using newer by (simp add: row_advances_def advanced_row_def new_ledger_row_def later_retention_def
          split: option.splits)
    moreover have "lr_legal_hold (advanced_row v now current) = lr_legal_hold current"
      by (simp add: advanced_row_def)
    ultimately show ?thesis by (auto simp: row_advances_refl)
  qed
qed

lemma ledger_step_advances:
  assumes "ledger_step db db'" and "ledger_of db i = Some r"
  shows "\<exists>r'. ledger_of db' i = Some r' \<and> row_advances r r'"
  using assms(1)
proof cases
  case (Registered v now)
  then have "register_tombstone_in_transaction db v now = Ok db'"
    by (auto simp: register_def ebind_eq_Ok)
  from register_advances [OF this assms(2)] show ?thesis by blast
next
  case (Acknowledged sha ident target sq cp status receipt now)
  from ledger_of_map [OF _ record_target_OkD(7) [OF this], of i] assms(2)
  show ?thesis by (auto simp: row_advances_same)
next
  case (Held sha ident enabled reference now)
  then have "ledger_rows db' = map (\<lambda>r. if lr_identity_hash r = ident
      then r\<lparr>lr_legal_hold := enabled, lr_hold_reference := Some (sha reference), lr_updated_at := now\<rparr>
      else r) (ledger_rows db)"
    by (auto simp: set_legal_hold_def split: if_splits)
  from ledger_of_map [OF _ this, of i] assms(2)
  show ?thesis by (auto simp: row_advances_same)
qed

inductive ledger_steps :: "LedgerDb \<Rightarrow> LedgerDb \<Rightarrow> bool" where
  Here: "ledger_steps db db"
| Further: "ledger_steps db db1 \<Longrightarrow> ledger_step db1 db2 \<Longrightarrow> ledger_steps db db2"

lemma ledger_steps_advances:
  "ledger_steps db db' \<Longrightarrow> ledger_of db i = Some r \<Longrightarrow>
     \<exists>r'. ledger_of db' i = Some r' \<and> row_advances r r'"
proof (induction rule: ledger_steps.induct)
  case (Here db)
  then show ?case using row_advances_refl by blast
next
  case (Further db db1 db2)
  then show ?case using ledger_step_advances row_advances_trans by metis
qed

section \<open>Properties of the ledger\<close>

lemma pending_targets_Nil: "pending_targets db i = [] \<longleftrightarrow> pending_of (target_rows db) i = []"
proof -
  have "sort xs = [] \<longleftrightarrow> xs = []" for xs :: "string list"
    by (metis set_empty set_sort)
  then show ?thesis by (simp add: pending_targets_def)
qed

text \<open>
  C30. In every ledger that registrations, acknowledgements and legal holds can produce, a
  deletion counts as converged exactly when no target of it is pending; every target row
  belongs to the current tombstone of its identity, and a target that is not pending has
  acknowledged a checkpoint at or above that tombstone.
\<close>

theorem converged_iff_acknowledged:
  assumes "ledger_reachable db" and "r \<in> set (ledger_rows db)"
  shows "(lr_converged_at r \<noteq> None \<longleftrightarrow> pending_targets db (lr_identity_hash r) = []) \<and>
    (\<forall>t \<in> set (target_rows db). tg_identity_hash t = lr_identity_hash r \<longrightarrow>
       tg_sequence t = lr_sequence r \<and>
       (tg_status t \<noteq> Pending \<longrightarrow> (\<exists>c. tg_checkpoint t = Some c \<and> lr_sequence r \<le> c)))"
proof -
  have ok: "row_ok (target_rows db) r"
    using ledger_reachable_inv [OF assms(1)] assms(2) by (simp add: ledger_inv_def)
  show ?thesis
  proof
    show "lr_converged_at r \<noteq> None \<longleftrightarrow> pending_targets db (lr_identity_hash r) = []"
      using ok by (simp add: row_ok_def pending_targets_Nil)
    show "\<forall>t \<in> set (target_rows db). tg_identity_hash t = lr_identity_hash r \<longrightarrow>
       tg_sequence t = lr_sequence r \<and>
       (tg_status t \<noteq> Pending \<longrightarrow> (\<exists>c. tg_checkpoint t = Some c \<and> lr_sequence r \<le> c))"
      using ok by (simp add: row_ok_def)
  qed
qed

definition zero_hash :: string where
  "zero_hash = replicate 64 CHR ''0''"

definition sample_registration :: "string \<Rightarrow> int \<Rightarrow> TombstoneRegistration" where
  "sample_registration ident sq = \<lparr>tr_identity_hash = ident, tr_tenant_id = ''t'', tr_collection = ''c'',
     tr_document_id = ''d'', tr_sequence = sq, tr_document_version = sq, tr_event_id = ''e'',
     tr_event_digest = zero_hash, tr_routing_revision = 1, tr_target_ids = [''a''],
     tr_requested_at = 1, tr_rollout_id = [], tr_retention_until = None\<rparr>"

lemma zero_hash_ok: "HASH zero_hash"
  by (auto simp: HASH_def zero_hash_def matches_def is_hex_def is_digit_def list_all_iff)

lemma target_a_ok: "TARGET ''a''"
  by (simp add: TARGET_def matches_def is_alnum_def is_lower_def)

definition sample_ledger :: LedgerDb where
  "sample_ledger = \<lparr>ledger_rows = [new_ledger_row (sample_registration zero_hash 3) 9],
     target_rows = [pending_target (sample_registration zero_hash 3) 9 ''a'']\<rparr>"

lemma sample_registered: "register empty_ledger (sample_registration zero_hash 3) 9 = Ok sample_ledger"
  by (simp add: register_def register_tombstone_in_transaction_def validate_registration_def
      sample_registration_def zero_hash_ok target_a_ok bounded_text_def empty_ledger_def
      ledger_of_def sample_ledger_def fromkeys_def Let_def)

lemma sample_ledger_reachable: "ledger_reachable sample_ledger"
  using ledger_reachable.Step [OF ledger_reachable.Empty ledger_step.Registered [OF sample_registered]] .

theorem converged_iff_acknowledged_witness:
  "lr_converged_at (new_ledger_row (sample_registration zero_hash 3) 9) \<noteq> None \<longleftrightarrow>
     pending_targets sample_ledger zero_hash = []"
proof -
  have "new_ledger_row (sample_registration zero_hash 3) 9 \<in> set (ledger_rows sample_ledger)"
    by (simp add: sample_ledger_def)
  from converged_iff_acknowledged [OF sample_ledger_reachable this]
  show ?thesis by (simp add: new_ledger_row_def sample_registration_def)
qed

text \<open>
  Suppression is for ever: once the ledger refuses a replayed sequence of an identity, it
  refuses it after any further registrations, acknowledgements and holds; the stored tombstone
  never gets older, and its retention never gets shorter.
\<close>

theorem suppression_permanent:
  assumes "should_suppress db ident sq = Ok True" and "ledger_steps db db'"
  shows "should_suppress db' ident sq = Ok True \<and> replay_allowed db' ident sq = Ok False \<and>
    (\<exists>r r'. ledger_of db ident = Some r \<and> ledger_of db' ident = Some r' \<and> row_advances r r')"
proof -
  from assms(1) obtain r where r: "ledger_of db ident = Some r" "sq \<le> lr_sequence r" "HASH ident" "1 \<le> sq"
    by (auto simp: should_suppress_def split: if_splits option.splits)
  from ledger_steps_advances [OF assms(2) r(1)] obtain r' where
    r': "ledger_of db' ident = Some r'" "row_advances r r'" by blast
  then have "should_suppress db' ident sq = Ok True"
    using r by (simp add: should_suppress_def row_advances_def)
  with r r' show ?thesis by (simp add: replay_allowed_def)
qed

theorem suppression_permanent_witness:
  "\<exists>db'. register sample_ledger (sample_registration zero_hash 5) 11 = Ok db' \<and>
     replay_allowed db' zero_hash 2 = Ok False"
proof -
  obtain db' where db': "register sample_ledger (sample_registration zero_hash 5) 11 = Ok db'"
    by (simp add: register_def register_tombstone_in_transaction_def validate_registration_def
        sample_registration_def zero_hash_ok target_a_ok bounded_text_def ledger_of_def
        sample_ledger_def new_ledger_row_def fromkeys_def Let_def)
  have "should_suppress sample_ledger zero_hash 2 = Ok True"
    by (simp add: should_suppress_def zero_hash_ok ledger_of_def sample_ledger_def new_ledger_row_def
        sample_registration_def)
  from suppression_permanent [OF this ledger_steps.Further [OF ledger_steps.Here ledger_step.Registered [OF db']]]
    db' show ?thesis by blast
qed

text \<open>Two identities, the first of them converged.\<close>

definition second_hash :: string where
  "second_hash = replicate 64 CHR ''1''"

definition stuck_ledger :: LedgerDb where
  "stuck_ledger = \<lparr>ledger_rows =
       [(new_ledger_row (sample_registration zero_hash 3) 9)\<lparr>lr_converged_at := Some 9\<rparr>,
        new_ledger_row (sample_registration second_hash 3) 9],
     target_rows =
       [(pending_target (sample_registration zero_hash 3) 9 ''a'')\<lparr>tg_status := Applied, tg_checkpoint := Some 3\<rparr>,
        pending_target (sample_registration second_hash 3) 9 ''a'']\<rparr>"

lemma hash_order: "zero_hash < second_hash"
  by (simp add: zero_hash_def second_hash_def numeral_eq_Suc)

text \<open>
  The bounded page never moves: \<open>reconcile_once\<close> always starts from the first
  identities, so with more identities than its limit it answers zero while a later identity
  still has a pending target; a caller that opens traffic on zero serves the deleted document.
\<close>

theorem reconcile_once_zero_with_pending:
  "reconcile_once sha suppress now stuck_ledger 1 = (stuck_ledger, Ok 0) \<and>
   pending_targets stuck_ledger second_hash = [''a'']"
proof -
  have less: "zero_hash \<le> second_hash" "\<not> second_hash \<le> zero_hash" "second_hash \<noteq> zero_hash"
    using hash_order by auto
  have "list_restore_suppressions stuck_ledger [] 1 =
      Ok [(new_ledger_row (sample_registration zero_hash 3) 9)\<lparr>lr_converged_at := Some 9\<rparr>]"
    using less by (simp add: list_restore_suppressions_def stuck_ledger_def new_ledger_row_def
        sample_registration_def)
  moreover have "pending_targets stuck_ledger zero_hash = []"
    using less by (simp add: pending_targets_def pending_of_def stuck_ledger_def pending_target_def
        sample_registration_def)
  moreover have "lr_identity_hash ((new_ledger_row (sample_registration zero_hash 3) 9)\<lparr>lr_converged_at := Some 9\<rparr>) = zero_hash"
    by (simp add: new_ledger_row_def sample_registration_def)
  ultimately show ?thesis
    using less by (simp add: reconcile_once_def) (simp add: pending_targets_def pending_of_def
        stuck_ledger_def pending_target_def sample_registration_def)
qed

section \<open>A page that covers the ledger converges it\<close>

definition pend :: "LedgerDb \<Rightarrow> string \<Rightarrow> string set" where
  "pend db i = {tg_target_id t | t. t \<in> set (target_rows db) \<and> tg_identity_hash t = i \<and> tg_status t = Pending}"

lemma set_pending_targets: "set (pending_targets db i) = pend db i"
  by (auto simp: pending_targets_def pending_of_def pend_def)

lemma pending_targets_empty: "pending_targets db i = [] \<longleftrightarrow> pend db i = {}"
  by (metis set_empty set_pending_targets)

text \<open>A provider that answers every request for the boundary it was asked about.\<close>

definition cooperative :: "(LedgerRow \<Rightarrow> string \<Rightarrow> SuppressionReceipt option) \<Rightarrow> bool" where
  "cooperative suppress \<longleftrightarrow> (\<forall>r target. \<exists>rc. suppress r target = Some rc \<and>
     rc_identity_hash rc = lr_identity_hash r \<and> rc_target_id rc = target \<and> rc_sequence rc = lr_sequence r \<and>
     rc_status rc \<noteq> Pending \<and> lr_sequence r \<le> rc_checkpoint rc \<and>
     rc_receipt_id rc \<noteq> [] \<and> length (rc_receipt_id rc) \<le> 2048)"

text \<open>What acknowledging one target leaves as it was.\<close>

definition acks_only :: "LedgerDb \<Rightarrow> LedgerDb \<Rightarrow> bool" where
  "acks_only db db' \<longleftrightarrow> ledger_inv db' \<and>
     (\<forall>j. map_option lr_sequence (ledger_of db' j) = map_option lr_sequence (ledger_of db j)) \<and>
     (\<forall>j. pend db' j \<subseteq> pend db j)"

lemma is_target_unique:
  assumes "distinct (map (\<lambda>t. (tg_identity_hash t, tg_target_id t)) ts)"
    and "t \<in> set ts" and "is_target i x sq t"
  shows "length (filter (is_target i x sq) ts) = 1"
  using assms
proof (induction ts)
  case (Cons u ts)
  have "\<not> is_target i x sq w" if "is_target i x sq u" and "w \<in> set ts" for w
  proof
    assume "is_target i x sq w"
    with that(1) have "(tg_identity_hash u, tg_target_id u) = (tg_identity_hash w, tg_target_id w)"
      by (simp add: is_target_def)
    with that(2) Cons.prems(1) show False by (auto simp: image_iff)
  qed
  then have "filter (is_target i x sq) ts = []" if "is_target i x sq u"
    using that by (auto simp: filter_empty_conv)
  then show ?case using Cons by (cases "is_target i x sq u") auto
qed simp

lemma reconcile_target_progress:
  assumes "ledger_inv db" and "cooperative suppress"
    and "map_option lr_sequence (ledger_of db (lr_identity_hash r)) = Some (lr_sequence r)"
    and "x \<in> pend db (lr_identity_hash r)"
  shows "\<exists>db'. reconcile_target sha suppress now db r x = Ok db' \<and> acks_only db db' \<and>
    x \<notin> pend db' (lr_identity_hash r) \<and>
    (\<forall>y \<in> pend db (lr_identity_hash r). y = x \<or> y \<in> pend db' (lr_identity_hash r))"
proof -
  let ?i = "lr_identity_hash r" and ?sq = "lr_sequence r"
  from assms(4) obtain t where t: "t \<in> set (target_rows db)" "tg_identity_hash t = ?i" "tg_target_id t = x"
    by (auto simp: pend_def)
  obtain row where row: "ledger_of db ?i = Some row" "lr_sequence row = ?sq"
    using assms(3) by auto
  then have "row_ok (target_rows db) row" "lr_identity_hash row = ?i"
    using assms(1) ledger_of_Some [OF row(1)] by (auto simp: ledger_inv_def)
  then have valid: "HASH ?i" "TARGET x" "tg_sequence t = ?sq"
    using t row(2) unfolding row_ok_def by auto
  have one: "length (filter (is_target ?i x ?sq) (target_rows db)) = 1"
    using assms(1) t valid(3) by (intro is_target_unique [of _ t]) (auto simp: ledger_inv_def is_target_def)
  obtain rc where rc: "suppress r x = Some rc" "rc_identity_hash rc = ?i" "rc_target_id rc = x"
    "rc_sequence rc = ?sq" "rc_status rc \<noteq> Pending" "?sq \<le> rc_checkpoint rc"
    "rc_receipt_id rc \<noteq> []" "length (rc_receipt_id rc) \<le> 2048"
    using assms(2) unfolding cooperative_def by blast
  have "\<exists>db'. record_target sha db ?i x ?sq (rc_checkpoint rc) (rc_status rc) (rc_receipt_id rc) now = Ok db'"
    using valid row one rc by (simp add: record_target_def Let_def)
  then obtain db' where db': "record_target sha db ?i x ?sq (rc_checkpoint rc) (rc_status rc) (rc_receipt_id rc) now = Ok db'"
    by blast
  let ?ack = "acknowledged sha (rc_receipt_id rc) (rc_checkpoint rc) (rc_status rc) now"
  note facts = record_target_OkD [OF db']
  have ts: "t' \<in> set (target_rows db') \<longleftrightarrow>
      (\<exists>u \<in> set (target_rows db). t' = (if is_target ?i x ?sq u then ?ack u else u))" for t'
    unfolding facts(6) map_if_in by simp
  have ack: "tg_status (?ack u) = rc_status rc" "tg_identity_hash (?ack u) = tg_identity_hash u"
    "tg_target_id (?ack u) = tg_target_id u" for u
    by (simp_all add: acknowledged_def)
  have seqs: "tg_sequence u = ?sq" if "u \<in> set (target_rows db)" "tg_identity_hash u = ?i" for u
    using \<open>row_ok (target_rows db) row\<close> \<open>lr_identity_hash row = ?i\<close> row(2) that unfolding row_ok_def by auto
  have still: "t' \<in> set (target_rows db) \<and> \<not> is_target ?i x ?sq t'"
    if "t' \<in> set (target_rows db')" "tg_status t' = Pending" for t'
  proof -
    from that(1) obtain u where u: "u \<in> set (target_rows db)"
      and t': "t' = (if is_target ?i x ?sq u then ?ack u else u)" unfolding ts by blast
    have "\<not> is_target ?i x ?sq u" using that(2) ack(1) rc(5) t' by (cases "is_target ?i x ?sq u") simp_all
    with u t' show ?thesis by simp
  qed
  have subset: "pend db' j \<subseteq> pend db j" for j
    using still unfolding pend_def by blast
  have gone: "x \<notin> pend db' ?i"
    using still seqs unfolding pend_def is_target_def by blast
  have kept: "y \<in> pend db' ?i" if y: "y \<in> pend db ?i" "y \<noteq> x" for y
  proof -
    from y obtain u where "u \<in> set (target_rows db)" "tg_identity_hash u = ?i" "tg_status u = Pending"
      "tg_target_id u = y" by (auto simp: pend_def)
    moreover from this y(2) have "u \<in> set (target_rows db')"
      unfolding ts by (intro bexI [of _ u]) (auto simp: is_target_def)
    ultimately show ?thesis unfolding pend_def by blast
  qed
  have "ledger_of db' j = map_option (\<lambda>r. if lr_identity_hash r = ?i
      then r\<lparr>lr_converged_at := (if pending_of (target_rows db') ?i = [] then Some now else None),
             lr_verified_at := Some now, lr_updated_at := now\<rparr> else r) (ledger_of db j)" for j
    by (rule ledger_of_map [OF _ facts(7)]) simp
  then have "map_option lr_sequence (ledger_of db' j) = map_option lr_sequence (ledger_of db j)" for j
    by (cases "ledger_of db j") auto
  then have "acks_only db db'"
    using subset ledger_inv_record_target [OF assms(1) db'] by (simp add: acks_only_def)
  moreover have "reconcile_target sha suppress now db r x = Ok db'"
    using rc db' by (simp add: reconcile_target_def)
  ultimately show ?thesis using gone kept by blast
qed

lemma acks_only_trans: "acks_only a b \<Longrightarrow> acks_only b c \<Longrightarrow> acks_only a c"
  unfolding acks_only_def by (metis subset_trans)

lemma reconcile_targets_progress:
  assumes "ledger_inv db" and "cooperative suppress"
    and "map_option lr_sequence (ledger_of db (lr_identity_hash r)) = Some (lr_sequence r)"
    and "set xs \<subseteq> pend db (lr_identity_hash r)" and "distinct xs"
  shows "\<exists>db'. reconcile_targets sha suppress now db r xs n = (db', Ok (n + length xs)) \<and> acks_only db db' \<and>
    set xs \<inter> pend db' (lr_identity_hash r) = {}"
  using assms
proof (induction xs arbitrary: db n)
  case Nil
  then show ?case by (simp add: acks_only_def)
next
  case (Cons x xs)
  from Cons.prems(4) have "x \<in> pend db (lr_identity_hash r)" by simp
  from reconcile_target_progress [OF Cons.prems(1-3) this] obtain db1 where
    db1: "reconcile_target sha suppress now db r x = Ok db1" "acks_only db db1"
      "x \<notin> pend db1 (lr_identity_hash r)"
      "\<forall>y \<in> pend db (lr_identity_hash r). y = x \<or> y \<in> pend db1 (lr_identity_hash r)" by blast
  have "set xs \<subseteq> pend db1 (lr_identity_hash r)" using db1(4) Cons.prems(4,5) by auto
  moreover have "ledger_inv db1" "map_option lr_sequence (ledger_of db1 (lr_identity_hash r)) = Some (lr_sequence r)"
    using db1(2) Cons.prems(3) by (simp_all add: acks_only_def)
  ultimately obtain db' where
    db': "reconcile_targets sha suppress now db1 r xs (n + 1) = (db', Ok (n + 1 + length xs))"
      "acks_only db1 db'" "set xs \<inter> pend db' (lr_identity_hash r) = {}"
    using Cons.IH [of db1 "n + 1"] Cons.prems(2,5) by auto
  have "x \<notin> pend db' (lr_identity_hash r)" using db1(3) db'(2) by (auto simp: acks_only_def)
  then show ?case using db1(1) db' acks_only_trans [OF db1(2) db'(2)] by simp
qed

lemma reconcile_records_progress:
  assumes "ledger_inv db" and "cooperative suppress"
    and "\<forall>r \<in> set rs. map_option lr_sequence (ledger_of db (lr_identity_hash r)) = Some (lr_sequence r)"
  shows "\<exists>db' m. reconcile_records sha suppress now pending_targets db rs n = (db', Ok m) \<and> acks_only db db' \<and>
    (\<forall>r \<in> set rs. pend db' (lr_identity_hash r) = {})"
  using assms
proof (induction rs arbitrary: db n)
  case Nil
  then show ?case by (simp add: acks_only_def)
next
  case (Cons r rs)
  have "distinct (pending_targets db (lr_identity_hash r))"
  proof -
    have "distinct (map (\<lambda>t. (tg_identity_hash t, tg_target_id t)) (target_rows db))"
      using Cons.prems(1) by (simp add: ledger_inv_def)
    then have "inj_on tg_target_id (set (pending_of (target_rows db) (lr_identity_hash r)))"
      and "distinct (target_rows db)"
      by (auto simp: distinct_map inj_on_def pending_of_def)
    then show ?thesis by (simp add: pending_targets_def distinct_map pending_of_def)
  qed
  then obtain db1 where
    db1: "reconcile_targets sha suppress now db r (pending_targets db (lr_identity_hash r)) n =
        (db1, Ok (n + length (pending_targets db (lr_identity_hash r))))" "acks_only db db1"
      "pend db (lr_identity_hash r) \<inter> pend db1 (lr_identity_hash r) = {}"
    using reconcile_targets_progress [OF Cons.prems(1,2), of r "pending_targets db (lr_identity_hash r)" sha now n]
      Cons.prems(3) by (auto simp: set_pending_targets)
  have gone: "pend db1 (lr_identity_hash r) = {}" using db1(2,3) by (auto simp: acks_only_def)
  have "ledger_inv db1" "\<forall>r \<in> set rs. map_option lr_sequence (ledger_of db1 (lr_identity_hash r)) = Some (lr_sequence r)"
    using db1(2) Cons.prems(3) by (simp_all add: acks_only_def)
  then obtain db' m where db': "reconcile_records sha suppress now pending_targets db1 rs
      (n + length (pending_targets db (lr_identity_hash r))) = (db', Ok m)" "acks_only db1 db'"
      "\<forall>r \<in> set rs. pend db' (lr_identity_hash r) = {}"
    using Cons.IH [OF _ Cons.prems(2)] by blast
  have "pend db' (lr_identity_hash r) = {}" using gone db'(2) by (auto simp: acks_only_def)
  then show ?case using db1(1) db' acks_only_trans [OF db1(2) db'(2)] by auto
qed

text \<open>
  One page that is large enough converges the ledger: when the provider acknowledges every
  request for the boundary it was asked about, \<open>reconcile_once\<close> with a limit of at least the
  number of identities succeeds and leaves no target pending, so every deletion is converged.
\<close>

theorem reconcile_once_converges:
  assumes "ledger_inv db" and "cooperative suppress"
    and "int (length (ledger_rows db)) \<le> limit" and "1 \<le> limit" and "limit \<le> 5000"
  shows "\<exists>db' m. reconcile_once sha suppress now db limit = (db', Ok m) \<and> ledger_inv db' \<and>
    (\<forall>r \<in> set (ledger_rows db'). lr_converged_at r \<noteq> None \<and> pending_targets db' (lr_identity_hash r) = [])"
proof -
  let ?rows = "sort_key lr_identity_hash (ledger_rows db)"
  have list: "list_restore_suppressions db [] limit = Ok ?rows"
    using assms(3-5) by (simp add: list_restore_suppressions_def)
  have "\<forall>r \<in> set ?rows. map_option lr_sequence (ledger_of db (lr_identity_hash r)) = Some (lr_sequence r)"
    using assms(1) by (simp add: ledger_inv_def ledger_of_unique)
  from reconcile_records_progress [OF assms(1,2) this, of sha now 0] obtain db' m where
    db': "reconcile_records sha suppress now pending_targets db ?rows 0 = (db', Ok m)" "acks_only db db'"
      "\<forall>r \<in> set (ledger_rows db). pend db' (lr_identity_hash r) = {}" by auto
  have inv: "ledger_inv db'" using db'(2) by (simp add: acks_only_def)
  have "pend db' (lr_identity_hash r) = {}" if "r \<in> set (ledger_rows db')" for r
  proof -
    have "ledger_of db' (lr_identity_hash r) = Some r"
      using inv that by (simp add: ledger_inv_def ledger_of_unique)
    then have "map_option lr_sequence (ledger_of db (lr_identity_hash r)) \<noteq> None"
      using db'(2) by (metis acks_only_def option.map_disc_iff option.simps(3))
    then obtain r0 where "ledger_of db (lr_identity_hash r) = Some r0" by auto
    with db'(3) ledger_of_Some [OF this] show ?thesis by metis
  qed
  then have "\<forall>r \<in> set (ledger_rows db'). lr_converged_at r \<noteq> None \<and> pending_targets db' (lr_identity_hash r) = []"
    using inv by (auto simp: ledger_inv_def row_ok_def pending_targets_empty [symmetric] pending_targets_Nil)
  with inv db'(1) list show ?thesis by (simp add: reconcile_once_def)
qed

definition agreeable :: "LedgerRow \<Rightarrow> string \<Rightarrow> SuppressionReceipt option" where
  "agreeable r target = Some \<lparr>rc_identity_hash = lr_identity_hash r, rc_target_id = target,
     rc_sequence = lr_sequence r, rc_checkpoint = lr_sequence r, rc_status = Applied, rc_receipt_id = ''ok''\<rparr>"

theorem reconcile_once_converges_witness:
  "\<exists>db' m. reconcile_once id agreeable 20 sample_ledger 10 = (db', Ok m) \<and>
    (\<forall>r \<in> set (ledger_rows db'). lr_converged_at r \<noteq> None)"
proof -
  have "cooperative agreeable" by (simp add: cooperative_def agreeable_def)
  from reconcile_once_converges [OF ledger_reachable_inv [OF sample_ledger_reachable] this, of 10 id 20]
  show ?thesis by (auto simp: sample_ledger_def)
qed

end
