(* ===== verification/IndexingEvents.thy ===== *)
theory IndexingEvents
  imports Integrity DeletionLedger
begin

text \<open>
  \<open>query_api/app/indexing_events\<close>: every accepted mutation becomes a durable event with a
  per-document sequence before it is sent to Kafka. \<open>contracts.py\<close> is the drafts, hashes and
  the envelope; \<open>in_memory_store.py\<close> is \<open>EvMem\<close>; \<open>postgres_store.py\<close> is \<open>EvDb\<close>,
  whose transactions also register tombstones in the deletion ledger. An operation returns the
  store next to its result: a transaction that raises returns the old tables, while the
  in-memory store keeps what it had already assigned. The protocol \<open>IndexingEventStore\<close> is
  the locale \<open>indexing_event_store\<close>, interpreted on both stores.
\<close>

section \<open>Contracts\<close>

definition IDENTITY_SEPARATOR :: char where
  "IDENTITY_SEPARATOR = CHR 0x1F"

datatype event_error =
    IdempotencyConflict | RepairSourceNotFound | BadEvent string
  | LedgerRefused ledger_error | RowRefused | PublishFailed

record IndexingEventDraft =
  dr_tenant_id :: string
  dr_collection :: string
  dr_document_id :: string
  dr_operation :: string
  dr_target_clusters :: "string list"
  dr_routing_revision :: int
  dr_idempotency_key :: string
  dr_rollout_id :: "string option"
  dr_trace :: document
  dr_document :: "document option"
  dr_delete_filter :: "string option"

record PreparedIndexingEvent =
  pe_event_id :: string
  pe_sequence :: int
  pe_payload :: document
  pe_created_at :: time
  pe_position :: int
  pe_published_at :: "time option"
  pe_attempts :: int
  pe_last_error :: "string option"

record LatestRepairDraft =
  rp_identity_hash :: string
  rp_idempotency_key :: string
  rp_target_clusters :: "string list"
  rp_routing_revision :: int
  rp_rollout_id :: "string option"
  rp_trace :: document

record event_env =
  ev_now :: time
  ev_uuid :: string

definition logical_key :: "string \<Rightarrow> string \<Rightarrow> string \<Rightarrow> string" where
  "logical_key tenant coll doc = join_with [IDENTITY_SEPARATOR] [tenant, coll, doc]"

definition identity_hash_of :: "platform \<Rightarrow> string \<Rightarrow> string \<Rightarrow> string \<Rightarrow> string" where
  "identity_hash_of pl tenant coll doc = sha256 pl (logical_key tenant coll doc)"

definition draft_identity_hash :: "platform \<Rightarrow> IndexingEventDraft \<Rightarrow> string" where
  "draft_identity_hash pl d = identity_hash_of pl (dr_tenant_id d) (dr_collection d) (dr_document_id d)"

definition indexing_idempotency_key_hash :: "platform \<Rightarrow> string \<Rightarrow> string \<Rightarrow> string \<Rightarrow> string \<Rightarrow> string" where
  "indexing_idempotency_key_hash pl tenant coll doc key =
     sha256 pl (join_with [IDENTITY_SEPARATOR] [tenant, coll, doc, key])"

definition draft_key_hash :: "platform \<Rightarrow> IndexingEventDraft \<Rightarrow> string" where
  "draft_key_hash pl d = indexing_idempotency_key_hash pl (dr_tenant_id d) (dr_collection d)
     (dr_document_id d) (dr_idempotency_key d)"

definition opt_json :: "string option \<Rightarrow> json" where
  "opt_json v = (case v of Some s \<Rightarrow> JStr s | None \<Rightarrow> JNull)"

text \<open>\<open>request_digest\<close>: the mutation without its routing and trace; a NaN raises.\<close>

definition digest_material :: "IndexingEventDraft \<Rightarrow> document" where
  "digest_material d =
     [(''tenant_id'', JStr (dr_tenant_id d)), (''collection'', JStr (dr_collection d)),
      (''document_id'', JStr (dr_document_id d)), (''operation'', JStr (dr_operation d)),
      (''document'', (case dr_document d of Some x \<Rightarrow> JObj x | None \<Rightarrow> JNull)),
      (''delete_filter'', opt_json (dr_delete_filter d))]"

definition request_digest :: "platform \<Rightarrow> IndexingEventDraft \<Rightarrow> string option" where
  "request_digest pl d =
     (if finite_json (JObj (digest_material d))
      then Some (sha256 pl (canonical_json pl (JObj (digest_material d)))) else None)"

definition build_event_payload ::
  "platform \<Rightarrow> IndexingEventDraft \<Rightarrow> string \<Rightarrow> int \<Rightarrow> time \<Rightarrow> document" where
  "build_event_payload pl d event_id sequence occurred_at =
     [(''envelope_version'', JInt 2),
      (''event_id'', JStr event_id),
      (''identity'', JObj [(''tenant_id'', JStr (dr_tenant_id d)),
         (''collection'', JStr (dr_collection d)), (''document_id'', JStr (dr_document_id d))]),
      (''document_version'', JInt sequence),
      (''sequence'', JInt sequence),
      (''operation'', JStr (dr_operation d)),
      (''routing_revision'', JInt (dr_routing_revision d)),
      (''rollout_id'', opt_json (dr_rollout_id d)),
      (''target_clusters'', JArr (map JStr (dr_target_clusters d))),
      (''occurred_at'', JStr (iso_text pl occurred_at)),
      (''trace'', JObj (dr_trace d))] @
     (case dr_document d of Some x \<Rightarrow> [(''document'', JObj x)] | None \<Rightarrow> []) @
     (case dr_delete_filter d of Some f \<Rightarrow> [(''delete_filter'', JStr f)] | None \<Rightarrow> [])"

text \<open>Reading the identity back from a stored envelope.\<close>

definition text_field :: "document \<Rightarrow> string \<Rightarrow> string" where
  "text_field d k = (case jget d k of JStr s \<Rightarrow> s | _ \<Rightarrow> [])"

definition payload_identity :: "document \<Rightarrow> string \<times> string \<times> string" where
  "payload_identity p = (case jget p ''identity'' of
     JObj i \<Rightarrow> (text_field i ''tenant_id'', text_field i ''collection'', text_field i ''document_id'')
   | _ \<Rightarrow> ([], [], []))"

definition kafka_key :: "PreparedIndexingEvent \<Rightarrow> string" where
  "kafka_key e = (case payload_identity (pe_payload e) of (t, c, d) \<Rightarrow> logical_key t c d)"

definition event_identity_hash :: "platform \<Rightarrow> PreparedIndexingEvent \<Rightarrow> string" where
  "event_identity_hash pl e = sha256 pl (kafka_key e)"

definition build_latest_repair_draft ::
  "platform \<Rightarrow> LatestRepairDraft \<Rightarrow> PreparedIndexingEvent \<Rightarrow> event_error + IndexingEventDraft" where
  "build_latest_repair_draft pl rp source =
     (if event_identity_hash pl source \<noteq> rp_identity_hash rp then Raise (BadEvent ''identity'')
      else
        let payload = pe_payload source; operation = text_field payload ''operation'' in
        if operation \<notin> {''upsert'', ''delete'', ''tombstone''} then Raise (BadEvent ''operation'')
        else case payload_identity payload of (t, c, d) \<Rightarrow>
          Ok \<lparr>dr_tenant_id = t, dr_collection = c, dr_document_id = d, dr_operation = operation,
              dr_target_clusters = rp_target_clusters rp, dr_routing_revision = rp_routing_revision rp,
              dr_idempotency_key = rp_idempotency_key rp, dr_rollout_id = rp_rollout_id rp,
              dr_trace = rp_trace rp,
              dr_document = (case jget payload ''document'' of JObj x \<Rightarrow> Some x | _ \<Rightarrow> None),
              dr_delete_filter = (case jget payload ''delete_filter'' of JStr s \<Rightarrow> Some s | _ \<Rightarrow> None)\<rparr>)"

definition new_event :: "platform \<Rightarrow> event_env \<Rightarrow> IndexingEventDraft \<Rightarrow> int \<Rightarrow> int \<Rightarrow> PreparedIndexingEvent" where
  "new_event pl env d sequence position =
     (let eid = ''evt:'' @ ev_uuid env in
      \<lparr>pe_event_id = eid, pe_sequence = sequence,
       pe_payload = build_event_payload pl d eid sequence (ev_now env), pe_created_at = ev_now env,
       pe_position = position, pe_published_at = None, pe_attempts = 0, pe_last_error = None\<rparr>)"

definition unpublished_with_id :: "string \<Rightarrow> PreparedIndexingEvent \<Rightarrow> bool" where
  "unpublished_with_id eid e \<longleftrightarrow> pe_event_id e = eid \<and> pe_published_at e = None"

definition publish_event :: "time \<Rightarrow> PreparedIndexingEvent \<Rightarrow> PreparedIndexingEvent" where
  "publish_event t e = e\<lparr>pe_published_at := Some t, pe_attempts := pe_attempts e + 1, pe_last_error := None\<rparr>"

definition fail_event :: "string \<Rightarrow> PreparedIndexingEvent \<Rightarrow> PreparedIndexingEvent" where
  "fail_event err e = e\<lparr>pe_attempts := pe_attempts e + 1, pe_last_error := Some (take 4096 err)\<rparr>"

definition validate_position_window :: "int \<Rightarrow> int \<Rightarrow> int \<Rightarrow> event_error + unit" where
  "validate_position_window after through limit =
     (if after < 0 \<or> through < after then Raise (BadEvent ''window'')
      else if limit < 1 then Raise (BadEvent ''limit'') else Ok ())"

section \<open>The in-memory store\<close>

record EvMem =
  em_heads :: "(string, int) pydict"
  em_by_key :: "(string, string \<times> PreparedIndexingEvent) pydict"
  em_position :: int

definition em_empty :: EvMem where
  "em_empty = \<lparr>em_heads = [], em_by_key = [], em_position = 0\<rparr>"

definition em_events :: "EvMem \<Rightarrow> PreparedIndexingEvent list" where
  "em_events s = map (snd \<circ> snd) (em_by_key s)"

text \<open>
  The head and the position are assigned before \<open>request_digest\<close> is computed for the
  record, so a draft that cannot be digested leaves them advanced.
\<close>

definition em_prepare ::
  "platform \<Rightarrow> EvMem \<Rightarrow> event_env \<Rightarrow> IndexingEventDraft \<Rightarrow> EvMem \<times> (event_error + PreparedIndexingEvent)" where
  "em_prepare pl s env d =
     (case dget (em_by_key s) (draft_key_hash pl d) of
        Some (digest, event) \<Rightarrow>
          (s, case request_digest pl d of
                None \<Rightarrow> Raise (BadEvent ''request_digest'')
              | Some dg \<Rightarrow> if digest \<noteq> dg then Raise IdempotencyConflict else Ok event)
      | None \<Rightarrow>
          let ident = draft_identity_hash pl d;
              sequence = (case dget (em_heads s) ident of Some n \<Rightarrow> n | None \<Rightarrow> 0) + 1;
              event = new_event pl env d sequence (em_position s + 1);
              s1 = s\<lparr>em_position := em_position s + 1, em_heads := dput ident sequence (em_heads s)\<rparr> in
          case request_digest pl d of
            None \<Rightarrow> (s1, Raise (BadEvent ''request_digest''))
          | Some dg \<Rightarrow> (s1\<lparr>em_by_key := dput (draft_key_hash pl d) (dg, event) (em_by_key s)\<rparr>, Ok event))"

definition em_list_pending :: "EvMem \<Rightarrow> int \<Rightarrow> event_error + PreparedIndexingEvent list" where
  "em_list_pending s limit =
     (if limit < 1 then Raise (BadEvent ''limit'')
      else Ok (take (nat limit)
        (filter (\<lambda>e. pe_published_at e = None) (sort_key pe_position (em_events s)))))"

definition em_update ::
  "EvMem \<Rightarrow> string \<Rightarrow> (PreparedIndexingEvent \<Rightarrow> PreparedIndexingEvent) \<Rightarrow> EvMem \<times> bool" where
  "em_update s eid f =
     (case update_first (\<lambda>(k, dg, e). unpublished_with_id eid e) (\<lambda>(k, dg, e). (k, dg, f e)) (em_by_key s) of
        Some rows \<Rightarrow> (s\<lparr>em_by_key := rows\<rparr>, True)
      | None \<Rightarrow> (s, False))"

definition em_mark_published :: "EvMem \<Rightarrow> string \<Rightarrow> time \<Rightarrow> EvMem \<times> bool" where
  "em_mark_published s eid t = em_update s eid (publish_event t)"

definition em_record_failure :: "EvMem \<Rightarrow> string \<Rightarrow> string \<Rightarrow> EvMem \<times> bool" where
  "em_record_failure s eid err = em_update s eid (fail_event err)"

definition em_pending_count :: "EvMem \<Rightarrow> nat" where
  "em_pending_count s = length (filter (\<lambda>e. pe_published_at e = None) (em_events s))"

definition em_high_water_mark :: "EvMem \<Rightarrow> int" where
  "em_high_water_mark s = em_position s"

text \<open>The newest event of each identity, in a dictionary filled in insertion order.\<close>

fun latest_by :: "('e \<Rightarrow> string) \<Rightarrow> ('e \<Rightarrow> int) \<Rightarrow> (string, 'e) pydict \<Rightarrow> 'e list \<Rightarrow> (string, 'e) pydict" where
  "latest_by ident pos acc [] = acc"
| "latest_by ident pos acc (e # es) =
     (case dget acc (ident e) of
        None \<Rightarrow> latest_by ident pos (dput (ident e) e acc) es
      | Some cur \<Rightarrow> latest_by ident pos (if pos e > pos cur then dput (ident e) e acc else acc) es)"

definition em_list_latest_by_identity ::
  "platform \<Rightarrow> EvMem \<Rightarrow> int \<Rightarrow> int \<Rightarrow> int \<Rightarrow> event_error + PreparedIndexingEvent list" where
  "em_list_latest_by_identity pl s after through limit =
     ebind (validate_position_window after through limit) (\<lambda>_.
       Ok (take (nat limit) (sort_key pe_position (dvalues (latest_by (event_identity_hash pl) pe_position []
         (filter (\<lambda>e. after < pe_position e \<and> pe_position e \<le> through) (em_events s)))))))"

definition em_prepare_latest_repair ::
  "platform \<Rightarrow> EvMem \<Rightarrow> event_env \<Rightarrow> LatestRepairDraft \<Rightarrow> EvMem \<times> (event_error + PreparedIndexingEvent)" where
  "em_prepare_latest_repair pl s env rp =
     (case py_max pe_sequence (filter (\<lambda>e. event_identity_hash pl e = rp_identity_hash rp) (em_events s)) of
        None \<Rightarrow> (s, Raise RepairSourceNotFound)
      | Some source \<Rightarrow>
          (case payload_identity (pe_payload source) of (t, c, d) \<Rightarrow>
            case dget (em_by_key s) (indexing_idempotency_key_hash pl t c d (rp_idempotency_key rp)) of
              Some (_, event) \<Rightarrow> (s, Ok event)
            | None \<Rightarrow> (case build_latest_repair_draft pl rp source of
                Inl e \<Rightarrow> (s, Raise e)
              | Inr draft \<Rightarrow> em_prepare pl s env draft)))"

section \<open>The PostgreSQL store\<close>

record EvHead =
  hd_identity_hash :: string
  hd_tenant_id :: string
  hd_collection :: string
  hd_document_id :: string
  hd_last_sequence :: int

record EvRow =
  er_key_hash :: string
  er_request_digest :: string
  er_identity_hash :: string
  er_event :: PreparedIndexingEvent

record EvDb =
  db_heads :: "EvHead list"
  db_rows :: "EvRow list"
  db_next_position :: int        \<comment> \<open>\<open>GENERATED ALWAYS AS IDENTITY\<close>\<close>
  db_ledger :: LedgerDb

definition db_empty :: EvDb where
  "db_empty = \<lparr>db_heads = [], db_rows = [], db_next_position = 1, db_ledger = empty_ledger\<rparr>"

definition head_of_identity :: "EvDb \<Rightarrow> string \<Rightarrow> EvHead option" where
  "head_of_identity db ident = find (\<lambda>h. hd_identity_hash h = ident) (db_heads db)"

definition existing_for_key :: "EvDb \<Rightarrow> string \<Rightarrow> EvRow option" where
  "existing_for_key db key = find (\<lambda>r. er_key_hash r = key) (db_rows db)"

definition verify_existing ::
  "platform \<Rightarrow> EvRow \<Rightarrow> IndexingEventDraft \<Rightarrow> event_error + PreparedIndexingEvent" where
  "verify_existing pl row d =
     (case request_digest pl d of
        None \<Rightarrow> Raise (BadEvent ''request_digest'')
      | Some dg \<Rightarrow> if er_request_digest row \<noteq> dg then Raise IdempotencyConflict else Ok (er_event row))"

definition ensure_head :: "platform \<Rightarrow> EvDb \<Rightarrow> IndexingEventDraft \<Rightarrow> event_error + EvDb" where
  "ensure_head pl db d =
     (case head_of_identity db (draft_identity_hash pl d) of
        Some _ \<Rightarrow> Ok db
      | None \<Rightarrow>
          if length (draft_identity_hash pl d) \<noteq> 64 \<or> length (dr_tenant_id d) > 256 \<or>
             length (dr_collection d) > 128 \<or> length (dr_document_id d) > 256
          then Raise RowRefused
          else Ok (db\<lparr>db_heads := db_heads db @ [\<lparr>hd_identity_hash = draft_identity_hash pl d,
                 hd_tenant_id = dr_tenant_id d, hd_collection = dr_collection d,
                 hd_document_id = dr_document_id d, hd_last_sequence = 0\<rparr>]\<rparr>))"

definition advance_head :: "EvDb \<Rightarrow> string \<Rightarrow> int \<Rightarrow> EvDb" where
  "advance_head db ident sequence =
     db\<lparr>db_heads := map (\<lambda>h. if hd_identity_hash h = ident then h\<lparr>hd_last_sequence := sequence\<rparr> else h)
          (db_heads db)\<rparr>"

definition outbox_event_fits :: "EvDb \<Rightarrow> EvRow \<Rightarrow> bool" where
  "outbox_event_fits db r \<longleftrightarrow>
     length (pe_event_id (er_event r)) \<le> 68 \<and> length (er_key_hash r) = 64 \<and>
     length (er_request_digest r) = 64 \<and> length (er_identity_hash r) = 64 \<and>
     1 \<le> pe_sequence (er_event r) \<and> pe_sequence (er_event r) < 2 ^ 63 \<and>
     pe_event_id (er_event r) \<notin> set (map (pe_event_id \<circ> er_event) (db_rows db)) \<and>
     er_key_hash r \<notin> set (map er_key_hash (db_rows db)) \<and>
     (er_identity_hash r, pe_sequence (er_event r)) \<notin>
       set (map (\<lambda>x. (er_identity_hash x, pe_sequence (er_event x))) (db_rows db))"

text \<open>The tombstone of a deletion is registered in the same transaction as its event.\<close>

definition event_registration :: "platform \<Rightarrow> IndexingEventDraft \<Rightarrow> PreparedIndexingEvent \<Rightarrow> TombstoneRegistration" where
  "event_registration pl d e =
     \<lparr>tr_identity_hash = draft_identity_hash pl d, tr_tenant_id = dr_tenant_id d,
      tr_collection = dr_collection d, tr_document_id = dr_document_id d,
      tr_sequence = pe_sequence e, tr_document_version = pe_sequence e,
      tr_event_id = pe_event_id e,
      tr_event_digest = sha256 pl (canonical_json pl (JObj (pe_payload e))),
      tr_routing_revision = dr_routing_revision d, tr_target_ids = dr_target_clusters d,
      tr_requested_at = pe_created_at e,
      tr_rollout_id = (case dr_rollout_id d of Some r \<Rightarrow> r | None \<Rightarrow> []),
      tr_retention_until = None\<rparr>"

definition insert_outbox_event ::
  "platform \<Rightarrow> EvDb \<Rightarrow> event_env \<Rightarrow> IndexingEventDraft \<Rightarrow> int \<Rightarrow> event_error + EvDb \<times> PreparedIndexingEvent" where
  "insert_outbox_event pl db env d sequence =
     (let event = new_event pl env d sequence (db_next_position db) in
      case request_digest pl d of
        None \<Rightarrow> Raise (BadEvent ''request_digest'')
      | Some dg \<Rightarrow>
          let row = \<lparr>er_key_hash = draft_key_hash pl d, er_request_digest = dg,
                     er_identity_hash = draft_identity_hash pl d, er_event = event\<rparr>;
              db1 = db\<lparr>db_rows := db_rows db @ [row], db_next_position := db_next_position db + 1\<rparr> in
          if \<not> outbox_event_fits db row then Raise RowRefused
          else if dr_operation d \<in> {''delete'', ''tombstone''} then
            (if \<not> finite_json (JObj (pe_payload event)) then Raise (BadEvent ''payload'')
             else case register_tombstone_in_transaction (db_ledger db) (event_registration pl d event) (ev_now env) of
               Inl e \<Rightarrow> Raise (LedgerRefused e)
             | Inr ledger \<Rightarrow> Ok (db1\<lparr>db_ledger := ledger\<rparr>, event))
          else Ok (db1, event))"

text \<open>A transaction: its tables are kept only when it commits.\<close>

definition in_transaction :: "'s \<Rightarrow> event_error + 's \<times> 'a \<Rightarrow> 's \<times> (event_error + 'a)" where
  "in_transaction db r = (case r of Inl e \<Rightarrow> (db, Raise e) | Inr (db', x) \<Rightarrow> (db', Ok x))"

definition allocate_and_insert ::
  "platform \<Rightarrow> EvDb \<Rightarrow> event_env \<Rightarrow> IndexingEventDraft \<Rightarrow> EvHead \<Rightarrow> event_error + EvDb \<times> PreparedIndexingEvent" where
  "allocate_and_insert pl db env d h =
     (let sequence = hd_last_sequence h + 1 in
      insert_outbox_event pl (advance_head db (hd_identity_hash h) sequence) env d sequence)"

definition db_prepare ::
  "platform \<Rightarrow> EvDb \<Rightarrow> event_env \<Rightarrow> IndexingEventDraft \<Rightarrow> EvDb \<times> (event_error + PreparedIndexingEvent)" where
  "db_prepare pl db env d =
     in_transaction db
       (case existing_for_key db (draft_key_hash pl d) of
          Some row \<Rightarrow> ebind (verify_existing pl row d) (\<lambda>e. Ok (db, e))
        | None \<Rightarrow>
            ebind (ensure_head pl db d) (\<lambda>db1.
              case head_of_identity db1 (draft_identity_hash pl d) of
                None \<Rightarrow> Raise RowRefused
              | Some h \<Rightarrow> allocate_and_insert pl db1 env d h))"

definition db_list_pending :: "EvDb \<Rightarrow> int \<Rightarrow> event_error + PreparedIndexingEvent list" where
  "db_list_pending db limit =
     (if limit < 1 then Raise (BadEvent ''limit'')
      else Ok (take (nat limit) (sort_key pe_position
        (filter (\<lambda>e. pe_published_at e = None) (map er_event (db_rows db))))))"

definition db_update ::
  "EvDb \<Rightarrow> string \<Rightarrow> (PreparedIndexingEvent \<Rightarrow> PreparedIndexingEvent) \<Rightarrow> EvDb \<times> bool" where
  "db_update db eid f =
     (db\<lparr>db_rows := map (\<lambda>r. if unpublished_with_id eid (er_event r)
        then r\<lparr>er_event := f (er_event r)\<rparr> else r) (db_rows db)\<rparr>,
      length (filter (\<lambda>r. unpublished_with_id eid (er_event r)) (db_rows db)) = 1)"

definition db_mark_published :: "EvDb \<Rightarrow> string \<Rightarrow> time \<Rightarrow> EvDb \<times> bool" where
  "db_mark_published db eid t = db_update db eid (publish_event t)"

definition db_record_failure :: "EvDb \<Rightarrow> string \<Rightarrow> string \<Rightarrow> EvDb \<times> bool" where
  "db_record_failure db eid err = db_update db eid (fail_event err)"

definition db_pending_count :: "EvDb \<Rightarrow> nat" where
  "db_pending_count db = length (filter (\<lambda>r. pe_published_at (er_event r) = None) (db_rows db))"

definition db_high_water_mark :: "EvDb \<Rightarrow> int" where
  "db_high_water_mark db =
     (case py_max id (map (pe_position \<circ> er_event) (db_rows db)) of Some p \<Rightarrow> p | None \<Rightarrow> 0)"

text \<open>\<open>row_number() OVER (PARTITION BY identity ORDER BY position DESC) = 1\<close>.\<close>

definition rank_one :: "EvRow list \<Rightarrow> EvRow \<Rightarrow> bool" where
  "rank_one rows r \<longleftrightarrow> (\<forall>r' \<in> set rows. er_identity_hash r' = er_identity_hash r \<longrightarrow>
     pe_position (er_event r') \<le> pe_position (er_event r))"

definition db_list_latest_by_identity ::
  "EvDb \<Rightarrow> int \<Rightarrow> int \<Rightarrow> int \<Rightarrow> event_error + PreparedIndexingEvent list" where
  "db_list_latest_by_identity db after through limit =
     ebind (validate_position_window after through limit) (\<lambda>_.
       let window = filter (\<lambda>r. after < pe_position (er_event r) \<and> pe_position (er_event r) \<le> through) (db_rows db) in
       Ok (take (nat limit) (sort_key pe_position (map er_event (filter (rank_one window) window)))))"

definition db_prepare_latest_repair ::
  "platform \<Rightarrow> EvDb \<Rightarrow> event_env \<Rightarrow> LatestRepairDraft \<Rightarrow> EvDb \<times> (event_error + PreparedIndexingEvent)" where
  "db_prepare_latest_repair pl db env rp =
     in_transaction db
       (case head_of_identity db (rp_identity_hash rp) of
          None \<Rightarrow> Raise RepairSourceNotFound
        | Some h \<Rightarrow>
            (case existing_for_key db (indexing_idempotency_key_hash pl (hd_tenant_id h) (hd_collection h)
                    (hd_document_id h) (rp_idempotency_key rp)) of
               Some row \<Rightarrow> Ok (db, er_event row)
             | None \<Rightarrow>
                 (case py_max (pe_sequence \<circ> er_event)
                         (filter (\<lambda>r. er_identity_hash r = rp_identity_hash rp) (db_rows db)) of
                    None \<Rightarrow> Raise RepairSourceNotFound
                  | Some source \<Rightarrow>
                      ebind (build_latest_repair_draft pl rp (er_event source)) (\<lambda>d.
                        allocate_and_insert pl db env d h))))"

section \<open>The producer\<close>

text \<open>
  \<open>services/kafka_producer.py\<close> over a store: a broker call ends acknowledged, with an
  exception before the message was stored, or with one after it (the acknowledgement is lost).
  \<open>send\<close> returns a future that the code drops, and \<open>flush\<close> waits for the future without
  raising its error: a message that the broker refused while flushing looks delivered
  (\<open>RejectedUnseen\<close>). The log is the list of stored messages.
\<close>

datatype send_outcome = Acked | Rejected | AckLost | RejectedUnseen

record log_message =
  lm_topic :: string
  lm_key :: string
  lm_value :: document

type_synonym kafka_log = "log_message list"

definition INT64_MAX :: int where "INT64_MAX = 2 ^ 63 - 1"

definition producer_targets :: "string list \<Rightarrow> event_error + string list" where
  "producer_targets ts =
     (let targets = fromkeys (map strip ts) in
      if targets = [] \<or> [] \<in> set targets then Raise (BadEvent ''target clusters'') else Ok targets)"

definition positive_int64 :: "int \<Rightarrow> event_error + int" where
  "positive_int64 n = (if n < 1 \<or> n > INT64_MAX then Raise (BadEvent ''positive'') else Ok n)"

text \<open>The outbound copy merges the span of the producer into the stored trace.\<close>

definition outbound_message :: "string \<Rightarrow> document \<Rightarrow> PreparedIndexingEvent \<Rightarrow> log_message" where
  "outbound_message prefix propagated e =
     (let trace = (case jget (pe_payload e) ''trace'' of JObj t \<Rightarrow> t | _ \<Rightarrow> []) in
      \<lparr>lm_topic = prefix @ ''_'' @ fst (snd (payload_identity (pe_payload e))), lm_key = kafka_key e,
       lm_value = dput ''trace'' (JObj (foldl (\<lambda>t (k, v). dput k v t) trace propagated)) (pe_payload e)\<rparr>)"

definition publish_prepared ::
  "('s \<Rightarrow> string \<Rightarrow> time \<Rightarrow> 's \<times> bool) \<Rightarrow> ('s \<Rightarrow> string \<Rightarrow> string \<Rightarrow> 's \<times> bool) \<Rightarrow> string \<Rightarrow> document
   \<Rightarrow> send_outcome \<Rightarrow> time \<Rightarrow> 's \<Rightarrow> kafka_log \<Rightarrow> PreparedIndexingEvent \<Rightarrow> 's \<times> kafka_log \<times> (event_error + unit)" where
  "publish_prepared mark record_failure prefix propagated outcome now s klog e =
     (case outcome of
        Acked \<Rightarrow> (fst (mark s (pe_event_id e) now), klog @ [outbound_message prefix propagated e], Ok ())
      | Rejected \<Rightarrow> (fst (record_failure s (pe_event_id e) ''send failed''), klog, Raise PublishFailed)
      | AckLost \<Rightarrow> (fst (record_failure s (pe_event_id e) ''send failed''),
                   klog @ [outbound_message prefix propagated e], Raise PublishFailed)
      | RejectedUnseen \<Rightarrow> (fst (mark s (pe_event_id e) now), klog, Ok ()))"

fun publish_all ::
  "('s \<Rightarrow> string \<Rightarrow> time \<Rightarrow> 's \<times> bool) \<Rightarrow> ('s \<Rightarrow> string \<Rightarrow> string \<Rightarrow> 's \<times> bool) \<Rightarrow> string \<Rightarrow> document
   \<Rightarrow> (PreparedIndexingEvent \<Rightarrow> send_outcome) \<Rightarrow> time \<Rightarrow> 's \<Rightarrow> kafka_log \<Rightarrow> PreparedIndexingEvent list \<Rightarrow> nat
   \<Rightarrow> 's \<times> kafka_log \<times> (event_error + nat)" where
  "publish_all mark record_failure prefix propagated broker now s klog [] n = (s, klog, Ok n)"
| "publish_all mark record_failure prefix propagated broker now s klog (e # es) n =
     (case publish_prepared mark record_failure prefix propagated (broker e) now s klog e of
        (s', klog', Inl err) \<Rightarrow> (s', klog', Raise err)
      | (s', klog', Inr _) \<Rightarrow>
          publish_all mark record_failure prefix propagated broker now s' klog' es (n + 1))"

definition publish_pending ::
  "('s \<Rightarrow> int \<Rightarrow> event_error + PreparedIndexingEvent list) \<Rightarrow> ('s \<Rightarrow> string \<Rightarrow> time \<Rightarrow> 's \<times> bool)
   \<Rightarrow> ('s \<Rightarrow> string \<Rightarrow> string \<Rightarrow> 's \<times> bool) \<Rightarrow> string \<Rightarrow> document
   \<Rightarrow> (PreparedIndexingEvent \<Rightarrow> send_outcome) \<Rightarrow> time \<Rightarrow> int \<Rightarrow> 's \<Rightarrow> kafka_log
   \<Rightarrow> 's \<times> kafka_log \<times> (event_error + nat)" where
  "publish_pending list_pending mark record_failure prefix propagated broker now limit s klog =
     (case list_pending s limit of
        Inl e \<Rightarrow> (s, klog, Raise e)
      | Inr es \<Rightarrow> publish_all mark record_failure prefix propagated broker now s klog es 0)"

text \<open>\<open>publish_document\<close> and \<open>publish_delete_document\<close> with a durable store.\<close>

definition publish_mutation ::
  "('s \<Rightarrow> event_env \<Rightarrow> IndexingEventDraft \<Rightarrow> 's \<times> (event_error + PreparedIndexingEvent))
   \<Rightarrow> ('s \<Rightarrow> string \<Rightarrow> time \<Rightarrow> 's \<times> bool) \<Rightarrow> ('s \<Rightarrow> string \<Rightarrow> string \<Rightarrow> 's \<times> bool)
   \<Rightarrow> string \<Rightarrow> document \<Rightarrow> send_outcome \<Rightarrow> event_env \<Rightarrow> 's \<Rightarrow> kafka_log \<Rightarrow> IndexingEventDraft
   \<Rightarrow> 's \<times> kafka_log \<times> (event_error + string)" where
  "publish_mutation prepare mark record_failure prefix propagated outcome env s klog draft =
     (case ebind (positive_int64 (dr_routing_revision draft)) (\<lambda>_. producer_targets (dr_target_clusters draft)) of
        Inl e \<Rightarrow> (s, klog, Raise e)
      | Inr targets \<Rightarrow>
          (case prepare s env (draft\<lparr>dr_target_clusters := targets\<rparr>) of
             (s1, Inl e) \<Rightarrow> (s1, klog, Raise e)
           | (s1, Inr prepared) \<Rightarrow>
               if pe_published_at prepared \<noteq> None then (s1, klog, Ok (pe_event_id prepared))
               else (case publish_prepared mark record_failure prefix propagated outcome (ev_now env) s1 klog prepared of
                       (s2, log2, Inl e) \<Rightarrow> (s2, log2, Raise e)
                     | (s2, log2, Inr _) \<Rightarrow> (s2, log2, Ok (pe_event_id prepared)))))"

section \<open>Envelopes\<close>

lemma payload_identity_built:
  "payload_identity (build_event_payload pl d eid n t) = (dr_tenant_id d, dr_collection d, dr_document_id d)"
  by (simp add: build_event_payload_def payload_identity_def jget_def text_field_def)

lemma new_event_fields [simp]:
  "pe_sequence (new_event pl env d n p) = n" "pe_position (new_event pl env d n p) = p"
  "pe_published_at (new_event pl env d n p) = None" "pe_event_id (new_event pl env d n p) = ''evt:'' @ ev_uuid env"
  "pe_created_at (new_event pl env d n p) = ev_now env"
  "pe_payload (new_event pl env d n p) = build_event_payload pl d (''evt:'' @ ev_uuid env) n (ev_now env)"
  by (simp_all add: new_event_def Let_def)

lemma new_event_identity [simp]: "event_identity_hash pl (new_event pl env d n p) = draft_identity_hash pl d"
  by (simp add: event_identity_hash_def kafka_key_def payload_identity_built draft_identity_hash_def
      identity_hash_of_def)

text \<open>What publishing and failing leave unchanged.\<close>

definition same_envelope :: "PreparedIndexingEvent \<Rightarrow> PreparedIndexingEvent \<Rightarrow> bool" where
  "same_envelope e e' \<longleftrightarrow> pe_event_id e' = pe_event_id e \<and> pe_sequence e' = pe_sequence e \<and>
     pe_payload e' = pe_payload e \<and> pe_position e' = pe_position e \<and> pe_created_at e' = pe_created_at e"

lemma same_envelope_refl [simp]: "same_envelope e e"
  by (simp add: same_envelope_def)

lemma same_envelope_trans: "same_envelope a b \<Longrightarrow> same_envelope b c \<Longrightarrow> same_envelope a c"
  by (simp add: same_envelope_def)

lemma same_envelope_publish [simp]: "same_envelope e (publish_event t e)" "same_envelope e (fail_event err e)"
  by (simp_all add: same_envelope_def publish_event_def fail_event_def)

lemma same_envelope_identity: "same_envelope e e' \<Longrightarrow> event_identity_hash pl e' = event_identity_hash pl e"
  by (simp add: same_envelope_def event_identity_hash_def kafka_key_def)

section \<open>The store contract\<close>

text \<open>
  The rows of a store: idempotency-key hash, request digest and event. A key is bound to one
  mutation for ever, a new event gets a sequence above all earlier ones of its identity, and
  publishing touches only the bookkeeping of the event it names.
\<close>

type_synonym event_rows = "(string, string \<times> PreparedIndexingEvent) pydict"

definition touch ::
  "string \<Rightarrow> (PreparedIndexingEvent \<Rightarrow> PreparedIndexingEvent) \<Rightarrow> event_rows \<Rightarrow> event_rows" where
  "touch eid f rows = map (\<lambda>(k, g, e). (k, g, if unpublished_with_id eid e then f e else e)) rows"

definition rows_extend :: "event_rows \<Rightarrow> event_rows \<Rightarrow> bool" where
  "rows_extend R R' \<longleftrightarrow> (\<forall>k g e. dget R k = Some (g, e) \<longrightarrow> (\<exists>e'. dget R' k = Some (g, e') \<and> same_envelope e e'))"

lemma rows_extend_refl: "rows_extend R R"
  by (auto simp: rows_extend_def)

lemma rows_extend_trans: "rows_extend A B \<Longrightarrow> rows_extend B C \<Longrightarrow> rows_extend A C"
  unfolding rows_extend_def by (meson same_envelope_trans)

lemma rows_extend_append: "rows_extend R (R @ S)"
  by (auto simp: rows_extend_def)

lemma dget_touch:
  "dget (touch eid f R) k = map_option (\<lambda>(g, e). (g, if unpublished_with_id eid e then f e else e)) (dget R k)"
  by (induction R) (auto simp: touch_def)

lemma rows_extend_map:
  assumes "\<And>e. same_envelope e (f e)"
  shows "rows_extend R (map (\<lambda>(k, g, e). (k, g, if e \<in> A then f e else e)) R)"
proof -
  have "dget (map (\<lambda>(k, g, e). (k, g, if e \<in> A then f e else e)) R) k =
      map_option (\<lambda>(g, e). (g, if e \<in> A then f e else e)) (dget R k)" for k
    by (induction R) auto
  then show ?thesis using assms by (auto simp: rows_extend_def)
qed

lemma rows_extend_touch: "(\<And>e. same_envelope e (f e)) \<Longrightarrow> rows_extend R (touch eid f R)"
  by (auto simp: rows_extend_def dget_touch)

text \<open>The log holds a message of this event.\<close>

definition logged :: "kafka_log \<Rightarrow> PreparedIndexingEvent \<Rightarrow> bool" where
  "logged klog e \<longleftrightarrow> (\<exists>m \<in> set klog. lm_key m = kafka_key e \<and> jget (lm_value m) ''event_id'' = jget (pe_payload e) ''event_id'')"

locale indexing_event_store =
  fixes pl :: platform
    and prepare :: "'s \<Rightarrow> event_env \<Rightarrow> IndexingEventDraft \<Rightarrow> 's \<times> (event_error + PreparedIndexingEvent)"
    and mark :: "'s \<Rightarrow> string \<Rightarrow> time \<Rightarrow> 's \<times> bool"
    and failure :: "'s \<Rightarrow> string \<Rightarrow> string \<Rightarrow> 's \<times> bool"
    and list_pending :: "'s \<Rightarrow> int \<Rightarrow> event_error + PreparedIndexingEvent list"
    and rows :: "'s \<Rightarrow> event_rows"
    and inv :: "'s \<Rightarrow> bool"
  assumes prepare_inv: "inv s \<Longrightarrow> ''evt:'' @ ev_uuid env \<notin> set (map (pe_event_id \<circ> snd \<circ> snd) (rows s)) \<Longrightarrow>
      prepare s env d = (s', r) \<Longrightarrow> inv s'"
    and prepare_known: "inv s \<Longrightarrow> dget (rows s) (draft_key_hash pl d) = Some (g, e) \<Longrightarrow>
      request_digest pl d = Some g' \<Longrightarrow>
      prepare s env d = (s, if g' = g then Ok e else Raise IdempotencyConflict)"
    and prepare_new: "inv s \<Longrightarrow> dget (rows s) (draft_key_hash pl d) = None \<Longrightarrow> prepare s env d = (s', Ok e) \<Longrightarrow>
      \<exists>g. request_digest pl d = Some g \<and> rows s' = rows s @ [(draft_key_hash pl d, g, e)] \<and>
        pe_payload e = build_event_payload pl d (pe_event_id e) (pe_sequence e) (ev_now env) \<and>
        pe_event_id e = ''evt:'' @ ev_uuid env \<and> pe_published_at e = None \<and>
        (\<forall>x \<in> set (rows s). event_identity_hash pl (snd (snd x)) = draft_identity_hash pl d \<longrightarrow>
           pe_sequence (snd (snd x)) < pe_sequence e)"
    and prepare_digested: "prepare s env d = (s', Ok e) \<Longrightarrow> request_digest pl d \<noteq> None"
    and prepare_failed: "inv s \<Longrightarrow> prepare s env d = (s', Raise err) \<Longrightarrow> rows s' = rows s"
    and mark_rows: "inv s \<Longrightarrow> inv (fst (mark s eid t)) \<and> rows (fst (mark s eid t)) = touch eid (publish_event t) (rows s)"
    and failure_rows: "inv s \<Longrightarrow> inv (fst (failure s eid text)) \<and> rows (fst (failure s eid text)) = touch eid (fail_event text) (rows s)"
    and ids_distinct: "inv s \<Longrightarrow> distinct (map (pe_event_id \<circ> snd \<circ> snd) (rows s))"
    and pending_listed: "inv s \<Longrightarrow> list_pending s limit = Ok es \<Longrightarrow>
      set es \<subseteq> {e \<in> set (map (snd \<circ> snd) (rows s)). pe_published_at e = None} \<and> distinct (map pe_event_id es) \<and>
      (int (length (rows s)) \<le> limit \<longrightarrow> {e \<in> set (map (snd \<circ> snd) (rows s)). pe_published_at e = None} \<subseteq> set es)"
    and pending_total: "1 \<le> limit \<Longrightarrow> \<exists>es. list_pending s limit = Ok es"
begin

lemma prepare_extends:
  assumes "inv s" and "prepare s env d = (s', r)"
  shows "rows_extend (rows s) (rows s')"
proof (cases r)
  case (Inl err)
  with prepare_failed assms show ?thesis by (simp add: rows_extend_refl)
next
  case (Inr e)
  show ?thesis
  proof (cases "dget (rows s) (draft_key_hash pl d)")
    case None
    from prepare_new [OF assms(1) None, of env s' e] assms(2) Inr
    obtain g where "rows s' = rows s @ [(draft_key_hash pl d, g, e)]" by blast
    then show ?thesis by (simp only: rows_extend_append)
  next
    case (Some ge)
    then show ?thesis
      using prepare_known [OF assms(1), of d "fst ge" "snd ge"] assms(2)
        prepare_digested [of s env d s' e] by (cases ge) (auto simp: rows_extend_refl Inr)
  qed
qed

text \<open>A retry of the same mutation gets the envelope that was stored first.\<close>

lemma retry_returns_envelope:
  assumes "inv s" and "prepare s env d = (s1, Ok e)" and "rows_extend (rows s1) (rows s2)" and "inv s2"
    and "draft_key_hash pl d' = draft_key_hash pl d" and "request_digest pl d' = request_digest pl d"
  shows "\<exists>e'. prepare s2 env' d' = (s2, Ok e') \<and> same_envelope e e'"
proof -
  obtain g where g: "request_digest pl d = Some g" using prepare_digested [OF assms(2)] by auto
  have "\<exists>e1. dget (rows s1) (draft_key_hash pl d) = Some (g, e1) \<and> e1 = e"
  proof (cases "dget (rows s) (draft_key_hash pl d)")
    case None
    with prepare_new [OF assms(1) None assms(2)] g show ?thesis
      by (auto simp: map_of_append map_add_def)
  next
    case (Some ge)
    with prepare_known [OF assms(1), of d "fst ge" "snd ge" g env] g assms(2) show ?thesis
      by (cases ge) (auto split: if_splits)
  qed
  then obtain e' where "dget (rows s2) (draft_key_hash pl d) = Some (g, e')" "same_envelope e e'"
    using assms(3) unfolding rows_extend_def by blast
  with prepare_known [OF assms(4), of d' g e' g env'] assms(5,6) g show ?thesis by auto
qed

lemma reuse_for_another_mutation:
  assumes "inv s2" and "dget (rows s2) (draft_key_hash pl d') = Some (g, e)"
    and "request_digest pl d' = Some g'" and "g' \<noteq> g"
  shows "prepare s2 env' d' = (s2, Raise IdempotencyConflict)"
  using prepare_known [OF assms(1-3)] assms(4) by simp

text \<open>Nothing is marked published that the log does not hold.\<close>

definition nothing_lost :: "'s \<Rightarrow> kafka_log \<Rightarrow> bool" where
  "nothing_lost s klog \<longleftrightarrow> inv s \<and>
     (\<forall>x \<in> set (rows s). pe_published_at (snd (snd x)) \<noteq> None \<longrightarrow> logged klog (snd (snd x)))"

lemma logged_mono: "logged klog e \<Longrightarrow> logged (klog @ ms) e"
  by (auto simp: logged_def)

lemma logged_same: "logged klog e \<Longrightarrow> same_envelope e e' \<Longrightarrow> logged klog e'"
  by (simp add: logged_def same_envelope_def kafka_key_def)

lemma outbound_logged: "logged (klog @ [outbound_message prefix propagated e]) e"
  by (auto simp: logged_def outbound_message_def jget_dput Let_def)

lemma id_unique:
  assumes "inv s" and "x \<in> set (rows s)" and "y \<in> set (rows s)"
    and "pe_event_id (snd (snd x)) = pe_event_id (snd (snd y))"
  shows "x = y"
  using ids_distinct [OF assms(1)] assms(2-4) by (auto simp: distinct_map inj_on_def)

lemma publish_keeps:
  assumes "nothing_lost s klog" and "e \<in> snd ` snd ` set (rows s)"
    and "publish_prepared mark failure prefix propagated outcome now s klog e = (s', klog', r)"
    and "outcome \<noteq> RejectedUnseen"
  shows "nothing_lost s' klog'" and "rows_extend (rows s) (rows s')"
    and "outcome = Acked \<Longrightarrow> rows s' = touch (pe_event_id e) (publish_event now) (rows s) \<and> r = Ok ()"
    and "r = Ok () \<Longrightarrow> outcome = Acked" and "\<exists>ms. klog' = klog @ ms"
proof -
  have inv: "inv s" using assms(1) by (simp add: nothing_lost_def)
  have s': "s' = (if outcome = Acked then fst (mark s (pe_event_id e) now)
      else fst (failure s (pe_event_id e) ''send failed''))"
    and klog': "klog' = (if outcome = Rejected then klog else klog @ [outbound_message prefix propagated e])"
    and r: "r = (if outcome = Acked then Ok () else Raise PublishFailed)"
    using assms(3,4) by (auto simp: publish_prepared_def split: send_outcome.splits)
  then show "outcome = Acked \<Longrightarrow> rows s' = touch (pe_event_id e) (publish_event now) (rows s) \<and> r = Ok ()"
    and "r = Ok () \<Longrightarrow> outcome = Acked" and "\<exists>ms. klog' = klog @ ms"
    using mark_rows [OF inv] by (auto split: if_splits)
  obtain f where rows': "rows s' = touch (pe_event_id e) f (rows s)" and f: "\<And>x. same_envelope x (f x)"
    and pub: "\<And>x. pe_published_at (f x) \<noteq> None \<Longrightarrow> outcome = Acked \<or> pe_published_at x \<noteq> None"
  proof (cases "outcome = Acked")
    case True
    then show ?thesis using that [of "publish_event now"] mark_rows [OF inv] s' by simp
  next
    case False
    moreover have "same_envelope x (fail_event ''send failed'' x)"
      "pe_published_at (fail_event ''send failed'' x) = pe_published_at x" for x
      by simp (simp add: fail_event_def)
    ultimately show ?thesis using that [of "fail_event ''send failed''"] failure_rows [OF inv] s' by simp
  qed
  show "rows_extend (rows s) (rows s')" unfolding rows' by (rule rows_extend_touch [OF f])
  have inv': "inv s'" using s' mark_rows [OF inv] failure_rows [OF inv] by auto
  have "logged klog' (snd (snd y))" if "y \<in> set (rows s')" "pe_published_at (snd (snd y)) \<noteq> None" for y
  proof -
    from that(1) obtain k g x where x: "(k, g, x) \<in> set (rows s)"
      and y: "y = (k, g, if unpublished_with_id (pe_event_id e) x then f x else x)"
      unfolding rows' touch_def by auto
    show ?thesis
    proof (cases "unpublished_with_id (pe_event_id e) x")
      case False
      with that(2) y x assms(1) have "logged klog x" by (auto simp: nothing_lost_def)
      with False y show ?thesis by (auto simp: klog' intro: logged_mono)
    next
      case True
      from assms(2) obtain ke ge where "(ke, ge, e) \<in> set (rows s)" by auto
      with id_unique [OF inv x this] True have "x = e" by (auto simp: unpublished_with_id_def)
      moreover from True that(2) pub [of x] y have "outcome = Acked" by (auto simp: unpublished_with_id_def)
      ultimately show ?thesis
        using y True logged_same [OF outbound_logged f] by (simp add: klog')
    qed
  qed
  with inv' show "nothing_lost s' klog'" by (simp add: nothing_lost_def)
qed

lemma publish_all_keeps:
  assumes "nothing_lost s klog" and "set es \<subseteq> snd ` snd ` set (rows s)" and "distinct (map pe_event_id es)"
    and "\<forall>e \<in> set es. pe_published_at e = None"
    and "publish_all mark failure prefix propagated broker now s klog es n = (s', klog', r)"
    and "\<forall>e. broker e \<noteq> RejectedUnseen"
  shows "nothing_lost s' klog' \<and>
    ((\<forall>e. broker e = Acked) \<longrightarrow> r = Ok (n + length es) \<and>
       rows s' = map (\<lambda>(k, g, e). (k, g, if e \<in> set es then publish_event now e else e)) (rows s))"
  using assms
proof (induction es arbitrary: s klog n)
  case Nil
  then show ?case by (simp add: case_prod_unfold)
next
  case (Cons e es)
  obtain s1 klog1 r1 where step:
    "publish_prepared mark failure prefix propagated (broker e) now s klog e = (s1, klog1, r1)"
    by (metis prod_cases3)
  have e: "e \<in> snd ` snd ` set (rows s)" using Cons.prems(2) by simp
  have seen: "broker e \<noteq> RejectedUnseen" using Cons.prems(6) by blast
  note keeps = publish_keeps [OF Cons.prems(1) e step seen]
  have inv: "inv s" using Cons.prems(1) by (simp add: nothing_lost_def)
  show ?case
  proof (cases r1)
    case (Inl err)
    with Cons.prems(5) step have "s' = s1" "klog' = klog1" "r = Raise err" by auto
    with keeps(1,3) Inl show ?thesis by auto
  next
    case (Inr u)
    then have acked: "broker e = Acked" using keeps(4) by simp
    have rows1: "rows s1 = touch (pe_event_id e) (publish_event now) (rows s)" using keeps(3) acked by simp
    have only: "touch (pe_event_id e) (publish_event now) (rows s) =
        map (\<lambda>(k, g, x). (k, g, if x = e then publish_event now x else x)) (rows s)"
      unfolding touch_def
    proof (rule map_cong [OF refl])
      fix y assume y: "y \<in> set (rows s)"
      obtain k g x where y': "y = (k, g, x)" by (cases y)
      from e obtain ke ge where "(ke, ge, e) \<in> set (rows s)" by auto
      from id_unique [OF inv _ this, of "(k, g, x)"] y y' Cons.prems(4)
      have "unpublished_with_id (pe_event_id e) x \<longleftrightarrow> x = e"
        by (auto simp: unpublished_with_id_def)
      then show "(\<lambda>(k, g, x). (k, g, if unpublished_with_id (pe_event_id e) x then publish_event now x else x)) y =
          (\<lambda>(k, g, x). (k, g, if x = e then publish_event now x else x)) y"
        by (simp add: y')
    qed
    have pub_ne: "publish_event now x \<noteq> y" if "y \<in> set (e # es)" for x y
      using Cons.prems(4) that by (auto simp: publish_event_def)
    have sub: "set es \<subseteq> snd ` snd ` set (rows s1)"
    proof
      fix y assume y: "y \<in> set es"
      then have "y \<noteq> e" using Cons.prems(3) by auto
      from y Cons.prems(2) obtain k g where "(k, g, y) \<in> set (rows s)" by auto
      with \<open>y \<noteq> e\<close> have "(k, g, y) \<in> set (rows s1)" unfolding rows1 only by force
      then show "y \<in> snd ` snd ` set (rows s1)" by force
    qed
    have rest: "publish_all mark failure prefix propagated broker now s1 klog1 es (n + 1) = (s', klog', r)"
      using Cons.prems(5) step Inr by simp
    have IH: "nothing_lost s' klog' \<and>
      ((\<forall>e. broker e = Acked) \<longrightarrow> r = Ok (n + 1 + length es) \<and>
       rows s' = map (\<lambda>(k, g, e). (k, g, if e \<in> set es then publish_event now e else e)) (rows s1))"
      using Cons.IH [OF keeps(1) sub _ _ rest Cons.prems(6)] Cons.prems(3,4) by simp
    have "map (\<lambda>(k, g, x). (k, g, if x \<in> set es then publish_event now x else x)) (rows s1) =
        map (\<lambda>(k, g, x). (k, g, if x \<in> set (e # es) then publish_event now x else x)) (rows s)"
      unfolding rows1 only using pub_ne Cons.prems(3) by (auto simp: case_prod_unfold)
    with IH show ?thesis by simp
  qed
qed

text \<open>
  Replaying the outbox through a broker that acknowledges leaves nothing pending and counts
  what it sent.
\<close>

lemma publish_pending_drains:
  assumes "nothing_lost s klog" and "\<forall>e. broker e = Acked" and "1 \<le> limit"
    and "int (length (rows s)) \<le> limit"
    and "publish_pending list_pending mark failure prefix propagated broker now limit s klog = (s', klog', r)"
  shows "nothing_lost s' klog' \<and> (\<exists>n. r = Ok n) \<and> rows_extend (rows s) (rows s') \<and>
    (\<forall>x \<in> set (rows s'). pe_published_at (snd (snd x)) \<noteq> None \<and> logged klog' (snd (snd x)))"
proof -
  have inv: "inv s" using assms(1) by (simp add: nothing_lost_def)
  from pending_total [OF assms(3)] obtain es where es: "list_pending s limit = Ok es" by blast
  note listed = pending_listed [OF inv es]
  have run: "publish_all mark failure prefix propagated broker now s klog es 0 = (s', klog', r)"
    using assms(5) es by (simp add: publish_pending_def)
  have sub: "set es \<subseteq> snd ` snd ` set (rows s)" "\<forall>e \<in> set es. pe_published_at e = None"
    using listed by (auto simp: image_comp)
  from publish_all_keeps [OF assms(1) sub(1) _ sub(2) run] listed assms(2) have
    lost: "nothing_lost s' klog'" and r: "r = Ok (length es)" and
    rows': "rows s' = map (\<lambda>(k, g, e). (k, g, if e \<in> set es then publish_event now e else e)) (rows s)"
    by simp_all
  have "pe_published_at (snd (snd x)) \<noteq> None" if "x \<in> set (rows s')" for x
  proof -
    from that obtain k g e where e: "(k, g, e) \<in> set (rows s)"
      and x: "x = (k, g, if e \<in> set es then publish_event now e else e)" unfolding rows' by auto
    show ?thesis
    proof (cases "pe_published_at e = None")
      case True
      then have "e \<in> {e \<in> set (map (snd \<circ> snd) (rows s)). pe_published_at e = None}" using e by force
      then have "e \<in> set es" using listed assms(4) by blast
      then show ?thesis by (simp add: x publish_event_def)
    next
      case False
      then show ?thesis by (simp add: x publish_event_def)
    qed
  qed
  moreover have "rows_extend (rows s) (rows s')" unfolding rows' by (rule rows_extend_map) simp
  ultimately show ?thesis using lost r by (auto simp: nothing_lost_def)
qed

end

section \<open>The in-memory store keeps the contract\<close>

definition em_inv :: "platform \<Rightarrow> EvMem \<Rightarrow> bool" where
  "em_inv pl s \<longleftrightarrow> distinct (dkeys (em_by_key s)) \<and>
     distinct (map (pe_event_id \<circ> snd \<circ> snd) (em_by_key s)) \<and>
     (\<forall>x \<in> set (em_by_key s). \<exists>n. dget (em_heads s) (event_identity_hash pl (snd (snd x))) = Some n \<and>
        pe_sequence (snd (snd x)) \<le> n)"

lemma em_inv_empty: "em_inv pl em_empty"
  by (simp add: em_inv_def em_empty_def)

lemma distinct_map_sort: "distinct (map f xs) \<Longrightarrow> distinct (map f (sort_key g xs))"
  by (simp add: distinct_map)

lemma distinct_map_take_filter: "distinct (map f xs) \<Longrightarrow> distinct (map f (take n (filter P xs)))"
  unfolding take_map [symmetric] by (intro distinct_take distinct_map_filter)

lemma pending_page:
  fixes xs :: "PreparedIndexingEvent list"
  assumes "distinct (map pe_event_id xs)" and "es = take n (filter P (sort_key f xs))"
  shows "set es \<subseteq> {e \<in> set xs. P e}" and "distinct (map pe_event_id es)"
    and "length xs \<le> n \<Longrightarrow> {e \<in> set xs. P e} \<subseteq> set es"
proof -
  show "set es \<subseteq> {e \<in> set xs. P e}" using assms(2) set_take_subset by fastforce
  show "distinct (map pe_event_id es)"
    unfolding assms(2) by (intro distinct_map_take_filter distinct_map_sort assms(1))
  assume "length xs \<le> n"
  then have "length (filter P (sort_key f xs)) \<le> n"
    using length_filter_le [of P "sort_key f xs"] by simp
  then show "{e \<in> set xs. P e} \<subseteq> set es" by (simp add: assms(2))
qed

lemma em_update_rows:
  assumes "em_inv pl s" and "\<And>e. same_envelope e (f e)"
  shows "em_inv pl (fst (em_update s eid f))" and "em_by_key (fst (em_update s eid f)) = touch eid f (em_by_key s)"
proof -
  let ?P = "\<lambda>(k, dg, e). unpublished_with_id eid e" and ?f = "\<lambda>(k, dg, e). (k, dg, f e)"
  have touch: "touch eid f (em_by_key s) = map (\<lambda>x. if ?P x then ?f x else x) (em_by_key s)"
    unfolding touch_def by (rule map_cong) auto
  have "update_first ?P ?f (em_by_key s) = (if \<exists>x \<in> set (em_by_key s). ?P x
      then Some (map (\<lambda>x. if ?P x then ?f x else x) (em_by_key s)) else None)"
    by (rule update_first_unique [where key = "pe_event_id \<circ> snd \<circ> snd" and k = eid])
      (use assms(1) in \<open>auto simp: em_inv_def unpublished_with_id_def\<close>)
  then have "em_update s eid f = (s\<lparr>em_by_key := touch eid f (em_by_key s)\<rparr>, \<exists>x \<in> set (em_by_key s). ?P x)"
    unfolding touch em_update_def
    by (cases "\<exists>x \<in> set (em_by_key s). ?P x") (auto intro!: EvMem.equality map_upd_eq [symmetric])
  then have upd: "fst (em_update s eid f) = s\<lparr>em_by_key := touch eid f (em_by_key s)\<rparr>" by simp
  then show "em_by_key (fst (em_update s eid f)) = touch eid f (em_by_key s)" by simp
  have keys: "map fst (touch eid f (em_by_key s)) = map fst (em_by_key s)"
    "map (pe_event_id \<circ> snd \<circ> snd) (touch eid f (em_by_key s)) = map (pe_event_id \<circ> snd \<circ> snd) (em_by_key s)"
    using assms(2) by (auto simp: touch_def same_envelope_def)
  moreover have "\<exists>n. dget (em_heads s) (event_identity_hash pl (snd (snd x))) = Some n \<and> pe_sequence (snd (snd x)) \<le> n"
    if "x \<in> set (touch eid f (em_by_key s))" for x
  proof -
    from that obtain k g e where e: "(k, g, e) \<in> set (em_by_key s)"
      and x: "x = (k, g, if unpublished_with_id eid e then f e else e)" by (auto simp: touch_def)
    have "same_envelope e (snd (snd x))" using assms(2) x by simp
    then show ?thesis
      using assms(1) e same_envelope_identity [of e "snd (snd x)" pl] by (fastforce simp: em_inv_def same_envelope_def)
  qed
  ultimately show "em_inv pl (fst (em_update s eid f))"
    using assms(1) by (simp add: em_inv_def upd)
qed

lemma em_prepare_newD:
  assumes "dget (em_by_key s) (draft_key_hash pl d) = None" and "em_prepare pl s env d = (s', r)"
  shows "\<exists>n. n = (case dget (em_heads s) (draft_identity_hash pl d) of Some n \<Rightarrow> n | None \<Rightarrow> 0) + 1 \<and>
    em_heads s' = dput (draft_identity_hash pl d) n (em_heads s) \<and>
    ((\<exists>e. r = Raise e) \<and> em_by_key s' = em_by_key s \<or>
     (\<exists>g. request_digest pl d = Some g \<and> r = Ok (new_event pl env d n (em_position s + 1)) \<and>
        em_by_key s' = em_by_key s @ [(draft_key_hash pl d, g, new_event pl env d n (em_position s + 1))]))"
proof -
  have "dput (draft_key_hash pl d) v (em_by_key s) = em_by_key s @ [(draft_key_hash pl d, v)]" for v
    using assms(1) by (intro dput_fresh) (simp add: dget_None_iff)
  then show ?thesis
    using assms(2) unfolding em_prepare_def assms(1) option.case Let_def
    by (cases "request_digest pl d") auto
qed

lemma em_prepare_knownD:
  "dget (em_by_key s) (draft_key_hash pl d) = Some (g, e) \<Longrightarrow>
   em_prepare pl s env d = (s, case request_digest pl d of
      None \<Rightarrow> Raise (BadEvent ''request_digest'')
    | Some g' \<Rightarrow> if g \<noteq> g' then Raise IdempotencyConflict else Ok e)"
  by (simp add: em_prepare_def)

lemma em_heads_bound:
  assumes "em_inv pl s" and "x \<in> set (em_by_key s)" and "event_identity_hash pl (snd (snd x)) = i"
  shows "pe_sequence (snd (snd x)) \<le> (case dget (em_heads s) i of Some n \<Rightarrow> n | None \<Rightarrow> 0)"
  using assms by (fastforce simp: em_inv_def)

lemma em_prepare_inv:
  assumes "em_inv pl s" and "''evt:'' @ ev_uuid env \<notin> set (map (pe_event_id \<circ> snd \<circ> snd) (em_by_key s))"
    and "em_prepare pl s env d = (s', r)"
  shows "em_inv pl s'"
proof (cases "dget (em_by_key s) (draft_key_hash pl d)")
  case (Some ge)
  with em_prepare_knownD [of s pl d "fst ge" "snd ge" env] assms show ?thesis by (cases ge) simp
next
  case None
  from em_prepare_newD [OF None assms(3)] obtain n where
    n: "n = (case dget (em_heads s) (draft_identity_hash pl d) of Some n \<Rightarrow> n | None \<Rightarrow> 0) + 1" and
    heads: "em_heads s' = dput (draft_identity_hash pl d) n (em_heads s)" and
    cases: "em_by_key s' = em_by_key s \<or> (\<exists>g. em_by_key s' =
      em_by_key s @ [(draft_key_hash pl d, g, new_event pl env d n (em_position s + 1))])" by auto
  have old: "\<exists>m. dget (em_heads s') (event_identity_hash pl (snd (snd x))) = Some m \<and> pe_sequence (snd (snd x)) \<le> m"
    if x: "x \<in> set (em_by_key s)" for x
  proof (cases "event_identity_hash pl (snd (snd x)) = draft_identity_hash pl d")
    case True
    with em_heads_bound [OF assms(1) x True] show ?thesis by (simp add: heads dget_dput n)
  next
    case False
    with assms(1) x show ?thesis by (auto simp: em_inv_def heads dget_dput)
  qed
  from cases show ?thesis
  proof
    assume "em_by_key s' = em_by_key s"
    with old assms(1) show ?thesis by (simp add: em_inv_def)
  next
    assume "\<exists>g. em_by_key s' = em_by_key s @ [(draft_key_hash pl d, g, new_event pl env d n (em_position s + 1))]"
    then obtain g where "em_by_key s' =
      em_by_key s @ [(draft_key_hash pl d, g, new_event pl env d n (em_position s + 1))]" by blast
    with old assms(1,2) None show ?thesis
      by (auto simp: em_inv_def heads dget_dput dget_None_iff)
  qed
qed

interpretation mem_events: indexing_event_store pl "em_prepare pl" em_mark_published em_record_failure
  em_list_pending em_by_key "em_inv pl" for pl
proof
  fix s env d s' r
  show "em_inv pl s'" if "em_inv pl s" "''evt:'' @ ev_uuid env \<notin> set (map (pe_event_id \<circ> snd \<circ> snd) (em_by_key s))"
    "em_prepare pl s env d = (s', r)" using em_prepare_inv that .
next
  fix s env d g e g'
  show "em_prepare pl s env d = (s, if g' = g then Ok e else Raise IdempotencyConflict)"
    if "dget (em_by_key s) (draft_key_hash pl d) = Some (g, e)" "request_digest pl d = Some g'"
    using em_prepare_knownD [OF that(1)] that(2) by auto
next
  fix s env d s' e
  assume inv: "em_inv pl s" and None: "dget (em_by_key s) (draft_key_hash pl d) = None"
    and ok: "em_prepare pl s env d = (s', Ok e)"
  from em_prepare_newD [OF None ok] obtain n g where
    "n = (case dget (em_heads s) (draft_identity_hash pl d) of Some n \<Rightarrow> n | None \<Rightarrow> 0) + 1"
    "request_digest pl d = Some g" "e = new_event pl env d n (em_position s + 1)"
    "em_by_key s' = em_by_key s @ [(draft_key_hash pl d, g, e)]" by auto
  with em_heads_bound [OF inv] show "\<exists>g. request_digest pl d = Some g \<and>
      em_by_key s' = em_by_key s @ [(draft_key_hash pl d, g, e)] \<and>
      pe_payload e = build_event_payload pl d (pe_event_id e) (pe_sequence e) (ev_now env) \<and>
      pe_event_id e = ''evt:'' @ ev_uuid env \<and> pe_published_at e = None \<and>
      (\<forall>x \<in> set (em_by_key s). event_identity_hash pl (snd (snd x)) = draft_identity_hash pl d \<longrightarrow>
         pe_sequence (snd (snd x)) < pe_sequence e)" by fastforce
next
  fix s env d s' e
  show "request_digest pl d \<noteq> None" if "em_prepare pl s env d = (s', Ok e)"
    using that by (auto simp: em_prepare_def Let_def split: option.splits prod.splits)
next
  fix s env d s' err
  show "em_by_key s' = em_by_key s" if "em_prepare pl s env d = (s', Raise err)"
    using that by (auto simp: em_prepare_def Let_def split: option.splits prod.splits)
next
  fix s eid t
  show "em_inv pl (fst (em_mark_published s eid t)) \<and>
      em_by_key (fst (em_mark_published s eid t)) = touch eid (publish_event t) (em_by_key s)" if "em_inv pl s"
    using em_update_rows [OF that, of "publish_event t"] by (simp add: em_mark_published_def)
next
  fix s eid err
  show "em_inv pl (fst (em_record_failure s eid err)) \<and>
      em_by_key (fst (em_record_failure s eid err)) = touch eid (fail_event err) (em_by_key s)" if "em_inv pl s"
    using em_update_rows [OF that, of "fail_event err"] by (simp add: em_record_failure_def)
next
  fix s
  show "distinct (map (pe_event_id \<circ> snd \<circ> snd) (em_by_key s))" if "em_inv pl s"
    using that by (simp add: em_inv_def)
next
  fix s limit es
  assume inv: "em_inv pl s" and ok: "em_list_pending s limit = Ok es"
  have d: "distinct (map pe_event_id (em_events s))" using inv by (simp add: em_inv_def em_events_def comp_assoc)
  have es: "es = take (nat limit) (filter (\<lambda>e. pe_published_at e = None) (sort_key pe_position (em_events s)))"
    using ok by (auto simp: em_list_pending_def split: if_splits)
  have "length (em_events s) \<le> nat limit" if "int (length (em_by_key s)) \<le> limit"
    using that by (simp add: em_events_def)
  with pending_page [OF d es] show "set es \<subseteq> {e \<in> set (map (snd \<circ> snd) (em_by_key s)). pe_published_at e = None} \<and>
      distinct (map pe_event_id es) \<and> (int (length (em_by_key s)) \<le> limit \<longrightarrow>
        {e \<in> set (map (snd \<circ> snd) (em_by_key s)). pe_published_at e = None} \<subseteq> set es)"
    unfolding em_events_def by blast
next
  fix s :: EvMem and limit :: int
  show "\<exists>es. em_list_pending s limit = Ok es" if "1 \<le> limit" using that by (simp add: em_list_pending_def)
qed

end
