(* ===== verification/PostgresOutbox.thy ===== *)
theory PostgresOutbox
  imports IndexingEvents
begin

text \<open>
  The PostgreSQL store of \<open>indexing_events/postgres_store.py\<close> under every interleaving of
  its transactions and those of the deletion ledger: sequences without gaps, one row per
  idempotency key, deletions registered with their event. The store satisfies the contract
  \<open>indexing_event_store\<close>. A rolled-back transaction may leave a gap in the real position
  column; nothing here uses that positions are consecutive, only that they grow.
\<close>

section \<open>The invariant\<close>

definition db_event_rows :: "EvDb \<Rightarrow> event_rows" where
  "db_event_rows db = map (\<lambda>r. (er_key_hash r, er_request_digest r, er_event r)) (db_rows db)"

definition last_sequence :: "EvDb \<Rightarrow> string \<Rightarrow> int" where
  "last_sequence db i = (case head_of_identity db i of None \<Rightarrow> 0 | Some h \<Rightarrow> hd_last_sequence h)"

definition sequences_of :: "EvRow list \<Rightarrow> string \<Rightarrow> int list" where
  "sequences_of rows i = map (pe_sequence \<circ> er_event) (filter (\<lambda>r. er_identity_hash r = i) rows)"

definition is_deletion :: "PreparedIndexingEvent \<Rightarrow> bool" where
  "is_deletion e \<longleftrightarrow> text_field (pe_payload e) ''operation'' \<in> {''delete'', ''tombstone''}"

definition tombstoned :: "LedgerDb \<Rightarrow> EvRow \<Rightarrow> bool" where
  "tombstoned l r \<longleftrightarrow> (\<exists>t. ledger_of l (er_identity_hash r) = Some t \<and> pe_sequence (er_event r) \<le> lr_sequence t)"

definition keys_ok :: "EvDb \<Rightarrow> bool" where
  "keys_ok db \<longleftrightarrow> distinct (map er_key_hash (db_rows db)) \<and>
     distinct (map (pe_event_id \<circ> er_event) (db_rows db))"

definition identity_ok :: "platform \<Rightarrow> EvDb \<Rightarrow> bool" where
  "identity_ok pl db \<longleftrightarrow> (\<forall>r \<in> set (db_rows db). er_identity_hash r = event_identity_hash pl (er_event r))"

definition sequence_ok :: "EvDb \<Rightarrow> bool" where
  "sequence_ok db \<longleftrightarrow> (\<forall>i. 0 \<le> last_sequence db i \<and> sequences_of (db_rows db) i = [1..last_sequence db i])"

definition position_ok :: "EvDb \<Rightarrow> bool" where
  "position_ok db \<longleftrightarrow> sorted_wrt (<) (map (pe_position \<circ> er_event) (db_rows db)) \<and>
     (\<forall>r \<in> set (db_rows db). 0 < pe_position (er_event r) \<and> pe_position (er_event r) < db_next_position db) \<and>
     0 < db_next_position db"

definition deletion_ok :: "EvDb \<Rightarrow> bool" where
  "deletion_ok db \<longleftrightarrow> ledger_inv (db_ledger db) \<and>
     (\<forall>r \<in> set (db_rows db). is_deletion (er_event r) \<longrightarrow> tombstoned (db_ledger db) r)"

definition outbox_inv :: "platform \<Rightarrow> EvDb \<Rightarrow> bool" where
  "outbox_inv pl db \<longleftrightarrow> keys_ok db \<and> identity_ok pl db \<and> sequence_ok db \<and> position_ok db \<and> deletion_ok db"

lemma outbox_inv_empty: "outbox_inv pl db_empty"
  by (simp add: outbox_inv_def keys_ok_def identity_ok_def sequence_ok_def position_ok_def deletion_ok_def
      db_empty_def last_sequence_def head_of_identity_def sequences_of_def ledger_inv_empty)

section \<open>Publishing rewrites bookkeeping only\<close>

lemma db_update_rows: "db_rows (fst (db_update db eid f)) =
    map (\<lambda>r. if unpublished_with_id eid (er_event r) then r\<lparr>er_event := f (er_event r)\<rparr> else r) (db_rows db)"
  by (simp add: db_update_def)

lemma db_update_frame [simp]:
  "db_heads (fst (db_update db eid f)) = db_heads db" "db_ledger (fst (db_update db eid f)) = db_ledger db"
  "db_next_position (fst (db_update db eid f)) = db_next_position db"
  by (simp_all add: db_update_def)

lemma db_update_event_rows: "db_event_rows (fst (db_update db eid f)) = touch eid f (db_event_rows db)"
  by (simp add: db_event_rows_def db_update_rows touch_def)

lemma outbox_inv_update:
  assumes "outbox_inv pl db" and "\<And>e. same_envelope e (f e)"
  shows "outbox_inv pl (fst (db_update db eid f))"
proof -
  let ?g = "\<lambda>r. if unpublished_with_id eid (er_event r) then r\<lparr>er_event := f (er_event r)\<rparr> else r"
  have g: "er_key_hash (?g r) = er_key_hash r" "er_identity_hash (?g r) = er_identity_hash r"
    "same_envelope (er_event r) (er_event (?g r))" for r
    using assms(2) by auto
  have id: "event_identity_hash pl (er_event (?g r)) = event_identity_hash pl (er_event r)" for r
    by (rule same_envelope_identity [OF g(3)])
  have env: "pe_event_id (er_event (?g r)) = pe_event_id (er_event r)"
    "pe_sequence (er_event (?g r)) = pe_sequence (er_event r)" "pe_position (er_event (?g r)) = pe_position (er_event r)"
    "pe_payload (er_event (?g r)) = pe_payload (er_event r)" for r
    using g(3) [of r] by (simp_all only: same_envelope_def)
  have rows: "db_rows (fst (db_update db eid f)) = map ?g (db_rows db)" by (rule db_update_rows)
  have maps: "map er_key_hash (map ?g rs) = map er_key_hash rs"
    "map (pe_event_id \<circ> er_event) (map ?g rs) = map (pe_event_id \<circ> er_event) rs"
    "map (pe_position \<circ> er_event) (map ?g rs) = map (pe_position \<circ> er_event) rs" for rs
    by (simp_all only: list.map_comp comp_def g env)
  have "sequences_of (map ?g rs) i = sequences_of rs i" for rs i
    unfolding sequences_of_def by (simp only: filter_map list.map_comp comp_def g env)
  then have "sequence_ok (fst (db_update db eid f))"
    using assms(1) by (simp only: outbox_inv_def sequence_ok_def last_sequence_def head_of_identity_def
        db_update_frame rows simp_thms)
  moreover have "keys_ok (fst (db_update db eid f))"
    using assms(1) by (simp only: outbox_inv_def keys_ok_def rows maps)
  moreover have "identity_ok pl (fst (db_update db eid f))"
    using assms(1) by (simp only: outbox_inv_def identity_ok_def rows set_map ball_simps(9) g id) blast
  moreover have "position_ok (fst (db_update db eid f))"
    using assms(1) by (simp only: outbox_inv_def position_ok_def rows maps set_map ball_simps(9) env db_update_frame) blast
  moreover have "deletion_ok (fst (db_update db eid f))"
    using assms(1) by (simp only: outbox_inv_def deletion_ok_def rows set_map ball_simps(9) g env
        is_deletion_def tombstoned_def db_update_frame) blast
  ultimately show ?thesis by (simp only: outbox_inv_def)
qed

section \<open>Inserting an event\<close>

lemma built_operation [simp]: "text_field (build_event_payload pl d i n t) ''operation'' = dr_operation d"
  by (simp add: text_field_def build_event_payload_def jget_def)

definition event_row :: "platform \<Rightarrow> IndexingEventDraft \<Rightarrow> string \<Rightarrow> PreparedIndexingEvent \<Rightarrow> EvRow" where
  "event_row pl d dg e = \<lparr>er_key_hash = draft_key_hash pl d, er_request_digest = dg,
     er_identity_hash = draft_identity_hash pl d, er_event = e\<rparr>"

lemma allocate_OkD:
  assumes "allocate_and_insert pl db env d h = Ok (db', e)"
  shows "e = new_event pl env d (hd_last_sequence h + 1) (db_next_position db)"
    and "\<exists>dg. request_digest pl d = Some dg \<and> db_rows db' = db_rows db @ [event_row pl d dg e] \<and>
      outbox_event_fits db (event_row pl d dg e)"
    and "db_heads db' = db_heads (advance_head db (hd_identity_hash h) (hd_last_sequence h + 1))"
    and "db_next_position db' = db_next_position db + 1"
    and "if dr_operation d \<in> {''delete'', ''tombstone''}
      then register_tombstone_in_transaction (db_ledger db) (event_registration pl d e) (ev_now env) = Ok (db_ledger db')
      else db_ledger db' = db_ledger db"
proof -
  let ?db1 = "advance_head db (hd_identity_hash h) (hd_last_sequence h + 1)"
  have frame: "db_rows ?db1 = db_rows db" "db_next_position ?db1 = db_next_position db" "db_ledger ?db1 = db_ledger db"
    by (simp_all add: advance_head_def)
  have fits: "outbox_event_fits ?db1 r = outbox_event_fits db r" for r
    by (simp add: outbox_event_fits_def frame)
  from assms obtain dg where dg: "request_digest pl d = Some dg"
    by (auto simp: allocate_and_insert_def insert_outbox_event_def Let_def split: option.splits)
  note run = assms [unfolded allocate_and_insert_def insert_outbox_event_def Let_def dg option.case frame fits
      event_row_def [symmetric]]
  show e: "e = new_event pl env d (hd_last_sequence h + 1) (db_next_position db)"
    and "db_heads db' = db_heads (advance_head db (hd_identity_hash h) (hd_last_sequence h + 1))"
    and "db_next_position db' = db_next_position db + 1"
    using run by (auto split: if_splits sum.splits)
  show "\<exists>dg. request_digest pl d = Some dg \<and> db_rows db' = db_rows db @ [event_row pl d dg e] \<and>
      outbox_event_fits db (event_row pl d dg e)"
    using run dg by (auto split: if_splits sum.splits)
  show "if dr_operation d \<in> {''delete'', ''tombstone''}
      then register_tombstone_in_transaction (db_ledger db) (event_registration pl d e) (ev_now env) = Ok (db_ledger db')
      else db_ledger db' = db_ledger db"
    using run frame by (auto split: if_splits sum.splits)
qed

lemma head_after_advance:
  "head_of_identity (advance_head db i n) j =
     map_option (\<lambda>h. if hd_identity_hash h = i then h\<lparr>hd_last_sequence := n\<rparr> else h) (head_of_identity db j)"
  unfolding head_of_identity_def advance_head_def by (simp add: find_map_key)

lemma head_of_identityD: "head_of_identity db i = Some h \<Longrightarrow> hd_identity_hash h = i"
  by (auto simp: head_of_identity_def find_Some_iff)

lemma last_sequence_advance:
  assumes "head_of_identity db i = Some h"
  shows "last_sequence (advance_head db i n) j = (if j = i then n else last_sequence db j)"
  using assms by (auto simp: last_sequence_def head_after_advance dest: head_of_identityD split: option.splits)

lemma last_sequence_heads: "db_heads db = db_heads db' \<Longrightarrow> last_sequence db i = last_sequence db' i"
  by (simp add: last_sequence_def head_of_identity_def)

text \<open>After a registration the ledger holds this tombstone.\<close>

lemma registered_tombstone:
  assumes "register_tombstone_in_transaction l v now = Ok l'"
  shows "\<exists>t. ledger_of l' (tr_identity_hash v) = Some t \<and> lr_sequence t = tr_sequence v \<and>
    lr_event_id t = tr_event_id v \<and> lr_event_digest t = tr_event_digest v"
proof (cases "ledger_of l (tr_identity_hash v)")
  case None
  then have "l' = \<lparr>ledger_rows = ledger_rows l @ [new_ledger_row v now],
      target_rows = target_rows l @ map (pending_target v now) (fromkeys (tr_target_ids v))\<rparr>"
    using assms by (auto simp: register_tombstone_in_transaction_def ebind_eq_Ok Let_def)
  moreover have "find P (xs @ [x]) = Some x" if "find P xs = None" "P x" for P xs and x :: LedgerRow
    using that by (induction xs) (auto split: if_splits)
  ultimately show ?thesis using None by (simp add: ledger_of_def new_ledger_row_def)
next
  case (Some c)
  note c = ledger_of_Some [OF Some]
  show ?thesis
  proof (cases "tr_sequence v = lr_sequence c")
    case True
    then show ?thesis
      using assms Some by (auto simp: register_tombstone_in_transaction_def ebind_eq_Ok Let_def split: if_splits)
  next
    case False
    with assms Some have "ledger_rows l' = map (\<lambda>r. if lr_identity_hash r = tr_identity_hash v
        then advanced_row v now c else r) (ledger_rows l)"
      by (auto simp: register_tombstone_in_transaction_def ebind_eq_Ok Let_def split: if_splits)
    then have "ledger_of l' (tr_identity_hash v) = map_option (\<lambda>r. if lr_identity_hash r = tr_identity_hash v
        then advanced_row v now c else r) (ledger_of l (tr_identity_hash v))"
      by (intro ledger_of_map) (auto simp: advanced_row_def new_ledger_row_def)
    then show ?thesis using Some c by (simp add: advanced_row_def new_ledger_row_def)
  qed
qed

lemma tombstoned_advances:
  "tombstoned l r \<Longrightarrow> (\<And>i t. ledger_of l i = Some t \<Longrightarrow> \<exists>t'. ledger_of l' i = Some t' \<and> row_advances t t') \<Longrightarrow>
   tombstoned l' r"
  unfolding tombstoned_def row_advances_def by (meson order_trans)

lemma outbox_inv_insert:
  assumes inv: "outbox_inv pl db" and h: "head_of_identity db (draft_identity_hash pl d) = Some h"
    and ok: "allocate_and_insert pl db env d h = Ok (db', e)"
  shows "outbox_inv pl db'"
proof -
  let ?i = "draft_identity_hash pl d"
  note facts = allocate_OkD [OF ok]
  from facts(2) obtain dg where rows: "db_rows db' = db_rows db @ [event_row pl d dg e]"
    and fits: "outbox_event_fits db (event_row pl d dg e)" by blast
  have row: "er_identity_hash (event_row pl d dg e) = ?i" "er_event (event_row pl d dg e) = e"
    "er_key_hash (event_row pl d dg e) = draft_key_hash pl d" by (simp_all add: event_row_def)
  have hi: "hd_identity_hash h = ?i" and last: "last_sequence db ?i = hd_last_sequence h"
    using h head_of_identityD by (auto simp: last_sequence_def)
  have seq: "pe_sequence e = hd_last_sequence h + 1" "event_identity_hash pl e = ?i"
    "pe_position e = db_next_position db" by (simp_all add: facts(1))
  have new_last: "last_sequence db' j = (if j = ?i then hd_last_sequence h + 1 else last_sequence db j)" for j
    using last_sequence_heads [OF facts(3), of j] last_sequence_advance [OF h] hi by simp
  have "keys_ok db'"
    using inv fits by (simp add: outbox_inv_def keys_ok_def rows row outbox_event_fits_def)
  moreover have "identity_ok pl db'"
    using inv by (simp add: outbox_inv_def identity_ok_def rows row seq)
  moreover have "sequence_ok db'"
    unfolding sequence_ok_def
  proof
    fix j
    have old: "0 \<le> last_sequence db j" "sequences_of (db_rows db) j = [1..last_sequence db j]"
      using inv by (auto simp: outbox_inv_def sequence_ok_def)
    show "0 \<le> last_sequence db' j \<and> sequences_of (db_rows db') j = [1..last_sequence db' j]"
    proof (cases "j = ?i")
      case True
      have "[1..last_sequence db j + 1] = [1..last_sequence db j] @ [last_sequence db j + 1]"
        using old(1) by (simp add: upto_rec2)
      then show ?thesis using True old last by (simp add: new_last sequences_of_def rows row seq)
    next
      case False
      then show ?thesis using old by (simp add: new_last sequences_of_def rows row)
    qed
  qed
  moreover have "position_ok db'"
    using inv by (auto simp: outbox_inv_def position_ok_def rows row seq facts(4) sorted_wrt_append)
  moreover have "deletion_ok db'"
  proof (cases "dr_operation d \<in> {''delete'', ''tombstone''}")
    case False
    then have "db_ledger db' = db_ledger db" "\<not> is_deletion e"
      using facts(5) by (auto simp: is_deletion_def facts(1))
    then show ?thesis using inv by (simp add: outbox_inv_def deletion_ok_def rows row)
  next
    case True
    then have reg: "register_tombstone_in_transaction (db_ledger db) (event_registration pl d e) (ev_now env) = Ok (db_ledger db')"
      using facts(5) by simp
    have "ledger_inv (db_ledger db')" using inv ledger_inv_register [OF _ reg] by (simp add: outbox_inv_def deletion_ok_def)
    moreover have "tombstoned (db_ledger db') r" if "r \<in> set (db_rows db)" "is_deletion (er_event r)" for r
    proof (rule tombstoned_advances)
      show "tombstoned (db_ledger db) r" using inv that by (simp add: outbox_inv_def deletion_ok_def)
      show "\<exists>t'. ledger_of (db_ledger db') i = Some t' \<and> row_advances t t'"
        if "ledger_of (db_ledger db) i = Some t" for i t
        using register_advances [OF reg that] by blast
    qed
    moreover have "tombstoned (db_ledger db') (event_row pl d dg e)"
      using registered_tombstone [OF reg] by (auto simp: tombstoned_def row event_registration_def)
    ultimately show ?thesis by (auto simp: deletion_ok_def rows row)
  qed
  ultimately show ?thesis by (simp only: outbox_inv_def)
qed

section \<open>Every transaction keeps the invariant\<close>

lemma outbox_inv_ensure_head:
  assumes "outbox_inv pl db" and "ensure_head pl db d = Ok db1"
  shows "outbox_inv pl db1" and "db_rows db1 = db_rows db" and "db_ledger db1 = db_ledger db"
    and "db_next_position db1 = db_next_position db" and "last_sequence db1 i = last_sequence db i"
proof -
  show frame: "db_rows db1 = db_rows db" "db_ledger db1 = db_ledger db" "db_next_position db1 = db_next_position db"
    using assms(2) by (auto simp: ensure_head_def split: option.splits if_splits)
  have "find P (xs @ [x]) = (case find P xs of None \<Rightarrow> if P x then Some x else None | r \<Rightarrow> r)" for P xs and x :: EvHead
    by (induction xs) auto
  then show last: "last_sequence db1 i = last_sequence db i" for i
    using assms(2) by (auto simp: ensure_head_def last_sequence_def head_of_identity_def split: option.splits if_splits)
  show "outbox_inv pl db1"
    using assms(1) by (simp add: outbox_inv_def keys_ok_def identity_ok_def sequence_ok_def position_ok_def
        deletion_ok_def frame last)
qed

lemma db_prepare_cases:
  assumes "db_prepare pl db env d = (db', r)"
  obtains (Failed) err where "db' = db" "r = Raise err"
  | (Known) row where "existing_for_key db (draft_key_hash pl d) = Some row" "verify_existing pl row d = r" "db' = db"
  | (New) e db1 h where "existing_for_key db (draft_key_hash pl d) = None" "ensure_head pl db d = Ok db1"
      "head_of_identity db1 (draft_identity_hash pl d) = Some h" "allocate_and_insert pl db1 env d h = Ok (db', e)"
      "r = Ok e"
proof (cases "existing_for_key db (draft_key_hash pl d)")
  case (Some row)
  show ?thesis
  proof (rule Known [OF Some])
    show "verify_existing pl row d = r" "db' = db"
      using assms Some by (cases "verify_existing pl row d"; auto simp: db_prepare_def in_transaction_def)+
  qed
next
  case None
  note run = assms [unfolded db_prepare_def None option.case]
  show ?thesis
  proof (cases "ensure_head pl db d")
    case (Inl err)
    show ?thesis by (rule Failed [of err]) (use run Inl in \<open>simp_all add: in_transaction_def\<close>)
  next
    case (Inr db1)
    show ?thesis
    proof (cases "head_of_identity db1 (draft_identity_hash pl d)")
      case no_head: None
      show ?thesis by (rule Failed [of RowRefused]) (use run Inr no_head in \<open>simp_all add: in_transaction_def\<close>)
    next
      case (Some h)
      note run = run [unfolded Inr ebind_Ok Some option.case]
      show ?thesis
      proof (cases "allocate_and_insert pl db1 env d h")
        case (Inl err)
        show ?thesis by (rule Failed [of err]) (use run Inl in \<open>simp_all add: in_transaction_def\<close>)
      next
        case alloc: (Inr dbe)
        obtain db2 e where dbe: "dbe = (db2, e)" by (cases dbe)
        with run alloc have r: "db2 = db'" "r = Ok e" by (simp_all add: in_transaction_def)
        show ?thesis by (rule New [OF None Inr Some _ r(2)]) (simp add: alloc dbe r(1))
      qed
    qed
  qed
qed

lemma outbox_inv_prepare:
  assumes "outbox_inv pl db" and "db_prepare pl db env d = (db', r)"
  shows "outbox_inv pl db'"
  using assms(2)
proof (cases rule: db_prepare_cases)
  case (New e db1 h)
  show ?thesis using outbox_inv_insert [OF outbox_inv_ensure_head(1) [OF assms(1) New(2)] New(3,4)] .
qed (use assms(1) in simp_all)

text \<open>A repair event is a new event of the identity that was asked for.\<close>

lemma repair_identity:
  assumes "build_latest_repair_draft pl rp src = Ok d"
  shows "draft_identity_hash pl d = rp_identity_hash rp"
    and "dr_operation d = text_field (pe_payload src) ''operation''"
    and "(dr_tenant_id d, dr_collection d, dr_document_id d) = payload_identity (pe_payload src)"
    and "dr_document d = (case jget (pe_payload src) ''document'' of JObj x \<Rightarrow> Some x | _ \<Rightarrow> None)"
    and "dr_target_clusters d = rp_target_clusters rp" and "dr_routing_revision d = rp_routing_revision rp"
  using assms
  by (auto simp: build_latest_repair_draft_def Let_def draft_identity_hash_def identity_hash_of_def
      event_identity_hash_def kafka_key_def split: if_splits prod.splits)

lemma existing_for_keyD: "existing_for_key db k = Some r \<Longrightarrow> r \<in> set (db_rows db) \<and> er_key_hash r = k"
  by (auto simp: existing_for_key_def find_Some_iff)

lemma db_repair_cases:
  assumes "db_prepare_latest_repair pl db env rp = (db', r)"
  obtains (Failed) err where "db' = db" "r = Raise err"
  | (Known) row where "row \<in> set (db_rows db)" "r = Ok (er_event row)" "db' = db"
  | (New) h src d e where "head_of_identity db (rp_identity_hash rp) = Some h"
      "py_max (pe_sequence \<circ> er_event) (filter (\<lambda>r. er_identity_hash r = rp_identity_hash rp) (db_rows db)) = Some src"
      "build_latest_repair_draft pl rp (er_event src) = Ok d" "allocate_and_insert pl db env d h = Ok (db', e)" "r = Ok e"
proof (cases "head_of_identity db (rp_identity_hash rp)")
  case None
  show ?thesis
    by (rule Failed [of RepairSourceNotFound])
      (use assms None in \<open>simp_all add: db_prepare_latest_repair_def in_transaction_def\<close>)
next
  case h: (Some h)
  let ?key = "indexing_idempotency_key_hash pl (hd_tenant_id h) (hd_collection h) (hd_document_id h) (rp_idempotency_key rp)"
  let ?srcs = "filter (\<lambda>r. er_identity_hash r = rp_identity_hash rp) (db_rows db)"
  show ?thesis
  proof (cases "existing_for_key db ?key")
    case (Some row)
    show ?thesis
      by (rule Known [of row]) (use assms h Some existing_for_keyD [OF Some] in
        \<open>simp_all add: db_prepare_latest_repair_def in_transaction_def\<close>)
  next
    case None
    note run = assms [unfolded db_prepare_latest_repair_def h None option.case]
    show ?thesis
    proof (cases "py_max (pe_sequence \<circ> er_event) ?srcs")
      case None
      show ?thesis
        by (rule Failed [of RepairSourceNotFound]) (use run None in \<open>simp_all add: in_transaction_def\<close>)
    next
      case src: (Some src)
      note run = run [unfolded src option.case]
      show ?thesis
      proof (cases "build_latest_repair_draft pl rp (er_event src)")
        case (Inl err)
        show ?thesis by (rule Failed [of err]) (use run Inl in \<open>simp_all add: in_transaction_def\<close>)
      next
        case d: (Inr d)
        note run = run [unfolded d ebind_Ok]
        show ?thesis
        proof (cases "allocate_and_insert pl db env d h")
          case (Inl err)
          show ?thesis by (rule Failed [of err]) (use run Inl in \<open>simp_all add: in_transaction_def\<close>)
        next
          case alloc: (Inr dbe)
          obtain db2 e where dbe: "dbe = (db2, e)" by (cases dbe)
          with run alloc have r: "db2 = db'" "r = Ok e" by (simp_all add: in_transaction_def)
          show ?thesis by (rule New [OF h src d _ r(2)]) (simp add: alloc dbe r(1))
        qed
      qed
    qed
  qed
qed

lemma outbox_inv_repair:
  assumes "outbox_inv pl db" and "db_prepare_latest_repair pl db env rp = (db', r)"
  shows "outbox_inv pl db'"
  using assms(2)
proof (cases rule: db_repair_cases)
  case (New h src d e)
  from New(1) repair_identity(1) [OF New(3)] have "head_of_identity db (draft_identity_hash pl d) = Some h" by simp
  from outbox_inv_insert [OF assms(1) this New(4)] show ?thesis .
qed (use assms(1) in simp_all)

inductive outbox_step :: "platform \<Rightarrow> EvDb \<Rightarrow> EvDb \<Rightarrow> bool" for pl where
  Prepared: "db_prepare pl db env d = (db', r) \<Longrightarrow> outbox_step pl db db'"
| Repaired: "db_prepare_latest_repair pl db env rp = (db', r) \<Longrightarrow> outbox_step pl db db'"
| Published: "outbox_step pl db (fst (db_mark_published db eid t))"
| SendFailed: "outbox_step pl db (fst (db_record_failure db eid err))"
| LedgerMoved: "ledger_step (db_ledger db) l \<Longrightarrow> outbox_step pl db (db\<lparr>db_ledger := l\<rparr>)"

inductive outbox_reachable :: "platform \<Rightarrow> EvDb \<Rightarrow> bool" for pl where
  Start: "outbox_reachable pl db_empty"
| Step: "outbox_reachable pl db \<Longrightarrow> outbox_step pl db db' \<Longrightarrow> outbox_reachable pl db'"

lemma outbox_inv_ledger:
  assumes "outbox_inv pl db" and "ledger_step (db_ledger db) l"
  shows "outbox_inv pl (db\<lparr>db_ledger := l\<rparr>)"
proof -
  have "ledger_inv l"
    using assms by (auto simp: outbox_inv_def deletion_ok_def register_def ebind_eq_Ok elim!: ledger_step.cases
        intro: ledger_inv_register ledger_inv_record_target ledger_inv_hold)
  moreover have "tombstoned l r" if "tombstoned (db_ledger db) r" for r
    by (rule tombstoned_advances [OF that]) (rule ledger_step_advances [OF assms(2)])
  ultimately show ?thesis
    using assms(1) by (simp add: outbox_inv_def keys_ok_def identity_ok_def sequence_ok_def last_sequence_def
        head_of_identity_def position_ok_def deletion_ok_def)
qed

lemma outbox_reachable_inv: "outbox_reachable pl db \<Longrightarrow> outbox_inv pl db"
proof (induction rule: outbox_reachable.induct)
  case Start
  show ?case by (rule outbox_inv_empty)
next
  case (Step db db')
  from Step.hyps(2) Step.IH show ?case
    by cases (auto intro: outbox_inv_prepare outbox_inv_repair outbox_inv_update outbox_inv_ledger
        simp: db_mark_published_def db_record_failure_def)
qed

section \<open>The store keeps the contract\<close>

lemma dget_event_rows:
  "dget (db_event_rows db) k = map_option (\<lambda>r. (er_request_digest r, er_event r)) (existing_for_key db k)"
proof -
  have "dget (map (\<lambda>r. (er_key_hash r, er_request_digest r, er_event r)) rows) k =
      map_option (\<lambda>r. (er_request_digest r, er_event r)) (find (\<lambda>r. er_key_hash r = k) rows)" for rows
    by (induction rows) auto
  then show ?thesis by (simp add: db_event_rows_def existing_for_key_def)
qed

lemma sequence_bound:
  assumes "outbox_inv pl db" and "r \<in> set (db_rows db)" and "er_identity_hash r = i"
  shows "1 \<le> pe_sequence (er_event r)" and "pe_sequence (er_event r) \<le> last_sequence db i"
proof -
  have "pe_sequence (er_event r) \<in> set (sequences_of (db_rows db) i)"
    using assms(2,3) by (auto simp: sequences_of_def)
  also have "sequences_of (db_rows db) i = [1..last_sequence db i]"
    using assms(1) by (simp add: outbox_inv_def sequence_ok_def)
  finally show "1 \<le> pe_sequence (er_event r)" "pe_sequence (er_event r) \<le> last_sequence db i" by simp_all
qed

lemma db_prepare_new:
  assumes inv: "outbox_inv pl db" and None: "dget (db_event_rows db) (draft_key_hash pl d) = None"
    and ok: "db_prepare pl db env d = (db', Ok e)"
  shows "\<exists>g. request_digest pl d = Some g \<and> db_event_rows db' = db_event_rows db @ [(draft_key_hash pl d, g, e)] \<and>
    pe_payload e = build_event_payload pl d (pe_event_id e) (pe_sequence e) (ev_now env) \<and>
    pe_event_id e = ''evt:'' @ ev_uuid env \<and> pe_published_at e = None \<and>
    (\<forall>x \<in> set (db_event_rows db). event_identity_hash pl (snd (snd x)) = draft_identity_hash pl d \<longrightarrow>
       pe_sequence (snd (snd x)) < pe_sequence e)"
  using ok
proof (cases rule: db_prepare_cases)
  case (New e' db1 h)
  have e': "e' = e" using New(5) by simp
  note head = outbox_inv_ensure_head [OF inv New(2)]
  note facts = allocate_OkD [OF New(4) [unfolded e']]
  from facts(2) obtain g where g: "request_digest pl d = Some g" and rows: "db_rows db' = db_rows db @ [event_row pl d g e]"
    by (auto simp: head(2))
  have "last_sequence db (draft_identity_hash pl d) = hd_last_sequence h"
    using head(5) [of "draft_identity_hash pl d"] New(3) by (simp add: last_sequence_def)
  then have "pe_sequence (er_event r) < pe_sequence e"
    if "r \<in> set (db_rows db)" "event_identity_hash pl (er_event r) = draft_identity_hash pl d" for r
    using sequence_bound(2) [OF inv that(1)] that inv by (auto simp: facts(1) outbox_inv_def identity_ok_def)
  then show ?thesis using g by (auto simp: db_event_rows_def rows event_row_def facts(1))
qed (use None in \<open>simp_all add: dget_event_rows\<close>)

lemma db_prepare_known:
  assumes "dget (db_event_rows db) (draft_key_hash pl d) = Some (g, e)" and "request_digest pl d = Some g'"
  shows "db_prepare pl db env d = (db, if g' = g then Ok e else Raise IdempotencyConflict)"
  using assms by (auto simp: dget_event_rows db_prepare_def verify_existing_def in_transaction_def)

interpretation pg_events: indexing_event_store pl "db_prepare pl" db_mark_published db_record_failure
  db_list_pending db_event_rows "outbox_inv pl" for pl
proof
  fix s env d s' r
  show "outbox_inv pl s'" if "outbox_inv pl s"
    "''evt:'' @ ev_uuid env \<notin> set (map (pe_event_id \<circ> snd \<circ> snd) (db_event_rows s))" "db_prepare pl s env d = (s', r)"
    using outbox_inv_prepare that(1,3) .
next
  fix s env d g e g'
  show "db_prepare pl s env d = (s, if g' = g then Ok e else Raise IdempotencyConflict)"
    if "dget (db_event_rows s) (draft_key_hash pl d) = Some (g, e)" "request_digest pl d = Some g'"
    using db_prepare_known that .
next
  fix s env d s' e
  assume "outbox_inv pl s" "dget (db_event_rows s) (draft_key_hash pl d) = None" "db_prepare pl s env d = (s', Ok e)"
  from db_prepare_new [OF this] show "\<exists>g. request_digest pl d = Some g \<and>
      db_event_rows s' = db_event_rows s @ [(draft_key_hash pl d, g, e)] \<and>
      pe_payload e = build_event_payload pl d (pe_event_id e) (pe_sequence e) (ev_now env) \<and>
      pe_event_id e = ''evt:'' @ ev_uuid env \<and> pe_published_at e = None \<and>
      (\<forall>x \<in> set (db_event_rows s). event_identity_hash pl (snd (snd x)) = draft_identity_hash pl d \<longrightarrow>
         pe_sequence (snd (snd x)) < pe_sequence e)" .
next
  fix s env d s' e
  assume "db_prepare pl s env d = (s', Ok e)"
  then show "request_digest pl d \<noteq> None"
  proof (cases rule: db_prepare_cases)
    case (New e' db1 h)
    from allocate_OkD(2) [OF New(4)] show ?thesis by auto
  qed (auto simp: verify_existing_def split: option.splits)
next
  fix s env d s' err
  assume "db_prepare pl s env d = (s', Raise err)"
  then show "db_event_rows s' = db_event_rows s"
    by (cases rule: db_prepare_cases) simp_all
next
  fix s eid t
  show "outbox_inv pl (fst (db_mark_published s eid t)) \<and>
      db_event_rows (fst (db_mark_published s eid t)) = touch eid (publish_event t) (db_event_rows s)"
    if "outbox_inv pl s"
    using outbox_inv_update [OF that] by (simp add: db_mark_published_def db_update_event_rows)
next
  fix s eid err
  show "outbox_inv pl (fst (db_record_failure s eid err)) \<and>
      db_event_rows (fst (db_record_failure s eid err)) = touch eid (fail_event err) (db_event_rows s)"
    if "outbox_inv pl s"
    using outbox_inv_update [OF that] by (simp add: db_record_failure_def db_update_event_rows)
next
  fix s
  show "distinct (map (pe_event_id \<circ> snd \<circ> snd) (db_event_rows s))" if "outbox_inv pl s"
    using that by (simp add: outbox_inv_def keys_ok_def db_event_rows_def comp_def)
next
  fix s limit es
  assume inv: "outbox_inv pl s" and ok: "db_list_pending s limit = Ok es"
  have rows: "map (snd \<circ> snd) (db_event_rows s) = map er_event (db_rows s)"
    by (simp add: db_event_rows_def comp_def)
  have d: "distinct (map pe_event_id (map er_event (db_rows s)))"
    using inv by (simp add: outbox_inv_def keys_ok_def)
  have es: "es = take (nat limit) (filter (\<lambda>e. pe_published_at e = None) (sort_key pe_position (map er_event (db_rows s))))"
    using ok by (auto simp: db_list_pending_def filter_sort split: if_splits)
  have "length (map er_event (db_rows s)) \<le> nat limit" if "int (length (db_event_rows s)) \<le> limit"
    using that by (simp add: db_event_rows_def)
  with pending_page [OF d es] show "set es \<subseteq> {e \<in> set (map (snd \<circ> snd) (db_event_rows s)). pe_published_at e = None} \<and>
      distinct (map pe_event_id es) \<and> (int (length (db_event_rows s)) \<le> limit \<longrightarrow>
        {e \<in> set (map (snd \<circ> snd) (db_event_rows s)). pe_published_at e = None} \<subseteq> set es)"
    unfolding rows by blast
next
  fix s :: EvDb and limit :: int
  show "\<exists>es. db_list_pending s limit = Ok es" if "1 \<le> limit" using that by (simp add: db_list_pending_def)
qed

section \<open>Properties\<close>


text \<open>
  C27. A deletion is never only in the outbox: the tombstone commits with its event, and in
  every reachable database, acknowledgements, holds and further mutations included, the
  ledger suppresses a replay of every sequence of the document up to the deletion.
\<close>

theorem deletion_event_suppressed:
  assumes "outbox_reachable pl db" and "r \<in> set (db_rows db)" and "is_deletion (er_event r)"
    and "1 \<le> n" and "n \<le> pe_sequence (er_event r)"
  shows "should_suppress (db_ledger db) (er_identity_hash r) n = Ok True"
proof -
  have inv: "ledger_inv (db_ledger db)" "tombstoned (db_ledger db) r"
    using outbox_reachable_inv [OF assms(1)] assms(2,3) by (auto simp: outbox_inv_def deletion_ok_def)
  then obtain t where t: "ledger_of (db_ledger db) (er_identity_hash r) = Some t" "pe_sequence (er_event r) \<le> lr_sequence t"
    by (auto simp: tombstoned_def)
  from ledger_of_Some [OF t(1)] inv(1) have "HASH (er_identity_hash r)"
    by (auto simp: ledger_inv_def row_ok_def)
  with t assms(4,5) show ?thesis by (simp add: should_suppress_def)
qed

text \<open>What later steps may do to the rows.\<close>

inductive outbox_steps :: "platform \<Rightarrow> EvDb \<Rightarrow> EvDb \<Rightarrow> bool" for pl where
  Here: "outbox_steps pl db db"
| Further: "outbox_steps pl db db1 \<Longrightarrow> outbox_step pl db1 db2 \<Longrightarrow> outbox_steps pl db db2"

lemma repair_extends:
  assumes "db_prepare_latest_repair pl db env rp = (db', r)"
  shows "rows_extend (db_event_rows db) (db_event_rows db')"
  using assms
proof (cases rule: db_repair_cases)
  case (New h src d e)
  from allocate_OkD(2) [OF New(4)] obtain x where "db_rows db' = db_rows db @ [x]" by blast
  then show ?thesis by (simp add: db_event_rows_def rows_extend_append)
qed (simp_all add: rows_extend_refl)

lemma outbox_step_extends:
  assumes "outbox_step pl db db'" and "outbox_inv pl db"
  shows "outbox_inv pl db' \<and> rows_extend (db_event_rows db) (db_event_rows db')"
  using assms(1)
proof cases
  case (Prepared env d r)
  then show ?thesis using outbox_inv_prepare pg_events.prepare_extends assms(2) by blast
next
  case (Repaired env rp r)
  then show ?thesis using outbox_inv_repair repair_extends assms(2) by blast
next
  case (Published eid t)
  then show ?thesis
    using outbox_inv_update [OF assms(2)]
    by (simp add: db_mark_published_def db_update_event_rows rows_extend_touch)
next
  case (SendFailed eid err)
  then show ?thesis
    using outbox_inv_update [OF assms(2)]
    by (simp add: db_record_failure_def db_update_event_rows rows_extend_touch)
next
  case (LedgerMoved l)
  then show ?thesis
    using outbox_inv_ledger [OF assms(2)] by (simp add: db_event_rows_def rows_extend_refl)
qed

lemma outbox_steps_extends:
  "outbox_steps pl db db' \<Longrightarrow> outbox_inv pl db \<Longrightarrow>
     outbox_inv pl db' \<and> rows_extend (db_event_rows db) (db_event_rows db')"
proof (induction rule: outbox_steps.induct)
  case (Here db)
  then show ?case by (simp add: rows_extend_refl)
next
  case (Further db db1 db2)
  then show ?case using outbox_step_extends rows_extend_trans by blast
qed


text \<open>
  C29. Nothing accepted is lost: if every row that is marked published is in the log, then a
  replay of the outbox through a broker that acknowledges, with a page as large as the table,
  succeeds, leaves nothing pending, and every accepted mutation is in the log.
\<close>

theorem outbox_replay_drains:
  assumes "outbox_reachable pl db"
    and "\<forall>r \<in> set (db_rows db). pe_published_at (er_event r) \<noteq> None \<longrightarrow> logged klog (er_event r)"
    and "\<forall>e. broker e = Acked" and "1 \<le> limit" and "int (length (db_rows db)) \<le> limit"
  shows "\<exists>db' klog' n. publish_pending db_list_pending db_mark_published db_record_failure prefix propagated
      broker now limit db klog = (db', klog', Ok n) \<and> db_pending_count db' = 0 \<and>
      (\<forall>r \<in> set (db_rows db'). logged klog' (er_event r)) \<and>
      rows_extend (db_event_rows db) (db_event_rows db')"
proof -
  obtain db' klog' r where run: "publish_pending db_list_pending db_mark_published db_record_failure prefix propagated
      broker now limit db klog = (db', klog', r)" by (metis prod_cases3)
  have inv: "outbox_inv pl db" by (rule outbox_reachable_inv [OF assms(1)])
  have lost: "pg_events.nothing_lost pl db klog"
    unfolding pg_events.nothing_lost_def using inv assms(2) by (auto simp: db_event_rows_def)
  have len: "int (length (db_event_rows db)) \<le> limit" using assms(5) by (simp add: db_event_rows_def)
  from pg_events.publish_pending_drains [OF lost assms(3,4) len run]
  have drained: "(\<exists>n. r = Ok n)" "rows_extend (db_event_rows db) (db_event_rows db')"
    "\<forall>x \<in> set (db_event_rows db'). pe_published_at (snd (snd x)) \<noteq> None \<and> logged klog' (snd (snd x))" by simp_all
  then obtain n where r: "r = Ok n" by blast
  have rows: "pe_published_at (er_event x) \<noteq> None \<and> logged klog' (er_event x)" if "x \<in> set (db_rows db')" for x
    using drained that by (force simp: db_event_rows_def)
  then have "db_pending_count db' = 0" by (auto simp: db_pending_count_def filter_empty_conv)
  moreover have "rows_extend (db_event_rows db) (db_event_rows db')"
    using drained by simp
  ultimately show ?thesis using run rows r by auto
qed

text \<open>
  A repair replays the newest state of its document: a new repair event has the next
  sequence, and the identity, operation, document and filter of the event with the highest
  sequence; otherwise the repair returns an event that was already stored and changes nothing.
\<close>

theorem repair_clones_latest:
  assumes "outbox_reachable pl db" and "db_prepare_latest_repair pl db env rp = (db', Ok e)"
  shows "(db' = db \<and> e \<in> er_event ` set (db_rows db)) \<or>
    (\<exists>src \<in> set (db_rows db). er_identity_hash src = rp_identity_hash rp \<and>
       (\<forall>r \<in> set (db_rows db). er_identity_hash r = rp_identity_hash rp \<longrightarrow> pe_sequence (er_event r) \<le> pe_sequence (er_event src)) \<and>
       pe_sequence e = pe_sequence (er_event src) + 1 \<and> event_identity_hash pl e = rp_identity_hash rp \<and>
       payload_identity (pe_payload e) = payload_identity (pe_payload (er_event src)) \<and>
       text_field (pe_payload e) ''operation'' = text_field (pe_payload (er_event src)) ''operation'' \<and>
       (\<forall>x. jget (pe_payload e) ''document'' = JObj x \<longleftrightarrow> jget (pe_payload (er_event src)) ''document'' = JObj x) \<and>
       jget (pe_payload e) ''target_clusters'' = JArr (map JStr (rp_target_clusters rp)))"
  using assms(2)
proof (cases rule: db_repair_cases)
  case (New h src d e')
  have e': "e' = e" using New(5) by simp
  let ?i = "rp_identity_hash rp"
  note facts = allocate_OkD [OF New(4) [unfolded e']] and d = repair_identity [OF New(3)]
  have src: "src \<in> set (db_rows db)" "er_identity_hash src = ?i"
    "\<forall>r \<in> set (db_rows db). er_identity_hash r = ?i \<longrightarrow> pe_sequence (er_event r) \<le> pe_sequence (er_event src)"
    using py_max_Some [OF New(2)] by auto
  have inv: "outbox_inv pl db" by (rule outbox_reachable_inv [OF assms(1)])
  have last: "last_sequence db ?i = hd_last_sequence h" using New(1) by (simp add: last_sequence_def)
  have "1 \<le> last_sequence db ?i" using sequence_bound [OF inv src(1,2)] by simp
  then have "last_sequence db ?i \<in> set (sequences_of (db_rows db) ?i)"
    using inv by (simp add: outbox_inv_def sequence_ok_def)
  then have "last_sequence db ?i \<le> pe_sequence (er_event src)" using src(3) by (auto simp: sequences_of_def)
  then have seq: "pe_sequence (er_event src) = hd_last_sequence h" using sequence_bound(2) [OF inv src(1,2)] last by simp
  have "jget (pe_payload e) ''document'' = JObj x \<longleftrightarrow> dr_document d = Some x" for x
    by (simp add: facts(1) build_event_payload_def jget_def split: option.splits)
  then have doc: "jget (pe_payload e) ''document'' = JObj x \<longleftrightarrow> jget (pe_payload (er_event src)) ''document'' = JObj x" for x
    by (simp add: d(4) split: json.splits)
  have "payload_identity (pe_payload e) = payload_identity (pe_payload (er_event src))"
    by (simp add: facts(1) payload_identity_built d(3))
  moreover have "jget (pe_payload e) ''target_clusters'' = JArr (map JStr (rp_target_clusters rp))"
    by (simp add: facts(1) build_event_payload_def jget_def d(5))
  ultimately show ?thesis
    using src seq doc d(1,2) by (intro disjI2 bexI [OF _ src(1)]) (simp add: facts(1))
qed auto

section \<open>The two stores list the same latest events\<close>

text \<open>Filled in order of growing position, the dictionary ends with the last event of each key.\<close>

lemma latest_by_get:
  fixes pos :: "'e \<Rightarrow> int"
  assumes "sorted_wrt (<) (map pos es)" and "\<forall>x \<in> set (dvalues acc). \<forall>e \<in> set es. pos x < pos e"
  shows "dget (latest_by ident pos acc es) k =
    (case filter (\<lambda>e. ident e = k) es of [] \<Rightarrow> dget acc k | ms \<Rightarrow> Some (last ms))"
  using assms
proof (induction es arbitrary: acc)
  case Nil
  then show ?case by simp
next
  case (Cons e es)
  have newer: "pos cur < pos e" if "dget acc (ident e) = Some cur" for cur
    using Cons.prems(2) that by (force dest: map_of_SomeD)
  then have step: "latest_by ident pos acc (e # es) = latest_by ident pos (dput (ident e) e acc) es"
    by (auto split: option.splits)
  have "set (dvalues (dput (ident e) e acc)) \<subseteq> insert e (set (dvalues acc))"
    by (induction acc) auto
  then have "\<forall>x \<in> set (dvalues (dput (ident e) e acc)). \<forall>e \<in> set es. pos x < pos e"
    using Cons.prems by fastforce
  with Cons.IH Cons.prems(1) have "dget (latest_by ident pos (dput (ident e) e acc) es) k =
      (case filter (\<lambda>e. ident e = k) es of [] \<Rightarrow> dget (dput (ident e) e acc) k | ms \<Rightarrow> Some (last ms))" by simp
  then show ?case unfolding step by (auto simp: dget_dput split: list.splits)
qed

lemma latest_by_keys:
  "distinct (dkeys acc) \<Longrightarrow> distinct (dkeys (latest_by ident pos acc es))"
  by (induction es arbitrary: acc) (auto simp: distinct_update split: option.splits)

lemma last_filter_iff:
  fixes pos :: "'e \<Rightarrow> int"
  assumes "sorted_wrt (<) (map pos es)"
  shows "(filter P es \<noteq> [] \<and> e = last (filter P es)) \<longleftrightarrow>
    e \<in> set es \<and> P e \<and> (\<forall>x \<in> set es. P x \<longrightarrow> pos x \<le> pos e)"
  using assms
proof (induction es rule: rev_induct)
  case Nil
  then show ?case by simp
next
  case (snoc a es)
  then have "\<forall>x \<in> set es. pos x < pos a" by (simp add: sorted_wrt_append)
  with snoc show ?case by (auto simp: sorted_wrt_append)
qed

lemma latest_rows_agree:
  assumes idw: "\<forall>r \<in> set w. er_identity_hash r = ident (er_event r)"
    and sorted: "sorted_wrt (<) (map pe_position (map er_event w))"
  shows "sort_key pe_position (dvalues (latest_by ident pe_position [] (map er_event w))) =
    sort_key pe_position (map er_event (filter (rank_one w) w))"
proof -
  let ?es = "map er_event w"
  let ?D = "latest_by ident pe_position [] ?es"
  have keys: "distinct (dkeys ?D)" by (rule latest_by_keys) simp
  have get: "dget ?D k = Some e \<longleftrightarrow> e \<in> set ?es \<and> ident e = k \<and> (\<forall>x \<in> set ?es. ident x = k \<longrightarrow> pe_position x \<le> pe_position e)"
    for k e
    using latest_by_get [OF sorted, of "[]" ident k] last_filter_iff [OF sorted, of "\<lambda>e. ident e = k" e]
    by (auto split: list.splits)
  have in_vals: "e \<in> set (dvalues ?D) \<longleftrightarrow> (\<exists>k. dget ?D k = Some e)" for e
    using keys by (force simp: map_of_eq_Some_iff)
  have rank: "rank_one w r \<longleftrightarrow> (\<forall>x \<in> set ?es. ident x = ident (er_event r) \<longrightarrow> pe_position x \<le> pe_position (er_event r))"
    if "r \<in> set w" for r
    using idw that by (auto simp: rank_one_def)
  have vals: "set (dvalues ?D) = set (map er_event (filter (rank_one w) w))"
  proof (rule set_eqI)
    fix e
    have "e \<in> set (dvalues ?D) \<longleftrightarrow> e \<in> set ?es \<and> (\<forall>x \<in> set ?es. ident x = ident e \<longrightarrow> pe_position x \<le> pe_position e)"
      unfolding in_vals get by auto
    also have "\<dots> \<longleftrightarrow> (\<exists>r \<in> set w. e = er_event r \<and> rank_one w r)" using rank by auto
    finally show "e \<in> set (dvalues ?D) \<longleftrightarrow> e \<in> set (map er_event (filter (rank_one w) w))" by auto
  qed
  have inj: "distinct (map pe_position ?es)" using sorted strict_sorted_iff by blast
  have "distinct (dvalues ?D)"
    unfolding distinct_map
  proof (intro conjI inj_onI)
    show "distinct ?D" using keys by (simp add: distinct_map)
    fix x y assume "x \<in> set ?D" "y \<in> set ?D" "snd x = snd y"
    then have "dget ?D (fst x) = Some (snd x)" "dget ?D (fst y) = Some (snd x)"
      using keys by (metis map_of_eq_Some_iff prod.collapse)+
    then have "fst x = fst y" using get by metis
    with \<open>snd x = snd y\<close> show "x = y" by (simp add: prod_eq_iff)
  qed
  moreover have "distinct (map er_event (filter (rank_one w) w))"
    using distinct_map_filter [of "pe_position \<circ> er_event" w "rank_one w"] inj
    by (simp add: distinct_map inj_on_def)
  moreover have "inj_on pe_position (set (dvalues ?D))"
    using inj vals by (auto simp: distinct_map inj_on_def)
  ultimately show ?thesis using vals by (intro sort_key_unique)
qed

text \<open>
  The memory store is the reference of the SQL window query: over the same events, the
  dictionary scan of \<open>in_memory_store.py\<close> and \<open>row_number() OVER (PARTITION BY
  identity_hash ORDER BY position DESC)\<close> of \<open>postgres_store.py\<close> return the same
  list for every window and limit, errors included.
\<close>

theorem latest_listings_agree:
  assumes "outbox_reachable pl db" and "em_events s = map er_event (db_rows db)"
  shows "em_list_latest_by_identity pl s after through limit = db_list_latest_by_identity db after through limit"
proof -
  define w where "w = filter (\<lambda>r. after < pe_position (er_event r) \<and> pe_position (er_event r) \<le> through) (db_rows db)"
  have inv: "identity_ok pl db" "position_ok db"
    using outbox_reachable_inv [OF assms(1)] by (simp_all add: outbox_inv_def)
  have idw: "\<forall>r \<in> set w. er_identity_hash r = event_identity_hash pl (er_event r)"
    using inv(1) by (simp add: identity_ok_def w_def)
  have "sorted_wrt (\<lambda>x y. pe_position (er_event x) < pe_position (er_event y)) w"
    using inv(2) unfolding w_def position_ok_def by (intro sorted_wrt_filter) (simp add: sorted_wrt_map)
  then have sorted: "sorted_wrt (<) (map pe_position (map er_event w))" by (simp add: sorted_wrt_map)
  have "filter (\<lambda>e. after < pe_position e \<and> pe_position e \<le> through) (em_events s) = map er_event w"
    by (simp add: assms(2) filter_map comp_def w_def)
  then show ?thesis
    by (simp add: em_list_latest_by_identity_def db_list_latest_by_identity_def Let_def latest_rows_agree [OF idw sorted]
        flip: w_def)
qed

text \<open>
  The memory store loses a sequence that PostgreSQL keeps: a mutation under a fresh key
  that cannot be digested (a NaN in its document) is refused by both stores, but the memory
  store has already advanced the head and the position of the document.
\<close>

theorem memory_prepare_skips_sequence:
  assumes "request_digest pl d = None" and "dget (em_by_key s) (draft_key_hash pl d) = None"
  shows "(\<exists>s' err. em_prepare pl s env d = (s', Raise err) \<and> em_events s' = em_events s \<and>
      em_position s' = em_position s + 1 \<and>
      dget (em_heads s') (draft_identity_hash pl d) =
        Some ((case dget (em_heads s) (draft_identity_hash pl d) of Some n \<Rightarrow> n | None \<Rightarrow> 0) + 1)) \<and>
    (\<exists>err. db_prepare pl db env d = (db, Raise err))"
proof
  show "\<exists>s' err. em_prepare pl s env d = (s', Raise err) \<and> em_events s' = em_events s \<and>
      em_position s' = em_position s + 1 \<and>
      dget (em_heads s') (draft_identity_hash pl d) =
        Some ((case dget (em_heads s) (draft_identity_hash pl d) of Some n \<Rightarrow> n | None \<Rightarrow> 0) + 1)"
    using assms by (simp add: em_prepare_def Let_def em_events_def dget_dput)
  obtain db' r where run: "db_prepare pl db env d = (db', r)" by fastforce
  show "\<exists>err. db_prepare pl db env d = (db, Raise err)"
  proof (cases r)
    case (Inl err)
    with run show ?thesis by (auto elim!: db_prepare_cases)
  next
    case (Inr e)
    with run pg_events.prepare_digested assms(1) show ?thesis by blast
  qed
qed

section \<open>A concrete run\<close>

text \<open>A hash function of the right shape: hexadecimal, and apart on the keys used below.\<close>

definition toy_platform :: platform where
  "toy_platform = \<lparr>sha256 = (\<lambda>s. if s \<noteq> [] \<and> last s = CHR ''2'' then second_hash else zero_hash),
     float_text = (\<lambda>_. ''0.0''), iso_text = (\<lambda>_. ''t'')\<rparr>"

lemma toy_hash [simp]: "HASH (sha256 toy_platform s)" "length (sha256 toy_platform s) = 64"
proof -
  have "HASH second_hash"
    by (auto simp: HASH_def second_hash_def matches_def is_hex_def is_digit_def list_all_iff)
  then show "HASH (sha256 toy_platform s)" using zero_hash_ok by (simp add: toy_platform_def)
  then show "length (sha256 toy_platform s) = 64" by (simp add: HASH_def matches_def)
qed

definition toy_draft :: IndexingEventDraft where
  "toy_draft = \<lparr>dr_tenant_id = ''t'', dr_collection = ''c'', dr_document_id = ''d'', dr_operation = ''delete'',
     dr_target_clusters = [''a''], dr_routing_revision = 1, dr_idempotency_key = ''k1'', dr_rollout_id = None,
     dr_trace = [], dr_document = None, dr_delete_filter = Some ''id:=d''\<rparr>"

definition toy_env :: "string \<Rightarrow> event_env" where
  "toy_env u = \<lparr>ev_now = 5, ev_uuid = u\<rparr>"

definition toy_event :: PreparedIndexingEvent where
  "toy_event = new_event toy_platform (toy_env ''u1'') toy_draft 1 1"

lemma toy_digest: "\<exists>dg. request_digest toy_platform toy_draft = Some dg \<and> length dg = 64"
  by (simp add: request_digest_def digest_material_def toy_draft_def opt_json_def)

lemma toy_registration:
  "validate_registration (event_registration toy_platform toy_draft toy_event) = Ok ()"
  by (simp add: validate_registration_def event_registration_def toy_draft_def toy_event_def target_a_ok
      bounded_text_def draft_identity_hash_def identity_hash_of_def fromkeys_def toy_env_def)

lemma toy_prepare:
  "\<exists>db dg. db_prepare toy_platform db_empty (toy_env ''u1'') toy_draft = (db, Ok toy_event) \<and>
     db_rows db = [event_row toy_platform toy_draft dg toy_event] \<and>
     db_heads db = [\<lparr>hd_identity_hash = draft_identity_hash toy_platform toy_draft, hd_tenant_id = ''t'',
       hd_collection = ''c'', hd_document_id = ''d'', hd_last_sequence = 1\<rparr>]"
proof -
  obtain dg where dg: "request_digest toy_platform toy_draft = Some dg" "length dg = 64" using toy_digest by blast
  obtain l where reg: "register_tombstone_in_transaction empty_ledger
      (event_registration toy_platform toy_draft toy_event) 5 = Ok l"
    using toy_registration by (simp add: register_tombstone_in_transaction_def ledger_of_def empty_ledger_def Let_def)
  have lens: "length (draft_identity_hash toy_platform toy_draft) = 64" "length (draft_key_hash toy_platform toy_draft) = 64"
    by (simp_all add: draft_identity_hash_def identity_hash_of_def draft_key_hash_def indexing_idempotency_key_hash_def)
  have fields: "dr_tenant_id toy_draft = ''t''" "dr_collection toy_draft = ''c''" "dr_document_id toy_draft = ''d''"
    "dr_operation toy_draft = ''delete''" "ev_now (toy_env ''u1'') = 5" "ev_uuid (toy_env ''u1'') = ''u1''"
    by (simp_all add: toy_draft_def toy_env_def)
  have finite: "finite_json (JObj (pe_payload toy_event))"
    by (simp add: toy_event_def build_event_payload_def toy_draft_def opt_json_def)
  have ev: "new_event toy_platform (toy_env ''u1'') toy_draft 1 1 = toy_event" by (simp add: toy_event_def)
  have "pe_sequence toy_event = 1" "pe_event_id toy_event = ''evt:u1''" by (simp_all add: toy_event_def fields)
  then show ?thesis
    using dg reg lens finite
    by (simp add: db_prepare_def existing_for_key_def db_empty_def ensure_head_def head_of_identity_def fields
        allocate_and_insert_def insert_outbox_event_def advance_head_def Let_def ev outbox_event_fits_def
        in_transaction_def event_row_def)
qed

definition toy_db :: EvDb where
  "toy_db = fst (db_prepare toy_platform db_empty (toy_env ''u1'') toy_draft)"

lemma toy_db:
  "db_prepare toy_platform db_empty (toy_env ''u1'') toy_draft = (toy_db, Ok toy_event)"
  "\<exists>dg. db_rows toy_db = [event_row toy_platform toy_draft dg toy_event]"
  "db_heads toy_db = [\<lparr>hd_identity_hash = draft_identity_hash toy_platform toy_draft, hd_tenant_id = ''t'',
     hd_collection = ''c'', hd_document_id = ''d'', hd_last_sequence = 1\<rparr>]"
  using toy_prepare by (auto simp: toy_db_def)

lemma toy_reachable: "outbox_reachable toy_platform toy_db"
  using outbox_reachable.Step [OF outbox_reachable.Start outbox_step.Prepared [OF toy_db(1)]] .

lemma toy_row_in: "\<exists>r. r \<in> set (db_rows toy_db) \<and> er_event r = toy_event \<and>
    er_identity_hash r = draft_identity_hash toy_platform toy_draft"
  using toy_db(2) by (auto simp: event_row_def)

lemma toy_event_facts:
  "pe_sequence toy_event = 1" "pe_position toy_event = 1" "pe_published_at toy_event = None"
  "text_field (pe_payload toy_event) ''operation'' = ''delete''"
  "event_identity_hash toy_platform toy_event = draft_identity_hash toy_platform toy_draft"
  by (simp_all add: toy_event_def) (simp add: toy_draft_def)


theorem deletion_event_suppressed_witness:
  "should_suppress (db_ledger toy_db) (draft_identity_hash toy_platform toy_draft) 1 = Ok True"
proof -
  obtain r where r: "r \<in> set (db_rows toy_db)" "er_event r = toy_event"
    "er_identity_hash r = draft_identity_hash toy_platform toy_draft" using toy_row_in by blast
  have "is_deletion (er_event r)" by (simp add: r(2) is_deletion_def toy_event_facts)
  from deletion_event_suppressed [OF toy_reachable r(1) this, of 1] show ?thesis
    by (simp add: r(2,3) toy_event_facts)
qed


theorem outbox_replay_drains_witness:
  "\<exists>db' klog' n. publish_pending db_list_pending db_mark_published db_record_failure ''p'' []
     (\<lambda>_. Acked) 9 10 toy_db [] = (db', klog', Ok n) \<and> db_pending_count db' = 0 \<and> db_pending_count toy_db = 1"
proof -
  have "\<forall>r \<in> set (db_rows toy_db). pe_published_at (er_event r) \<noteq> None \<longrightarrow> logged [] (er_event r)"
    and len: "int (length (db_rows toy_db)) \<le> 10" and one: "db_pending_count toy_db = 1"
    using toy_db(2) by (auto simp: event_row_def toy_event_facts db_pending_count_def)
  from outbox_replay_drains [OF toy_reachable this(1), of "\<lambda>_. Acked" 10 "''p''" "[]" 9] len one
  show ?thesis by auto
qed

definition toy_repair :: "string \<Rightarrow> LatestRepairDraft" where
  "toy_repair key = \<lparr>rp_identity_hash = draft_identity_hash toy_platform toy_draft, rp_idempotency_key = key,
     rp_target_clusters = [''b''], rp_routing_revision = 2, rp_rollout_id = None, rp_trace = []\<rparr>"

theorem repair_clones_latest_witness:
  "db_prepare_latest_repair toy_platform toy_db (toy_env ''u2'') (toy_repair ''k1'') = (toy_db, Ok toy_event) \<and>
   toy_event \<in> er_event ` set (db_rows toy_db)"
proof -
  obtain dg where rows: "db_rows toy_db = [event_row toy_platform toy_draft dg toy_event]" using toy_db(2) by blast
  have run: "db_prepare_latest_repair toy_platform toy_db (toy_env ''u2'') (toy_repair ''k1'') = (toy_db, Ok toy_event)"
    by (simp add: db_prepare_latest_repair_def head_of_identity_def toy_db(3) toy_repair_def existing_for_key_def rows
        event_row_def draft_key_hash_def toy_draft_def in_transaction_def)
  have "er_event ` set (db_rows toy_db) = {toy_event}" by (simp add: rows event_row_def)
  with run repair_clones_latest [OF toy_reachable run] show ?thesis
    by auto
qed

definition toy_memory :: EvMem where
  "toy_memory = fst (em_prepare toy_platform em_empty (toy_env ''u1'') toy_draft)"

theorem latest_listings_agree_witness:
  "em_list_latest_by_identity toy_platform toy_memory 0 5 10 = db_list_latest_by_identity toy_db 0 5 10"
proof -
  have "em_events toy_memory = map er_event (db_rows toy_db)"
    using toy_digest toy_db(2)
    by (auto simp: toy_memory_def em_prepare_def em_empty_def Let_def em_events_def event_row_def toy_event_def)
  from latest_listings_agree [OF toy_reachable this] show ?thesis .
qed

definition nan_draft :: IndexingEventDraft where
  "nan_draft = toy_draft\<lparr>dr_operation := ''upsert'', dr_document := Some [(''v'', JFloat NotANumber)]\<rparr>"

theorem memory_prepare_skips_sequence_witness:
  "\<exists>s' err. em_prepare toy_platform em_empty (toy_env ''u1'') nan_draft = (s', Raise err) \<and>
     em_events s' = [] \<and> em_position s' = 1"
proof -
  have "request_digest toy_platform nan_draft = None"
    by (simp add: request_digest_def digest_material_def nan_draft_def)
  from memory_prepare_skips_sequence [OF this, of em_empty "toy_env ''u1''" db_empty]
  show ?thesis by (auto simp: em_empty_def em_events_def)
qed

section \<open>A refusal that nobody sees\<close>

text \<open>
  The broker refuses the message while the producer flushes. The event is marked published, the
  caller is told that it was accepted, no replay lists it, and the log has never held it.
\<close>

lemma unseen_refusal_loses_event:
  "\<exists>db'. publish_prepared db_mark_published db_record_failure ''p'' [] RejectedUnseen 9 toy_db [] toy_event = (db', [], Ok ()) \<and>
     db_pending_count toy_db = 1 \<and> db_pending_count db' = 0 \<and> db_list_pending db' 10 = Ok []"
proof -
  obtain r where r: "r \<in> set (db_rows toy_db)" "er_event r = toy_event" using toy_row_in by blast
  have one: "db_rows toy_db = [r]" using toy_db r by auto
  show ?thesis using r one toy_event_facts
    by (simp add: publish_prepared_def db_mark_published_def db_update_rows db_pending_count_def db_list_pending_def
        unpublished_with_id_def publish_event_def)
qed

end
