(* ===== verification/EventEnvelope.thy ===== *)
theory EventEnvelope
  imports IndexingEvents
begin

text \<open>
  \<open>indexing_service/app/event_envelope.py\<close>: the worker's strict reading of a Kafka
  payload. Every check of the source is a guard in its order, and every
  \<open>EventEnvelopeError\<close> is a \<open>Raise\<close> with the name of the field. The calendar of
  \<open>datetime.fromisoformat\<close> and the text of containers are the fields of \<open>reader\<close>; the
  regular expressions are written out.
\<close>

section \<open>Events\<close>

record reader =
  rd_iso :: "string \<Rightarrow> time option"    \<comment> \<open>\<open>fromisoformat\<close> with a zone, in UTC\<close>
  rd_repr :: "json \<Rightarrow> string"

record EventIdentity =
  id_tenant_id :: string
  id_collection :: string
  id_document_id :: string

definition identity_key :: "EventIdentity \<Rightarrow> string" where
  "identity_key i = logical_key (id_tenant_id i) (id_collection i) (id_document_id i)"

record TraceMetadata =
  tm_request_id :: string
  tm_correlation_id :: string
  tm_traceparent :: string
  tm_tracestate :: string

datatype operation = Upsert | Delete | Tombstone

fun operation_text :: "operation \<Rightarrow> string" where
  "operation_text Upsert = ''upsert''"
| "operation_text Delete = ''delete''"
| "operation_text Tombstone = ''tombstone''"

definition operation_of :: "string \<Rightarrow> operation option" where
  "operation_of s = (if s = ''upsert'' then Some Upsert else if s = ''delete'' then Some Delete
     else if s = ''tombstone'' then Some Tombstone else None)"

record IndexingEventV2 =
  v2_event_id :: string
  v2_identity :: EventIdentity
  v2_document_version :: int
  v2_sequence :: int
  v2_operation :: operation
  v2_routing_revision :: int
  v2_rollout_id :: "string option"
  v2_target_clusters :: "string list"
  v2_occurred_at :: time
  v2_trace :: TraceMetadata
  v2_document :: "document option"
  v2_delete_filter :: "string option"

record LegacyIndexingEvent =
  lg_operation :: operation
  lg_collection :: string
  lg_document_id :: string
  lg_target_cluster :: "string option"
  lg_document :: "document option"
  lg_request_id :: string
  lg_delete_filter :: "string option"

datatype ParsedEvent = V2 IndexingEventV2 | Legacy LegacyIndexingEvent

datatype envelope_error = EventEnvelopeError string

section \<open>Patterns\<close>

definition word_char :: "char \<Rightarrow> bool" where
  "word_char c \<longleftrightarrow> is_alnum c \<or> c = CHR ''_'' \<or> c = CHR ''-''"

definition NAME_PATTERN :: "string \<Rightarrow> bool" where
  "NAME_PATTERN s = matches word_char 1 128 s"

definition DOCUMENT_ID_PATTERN :: "string \<Rightarrow> bool" where
  "DOCUMENT_ID_PATTERN s = matches (\<lambda>c. word_char c \<or> c = CHR ''.'') 1 256 s"

definition EVENT_ID_PATTERN :: "string \<Rightarrow> bool" where
  "EVENT_ID_PATTERN s = matches (\<lambda>c. word_char c \<or> c = CHR ''.'' \<or> c = CHR '':'') 8 128 s"

text \<open>A fixed layout: \<open>d\<close> stands for a digit, \<open>x\<close> for a hexadecimal digit.\<close>

definition layout :: "string \<Rightarrow> string \<Rightarrow> bool" where
  "layout t s = list_all2 (\<lambda>p c. if p = CHR ''d'' then is_digit c
     else if p = CHR ''x'' then is_hex c else c = p) t s"

definition RFC3339_PATTERN :: "string \<Rightarrow> bool" where
  "RFC3339_PATTERN s \<longleftrightarrow> layout ''dddd-dd-ddTdd:dd:dd'' (take 19 s) \<and>
     (let r = drop 19 s;
          frac = (if take 1 r = ''.'' then takeWhile is_digit (tl r) else ''0'');
          zone = (if take 1 r = ''.'' then dropWhile is_digit (tl r) else r)
      in 1 \<le> length frac \<and> length frac \<le> 6 \<and>
         (zone = ''Z'' \<or> layout ''+dd:dd'' zone \<or> layout ''-dd:dd'' zone))"

text \<open>\<open>00-<32 hex>-<16 hex>-<2 hex>\<close> with the reserved values excluded.\<close>

definition traceparent_ok :: "string \<Rightarrow> bool" where
  "traceparent_ok s \<longleftrightarrow>
     layout (''xx-'' @ replicate 32 CHR ''x'' @ ''-'' @ replicate 16 CHR ''x'' @ ''-xx'') s \<and>
     take 2 s \<noteq> ''ff'' \<and> take 32 (drop 3 s) \<noteq> replicate 32 CHR ''0'' \<and>
     take 16 (drop 36 s) \<noteq> replicate 16 CHR ''0''"

definition field_char :: "char \<Rightarrow> bool" where
  "field_char c \<longleftrightarrow> is_alnum c \<or> c = CHR ''_'' \<or> c = CHR ''.''"

definition filter_value_ok :: "string \<Rightarrow> bool" where
  "filter_value_ok v \<longleftrightarrow> NAME_PATTERN v \<or>
     (2 \<le> length v \<and> hd v = CHR ''['' \<and> last v = CHR '']'' \<and>
      list_all NAME_PATTERN (split_on CHR '','' (butlast (tl v))))"

text \<open>The document id of \<open>(id:=<id>) && <field>:=<value>\<close>; no other shape matches.\<close>

definition tenant_filter_id :: "string \<Rightarrow> string option" where
  "tenant_filter_id s =
     (let r = drop 5 s;
          doc = takeWhile (\<lambda>c. word_char c \<or> c = CHR ''.'') r;
          r1 = dropWhile (\<lambda>c. word_char c \<or> c = CHR ''.'') r;
          fld = takeWhile field_char (drop 5 r1);
          r2 = dropWhile field_char (drop 5 r1)
      in if take 5 s = ''(id:='' \<and> DOCUMENT_ID_PATTERN doc \<and> take 5 r1 = '') && '' \<and>
            fld \<noteq> [] \<and> \<not> is_digit (hd fld) \<and> hd fld \<noteq> CHR ''.'' \<and> take 2 r2 = '':='' \<and>
            filter_value_ok (drop 2 r2)
         then Some doc else None)"

definition MAX_INT64 :: int where "MAX_INT64 = 2 ^ 63 - 1"

section \<open>Field checks\<close>

definition identifier_field :: "json \<Rightarrow> string \<Rightarrow> (string \<Rightarrow> bool) \<Rightarrow> envelope_error + string" where
  "identifier_field v field pattern =
     (case v of
        JStr s \<Rightarrow> if strip s \<noteq> s then Raise (EventEnvelopeError field)
                  else if \<not> pattern s then Raise (EventEnvelopeError field) else Ok s
      | _ \<Rightarrow> Raise (EventEnvelopeError field))"

definition safe_text :: "json \<Rightarrow> string \<Rightarrow> nat \<Rightarrow> envelope_error + string" where
  "safe_text v field maximum =
     (case v of
        JStr s \<Rightarrow> if strip s \<noteq> s then Raise (EventEnvelopeError field)
                  else if s = [] \<or> length s > maximum then Raise (EventEnvelopeError field)
                  else if \<exists>c \<in> set s. \<not> is_printable c then Raise (EventEnvelopeError field) else Ok s
      | _ \<Rightarrow> Raise (EventEnvelopeError field))"

definition absent_or_empty :: "json \<Rightarrow> bool" where
  "absent_or_empty v \<longleftrightarrow> v = JNull \<or> v = JStr []"

definition safe_optional_text :: "json \<Rightarrow> string \<Rightarrow> envelope_error + string" where
  "safe_optional_text v field = (if absent_or_empty v then Ok [] else safe_text v field 1024)"

definition traceparent :: "json \<Rightarrow> envelope_error + string" where
  "traceparent v =
     (if absent_or_empty v then Ok []
      else ebind (safe_text v ''trace.traceparent'' 55) (\<lambda>s.
        if traceparent_ok s then Ok s else Raise (EventEnvelopeError ''trace.traceparent'')))"

definition positive_int :: "json \<Rightarrow> string \<Rightarrow> envelope_error + int" where
  "positive_int v field =
     (case v of
        JInt n \<Rightarrow> if n < 1 then Raise (EventEnvelopeError field)
                  else if n > MAX_INT64 then Raise (EventEnvelopeError field) else Ok n
      | _ \<Rightarrow> Raise (EventEnvelopeError field))"

definition timestamp :: "reader \<Rightarrow> json \<Rightarrow> envelope_error + time" where
  "timestamp rd v =
     (case v of
        JStr s \<Rightarrow> if \<not> RFC3339_PATTERN s then Raise (EventEnvelopeError ''occurred_at'')
                  else (case rd_iso rd s of None \<Rightarrow> Raise (EventEnvelopeError ''occurred_at'') | Some t \<Rightarrow> Ok t)
      | _ \<Rightarrow> Raise (EventEnvelopeError ''occurred_at''))"

definition tenant_delete_filter :: "json \<Rightarrow> string \<Rightarrow> envelope_error + string" where
  "tenant_delete_filter v document_id =
     ebind (safe_text v ''delete_filter'' 1024) (\<lambda>s.
       if tenant_filter_id s = Some document_id then Ok s else Raise (EventEnvelopeError ''delete_filter''))"

definition json_object :: "document \<Rightarrow> string \<Rightarrow> envelope_error + document" where
  "json_object d field =
     (case normalize_json_object d of Some d' \<Rightarrow> Ok d' | None \<Rightarrow> Raise (EventEnvelopeError field))"

section \<open>Parsing\<close>

definition only_keys :: "document \<Rightarrow> string list \<Rightarrow> bool" where
  "only_keys d ks \<longleftrightarrow> set (dkeys d) \<subseteq> set ks"

definition parse_identity :: "json \<Rightarrow> envelope_error + EventIdentity" where
  "parse_identity v =
     (case v of
        JObj d \<Rightarrow>
          if \<not> only_keys d [''tenant_id'', ''collection'', ''document_id''] then Raise (EventEnvelopeError ''identity'')
          else ebind (safe_text (jget d ''tenant_id'') ''identity.tenant_id'' 256) (\<lambda>tenant.
            if IDENTITY_SEPARATOR \<in> set tenant then Raise (EventEnvelopeError ''identity.tenant_id'')
            else ebind (identifier_field (jget d ''collection'') ''identity.collection'' NAME_PATTERN) (\<lambda>coll.
              ebind (identifier_field (jget d ''document_id'') ''identity.document_id'' DOCUMENT_ID_PATTERN) (\<lambda>doc.
                Ok \<lparr>id_tenant_id = tenant, id_collection = coll, id_document_id = doc\<rparr>)))
      | _ \<Rightarrow> Raise (EventEnvelopeError ''identity''))"

definition parse_trace :: "json \<Rightarrow> envelope_error + TraceMetadata" where
  "parse_trace v =
     (case v of
        JObj d \<Rightarrow>
          if \<not> only_keys d [''request_id'', ''correlation_id'', ''traceparent'', ''tracestate'']
          then Raise (EventEnvelopeError ''trace'')
          else ebind (safe_optional_text (jget d ''request_id'') ''trace.request_id'') (\<lambda>r.
            ebind (safe_optional_text (jget d ''correlation_id'') ''trace.correlation_id'') (\<lambda>c.
              ebind (traceparent (jget d ''traceparent'')) (\<lambda>p.
                ebind (safe_optional_text (jget d ''tracestate'') ''trace.tracestate'') (\<lambda>t.
                  Ok \<lparr>tm_request_id = r, tm_correlation_id = c, tm_traceparent = p, tm_tracestate = t\<rparr>))))
      | _ \<Rightarrow> Raise (EventEnvelopeError ''trace''))"

definition V2_KEYS :: "string list" where
  "V2_KEYS = [''envelope_version'', ''event_id'', ''identity'', ''document_version'', ''sequence'',
     ''operation'', ''routing_revision'', ''rollout_id'', ''target_clusters'', ''occurred_at'',
     ''trace'', ''document'', ''delete_filter'']"

text \<open>\<open>str(value or "")\<close>.\<close>

definition str_or_empty :: "reader \<Rightarrow> json \<Rightarrow> string" where
  "str_or_empty rd v = (if truthy v then py_str (rd_repr rd) v else [])"

definition parse_operation :: "reader \<Rightarrow> json \<Rightarrow> envelope_error + operation" where
  "parse_operation rd v =
     (case operation_of (lower (strip (str_or_empty rd v))) of
        Some op \<Rightarrow> Ok op | None \<Rightarrow> Raise (EventEnvelopeError ''operation''))"

definition parse_rollout_id :: "json \<Rightarrow> envelope_error + string option" where
  "parse_rollout_id v =
     (if v = JNull then Ok None
      else ebind (identifier_field v ''rollout_id'' NAME_PATTERN) (\<lambda>s. Ok (Some s)))"

definition parse_targets :: "json \<Rightarrow> envelope_error + string list" where
  "parse_targets v =
     (case v of
        JArr vs \<Rightarrow>
          if vs = [] then Raise (EventEnvelopeError ''target_clusters'')
          else ebind (mapE (\<lambda>t. identifier_field t ''target_clusters[]'' NAME_PATTERN) vs) (\<lambda>ts.
            if \<not> distinct ts then Raise (EventEnvelopeError ''target_clusters'') else Ok ts)
      | _ \<Rightarrow> Raise (EventEnvelopeError ''target_clusters''))"

text \<open>What an upsert and a deletion carry: a document or a filter, never both.\<close>

definition parse_content ::
  "reader \<Rightarrow> operation \<Rightarrow> string \<Rightarrow> json \<Rightarrow> json \<Rightarrow> envelope_error + document option \<times> string option" where
  "parse_content rd op document_id doc flt =
     (if op = Upsert then
        (case doc of
           JObj d \<Rightarrow>
             if d = [] then Raise (EventEnvelopeError ''document'')
             else if str_or_empty rd (jget d ''id'') \<noteq> document_id then Raise (EventEnvelopeError ''document.id'')
             else if flt \<noteq> JNull then Raise (EventEnvelopeError ''delete_filter'')
             else ebind (json_object d ''document'') (\<lambda>d'. Ok (Some d', None))
         | _ \<Rightarrow> Raise (EventEnvelopeError ''document''))
      else if doc \<noteq> JNull then Raise (EventEnvelopeError ''document'')
      else if flt = JNull then Ok (None, None)
      else ebind (tenant_delete_filter flt document_id) (\<lambda>f. Ok (None, Some f)))"

definition parse_v2 :: "reader \<Rightarrow> document \<Rightarrow> envelope_error + IndexingEventV2" where
  "parse_v2 rd p =
     (if \<not> only_keys p V2_KEYS then Raise (EventEnvelopeError ''unknown fields'')
      else ebind (identifier_field (jget p ''event_id'') ''event_id'' EVENT_ID_PATTERN) (\<lambda>eid.
        ebind (parse_identity (jget p ''identity'')) (\<lambda>ident.
        ebind (positive_int (jget p ''document_version'') ''document_version'') (\<lambda>version.
        ebind (positive_int (jget p ''sequence'') ''sequence'') (\<lambda>sequence.
        ebind (positive_int (jget p ''routing_revision'') ''routing_revision'') (\<lambda>revision.
        ebind (parse_operation rd (jget p ''operation'')) (\<lambda>op.
        ebind (parse_rollout_id (jget p ''rollout_id'')) (\<lambda>rollout.
        ebind (parse_targets (jget p ''target_clusters'')) (\<lambda>targets.
        ebind (timestamp rd (jget p ''occurred_at'')) (\<lambda>occurred.
        ebind (parse_trace (if jget p ''trace'' = JNull then JObj [] else jget p ''trace'')) (\<lambda>trace.
        ebind (parse_content rd op (id_document_id ident) (jget p ''document'') (jget p ''delete_filter'')) (\<lambda>(doc, flt).
          Ok \<lparr>v2_event_id = eid, v2_identity = ident, v2_document_version = version, v2_sequence = sequence,
              v2_operation = op, v2_routing_revision = revision, v2_rollout_id = rollout,
              v2_target_clusters = targets, v2_occurred_at = occurred, v2_trace = trace, v2_document = doc,
              v2_delete_filter = flt\<rparr>))))))))))))"

definition parse_legacy :: "reader \<Rightarrow> document \<Rightarrow> envelope_error + LegacyIndexingEvent" where
  "parse_legacy rd p =
     (let action = jget p ''action'';
          op_text = lower (strip (if truthy action then py_str (rd_repr rd) action else ''upsert''));
          doc = (case jget p ''document'' of JObj d \<Rightarrow> Some d | _ \<Rightarrow> None) in
      if op_text \<notin> {''upsert'', ''delete''} then Raise (EventEnvelopeError ''action'')
      else ebind (identifier_field (jget p ''collection'') ''collection'' NAME_PATTERN) (\<lambda>coll.
        if op_text = ''upsert'' \<and> (doc = None \<or> doc = Some []) then Raise (EventEnvelopeError ''document'')
        else
          let document_id = (if op_text = ''upsert'' then str_or_empty rd (jget (the doc) ''id'')
                             else str_or_empty rd (jget p ''document_id'')) in
          if \<not> DOCUMENT_ID_PATTERN document_id then Raise (EventEnvelopeError ''document id'')
          else ebind (if truthy (jget p ''target_cluster'')
                      then ebind (identifier_field (jget p ''target_cluster'') ''target_cluster'' NAME_PATTERN) (\<lambda>t. Ok (Some t))
                      else Ok None) (\<lambda>target.
            ebind (safe_text (if truthy (jget p ''request_id'') then jget p ''request_id'' else JStr ''-'') ''request_id'' 256) (\<lambda>rid.
              ebind (if jget p ''filter_by'' \<noteq> JNull
                     then ebind (safe_text (jget p ''filter_by'') ''filter_by'' 4096) (\<lambda>f. Ok (Some f))
                     else Ok None) (\<lambda>flt.
                Ok \<lparr>lg_operation = (if op_text = ''upsert'' then Upsert else Delete), lg_collection = coll,
                    lg_document_id = document_id, lg_target_cluster = target, lg_document = doc,
                    lg_request_id = rid, lg_delete_filter = flt\<rparr>)))))"

text \<open>The version test is Python's \<open>==\<close>: 2.0 passes as well.\<close>

definition version_two :: "json \<Rightarrow> bool" where
  "version_two v \<longleftrightarrow> v = JInt 2 \<or> v = JFloat (Fin 2)"

definition parse_indexing_event :: "reader \<Rightarrow> bool \<Rightarrow> json \<Rightarrow> envelope_error + ParsedEvent" where
  "parse_indexing_event rd allow_legacy payload =
     (case payload of
        JObj p \<Rightarrow>
          if version_two (jget p ''envelope_version'') then ebind (parse_v2 rd p) (\<lambda>e. Ok (V2 e))
          else if jget p ''envelope_version'' \<noteq> JNull then Raise (EventEnvelopeError ''envelope_version'')
          else if \<not> allow_legacy then Raise (EventEnvelopeError ''legacy'')
          else ebind (parse_legacy rd p) (\<lambda>e. Ok (Legacy e))
      | _ \<Rightarrow> Raise (EventEnvelopeError ''object''))"

definition legacy_events_enabled :: "string option \<Rightarrow> bool option" where
  "legacy_events_enabled env =
     (let v = lower (strip (case env of Some s \<Rightarrow> s | None \<Rightarrow> ''false'')) in
      if v \<in> {''1'', ''true'', ''yes'', ''on''} then Some True
      else if v \<in> {''0'', ''false'', ''no'', ''off''} then Some False else None)"

definition indexing_event_digest :: "platform \<Rightarrow> IndexingEventV2 \<Rightarrow> string" where
  "indexing_event_digest pl e =
     sha256 pl (canonical_json pl (JObj
       [(''envelope_version'', JInt 2), (''event_id'', JStr (v2_event_id e)),
        (''identity'', JObj [(''tenant_id'', JStr (id_tenant_id (v2_identity e))),
           (''collection'', JStr (id_collection (v2_identity e))),
           (''document_id'', JStr (id_document_id (v2_identity e)))]),
        (''document_version'', JInt (v2_document_version e)), (''sequence'', JInt (v2_sequence e)),
        (''operation'', JStr (operation_text (v2_operation e))),
        (''routing_revision'', JInt (v2_routing_revision e)),
        (''rollout_id'', opt_json (v2_rollout_id e)),
        (''target_clusters'', JArr (map JStr (sort (v2_target_clusters e)))),
        (''document'', (case v2_document e of Some d \<Rightarrow> JObj d | None \<Rightarrow> JNull)),
        (''delete_filter'', opt_json (v2_delete_filter e))]))"

section \<open>What a parsed event satisfies\<close>

lemma identifier_iff: "identifier_field v f P = Ok s \<longleftrightarrow> v = JStr s \<and> strip s = s \<and> P s"
  by (auto simp: identifier_field_def split: json.splits if_splits)

lemma safe_text_iff: "safe_text v f n = Ok s \<longleftrightarrow>
    v = JStr s \<and> strip s = s \<and> s \<noteq> [] \<and> length s \<le> n \<and> (\<forall>c \<in> set s. is_printable c)"
  by (auto simp: safe_text_def split: json.splits if_splits)

lemma positive_int_iff: "positive_int v f = Ok n \<longleftrightarrow> v = JInt n \<and> 1 \<le> n \<and> n \<le> MAX_INT64"
  by (auto simp: positive_int_def split: json.splits if_splits)

lemma parse_targets_iff: "parse_targets v = Ok ts \<longleftrightarrow>
    v = JArr (map JStr ts) \<and> ts \<noteq> [] \<and> distinct ts \<and> (\<forall>t \<in> set ts. strip t = t \<and> NAME_PATTERN t)"
proof -
  have "list_all2 (\<lambda>x y. x = JStr y \<and> strip y = y \<and> NAME_PATTERN y) vs ts \<longleftrightarrow>
      vs = map JStr ts \<and> (\<forall>t \<in> set ts. strip t = t \<and> NAME_PATTERN t)" for vs
    by (induction ts arbitrary: vs) (auto simp: list_all2_Cons2)
  then show ?thesis
    by (auto simp: parse_targets_def ebind_eq_Ok mapE_eq_Ok_iff identifier_iff split: json.splits if_splits)
qed

lemma parse_identity_iff: "parse_identity v = Ok i \<longleftrightarrow>
    (\<exists>d. v = JObj d \<and> only_keys d [''tenant_id'', ''collection'', ''document_id''] \<and>
      safe_text (jget d ''tenant_id'') ''identity.tenant_id'' 256 = Ok (id_tenant_id i) \<and>
      IDENTITY_SEPARATOR \<notin> set (id_tenant_id i) \<and>
      identifier_field (jget d ''collection'') ''identity.collection'' NAME_PATTERN = Ok (id_collection i) \<and>
      identifier_field (jget d ''document_id'') ''identity.document_id'' DOCUMENT_ID_PATTERN = Ok (id_document_id i))"
  by (cases i) (auto simp: parse_identity_def ebind_eq_Ok split: json.splits if_splits)

definition identity_wellformed :: "EventIdentity \<Rightarrow> bool" where
  "identity_wellformed i \<longleftrightarrow> id_tenant_id i \<noteq> [] \<and> length (id_tenant_id i) \<le> 256 \<and>
     (\<forall>c \<in> set (id_tenant_id i). is_printable c) \<and>
     NAME_PATTERN (id_collection i) \<and> DOCUMENT_ID_PATTERN (id_document_id i)"

lemma parse_identity_wellformed: "parse_identity v = Ok i \<Longrightarrow> identity_wellformed i"
  by (auto simp: parse_identity_iff safe_text_iff identifier_iff identity_wellformed_def)

text \<open>The separator of the Kafka key occurs in none of the three parts.\<close>

lemma separator_not_printable: "\<not> is_printable IDENTITY_SEPARATOR"
  by (simp add: is_printable_def IDENTITY_SEPARATOR_def)

lemma separator_not_word: "\<not> word_char IDENTITY_SEPARATOR" "IDENTITY_SEPARATOR \<noteq> CHR ''.''"
  by (auto simp: word_char_def is_alnum_def is_digit_def is_lower_def is_upper_def IDENTITY_SEPARATOR_def
      less_eq_char_def)

lemma wellformed_no_separator:
  assumes "identity_wellformed i"
  shows "\<forall>x \<in> set [id_tenant_id i, id_collection i, id_document_id i]. IDENTITY_SEPARATOR \<notin> set x"
  using assms separator_not_printable separator_not_word
  by (auto simp: identity_wellformed_def NAME_PATTERN_def DOCUMENT_ID_PATTERN_def matches_def list_all_iff)

lemma identity_key_inject:
  assumes "identity_wellformed i" and "identity_wellformed j" and "identity_key i = identity_key j"
  shows "i = j"
proof -
  have "[id_tenant_id i, id_collection i, id_document_id i] = [id_tenant_id j, id_collection j, id_document_id j]"
    by (rule join_inject [of IDENTITY_SEPARATOR])
      (use assms(3) wellformed_no_separator [OF assms(1)] wellformed_no_separator [OF assms(2)] in
        \<open>simp_all only: identity_key_def logical_key_def list.distinct not_False_eq_True\<close>)
  then show ?thesis by (cases i; cases j) simp
qed

definition event_wellformed :: "IndexingEventV2 \<Rightarrow> bool" where
  "event_wellformed e \<longleftrightarrow> EVENT_ID_PATTERN (v2_event_id e) \<and> identity_wellformed (v2_identity e) \<and>
     (\<forall>n \<in> {v2_document_version e, v2_sequence e, v2_routing_revision e}. 1 \<le> n \<and> n < 2 ^ 63) \<and>
     v2_target_clusters e \<noteq> [] \<and> distinct (v2_target_clusters e) \<and> (\<forall>t \<in> set (v2_target_clusters e). NAME_PATTERN t) \<and>
     (case v2_operation e of
        Upsert \<Rightarrow> v2_delete_filter e = None \<and> (\<exists>d. v2_document e = Some d \<and> normalize_json_object d = Some d)
      | _ \<Rightarrow> v2_document e = None \<and>
          (\<forall>f. v2_delete_filter e = Some f \<longrightarrow> tenant_filter_id f = Some (id_document_id (v2_identity e))))"

lemma parse_content_iff: "parse_content rd op i doc flt = Ok (d, f) \<longleftrightarrow>
    (case op of
       Upsert \<Rightarrow> f = None \<and> flt = JNull \<and> (\<exists>src d'. doc = JObj src \<and> src \<noteq> [] \<and>
         str_or_empty rd (jget src ''id'') = i \<and> normalize_json_object src = Some d' \<and> d = Some d')
     | _ \<Rightarrow> d = None \<and> doc = JNull \<and> (case f of
         None \<Rightarrow> flt = JNull
       | Some s \<Rightarrow> tenant_delete_filter flt i = Ok s))"
proof (cases "op = Upsert")
  case True
  then show ?thesis
    by (auto simp: parse_content_def json_object_def ebind_eq_Ok split: json.splits if_splits option.splits)
next
  case False
  have "tenant_delete_filter JNull i \<noteq> Ok s" for s
    by (auto simp: tenant_delete_filter_def ebind_eq_Ok safe_text_iff)
  with False show ?thesis
    by (cases op) (auto simp: parse_content_def ebind_eq_Ok split: if_splits option.splits)
qed

lemma parse_v2_iff: "parse_v2 rd p = Ok e \<longleftrightarrow> only_keys p V2_KEYS \<and>
    identifier_field (jget p ''event_id'') ''event_id'' EVENT_ID_PATTERN = Ok (v2_event_id e) \<and>
    parse_identity (jget p ''identity'') = Ok (v2_identity e) \<and>
    positive_int (jget p ''document_version'') ''document_version'' = Ok (v2_document_version e) \<and>
    positive_int (jget p ''sequence'') ''sequence'' = Ok (v2_sequence e) \<and>
    positive_int (jget p ''routing_revision'') ''routing_revision'' = Ok (v2_routing_revision e) \<and>
    parse_operation rd (jget p ''operation'') = Ok (v2_operation e) \<and>
    parse_rollout_id (jget p ''rollout_id'') = Ok (v2_rollout_id e) \<and>
    parse_targets (jget p ''target_clusters'') = Ok (v2_target_clusters e) \<and>
    timestamp rd (jget p ''occurred_at'') = Ok (v2_occurred_at e) \<and>
    parse_trace (if jget p ''trace'' = JNull then JObj [] else jget p ''trace'') = Ok (v2_trace e) \<and>
    parse_content rd (v2_operation e) (id_document_id (v2_identity e)) (jget p ''document'') (jget p ''delete_filter'') =
      Ok (v2_document e, v2_delete_filter e)"
  by (cases e) (auto simp: parse_v2_def ebind_eq_Ok)

text \<open>
  C32. Whatever the broker delivers, an accepted versioned event is well formed: identifiers
  match their patterns, counters fit a 64-bit column, the targets are distinct names, an
  upsert carries one canonical finite document and no filter, and a deletion carries no
  document and at most a filter for exactly its own document.
\<close>

theorem parsed_event_wellformed:
  assumes "parse_indexing_event rd legacy payload = Ok (V2 e)"
  shows "event_wellformed e"
proof -
  obtain p where p: "parse_v2 rd p = Ok e"
    using assms by (auto simp: parse_indexing_event_def ebind_eq_Ok split: json.splits if_splits)
  note facts = p [unfolded parse_v2_iff]
  have content: "case v2_operation e of
      Upsert \<Rightarrow> v2_delete_filter e = None \<and> (\<exists>d. v2_document e = Some d \<and> normalize_json_object d = Some d)
    | _ \<Rightarrow> v2_document e = None \<and>
        (\<forall>f. v2_delete_filter e = Some f \<longrightarrow> tenant_filter_id f = Some (id_document_id (v2_identity e)))"
    using facts
    by (auto simp: parse_content_iff tenant_delete_filter_def ebind_eq_Ok normalize_idem split: operation.splits
        option.splits if_splits)
  have "identity_wellformed (v2_identity e)" using facts parse_identity_wellformed by blast
  moreover have "EVENT_ID_PATTERN (v2_event_id e)"
    "\<forall>n \<in> {v2_document_version e, v2_sequence e, v2_routing_revision e}. 1 \<le> n \<and> n < 2 ^ 63"
    "v2_target_clusters e \<noteq> []" "distinct (v2_target_clusters e)" "\<forall>t \<in> set (v2_target_clusters e). NAME_PATTERN t"
    using facts by (auto simp: identifier_iff positive_int_iff parse_targets_iff MAX_INT64_def)
  ultimately show ?thesis using content by (simp add: event_wellformed_def)
qed

text \<open>
  The Kafka key determines the document: two accepted events with the same key have the
  same tenant, collection and document id, so one partition sees every event of a document and
  no tenant can forge the key of another.
\<close>

theorem kafka_key_determines_identity:
  assumes "parse_indexing_event rd l1 p1 = Ok (V2 e1)" and "parse_indexing_event rd l2 p2 = Ok (V2 e2)"
    and "identity_key (v2_identity e1) = identity_key (v2_identity e2)"
  shows "v2_identity e1 = v2_identity e2"
proof -
  have "identity_wellformed (v2_identity e)" if "parse_indexing_event rd l p = Ok (V2 e)" for l p e
    using that by (auto simp: parse_indexing_event_def ebind_eq_Ok parse_v2_iff split: json.splits if_splits
        intro: parse_identity_wellformed)
  with assms show ?thesis by (intro identity_key_inject) auto
qed

section \<open>Producer and worker agree\<close>

lemma word_char_not_space: "word_char c \<or> c = CHR ''.'' \<or> c = CHR '':'' \<Longrightarrow> \<not> is_space c"
  by (auto simp: word_char_def is_alnum_def is_digit_def is_lower_def is_upper_def is_space_def Let_def less_eq_char_def)

lemma strip_name: "NAME_PATTERN s \<Longrightarrow> strip s = s" "DOCUMENT_ID_PATTERN s \<Longrightarrow> strip s = s" "EVENT_ID_PATTERN s \<Longrightarrow> strip s = s"
  using word_char_not_space
  by (auto simp: NAME_PATTERN_def DOCUMENT_ID_PATTERN_def EVENT_ID_PATTERN_def matches_def list_all_iff intro!: strip_id)

definition draft_identity :: "IndexingEventDraft \<Rightarrow> EventIdentity" where
  "draft_identity d = \<lparr>id_tenant_id = dr_tenant_id d, id_collection = dr_collection d, id_document_id = dr_document_id d\<rparr>"

definition content_publishable :: "reader \<Rightarrow> IndexingEventDraft \<Rightarrow> bool" where
  "content_publishable rd d \<longleftrightarrow>
     (case dr_document d of
        Some src \<Rightarrow> dr_operation d = ''upsert'' \<and> src \<noteq> [] \<and> str_or_empty rd (jget src ''id'') = dr_document_id d \<and>
          dr_delete_filter d = None \<and> finite_json (JObj src)
      | None \<Rightarrow> dr_operation d \<in> {''delete'', ''tombstone''} \<and>
          (\<forall>f. dr_delete_filter d = Some f \<longrightarrow> tenant_delete_filter (JStr f) (dr_document_id d) = Ok f))"

definition publishable :: "reader \<Rightarrow> IndexingEventDraft \<Rightarrow> bool" where
  "publishable rd d \<longleftrightarrow> identity_wellformed (draft_identity d) \<and> strip (dr_tenant_id d) = dr_tenant_id d \<and>
     1 \<le> dr_routing_revision d \<and> dr_routing_revision d \<le> MAX_INT64 \<and>
     dr_target_clusters d \<noteq> [] \<and> distinct (dr_target_clusters d) \<and> (\<forall>t \<in> set (dr_target_clusters d). NAME_PATTERN t) \<and>
     (\<forall>r. dr_rollout_id d = Some r \<longrightarrow> NAME_PATTERN r) \<and> (\<exists>t. parse_trace (JObj (dr_trace d)) = Ok t) \<and>
     content_publishable rd d"

lemma built_fields:
  fixes pl d eid n now
  defines "p \<equiv> build_event_payload pl d eid n now"
  shows "only_keys p V2_KEYS" "jget p ''envelope_version'' = JInt 2" "jget p ''event_id'' = JStr eid"
    "jget p ''document_version'' = JInt n" "jget p ''sequence'' = JInt n"
    "jget p ''operation'' = JStr (dr_operation d)" "jget p ''routing_revision'' = JInt (dr_routing_revision d)"
    "jget p ''rollout_id'' = opt_json (dr_rollout_id d)"
    "jget p ''target_clusters'' = JArr (map JStr (dr_target_clusters d))"
    "jget p ''occurred_at'' = JStr (iso_text pl now)" "jget p ''trace'' = JObj (dr_trace d)"
    "jget p ''document'' = (case dr_document d of Some x \<Rightarrow> JObj x | None \<Rightarrow> JNull)"
    "jget p ''delete_filter'' = opt_json (dr_delete_filter d)"
    "jget p ''identity'' = JObj [(''tenant_id'', JStr (dr_tenant_id d)), (''collection'', JStr (dr_collection d)),
       (''document_id'', JStr (dr_document_id d))]"
  unfolding p_def build_event_payload_def
  by (auto simp: only_keys_def V2_KEYS_def jget_def opt_json_def split: option.splits)

lemma built_content:
  assumes "content_publishable rd d"
  shows "\<exists>op. operation_of (dr_operation d) = Some op \<and> operation_text op = dr_operation d \<and>
    parse_operation rd (JStr (dr_operation d)) = Ok op \<and>
    parse_content rd op (dr_document_id d) (case dr_document d of Some x \<Rightarrow> JObj x | None \<Rightarrow> JNull)
      (opt_json (dr_delete_filter d)) =
    Ok (case dr_document d of Some x \<Rightarrow> normalize_json_object x | None \<Rightarrow> None, dr_delete_filter d)"
proof -
  have low: "lower (strip s) = s" if "s \<in> {''upsert'', ''delete'', ''tombstone''}" for s
    using that by (auto simp: strip_def lower_def lower_char_def is_space_def Let_def)
  show ?thesis
  proof (cases "dr_document d")
    case (Some src)
    with assms obtain d' where d': "normalize_json_object src = Some d'"
      using normalize_total by (auto simp: content_publishable_def)
    show ?thesis
      using assms Some d' low [of "''upsert''"]
      by (intro exI [of _ Upsert]) (auto simp: content_publishable_def operation_of_def parse_operation_def
          str_or_empty_def parse_content_def json_object_def opt_json_def)
  next
    case None
    with assms have op: "dr_operation d \<in> {''delete'', ''tombstone''}" by (simp add: content_publishable_def)
    show ?thesis
      using assms None op low [of "dr_operation d"]
      by (intro exI [of _ "if dr_operation d = ''delete'' then Delete else Tombstone"])
        (auto simp: content_publishable_def operation_of_def parse_operation_def str_or_empty_def parse_content_def
          opt_json_def split: option.splits)
  qed
qed

definition worker_event ::
  "IndexingEventDraft \<Rightarrow> string \<Rightarrow> int \<Rightarrow> time \<Rightarrow> operation \<Rightarrow> TraceMetadata \<Rightarrow> IndexingEventV2" where
  "worker_event d eid n t op tm = \<lparr>v2_event_id = eid, v2_identity = draft_identity d, v2_document_version = n,
     v2_sequence = n, v2_operation = op, v2_routing_revision = dr_routing_revision d, v2_rollout_id = dr_rollout_id d,
     v2_target_clusters = dr_target_clusters d, v2_occurred_at = t, v2_trace = tm,
     v2_document = (case dr_document d of Some x \<Rightarrow> normalize_json_object x | None \<Rightarrow> None),
     v2_delete_filter = dr_delete_filter d\<rparr>"

lemma built_envelope_parsed:
  assumes "publishable rd d" and "EVENT_ID_PATTERN eid" and "1 \<le> n" and "n \<le> MAX_INT64"
    and "timestamp rd (JStr (iso_text pl now)) = Ok t"
  shows "\<exists>op tm. operation_text op = dr_operation d \<and>
    parse_indexing_event rd legacy (JObj (build_event_payload pl d eid n now)) = Ok (V2 (worker_event d eid n t op tm))"
proof -
  note pub = assms(1) [unfolded publishable_def]
  obtain tm where tm: "parse_trace (JObj (dr_trace d)) = Ok tm" using pub by blast
  obtain op where op: "operation_text op = dr_operation d" "parse_operation rd (JStr (dr_operation d)) = Ok op"
    "parse_content rd op (dr_document_id d) (case dr_document d of Some x \<Rightarrow> JObj x | None \<Rightarrow> JNull)
      (opt_json (dr_delete_filter d)) =
     Ok (case dr_document d of Some x \<Rightarrow> normalize_json_object x | None \<Rightarrow> None, dr_delete_filter d)"
    using built_content pub by blast
  let ?e = "worker_event d eid n t op tm" and ?p = "build_event_payload pl d eid n now"
  have wf: "dr_tenant_id d \<noteq> []" "length (dr_tenant_id d) \<le> 256" "\<forall>c \<in> set (dr_tenant_id d). is_printable c"
    "NAME_PATTERN (dr_collection d)" "DOCUMENT_ID_PATTERN (dr_document_id d)" "strip (dr_tenant_id d) = dr_tenant_id d"
    using pub by (auto simp: identity_wellformed_def draft_identity_def)
  then have sep: "IDENTITY_SEPARATOR \<notin> set (dr_tenant_id d)" using separator_not_printable by blast
  have "parse_identity (jget ?p ''identity'') = Ok (v2_identity ?e)"
    unfolding built_fields parse_identity_iff
    by (rule exI, rule conjI, rule refl)
      (use wf sep in \<open>simp add: only_keys_def worker_event_def draft_identity_def safe_text_iff identifier_iff
        jget_def strip_name\<close>)
  moreover have "parse_rollout_id (jget ?p ''rollout_id'') = Ok (v2_rollout_id ?e)"
    using pub by (cases "dr_rollout_id d")
      (simp_all add: built_fields opt_json_def parse_rollout_id_def worker_event_def ebind_eq_Ok identifier_iff strip_name)
  moreover have "parse_targets (jget ?p ''target_clusters'') = Ok (v2_target_clusters ?e)"
    using pub by (simp add: built_fields parse_targets_iff worker_event_def strip_name)
  ultimately have "parse_v2 rd ?p = Ok ?e"
    using assms(2-5) pub op tm
    by (simp add: parse_v2_iff built_fields identifier_iff positive_int_iff strip_name)
      (simp add: worker_event_def draft_identity_def strip_name)
  then show ?thesis using op(1)
    by (intro exI [of _ op] exI [of _ tm]) (simp add: parse_indexing_event_def built_fields version_two_def)
qed

text \<open>
  C33. The worker reads back what the query API publishes: the envelope built for a mutation
  with well-formed fields is accepted, with or without legacy events, and carries the identity,
  operation, sequence, revision, rollout, targets and filter of the mutation and the canonical
  form of its document; its Kafka key is the key of that identity.
\<close>

theorem built_envelope_roundtrip:
  assumes "publishable rd d" and "EVENT_ID_PATTERN eid" and "1 \<le> n" and "n \<le> MAX_INT64"
    and "timestamp rd (JStr (iso_text pl now)) = Ok t"
  shows "\<exists>e. parse_indexing_event rd legacy (JObj (build_event_payload pl d eid n now)) = Ok (V2 e) \<and>
    v2_event_id e = eid \<and> v2_identity e = draft_identity d \<and> v2_sequence e = n \<and> v2_document_version e = n \<and>
    operation_text (v2_operation e) = dr_operation d \<and> v2_routing_revision e = dr_routing_revision d \<and>
    v2_rollout_id e = dr_rollout_id d \<and> v2_target_clusters e = dr_target_clusters d \<and> v2_occurred_at e = t \<and>
    v2_document e = (case dr_document d of Some x \<Rightarrow> normalize_json_object x | None \<Rightarrow> None) \<and>
    v2_delete_filter e = dr_delete_filter d \<and>
    identity_key (v2_identity e) = logical_key (dr_tenant_id d) (dr_collection d) (dr_document_id d)"
proof -
  obtain op tm where op: "operation_text op = dr_operation d"
    "parse_indexing_event rd legacy (JObj (build_event_payload pl d eid n now)) = Ok (V2 (worker_event d eid n t op tm))"
    using built_envelope_parsed [OF assms] by blast
  show ?thesis
    by (rule exI [of _ "worker_event d eid n t op tm"]) (use op in \<open>simp add: worker_event_def identity_key_def draft_identity_def\<close>)
qed

text \<open>The filter that \<open>authorize_delete_filter\<close> of the query API writes is the accepted shape.\<close>

lemma takeWhile_part: "\<forall>c \<in> set x. P c \<Longrightarrow> \<not> P y \<Longrightarrow> takeWhile P (x @ y # r) = x \<and> dropWhile P (x @ y # r) = y # r"
  by (simp add: takeWhile_append dropWhile_append takeWhile_eq_all_conv)

lemma query_filter_accepted:
  assumes "DOCUMENT_ID_PATTERN i" and "fld \<noteq> []" and "\<forall>c \<in> set fld. field_char c"
    and "\<not> is_digit (hd fld)" and "hd fld \<noteq> CHR ''.''" and "filter_value_ok v"
  shows "tenant_filter_id (''(id:='' @ i @ '') && '' @ fld @ '':='' @ v) = Some i"
proof -
  let ?P = "\<lambda>c. word_char c \<or> c = CHR ''.''"
  have i: "\<forall>c \<in> set i. ?P c" using assms(1) by (simp add: DOCUMENT_ID_PATTERN_def matches_def list_all_iff)
  have stop: "\<not> ?P (CHR '')'')" "\<not> field_char (CHR '':'')"
    by (simp_all add: word_char_def field_char_def is_alnum_def is_digit_def is_lower_def is_upper_def less_eq_char_def)
  have parts: "takeWhile ?P (i @ CHR '')'' # r) = i" "dropWhile ?P (i @ CHR '')'' # r) = CHR '')'' # r"
    "takeWhile field_char (fld @ CHR '':'' # r) = fld" "dropWhile field_char (fld @ CHR '':'' # r) = CHR '':'' # r" for r
    using takeWhile_part [OF i stop(1)] takeWhile_part [OF assms(3) stop(2)] by auto
  show ?thesis
    using assms(1,2,4-6) by (simp add: tenant_filter_id_def Let_def parts)
qed

section \<open>A concrete event\<close>

definition plain_reader :: reader where
  "plain_reader = \<lparr>rd_iso = (\<lambda>s. Some 0), rd_repr = (\<lambda>_. [])\<rparr>"

definition stamp_platform :: platform where
  "stamp_platform = \<lparr>sha256 = id, float_text = (\<lambda>_. []), iso_text = (\<lambda>_. ''2026-01-02T03:04:05.678+00:00'')\<rparr>"

definition plain_draft :: IndexingEventDraft where
  "plain_draft = \<lparr>dr_tenant_id = ''acme'', dr_collection = ''books'', dr_document_id = ''b1'', dr_operation = ''upsert'',
     dr_target_clusters = [''c1'', ''c2''], dr_routing_revision = 4, dr_idempotency_key = ''k'', dr_rollout_id = None,
     dr_trace = [(''request_id'', JStr ''r1'')], dr_document = Some [(''title'', JStr ''t''), (''id'', JStr ''b1'')],
     dr_delete_filter = None\<rparr>"

lemmas char_class_defs = matches_def word_char_def is_alnum_def is_digit_def is_lower_def is_upper_def is_hex_def
  is_printable_def is_space_def Let_def

lemma plain_publishable: "publishable plain_reader plain_draft"
  by (simp add: publishable_def plain_draft_def draft_identity_def identity_wellformed_def NAME_PATTERN_def
      DOCUMENT_ID_PATTERN_def char_class_defs content_publishable_def str_or_empty_def jget_def plain_reader_def
      strip_def parse_trace_def only_keys_def safe_optional_text_def absent_or_empty_def traceparent_def safe_text_def
      MAX_INT64_def)

lemma stamp_reads: "timestamp plain_reader (JStr (iso_text stamp_platform now)) = Ok 0"
  by (simp add: timestamp_def stamp_platform_def plain_reader_def RFC3339_PATTERN_def layout_def is_digit_def)

lemma plain_event_id: "EVENT_ID_PATTERN ''evt:0001''"
  by (simp add: EVENT_ID_PATTERN_def char_class_defs)

theorem built_envelope_roundtrip_witness:
  "\<exists>e. parse_indexing_event plain_reader False (JObj (build_event_payload stamp_platform plain_draft ''evt:0001'' 3 9)) = Ok (V2 e) \<and>
     v2_sequence e = 3 \<and> v2_document e = Some [(''id'', JStr ''b1''), (''title'', JStr ''t'')]"
proof -
  have "normalize_json_object [(''title'', JStr ''t''), (''id'', JStr ''b1'')] = Some [(''id'', JStr ''b1''), (''title'', JStr ''t'')]"
    by (simp add: normalize_json_object_def)
  with built_envelope_roundtrip [OF plain_publishable plain_event_id _ _ stamp_reads, of 3 False 9]
  show ?thesis by (auto simp: MAX_INT64_def plain_draft_def)
qed

lemma plain_event:
  "\<exists>e. parse_indexing_event plain_reader False (JObj (build_event_payload stamp_platform plain_draft ''evt:0001'' 3 9)) = Ok (V2 e) \<and>
     v2_identity e = draft_identity plain_draft"
  using built_envelope_parsed [OF plain_publishable plain_event_id _ _ stamp_reads, of 3 False 9]
  by (auto simp: MAX_INT64_def worker_event_def)

theorem parsed_event_wellformed_witness:
  "\<exists>e. parse_indexing_event plain_reader False (JObj (build_event_payload stamp_platform plain_draft ''evt:0001'' 3 9)) = Ok (V2 e) \<and>
     event_wellformed e"
  using plain_event parsed_event_wellformed by blast

theorem kafka_key_determines_identity_witness:
  "\<exists>e. parse_indexing_event plain_reader False (JObj (build_event_payload stamp_platform plain_draft ''evt:0001'' 3 9)) = Ok (V2 e) \<and>
     v2_identity e = draft_identity plain_draft"
proof -
  obtain e where e: "parse_indexing_event plain_reader False (JObj (build_event_payload stamp_platform plain_draft ''evt:0001'' 3 9)) = Ok (V2 e)"
    "v2_identity e = draft_identity plain_draft" using plain_event by blast
  from kafka_key_determines_identity [OF e(1) e(1) refl] e show ?thesis by metis
qed

end
