(* ===== verification/CheckpointStore.thy ===== *)
theory CheckpointStore
  imports EventEnvelope "HOL-Library.Word"
begin

text \<open>
  \<open>indexing_service/app/checkpoint_store.py\<close>: one checkpoint per document and target, the
  decision it implies for an event, the fenced sessions of the in-memory and of the PostgreSQL
  store, and the choice of the store at startup. A session loads and saves while the event's
  fences are held; what it saved is committed when the scope ends, also after an exception.
  The protocol \<open>EventCheckpointSession\<close> is the locale \<open>checkpoint_store\<close>.
\<close>

section \<open>Checkpoints\<close>

record TargetCheckpoint =
  tc_identity_key :: string
  tc_tenant_id :: string
  tc_collection :: string
  tc_document_id :: string
  tc_target_cluster :: string
  tc_sequence :: int
  tc_document_version :: int
  tc_operation :: string
  tc_event_id :: string
  tc_event_digest :: string
  tc_occurred_at :: string
  tc_applied_at_ms :: int
  tc_tombstone :: bool
  tc_routing_revision :: int
  tc_rollout_id :: string

datatype worker_error =
    CheckpointStoreError string
  | CheckpointLockTimeoutError
  | EventOrderingError string
  | MissingTargetClusterError string
  | EnvelopeError envelope_error
  | TypesenseFailed

datatype decision = Apply | Duplicate | StaleEvent

definition checkpoint_id :: "platform \<Rightarrow> IndexingEventV2 \<Rightarrow> string \<Rightarrow> string" where
  "checkpoint_id pl e target = sha256 pl (identity_key (v2_identity e) @ [IDENTITY_SEPARATOR] @ target)"

definition checkpoint_document_id :: "platform \<Rightarrow> TargetCheckpoint \<Rightarrow> string" where
  "checkpoint_document_id pl c = sha256 pl (tc_identity_key c @ [IDENTITY_SEPARATOR] @ tc_target_cluster c)"

definition event_checkpoint_keys :: "platform \<Rightarrow> IndexingEventV2 \<Rightarrow> string list" where
  "event_checkpoint_keys pl e = sort (map (checkpoint_id pl e) (v2_target_clusters e))"

text \<open>The wall clock in milliseconds is the argument \<open>applied_ms\<close>.\<close>

definition checkpoint_from_event ::
  "platform \<Rightarrow> IndexingEventV2 \<Rightarrow> string \<Rightarrow> int \<Rightarrow> TargetCheckpoint" where
  "checkpoint_from_event pl e target applied_ms =
     \<lparr>tc_identity_key = identity_key (v2_identity e), tc_tenant_id = id_tenant_id (v2_identity e),
      tc_collection = id_collection (v2_identity e), tc_document_id = id_document_id (v2_identity e),
      tc_target_cluster = target, tc_sequence = v2_sequence e,
      tc_document_version = v2_document_version e, tc_operation = operation_text (v2_operation e),
      tc_event_id = v2_event_id e, tc_event_digest = indexing_event_digest pl e,
      tc_occurred_at = iso_text pl (v2_occurred_at e), tc_applied_at_ms = applied_ms,
      tc_tombstone = (v2_operation e \<in> {Delete, Tombstone}),
      tc_routing_revision = v2_routing_revision e,
      tc_rollout_id = (case v2_rollout_id e of Some r \<Rightarrow> r | None \<Rightarrow> [])\<rparr>"

definition classify_event ::
  "platform \<Rightarrow> IndexingEventV2 \<Rightarrow> TargetCheckpoint option \<Rightarrow> worker_error + decision" where
  "classify_event pl e cp =
     (case cp of
        None \<Rightarrow> Ok Apply
      | Some c \<Rightarrow>
          let same_position = (v2_sequence e = tc_sequence c \<and> v2_document_version e = tc_document_version c) in
          if v2_event_id e = tc_event_id c then
            (if same_position \<and> operation_text (v2_operation e) = tc_operation c \<and>
                indexing_event_digest pl e = tc_event_digest c
             then Ok Duplicate else Raise (EventOrderingError ''event_id reused''))
          else if same_position then Raise (EventOrderingError ''same position'')
          else if v2_sequence e < tc_sequence c \<and> v2_document_version e < tc_document_version c then Ok StaleEvent
          else if v2_sequence e \<le> tc_sequence c \<or> v2_document_version e \<le> tc_document_version c
          then Raise (EventOrderingError ''must both increase'')
          else Ok Apply)"

text \<open>The lock space of PostgreSQL: the first 16 hexadecimal digits as a signed 64-bit number.\<close>

definition hex_value_char :: "char \<Rightarrow> int" where
  "hex_value_char c = (let n = int (of_char c) in if is_digit c then n - 48 else n - 87)"

fun int_of_hex :: "int \<Rightarrow> string \<Rightarrow> int" where
  "int_of_hex acc [] = acc"
| "int_of_hex acc (c # cs) = int_of_hex (16 * acc + hex_value_char c) cs"

definition advisory_lock_key :: "string \<Rightarrow> int" where
  "advisory_lock_key key =
     (let unsigned = int_of_hex 0 (take 16 key) in
      if unsigned \<ge> 2 ^ 63 then unsigned - 2 ^ 64 else unsigned)"

section \<open>Stored documents\<close>

definition checkpoint_document :: "platform \<Rightarrow> TargetCheckpoint \<Rightarrow> document" where
  "checkpoint_document pl c =
     [(''id'', JStr (checkpoint_document_id pl c)), (''identity_key'', JStr (tc_identity_key c)),
      (''tenant_id'', JStr (tc_tenant_id c)), (''collection'', JStr (tc_collection c)),
      (''document_id'', JStr (tc_document_id c)), (''target_cluster'', JStr (tc_target_cluster c)),
      (''sequence'', JInt (tc_sequence c)), (''document_version'', JInt (tc_document_version c)),
      (''operation'', JStr (tc_operation c)), (''event_id'', JStr (tc_event_id c)),
      (''event_digest'', JStr (tc_event_digest c)), (''occurred_at'', JStr (tc_occurred_at c)),
      (''applied_at_ms'', JInt (tc_applied_at_ms c)), (''tombstone'', JBool (tc_tombstone c)),
      (''routing_revision'', JInt (tc_routing_revision c)), (''rollout_id'', JStr (tc_rollout_id c))]"

definition invalid_stored :: worker_error where
  "invalid_stored = CheckpointStoreError ''invalid checkpoint stored''"

definition stored_string :: "document \<Rightarrow> string \<Rightarrow> bool \<Rightarrow> worker_error + string" where
  "stored_string d field allow_empty =
     (case dget d field of
        Some (JStr s) \<Rightarrow> if s = [] \<and> \<not> allow_empty then Raise invalid_stored else Ok s
      | _ \<Rightarrow> Raise invalid_stored)"

definition stored_int :: "document \<Rightarrow> string \<Rightarrow> int \<Rightarrow> worker_error + int" where
  "stored_int d field minimum =
     (case dget d field of
        Some (JInt n) \<Rightarrow> if n < minimum then Raise invalid_stored else Ok n
      | _ \<Rightarrow> Raise invalid_stored)"

definition stored_timestamp :: "platform \<Rightarrow> reader \<Rightarrow> document \<Rightarrow> worker_error + string" where
  "stored_timestamp pl rd d =
     (case dget d ''occurred_at'' of
        Some (JStr s) \<Rightarrow> (case rd_iso rd s of None \<Rightarrow> Raise invalid_stored | Some t \<Rightarrow> Ok (iso_text pl t))
      | _ \<Rightarrow> Raise invalid_stored)"

definition is_sha256 :: "string \<Rightarrow> bool" where
  "is_sha256 s \<longleftrightarrow> matches is_hex 64 64 s"

definition check_stored :: "TargetCheckpoint \<Rightarrow> IndexingEventV2 \<Rightarrow> string \<Rightarrow> worker_error + TargetCheckpoint" where
  "check_stored c e target =
     (if tc_identity_key c \<noteq> identity_key (v2_identity e) \<or> tc_tenant_id c \<noteq> id_tenant_id (v2_identity e) \<or>
         tc_collection c \<noteq> id_collection (v2_identity e) \<or> tc_document_id c \<noteq> id_document_id (v2_identity e) \<or>
         tc_target_cluster c \<noteq> target
      then Raise (CheckpointStoreError ''identity mismatch'')
      else if operation_of (tc_operation c) = None then Raise (CheckpointStoreError ''operation'')
      else if tc_tombstone c \<noteq> (tc_operation c \<in> {''delete'', ''tombstone''})
      then Raise (CheckpointStoreError ''tombstone mismatch'')
      else if \<not> EVENT_ID_PATTERN (tc_event_id c) then Raise (CheckpointStoreError ''event ID'')
      else if \<not> is_sha256 (tc_event_digest c) then Raise (CheckpointStoreError ''digest'')
      else if tc_rollout_id c \<noteq> [] \<and> \<not> NAME_PATTERN (tc_rollout_id c)
      then Raise (CheckpointStoreError ''rollout ID'') else Ok c)"

text \<open>\<open>occurred\<close> is the stored time: a text in a document, a \<open>datetime\<close> in a row.\<close>

definition checkpoint_from_document ::
  "worker_error + string \<Rightarrow> document \<Rightarrow> IndexingEventV2 \<Rightarrow> string \<Rightarrow> worker_error + TargetCheckpoint" where
  "checkpoint_from_document occurred d e target =
     ebind (stored_int d ''sequence'' 1) (\<lambda>sequence.
     ebind (stored_int d ''document_version'' 1) (\<lambda>version.
     ebind (stored_int d ''applied_at_ms'' 0) (\<lambda>applied.
     ebind (stored_int d ''routing_revision'' 1) (\<lambda>revision.
     ebind (case dget d ''tombstone'' of Some (JBool b) \<Rightarrow> Ok b | _ \<Rightarrow> Raise invalid_stored) (\<lambda>tombstone.
     ebind (stored_string d ''identity_key'' False) (\<lambda>identity.
     ebind (stored_string d ''tenant_id'' False) (\<lambda>tenant.
     ebind (stored_string d ''collection'' False) (\<lambda>coll.
     ebind (stored_string d ''document_id'' False) (\<lambda>doc.
     ebind (stored_string d ''target_cluster'' False) (\<lambda>cluster.
     ebind (stored_string d ''operation'' False) (\<lambda>op.
     ebind (stored_string d ''event_id'' False) (\<lambda>eid.
     ebind (stored_string d ''event_digest'' False) (\<lambda>digest.
     ebind occurred (\<lambda>occ.
     ebind (stored_string d ''rollout_id'' True) (\<lambda>rollout.
       check_stored \<lparr>tc_identity_key = identity, tc_tenant_id = tenant, tc_collection = coll,
         tc_document_id = doc, tc_target_cluster = cluster, tc_sequence = sequence,
         tc_document_version = version, tc_operation = op, tc_event_id = eid, tc_event_digest = digest,
         tc_occurred_at = occ, tc_applied_at_ms = applied, tc_tombstone = tombstone,
         tc_routing_revision = revision, tc_rollout_id = rollout\<rparr> e target)))))))))))))))"

section \<open>The in-memory store\<close>

type_synonym MemCheckpoints = "(string, TargetCheckpoint) pydict"

record MemSession =
  ms_store :: MemCheckpoints
  ms_event :: IndexingEventV2
  ms_staged :: MemCheckpoints

definition mem_validate_advance :: "MemCheckpoints \<Rightarrow> string \<Rightarrow> TargetCheckpoint \<Rightarrow> worker_error + unit" where
  "mem_validate_advance records key c =
     (case dget records key of
        None \<Rightarrow> Ok ()
      | Some current \<Rightarrow>
          if tc_event_id c = tc_event_id current \<and> tc_event_digest c = tc_event_digest current \<and>
             tc_sequence c = tc_sequence current \<and> tc_document_version c = tc_document_version current
          then Ok ()
          else if tc_sequence c \<le> tc_sequence current \<or> tc_document_version c \<le> tc_document_version current
          then Raise (CheckpointStoreError ''would regress'') else Ok ())"

fun mem_commit_staged :: "MemCheckpoints \<Rightarrow> MemCheckpoints \<Rightarrow> MemCheckpoints \<times> (worker_error + unit)" where
  "mem_commit_staged records [] = (records, Ok ())"
| "mem_commit_staged records ((key, c) # staged) =
     (case dget records key of
        Some current \<Rightarrow>
          if tc_sequence c < tc_sequence current \<or> tc_document_version c < tc_document_version current
          then (records, Raise (CheckpointStoreError ''concurrent commit''))
          else mem_commit_staged (dput key c records) staged
      | None \<Rightarrow> mem_commit_staged (dput key c records) staged)"

definition mem_open :: "MemCheckpoints \<Rightarrow> IndexingEventV2 \<Rightarrow> MemSession" where
  "mem_open records e = \<lparr>ms_store = records, ms_event = e, ms_staged = []\<rparr>"

definition mem_session_load ::
  "platform \<Rightarrow> MemSession \<Rightarrow> IndexingEventV2 \<Rightarrow> string \<Rightarrow> worker_error + TargetCheckpoint option" where
  "mem_session_load pl se e target =
     (if v2_identity e \<noteq> v2_identity (ms_event se) \<or> target \<notin> set (v2_target_clusters (ms_event se))
      then Raise (CheckpointStoreError ''not fenced'')
      else let key = checkpoint_id pl e target in
        case dget (ms_staged se) key of Some c \<Rightarrow> Ok (Some c) | None \<Rightarrow> Ok (dget (ms_store se) key))"

definition mem_session_save ::
  "platform \<Rightarrow> MemSession \<Rightarrow> TargetCheckpoint \<Rightarrow> MemSession \<times> (worker_error + unit)" where
  "mem_session_save pl se c =
     (if tc_target_cluster c \<notin> set (v2_target_clusters (ms_event se))
      then (se, Raise (CheckpointStoreError ''not fenced''))
      else let key = checkpoint_document_id pl c in
        case mem_validate_advance (ms_store se) key c of
          Inl err \<Rightarrow> (se, Raise err)
        | Inr _ \<Rightarrow> (se\<lparr>ms_staged := dput key c (ms_staged se)\<rparr>, Ok ()))"

definition mem_close :: "MemSession \<Rightarrow> MemCheckpoints \<times> (worker_error + unit)" where
  "mem_close se = mem_commit_staged (ms_store se) (ms_staged se)"

definition mem_save ::
  "platform \<Rightarrow> MemCheckpoints \<Rightarrow> TargetCheckpoint \<Rightarrow> MemCheckpoints \<times> (worker_error + unit)" where
  "mem_save pl records c =
     (let key = checkpoint_document_id pl c in
      case mem_validate_advance records key c of
        Inl err \<Rightarrow> (records, Raise err)
      | Inr _ \<Rightarrow> mem_commit_staged records [(key, c)])"

section \<open>The PostgreSQL store\<close>

record CheckpointRow =
  cr_key :: string
  cr_checkpoint :: TargetCheckpoint
  cr_occurred :: time

text \<open>A failed statement aborts the transaction: later statements fail and the commit rolls back.\<close>

record PgSession =
  ps_event :: IndexingEventV2
  ps_locked :: "(string, string) pydict"
  ps_start :: "CheckpointRow list"
  ps_rows :: "CheckpointRow list"
  ps_aborted :: bool

definition checkpoint_row_fits :: "CheckpointRow list \<Rightarrow> CheckpointRow \<Rightarrow> bool" where
  "checkpoint_row_fits others r \<longleftrightarrow>
     (let c = cr_checkpoint r in
      length (cr_key r) = 64 \<and> length (tc_tenant_id c) \<le> 256 \<and> length (tc_collection c) \<le> 128 \<and>
      length (tc_document_id c) \<le> 256 \<and> length (tc_target_cluster c) \<le> 128 \<and>
      length (tc_event_id c) \<le> 128 \<and> length (tc_rollout_id c) \<le> 128 \<and>
      1 \<le> tc_sequence c \<and> tc_sequence c < 2 ^ 63 \<and> 1 \<le> tc_document_version c \<and> tc_document_version c < 2 ^ 63 \<and>
      1 \<le> tc_routing_revision c \<and> tc_routing_revision c < 2 ^ 63 \<and>
      0 \<le> tc_applied_at_ms c \<and> tc_applied_at_ms c < 2 ^ 63 \<and>
      length (tc_event_digest c) = 64 \<and>
      (tc_operation c = ''upsert'' \<and> \<not> tc_tombstone c \<or>
       tc_operation c \<in> {''delete'', ''tombstone''} \<and> tc_tombstone c) \<and>
      (\<forall>x \<in> set others. (tc_identity_key (cr_checkpoint x), tc_target_cluster (cr_checkpoint x)) \<noteq>
         (tc_identity_key c, tc_target_cluster c)))"

definition row_checkpoint :: "platform \<Rightarrow> CheckpointRow \<Rightarrow> TargetCheckpoint" where
  "row_checkpoint pl r = (cr_checkpoint r)\<lparr>tc_occurred_at := iso_text pl (cr_occurred r)\<rparr>"

definition row_of_key :: "CheckpointRow list \<Rightarrow> string \<Rightarrow> CheckpointRow option" where
  "row_of_key rows key = find (\<lambda>r. cr_key r = key) rows"

definition pg_open :: "platform \<Rightarrow> CheckpointRow list \<Rightarrow> IndexingEventV2 \<Rightarrow> PgSession" where
  "pg_open pl rows e = \<lparr>ps_event = e,
     ps_locked = map (\<lambda>t. (t, checkpoint_id pl e t)) (v2_target_clusters e),
     ps_start = rows, ps_rows = rows, ps_aborted = False\<rparr>"

definition pg_session_load ::
  "platform \<Rightarrow> PgSession \<Rightarrow> IndexingEventV2 \<Rightarrow> string \<Rightarrow> worker_error + TargetCheckpoint option" where
  "pg_session_load pl se e target =
     (if v2_identity e \<noteq> v2_identity (ps_event se) then Raise (CheckpointStoreError ''identity not fenced'')
      else case dget (ps_locked se) target of
        None \<Rightarrow> Raise (CheckpointStoreError ''target not fenced'')
      | Some key \<Rightarrow>
          if ps_aborted se then Raise (CheckpointStoreError ''load'')
          else (case row_of_key (ps_rows se) key of
             None \<Rightarrow> Ok None
           | Some r \<Rightarrow> ebind (checkpoint_from_document (Ok (iso_text pl (cr_occurred r)))
                (checkpoint_document pl (cr_checkpoint r)) e target) (\<lambda>c. Ok (Some c))))"

definition pg_upsert_allowed :: "TargetCheckpoint \<Rightarrow> TargetCheckpoint \<Rightarrow> bool" where
  "pg_upsert_allowed old new \<longleftrightarrow> tc_identity_key old = tc_identity_key new \<and>
     tc_target_cluster old = tc_target_cluster new \<and> tc_sequence old < tc_sequence new \<and>
     tc_document_version old < tc_document_version new"

definition pg_session_save ::
  "platform \<Rightarrow> reader \<Rightarrow> PgSession \<Rightarrow> TargetCheckpoint \<Rightarrow> PgSession \<times> (worker_error + unit)" where
  "pg_session_save pl rd se c =
     (let key = checkpoint_document_id pl c in
      if dget (ps_locked se) (tc_target_cluster c) \<noteq> Some key
      then (se, Raise (CheckpointStoreError ''save not fenced''))
      else case rd_iso rd (tc_occurred_at c) of
        None \<Rightarrow> (se, Raise (CheckpointStoreError ''occurred_at''))
      | Some t \<Rightarrow>
          let row = \<lparr>cr_key = key, cr_checkpoint = c, cr_occurred = t\<rparr>;
              others = filter (\<lambda>r. cr_key r \<noteq> key) (ps_rows se) in
          if ps_aborted se then (se, Raise (CheckpointStoreError ''persist''))
          else (case row_of_key (ps_rows se) key of
             None \<Rightarrow>
               if checkpoint_row_fits others row then (se\<lparr>ps_rows := ps_rows se @ [row]\<rparr>, Ok ())
               else (se\<lparr>ps_aborted := True\<rparr>, Raise (CheckpointStoreError ''persist''))
           | Some old \<Rightarrow>
               if \<not> pg_upsert_allowed (cr_checkpoint old) c
               then (se, Raise (CheckpointStoreError ''non-monotonic''))
               else if checkpoint_row_fits others row
               then (se\<lparr>ps_rows := map (\<lambda>r. if cr_key r = key then row else r) (ps_rows se)\<rparr>, Ok ())
               else (se\<lparr>ps_aborted := True\<rparr>, Raise (CheckpointStoreError ''persist''))))"

definition pg_close :: "PgSession \<Rightarrow> CheckpointRow list \<times> (worker_error + unit)" where
  "pg_close se = (if ps_aborted se then (ps_start se, Ok ()) else (ps_rows se, Ok ()))"

section \<open>The fenced scope\<close>

text \<open>
  What can happen around the body: the fences time out or cannot be taken, or the worker dies
  or loses its connection before the commit, which then never happens. Writes to the search
  clusters are not part of the transaction and stay.
\<close>

datatype scope_fault = NoFault | FenceTimeout | FenceFailed | CommitFailed

definition event_scope ::
  "('st \<Rightarrow> IndexingEventV2 \<Rightarrow> 'se) \<Rightarrow> ('se \<Rightarrow> 'st \<times> (worker_error + unit)) \<Rightarrow> scope_fault \<Rightarrow> 'st \<Rightarrow> 'w
   \<Rightarrow> IndexingEventV2 \<Rightarrow> ('se \<Rightarrow> 'w \<Rightarrow> 'se \<times> 'w \<times> (worker_error + 'a)) \<Rightarrow> 'st \<times> 'w \<times> (worker_error + 'a)" where
  "event_scope opens close fault st w e body =
     (case fault of
        FenceTimeout \<Rightarrow> (st, w, Raise CheckpointLockTimeoutError)
      | FenceFailed \<Rightarrow> (st, w, Raise (CheckpointStoreError ''fences''))
      | _ \<Rightarrow>
          (case body (opens st e) w of (se, w', r) \<Rightarrow>
            if fault = CommitFailed then (st, w', Raise (CheckpointStoreError ''commit''))
            else (case close se of (st', c) \<Rightarrow>
              (st', w', case c of Inl err \<Rightarrow> Raise err | Inr _ \<Rightarrow> r))))"

text \<open>Two checkpoints that differ at most in how the time of the event is written.\<close>

definition same_checkpoint :: "TargetCheckpoint \<Rightarrow> TargetCheckpoint \<Rightarrow> bool" where
  "same_checkpoint c c' \<longleftrightarrow> c'\<lparr>tc_occurred_at := tc_occurred_at c\<rparr> = c"

lemma same_checkpoint_refl [simp]: "same_checkpoint c c"
  by (simp add: same_checkpoint_def)

lemma same_checkpoint_fields:
  "same_checkpoint c c' \<Longrightarrow> tc_sequence c' = tc_sequence c \<and> tc_document_version c' = tc_document_version c \<and>
     tc_event_id c' = tc_event_id c \<and> tc_event_digest c' = tc_event_digest c \<and> tc_operation c' = tc_operation c \<and>
     tc_identity_key c' = tc_identity_key c \<and> tc_target_cluster c' = tc_target_cluster c"
  by (cases c; cases c') (simp add: same_checkpoint_def)

lemma same_checkpoint_occurred: "same_checkpoint c (c\<lparr>tc_occurred_at := x\<rparr>)"
  by (cases c) (simp add: same_checkpoint_def)

lemma event_document_id [simp]: "checkpoint_document_id pl (checkpoint_from_event pl e t ms) = checkpoint_id pl e t"
  by (simp add: checkpoint_document_id_def checkpoint_id_def checkpoint_from_event_def)

locale checkpoint_store =
  fixes pl :: platform
    and opens :: "'st \<Rightarrow> IndexingEventV2 \<Rightarrow> 'se"
    and load :: "'se \<Rightarrow> IndexingEventV2 \<Rightarrow> string \<Rightarrow> worker_error + TargetCheckpoint option"
    and save :: "'se \<Rightarrow> TargetCheckpoint \<Rightarrow> 'se \<times> (worker_error + unit)"
    and close :: "'se \<Rightarrow> 'st \<times> (worker_error + unit)"
    and view :: "'st \<Rightarrow> string \<Rightarrow> TargetCheckpoint option"
    and sview :: "'se \<Rightarrow> string \<Rightarrow> TargetCheckpoint option"
    and good :: "'st \<Rightarrow> bool"
    and sgood :: "'st \<Rightarrow> IndexingEventV2 \<Rightarrow> 'se \<Rightarrow> bool"
    and broken :: "'se \<Rightarrow> bool"
  assumes opened: "good st \<Longrightarrow> sgood st e (opens st e) \<and> \<not> broken (opens st e) \<and> sview (opens st e) = view st"
    and load_view: "sgood st e se \<Longrightarrow> t \<in> set (v2_target_clusters e) \<Longrightarrow> load se e t = Ok c \<Longrightarrow>
      c = sview se (checkpoint_id pl e t)"
    and save_done: "sgood st e se \<Longrightarrow> t \<in> set (v2_target_clusters e) \<Longrightarrow>
      save se (checkpoint_from_event pl e t ms) = (se', Ok ()) \<Longrightarrow>
      sgood st e se' \<and> broken se' = broken se \<and> (\<exists>c. same_checkpoint (checkpoint_from_event pl e t ms) c \<and>
        sview se' = (sview se)(checkpoint_id pl e t \<mapsto> c))"
    and save_refused: "sgood st e se \<Longrightarrow> t \<in> set (v2_target_clusters e) \<Longrightarrow>
      save se (checkpoint_from_event pl e t ms) = (se', Raise err) \<Longrightarrow> sgood st e se' \<and> sview se' = sview se"
    and closed: "sgood st e se \<Longrightarrow> close se = (st', r) \<Longrightarrow>
      good st' \<and> (view st' = sview se \<or> view st' = view st) \<and>
      (r = Ok () \<longrightarrow> \<not> broken se \<longrightarrow> view st' = sview se)"

section \<open>The in-memory store keeps the contract\<close>

definition mem_sview :: "MemSession \<Rightarrow> string \<Rightarrow> TargetCheckpoint option" where
  "mem_sview se k = (case dget (ms_staged se) k of Some c \<Rightarrow> Some c | None \<Rightarrow> dget (ms_store se) k)"

definition mem_sgood :: "MemCheckpoints \<Rightarrow> IndexingEventV2 \<Rightarrow> MemSession \<Rightarrow> bool" where
  "mem_sgood st e se \<longleftrightarrow> ms_store se = st \<and> ms_event se = e \<and> distinct (dkeys (ms_staged se)) \<and>
     (\<forall>x \<in> set (ms_staged se). mem_validate_advance st (fst x) (snd x) = Ok ())"

lemma set_dput: "set (dput k v d) \<subseteq> insert (k, v) (set d)"
  by (induction d) auto

lemma dget_map_pairs: "t \<in> set ts \<Longrightarrow> dget (map (\<lambda>t. (t, f t)) ts) t = Some (f t)"
  by (induction ts) auto

lemma mem_commit_staged_total:
  assumes "distinct (dkeys staged)" and "\<forall>x \<in> set staged. mem_validate_advance records (fst x) (snd x) = Ok ()"
  shows "\<exists>records'. mem_commit_staged records staged = (records', Ok ()) \<and>
    (\<forall>k. dget records' k = (case dget staged k of Some c \<Rightarrow> Some c | None \<Rightarrow> dget records k))"
  using assms
proof (induction staged arbitrary: records)
  case Nil
  then show ?case by simp
next
  case (Cons x staged)
  obtain k c where x: "x = (k, c)" by (cases x)
  have ok: "mem_validate_advance records k c = Ok ()" using Cons.prems(2) by (simp add: x)
  then have step: "mem_commit_staged records (x # staged) = mem_commit_staged (dput k c records) staged"
    by (auto simp: x mem_validate_advance_def split: option.splits if_splits)
  have "mem_validate_advance (dput k c records) (fst y) (snd y) = Ok ()" if "y \<in> set staged" for y
  proof -
    have "fst y \<noteq> k" using that Cons.prems(1) by (auto simp: x)
    then show ?thesis using Cons.prems(2) that by (simp add: mem_validate_advance_def dget_dput)
  qed
  with Cons.IH [of "dput k c records"] Cons.prems(1) obtain records' where
    IH: "mem_commit_staged (dput k c records) staged = (records', Ok ())"
    "\<forall>j. dget records' j = (case dget staged j of Some c \<Rightarrow> Some c | None \<Rightarrow> dget (dput k c records) j)" by auto
  have "dget staged k = None" using Cons.prems(1) by (simp add: x dget_None_iff)
  then have "dget records' j = (case dget (x # staged) j of Some c \<Rightarrow> Some c | None \<Rightarrow> dget records j)" for j
    using IH(2) by (auto simp: x dget_dput split: option.split)
  with IH(1) step show ?case by auto
qed

interpretation mem_checkpoints: checkpoint_store pl mem_open "mem_session_load pl" "mem_session_save pl" mem_close
  dget mem_sview "\<lambda>_. True" mem_sgood "\<lambda>_. False" for pl
proof
  fix st e
  show "mem_sgood st e (mem_open st e) \<and> \<not> False \<and> mem_sview (mem_open st e) = dget st"
    by (simp add: mem_sgood_def mem_open_def fun_eq_iff mem_sview_def)
next
  fix st e se t c
  assume "mem_session_load pl se e t = Ok c"
  then show "c = mem_sview se (checkpoint_id pl e t)"
    by (auto simp: mem_session_load_def mem_sview_def Let_def split: if_splits option.splits)
next
  fix st e se t ms se'
  let ?c = "checkpoint_from_event pl e t ms" and ?k = "checkpoint_id pl e t"
  assume good: "mem_sgood st e se" and ok: "mem_session_save pl se ?c = (se', Ok ())"
  then have se': "se' = se\<lparr>ms_staged := dput ?k ?c (ms_staged se)\<rparr>"
    and valid: "mem_validate_advance st ?k ?c = Ok ()"
    by (auto simp: mem_session_save_def mem_sgood_def Let_def split: if_splits sum.splits)
  have "mem_sgood st e se'"
    using good valid set_dput [of ?k ?c "ms_staged se"] by (auto simp: mem_sgood_def se' distinct_update)
  moreover have "mem_sview se' = (mem_sview se)(?k \<mapsto> ?c)"
    by (auto simp: fun_eq_iff mem_sview_def se' dget_dput split: option.split)
  ultimately show "mem_sgood st e se' \<and> False = False \<and> (\<exists>c. same_checkpoint ?c c \<and>
      mem_sview se' = (mem_sview se)(?k \<mapsto> c))" using same_checkpoint_refl by blast
next
  fix st e se t ms se' err
  assume "mem_sgood st e se" "mem_session_save pl se (checkpoint_from_event pl e t ms) = (se', Raise err)"
  then show "mem_sgood st e se' \<and> mem_sview se' = mem_sview se"
    by (auto simp: mem_session_save_def Let_def split: if_splits sum.splits)
next
  fix st e se st' r
  assume good: "mem_sgood st e se" and close: "mem_close se = (st', r)"
  obtain records' where "mem_commit_staged (ms_store se) (ms_staged se) = (records', Ok ())"
    "\<forall>k. dget records' k = (case dget (ms_staged se) k of Some c \<Rightarrow> Some c | None \<Rightarrow> dget (ms_store se) k)"
    using mem_commit_staged_total [of "ms_staged se" "ms_store se"] good by (auto simp: mem_sgood_def)
  then have "dget st' = mem_sview se" using close by (auto simp: mem_close_def fun_eq_iff mem_sview_def)
  then show "True \<and> (dget st' = mem_sview se \<or> dget st' = dget st) \<and>
      (r = Ok () \<longrightarrow> \<not> False \<longrightarrow> dget st' = mem_sview se)" by simp
qed

section \<open>The PostgreSQL store keeps the contract\<close>

definition pg_view :: "platform \<Rightarrow> CheckpointRow list \<Rightarrow> string \<Rightarrow> TargetCheckpoint option" where
  "pg_view pl rows k = map_option (row_checkpoint pl) (row_of_key rows k)"

definition pg_good :: "CheckpointRow list \<Rightarrow> bool" where
  "pg_good rows \<longleftrightarrow> distinct (map cr_key rows)"

definition pg_sgood :: "platform \<Rightarrow> CheckpointRow list \<Rightarrow> IndexingEventV2 \<Rightarrow> PgSession \<Rightarrow> bool" where
  "pg_sgood pl st e se \<longleftrightarrow> ps_event se = e \<and> ps_start se = st \<and> pg_good st \<and> pg_good (ps_rows se) \<and>
     ps_locked se = map (\<lambda>t. (t, checkpoint_id pl e t)) (v2_target_clusters e)"

lemma stored_document_fields:
  assumes "checkpoint_from_document occurred (checkpoint_document pl c) e t = Ok c'"
  shows "\<exists>occ. occurred = Ok occ \<and> c' = c\<lparr>tc_occurred_at := occ\<rparr>"
  using assms
  by (cases c) (auto simp: checkpoint_from_document_def ebind_eq_Ok checkpoint_document_def stored_int_def
      stored_string_def check_stored_def split: if_splits)

lemma row_of_key_append: "row_of_key rows k = None \<Longrightarrow> cr_key r = k \<Longrightarrow>
    row_of_key (rows @ [r]) j = (if j = k then Some r else row_of_key rows j)"
  by (induction rows) (auto simp: row_of_key_def split: if_splits)

lemma row_of_key_replace: "row_of_key rows k = Some old \<Longrightarrow> cr_key r = k \<Longrightarrow>
    row_of_key (map (\<lambda>x. if cr_key x = k then r else x) rows) j = (if j = k then Some r else row_of_key rows j)"
proof -
  assume "row_of_key rows k = Some old" and r: "cr_key r = k"
  then have "row_of_key (map (\<lambda>x. if cr_key x = k then r else x) rows) k = Some r"
    by (induction rows) (auto simp: row_of_key_def split: if_splits)
  moreover have "row_of_key (map (\<lambda>x. if cr_key x = k then r else x) rows) j = row_of_key rows j" if "j \<noteq> k"
    using that r by (induction rows) (auto simp: row_of_key_def)
  ultimately show ?thesis by simp
qed

lemma pg_save_cases:
  assumes "pg_session_save pl rd se c = (se', r)"
  obtains (Refused) err where "r = Raise err" "ps_rows se' = ps_rows se" "ps_event se' = ps_event se"
      "ps_start se' = ps_start se" "ps_locked se' = ps_locked se"
  | (Saved) t where "r = Ok ()" "\<not> ps_aborted se" "rd_iso rd (tc_occurred_at c) = Some t"
      "(row_of_key (ps_rows se) (checkpoint_document_id pl c) = None \<and>
        se' = se\<lparr>ps_rows := ps_rows se @ [\<lparr>cr_key = checkpoint_document_id pl c, cr_checkpoint = c, cr_occurred = t\<rparr>]\<rparr>) \<or>
       (\<exists>old. row_of_key (ps_rows se) (checkpoint_document_id pl c) = Some old \<and> pg_upsert_allowed (cr_checkpoint old) c \<and>
        se' = se\<lparr>ps_rows := map (\<lambda>x. if cr_key x = checkpoint_document_id pl c
          then \<lparr>cr_key = checkpoint_document_id pl c, cr_checkpoint = c, cr_occurred = t\<rparr> else x) (ps_rows se)\<rparr>)"
proof -
  show thesis
    using assms that unfolding pg_session_save_def Let_def
    by (cases "dget (ps_locked se) (tc_target_cluster c) \<noteq> Some (checkpoint_document_id pl c)";
        cases "rd_iso rd (tc_occurred_at c)"; cases "row_of_key (ps_rows se) (checkpoint_document_id pl c)")
      (auto split: if_splits)
qed

interpretation pg_checkpoints: checkpoint_store pl "pg_open pl" "pg_session_load pl" "pg_session_save pl rd" pg_close
  "pg_view pl" "\<lambda>se. pg_view pl (ps_rows se)" pg_good "pg_sgood pl" ps_aborted for pl rd
proof
  fix st e
  assume "pg_good st"
  then show "pg_sgood pl st e (pg_open pl st e) \<and> \<not> ps_aborted (pg_open pl st e) \<and>
      pg_view pl (ps_rows (pg_open pl st e)) = pg_view pl st"
    by (simp add: pg_sgood_def pg_open_def)
next
  fix st e se t c
  assume good: "pg_sgood pl st e se" and t: "t \<in> set (v2_target_clusters e)" and ok: "pg_session_load pl se e t = Ok c"
  have key: "dget (ps_locked se) t = Some (checkpoint_id pl e t)"
    using good t by (simp add: pg_sgood_def dget_map_pairs)
  show "c = pg_view pl (ps_rows se) (checkpoint_id pl e t)"
    using ok key stored_document_fields
    by (fastforce simp: pg_session_load_def pg_view_def row_checkpoint_def ebind_eq_Ok split: if_splits option.splits)
next
  fix st e se t ms se'
  let ?c = "checkpoint_from_event pl e t ms" and ?k = "checkpoint_id pl e t"
  assume good: "pg_sgood pl st e se" and "pg_session_save pl rd se ?c = (se', Ok ())"
  from this(2) show "pg_sgood pl st e se' \<and> ps_aborted se' = ps_aborted se \<and>
      (\<exists>c. same_checkpoint ?c c \<and> pg_view pl (ps_rows se') = (pg_view pl (ps_rows se))(?k \<mapsto> c))"
  proof (cases rule: pg_save_cases)
    case (Saved t')
    let ?row = "\<lparr>cr_key = ?k, cr_checkpoint = ?c, cr_occurred = t'\<rparr>"
    have same: "same_checkpoint ?c (row_checkpoint pl ?row)"
      by (simp add: row_checkpoint_def same_checkpoint_occurred)
    from Saved(4) [unfolded event_document_id] show ?thesis
    proof
      assume new: "row_of_key (ps_rows se) ?k = None \<and> se' = se\<lparr>ps_rows := ps_rows se @ [?row]\<rparr>"
      then have "pg_view pl (ps_rows se') = (pg_view pl (ps_rows se))(?k \<mapsto> row_checkpoint pl ?row)"
        by (auto simp: fun_eq_iff pg_view_def row_of_key_append)
      moreover have "pg_sgood pl st e se'"
        using good new by (auto simp: pg_sgood_def pg_good_def row_of_key_def find_None_iff)
      ultimately show ?thesis using same new by auto
    next
      assume "\<exists>old. row_of_key (ps_rows se) ?k = Some old \<and> pg_upsert_allowed (cr_checkpoint old) ?c \<and>
        se' = se\<lparr>ps_rows := map (\<lambda>x. if cr_key x = ?k then ?row else x) (ps_rows se)\<rparr>"
      then obtain old where old: "row_of_key (ps_rows se) ?k = Some old"
        "se' = se\<lparr>ps_rows := map (\<lambda>x. if cr_key x = ?k then ?row else x) (ps_rows se)\<rparr>" by blast
      have "pg_view pl (ps_rows se') = (pg_view pl (ps_rows se))(?k \<mapsto> row_checkpoint pl ?row)"
        by (auto simp: fun_eq_iff pg_view_def old row_of_key_replace)
      moreover have keys: "map cr_key (ps_rows se') = map cr_key (ps_rows se)" by (auto simp: old)
      moreover have "pg_good (ps_rows se')" using good by (simp only: pg_sgood_def pg_good_def keys)
      moreover have "ps_event se' = ps_event se" "ps_start se' = ps_start se" "ps_locked se' = ps_locked se"
        "ps_aborted se' = ps_aborted se" by (simp_all add: old(2))
      ultimately show ?thesis using same good by (auto simp: pg_sgood_def)
    qed
  qed simp
next
  fix st e se t ms se' err
  assume "pg_sgood pl st e se" "pg_session_save pl rd se (checkpoint_from_event pl e t ms) = (se', Raise err)"
  from this(2,1) show "pg_sgood pl st e se' \<and> pg_view pl (ps_rows se') = pg_view pl (ps_rows se)"
    by (cases rule: pg_save_cases) (simp_all add: pg_sgood_def)
next
  fix st e se st' r
  assume "pg_sgood pl st e se" "pg_close se = (st', r)"
  then show "pg_good st' \<and> (pg_view pl st' = pg_view pl (ps_rows se) \<or> pg_view pl st' = pg_view pl st) \<and>
      (r = Ok () \<longrightarrow> \<not> ps_aborted se \<longrightarrow> pg_view pl st' = pg_view pl (ps_rows se))"
    by (auto simp: pg_close_def pg_sgood_def split: if_splits)
qed

section \<open>Startup\<close>

record checkpoint_schema =
  sch_dialect :: string
  sch_driver :: string
  sch_tables :: "string list"
  sch_columns :: "(string \<times> bool) list"     \<comment> \<open>name and whether it is nullable\<close>
  sch_primary_key :: "string list"
  sch_unique :: "string list list"
  sch_revision :: "string option"
  sch_probe_ok :: bool

definition CHECKPOINT_COLUMNS :: "string list" where
  "CHECKPOINT_COLUMNS = [''checkpoint_key'', ''identity_key'', ''tenant_id'', ''collection'', ''document_id'',
     ''target_cluster'', ''sequence'', ''document_version'', ''operation'', ''event_id'', ''event_digest'',
     ''occurred_at'', ''applied_at_ms'', ''tombstone'', ''routing_revision'', ''rollout_id'']"

definition EXPECTED_ALEMBIC_REVISION :: string where
  "EXPECTED_ALEMBIC_REVISION = ''0003_audit_delivery_deletion''"

text \<open>\<open>ensure_ready\<close>: the checks in order, then the read-write probe, which is rolled back.\<close>

definition checkpoint_ensure_ready :: "string \<Rightarrow> checkpoint_schema \<Rightarrow> worker_error + unit" where
  "checkpoint_ensure_ready expected s =
     (if sch_dialect s \<noteq> ''postgresql'' \<or> sch_driver s \<noteq> ''psycopg'' then Raise (CheckpointStoreError ''dialect'')
      else if ''indexing_checkpoints'' \<notin> set (sch_tables s) then Raise (CheckpointStoreError ''table'')
      else if ''alembic_version'' \<notin> set (sch_tables s) then Raise (CheckpointStoreError ''alembic'')
      else if \<not> set CHECKPOINT_COLUMNS \<subseteq> set (dkeys (sch_columns s)) then Raise (CheckpointStoreError ''columns'')
      else if \<exists>c \<in> set CHECKPOINT_COLUMNS. dget (sch_columns s) c \<noteq> Some False
      then Raise (CheckpointStoreError ''nullable'')
      else if set (sch_primary_key s) \<noteq> {''checkpoint_key''} then Raise (CheckpointStoreError ''primary key'')
      else if \<not> (\<exists>u \<in> set (sch_unique s). set u = {''identity_key'', ''target_cluster''})
      then Raise (CheckpointStoreError ''unique'')
      else if sch_revision s \<noteq> Some expected then Raise (CheckpointStoreError ''revision'')
      else if \<not> sch_probe_ok s then Raise (CheckpointStoreError ''probe'') else Ok ())"

definition validate_lock_timeout :: "int \<Rightarrow> worker_error + int" where
  "validate_lock_timeout n =
     (if 1 \<le> n \<and> n \<le> 60000 then Ok n else Raise (CheckpointStoreError ''lock timeout''))"

type_synonym environ = "(string, string) pydict"

definition env_get :: "environ \<Rightarrow> string \<Rightarrow> string \<Rightarrow> string" where
  "env_get env name def = (case dget env name of Some v \<Rightarrow> v | None \<Rightarrow> def)"

text \<open>\<open>read_int\<close> is CPython's \<open>int(text)\<close>.\<close>

definition lock_timeout_from_env :: "(string \<Rightarrow> int option) \<Rightarrow> environ \<Rightarrow> worker_error + int" where
  "lock_timeout_from_env read_int env =
     (case read_int (strip (env_get env ''INDEXING_CHECKPOINT_LOCK_TIMEOUT_MS'' ''5000'')) of
        None \<Rightarrow> Raise (CheckpointStoreError ''lock timeout'') | Some n \<Rightarrow> validate_lock_timeout n)"

definition strict_bool_env :: "environ \<Rightarrow> string \<Rightarrow> worker_error + bool" where
  "strict_bool_env env name =
     (let v = lower (strip (env_get env name ''False'')) in
      if v \<in> {''1'', ''true'', ''yes'', ''on''} then Ok True
      else if v \<in> {''0'', ''false'', ''no'', ''off''} then Ok False
      else Raise (CheckpointStoreError name))"

definition normalize_postgres_url :: "string \<Rightarrow> string" where
  "normalize_postgres_url url =
     (let v = strip url in
      if take 11 v = ''postgres://'' then ''postgresql+psycopg://'' @ drop 11 v
      else if take 13 v = ''postgresql://'' then ''postgresql+psycopg://'' @ drop 13 v else v)"

datatype checkpoint_backend =
    UsePostgres string int | UseMemory int | UseTypesense string int

definition build_checkpoint_store_from_env ::
  "(string \<Rightarrow> int option) \<Rightarrow> environ \<Rightarrow> worker_error + checkpoint_backend" where
  "build_checkpoint_store_from_env read_int env =
     (let backend = lower (strip (env_get env ''INDEXING_CHECKPOINT_BACKEND'' ''postgres''));
          profile = lower (strip (env_get env ''DEPLOYMENT_PROFILE'' ''development'')) in
      ebind (lock_timeout_from_env read_int env) (\<lambda>timeout.
        if profile \<notin> {''development'', ''test'', ''production'', ''enterprise''}
        then Raise (CheckpointStoreError ''DEPLOYMENT_PROFILE'')
        else if backend = ''postgres'' then
          (let url = strip (env_get env ''CONTROL_PLANE_DATABASE_URL'' []) in
           if url = [] then Raise (CheckpointStoreError ''CONTROL_PLANE_DATABASE_URL'')
           else Ok (UsePostgres (normalize_postgres_url url) timeout))
        else if profile \<in> {''production'', ''enterprise''} then Raise (CheckpointStoreError ''profile'')
        else if backend = ''memory'' then
          ebind (strict_bool_env env ''INDEXING_ALLOW_VOLATILE_CHECKPOINTS'') (\<lambda>allowed.
            if allowed then Ok (UseMemory timeout) else Raise (CheckpointStoreError ''volatile''))
        else if backend = ''typesense'' then
          ebind (strict_bool_env env ''INDEXING_ALLOW_TYPESENSE_CHECKPOINTS'') (\<lambda>allowed.
            if \<not> allowed then Raise (CheckpointStoreError ''no fencing'')
            else let coll = strip (env_get env ''INDEXING_CHECKPOINT_COLLECTION'' ''_imposbro_indexing_checkpoints'') in
              if NAME_PATTERN coll then Ok (UseTypesense coll timeout)
              else Raise (CheckpointStoreError ''collection name''))
        else Raise (CheckpointStoreError ''backend'')))"

section \<open>Properties\<close>

text \<open>
  A production or enterprise worker never runs on checkpoints that can be lost or that are
  not fenced across processes: startup then yields the PostgreSQL store or fails, and the
  volatile and the unfenced store need their explicit opt-in; the fence deadline is always
  between 1 and 60000 milliseconds.
\<close>

theorem production_checkpoints_durable:
  assumes "build_checkpoint_store_from_env read_int env = Ok backend"
  shows "(lower (strip (env_get env ''DEPLOYMENT_PROFILE'' ''development'')) \<in> {''production'', ''enterprise''} \<longrightarrow>
      (\<exists>url timeout. backend = UsePostgres url timeout)) \<and>
    (\<forall>timeout. backend = UseMemory timeout \<longrightarrow> strict_bool_env env ''INDEXING_ALLOW_VOLATILE_CHECKPOINTS'' = Ok True) \<and>
    (\<forall>coll timeout. backend = UseTypesense coll timeout \<longrightarrow>
      strict_bool_env env ''INDEXING_ALLOW_TYPESENSE_CHECKPOINTS'' = Ok True) \<and>
    (case backend of UsePostgres _ t \<Rightarrow> 1 \<le> t \<and> t \<le> 60000 | UseMemory t \<Rightarrow> 1 \<le> t \<and> t \<le> 60000
       | UseTypesense _ t \<Rightarrow> 1 \<le> t \<and> t \<le> 60000)"
  using assms
  by (auto simp: build_checkpoint_store_from_env_def Let_def ebind_eq_Ok lock_timeout_from_env_def
      validate_lock_timeout_def split: if_splits option.splits)

definition sample_environ :: environ where
  "sample_environ = [(''DEPLOYMENT_PROFILE'', '' enterprise ''), (''CONTROL_PLANE_DATABASE_URL'', ''postgres://db/x'')]"

theorem production_checkpoints_durable_witness:
  "build_checkpoint_store_from_env (\<lambda>_. Some 5000) sample_environ = Ok (UsePostgres ''postgresql+psycopg://db/x'' 5000) \<and>
   (\<exists>url timeout. UsePostgres ''postgresql+psycopg://db/x'' 5000 = UsePostgres url timeout)"
proof -
  have run: "build_checkpoint_store_from_env (\<lambda>_. Some 5000) sample_environ = Ok (UsePostgres ''postgresql+psycopg://db/x'' 5000)"
    by (simp add: build_checkpoint_store_from_env_def sample_environ_def env_get_def lower_def lower_char_def strip_def
        is_space_def lock_timeout_from_env_def validate_lock_timeout_def normalize_postgres_url_def Let_def)
  from production_checkpoints_durable [OF run] run show ?thesis by blast
qed

text \<open>Hexadecimal digits of a fixed length denote different numbers.\<close>

lemma hex_value_range: "is_hex c \<Longrightarrow> 0 \<le> hex_value_char c \<and> hex_value_char c < 16"
  by (auto simp: hex_value_char_def is_hex_def is_digit_def Let_def less_eq_char_def)

lemma hex_value_inject: "is_hex c \<Longrightarrow> is_hex d \<Longrightarrow> hex_value_char c = hex_value_char d \<Longrightarrow> c = d"
proof -
  assume "is_hex c" "is_hex d" "hex_value_char c = hex_value_char d"
  then have "(of_char c :: nat) = of_char d"
    by (auto simp: hex_value_char_def is_hex_def is_digit_def Let_def less_eq_char_def split: if_splits)
  then show "c = d" by simp
qed

lemma int_of_hex_bounds:
  "list_all is_hex s \<Longrightarrow> acc * 16 ^ length s \<le> int_of_hex acc s \<and> int_of_hex acc s < (acc + 1) * 16 ^ length s"
proof (induction s arbitrary: acc)
  case Nil
  then show ?case by simp
next
  case (Cons c cs)
  let ?a = "16 * acc + hex_value_char c" and ?n = "16 ^ length cs :: int"
  from Cons.IH [of ?a] Cons.prems have IH: "?a * ?n \<le> int_of_hex ?a cs" "int_of_hex ?a cs < (?a + 1) * ?n" by auto
  have range: "0 \<le> hex_value_char c" "hex_value_char c + 1 \<le> 16" using hex_value_range [of c] Cons.prems by auto
  have "16 * acc * ?n \<le> ?a * ?n" by (rule mult_right_mono) (use range in simp_all)
  moreover have "(?a + 1) * ?n \<le> (16 * acc + 16) * ?n" by (rule mult_right_mono) (use range in simp_all)
  moreover have "acc * 16 ^ length (c # cs) = 16 * acc * ?n" "(acc + 1) * 16 ^ length (c # cs) = (16 * acc + 16) * ?n"
    by (simp_all add: algebra_simps)
  ultimately show ?case using IH unfolding int_of_hex.simps by linarith
qed

lemma int_of_hex_inject:
  "length s = length t \<Longrightarrow> list_all is_hex s \<Longrightarrow> list_all is_hex t \<Longrightarrow> int_of_hex a s = int_of_hex b t \<Longrightarrow> a = b \<and> s = t"
proof (induction s t arbitrary: a b rule: list_induct2)
  case Nil
  then show ?case by simp
next
  case (Cons c cs d ds)
  have hex: "is_hex c" "is_hex d" "list_all is_hex cs" "list_all is_hex ds" using Cons.prems(1,2) by simp_all
  have IH: "16 * a + hex_value_char c = 16 * b + hex_value_char d" "cs = ds"
    using Cons.IH [OF hex(3,4)] Cons.prems(3) unfolding int_of_hex.simps by blast+
  note range = hex_value_range [OF hex(1)] hex_value_range [OF hex(2)]
  have "a = b" using IH(1) range by linarith
  moreover from this have "hex_value_char c = hex_value_char d" using IH(1) by simp
  ultimately have "a = b" "hex_value_char c = hex_value_char d" by simp_all
  then show ?case using IH(2) hex_value_inject [of c d] Cons.prems by simp
qed

text \<open>
  The advisory lock of a checkpoint fits PostgreSQL's \<open>bigint\<close>: it is the first 64 bits of
  the hash read as a two's complement number, and two checkpoints share a lock exactly when
  these 64 bits agree, so a document and target always meet at the same fence.
\<close>

theorem advisory_lock_is_int64:
  assumes "is_sha256 key" and "is_sha256 key'"
  shows "- (2 ^ 63) \<le> advisory_lock_key key \<and> advisory_lock_key key < 2 ^ 63 \<and>
    advisory_lock_key key = sint (word_of_int (int_of_hex 0 (take 16 key)) :: 64 word) \<and>
    (advisory_lock_key key = advisory_lock_key key' \<longleftrightarrow> take 16 key = take 16 key')"
proof -
  have prefix: "length (take 16 k) = 16" "list_all is_hex (take 16 k)" if "is_sha256 k" for k
    using that by (auto simp: is_sha256_def matches_def list_all_iff dest: in_set_takeD)
  have bounds: "0 \<le> int_of_hex 0 (take 16 k)" "int_of_hex 0 (take 16 k) < 2 ^ 64" if "is_sha256 k" for k
    using int_of_hex_bounds [OF prefix(2) [OF that], of 0] prefix(1) [OF that] by auto
  have lock: "advisory_lock_key k = (int_of_hex 0 (take 16 k) + 2 ^ 63) mod 2 ^ 64 - 2 ^ 63" if "is_sha256 k" for k
  proof (cases "int_of_hex 0 (take 16 k) < 2 ^ 63")
    case True
    then show ?thesis using bounds [OF that] by (simp add: advisory_lock_key_def Let_def)
  next
    case False
    have "(int_of_hex 0 (take 16 k) + 2 ^ 63) mod 2 ^ 64 = (int_of_hex 0 (take 16 k) - 2 ^ 63) mod 2 ^ 64"
      using minus_mod_self2 [of "int_of_hex 0 (take 16 k) + 2 ^ 63" "2 ^ 64"] by simp
    also have "\<dots> = int_of_hex 0 (take 16 k) - 2 ^ 63" using False bounds [OF that] by simp
    finally show ?thesis using False by (simp add: advisory_lock_key_def Let_def)
  qed
  have "advisory_lock_key key = sint (word_of_int (int_of_hex 0 (take 16 key)) :: 64 word)"
    by (simp add: lock [OF assms(1)] int_word_sint)
  moreover have "advisory_lock_key key = advisory_lock_key key' \<longleftrightarrow> int_of_hex 0 (take 16 key) = int_of_hex 0 (take 16 key')"
    using bounds [OF assms(1)] bounds [OF assms(2)] by (auto simp: advisory_lock_key_def Let_def split: if_splits)
  moreover have "int_of_hex 0 (take 16 key) = int_of_hex 0 (take 16 key') \<longleftrightarrow> take 16 key = take 16 key'"
    using int_of_hex_inject [of "take 16 key" "take 16 key'" 0 0] prefix [OF assms(1)] prefix [OF assms(2)] by auto
  ultimately show ?thesis
    using bounds [OF assms(1)] by (auto simp: advisory_lock_key_def Let_def split: if_splits)
qed

theorem advisory_lock_is_int64_witness:
  "advisory_lock_key (replicate 64 CHR ''f'') = -1 \<and> advisory_lock_key (replicate 64 CHR ''0'') = 0 \<and>
   - (2 ^ 63) \<le> advisory_lock_key (replicate 64 CHR ''f'')"
proof -
  have "is_sha256 (replicate 64 CHR ''f'')" "is_sha256 (replicate 64 CHR ''0'')"
    by (auto simp: is_sha256_def matches_def is_hex_def is_digit_def list_all_iff less_eq_char_def)
  from advisory_lock_is_int64 [OF this] have "- (2 ^ 63) \<le> advisory_lock_key (replicate 64 CHR ''f'')" by simp
  moreover have "take 16 (replicate 64 CHR ''f'') = ''ffffffffffffffff''" "take 16 (replicate 64 CHR ''0'') = ''0000000000000000''"
    by (simp_all only: take_replicate) (simp_all add: numeral_eq_Suc)
  moreover have "hex_value_char CHR ''f'' = 15" "hex_value_char CHR ''0'' = 0"
    by (simp_all add: hex_value_char_def is_digit_def less_eq_char_def)
  ultimately show ?thesis by (simp add: advisory_lock_key_def)
qed

end
