(* ===== verification/Consumer.thy ===== *)
theory Consumer
  imports CheckpointStore
begin

text \<open>
  \<open>indexing_service/app/consumer.py\<close>: one Kafka record from its bytes to the search
  clusters. A Typesense cluster is reached through \<open>typesense\<close>, a record of the client calls
  the worker makes; every call may fail, with or without effect. Logging, metrics and spans
  are left out. The checkpoint store is used through its session operations, and the facts
  about it are the laws of the locale \<open>checkpoint_store\<close>.
\<close>

section \<open>The search clusters\<close>

datatype delete_reply = Deleted int | ObjectNotFound | DeleteFailed

text \<open>\<open>ts_get\<close> is what a reader of the cluster sees; the worker never calls it.\<close>

record 'w typesense =
  ts_upsert :: "'w \<Rightarrow> string \<Rightarrow> string \<Rightarrow> document \<Rightarrow> 'w \<times> bool"
  ts_delete :: "'w \<Rightarrow> string \<Rightarrow> string \<Rightarrow> string \<Rightarrow> string option \<Rightarrow> 'w \<times> delete_reply"
  ts_get :: "'w \<Rightarrow> string \<Rightarrow> string \<Rightarrow> string \<Rightarrow> document option"

definition upsert_document ::
  "'w typesense \<Rightarrow> 'w \<Rightarrow> string \<Rightarrow> string \<Rightarrow> document \<Rightarrow> 'w \<times> (worker_error + string)" where
  "upsert_document ts w target coll doc =
     (case ts_upsert ts w target coll doc of
        (w', True) \<Rightarrow> (w', Ok ''indexed'') | (w', False) \<Rightarrow> (w', Raise TypesenseFailed))"

text \<open>A missing document or collection is a no-op; an empty filter is no filter.\<close>

definition delete_document ::
  "'w typesense \<Rightarrow> 'w \<Rightarrow> string \<Rightarrow> string \<Rightarrow> string \<Rightarrow> string option \<Rightarrow> 'w \<times> (worker_error + string)" where
  "delete_document ts w target coll doc_id filter_by =
     (let flt = (if filter_by = Some [] then None else filter_by) in
      case ts_delete ts w target coll doc_id flt of
        (w', DeleteFailed) \<Rightarrow> (w', Raise TypesenseFailed)
      | (w', ObjectNotFound) \<Rightarrow> (w', Ok ''not_found'')
      | (w', Deleted n) \<Rightarrow> (w', Ok (if flt = None \<or> 0 < n then ''deleted'' else ''not_found'')))"

section \<open>Versioned events\<close>

datatype process_result = AppliedResult | StaleResult | DuplicateResult | NoopMixed

fun plan_targets ::
  "('se \<Rightarrow> IndexingEventV2 \<Rightarrow> string \<Rightarrow> worker_error + TargetCheckpoint option) \<Rightarrow> platform \<Rightarrow> string list
   \<Rightarrow> 'se \<Rightarrow> IndexingEventV2 \<Rightarrow> string list \<Rightarrow> worker_error + (string \<times> decision) list" where
  "plan_targets load pl clients se e [] = Ok []"
| "plan_targets load pl clients se e (t # ts) =
     (if t \<notin> set clients then Raise (MissingTargetClusterError t)
      else ebind (load se e t) (\<lambda>cp. ebind (classify_event pl e cp) (\<lambda>d.
        ebind (plan_targets load pl clients se e ts) (\<lambda>rest. Ok ((t, d) # rest)))))"

definition apply_operation ::
  "'w typesense \<Rightarrow> 'w \<Rightarrow> string \<Rightarrow> IndexingEventV2 \<Rightarrow> 'w \<times> (worker_error + string)" where
  "apply_operation ts w target e =
     (let i = v2_identity e in
      if v2_operation e \<in> {Delete, Tombstone}
      then delete_document ts w target (id_collection i) (id_document_id i) (v2_delete_filter e)
      else upsert_document ts w target (id_collection i) (case v2_document e of Some d \<Rightarrow> d | None \<Rightarrow> []))"

fun apply_targets ::
  "'w typesense \<Rightarrow> ('se \<Rightarrow> TargetCheckpoint \<Rightarrow> 'se \<times> (worker_error + unit)) \<Rightarrow> platform \<Rightarrow> (string \<Rightarrow> int) \<Rightarrow> bool
   \<Rightarrow> IndexingEventV2 \<Rightarrow> 'se \<Rightarrow> 'w \<Rightarrow> (string \<times> decision) list \<Rightarrow> 'se \<times> 'w \<times> (worker_error + unit)" where
  "apply_targets ts save pl clock suppress e se w [] = (se, w, Ok ())"
| "apply_targets ts save pl clock suppress e se w ((t, d) # plans) =
     (if d \<noteq> Apply \<or> suppress then apply_targets ts save pl clock suppress e se w plans
      else case apply_operation ts w t e of
        (w', Inl err) \<Rightarrow> (se, w', Raise err)
      | (w', Inr _) \<Rightarrow>
          (case save se (checkpoint_from_event pl e t (clock t)) of
             (se', Inl err) \<Rightarrow> (se', w', Raise err)
           | (se', Inr _) \<Rightarrow> apply_targets ts save pl clock suppress e se' w' plans))"

definition process_v2_event ::
  "'w typesense \<Rightarrow> ('se \<Rightarrow> IndexingEventV2 \<Rightarrow> string \<Rightarrow> worker_error + TargetCheckpoint option)
   \<Rightarrow> ('se \<Rightarrow> TargetCheckpoint \<Rightarrow> 'se \<times> (worker_error + unit)) \<Rightarrow> platform \<Rightarrow> (string \<Rightarrow> int) \<Rightarrow> string list
   \<Rightarrow> IndexingEventV2 \<Rightarrow> 'se \<Rightarrow> 'w \<Rightarrow> 'se \<times> 'w \<times> (worker_error + process_result)" where
  "process_v2_event ts load save pl clock clients e se w =
     (case plan_targets load pl clients se e (v2_target_clusters e) of
        Inl err \<Rightarrow> (se, w, Raise err)
      | Inr plans \<Rightarrow>
          let decisions = map snd plans; suppress = (StaleEvent \<in> set decisions) in
          (case apply_targets ts save pl clock suppress e se w plans of
             (se', w', Inl err) \<Rightarrow> (se', w', Raise err)
           | (se', w', Inr _) \<Rightarrow>
               (se', w', Ok (if Apply \<in> set decisions \<and> \<not> suppress then AppliedResult
                  else if StaleEvent \<in> set decisions then StaleResult
                  else if \<forall>d \<in> set decisions. d = Duplicate then DuplicateResult else NoopMixed))))"

definition process_v2_with_checkpoint ::
  "'w typesense \<Rightarrow> ('st \<Rightarrow> IndexingEventV2 \<Rightarrow> 'se) \<Rightarrow> ('se \<Rightarrow> IndexingEventV2 \<Rightarrow> string \<Rightarrow> worker_error + TargetCheckpoint option)
   \<Rightarrow> ('se \<Rightarrow> TargetCheckpoint \<Rightarrow> 'se \<times> (worker_error + unit)) \<Rightarrow> ('se \<Rightarrow> 'st \<times> (worker_error + unit)) \<Rightarrow> platform
   \<Rightarrow> (string \<Rightarrow> int) \<Rightarrow> scope_fault \<Rightarrow> string list \<Rightarrow> IndexingEventV2 \<Rightarrow> 'st \<Rightarrow> 'w
   \<Rightarrow> 'st \<times> 'w \<times> (worker_error + process_result)" where
  "process_v2_with_checkpoint ts opens load save close pl clock fault clients e st w =
     event_scope opens close fault st w e (process_v2_event ts load save pl clock clients e)"

definition validate_kafka_key :: "IndexingEventV2 \<Rightarrow> string option \<Rightarrow> worker_error + unit" where
  "validate_kafka_key e key =
     (case key of
        None \<Rightarrow> Raise (EnvelopeError (EventEnvelopeError ''kafka key required''))
      | Some k \<Rightarrow> if k \<noteq> identity_key (v2_identity e)
          then Raise (EnvelopeError (EventEnvelopeError ''kafka key'')) else Ok ())"

section \<open>Legacy events\<close>

definition resolve_target_cluster :: "string option \<Rightarrow> string list \<Rightarrow> string" where
  "resolve_target_cluster target clients =
     (case target of
        Some t \<Rightarrow> if t \<noteq> [] \<and> t \<noteq> ''default'' then t
          else if ''default-data-cluster'' \<in> set clients then ''default-data-cluster''
          else if clients \<noteq> [] then hd clients else if t \<noteq> [] then t else ''default''
      | None \<Rightarrow> if ''default-data-cluster'' \<in> set clients then ''default-data-cluster''
          else if clients \<noteq> [] then hd clients else ''default'')"

definition process_legacy_event ::
  "'w typesense \<Rightarrow> string list \<Rightarrow> LegacyIndexingEvent \<Rightarrow> 'w \<Rightarrow> 'w \<times> (worker_error + string)" where
  "process_legacy_event ts clients e w =
     (let target = resolve_target_cluster (lg_target_cluster e) clients in
      if target \<notin> set clients then (w, Raise (MissingTargetClusterError target))
      else if lg_operation e = Delete
      then delete_document ts w target (lg_collection e) (lg_document_id e) (lg_delete_filter e)
      else upsert_document ts w target (lg_collection e) (case lg_document e of Some d \<Rightarrow> d | None \<Rightarrow> []))"

section \<open>One message\<close>

text \<open>\<open>step\<close> is the fenced processing of a versioned event over the worker's state.\<close>

definition process_message ::
  "reader \<Rightarrow> 'w typesense \<Rightarrow> (string list \<Rightarrow> IndexingEventV2 \<Rightarrow> 'st \<Rightarrow> 'w \<Rightarrow> 'st \<times> 'w \<times> (worker_error + process_result))
   \<Rightarrow> bool \<Rightarrow> string option \<Rightarrow> json \<Rightarrow> string list \<Rightarrow> 'st \<times> 'w \<Rightarrow> ('st \<times> 'w) \<times> (worker_error + unit)" where
  "process_message rd ts process allow_legacy key message clients s =
     (case parse_indexing_event rd allow_legacy message of
        Inl err \<Rightarrow> (s, Raise (EnvelopeError err))
      | Inr (Legacy e) \<Rightarrow>
          (case process_legacy_event ts clients e (snd s) of
             (w', Inl err) \<Rightarrow> ((fst s, w'), Raise err) | (w', Inr _) \<Rightarrow> ((fst s, w'), Ok ()))
      | Inr (V2 e) \<Rightarrow>
          (case validate_kafka_key e key of
             Inl err \<Rightarrow> (s, Raise err)
           | Inr _ \<Rightarrow> (case process clients e (fst s) (snd s) of
               (st', w', Inl err) \<Rightarrow> ((st', w'), Raise err) | (st', w', Inr _) \<Rightarrow> ((st', w'), Ok ()))))"

section \<open>Retries and the dead-letter topic\<close>

datatype retry_outcome = Processed | Exhausted worker_error | RefreshFailed worker_error

definition permanent :: "worker_error \<Rightarrow> bool" where
  "permanent err \<longleftrightarrow> (case err of EnvelopeError _ \<Rightarrow> True | EventOrderingError _ \<Rightarrow> True | _ \<Rightarrow> False)"

text \<open>
  The loop over the attempts; a permanent error leaves it at once, a missing cluster refreshes
  the clients and goes on, or leaves the loop where no refresh is configured.
\<close>

fun retry_attempts ::
  "(nat \<Rightarrow> string list \<Rightarrow> 's \<Rightarrow> 's \<times> (worker_error + unit)) \<Rightarrow> (nat \<Rightarrow> worker_error + string list) option
   \<Rightarrow> worker_error option \<Rightarrow> string list \<Rightarrow> 's \<Rightarrow> nat list \<Rightarrow> 's \<times> string list \<times> retry_outcome" where
  "retry_attempts run refresh last_error clients s [] =
     (s, clients, case last_error of None \<Rightarrow> Processed | Some err \<Rightarrow> Exhausted err)"
| "retry_attempts run refresh last_error clients s (attempt # attempts) =
     (case run attempt clients s of
        (s', Inr _) \<Rightarrow> (s', clients, Processed)
      | (s', Inl err) \<Rightarrow>
          if permanent err then (s', clients, Exhausted err)
          else (case err of
             MissingTargetClusterError t \<Rightarrow>
               (case refresh of
                  None \<Rightarrow> (s', clients, Exhausted err)
                | Some f \<Rightarrow> (case f attempt of
                    Inl failure \<Rightarrow> (s', clients, RefreshFailed failure)
                  | Inr refreshed \<Rightarrow> retry_attempts run refresh (Some err) refreshed s' attempts))
           | _ \<Rightarrow> retry_attempts run refresh (Some err) clients s' attempts))"

record DlqMessage =
  dq_source_topic :: string
  dq_error :: "worker_error option"        \<comment> \<open>\<open>None\<close> for a payload that is not JSON\<close>
  dq_message :: json
  dq_key :: "string option"
  dq_partition :: nat
  dq_offset :: nat

text \<open>
  What becomes of a dead letter. \<open>send\<close> hands it to the producer and \<open>flush\<close> waits until the
  request has ended; a request that ended in an error is reported by the future that \<open>send\<close>
  returned, which the worker drops. So \<open>RejectedUnseen\<close> looks to the worker like
  \<open>Acknowledged\<close>.
\<close>

datatype dlq_outcome = Acknowledged | RejectedUnseen | SendRaises | NoProducer

definition publish_to_dlq :: "dlq_outcome \<Rightarrow> DlqMessage \<Rightarrow> DlqMessage list \<Rightarrow> DlqMessage list \<times> bool" where
  "publish_to_dlq outcome m dlq =
     (case outcome of
        Acknowledged \<Rightarrow> (dlq @ [m], True)
      | RejectedUnseen \<Rightarrow> (dlq, True)
      | SendRaises \<Rightarrow> (dlq, False)
      | NoProducer \<Rightarrow> (dlq, False))"

text \<open>The result is whether the call returns; \<open>False\<close> is an exception.\<close>

definition process_message_with_retries ::
  "(nat \<Rightarrow> string list \<Rightarrow> 's \<Rightarrow> 's \<times> (worker_error + unit)) \<Rightarrow> (nat \<Rightarrow> worker_error + string list) option
   \<Rightarrow> nat \<Rightarrow> dlq_outcome \<Rightarrow> (worker_error \<Rightarrow> DlqMessage) \<Rightarrow> string list \<Rightarrow> 's \<Rightarrow> DlqMessage list
   \<Rightarrow> 's \<times> string list \<times> DlqMessage list \<times> bool" where
  "process_message_with_retries run refresh max_attempts outcome entry clients s dlq =
     (case retry_attempts run refresh None clients s [1..<Suc (max 1 max_attempts)] of
        (s', clients', Processed) \<Rightarrow> (s', clients', dlq, True)
      | (s', clients', Exhausted err) \<Rightarrow>
          (case publish_to_dlq outcome (entry err) dlq of (dlq', ok) \<Rightarrow> (s', clients', dlq', ok))
      | (s', clients', RefreshFailed _) \<Rightarrow> (s', clients', dlq, False))"

section \<open>The consumer loop over one partition\<close>

datatype raw_value = Undecodable string | Decoded json

record kafka_message =
  km_value :: raw_value
  km_key :: "string option"

text \<open>\<open>decode_kafka_value\<close> after UTF-8 and JSON decoding: the payload must be an object.\<close>

definition decode_kafka_value :: "raw_value \<Rightarrow> json option" where
  "decode_kafka_value v = (case v of Decoded (JObj d) \<Rightarrow> Some (JObj d) | _ \<Rightarrow> None)"

definition dlq_safe_message :: "raw_value \<Rightarrow> json" where
  "dlq_safe_message v = (case v of Undecodable s \<Rightarrow> JStr s | Decoded j \<Rightarrow> j)"

record 's worker =
  wk_position :: nat           \<comment> \<open>the next offset \<open>poll\<close> returns\<close>
  wk_committed :: nat          \<comment> \<open>the committed offset, where a restart resumes\<close>
  wk_clients :: "string list"
  wk_dlq :: "DlqMessage list"
  wk_state :: 's

text \<open>\<open>handle\<close> is \<open>process_message_with_retries\<close> for one decoded message and offset.\<close>

definition handle_record ::
  "(nat \<Rightarrow> kafka_message \<Rightarrow> json \<Rightarrow> string list \<Rightarrow> 's \<Rightarrow> DlqMessage list \<Rightarrow> 's \<times> string list \<times> DlqMessage list \<times> bool)
   \<Rightarrow> (nat \<Rightarrow> dlq_outcome) \<Rightarrow> string \<Rightarrow> nat \<Rightarrow> nat \<Rightarrow> kafka_message \<Rightarrow> 's worker \<Rightarrow> 's worker \<times> bool" where
  "handle_record handle outcome topic part off m k =
     (case decode_kafka_value (km_value m) of
        None \<Rightarrow>
          (case publish_to_dlq (outcome off)
              \<lparr>dq_source_topic = topic, dq_error = None, dq_message = dlq_safe_message (km_value m),
               dq_key = km_key m, dq_partition = part, dq_offset = off\<rparr> (wk_dlq k) of
             (dlq', ok) \<Rightarrow> (k\<lparr>wk_dlq := dlq'\<rparr>, ok))
      | Some message \<Rightarrow>
          (case handle off m message (wk_clients k) (wk_state k) (wk_dlq k) of
             (s', clients', dlq', ok) \<Rightarrow> (k\<lparr>wk_state := s', wk_clients := clients', wk_dlq := dlq'\<rparr>, ok)))"

text \<open>
  A record that was not handled ends the batch; the offset of a handled one is committed at
  once, and a commit that fails ends the batch too.
\<close>

fun process_batch ::
  "(nat \<Rightarrow> kafka_message \<Rightarrow> 's worker \<Rightarrow> 's worker \<times> bool) \<Rightarrow> (nat \<Rightarrow> bool) \<Rightarrow> nat \<Rightarrow> kafka_message list \<Rightarrow> 's worker
   \<Rightarrow> 's worker \<times> bool" where
  "process_batch hnd commits off [] k = (k, True)"
| "process_batch hnd commits off (m # ms) k =
     (case hnd off m k of
        (k', handled) \<Rightarrow>
          if \<not> handled \<or> \<not> commits off then (k', False)
          else process_batch hnd commits (Suc off) ms (k'\<lparr>wk_committed := Suc off\<rparr>))"

text \<open>\<open>poll\<close> advances the position past everything it returns, handled or not.\<close>

definition poll_step ::
  "(nat \<Rightarrow> kafka_message \<Rightarrow> 's worker \<Rightarrow> 's worker \<times> bool) \<Rightarrow> (nat \<Rightarrow> bool) \<Rightarrow> nat \<Rightarrow> kafka_message list \<Rightarrow> 's worker
   \<Rightarrow> 's worker \<times> bool" where
  "poll_step hnd commits max_records klog k =
     (let off = wk_position k; ms = take max_records (drop off klog) in
      process_batch hnd commits off ms (k\<lparr>wk_position := off + length ms\<rparr>))"

text \<open>A restart, or a rebalance, resumes at the committed offset.\<close>

definition restart :: "'s worker \<Rightarrow> 's worker" where
  "restart k = k\<lparr>wk_position := wk_committed k\<rparr>"

section \<open>Retries end, and end accounted for\<close>

lemma retry_attempts_outcome:
  assumes "retry_attempts run refresh prior clients s ns = (s', clients', out)"
  shows "case out of
      Processed \<Rightarrow> ns = [] \<and> prior = None \<or> (\<exists>a \<in> set ns. \<exists>cl s1. run a cl s1 = (s', Ok ()))
    | Exhausted err \<Rightarrow> prior = Some err \<and> ns = [] \<or> (\<exists>a \<in> set ns. \<exists>cl s1 s2. run a cl s1 = (s2, Raise err))
    | RefreshFailed err \<Rightarrow> \<exists>f. refresh = Some f \<and> (\<exists>a \<in> set ns. f a = Raise err)"
  using assms
proof (induction run refresh prior clients s ns rule: retry_attempts.induct)
  case (1 run refresh prior clients s)
  then show ?case by (auto split: option.splits)
next
  case (2 run refresh prior clients s a ns)
  obtain s1 r where run: "run a clients s = (s1, r)" by fastforce
  show ?case
  proof (cases r)
    case (Inr u)
    with run "2.prems" show ?thesis by auto
  next
    case (Inl err)
    show ?thesis
    proof (cases "permanent err")
      case True
      with Inl run "2.prems" have "out = Exhausted err" by auto
      with Inl run show ?thesis by auto
    next
      case False
      consider (Stop) "out = Exhausted err"
        | (Refresh) f failure where "refresh = Some f" "f a = Raise failure" "out = RefreshFailed failure"
        | (More) cl where "retry_attempts run refresh (Some err) cl s1 ns = (s', clients', out)"
            "retry_attempts run refresh (Some err) cl s1 ns = (s', clients', out) \<Longrightarrow>
               case out of
                 Processed \<Rightarrow> ns = [] \<and> Some err = None \<or> (\<exists>a \<in> set ns. \<exists>cl s1. run a cl s1 = (s', Ok ()))
               | Exhausted er \<Rightarrow> Some err = Some er \<and> ns = [] \<or> (\<exists>a \<in> set ns. \<exists>cl s1 s2. run a cl s1 = (s2, Raise er))
               | RefreshFailed er \<Rightarrow> \<exists>f. refresh = Some f \<and> (\<exists>a \<in> set ns. f a = Raise er)"
        using 2 run Inl False by (cases err; cases refresh) (auto split: sum.splits)
      then show ?thesis
      proof cases
        case Stop
        with Inl run show ?thesis by auto
      next
        case Refresh
        then show ?thesis by auto
      next
        case More
        from More(2) [OF More(1)] Inl run show ?thesis by (cases out) (auto, blast?)
      qed
    qed
  qed
qed

text \<open>The loop with its calls of \<open>process_message\<close> counted in the state.\<close>

definition counted ::
  "(nat \<Rightarrow> string list \<Rightarrow> 's \<Rightarrow> 's \<times> (worker_error + unit)) \<Rightarrow> nat \<Rightarrow> string list \<Rightarrow> 's \<times> nat
   \<Rightarrow> ('s \<times> nat) \<times> (worker_error + unit)" where
  "counted run a cl s = (case run a cl (fst s) of (s', r) \<Rightarrow> ((s', Suc (snd s)), r))"

lemma counted_attempts:
  "retry_attempts (counted run) refresh prior clients (s, n) ns = ((s', n'), clients', out) \<Longrightarrow>
   n \<le> n' \<and> n' \<le> n + length ns \<and> (ns \<noteq> [] \<longrightarrow> n < n')"
proof (induction "counted run" refresh prior clients "(s, n)" ns arbitrary: s n rule: retry_attempts.induct)
  case (1 refresh prior clients)
  then show ?case by simp
next
  case (2 refresh prior clients a ns)
  obtain s1 r where run: "run a clients s = (s1, r)" by fastforce
  have count: "counted run a clients (s, n) = ((s1, Suc n), r)" by (simp add: counted_def run)
  consider "n' = Suc n" | prior2 cl where "retry_attempts (counted run) refresh prior2 cl (s1, Suc n) ns = ((s', n'), clients', out)"
      "Suc n \<le> n' \<and> n' \<le> Suc n + length ns"
    using 2 count by (cases r; cases refresh) (auto split: if_splits sum.splits worker_error.splits)
  then show ?case by cases auto
qed

section \<open>Commits follow the work\<close>

lemma process_batch_committed:
  assumes "process_batch hnd commits off ms k = (k', ok)" and "wk_committed k = off"
    and frame: "\<And>i m k. wk_committed (fst (hnd i m k)) = wk_committed k \<and> wk_position (fst (hnd i m k)) = wk_position k"
  shows "off \<le> wk_committed k'" and "wk_committed k' \<le> off + length ms" and "wk_position k' = wk_position k"
    and "ok \<Longrightarrow> wk_committed k' = off + length ms" and "\<not> ok \<Longrightarrow> wk_committed k' < off + length ms"
    and "\<forall>i < wk_committed k' - off. \<exists>k1 k2. hnd (off + i) (ms ! i) k1 = (k2, True)"
proof -
  have "off \<le> wk_committed k' \<and> wk_committed k' \<le> off + length ms \<and> wk_position k' = wk_position k \<and>
      (ok \<longrightarrow> wk_committed k' = off + length ms) \<and> (\<not> ok \<longrightarrow> wk_committed k' < off + length ms) \<and>
      (\<forall>i < wk_committed k' - off. \<exists>k1 k2. hnd (off + i) (ms ! i) k1 = (k2, True))"
    using assms(1,2)
  proof (induction ms arbitrary: off k)
    case Nil
    then show ?case by simp
  next
    case (Cons m ms)
    obtain k1 h where h: "hnd off m k = (k1, h)" by fastforce
    then have k1: "wk_committed k1 = off" "wk_position k1 = wk_position k" using frame [of off m k] Cons.prems(2) by simp_all
    show ?case
    proof (cases "h \<and> commits off")
      case True
      with Cons.prems(1) h have "process_batch hnd commits (Suc off) ms (k1\<lparr>wk_committed := Suc off\<rparr>) = (k', ok)" by simp
      from Cons.IH [OF this] have IH: "Suc off \<le> wk_committed k' \<and> wk_committed k' \<le> Suc off + length ms \<and>
        wk_position k' = wk_position k1 \<and> (ok \<longrightarrow> wk_committed k' = Suc off + length ms) \<and>
        (\<not> ok \<longrightarrow> wk_committed k' < Suc off + length ms) \<and>
        (\<forall>i < wk_committed k' - Suc off. \<exists>k1 k2. hnd (Suc off + i) (ms ! i) k1 = (k2, True))" by simp
      have "\<exists>k1 k2. hnd (off + i) ((m # ms) ! i) k1 = (k2, True)" if "i < wk_committed k' - off" for i
        using IH that h True by (cases i) auto
      with IH k1 show ?thesis by auto
    next
      case False
      with Cons.prems h k1 show ?thesis by auto
    qed
  qed
  then show "off \<le> wk_committed k'" and "wk_committed k' \<le> off + length ms" and "wk_position k' = wk_position k"
    and "ok \<Longrightarrow> wk_committed k' = off + length ms" and "\<not> ok \<Longrightarrow> wk_committed k' < off + length ms"
    and "\<forall>i < wk_committed k' - off. \<exists>k1 k2. hnd (off + i) (ms ! i) k1 = (k2, True)" by simp_all
qed

lemma process_batch_last:
  assumes "process_batch hnd commits off ms k = (k', True)" and "ms \<noteq> []"
  shows "wk_committed k' = off + length ms"
  using assms
proof (induction ms arbitrary: off k)
  case (Cons m ms)
  then show ?case by (cases ms) (auto split: prod.splits if_splits)
qed simp

lemma handle_record_frame:
  "wk_committed (fst (handle_record handle outcome topic part off m k)) = wk_committed k"
  "wk_position (fst (handle_record handle outcome topic part off m k)) = wk_position k"
  by (simp_all add: handle_record_def split: option.splits prod.splits)

lemma poll_committed:
  assumes "wk_position k = wk_committed k"
    and "poll_step (handle_record handle outcome topic part) commits n klog k = (k', ok)"
  shows "wk_committed k \<le> wk_committed k'"
    and "\<forall>off. wk_committed k \<le> off \<and> off < wk_committed k' \<longrightarrow>
      (\<exists>k1 k2. handle_record handle outcome topic part off (klog ! off) k1 = (k2, True))"
    and "if ok then wk_position k' = wk_committed k' else wk_committed k' < wk_position k'"
proof -
  let ?off = "wk_committed k" and ?ms = "take n (drop (wk_committed k) klog)"
  have run: "process_batch (handle_record handle outcome topic part) commits ?off ?ms
      (k\<lparr>wk_position := ?off + length ?ms\<rparr>) = (k', ok)"
    using assms by (simp add: poll_step_def Let_def)
  note batch = process_batch_committed [OF run _ conjI [OF handle_record_frame]]
  show "wk_committed k \<le> wk_committed k'" using batch(1) by simp
  show "if ok then wk_position k' = wk_committed k' else wk_committed k' < wk_position k'"
    using batch(3-5) by simp
  show "\<forall>off. wk_committed k \<le> off \<and> off < wk_committed k' \<longrightarrow>
      (\<exists>k1 k2. handle_record handle outcome topic part off (klog ! off) k1 = (k2, True))"
  proof (intro allI impI)
    fix off assume off: "wk_committed k \<le> off \<and> off < wk_committed k'"
    then have i: "off - ?off < wk_committed k' - ?off" and len: "off - ?off < length ?ms" using batch(2) by auto
    have "?off \<le> length klog" using len by auto
    then have "?ms ! (off - ?off) = klog ! off" using len off by (simp add: nth_drop)
    moreover from batch(6) i obtain k1 k2 where
      "handle_record handle outcome topic part (?off + (off - ?off)) (?ms ! (off - ?off)) k1 = (k2, True)" by auto
    ultimately show "\<exists>k1 k2. handle_record handle outcome topic part off (klog ! off) k1 = (k2, True)" using off by auto
  qed
qed

text \<open>A worker at the start of a partition whose first record is not JSON.\<close>

definition idle_worker :: "nat \<Rightarrow> nat \<Rightarrow> unit worker" where
  "idle_worker pos com = \<lparr>wk_position = pos, wk_committed = com, wk_clients = [], wk_dlq = [], wk_state = ()\<rparr>"

definition sample_records :: "kafka_message list" where
  "sample_records = [\<lparr>km_value = Undecodable ''not json'', km_key = None\<rparr>, \<lparr>km_value = Decoded (JObj []), km_key = None\<rparr>]"

definition calm_handler :: "nat \<Rightarrow> kafka_message \<Rightarrow> json \<Rightarrow> string list \<Rightarrow> unit \<Rightarrow> DlqMessage list
    \<Rightarrow> unit \<times> string list \<times> DlqMessage list \<times> bool" where
  "calm_handler off m j clients s dlq = (s, clients, dlq, True)"

definition failing_call :: "nat \<Rightarrow> string list \<Rightarrow> unit \<Rightarrow> unit \<times> (worker_error + unit)" where
  "failing_call a clients s = (s, Raise TypesenseFailed)"

definition sample_entry :: "worker_error \<Rightarrow> DlqMessage" where
  "sample_entry err = \<lparr>dq_source_topic = ''imposbro_books'', dq_error = Some err, dq_message = JObj [], dq_key = None,
     dq_partition = 0, dq_offset = 4\<rparr>"

lemma first_poll: "poll_step (handle_record calm_handler (\<lambda>_. NoProducer) ''t'' 0) (\<lambda>_. True) 1 sample_records (idle_worker 0 0) =
    (idle_worker 1 0, False)"
  by (simp add: poll_step_def handle_record_def sample_records_def idle_worker_def decode_kafka_value_def publish_to_dlq_def)

lemma second_poll: "poll_step (handle_record calm_handler (\<lambda>_. NoProducer) ''t'' 0) (\<lambda>_. True) 1 sample_records (idle_worker 1 0) =
    (idle_worker 2 2, True)"
  by (simp add: poll_step_def handle_record_def sample_records_def idle_worker_def decode_kafka_value_def calm_handler_def)

section \<open>Properties\<close>

text \<open>
  C34. A message whose processing returns was processed or dead-lettered. If
  process_message_with_retries returns, then some attempt succeeded and left the state it
  returns, or an attempt failed and the message with that error is the last dead letter, or it
  failed and the broker refused the dead letter without the worker noticing.
\<close>

theorem handled_or_dead_lettered:
  assumes "process_message_with_retries run refresh n outcome entry clients s dlq = (s', clients', dlq', True)"
  shows "(\<exists>a \<in> {1..max 1 n}. \<exists>cl s1. run a cl s1 = (s', Ok ())) \<and> dlq' = dlq \<or>
    (\<exists>a \<in> {1..max 1 n}. \<exists>cl s1 s2 err. run a cl s1 = (s2, Raise err) \<and>
       (outcome = Acknowledged \<and> dlq' = dlq @ [entry err] \<or> outcome = RejectedUnseen \<and> dlq' = dlq))"
proof -
  obtain s1 cl1 out where loop: "retry_attempts run refresh None clients s [1..<Suc (max 1 n)] = (s1, cl1, out)"
    by (metis prod_cases3)
  from retry_attempts_outcome [OF loop] assms loop show ?thesis
    by (cases out; cases outcome) (fastforce simp: process_message_with_retries_def publish_to_dlq_def)+
qed

theorem handled_or_dead_lettered_witness:
  "process_message_with_retries failing_call None 2 RejectedUnseen sample_entry [] () [] = ((), [], [], True) \<and>
   ((\<exists>a \<in> {1..max 1 2}. \<exists>cl s1. failing_call a cl s1 = ((), Ok ())) \<and> ([] :: DlqMessage list) = [] \<or>
    (\<exists>a \<in> {1..max 1 2}. \<exists>cl s1 s2 err. failing_call a cl s1 = (s2, Raise err) \<and>
       (RejectedUnseen = Acknowledged \<and> [] = [] @ [sample_entry err] \<or> RejectedUnseen = RejectedUnseen \<and> ([] :: DlqMessage list) = [])))"
proof -
  have run: "process_message_with_retries failing_call None 2 RejectedUnseen sample_entry [] () [] = ((), [], [], True)"
    by (simp add: process_message_with_retries_def failing_call_def permanent_def publish_to_dlq_def upt_rec)
  from handled_or_dead_lettered [OF this] run show ?thesis by blast
qed

text \<open>
  Retries are bounded. Processing one message calls process_message at least once and at
  most max_attempts times (once when max_attempts is zero), and exactly once when the first
  call fails permanently.
\<close>

theorem attempts_bounded:
  assumes "process_message_with_retries (counted run) refresh n outcome entry clients (s, 0) dlq = ((s', calls), clients', dlq', ok)"
  shows "1 \<le> calls \<and> calls \<le> max 1 n \<and>
    (\<forall>s1 err. run 1 clients s = (s1, Raise err) \<and> permanent err \<longrightarrow> calls = 1 \<and> s' = s1)"
proof -
  obtain s1 c1 cl1 out where loop: "retry_attempts (counted run) refresh None clients (s, 0) [1..<Suc (max 1 n)] = ((s1, c1), cl1, out)"
    by (metis prod.collapse)
  have same: "s1 = s'" "c1 = calls" using assms loop
    by (auto simp: process_message_with_retries_def split: retry_outcome.splits prod.splits)
  have "[1..<Suc (max 1 n)] = 1 # [2..<Suc (max 1 n)]" by (subst upt_conv_Cons) (auto simp: numeral_2_eq_2)
  with loop same have first: "calls = 1 \<and> s' = s2" if "run 1 clients s = (s2, Raise err)" "permanent err" for s2 err
    using that by (simp add: counted_def del: upt_Suc)
  from counted_attempts [OF loop] first same show ?thesis by auto
qed

theorem attempts_bounded_witness:
  "\<exists>calls. process_message_with_retries (counted failing_call) None 3 Acknowledged sample_entry [] ((), 0) [] =
     (((), calls), [], [sample_entry TypesenseFailed], True) \<and> 1 \<le> calls \<and> calls \<le> max 1 3"
proof -
  have run: "process_message_with_retries (counted failing_call) None 3 Acknowledged sample_entry [] ((), 0) [] =
     (((), 3), [], [sample_entry TypesenseFailed], True)"
    by (simp add: process_message_with_retries_def counted_def failing_call_def permanent_def publish_to_dlq_def upt_rec)
  from attempts_bounded [OF this] run show ?thesis by blast
qed

text \<open>
  C35. Commits follow the work. A poll that starts at the committed offset commits only offsets
  below which every record was handled, never goes back, and either handles all it polled or
  leaves the committed offset behind the position.
\<close>

theorem commits_only_handled:
  assumes "wk_position k = wk_committed k"
    and "poll_step (handle_record handle outcome topic part) commits n klog k = (k', ok)"
  shows "wk_committed k \<le> wk_committed k' \<and>
    (\<forall>off. wk_committed k \<le> off \<and> off < wk_committed k' \<longrightarrow>
      (\<exists>k1 k2. handle_record handle outcome topic part off (klog ! off) k1 = (k2, True))) \<and>
    (if ok then wk_position k' = wk_committed k' else wk_committed k' < wk_position k')"
  using poll_committed [OF assms] by blast

theorem commits_only_handled_witness:
  "wk_committed (idle_worker 1 0) < wk_position (idle_worker 1 0)"
proof -
  have "wk_position (idle_worker 0 0) = wk_committed (idle_worker 0 0)" by (simp add: idle_worker_def)
  from commits_only_handled [OF this first_poll] show ?thesis by simp
qed

text \<open>
  A failed record is skipped. The worker does not seek back after a batch that ended at a
  record it could not handle: the next poll starts behind that batch, and when it succeeds it
  commits past the failed record, so that even a restart does not see it again.
\<close>

theorem failed_record_skipped:
  assumes "wk_position k = wk_committed k"
    and "poll_step (handle_record handle outcome topic part) commits n klog k = (k1, False)"
    and "poll_step (handle_record handle' outcome' topic part) commits' n klog k1 = (k2, True)"
    and "wk_position k1 < length klog" and "0 < n"
  shows "wk_committed k1 < wk_position k1 \<and> wk_position k1 < wk_committed k2 \<and>
    wk_committed k1 < wk_position (restart k2)"
proof -
  have behind: "wk_committed k1 < wk_position k1" using poll_committed(3) [OF assms(1,2)] by simp
  let ?ms = "take n (drop (wk_position k1) klog)"
  have "process_batch (handle_record handle' outcome' topic part) commits' (wk_position k1) ?ms
      (k1\<lparr>wk_position := wk_position k1 + length ?ms\<rparr>) = (k2, True)"
    using assms(3) by (simp add: poll_step_def Let_def)
  from process_batch_last [OF this] assms(4,5) have "wk_committed k2 = wk_position k1 + length ?ms" by auto
  moreover have "0 < length ?ms" using assms(4,5) by simp
  ultimately show ?thesis using behind by (simp add: restart_def)
qed

theorem failed_record_skipped_witness:
  "wk_committed (idle_worker 1 0) < wk_position (restart (idle_worker 2 2))"
proof -
  have start: "wk_position (idle_worker 0 0) = wk_committed (idle_worker 0 0)"
    "wk_position (idle_worker 1 0) < length sample_records" by (simp_all add: idle_worker_def sample_records_def)
  from failed_record_skipped [OF start(1) first_poll second_poll start(2)] show ?thesis by simp
qed

end
