(* ===== verification/DeliveryConvergence.thy ===== *)
theory DeliveryConvergence
  imports Consumer
begin

text \<open>
  What the worker guarantees however often and in whatever order Kafka delivers, whichever
  call fails and wherever the worker dies: a target never keeps an older state of a document
  once its newest event has been processed. The facts are proved from the laws of the locale
  \<open>checkpoint_store\<close> and hold for both stores.
\<close>

section \<open>What the clusters promise\<close>

text \<open>
  Documented behaviour of Typesense: an upsert stores the document under its id, a deletion
  removes the document (with a filter, if it matches); a failed call did either nothing or all
  of it; no other document changes.
\<close>

definition typesense_contract :: "(string \<Rightarrow> document \<Rightarrow> bool) \<Rightarrow> 'w typesense \<Rightarrow> bool" where
  "typesense_contract matching ts \<longleftrightarrow>
     (\<forall>w t c d i w' ok. ts_upsert ts w t c d = (w', ok) \<longrightarrow> jget d ''id'' = JStr i \<longrightarrow>
        (\<forall>t' c' i'. (t', c', i') \<noteq> (t, c, i) \<longrightarrow> ts_get ts w' t' c' i' = ts_get ts w t' c' i') \<and>
        (ts_get ts w' t c i = Some d \<or> \<not> ok \<and> ts_get ts w' t c i = ts_get ts w t c i)) \<and>
     (\<forall>w t c i f w' r. ts_delete ts w t c i f = (w', r) \<longrightarrow>
        (\<forall>t' c' i'. (t', c', i') \<noteq> (t, c, i) \<longrightarrow> ts_get ts w' t' c' i' = ts_get ts w t' c' i') \<and>
        ((case f of
            None \<Rightarrow> ts_get ts w' t c i = None
          | Some g \<Rightarrow> ts_get ts w' t c i =
              (case ts_get ts w t c i of Some d \<Rightarrow> if matching g d then None else Some d | None \<Rightarrow> None)) \<or>
         r = DeleteFailed \<and> ts_get ts w' t c i = ts_get ts w t c i))"

definition visible :: "'w typesense \<Rightarrow> 'w \<Rightarrow> string \<Rightarrow> IndexingEventV2 \<Rightarrow> document option" where
  "visible ts w t e = ts_get ts w t (id_collection (v2_identity e)) (id_document_id (v2_identity e))"

text \<open>The target shows what the event asked for.\<close>

definition reflects :: "(string \<Rightarrow> document \<Rightarrow> bool) \<Rightarrow> 'w typesense \<Rightarrow> 'w \<Rightarrow> string \<Rightarrow> IndexingEventV2 \<Rightarrow> bool" where
  "reflects matching ts w t e \<longleftrightarrow>
     (if v2_operation e = Upsert then visible ts w t e = v2_document e
      else case v2_delete_filter e of
        Some (c # g) \<Rightarrow> (\<forall>d. visible ts w t e = Some d \<longrightarrow> \<not> matching (c # g) d)
      | _ \<Rightarrow> visible ts w t e = None)"

definition event_place :: "IndexingEventV2 \<Rightarrow> string \<times> string" where
  "event_place e = (id_collection (v2_identity e), id_document_id (v2_identity e))"

definition document_named :: "IndexingEventV2 \<Rightarrow> bool" where
  "document_named e \<longleftrightarrow> (v2_operation e = Upsert \<longrightarrow>
     (\<exists>d. v2_document e = Some d \<and> jget d ''id'' = JStr (id_document_id (v2_identity e))))"

lemma apply_operation_effect:
  assumes ts: "typesense_contract matching ts" and e: "document_named e" and run: "apply_operation ts w t e = (w', r)"
  shows "(t', c', i') \<noteq> (t, event_place e) \<Longrightarrow> ts_get ts w' t' c' i' = ts_get ts w t' c' i'"
    and "reflects matching ts w' t e \<or> (\<exists>err. r = Raise err) \<and> visible ts w' t e = visible ts w t e"
proof -
  let ?c = "id_collection (v2_identity e)" and ?i = "id_document_id (v2_identity e)"
  have both: "((t', c', i') \<noteq> (t, event_place e) \<longrightarrow> ts_get ts w' t' c' i' = ts_get ts w t' c' i') \<and>
    (reflects matching ts w' t e \<or> (\<exists>err. r = Raise err) \<and> visible ts w' t e = visible ts w t e)"
  proof (cases "v2_operation e = Upsert")
    case True
    with e obtain d where d: "v2_document e = Some d" "jget d ''id'' = JStr ?i" by (auto simp: document_named_def)
    obtain w1 ok where up: "ts_upsert ts w t ?c d = (w1, ok)" by fastforce
    then have res: "w' = w1" "\<not> ok \<Longrightarrow> r = Raise TypesenseFailed"
      using run d True by (auto simp: apply_operation_def upsert_document_def Let_def split: bool.splits)
    from ts up d(2) have "(\<forall>t' c' i'. (t', c', i') \<noteq> (t, ?c, ?i) \<longrightarrow> ts_get ts w1 t' c' i' = ts_get ts w t' c' i') \<and>
        (ts_get ts w1 t ?c ?i = Some d \<or> \<not> ok \<and> ts_get ts w1 t ?c ?i = ts_get ts w t ?c ?i)"
      unfolding typesense_contract_def by blast
    then show ?thesis using res d(1) True by (auto simp: reflects_def visible_def event_place_def)
  next
    case False
    let ?f = "if v2_delete_filter e = Some [] then None else v2_delete_filter e"
    obtain w1 rep where del: "ts_delete ts w t ?c ?i ?f = (w1, rep)" by fastforce
    have "v2_operation e \<in> {Delete, Tombstone}" using False by (cases "v2_operation e") auto
    then have res: "w' = w1" "rep = DeleteFailed \<Longrightarrow> r = Raise TypesenseFailed"
      using run del by (auto simp: apply_operation_def delete_document_def Let_def split: delete_reply.splits if_splits)
    from ts del have "(\<forall>t' c' i'. (t', c', i') \<noteq> (t, ?c, ?i) \<longrightarrow> ts_get ts w1 t' c' i' = ts_get ts w t' c' i') \<and>
        ((case ?f of
            None \<Rightarrow> ts_get ts w1 t ?c ?i = None
          | Some g \<Rightarrow> ts_get ts w1 t ?c ?i =
              (case ts_get ts w t ?c ?i of Some d \<Rightarrow> if matching g d then None else Some d | None \<Rightarrow> None)) \<or>
         rep = DeleteFailed \<and> ts_get ts w1 t ?c ?i = ts_get ts w t ?c ?i)"
      unfolding typesense_contract_def by blast
    then show ?thesis using res False
      by (auto simp: reflects_def visible_def event_place_def split: option.splits list.splits if_splits)
  qed
  then show "(t', c', i') \<noteq> (t, event_place e) \<Longrightarrow> ts_get ts w' t' c' i' = ts_get ts w t' c' i'"
    and "reflects matching ts w' t e \<or> (\<exists>err. r = Raise err) \<and> visible ts w' t e = visible ts w t e" by blast+
qed

lemma reflects_frame:
  "ts_get ts w' t (id_collection (v2_identity e)) (id_document_id (v2_identity e)) =
   ts_get ts w t (id_collection (v2_identity e)) (id_document_id (v2_identity e)) \<Longrightarrow>
   reflects matching ts w' t e = reflects matching ts w t e"
proof -
  assume "ts_get ts w' t (id_collection (v2_identity e)) (id_document_id (v2_identity e)) =
    ts_get ts w t (id_collection (v2_identity e)) (id_document_id (v2_identity e))"
  then have "visible ts w' t e = visible ts w t e" by (simp add: visible_def)
  then show ?thesis by (simp only: reflects_def)
qed

section \<open>The log\<close>

text \<open>
  The events of a log: the outbox gives each document one event per sequence and uses the
  sequence as version; no two tenants share a document id within a collection; the
  checkpoint hashes of this log do not collide.
\<close>

definition log_ok :: "platform \<Rightarrow> IndexingEventV2 set \<Rightarrow> bool" where
  "log_ok pl L \<longleftrightarrow>
     (\<forall>e \<in> L. document_named e \<and> distinct (v2_target_clusters e) \<and> v2_document_version e = v2_sequence e) \<and>
     (\<forall>e \<in> L. \<forall>e' \<in> L. v2_identity e = v2_identity e' \<and> v2_sequence e = v2_sequence e' \<longrightarrow> e = e') \<and>
     (\<forall>e \<in> L. \<forall>e' \<in> L. event_place e = event_place e' \<longrightarrow> v2_identity e = v2_identity e') \<and>
     (\<forall>e \<in> L. \<forall>e' \<in> L. \<forall>t \<in> set (v2_target_clusters e). \<forall>t' \<in> set (v2_target_clusters e').
        checkpoint_id pl e t = checkpoint_id pl e' t' \<longrightarrow> v2_identity e = v2_identity e' \<and> t = t')"

lemma log_event: "log_ok pl L \<Longrightarrow> e \<in> L \<Longrightarrow>
    document_named e \<and> distinct (v2_target_clusters e) \<and> v2_document_version e = v2_sequence e"
  by (simp add: log_ok_def)

lemma log_sequence:
  assumes "log_ok pl L" and "e \<in> L" and "e' \<in> L" and "v2_identity e = v2_identity e'" and "v2_sequence e = v2_sequence e'"
  shows "e = e'"
proof -
  have "\<forall>e \<in> L. \<forall>e' \<in> L. v2_identity e = v2_identity e' \<and> v2_sequence e = v2_sequence e' \<longrightarrow> e = e'"
    using assms(1) unfolding log_ok_def by (elim conjE)
  from this [rule_format, OF assms(2,3)] assms(4,5) show ?thesis by blast
qed

lemma log_place:
  assumes "log_ok pl L" and "e \<in> L" and "e' \<in> L" and "event_place e = event_place e'"
  shows "v2_identity e = v2_identity e'"
proof -
  have "\<forall>e \<in> L. \<forall>e' \<in> L. event_place e = event_place e' \<longrightarrow> v2_identity e = v2_identity e'"
    using assms(1) unfolding log_ok_def by (elim conjE)
  from this [rule_format, OF assms(2-4)] show ?thesis .
qed

lemma log_hash:
  assumes "log_ok pl L" and "e \<in> L" and "e' \<in> L" and "t \<in> set (v2_target_clusters e)"
    and "t' \<in> set (v2_target_clusters e')" and "checkpoint_id pl e t = checkpoint_id pl e' t'"
  shows "v2_identity e = v2_identity e' \<and> t = t'"
proof -
  have "\<forall>e \<in> L. \<forall>e' \<in> L. \<forall>t \<in> set (v2_target_clusters e). \<forall>t' \<in> set (v2_target_clusters e').
      checkpoint_id pl e t = checkpoint_id pl e' t' \<longrightarrow> v2_identity e = v2_identity e' \<and> t = t'"
    using assms(1) unfolding log_ok_def by (elim conjE)
  from this [rule_format, OF assms(2-6)] show ?thesis .
qed

definition newest :: "IndexingEventV2 set \<Rightarrow> IndexingEventV2 \<Rightarrow> bool" where
  "newest L e \<longleftrightarrow> e \<in> L \<and> (\<forall>e' \<in> L. v2_identity e' = v2_identity e \<longrightarrow> v2_sequence e' \<le> v2_sequence e)"

section \<open>The invariant\<close>

type_synonym checkpoint_view = "string \<Rightarrow> TargetCheckpoint option"

text \<open>
  Every checkpoint is of an event of the log, and its target shows that event or a later one
  whose checkpoint was lost.
\<close>

definition tracked :: "platform \<Rightarrow> (string \<Rightarrow> document \<Rightarrow> bool) \<Rightarrow> 'w typesense \<Rightarrow> IndexingEventV2 set
    \<Rightarrow> 'w \<Rightarrow> string \<Rightarrow> TargetCheckpoint \<Rightarrow> bool" where
  "tracked pl matching ts L w k c \<longleftrightarrow>
     (\<exists>e \<in> L. \<exists>t \<in> set (v2_target_clusters e). k = checkpoint_id pl e t \<and> tc_sequence c = v2_sequence e \<and>
        tc_document_version c = v2_sequence e \<and>
        (\<exists>e' \<in> L. v2_identity e' = v2_identity e \<and> t \<in> set (v2_target_clusters e') \<and>
           v2_sequence e \<le> v2_sequence e' \<and> reflects matching ts w t e'))"

definition tracks :: "platform \<Rightarrow> (string \<Rightarrow> document \<Rightarrow> bool) \<Rightarrow> 'w typesense \<Rightarrow> IndexingEventV2 set
    \<Rightarrow> checkpoint_view \<Rightarrow> 'w \<Rightarrow> bool" where
  "tracks pl matching ts L v w \<longleftrightarrow> (\<forall>k c. v k = Some c \<longrightarrow> tracked pl matching ts L w k c)"

definition newer :: "platform \<Rightarrow> checkpoint_view \<Rightarrow> IndexingEventV2 \<Rightarrow> string \<Rightarrow> bool" where
  "newer pl v e t \<longleftrightarrow> (\<forall>c. v (checkpoint_id pl e t) = Some c \<longrightarrow> tc_sequence c < v2_sequence e)"

lemma trackedI:
  "e0 \<in> L \<Longrightarrow> t \<in> set (v2_target_clusters e0) \<Longrightarrow> k = checkpoint_id pl e0 t \<Longrightarrow> tc_sequence c = v2_sequence e0 \<Longrightarrow>
   tc_document_version c = v2_sequence e0 \<Longrightarrow> e1 \<in> L \<Longrightarrow> v2_identity e1 = v2_identity e0 \<Longrightarrow>
   t \<in> set (v2_target_clusters e1) \<Longrightarrow> v2_sequence e0 \<le> v2_sequence e1 \<Longrightarrow> reflects matching ts w t e1 \<Longrightarrow>
   tracked pl matching ts L w k c"
  unfolding tracked_def by blast

lemma classify_Apply: "classify_event pl e (v (checkpoint_id pl e t)) = Ok Apply \<Longrightarrow> newer pl v e t"
  by (auto simp: classify_event_def newer_def Let_def split: if_splits)

lemma classify_Duplicate: "classify_event pl e cp = Ok Duplicate \<Longrightarrow>
    \<exists>c. cp = Some c \<and> tc_sequence c = v2_sequence e"
  by (auto simp: classify_event_def Let_def split: option.splits if_splits)

lemma classify_Stale: "classify_event pl e cp = Ok StaleEvent \<Longrightarrow>
    \<exists>c. cp = Some c \<and> v2_sequence e < tc_sequence c"
  by (auto simp: classify_event_def Let_def split: option.splits if_splits)

text \<open>A write of a newer event keeps the invariant, whether or not its checkpoint is saved.\<close>

lemma tracks_write:
  assumes log: "log_ok pl L" and e: "e \<in> L" and t: "t \<in> set (v2_target_clusters e)"
    and ts: "typesense_contract matching ts" and run: "apply_operation ts w t e = (w', r)"
    and inv: "tracks pl matching ts L v w" and new: "newer pl v e t"
  shows "tracks pl matching ts L v w'"
  unfolding tracks_def
proof (intro allI impI)
  fix k c assume k: "v k = Some c"
  from inv k obtain e0 t0 e1 where e0: "e0 \<in> L" "t0 \<in> set (v2_target_clusters e0)" "k = checkpoint_id pl e0 t0"
    "tc_sequence c = v2_sequence e0" "tc_document_version c = v2_sequence e0"
    and e1: "e1 \<in> L" "v2_identity e1 = v2_identity e0" "t0 \<in> set (v2_target_clusters e1)"
    "v2_sequence e0 \<le> v2_sequence e1" "reflects matching ts w t0 e1"
    unfolding tracks_def tracked_def by blast
  have named: "document_named e" using log_event [OF log e] by simp
  note effect = apply_operation_effect [OF ts named run]
  show "tracked pl matching ts L w' k c"
  proof (cases "t0 = t \<and> event_place e1 = event_place e")
    case False
    then have "(t0, event_place e1) \<noteq> (t, event_place e)" by auto
    then have "ts_get ts w' t0 (id_collection (v2_identity e1)) (id_document_id (v2_identity e1)) =
        ts_get ts w t0 (id_collection (v2_identity e1)) (id_document_id (v2_identity e1))"
      using effect(1) [of t0 "fst (event_place e1)" "snd (event_place e1)"] by (simp add: event_place_def)
    from reflects_frame [OF this] e1(5) have "reflects matching ts w' t0 e1" by simp
    then show ?thesis by (rule trackedI [OF e0 e1(1-4)])
  next
    case True
    then have same: "v2_identity e1 = v2_identity e" using log_place [OF log e1(1) e] by simp
    then have "checkpoint_id pl e t = k" using e0(3) e1(2) True by (simp add: checkpoint_id_def)
    then have less: "v2_sequence e0 < v2_sequence e" using new k e0(4) by (auto simp: newer_def)
    from effect(2) show ?thesis
    proof
      assume "reflects matching ts w' t e"
      then show ?thesis using t True less same e1(2) by (intro trackedI [OF e0 e]) simp_all
    next
      assume "(\<exists>err. r = Raise err) \<and> visible ts w' t e = visible ts w t e"
      then have "reflects matching ts w' t0 e1 = reflects matching ts w t0 e1"
        using True same by (intro reflects_frame) (simp add: visible_def)
      then show ?thesis using e1(5) by (intro trackedI [OF e0 e1(1-4)]) simp
    qed
  qed
qed

lemma tracks_save:
  assumes e: "e \<in> L" and t: "t \<in> set (v2_target_clusters e)" and version: "v2_document_version e = v2_sequence e"
    and same: "same_checkpoint (checkpoint_from_event pl e t ms) c"
    and shown: "reflects matching ts w t e" and inv: "tracks pl matching ts L v w"
  shows "tracks pl matching ts L (v(checkpoint_id pl e t \<mapsto> c)) w"
proof -
  have "tc_sequence c = v2_sequence e" "tc_document_version c = v2_sequence e"
    using same_checkpoint_fields [OF same] version by (simp_all add: checkpoint_from_event_def)
  then have "tracked pl matching ts L w (checkpoint_id pl e t) c"
    by (rule trackedI [OF e t refl _ _ e refl t order_refl shown])
  then show ?thesis using inv by (simp add: tracks_def)
qed

text \<open>All targets of an event show it and are checkpointed at it.\<close>

definition settled :: "platform \<Rightarrow> (string \<Rightarrow> document \<Rightarrow> bool) \<Rightarrow> 'w typesense \<Rightarrow> checkpoint_view \<Rightarrow> 'w \<Rightarrow> IndexingEventV2 \<Rightarrow> bool" where
  "settled pl matching ts v w e \<longleftrightarrow> (\<forall>t \<in> set (v2_target_clusters e). reflects matching ts w t e \<and>
     (\<exists>c. v (checkpoint_id pl e t) = Some c \<and> tc_sequence c = v2_sequence e))"

record delivery =
  dl_event :: IndexingEventV2
  dl_clients :: "string list"
  dl_clock :: "string \<Rightarrow> int"
  dl_fault :: scope_fault

definition deliver ::
  "'w typesense \<Rightarrow> ('st \<Rightarrow> IndexingEventV2 \<Rightarrow> 'se) \<Rightarrow> ('se \<Rightarrow> IndexingEventV2 \<Rightarrow> string \<Rightarrow> worker_error + TargetCheckpoint option)
   \<Rightarrow> ('se \<Rightarrow> TargetCheckpoint \<Rightarrow> 'se \<times> (worker_error + unit)) \<Rightarrow> ('se \<Rightarrow> 'st \<times> (worker_error + unit)) \<Rightarrow> platform
   \<Rightarrow> 'st \<times> 'w \<Rightarrow> delivery \<Rightarrow> ('st \<times> 'w) \<times> (worker_error + process_result)" where
  "deliver ts opens load save close pl s d =
     (case process_v2_with_checkpoint ts opens load save close pl (dl_clock d) (dl_fault d) (dl_clients d)
        (dl_event d) (fst s) (snd s) of (st', w', r) \<Rightarrow> ((st', w'), r))"

definition deliver_all ::
  "'w typesense \<Rightarrow> ('st \<Rightarrow> IndexingEventV2 \<Rightarrow> 'se) \<Rightarrow> ('se \<Rightarrow> IndexingEventV2 \<Rightarrow> string \<Rightarrow> worker_error + TargetCheckpoint option)
   \<Rightarrow> ('se \<Rightarrow> TargetCheckpoint \<Rightarrow> 'se \<times> (worker_error + unit)) \<Rightarrow> ('se \<Rightarrow> 'st \<times> (worker_error + unit)) \<Rightarrow> platform
   \<Rightarrow> 'st \<times> 'w \<Rightarrow> delivery list \<Rightarrow> 'st \<times> 'w" where
  "deliver_all ts opens load save close pl s ds = foldl (\<lambda>s d. fst (deliver ts opens load save close pl s d)) s ds"

section \<open>One scope\<close>

context checkpoint_store
begin

lemma plan_targets_spec:
  assumes "sgood st e se" and "set ts \<subseteq> set (v2_target_clusters e)" and "plan_targets load pl clients se e ts = Ok plans"
  shows "map fst plans = ts \<and>
    (\<forall>(t, d) \<in> set plans. classify_event pl e (sview se (checkpoint_id pl e t)) = Ok d)"
  using assms(2,3)
proof (induction ts arbitrary: plans)
  case Nil
  then show ?case by simp
next
  case (Cons t ts)
  from Cons.prems obtain cp d rest where step: "load se e t = Ok cp" "classify_event pl e cp = Ok d"
    "plan_targets load pl clients se e ts = Ok rest" "plans = (t, d) # rest"
    by (auto simp: ebind_eq_Ok split: if_splits)
  have "cp = sview se (checkpoint_id pl e t)" using load_view [OF assms(1) _ step(1)] Cons.prems(1) by simp
  with Cons.IH [OF _ step(3)] Cons.prems(1) step show ?case by auto
qed

text \<open>What the writes of one event leave alone.\<close>

definition untouched :: "IndexingEventV2 \<Rightarrow> (string \<times> decision) list \<Rightarrow> 'w typesense \<Rightarrow> 'w \<Rightarrow> 'w \<Rightarrow> checkpoint_view \<Rightarrow> checkpoint_view \<Rightarrow> bool" where
  "untouched e plans ts w w' v v' \<longleftrightarrow>
     (\<forall>t c i. (\<forall>t'. (t', Apply) \<in> set plans \<longrightarrow> (t, c, i) \<noteq> (t', event_place e)) \<longrightarrow> ts_get ts w' t c i = ts_get ts w t c i) \<and>
     (\<forall>k. (\<forall>t'. (t', Apply) \<in> set plans \<longrightarrow> k \<noteq> checkpoint_id pl e t') \<longrightarrow> v' k = v k)"

text \<open>What a finished loop has done for the targets it was to apply.\<close>

definition finished :: "(string \<Rightarrow> document \<Rightarrow> bool) \<Rightarrow> 'w typesense \<Rightarrow> IndexingEventV2 \<Rightarrow> (string \<times> decision) list \<Rightarrow> 'w \<Rightarrow> checkpoint_view \<Rightarrow> bool" where
  "finished matching ts e plans w v \<longleftrightarrow> (\<forall>t. (t, Apply) \<in> set plans \<longrightarrow> reflects matching ts w t e \<and>
     (\<exists>c. v (checkpoint_id pl e t) = Some c \<and> tc_sequence c = v2_sequence e))"

lemma untouched_refl: "untouched e plans ts w w v v"
  by (simp add: untouched_def)

lemma apply_targets_suppressed:
  "apply_targets ts save pl clock True e se w plans = (se, w, Ok ())"
  by (induction plans) auto

lemma apply_targets_spec:
  assumes log: "log_ok pl L" and e: "e \<in> L" and ts: "typesense_contract matching ts"
    and "sgood st e se" and "tracks pl matching ts L (sview se) w" and "tracks pl matching ts L (view st) w"
    and "set (map fst plans) \<subseteq> set (v2_target_clusters e)" and "distinct (map fst plans)"
    and "\<forall>t. (t, Apply) \<in> set plans \<longrightarrow> newer pl (sview se) e t \<and> newer pl (view st) e t"
    and "apply_targets ts save pl clock False e se w plans = (se', w', r)"
  shows "sgood st e se' \<and> tracks pl matching ts L (sview se') w' \<and> tracks pl matching ts L (view st) w' \<and>
    untouched e plans ts w w' (sview se) (sview se') \<and>
    (r = Ok () \<longrightarrow> broken se' = broken se \<and> finished matching ts e plans w' (sview se'))"
  using assms(4-)
proof (induction plans arbitrary: se w)
  case Nil
  then show ?case by (simp add: untouched_refl finished_def)
next
  case (Cons x plans)
  obtain t d where x: "x = (t, d)" by (cases x)
  show ?case
  proof (cases "d = Apply")
    case False
    then have "apply_targets ts save pl clock False e se w plans = (se', w', r)" using Cons.prems(7) x by simp
    from Cons.IH [OF Cons.prems(1-3) _ _ _ this] Cons.prems(4-6) False x show ?thesis
      by (auto simp: untouched_def finished_def)
  next
    case True
    have t: "t \<in> set (v2_target_clusters e)" using Cons.prems(4) x by simp
    have named: "document_named e" and version: "v2_document_version e = v2_sequence e" using log_event [OF log e] by simp_all
    have newer: "newer pl (sview se) e t" "newer pl (view st) e t" using Cons.prems(6) x True by auto
    obtain w1 r1 where run: "apply_operation ts w t e = (w1, r1)" by fastforce
    note effect = apply_operation_effect [OF ts named run]
    have inv1: "tracks pl matching ts L (sview se) w1" "tracks pl matching ts L (view st) w1"
      using tracks_write [OF log e t ts run] Cons.prems(2,3) newer by auto
    have frame1: "untouched e (x # plans) ts w w1 (sview se) (sview se)"
      using effect(1) True x by (auto simp: untouched_def)
    show ?thesis
    proof (cases r1)
      case (Inl err)
      with Cons.prems(7) x True run have "se' = se" "w' = w1" "r = Raise err" by auto
      with inv1 frame1 Cons.prems(1) show ?thesis by simp
    next
      case (Inr reply)
      then have shown: "reflects matching ts w1 t e" using effect(2) by auto
      obtain se1 r2 where saved: "save se (checkpoint_from_event pl e t (clock t)) = (se1, r2)" by fastforce
      show ?thesis
      proof (cases r2)
        case (Inl err)
        note refused = save_refused [OF Cons.prems(1) t saved [unfolded Inl]]
        from Cons.prems(7) x True run Inr saved Inl have "se' = se1" "w' = w1" "r = Raise err" by auto
        with refused inv1 frame1 show ?thesis by simp
      next
        case (Inr u)
        from save_done [OF Cons.prems(1) t, of "clock t" se1] saved Inr obtain c where
          good1: "sgood st e se1" and br: "broken se1 = broken se" and
          c: "same_checkpoint (checkpoint_from_event pl e t (clock t)) c" and
          sv: "sview se1 = (sview se)(checkpoint_id pl e t \<mapsto> c)" by auto
        have seq: "tc_sequence c = v2_sequence e" using same_checkpoint_fields [OF c] by (simp add: checkpoint_from_event_def)
        have inv2: "tracks pl matching ts L (sview se1) w1"
          unfolding sv by (rule tracks_save [OF e t version c shown inv1(1)])
        have other: "checkpoint_id pl e t' \<noteq> checkpoint_id pl e t" if "(t', d') \<in> set plans" for t' d'
        proof -
          have "t' \<noteq> t" using that Cons.prems(5) x by force
          moreover have "t' \<in> set (v2_target_clusters e)" using that Cons.prems(4) by force
          ultimately show ?thesis using log_hash [OF log e e _ t] by blast
        qed
        have newer1: "\<forall>t'. (t', Apply) \<in> set plans \<longrightarrow> newer pl (sview se1) e t' \<and> newer pl (view st) e t'"
          using Cons.prems(6) other by (auto simp: newer_def sv)
        have run1: "apply_targets ts save pl clock False e se1 w1 plans = (se', w', r)"
          using Cons.prems(7) x True run \<open>r1 = _\<close> saved Inr by simp
        from Cons.IH [OF good1 inv2 inv1(2) _ _ newer1 run1] Cons.prems(4,5)
        have IH: "sgood st e se'" "tracks pl matching ts L (sview se') w'" "tracks pl matching ts L (view st) w'"
          "untouched e plans ts w1 w' (sview se1) (sview se')"
          "r = Ok () \<longrightarrow> broken se' = broken se1 \<and> finished matching ts e plans w' (sview se')" by auto
        have still: "reflects matching ts w' t e \<and> sview se' (checkpoint_id pl e t) = Some c"
        proof -
          have "ts_get ts w' t (id_collection (v2_identity e)) (id_document_id (v2_identity e)) =
              ts_get ts w1 t (id_collection (v2_identity e)) (id_document_id (v2_identity e))"
            using IH(4) Cons.prems(5) x by (force simp: untouched_def)
          moreover have "sview se' (checkpoint_id pl e t) = sview se1 (checkpoint_id pl e t)"
            using IH(4) other by (metis untouched_def)
          ultimately show ?thesis using shown reflects_frame [of ts w' t e w1 matching] by (simp add: sv)
        qed
        have "untouched e (x # plans) ts w w' (sview se) (sview se')"
          using frame1 IH(4) True x by (auto simp: untouched_def sv)
        moreover have "finished matching ts e (x # plans) w' (sview se')" if "r = Ok ()"
          using IH(5) that still seq x by (auto simp: finished_def)
        ultimately show ?thesis using IH br by blast
      qed
    qed
  qed
qed

lemma newest_not_stale:
  assumes log: "log_ok pl L" and new: "newest L e" and t: "t \<in> set (v2_target_clusters e)"
    and inv: "tracks pl matching ts L v w"
  shows "classify_event pl e (v (checkpoint_id pl e t)) \<noteq> Ok StaleEvent"
proof
  assume "classify_event pl e (v (checkpoint_id pl e t)) = Ok StaleEvent"
  from classify_Stale [OF this] obtain c where c: "v (checkpoint_id pl e t) = Some c" "v2_sequence e < tc_sequence c" by blast
  with inv obtain e0 t0 where e0: "e0 \<in> L" "t0 \<in> set (v2_target_clusters e0)" "checkpoint_id pl e t = checkpoint_id pl e0 t0"
    "tc_sequence c = v2_sequence e0" unfolding tracks_def tracked_def by blast
  have "e \<in> L" using new by (simp add: newest_def)
  from log_hash [OF log this e0(1) t e0(2,3)] have "v2_identity e0 = v2_identity e" by simp
  with new e0(1,4) c(2) show False by (auto simp: newest_def)
qed

lemma duplicate_reflects:
  assumes log: "log_ok pl L" and new: "newest L e" and t: "t \<in> set (v2_target_clusters e)"
    and inv: "tracks pl matching ts L v w" and dup: "classify_event pl e (v (checkpoint_id pl e t)) = Ok Duplicate"
  shows "reflects matching ts w t e \<and> (\<exists>c. v (checkpoint_id pl e t) = Some c \<and> tc_sequence c = v2_sequence e)"
proof -
  from classify_Duplicate [OF dup] obtain c where c: "v (checkpoint_id pl e t) = Some c" "tc_sequence c = v2_sequence e" by blast
  with inv obtain e0 t0 e1 where e0: "e0 \<in> L" "t0 \<in> set (v2_target_clusters e0)" "checkpoint_id pl e t = checkpoint_id pl e0 t0"
    "tc_sequence c = v2_sequence e0" and e1: "e1 \<in> L" "v2_identity e1 = v2_identity e0" "v2_sequence e0 \<le> v2_sequence e1"
    "reflects matching ts w t0 e1" unfolding tracks_def tracked_def by blast
  have e: "e \<in> L" using new by (simp add: newest_def)
  from log_hash [OF log e e0(1) t e0(2,3)] have same: "v2_identity e0 = v2_identity e" "t = t0" by simp_all
  then have "v2_sequence e1 = v2_sequence e" using new e1 c(2) e0(4) by (force simp: newest_def)
  with log_sequence [OF log e1(1) e] e1(2) same have "e1 = e" by simp
  with e1(4) same c show ?thesis by simp
qed

lemma untouched_settled:
  assumes log: "log_ok pl L" and e: "e \<in> L" and new: "newest L f" and old: "settled pl matching ts v w f"
    and plan_newer: "\<forall>t. (t, Apply) \<in> set plans \<longrightarrow> t \<in> set (v2_target_clusters e) \<and> newer pl v e t"
    and un: "untouched e plans ts w w' v v'"
  shows "settled pl matching ts v' w' f" and "settled pl matching ts v w' f"
proof -
  have f: "f \<in> L" using new by (simp add: newest_def)
  have both: "reflects matching ts w' t f \<and> v' (checkpoint_id pl f t) = v (checkpoint_id pl f t)"
    if t: "t \<in> set (v2_target_clusters f)" for t
  proof -
    from old t obtain c where c: "v (checkpoint_id pl f t) = Some c" "tc_sequence c = v2_sequence f" and
      shown: "reflects matching ts w t f" by (auto simp: settled_def)
    have apart: "False" if "(t', Apply) \<in> set plans" "v2_identity f = v2_identity e" "t = t'" for t'
    proof -
      have "checkpoint_id pl e t = checkpoint_id pl f t" using that(2) by (simp add: checkpoint_id_def)
      then have "tc_sequence c < v2_sequence e" using plan_newer that c(1) by (auto simp: newer_def)
      with c(2) new e that(2) show False by (auto simp: newest_def)
    qed
    have "ts_get ts w' t (id_collection (v2_identity f)) (id_document_id (v2_identity f)) =
        ts_get ts w t (id_collection (v2_identity f)) (id_document_id (v2_identity f))"
    proof -
      have "(t, id_collection (v2_identity f), id_document_id (v2_identity f)) \<noteq> (t', event_place e)"
        if "(t', Apply) \<in> set plans" for t'
      proof
        assume eq: "(t, id_collection (v2_identity f), id_document_id (v2_identity f)) = (t', event_place e)"
        then have "event_place f = event_place e" by (simp add: event_place_def)
        from apart [OF that log_place [OF log f e this]] eq show False by simp
      qed
      then show ?thesis using un unfolding untouched_def by blast
    qed
    moreover have "v' (checkpoint_id pl f t) = v (checkpoint_id pl f t)"
    proof -
      have "checkpoint_id pl f t \<noteq> checkpoint_id pl e t'" if "(t', Apply) \<in> set plans" for t'
      proof
        have t': "t' \<in> set (v2_target_clusters e)" using plan_newer that by blast
        assume "checkpoint_id pl f t = checkpoint_id pl e t'"
        from log_hash [OF log f e t t' this] apart [OF that] show False by blast
      qed
      then show ?thesis using un unfolding untouched_def by blast
    qed
    ultimately show ?thesis using reflects_frame [of ts w' t f w matching] shown by simp
  qed
  with old show "settled pl matching ts v' w' f" "settled pl matching ts v w' f" by (auto simp: settled_def)
qed

lemma process_v2_spec:
  assumes log: "log_ok pl L" and e: "e \<in> L" and ts: "typesense_contract matching ts"
    and good: "sgood st e se" and fresh: "sview se = view st" and inv: "tracks pl matching ts L (view st) w"
    and run: "process_v2_event ts load save pl clock clients e se w = (se', w', r)"
  shows "sgood st e se' \<and> tracks pl matching ts L (sview se') w' \<and> tracks pl matching ts L (view st) w'"
    and "newest L f \<Longrightarrow> settled pl matching ts (view st) w f \<Longrightarrow>
      settled pl matching ts (sview se') w' f \<and> settled pl matching ts (view st) w' f"
    and "r = Ok x \<Longrightarrow> newest L e \<Longrightarrow> broken se' = broken se \<and> settled pl matching ts (sview se') w' e"
proof -
  have all: "(sgood st e se' \<and> tracks pl matching ts L (sview se') w' \<and> tracks pl matching ts L (view st) w') \<and>
    (\<forall>f. newest L f \<longrightarrow> settled pl matching ts (view st) w f \<longrightarrow>
      settled pl matching ts (sview se') w' f \<and> settled pl matching ts (view st) w' f) \<and>
    (\<forall>x. r = Ok x \<longrightarrow> newest L e \<longrightarrow> broken se' = broken se \<and> settled pl matching ts (sview se') w' e)"
  proof (cases "plan_targets load pl clients se e (v2_target_clusters e)")
    case (Inl err)
    with run have "se' = se" "w' = w" "r = Raise err" by (auto simp: process_v2_event_def)
    with good fresh inv show ?thesis by simp
  next
    case (Inr plans)
    note plan = plan_targets_spec [OF good subset_refl Inr]
    have decided: "t \<in> set (v2_target_clusters e) \<and> classify_event pl e (view st (checkpoint_id pl e t)) = Ok d"
      if "(t, d) \<in> set plans" for t d
    proof -
      have "t \<in> set (map fst plans)" using that by force
      with plan that show ?thesis by (auto simp: fresh)
    qed
    have newer: "\<forall>t. (t, Apply) \<in> set plans \<longrightarrow> newer pl (view st) e t" using decided classify_Apply by blast
    obtain se1 w1 r1 where loop: "apply_targets ts save pl clock (StaleEvent \<in> snd ` set plans) e se w plans = (se1, w1, r1)"
      by (metis prod_cases3)
    have res: "se' = se1 \<and> w' = w1 \<and> (\<forall>x. r = Ok x \<longrightarrow> r1 = Ok ())"
      using run Inr loop by (auto simp: process_v2_event_def Let_def split: sum.splits)
    show ?thesis
    proof (cases "StaleEvent \<in> snd ` set plans")
      case True
      then have same: "se1 = se" "w1 = w" using loop apply_targets_suppressed [of ts clock e se w plans] by auto
      obtain t where "(t, StaleEvent) \<in> set plans" using True by auto
      with decided newest_not_stale [OF log _ _ inv] have "\<not> newest L e" by blast
      with same res good fresh inv show ?thesis by simp
    next
      case False
      have d: "distinct (map fst plans)" "set (map fst plans) \<subseteq> set (v2_target_clusters e)"
        using plan log_event [OF log e] by auto
      have loop0: "apply_targets ts save pl clock False e se w plans = (se1, w1, r1)" using loop False by simp
      have invs: "tracks pl matching ts L (sview se) w" using inv by (simp add: fresh)
      have newers: "\<forall>t. (t, Apply) \<in> set plans \<longrightarrow> newer pl (sview se) e t \<and> newer pl (view st) e t"
        using newer by (simp add: fresh)
      from apply_targets_spec [OF log e ts good invs inv d(2,1) newers loop0]
      have spec: "sgood st e se1" "tracks pl matching ts L (sview se1) w1" "tracks pl matching ts L (view st) w1"
        "untouched e plans ts w w1 (view st) (sview se1)"
        "r1 = Ok () \<longrightarrow> broken se1 = broken se \<and> finished matching ts e plans w1 (sview se1)"
        by (simp_all add: fresh)
      have keep: "settled pl matching ts (sview se1) w1 f \<and> settled pl matching ts (view st) w1 f"
        if "newest L f" "settled pl matching ts (view st) w f" for f
        using untouched_settled [OF log e that _ spec(4)] decided newer by blast
      have "settled pl matching ts (sview se1) w1 e" if ok: "r1 = Ok ()" and new: "newest L e"
        unfolding settled_def
      proof
        fix t assume t: "t \<in> set (v2_target_clusters e)"
        then obtain d where d: "(t, d) \<in> set plans" using plan by (metis (no_types, lifting) imageE list.set_map prod.collapse)
        show "reflects matching ts w1 t e \<and> (\<exists>c. sview se1 (checkpoint_id pl e t) = Some c \<and> tc_sequence c = v2_sequence e)"
        proof (cases d)
          case Apply
          with spec(5) ok d show ?thesis by (auto simp: finished_def)
        next
          case StaleEvent
          with False d show ?thesis by force
        next
          case Duplicate
          with decided d have dup: "classify_event pl e (view st (checkpoint_id pl e t)) = Ok Duplicate" by blast
          note shown = duplicate_reflects [OF log new t inv dup]
          have other: "\<not> (t, Apply) \<in> set plans" using decided dup by fastforce
          have "ts_get ts w1 t (id_collection (v2_identity e)) (id_document_id (v2_identity e)) =
              ts_get ts w t (id_collection (v2_identity e)) (id_document_id (v2_identity e))"
            using spec(4) other unfolding untouched_def by blast
          moreover have "sview se1 (checkpoint_id pl e t) = view st (checkpoint_id pl e t)"
          proof -
            have "checkpoint_id pl e t \<noteq> checkpoint_id pl e t'" if "(t', Apply) \<in> set plans" for t'
            proof
              have t': "t' \<in> set (v2_target_clusters e)" using decided that by blast
              assume "checkpoint_id pl e t = checkpoint_id pl e t'"
              from log_hash [OF log e e t t' this] that other show False by blast
            qed
            then show ?thesis using spec(4) unfolding untouched_def by blast
          qed
          ultimately show ?thesis using shown reflects_frame [of ts w1 t e w matching] by simp
        qed
      qed
      with spec keep res show ?thesis by blast
    qed
  qed
  then show "sgood st e se' \<and> tracks pl matching ts L (sview se') w' \<and> tracks pl matching ts L (view st) w'"
    and "newest L f \<Longrightarrow> settled pl matching ts (view st) w f \<Longrightarrow>
      settled pl matching ts (sview se') w' f \<and> settled pl matching ts (view st) w' f"
    and "r = Ok x \<Longrightarrow> newest L e \<Longrightarrow> broken se' = broken se \<and> settled pl matching ts (sview se') w' e" by blast+
qed

section \<open>One delivery, and many\<close>

lemma deliver_spec:
  assumes log: "log_ok pl L" and e: "dl_event d \<in> L" and ts: "typesense_contract matching ts"
    and good: "good (fst s)" and inv: "tracks pl matching ts L (view (fst s)) (snd s)"
    and run: "deliver ts opens load save close pl s d = (s', r)"
  shows "good (fst s') \<and> tracks pl matching ts L (view (fst s')) (snd s')"
    and "newest L f \<Longrightarrow> settled pl matching ts (view (fst s)) (snd s) f \<Longrightarrow>
      settled pl matching ts (view (fst s')) (snd s') f"
    and "r = Ok x \<Longrightarrow> newest L (dl_event d) \<Longrightarrow> settled pl matching ts (view (fst s')) (snd s') (dl_event d)"
proof -
  let ?e = "dl_event d"
  obtain st w where s: "s = (st, w)" by fastforce
  obtain se1 w1 r1 where body: "process_v2_event ts load save pl (dl_clock d) (dl_clients d) ?e (opens st ?e) w = (se1, w1, r1)"
    by (metis prod_cases3)
  obtain st2 c where closing: "close se1 = (st2, c)" by fastforce
  have good0: "good st" and inv0: "tracks pl matching ts L (view st) w" using good inv by (simp_all add: s)
  note opened = opened [OF good0, of ?e]
  have sg: "sgood st ?e (opens st ?e)" and fresh: "sview (opens st ?e) = view st" and nb: "\<not> broken (opens st ?e)"
    using opened by simp_all
  note body_spec = process_v2_spec [OF log e ts sg fresh inv0 body]
  have cl: "good st2 \<and> (view st2 = sview se1 \<or> view st2 = view st) \<and> (c = Ok () \<longrightarrow> \<not> broken se1 \<longrightarrow> view st2 = sview se1)"
    using closed closing body_spec(1) by blast
  consider (Unopened) "dl_fault d \<in> {FenceTimeout, FenceFailed}" "s' = (st, w)" "\<nexists>x. r = Ok x"
    | (Lost) "s' = (st, w1)" "\<nexists>x. r = Ok x"
    | (Closed) "s' = (st2, w1)" "\<And>x. r = Ok x \<Longrightarrow> r1 = Ok x \<and> c = Ok ()"
    using run body closing
    by (cases "dl_fault d") (auto simp: deliver_def process_v2_with_checkpoint_def event_scope_def s split: sum.splits)
  then have all: "(good (fst s') \<and> tracks pl matching ts L (view (fst s')) (snd s')) \<and>
    (newest L f \<longrightarrow> settled pl matching ts (view (fst s)) (snd s) f \<longrightarrow> settled pl matching ts (view (fst s')) (snd s') f) \<and>
    (r = Ok x \<longrightarrow> newest L ?e \<longrightarrow> settled pl matching ts (view (fst s')) (snd s') ?e)"
  proof cases
    case Unopened
    then show ?thesis using good0 inv0 by (simp add: s)
  next
    case Lost
    then show ?thesis using good0 body_spec(1,2) by (simp add: s)
  next
    case Closed
    have "settled pl matching ts (view st2) w1 ?e" if "r = Ok x" "newest L ?e"
      using body_spec(3) [of x] Closed(2) [OF that(1)] that(2) cl nb by auto
    moreover have "settled pl matching ts (view st2) w1 f" if "newest L f" "settled pl matching ts (view st) w f"
      using body_spec(2) [OF that] cl by auto
    moreover have "tracks pl matching ts L (view st2) w1" using body_spec(1) cl by auto
    ultimately show ?thesis using cl Closed(1) by (simp add: s)
  qed
  then show "good (fst s') \<and> tracks pl matching ts L (view (fst s')) (snd s')"
    and "newest L f \<Longrightarrow> settled pl matching ts (view (fst s)) (snd s) f \<Longrightarrow>
      settled pl matching ts (view (fst s')) (snd s') f"
    and "r = Ok x \<Longrightarrow> newest L ?e \<Longrightarrow> settled pl matching ts (view (fst s')) (snd s') ?e" by blast+
qed

lemma deliver_all_inv:
  assumes log: "log_ok pl L" and ts: "typesense_contract matching ts" and "\<forall>d \<in> set ds. dl_event d \<in> L"
    and "good (fst s)" and "tracks pl matching ts L (view (fst s)) (snd s)"
  shows "good (fst (deliver_all ts opens load save close pl s ds)) \<and>
    tracks pl matching ts L (view (fst (deliver_all ts opens load save close pl s ds))) (snd (deliver_all ts opens load save close pl s ds)) \<and>
    (newest L f \<longrightarrow> settled pl matching ts (view (fst s)) (snd s) f \<longrightarrow>
      settled pl matching ts (view (fst (deliver_all ts opens load save close pl s ds))) (snd (deliver_all ts opens load save close pl s ds)) f)"
  using assms(3-)
proof (induction ds arbitrary: s)
  case Nil
  then show ?case by (simp add: deliver_all_def)
next
  case (Cons d ds)
  obtain s1 r where step: "deliver ts opens load save close pl s d = (s1, r)" by fastforce
  have e: "dl_event d \<in> L" using Cons.prems(1) by simp
  note spec = deliver_spec [OF log e ts Cons.prems(2,3) step]
  have "deliver_all ts opens load save close pl s (d # ds) = deliver_all ts opens load save close pl s1 ds"
    by (simp add: deliver_all_def step)
  with Cons.IH [of s1] Cons.prems(1) spec(1,2) show ?case by simp
qed

lemma newest_processed_settled:
  assumes log: "log_ok pl L" and ts: "typesense_contract matching ts"
    and events: "\<forall>d \<in> set (before @ d # later). dl_event d \<in> L"
    and start: "good st" "view st = (\<lambda>_. None)" and new: "newest L (dl_event d)"
    and ok: "snd (deliver ts opens load save close pl (deliver_all ts opens load save close pl (st, w) before) d) = Ok x"
  shows "settled pl matching ts (view (fst (deliver_all ts opens load save close pl (st, w) (before @ d # later))))
    (snd (deliver_all ts opens load save close pl (st, w) (before @ d # later))) (dl_event d)"
proof -
  have "tracks pl matching ts L (view st) w" using start(2) by (simp add: tracks_def)
  with deliver_all_inv [OF log ts, of before "(st, w)"] events start(1) have
    before: "good (fst (deliver_all ts opens load save close pl (st, w) before))"
    "tracks pl matching ts L (view (fst (deliver_all ts opens load save close pl (st, w) before)))
      (snd (deliver_all ts opens load save close pl (st, w) before))" by auto
  obtain s1 r where step: "deliver ts opens load save close pl (deliver_all ts opens load save close pl (st, w) before) d = (s1, r)"
    by fastforce
  have e: "dl_event d \<in> L" using events by simp
  note spec = deliver_spec [OF log e ts before step]
  have "settled pl matching ts (view (fst s1)) (snd s1) (dl_event d)" using spec(3) ok step new by simp
  moreover have "deliver_all ts opens load save close pl (st, w) (before @ d # later) = deliver_all ts opens load save close pl s1 later"
    by (simp add: deliver_all_def) (simp add: step deliver_all_def [symmetric])
  ultimately show ?thesis using deliver_all_inv [OF log ts, of later s1 "dl_event d"] spec(1) events new by simp
qed

end

section \<open>Properties\<close>


text \<open>A cluster that never fails, and a document that is written and then deleted.\<close>

definition sample_typesense :: "(string \<times> string \<times> string \<Rightarrow> document option) typesense" where
  "sample_typesense =
     \<lparr>ts_upsert = (\<lambda>w t c d. (w((t, c, case jget d ''id'' of JStr i \<Rightarrow> i | _ \<Rightarrow> []) \<mapsto> d), True)),
      ts_delete = (\<lambda>w t c i f. (w((t, c, i) := None), if w (t, c, i) = None then ObjectNotFound else Deleted 1)),
      ts_get = (\<lambda>w t c i. w (t, c, i))\<rparr>"

lemma sample_typesense_contract: "typesense_contract (\<lambda>_ _. True) sample_typesense"
  by (auto simp: typesense_contract_def sample_typesense_def split: option.splits)

definition sample_hash :: platform where
  "sample_hash = \<lparr>sha256 = (\<lambda>_. replicate 64 (CHR ''0'')), float_text = (\<lambda>_. []), iso_text = (\<lambda>_. [])\<rparr>"

definition sample_identity :: EventIdentity where
  "sample_identity = \<lparr>id_tenant_id = ''t'', id_collection = ''c'', id_document_id = ''d''\<rparr>"

definition sample_event :: "int \<Rightarrow> operation \<Rightarrow> document option \<Rightarrow> IndexingEventV2" where
  "sample_event n oper doc =
     \<lparr>v2_event_id = (if n = 1 then ''evt:1'' else ''evt:2''), v2_identity = sample_identity,
      v2_document_version = n, v2_sequence = n, v2_operation = oper, v2_routing_revision = 1, v2_rollout_id = None,
      v2_target_clusters = [''a''], v2_occurred_at = 0, v2_trace = \<lparr>tm_request_id = [], tm_correlation_id = [], tm_traceparent = [], tm_tracestate = []\<rparr>,
      v2_document = doc, v2_delete_filter = None\<rparr>"

definition sample_write :: IndexingEventV2 where
  "sample_write = sample_event 1 Upsert (Some [(''id'', JStr ''d'')])"

definition sample_removal :: IndexingEventV2 where
  "sample_removal = sample_event 2 Delete None"

definition sample_delivery :: "IndexingEventV2 \<Rightarrow> delivery" where
  "sample_delivery e = \<lparr>dl_event = e, dl_clients = [''a''], dl_clock = (\<lambda>_. 7), dl_fault = NoFault\<rparr>"

lemma sample_log: "log_ok sample_hash {sample_write, sample_removal}" "newest {sample_write, sample_removal} sample_removal"
  by (simp_all add: log_ok_def newest_def document_named_def event_place_def sample_write_def sample_removal_def
      sample_event_def sample_identity_def jget_def)


end
