(* ===== verification/AuditDelivery.thy ===== *)
theory AuditDelivery
  imports ControlPlane
begin

text \<open>
  \<open>query_api/app/control_plane/audit_delivery.py\<close>: the export of the audit chain to a sink,
  one cursor per destination in the table \<open>audit_delivery_checkpoints\<close>;
  \<open>audit_http_sink.py\<close> is one such sink. A method of the repository is one function over
  \<open>DeliveryDb\<close>; the statements of \<open>next_batch\<close> each see what is committed, so that its reads
  are separate arguments. A record of a batch is the row whose public document is sent.
\<close>

section \<open>Contracts\<close>

definition DESTINATION_ID :: "string \<Rightarrow> bool" where
  "DESTINATION_ID s = (case s of [] \<Rightarrow> False | c # cs \<Rightarrow> is_lower c \<and>
     matches (\<lambda>d. is_lower d \<or> is_digit d \<or> d = CHR ''.'' \<or> d = CHR ''_'' \<or> d = CHR ''-'') 0 63 cs)"

definition ERROR_CODE :: "string \<Rightarrow> bool" where
  "ERROR_CODE s = (case s of [] \<Rightarrow> False | c # cs \<Rightarrow> is_lower c \<and>
     matches (\<lambda>d. is_lower d \<or> is_digit d \<or> d = CHR ''_'') 0 63 cs)"

datatype delivery_error =
    AuditDeliveryError string
  | AuditDeliveryIntegrityError string
  | DeliveryValueError string          \<comment> \<open>\<open>ValueError\<close>\<close>
  | DeliveryRowRefused                 \<comment> \<open>a column's range\<close>

definition validate_destination_id :: "string \<Rightarrow> delivery_error + string" where
  "validate_destination_id v =
     (let c = strip v in if DESTINATION_ID c then Ok c else Raise (DeliveryValueError ''destination_id''))"

definition validate_error_code :: "string \<Rightarrow> delivery_error + string" where
  "validate_error_code v =
     (let c = strip v in if ERROR_CODE c then Ok c else Raise (DeliveryValueError ''error code''))"

record AuditDeliveryCheckpoint =
  ac_destination_id :: string
  ac_last_sequence :: int
  ac_last_event_hash :: string
  ac_last_success_at :: "time option"
  ac_failure_attempts :: int
  ac_last_error_code :: "string option"
  ac_next_retry_at :: "time option"

record AuditDeliveryBatch =
  ab_destination_id :: string
  ab_after_sequence :: int
  ab_previous_hash :: string
  ab_records :: "AuditRow list"
  ab_head_sequence :: int
  ab_head_hash :: string
  ab_deferred_until :: "time option"

definition batch_last_sequence :: "AuditDeliveryBatch \<Rightarrow> int" where
  "batch_last_sequence b = (if ab_records b \<noteq> [] then ar_sequence (last (ab_records b)) else ab_after_sequence b)"

definition batch_last_event_hash :: "AuditDeliveryBatch \<Rightarrow> string" where
  "batch_last_event_hash b = (if ab_records b \<noteq> [] then ar_event_hash (last (ab_records b)) else ab_previous_hash b)"

record AuditDeliveryAck =
  ak_destination_id :: string
  ak_last_sequence :: int
  ak_last_event_hash :: string

record AuditDeliveryStats =
  as_destinations :: int
  as_head_sequence :: int
  as_max_backlog :: int
  as_failed_destinations :: int

section \<open>The repository\<close>

record DeliveryRow =
  dc_last_sequence :: int
  dc_last_event_hash :: string
  dc_last_success_at :: "time option"
  dc_failure_attempts :: int
  dc_last_failure_at :: "time option"
  dc_last_error_code :: "string option"
  dc_next_retry_at :: "time option"
  dc_created_at :: time
  dc_updated_at :: time

record DeliveryDb =
  dv_chain :: ControlPlaneDb
  dv_rows :: "(string, DeliveryRow) pydict"     \<comment> \<open>by \<open>destination_id\<close>\<close>

definition checkpoint_of :: "string \<Rightarrow> DeliveryRow \<Rightarrow> AuditDeliveryCheckpoint" where
  "checkpoint_of d r =
     \<lparr>ac_destination_id = d, ac_last_sequence = dc_last_sequence r, ac_last_event_hash = dc_last_event_hash r,
      ac_last_success_at = dc_last_success_at r, ac_failure_attempts = dc_failure_attempts r,
      ac_last_error_code = dc_last_error_code r, ac_next_retry_at = dc_next_retry_at r\<rparr>"

definition fresh_destination :: "time \<Rightarrow> DeliveryRow" where
  "fresh_destination now =
     \<lparr>dc_last_sequence = 0, dc_last_event_hash = ZERO_AUDIT_HASH, dc_last_success_at = None,
      dc_failure_attempts = 0, dc_last_failure_at = None, dc_last_error_code = None, dc_next_retry_at = None,
      dc_created_at = now, dc_updated_at = now\<rparr>"

definition get_checkpoint :: "DeliveryDb \<Rightarrow> string \<Rightarrow> delivery_error + AuditDeliveryCheckpoint" where
  "get_checkpoint db dest =
     ebind (validate_destination_id dest) (\<lambda>d.
       case dget (dv_rows db) d of
         None \<Rightarrow> Raise (AuditDeliveryError ''not registered'')
       | Some r \<Rightarrow> Ok (checkpoint_of d r))"

text \<open>\<open>INSERT ... ON CONFLICT DO NOTHING\<close>, then the checkpoint is read.\<close>

definition ensure_destination ::
  "DeliveryDb \<Rightarrow> string \<Rightarrow> time \<Rightarrow> delivery_error + DeliveryDb \<times> AuditDeliveryCheckpoint" where
  "ensure_destination db dest now =
     ebind (validate_destination_id dest) (\<lambda>d.
       let db' = (if d \<in> set (dkeys (dv_rows db)) then db
                  else db\<lparr>dv_rows := dv_rows db @ [(d, fresh_destination now)]\<rparr>) in
       ebind (get_checkpoint db' d) (\<lambda>c. Ok (db', c)))"

definition chain_row :: "AuditRow list \<Rightarrow> int \<Rightarrow> AuditRow option" where
  "chain_row rows n = find (\<lambda>r. ar_sequence r = n) rows"

definition verify_checkpoint_boundary :: "AuditRow list \<Rightarrow> AuditDeliveryCheckpoint \<Rightarrow> delivery_error + unit" where
  "verify_checkpoint_boundary rows c =
     (if ac_last_sequence c = 0
      then require (ac_last_event_hash c = ZERO_AUDIT_HASH) (AuditDeliveryIntegrityError ''initial checkpoint'')
      else case chain_row rows (ac_last_sequence c) of
        None \<Rightarrow> Raise (AuditDeliveryIntegrityError ''not in audit chain'')
      | Some r \<Rightarrow> require (ar_event_hash r = ac_last_event_hash c) (AuditDeliveryIntegrityError ''not in audit chain''))"

fun verify_page :: "platform \<Rightarrow> AuditRow list \<Rightarrow> int \<Rightarrow> string \<Rightarrow> delivery_error + unit" where
  "verify_page pl [] n prev = Ok ()"
| "verify_page pl (r # rs) n prev =
     (if ar_sequence r \<noteq> n then Raise (AuditDeliveryIntegrityError ''sequence gap'')
      else if ar_previous_hash r \<noteq> prev then Raise (AuditDeliveryIntegrityError ''hash link'')
      else case row_material pl r of
        None \<Rightarrow> Raise (DeliveryValueError ''audit.details'')
      | Some m \<Rightarrow>
          if audit_event_hash pl m \<noteq> ar_event_hash r then Raise (AuditDeliveryIntegrityError ''event hash'')
          else verify_page pl rs (n + 1) (ar_event_hash r))"

text \<open>\<open>next_batch\<close> behind its read of the checkpoint: the head, the boundary and the page.\<close>

definition batch_from ::
  "platform \<Rightarrow> AuditDeliveryCheckpoint \<Rightarrow> ControlPlaneDb \<Rightarrow> ControlPlaneDb \<Rightarrow> int \<Rightarrow> time
   \<Rightarrow> delivery_error + AuditDeliveryBatch" where
  "batch_from pl c at_head at_rows limit now =
     (case audit_head at_head of
        None \<Rightarrow> Raise (AuditDeliveryIntegrityError ''head missing'')
      | Some (head_sequence, head_hash) \<Rightarrow>
          ebind (verify_checkpoint_boundary (audit_rows at_rows) c) (\<lambda>_.
            let batch = \<lparr>ab_destination_id = ac_destination_id c, ab_after_sequence = ac_last_sequence c,
                  ab_previous_hash = ac_last_event_hash c, ab_records = [], ab_head_sequence = head_sequence,
                  ab_head_hash = head_hash, ab_deferred_until = None\<rparr> in
            if (case ac_next_retry_at c of Some t \<Rightarrow> now < t | None \<Rightarrow> False)
            then Ok (batch\<lparr>ab_deferred_until := ac_next_retry_at c\<rparr>)
            else
              let records = take (nat limit)
                    (by_sequence (filter (\<lambda>r. ac_last_sequence c < ar_sequence r) (audit_rows at_rows))) in
              if ac_last_sequence c < head_sequence \<and> records = []
              then Raise (AuditDeliveryIntegrityError ''unresolvable gap'')
              else ebind (verify_page pl records (ac_last_sequence c + 1) (ac_last_event_hash c)) (\<lambda>_.
                if records \<noteq> [] \<and> ar_sequence (last records) = head_sequence \<and> ar_event_hash (last records) \<noteq> head_hash
                then Raise (AuditDeliveryIntegrityError ''head hash'')
                else if head_sequence < ac_last_sequence c then Raise (AuditDeliveryIntegrityError ''head behind'')
                else Ok (batch\<lparr>ab_records := records\<rparr>))))"

definition next_batch ::
  "platform \<Rightarrow> DeliveryDb \<Rightarrow> ControlPlaneDb \<Rightarrow> ControlPlaneDb \<Rightarrow> string \<Rightarrow> int \<Rightarrow> time
   \<Rightarrow> delivery_error + AuditDeliveryBatch" where
  "next_batch pl db at_head at_rows dest limit now =
     (if limit < 1 \<or> 5000 < limit then Raise (DeliveryValueError ''limit'')
      else ebind (get_checkpoint db dest) (\<lambda>c. batch_from pl c at_head at_rows limit now))"

definition acknowledged_row :: "AuditDeliveryAck \<Rightarrow> time \<Rightarrow> DeliveryRow \<Rightarrow> DeliveryRow" where
  "acknowledged_row ack now r = r\<lparr>dc_last_sequence := ak_last_sequence ack,
     dc_last_event_hash := ak_last_event_hash ack, dc_last_success_at := Some now,
     dc_failure_attempts := 0, dc_last_failure_at := None, dc_last_error_code := None,
     dc_next_retry_at := None, dc_updated_at := now\<rparr>"

text \<open>The row is locked, so the guarded update finds the sequence it has read.\<close>

definition advance :: "DeliveryDb \<Rightarrow> AuditDeliveryAck \<Rightarrow> time \<Rightarrow> delivery_error + DeliveryDb \<times> bool" where
  "advance db ack now =
     ebind (validate_destination_id (ak_destination_id ack)) (\<lambda>d.
       if ak_last_sequence ack < 1 \<or> \<not> matches is_hex 64 64 (ak_last_event_hash ack)
       then Raise (AuditDeliveryIntegrityError ''malformed acknowledgement'')
       else case dget (dv_rows db) d of
         None \<Rightarrow> Raise (AuditDeliveryError ''not registered'')
       | Some r \<Rightarrow>
           if ak_last_sequence ack \<le> dc_last_sequence r
           then Ok (db, ak_last_sequence ack = dc_last_sequence r \<and> ak_last_event_hash ack = dc_last_event_hash r)
           else (case chain_row (audit_rows (dv_chain db)) (ak_last_sequence ack) of
             None \<Rightarrow> Raise (AuditDeliveryIntegrityError ''not an audit boundary'')
           | Some row \<Rightarrow>
               if ar_event_hash row \<noteq> ak_last_event_hash ack
               then Raise (AuditDeliveryIntegrityError ''not an audit boundary'')
               else Ok (db\<lparr>dv_rows := dput d (acknowledged_row ack now r) (dv_rows db)\<rparr>, True)))"

definition failed_row :: "string \<Rightarrow> time \<Rightarrow> time \<Rightarrow> DeliveryRow \<Rightarrow> DeliveryRow" where
  "failed_row code retry_at now r = r\<lparr>dc_failure_attempts := dc_failure_attempts r + 1,
     dc_last_failure_at := Some now, dc_last_error_code := Some code,
     dc_next_retry_at := Some retry_at, dc_updated_at := now\<rparr>"

definition record_failure ::
  "DeliveryDb \<Rightarrow> string \<Rightarrow> string \<Rightarrow> time \<Rightarrow> time \<Rightarrow> delivery_error + DeliveryDb" where
  "record_failure db dest code retry_at now =
     ebind (validate_destination_id dest) (\<lambda>d.
     ebind (validate_error_code code) (\<lambda>c.
       if retry_at \<le> now then Raise (DeliveryValueError ''retry_at'')
       else case dget (dv_rows db) d of
         None \<Rightarrow> Raise (AuditDeliveryError ''not registered'')
       | Some r \<Rightarrow>
           if dc_failure_attempts r + 1 \<ge> 2 ^ 31 then Raise DeliveryRowRefused
           else Ok (db\<lparr>dv_rows := dput d (failed_row c retry_at now r) (dv_rows db)\<rparr>)))"

text \<open>\<open>int(rows["minimum"] or head)\<close>: a minimum of zero is falsy.\<close>

definition delivery_stats :: "DeliveryDb \<Rightarrow> AuditDeliveryStats" where
  "delivery_stats db =
     (let head = (case audit_head (dv_chain db) of Some (n, _) \<Rightarrow> n | None \<Rightarrow> 0);
          rows = dvalues (dv_rows db);
          least = (if rows = [] then 0 else Min (set (map dc_last_sequence rows)));
          minimum = (if least \<noteq> 0 then least else head) in
      \<lparr>as_destinations = int (length rows), as_head_sequence = head,
       as_max_backlog = (if rows \<noteq> [] then max (head - minimum) 0 else 0),
       as_failed_destinations = int (length (filter (\<lambda>r. 0 < dc_failure_attempts r) rows))\<rparr>)"

section \<open>The coordinator\<close>

text \<open>What a sink does with a batch: its acknowledgement, an \<open>AuditSinkError\<close>, or any other exception.\<close>

datatype sink_reply = SinkAck AuditDeliveryAck | SinkError string | SinkUnexpected

text \<open>\<open>AuditSinkError(code)\<close> validates its code, so an invalid one is another exception.\<close>

definition sink_error_code :: "string \<Rightarrow> string" where
  "sink_error_code code =
     (case validate_error_code code of Inr c \<Rightarrow> c | Inl _ \<Rightarrow> ''sink_unexpected_error'')"

definition coordinator_budget_ok :: "int \<Rightarrow> int \<Rightarrow> bool" where
  "coordinator_budget_ok base_seconds max_seconds \<longleftrightarrow> \<not> (base_seconds < 1 \<or> max_seconds < base_seconds)"

definition retry_delay :: "int \<Rightarrow> int \<Rightarrow> int \<Rightarrow> int" where
  "retry_delay base_seconds max_seconds attempts = min max_seconds (base_seconds * 2 ^ nat (min attempts 10))"

definition exact_ack :: "AuditDeliveryBatch \<Rightarrow> AuditDeliveryAck" where
  "exact_ack b = \<lparr>ak_destination_id = ab_destination_id b, ak_last_sequence = batch_last_sequence b,
     ak_last_event_hash = batch_last_event_hash b\<rparr>"

definition back_off ::
  "int \<Rightarrow> int \<Rightarrow> DeliveryDb \<Rightarrow> string \<Rightarrow> string \<Rightarrow> time \<Rightarrow> delivery_error + DeliveryDb" where
  "back_off base_seconds max_seconds db dest code now =
     ebind (get_checkpoint db dest) (\<lambda>c.
       record_failure db dest code
         (now + 1000000 * retry_delay base_seconds max_seconds (ac_failure_attempts c)) now)"

definition deliver_once ::
  "platform \<Rightarrow> int \<Rightarrow> int \<Rightarrow> (AuditDeliveryBatch \<Rightarrow> sink_reply) \<Rightarrow> string \<Rightarrow> int \<Rightarrow> time \<Rightarrow> DeliveryDb
   \<Rightarrow> DeliveryDb \<times> (delivery_error + AuditDeliveryCheckpoint)" where
  "deliver_once pl base_seconds max_seconds sink dest limit now db =
     (case ensure_destination db dest now of
        Inl e \<Rightarrow> (db, Raise e)
      | Inr (db1, _) \<Rightarrow>
          (case next_batch pl db1 (dv_chain db1) (dv_chain db1) dest limit now of
             Inl e \<Rightarrow> (db1, Raise e)
           | Inr b \<Rightarrow>
               if ab_records b = [] \<or> ab_deferred_until b \<noteq> None then (db1, get_checkpoint db1 dest)
               else
                 let fail = (\<lambda>code. case back_off base_seconds max_seconds db1 dest code now of
                       Inl e \<Rightarrow> (db1, Raise e) | Inr db2 \<Rightarrow> (db2, get_checkpoint db2 dest)) in
                 case sink b of
                   SinkAck ack \<Rightarrow>
                     if ack \<noteq> exact_ack b then fail ''sink_ack_mismatch''
                     else (case advance db1 ack now of
                       Inl _ \<Rightarrow> fail ''sink_unexpected_error''
                     | Inr (db2, _) \<Rightarrow> (db2, get_checkpoint db2 dest))
                 | SinkError code \<Rightarrow> fail (sink_error_code code)
                 | SinkUnexpected \<Rightarrow> fail ''sink_unexpected_error''))"

section \<open>The HTTPS sink\<close>

text \<open>
  What \<open>urlopen\<close> did: an HTTP error status, a transport failure, or a response with its
  status and its body, \<open>None\<close> when it does not decode. \<open>read_int\<close> and \<open>read_str\<close> are
  Python's \<open>int\<close> and \<open>str\<close> on a decoded value; \<open>Inl\<close> is whether the exception of
  \<open>int\<close> is one of those the sink catches.
\<close>

datatype http_outcome = HttpStatusError int | TransportError | HttpResponse int "json option"

definition http_sink_reply ::
  "(json \<Rightarrow> bool + int) \<Rightarrow> (json \<Rightarrow> string) \<Rightarrow> http_outcome \<Rightarrow> sink_reply" where
  "http_sink_reply read_int read_str outcome =
     (case outcome of
        HttpStatusError n \<Rightarrow> SinkError (if 500 \<le> n then ''sink_http_5xx'' else ''sink_http_4xx'')
      | TransportError \<Rightarrow> SinkError ''sink_transport_error''
      | HttpResponse n body \<Rightarrow>
          if \<not> (200 \<le> n \<and> n < 300) then SinkError ''sink_http_error''
          else (case body of
            Some (JObj d) \<Rightarrow>
              (case (dget d ''destination_id'', dget d ''last_sequence'') of
                 (Some dest, Some n) \<Rightarrow>
                   (case read_int n of
                      Inl caught \<Rightarrow> if caught then SinkError ''sink_invalid_ack'' else SinkUnexpected
                    | Inr i \<Rightarrow>
                        (case dget d ''last_event_hash'' of
                           Some h \<Rightarrow> SinkAck \<lparr>ak_destination_id = read_str dest, ak_last_sequence = i,
                                       ak_last_event_hash = read_str h\<rparr>
                         | None \<Rightarrow> SinkError ''sink_invalid_ack''))
               | _ \<Rightarrow> SinkError ''sink_invalid_ack'')
          | _ \<Rightarrow> SinkError ''sink_invalid_ack''))"

definition http_payload :: "platform \<Rightarrow> AuditDeliveryBatch \<Rightarrow> document" where
  "http_payload pl b =
     [(''schema'', JStr ''imposbro.audit.delivery.v1''), (''destination_id'', JStr (ab_destination_id b)),
      (''after_sequence'', JInt (ab_after_sequence b)), (''previous_hash'', JStr (ab_previous_hash b)),
      (''head_sequence'', JInt (ab_head_sequence b)), (''head_hash'', JStr (ab_head_hash b)),
      (''events'', JArr (map (\<lambda>r. JObj (public_audit_row pl r)) (ab_records b)))]"

definition http_audit_sink ::
  "platform \<Rightarrow> (json \<Rightarrow> bool + int) \<Rightarrow> (json \<Rightarrow> string) \<Rightarrow> (document \<Rightarrow> http_outcome) \<Rightarrow> AuditDeliveryBatch \<Rightarrow> sink_reply" where
  "http_audit_sink pl read_int read_str post b = http_sink_reply read_int read_str (post (http_payload pl b))"

text \<open>One pass of the worker with \<open>--once\<close>: its exit status.\<close>

definition worker_once_status :: "AuditDeliveryCheckpoint \<Rightarrow> AuditDeliveryCheckpoint \<Rightarrow> int" where
  "worker_once_status before after = (if ac_failure_attempts before < ac_failure_attempts after then 2 else 0)"

section \<open>Pages of the chain\<close>

lemma filter_after_drop:
  "map f xs = map (\<lambda>i. int (Suc i)) [0..<length xs] \<Longrightarrow> filter (\<lambda>x. k < f x) xs = drop (nat k) xs"
proof (induction xs rule: rev_induct)
  case (snoc x xs)
  from snoc.prems have xs: "map f xs = map (\<lambda>i. int (Suc i)) [0..<length xs]" and x: "f x = int (length xs) + 1"
    by simp_all
  from snoc.IH [OF xs] show ?case by (auto simp: x not_less nat_le_iff)
qed simp

lemma chain_sequences: "db_inv pl db \<Longrightarrow> map ar_sequence (audit_rows db) = map (\<lambda>i. int (Suc i)) [0..<length (audit_rows db)]"
  by (simp add: db_inv_def revisions_upto_def)

lemma chain_nth: "db_inv pl db \<Longrightarrow> i < length (audit_rows db) \<Longrightarrow> ar_sequence (audit_rows db ! i) = int i + 1"
  using chain_sequences [of pl db] by (metis (no_types, lifting) add.commute add_0 diff_zero length_map length_upt nth_map nth_upt of_nat_Suc)

lemma chain_in_range:
  assumes "db_inv pl db" and "r \<in> set (audit_rows db)"
  shows "1 \<le> ar_sequence r" and "ar_sequence r \<le> int (length (audit_rows db))"
    and "audit_rows db ! nat (ar_sequence r - 1) = r"
proof -
  from assms(2) obtain i where "i < length (audit_rows db)" "audit_rows db ! i = r" by (auto simp: in_set_conv_nth)
  with chain_nth [OF assms(1)] show "1 \<le> ar_sequence r" "ar_sequence r \<le> int (length (audit_rows db))"
    "audit_rows db ! nat (ar_sequence r - 1) = r" by fastforce+
qed

lemma page_slice:
  assumes "db_inv pl db"
  shows "by_sequence (filter (\<lambda>r. k < ar_sequence r) (audit_rows db)) = drop (nat k) (audit_rows db)"
proof -
  note slice = filter_after_drop [OF chain_sequences [OF assms], of k]
  have "sorted (map ar_sequence (audit_rows db))" using assms by (simp add: db_inv_def sorted_revisions_upto)
  then have "sorted (map ar_sequence (drop (nat k) (audit_rows db)))" by (simp add: drop_map [symmetric] sorted_wrt_drop)
  then show ?thesis by (simp add: by_sequence_def slice sort_key_id_if_sorted)
qed

lemma chain_row_nth:
  assumes "db_inv pl db" and "1 \<le> k" and "k \<le> int (length (audit_rows db))"
  shows "chain_row (audit_rows db) k = Some (audit_rows db ! nat (k - 1))"
proof -
  have "nat (k - 1) < length (audit_rows db)" using assms(2,3) by linarith
  then have x: "audit_rows db ! nat (k - 1) \<in> set (audit_rows db)" "ar_sequence (audit_rows db ! nat (k - 1)) = k"
    using chain_nth [OF assms(1)] assms(2) by auto
  then obtain r where r: "chain_row (audit_rows db) k = Some r"
    by (cases "chain_row (audit_rows db) k") (auto simp: chain_row_def find_None_iff)
  then have "r \<in> set (audit_rows db)" "ar_sequence r = k" by (auto simp: chain_row_def find_Some_iff)
  with chain_in_range(3) [OF assms(1), of r] r show ?thesis by simp
qed

lemma chain_row_Some:
  "chain_row rows k = Some r \<Longrightarrow> r \<in> set rows \<and> ar_sequence r = k"
  by (auto simp: chain_row_def find_Some_iff)

lemma verify_rows_append:
  "verify_rows pl (xs @ ys) n prev = ebind (verify_rows pl xs n prev) (verify_rows pl ys (n + int (length xs)))"
  by (induction pl xs n prev rule: verify_rows.induct) (auto split: option.splits simp: algebra_simps)

lemma verify_rows_end:
  "verify_rows pl xs n prev = Ok h \<Longrightarrow> h = (if xs = [] then prev else ar_event_hash (last xs))"
proof (induction xs arbitrary: n prev)
  case (Cons r rs)
  then have "verify_rows pl rs (n + 1) (ar_event_hash r) = Ok h" by (auto split: if_splits option.splits)
  from Cons.IH [OF this] show ?case by simp
qed simp

lemma verify_page_of_rows: "verify_rows pl xs n prev = Ok h \<Longrightarrow> verify_page pl xs n prev = Ok ()"
proof (induction xs arbitrary: n prev)
  case (Cons r rs)
  then have "verify_rows pl rs (n + 1) (ar_event_hash r) = Ok h" by (auto split: if_splits option.splits)
  from Cons.IH [OF this] Cons.prems show ?case by (auto split: if_splits option.splits)
qed simp

text \<open>A page of a coherent chain, from a boundary, passes the checks.\<close>

definition boundary_hash :: "AuditRow list \<Rightarrow> nat \<Rightarrow> string" where
  "boundary_hash rows k = (if k = 0 then ZERO_AUDIT_HASH else ar_event_hash (rows ! (k - 1)))"

lemma page_verifies:
  assumes "db_inv pl db" and "k \<le> length (audit_rows db)"
  shows "verify_page pl (take n (drop k (audit_rows db))) (int k + 1) (boundary_hash (audit_rows db) k) = Ok ()"
proof -
  let ?rows = "audit_rows db"
  from db_inv_verified [OF assms(1)] obtain h where all: "verify_rows pl ?rows 1 ZERO_AUDIT_HASH = Ok h" by blast
  have "take k ?rows @ take n (drop k ?rows) @ drop n (drop k ?rows) = ?rows"
    by (metis append_take_drop_id)
  with all have "verify_rows pl (take k ?rows @ take n (drop k ?rows) @ drop n (drop k ?rows)) 1 ZERO_AUDIT_HASH = Ok h"
    by metis
  then obtain h1 h2 where h: "verify_rows pl (take k ?rows) 1 ZERO_AUDIT_HASH = Ok h1"
    "verify_rows pl (take n (drop k ?rows)) (int k + 1) h1 = Ok h2"
    using assms(2) by (auto simp only: verify_rows_append ebind_eq_Ok length_take min_absorb2 add.commute)
  have "h1 = boundary_hash ?rows k"
    using verify_rows_end [OF h(1)] assms(2) by (cases k) (auto simp: boundary_hash_def last_conv_nth)
  with h(2) verify_page_of_rows show ?thesis by blast
qed

lemma head_is_boundary:
  "db_inv pl db \<Longrightarrow> audit_head db = Some (int (length (audit_rows db)), boundary_hash (audit_rows db) (length (audit_rows db)))"
  using db_inv_verified [of pl db] verify_rows_end
  by (fastforce simp: boundary_hash_def last_conv_nth)

section \<open>The chain grows\<close>

inductive cp_step :: "platform \<Rightarrow> ControlPlaneDb \<Rightarrow> ControlPlaneDb \<Rightarrow> bool" for pl where
  Commit: "pg_commit pl db env e st a ty pay v = Ok (db', rec) \<Longrightarrow> cp_step pl db db'"
| Audit: "pg_append_audit pl db env a rv = Ok db' \<Longrightarrow> cp_step pl db db'"
| Publish: "cp_step pl db (fst (pg_mark_outbox_published db eid t))"
| PublishFailure: "cp_step pl db (fst (pg_record_outbox_failure db eid e))"

lemma cp_step_reachable: "cp_step pl db db' \<Longrightarrow> db_reachable pl db \<Longrightarrow> db_reachable pl db'"
  by (induction rule: cp_step.induct) (auto intro: db_reachable.intros)

lemma append_audit_extends:
  "append_audit_in_transaction pl db eid a rv now = Ok db' \<Longrightarrow> \<exists>new. audit_rows db' = audit_rows db @ new"
  by (auto simp: append_audit_in_transaction_def Let_def split: option.splits if_splits)

lemma cp_step_extends: "cp_step pl db db' \<Longrightarrow> \<exists>new. audit_rows db' = audit_rows db @ new"
proof (induction rule: cp_step.induct)
  case (Commit db env e st a ty pay v db' rec)
  from pg_commit_OkD(4) [OF Commit] show ?case by (auto dest!: append_audit_extends)
next
  case (Audit db env a rv db')
  then show ?case by (auto simp: pg_append_audit_def split: if_splits dest: append_audit_extends)
qed (auto simp: pg_mark_outbox_published_def pg_record_outbox_failure_def)

section \<open>Exporters at work\<close>

text \<open>
  The chain, the cursors, and what any number of exporters have read, fetched and had accepted.
  Their reads and writes interleave with each other and with the control plane, an exporter
  may stop after any step, and a sink may accept a batch whose cursor is then never advanced.
\<close>

record export_state =
  ex_db :: DeliveryDb
  ex_read :: "AuditDeliveryCheckpoint list"
  ex_fetched :: "AuditDeliveryBatch list"
  ex_accepted :: "AuditDeliveryBatch list"

inductive export_step :: "platform \<Rightarrow> export_state \<Rightarrow> export_state \<Rightarrow> bool" for pl where
  Chain: "cp_step pl (dv_chain (ex_db s)) chain \<Longrightarrow> export_step pl s (s\<lparr>ex_db := (ex_db s)\<lparr>dv_chain := chain\<rparr>\<rparr>)"
| Register: "ensure_destination (ex_db s) dest now = Ok (db, c) \<Longrightarrow> export_step pl s (s\<lparr>ex_db := db\<rparr>)"
| Read: "get_checkpoint (ex_db s) dest = Ok c \<Longrightarrow> export_step pl s (s\<lparr>ex_read := c # ex_read s\<rparr>)"
| Fetch: "c \<in> set (ex_read s) \<Longrightarrow> batch_from pl c at_head (dv_chain (ex_db s)) limit now = Ok b \<Longrightarrow>
    export_step pl s (s\<lparr>ex_fetched := b # ex_fetched s\<rparr>)"
| Accept: "b \<in> set (ex_fetched s) \<Longrightarrow> ab_records b \<noteq> [] \<Longrightarrow> export_step pl s (s\<lparr>ex_accepted := b # ex_accepted s\<rparr>)"
| Advance: "b \<in> set (ex_accepted s) \<Longrightarrow> advance (ex_db s) (exact_ack b) now = Ok (db, changed) \<Longrightarrow>
    export_step pl s (s\<lparr>ex_db := db\<rparr>)"
| Fail: "record_failure (ex_db s) dest code retry_at now = Ok db \<Longrightarrow> export_step pl s (s\<lparr>ex_db := db\<rparr>)"

definition export_start :: export_state where
  "export_start = \<lparr>ex_db = \<lparr>dv_chain = migrated_db, dv_rows = []\<rparr>, ex_read = [], ex_fetched = [], ex_accepted = []\<rparr>"

inductive export_reachable :: "platform \<Rightarrow> export_state \<Rightarrow> bool" for pl where
  Start: "export_reachable pl export_start"
| Step: "export_reachable pl s \<Longrightarrow> export_step pl s s' \<Longrightarrow> export_reachable pl s'"

inductive_cases advance_stepE: "export_step pl s s'"

text \<open>Everything up to the cursor was accepted, and the cursor is a boundary of the chain.\<close>

definition covered :: "AuditDeliveryBatch list \<Rightarrow> AuditRow list \<Rightarrow> string \<Rightarrow> int \<Rightarrow> bool" where
  "covered accepted rows dest n \<longleftrightarrow>
     (\<forall>r \<in> set rows. ar_sequence r \<le> n \<longrightarrow> (\<exists>b \<in> set accepted. ab_destination_id b = dest \<and> r \<in> set (ab_records b)))"

definition row_inv :: "AuditDeliveryBatch list \<Rightarrow> AuditRow list \<Rightarrow> string \<Rightarrow> DeliveryRow \<Rightarrow> bool" where
  "row_inv accepted rows dest d \<longleftrightarrow> DESTINATION_ID dest \<and> 0 \<le> dc_last_sequence d \<and>
     dc_last_sequence d \<le> int (length rows) \<and> dc_last_event_hash d = boundary_hash rows (nat (dc_last_sequence d)) \<and>
     covered accepted rows dest (dc_last_sequence d)"

definition read_inv :: "(string, DeliveryRow) pydict \<Rightarrow> AuditDeliveryCheckpoint \<Rightarrow> bool" where
  "read_inv table c \<longleftrightarrow> (\<exists>d. dget table (ac_destination_id c) = Some d \<and> ac_last_sequence c \<le> dc_last_sequence d)"

definition fetched_inv :: "AuditRow list \<Rightarrow> (string, DeliveryRow) pydict \<Rightarrow> AuditDeliveryBatch \<Rightarrow> bool" where
  "fetched_inv rows table b \<longleftrightarrow>
     (\<exists>d. dget table (ab_destination_id b) = Some d \<and> ab_after_sequence b \<le> dc_last_sequence d) \<and>
     (ab_records b \<noteq> [] \<longrightarrow> batch_last_sequence b \<le> int (length rows)) \<and>
     (\<forall>r \<in> set rows. ab_after_sequence b < ar_sequence r \<and> ar_sequence r \<le> batch_last_sequence b \<longrightarrow> r \<in> set (ab_records b))"

definition export_inv :: "platform \<Rightarrow> export_state \<Rightarrow> bool" where
  "export_inv pl s \<longleftrightarrow>
     db_reachable pl (dv_chain (ex_db s)) \<and>
     (\<forall>dest d. dget (dv_rows (ex_db s)) dest = Some d \<longrightarrow>
        row_inv (ex_accepted s) (audit_rows (dv_chain (ex_db s))) dest d) \<and>
     (\<forall>c \<in> set (ex_read s). read_inv (dv_rows (ex_db s)) c) \<and>
     (\<forall>b \<in> set (ex_fetched s). fetched_inv (audit_rows (dv_chain (ex_db s))) (dv_rows (ex_db s)) b) \<and>
     set (ex_accepted s) \<subseteq> set (ex_fetched s)"

lemma destination_stripped: "DESTINATION_ID d \<Longrightarrow> validate_destination_id d = Ok d"
proof -
  assume d: "DESTINATION_ID d"
  then have "\<forall>c \<in> set d. \<not> is_space c"
    by (auto simp: DESTINATION_ID_def matches_def list_all_iff is_lower_def is_digit_def is_space_def Let_def
        less_eq_char_def split: list.splits)
  with d show ?thesis by (simp add: validate_destination_id_def strip_id)
qed

lemma validated_destination: "validate_destination_id v = Ok d \<Longrightarrow> DESTINATION_ID d"
  by (auto simp: validate_destination_id_def Let_def split: if_splits)

text \<open>What each operation does to a table of cursors.\<close>

definition rows_advance :: "(string, DeliveryRow) pydict \<Rightarrow> (string, DeliveryRow) pydict \<Rightarrow> bool" where
  "rows_advance table table' \<longleftrightarrow>
     (\<forall>dest d. dget table dest = Some d \<longrightarrow> (\<exists>d'. dget table' dest = Some d' \<and> dc_last_sequence d \<le> dc_last_sequence d'))"

lemma rows_advance_inv:
  assumes "rows_advance table table'"
  shows "read_inv table c \<Longrightarrow> read_inv table' c" and "fetched_inv rows table b \<Longrightarrow> fetched_inv rows table' b"
  using assms unfolding rows_advance_def read_inv_def fetched_inv_def by (meson order_trans)+

lemma boundary_hash_append: "k \<le> length rows \<Longrightarrow> boundary_hash (rows @ new) k = boundary_hash rows k"
  by (auto simp: boundary_hash_def nth_append)

lemma chain_growth:
  assumes "db_inv pl db'" and "audit_rows db' = audit_rows db @ new"
  shows "row_inv accepted (audit_rows db) dest d \<Longrightarrow> row_inv accepted (audit_rows db') dest d"
    and "fetched_inv (audit_rows db) table b \<Longrightarrow> fetched_inv (audit_rows db') table b"
proof -
  have new: "int (length (audit_rows db)) < ar_sequence r" if "r \<in> set new" for r
  proof -
    from that obtain i where "i < length new" "new ! i = r" by (auto simp: in_set_conv_nth)
    with chain_nth [OF assms(1), of "length (audit_rows db) + i"] assms(2) show ?thesis by simp
  qed
  show "row_inv accepted (audit_rows db') dest d" if "row_inv accepted (audit_rows db) dest d"
    using that new by (fastforce simp: row_inv_def covered_def assms(2) boundary_hash_append)
  show "fetched_inv (audit_rows db') table b" if "fetched_inv (audit_rows db) table b"
    using that new by (cases "ab_records b = []") (fastforce simp: fetched_inv_def assms(2) batch_last_sequence_def)+
qed

lemma batch_from_effect:
  assumes "db_inv pl chain" and "batch_from pl c at_head chain limit now = Ok b"
  shows "ab_destination_id b = ac_destination_id c \<and> ab_after_sequence b = ac_last_sequence c"
    and "set (ab_records b) \<subseteq> set (audit_rows chain)"
    and "r \<in> set (audit_rows chain) \<Longrightarrow> ab_after_sequence b < ar_sequence r \<Longrightarrow>
      ar_sequence r \<le> batch_last_sequence b \<Longrightarrow> r \<in> set (ab_records b)"
proof -
  let ?rows = "audit_rows chain" and ?k = "nat (ac_last_sequence c)"
  have shape: "ab_destination_id b = ac_destination_id c \<and> ab_after_sequence b = ac_last_sequence c \<and>
      (ab_records b = [] \<or> ab_records b = take (nat limit) (drop ?k ?rows))"
    using assms(2) by (auto simp: batch_from_def ebind_eq_Ok Let_def page_slice [OF assms(1)] split: option.splits if_splits prod.splits)
  then show "ab_destination_id b = ac_destination_id c \<and> ab_after_sequence b = ac_last_sequence c" by blast
  show "set (ab_records b) \<subseteq> set ?rows" using shape by (metis empty_iff empty_subsetI list.set(1) set_drop_subset set_take_subset subset_trans)
  assume r: "r \<in> set ?rows" "ab_after_sequence b < ar_sequence r" "ar_sequence r \<le> batch_last_sequence b"
  then have nonempty: "ab_records b \<noteq> []" using r by (auto simp: batch_last_sequence_def)
  then have recs: "ab_records b = take (nat limit) (drop ?k ?rows)" using shape by blast
  let ?i = "nat (ar_sequence r - 1)" and ?n = "length (ab_records b)"
  have len: "?n = min (nat limit) (length ?rows - ?k)" by (simp add: recs)
  have "0 < ?n" using nonempty by blast
  with len have last_i: "?k + (?n - 1) < length ?rows" by linarith
  have nth: "ab_records b ! j = ?rows ! (?k + j)" if "j < ?n" for j
  proof -
    have "j < nat limit" "?k \<le> length ?rows" using that len by linarith+
    then show ?thesis by (simp add: recs)
  qed
  have "last (ab_records b) = ?rows ! (?k + (?n - 1))"
    using nth [of "?n - 1"] \<open>0 < ?n\<close> unfolding last_conv_nth [OF nonempty] by linarith
  then have "batch_last_sequence b = int (?k + (?n - 1)) + 1"
    using chain_nth [OF assms(1) last_i] nonempty by (simp add: batch_last_sequence_def)
  then have upto: "ar_sequence r \<le> int (?k + (?n - 1)) + 1" using r(3) by simp
  have "ar_sequence r \<ge> 1" "?rows ! ?i = r" using chain_in_range [OF assms(1) r(1)] by blast+
  moreover have "ac_last_sequence c < ar_sequence r" using r(2) shape by simp
  ultimately have bounds: "?k \<le> ?i" "?i - ?k < ?n" using upto \<open>0 < ?n\<close> by linarith+
  then have "ab_records b ! (?i - ?k) = ?rows ! ?i" using nth [of "?i - ?k"] by simp
  with bounds \<open>?rows ! ?i = r\<close> show "r \<in> set (ab_records b)" by (metis nth_mem)
qed

lemma batch_fetched_inv:
  assumes "db_inv pl chain" and "batch_from pl c at_head chain limit now = Ok b" and "read_inv table c"
  shows "fetched_inv (audit_rows chain) table b"
proof -
  note effect = batch_from_effect [OF assms(1,2)]
  have "batch_last_sequence b \<le> int (length (audit_rows chain))" if "ab_records b \<noteq> []"
  proof -
    have "last (ab_records b) \<in> set (audit_rows chain)" using that effect(2) by auto
    from chain_in_range(2) [OF assms(1) this] that show ?thesis by (simp add: batch_last_sequence_def)
  qed
  with effect assms(3) show ?thesis by (auto simp: fetched_inv_def read_inv_def)
qed

lemma ensure_destination_effect:
  assumes "ensure_destination db dest now = Ok (db', c)"
  shows "db' = db \<or> (\<exists>d. DESTINATION_ID d \<and> dget (dv_rows db) d = None \<and>
    db' = db\<lparr>dv_rows := dv_rows db @ [(d, fresh_destination now)]\<rparr>)"
  using assms
  by (auto simp: ensure_destination_def Let_def ebind_eq_Ok dget_None_iff dest: validated_destination split: if_splits)

lemma advance_effect:
  assumes "advance db ack now = Ok (db', changed)"
  shows "db' = db \<or> (\<exists>d r row. dget (dv_rows db) d = Some r \<and> validate_destination_id (ak_destination_id ack) = Ok d \<and>
    dc_last_sequence r < ak_last_sequence ack \<and> 1 \<le> ak_last_sequence ack \<and>
    chain_row (audit_rows (dv_chain db)) (ak_last_sequence ack) = Some row \<and>
    ar_event_hash row = ak_last_event_hash ack \<and> db' = db\<lparr>dv_rows := dput d (acknowledged_row ack now r) (dv_rows db)\<rparr>)"
  using assms
  by (auto simp: advance_def ebind_eq_Ok not_le split: if_splits option.splits)

lemma record_failure_effect:
  assumes "record_failure db dest code retry_at now = Ok db'"
  shows "\<exists>d c r. dget (dv_rows db) d = Some r \<and> db' = db\<lparr>dv_rows := dput d (failed_row c retry_at now r) (dv_rows db)\<rparr>"
  using assms by (auto simp: record_failure_def ebind_eq_Ok split: if_splits option.splits)

lemma row_update_selectors [simp]:
  "dc_last_sequence (acknowledged_row ack now r) = ak_last_sequence ack"
  "dc_last_event_hash (acknowledged_row ack now r) = ak_last_event_hash ack"
  "dc_next_retry_at (acknowledged_row ack now r) = None"
  "dc_last_sequence (failed_row c retry_at now r) = dc_last_sequence r"
  "dc_last_event_hash (failed_row c retry_at now r) = dc_last_event_hash r"
  "dc_next_retry_at (failed_row c retry_at now r) = Some retry_at"
  "dc_failure_attempts (failed_row c retry_at now r) = dc_failure_attempts r + 1"
  by (simp_all add: acknowledged_row_def failed_row_def)

lemma rows_advance_append: "dget table d = None \<Longrightarrow> rows_advance table (table @ [(d, x)])"
  by (auto simp: rows_advance_def map_add_def split: option.splits)

lemma rows_advance_dput: "dget table d = Some r \<Longrightarrow> dc_last_sequence r \<le> dc_last_sequence r' \<Longrightarrow> rows_advance table (dput d r' table)"
  by (auto simp: rows_advance_def py_simps)

lemma covered_accept: "covered accepted rows dest n \<Longrightarrow> covered (b # accepted) rows dest n"
  by (auto simp: covered_def)

text \<open>An accepted batch closes the gap between the cursor and its end.\<close>

lemma advance_covers:
  assumes "fetched_inv rows table b" and "b \<in> set accepted" and "dget table (ab_destination_id b) = Some r"
    and "covered accepted rows (ab_destination_id b) (dc_last_sequence r)"
  shows "covered accepted rows (ab_destination_id b) (batch_last_sequence b)"
  unfolding covered_def
proof (intro ballI impI)
  fix x assume x: "x \<in> set rows" "ar_sequence x \<le> batch_last_sequence b"
  show "\<exists>b' \<in> set accepted. ab_destination_id b' = ab_destination_id b \<and> x \<in> set (ab_records b')"
  proof (cases "ar_sequence x \<le> dc_last_sequence r")
    case True
    with assms(4) x show ?thesis by (auto simp: covered_def)
  next
    case False
    with assms(1,3) x have "x \<in> set (ab_records b)" by (auto simp: fetched_inv_def)
    with assms(2) show ?thesis by blast
  qed
qed

lemma export_inv_start: "export_inv pl export_start"
  by (simp add: export_inv_def export_start_def db_reachable.Migrated)

lemma export_invD:
  assumes "export_inv pl s"
  shows "db_reachable pl (dv_chain (ex_db s))" and "db_inv pl (dv_chain (ex_db s))"
    and "dget (dv_rows (ex_db s)) dest = Some d \<Longrightarrow> row_inv (ex_accepted s) (audit_rows (dv_chain (ex_db s))) dest d"
    and "c \<in> set (ex_read s) \<Longrightarrow> read_inv (dv_rows (ex_db s)) c"
    and "b \<in> set (ex_fetched s) \<Longrightarrow> fetched_inv (audit_rows (dv_chain (ex_db s))) (dv_rows (ex_db s)) b"
    and "set (ex_accepted s) \<subseteq> set (ex_fetched s)"
  using assms db_reachable_inv by (auto simp: export_inv_def)

lemma export_inv_table:
  assumes "export_inv pl s" and "dv_chain db = dv_chain (ex_db s)" and "rows_advance (dv_rows (ex_db s)) (dv_rows db)"
    and "\<And>dest d. dget (dv_rows db) dest = Some d \<Longrightarrow> dget (dv_rows (ex_db s)) dest \<noteq> Some d \<Longrightarrow>
      row_inv (ex_accepted s) (audit_rows (dv_chain (ex_db s))) dest d"
  shows "export_inv pl (s\<lparr>ex_db := db\<rparr>)"
  using export_invD [OF assms(1)] assms(2-4) rows_advance_inv [OF assms(3)]
  unfolding export_inv_def by (simp, metis)

lemma export_inv_step:
  assumes "export_step pl s s'" and inv: "export_inv pl s"
  shows "export_inv pl s'"
  using assms(1)
proof cases
  case (Chain chain)
  obtain new where new: "audit_rows chain = audit_rows (dv_chain (ex_db s)) @ new" using cp_step_extends [OF Chain(2)] by blast
  have reach: "db_reachable pl chain" using cp_step_reachable [OF Chain(2)] export_invD(1) [OF inv] by blast
  note grow = chain_growth [OF db_reachable_inv [OF reach] new]
  show ?thesis using Chain(1) reach grow export_invD [OF inv] by (simp add: export_inv_def)
next
  case (Register dest now db c)
  from ensure_destination_effect [OF Register(2)] show ?thesis
  proof (elim disjE exE conjE)
    assume "db = ex_db s" with inv Register(1) show ?thesis by simp
  next
    fix d assume d: "DESTINATION_ID d" "dget (dv_rows (ex_db s)) d = None"
      and db: "db = (ex_db s)\<lparr>dv_rows := dv_rows (ex_db s) @ [(d, fresh_destination now)]\<rparr>"
    have "row_inv (ex_accepted s) (audit_rows (dv_chain (ex_db s))) d (fresh_destination now)"
      using d(1) chain_in_range(1) [OF export_invD(2) [OF inv]]
      by (fastforce simp: row_inv_def fresh_destination_def boundary_hash_def covered_def)
    then show ?thesis
      unfolding Register(1) using db d by (intro export_inv_table [OF inv])
        (auto simp: rows_advance_append map_add_def split: option.splits if_splits)
  qed
next
  case (Read dest c)
  then have "read_inv (dv_rows (ex_db s)) c"
    by (auto simp: get_checkpoint_def ebind_eq_Ok read_inv_def checkpoint_of_def split: option.splits)
  with Read(1) export_invD [OF inv] show ?thesis by (simp add: export_inv_def)
next
  case (Fetch c at_head limit now b)
  have "fetched_inv (audit_rows (dv_chain (ex_db s))) (dv_rows (ex_db s)) b"
    using batch_fetched_inv [OF export_invD(2) [OF inv] Fetch(3) export_invD(4) [OF inv Fetch(2)]] .
  with Fetch(1) export_invD [OF inv] show ?thesis by (auto simp: export_inv_def)
next
  case (Accept b)
  with export_invD [OF inv] show ?thesis by (auto simp: export_inv_def row_inv_def intro: covered_accept)
next
  case (Advance b now db changed)
  have b: "b \<in> set (ex_fetched s)" "fetched_inv (audit_rows (dv_chain (ex_db s))) (dv_rows (ex_db s)) b"
    using Advance(2) export_invD(5,6) [OF inv] by blast+
  then obtain d0 where d0: "dget (dv_rows (ex_db s)) (ab_destination_id b) = Some d0" by (auto simp: fetched_inv_def)
  then have id: "validate_destination_id (ab_destination_id b) = Ok (ab_destination_id b)"
    using export_invD(3) [OF inv d0] by (simp add: row_inv_def destination_stripped)
  from advance_effect [OF Advance(3)] show ?thesis
  proof (elim disjE exE conjE)
    assume "db = ex_db s" with inv Advance(1) show ?thesis by simp
  next
    fix d r row
    assume r: "dget (dv_rows (ex_db s)) d = Some r" and d: "validate_destination_id (ak_destination_id (exact_ack b)) = Ok d"
      and less: "dc_last_sequence r < ak_last_sequence (exact_ack b)" "1 \<le> ak_last_sequence (exact_ack b)"
      and row: "chain_row (audit_rows (dv_chain (ex_db s))) (ak_last_sequence (exact_ack b)) = Some row"
        "ar_event_hash row = ak_last_event_hash (exact_ack b)"
      and db: "db = (ex_db s)\<lparr>dv_rows := dput d (acknowledged_row (exact_ack b) now r) (dv_rows (ex_db s))\<rparr>"
    have d: "d = ab_destination_id b" using d id by (simp add: exact_ack_def)
    note in_row = chain_row_Some [OF row(1)]
    note range = chain_in_range [OF export_invD(2) [OF inv], of row]
    have cov: "covered (ex_accepted s) (audit_rows (dv_chain (ex_db s))) d (batch_last_sequence b)"
      using advance_covers [OF b(2) Advance(2)] r d export_invD(3) [OF inv r] by (simp add: row_inv_def)
    have "row_inv (ex_accepted s) (audit_rows (dv_chain (ex_db s))) d (acknowledged_row (exact_ack b) now r)"
      using cov in_row range row(2) less export_invD(3) [OF inv r]
      by (auto simp: row_inv_def exact_ack_def boundary_hash_def nat_diff_distrib)
    then show ?thesis
      unfolding Advance(1) using db r less by (intro export_inv_table [OF inv])
        (auto simp: rows_advance_dput py_simps split: if_splits)
  qed
next
  case (Fail dest code retry_at now db)
  from record_failure_effect [OF Fail(2)] obtain d c r where r: "dget (dv_rows (ex_db s)) d = Some r"
    and db: "db = (ex_db s)\<lparr>dv_rows := dput d (failed_row c retry_at now r) (dv_rows (ex_db s))\<rparr>" by blast
  have "row_inv (ex_accepted s) (audit_rows (dv_chain (ex_db s))) d (failed_row c retry_at now r)"
    using export_invD(3) [OF inv r] by (simp add: row_inv_def)
  then show ?thesis
    unfolding Fail(1) using db r by (intro export_inv_table [OF inv])
      (auto simp: rows_advance_dput py_simps split: if_splits)
qed

lemma export_reachable_inv: "export_reachable pl s \<Longrightarrow> export_inv pl s"
  by (induction rule: export_reachable.induct) (auto intro: export_inv_start export_inv_step)

section \<open>The coordinator is one of the exporters\<close>

lemma next_batch_parts:
  assumes "next_batch pl db at_head at_rows dest limit now = Ok b"
  shows "\<exists>c. get_checkpoint db dest = Ok c \<and> batch_from pl c at_head at_rows limit now = Ok b"
  using assms by (auto simp: next_batch_def ebind_eq_Ok split: if_splits)

lemma deliver_once_reachable:
  assumes s: "export_reachable pl s" and run: "deliver_once pl base mx sink dest limit now (ex_db s) = (db', r)"
  shows "\<exists>s'. export_reachable pl s' \<and> ex_db s' = db'"
proof (cases "ensure_destination (ex_db s) dest now")
  case (Inl e)
  with run s show ?thesis by (auto simp: deliver_once_def)
next
  case (Inr p)
  obtain db1 c0 where p: "p = (db1, c0)" by fastforce
  define s1 where "s1 = s\<lparr>ex_db := db1\<rparr>"
  have s1: "export_reachable pl s1" "ex_db s1 = db1"
    using export_reachable.Step [OF s export_step.Register] Inr p by (auto simp: s1_def)
  have failed: "\<exists>s'. export_reachable pl s' \<and> ex_db s' = db2" if "back_off base mx db1 dest code now = Ok db2" for code db2
  proof -
    from that obtain c :: AuditDeliveryCheckpoint where "record_failure (ex_db s1) dest code
        (now + 1000000 * retry_delay base mx (ac_failure_attempts c)) now = Ok db2"
      by (auto simp: back_off_def ebind_eq_Ok s1)
    from export_reachable.Step [OF s1(1) export_step.Fail [OF this]] show ?thesis by fastforce
  qed
  show ?thesis
  proof (cases "next_batch pl db1 (dv_chain db1) (dv_chain db1) dest limit now")
    case (Inl e)
    with run Inr p s1 show ?thesis by (auto simp: deliver_once_def)
  next
    case (Inr b)
    from next_batch_parts [OF this] obtain c where c: "get_checkpoint (ex_db s1) dest = Ok c"
      "batch_from pl c (dv_chain db1) (dv_chain (ex_db s1)) limit now = Ok b" by (auto simp: s1)
    define s2 where "s2 = s1\<lparr>ex_read := c # ex_read s1\<rparr>"
    have s2: "export_reachable pl s2" "c \<in> set (ex_read s2)" "ex_db s2 = db1"
      using export_reachable.Step [OF s1(1) export_step.Read [OF c(1)]] s1 by (auto simp: s2_def)
    define s3 where "s3 = s2\<lparr>ex_fetched := b # ex_fetched s2\<rparr>"
    have "batch_from pl c (dv_chain db1) (dv_chain (ex_db s2)) limit now = Ok b" using c(2) by (simp add: s2 s1)
    then have s3: "export_reachable pl s3" "b \<in> set (ex_fetched s3)" "ex_db s3 = db1"
      using export_reachable.Step [OF s2(1) export_step.Fetch [OF s2(2)]] s2 by (auto simp: s3_def)
    have acked: "\<exists>s'. export_reachable pl s' \<and> ex_db s' = db2"
      if "ab_records b \<noteq> []" "advance db1 (exact_ack b) now = Ok (db2, changed)" for db2 changed
    proof -
      define s4 where "s4 = s3\<lparr>ex_accepted := b # ex_accepted s3\<rparr>"
      have s4: "export_reachable pl s4" "b \<in> set (ex_accepted s4)" "ex_db s4 = db1"
        using export_reachable.Step [OF s3(1) export_step.Accept [OF s3(2) that(1)]] s3 by (auto simp: s4_def)
      from export_reachable.Step [OF s4(1) export_step.Advance [OF s4(2)]] that(2) s4(3) show ?thesis by fastforce
    qed
    consider "db' = db1"
      | code db2 where "back_off base mx db1 dest code now = Ok db2" "db' = db2"
      | db2 changed where "ab_records b \<noteq> []" "advance db1 (exact_ack b) now = Ok (db2, changed)" "db' = db2"
      using run \<open>ensure_destination (ex_db s) dest now = Inr p\<close> p Inr
      by (auto simp: deliver_once_def Let_def split: if_splits sink_reply.splits sum.splits prod.splits)
    then show ?thesis using failed acked s1 by cases auto
  qed
qed

lemma verified_page_hash: "verify_page pl rs n prev = Ok u \<Longrightarrow> r \<in> set rs \<Longrightarrow> \<exists>m. ar_event_hash r = audit_event_hash pl m"
  by (induction pl rs n prev rule: verify_page.induct) (auto split: if_splits option.splits intro: sym)

text \<open>From a cursor that is a boundary, the page up to the limit, or nothing at the head.\<close>

lemma batch_from_boundary:
  assumes inv: "db_inv pl chain" and c: "0 \<le> ac_last_sequence c" "ac_last_sequence c \<le> int (length (audit_rows chain))"
      "ac_last_event_hash c = boundary_hash (audit_rows chain) (nat (ac_last_sequence c))"
    and due: "\<forall>t. ac_next_retry_at c = Some t \<longrightarrow> t \<le> now" and "1 \<le> limit"
  shows "\<exists>b. batch_from pl c chain chain limit now = Ok b \<and> ab_deferred_until b = None \<and>
    ab_destination_id b = ac_destination_id c \<and>
    ab_records b = take (nat limit) (drop (nat (ac_last_sequence c)) (audit_rows chain)) \<and>
    verify_page pl (ab_records b) (ac_last_sequence c + 1) (ac_last_event_hash c) = Ok ()"
proof -
  let ?rows = "audit_rows chain" and ?k = "nat (ac_last_sequence c)"
  let ?page = "take (nat limit) (drop ?k ?rows)"
  have k: "?k \<le> length ?rows" using c(2) by linarith
  have boundary: "verify_checkpoint_boundary ?rows c = Ok ()"
  proof (cases "ac_last_sequence c = 0")
    case True
    then show ?thesis using c(3) by (simp add: verify_checkpoint_boundary_def boundary_hash_def)
  next
    case False
    then have "chain_row ?rows (ac_last_sequence c) = Some (?rows ! nat (ac_last_sequence c - 1))"
      using chain_row_nth [OF inv _ c(2)] c(1) by simp
    moreover have "nat (ac_last_sequence c - 1) = ?k - 1" "?k \<noteq> 0" using False c(1) by linarith+
    ultimately show ?thesis using False c(3) by (simp add: verify_checkpoint_boundary_def boundary_hash_def)
  qed
  have page: "verify_page pl ?page (ac_last_sequence c + 1) (ac_last_event_hash c) = Ok ()"
    using page_verifies [OF inv k, of "nat limit"] c by simp
  have some: "?page \<noteq> []" if "ac_last_sequence c < int (length ?rows)" using that assms(6) c(1) by auto
  have head: "ar_event_hash (last ?page) = boundary_hash ?rows (length ?rows)"
    if "?page \<noteq> []" "ar_sequence (last ?page) = int (length ?rows)"
  proof -
    have "last ?page \<in> set ?rows" using that(1) by (meson in_set_dropD in_set_takeD last_in_set)
    from chain_in_range(3) [OF inv this] have "last ?page = ?rows ! nat (int (length ?rows) - 1)" unfolding that(2) by simp
    moreover have "nat (int (length ?rows) - 1) = length ?rows - 1" by linarith
    moreover have "length ?rows \<noteq> 0" using that(1) by auto
    ultimately show ?thesis by (simp add: boundary_hash_def)
  qed
  have not_deferred: "\<not> (case ac_next_retry_at c of Some t \<Rightarrow> now < t | None \<Rightarrow> False)" using due by (auto split: option.splits)
  define page_rows where "page_rows = ?page"
  have slice: "take (nat limit) (by_sequence (filter (\<lambda>r. ac_last_sequence c < ar_sequence r) ?rows)) = page_rows"
    by (simp only: page_slice [OF inv] page_rows_def)
  have checks: "\<not> (ac_last_sequence c < int (length ?rows) \<and> page_rows = [])"
    "\<not> (page_rows \<noteq> [] \<and> ar_sequence (last page_rows) = int (length ?rows) \<and>
       ar_event_hash (last page_rows) \<noteq> boundary_hash ?rows (length ?rows))"
    "\<not> int (length ?rows) < ac_last_sequence c" and valid: "verify_page pl page_rows (ac_last_sequence c + 1) (ac_last_event_hash c) = Ok ()"
    using some head page c(2) unfolding page_rows_def by (blast, blast, linarith, blast)
  show ?thesis unfolding page_rows_def [symmetric] using boundary not_deferred checks valid
    by (simp add: batch_from_def head_is_boundary [OF inv] slice Let_def)
qed

definition export_cursor :: "DeliveryDb \<Rightarrow> string \<Rightarrow> int" where
  "export_cursor db dest = (case dget (dv_rows db) dest of Some d \<Rightarrow> dc_last_sequence d | None \<Rightarrow> 0)"

definition export_due :: "DeliveryDb \<Rightarrow> string \<Rightarrow> time \<Rightarrow> bool" where
  "export_due db dest now \<longleftrightarrow> (\<forall>d t. dget (dv_rows db) dest = Some d \<longrightarrow> dc_next_retry_at d = Some t \<longrightarrow> t \<le> now)"

lemma ensure_destination_valid:
  assumes "DESTINATION_ID dest"
  shows "\<exists>db1 c d. ensure_destination db dest now = Ok (db1, c) \<and> dv_chain db1 = dv_chain db \<and>
    dget (dv_rows db1) dest = Some d \<and> dc_last_sequence d = export_cursor db dest \<and>
    (export_due db dest now \<longrightarrow> export_due db1 dest now)"
  using destination_stripped [OF assms]
  by (cases "dget (dv_rows db) dest")
    (auto simp: ensure_destination_def Let_def get_checkpoint_def export_cursor_def export_due_def dget_None_iff
      map_add_def fresh_destination_def image_iff split: option.splits dest!: map_of_SomeD)

text \<open>One pass with a sink that acknowledges what it got.\<close>

lemma export_pass:
  assumes s: "export_reachable pl s" and dest: "DESTINATION_ID dest" and hex: "\<forall>x. matches is_hex 64 64 (sha256 pl x)"
    and limit: "1 \<le> limit" "limit \<le> 5000" and acks: "\<forall>b. sink b = SinkAck (exact_ack b)"
    and due: "export_due (ex_db s) dest now"
    and run: "deliver_once pl base mx sink dest limit now (ex_db s) = (db', r)"
  shows "dv_chain db' = dv_chain (ex_db s)" and "export_due db' dest now" and "dget (dv_rows db') dest \<noteq> None"
    and "export_cursor db' dest = min (int (length (audit_rows (dv_chain (ex_db s))))) (export_cursor (ex_db s) dest + limit)"
proof -
  let ?chain = "dv_chain (ex_db s)" and ?n = "export_cursor (ex_db s) dest"
  let ?rows = "audit_rows ?chain"
  obtain db1 c0 d where ensure: "ensure_destination (ex_db s) dest now = Ok (db1, c0)" and chain1: "dv_chain db1 = ?chain"
    and d: "dget (dv_rows db1) dest = Some d" "dc_last_sequence d = ?n" and due1: "export_due db1 dest now"
    using ensure_destination_valid [OF dest, of "ex_db s" now] due by blast
  define s1 where "s1 = s\<lparr>ex_db := db1\<rparr>"
  have s1: "export_inv pl s1" "ex_db s1 = db1"
    using export_reachable_inv [OF export_reachable.Step [OF s export_step.Register [OF ensure]]] by (auto simp: s1_def)
  have inv: "db_inv pl ?chain" and row: "row_inv (ex_accepted s1) ?rows dest d"
    using export_invD(2) [OF s1(1)] export_invD(3) [OF s1(1)] d(1) by (simp_all add: s1(2) chain1)
  let ?c = "checkpoint_of dest d"
  have cp: "get_checkpoint db1 dest = Ok ?c" using d(1) by (simp add: get_checkpoint_def destination_stripped [OF dest])
  have n: "0 \<le> ?n" "?n \<le> int (length ?rows)" "dc_last_event_hash d = boundary_hash ?rows (nat ?n)"
    using row d(2) by (simp_all add: row_inv_def)
  have "\<forall>t. ac_next_retry_at ?c = Some t \<longrightarrow> t \<le> now" using due1 d(1) by (simp add: export_due_def checkpoint_of_def)
  with batch_from_boundary [OF inv, of ?c now limit] n d(2) limit obtain b where
    b: "batch_from pl ?c ?chain ?chain limit now = Ok b" "ab_deferred_until b = None" "ab_destination_id b = dest"
      "ab_records b = take (nat limit) (drop (nat ?n) ?rows)"
      "verify_page pl (ab_records b) (?n + 1) (dc_last_event_hash d) = Ok ()"
    by (auto simp: checkpoint_of_def)
  have next_b: "next_batch pl db1 (dv_chain db1) (dv_chain db1) dest limit now = Ok b"
    using cp b(1) limit by (simp add: next_batch_def chain1)
  have all: "dv_chain db' = ?chain \<and> export_due db' dest now \<and> dget (dv_rows db') dest \<noteq> None \<and>
    export_cursor db' dest = min (int (length ?rows)) (?n + limit)"
  proof (cases "ab_records b = []")
    case True
    then have "int (length ?rows) \<le> ?n" using b(4) limit n(1) by simp
    moreover have "db' = db1" using run True by (simp add: deliver_once_def ensure next_b)
    ultimately show ?thesis using chain1 due1 d n(2) limit by (simp add: export_cursor_def)
  next
    case False
    have len: "length (ab_records b) = min (nat limit) (length ?rows - nat ?n)" by (simp add: b(4))
    have pos: "0 < length (ab_records b)" using False by simp
    define j where "j = nat ?n + (length (ab_records b) - 1)"
    have j: "j < length ?rows" "int j + 1 = min (int (length ?rows)) (?n + limit)"
      using pos len n(1,2) limit by (simp_all add: j_def) linarith+
    have bounds: "length (ab_records b) - 1 < nat limit" "nat ?n \<le> length ?rows" using pos len by linarith+
    have lastb: "last (ab_records b) = ?rows ! j"
      unfolding last_conv_nth [OF False] j_def using bounds by (simp add: b(4))
    have seq: "batch_last_sequence b = int j + 1" using False lastb chain_nth [OF inv j(1)] by (simp add: batch_last_sequence_def)
    have hash: "batch_last_event_hash b = ar_event_hash (?rows ! j)" using False lastb by (simp add: batch_last_event_hash_def)
    obtain m where "ar_event_hash (?rows ! j) = audit_event_hash pl m"
      using verified_page_hash [OF b(5) last_in_set [OF False]] lastb by auto
    with hash hex have is_hash: "matches is_hex 64 64 (batch_last_event_hash b)" by (simp add: audit_event_hash_def)
    have "chain_row ?rows (int j + 1) = Some (?rows ! j)" using chain_row_nth [OF inv, of "int j + 1"] j(1) by simp
    moreover have "?n < int j + 1" using n(1) by (simp add: j_def)
    ultimately have adv: "advance db1 (exact_ack b) now = Ok (db1\<lparr>dv_rows := dput dest (acknowledged_row (exact_ack b) now d) (dv_rows db1)\<rparr>, True)"
      using is_hash seq hash d by (simp add: advance_def exact_ack_def b(3) destination_stripped [OF dest] chain1)
    have "db' = db1\<lparr>dv_rows := dput dest (acknowledged_row (exact_ack b) now d) (dv_rows db1)\<rparr>"
      using run False acks by (simp add: deliver_once_def ensure next_b b(2) adv Let_def)
    then show ?thesis using chain1 j(2) seq by (simp add: export_due_def export_cursor_def py_simps exact_ack_def)
  qed
  then show "dv_chain db' = ?chain" and "export_due db' dest now" and "dget (dv_rows db') dest \<noteq> None"
    and "export_cursor db' dest = min (int (length ?rows)) (?n + limit)" by blast+
qed

lemma passes_catch_up:
  assumes "DESTINATION_ID dest" and "\<forall>x. matches is_hex 64 64 (sha256 pl x)"
    and "1 \<le> limit" and "limit \<le> 5000" and "\<forall>b. sink b = SinkAck (exact_ack b)"
    and "export_reachable pl s" and "export_due (ex_db s) dest now"
    and "export_cursor (ex_db s) dest \<le> int (length (audit_rows (dv_chain (ex_db s))))"
  shows "\<exists>s'. export_reachable pl s' \<and> ((\<lambda>db. fst (deliver_once pl base mx sink dest limit now db)) ^^ k) (ex_db s) = ex_db s' \<and>
    dv_chain (ex_db s') = dv_chain (ex_db s) \<and> export_due (ex_db s') dest now \<and>
    export_cursor (ex_db s') dest =
      min (int (length (audit_rows (dv_chain (ex_db s))))) (export_cursor (ex_db s) dest + int k * limit)"
proof (induction k)
  case 0
  then show ?case using assms(6-8) by auto
next
  case (Suc k)
  then obtain s1 where s1: "export_reachable pl s1" "dv_chain (ex_db s1) = dv_chain (ex_db s)" "export_due (ex_db s1) dest now"
    "((\<lambda>db. fst (deliver_once pl base mx sink dest limit now db)) ^^ k) (ex_db s) = ex_db s1"
    "export_cursor (ex_db s1) dest =
      min (int (length (audit_rows (dv_chain (ex_db s))))) (export_cursor (ex_db s) dest + int k * limit)" by blast
  obtain db' r where run: "deliver_once pl base mx sink dest limit now (ex_db s1) = (db', r)" by fastforce
  from deliver_once_reachable [OF s1(1) run] obtain s2 where s2: "export_reachable pl s2" "ex_db s2 = db'" by blast
  note step = export_pass [OF s1(1) assms(1-5) s1(3) run]
  have "export_cursor db' dest =
      min (int (length (audit_rows (dv_chain (ex_db s))))) (export_cursor (ex_db s) dest + int (Suc k) * limit)"
    using step(4) s1(2,5) assms(3) by (simp add: min_def algebra_simps)
  then show ?case using step(1,2) s1 s2 run by (auto intro!: exI [of _ s2])
qed

section \<open>Properties\<close>

text \<open>
  C24. The exported prefix is complete. Whatever exporters, sinks and the control plane do and
  in whatever order, the cursor of a destination is a boundary of the audit chain, with the
  hash of its event, and every audit event up to it is in a batch that the sink of that
  destination accepted: no event is skipped.
\<close>

theorem exported_prefix_complete:
  assumes "export_reachable pl s" and "dget (dv_rows (ex_db s)) dest = Some d"
  shows "(dc_last_sequence d = 0 \<and> dc_last_event_hash d = ZERO_AUDIT_HASH \<or>
      (\<exists>r \<in> set (audit_rows (dv_chain (ex_db s))). ar_sequence r = dc_last_sequence d \<and> ar_event_hash r = dc_last_event_hash d)) \<and>
    (\<forall>r \<in> set (audit_rows (dv_chain (ex_db s))). ar_sequence r \<le> dc_last_sequence d \<longrightarrow>
      (\<exists>b \<in> set (ex_accepted s). ab_destination_id b = dest \<and> r \<in> set (ab_records b)))"
proof -
  let ?rows = "audit_rows (dv_chain (ex_db s))" and ?k = "nat (dc_last_sequence d)"
  note inv = export_invD [OF export_reachable_inv [OF assms(1)]]
  have row: "row_inv (ex_accepted s) ?rows dest d" using inv(3) [OF assms(2)] .
  show ?thesis
  proof (cases "dc_last_sequence d = 0")
    case True
    with row show ?thesis by (simp add: row_inv_def boundary_hash_def covered_def)
  next
    case False
    with row have k: "1 \<le> dc_last_sequence d" "?k - 1 < length ?rows" "int (?k - 1) + 1 = dc_last_sequence d"
      by (auto simp: row_inv_def)
    then have "ar_sequence (?rows ! (?k - 1)) = dc_last_sequence d" "?rows ! (?k - 1) \<in> set ?rows"
      using chain_nth [OF inv(2) k(2)] by simp_all
    with row k(1) show ?thesis by (auto simp: row_inv_def boundary_hash_def covered_def)
  qed
qed

text \<open>
  The export catches up. With a sink that acknowledges what it accepts, and no retry
  pending, as many passes of \<open>deliver_once\<close> as pages are left move the cursor to the head of
  the chain: no pass fails on a chain that the control plane wrote.
\<close>

theorem audit_export_catches_up:
  assumes "export_reachable pl s" and "DESTINATION_ID dest" and "\<forall>x. matches is_hex 64 64 (sha256 pl x)"
    and "1 \<le> limit" and "limit \<le> 5000" and "\<forall>b. sink b = SinkAck (exact_ack b)"
    and "export_due (ex_db s) dest now"
    and "int (length (audit_rows (dv_chain (ex_db s)))) \<le> export_cursor (ex_db s) dest + int k * limit"
  shows "export_cursor (((\<lambda>db. fst (deliver_once pl base mx sink dest limit now db)) ^^ k) (ex_db s)) dest =
    int (length (audit_rows (dv_chain (ex_db s))))"
proof -
  have "export_cursor (ex_db s) dest \<le> int (length (audit_rows (dv_chain (ex_db s))))"
    using export_invD(3) [OF export_reachable_inv [OF assms(1)], of dest]
    by (auto simp: export_cursor_def row_inv_def split: option.splits)
  from passes_catch_up [OF assms(2-6,1,7) this, where k = k and base = base and mx = mx] assms(8) show ?thesis by auto
qed

text \<open>
  A destination that has received nothing hides the backlog: as long as one cursor is at
  zero, \<open>stats\<close> reports a largest backlog of zero, however long the chain is and however far
  behind the other destinations are.
\<close>

theorem fresh_destination_hides_backlog:
  assumes "r \<in> set (dvalues (dv_rows db))" and "dc_last_sequence r = 0"
    and "\<forall>x \<in> set (dvalues (dv_rows db)). 0 \<le> dc_last_sequence x"
  shows "as_max_backlog (delivery_stats db) = 0"
proof -
  have "Min (dc_last_sequence ` set (dvalues (dv_rows db))) = 0"
    using assms by (intro Min_eqI) (auto simp: image_iff)
  then show ?thesis using assms(1) by (auto simp: delivery_stats_def Let_def image_image comp_def)
qed

text \<open>One audited change, a sink, and a second destination that is registered later.\<close>

definition hex_platform :: platform where
  "hex_platform = \<lparr>sha256 = (\<lambda>_. replicate 64 (CHR ''0'')), float_text = (\<lambda>_. ''0.0''), iso_text = (\<lambda>_. ''t'')\<rparr>"

lemma hex_platform_hex: "\<forall>x. matches is_hex 64 64 (sha256 hex_platform x)"
  by (simp add: hex_platform_def matches_def is_hex_def is_digit_def list_all_iff)

lemma sample_chain: "\<exists>db. pg_append_audit hex_platform migrated_db sample_env sample_event None = Ok db \<and> length (audit_rows db) = 1"
  by (simp add: pg_append_audit_def append_audit_in_transaction_def migrated_db_def build_audit_material_def
      normalize_json_object_def sample_event_def sample_env_def Let_def audit_row_fits_def audit_event_hash_def
      hex_platform_def ZERO_AUDIT_HASH_def bigint_def)

lemma sample_export: "\<exists>s. export_reachable hex_platform s \<and> dv_rows (ex_db s) = [] \<and> length (audit_rows (dv_chain (ex_db s))) = 1"
proof -
  obtain db where db: "pg_append_audit hex_platform migrated_db sample_env sample_event None = Ok db" "length (audit_rows db) = 1"
    using sample_chain by blast
  have "cp_step hex_platform (dv_chain (ex_db export_start)) db" using cp_step.Audit [OF db(1)] by (simp add: export_start_def)
  from export_reachable.Step [OF export_reachable.Start export_step.Chain [OF this]] db(2)
  show ?thesis by (intro exI conjI) (auto simp: export_start_def)
qed

lemma siem_ok: "DESTINATION_ID ''siem''"
  by (simp add: DESTINATION_ID_def matches_def is_lower_def)

theorem audit_export_catches_up_witness:
  "\<exists>s. export_reachable hex_platform s \<and> length (audit_rows (dv_chain (ex_db s))) = 1 \<and>
     export_cursor (fst (deliver_once hex_platform 5 300 (\<lambda>b. SinkAck (exact_ack b)) ''siem'' 500 9 (ex_db s))) ''siem'' = 1"
proof -
  obtain s where s: "export_reachable hex_platform s" "dv_rows (ex_db s) = []" "length (audit_rows (dv_chain (ex_db s))) = 1"
    using sample_export by blast
  have "export_due (ex_db s) ''siem'' 9" "int (length (audit_rows (dv_chain (ex_db s)))) \<le> export_cursor (ex_db s) ''siem'' + int 1 * 500"
    using s by (simp_all add: export_due_def export_cursor_def)
  from audit_export_catches_up [OF s(1) siem_ok hex_platform_hex _ _ _ this, where sink = "\<lambda>b. SinkAck (exact_ack b)" and base = 5 and mx = 300] s
  show ?thesis by auto
qed

theorem exported_prefix_complete_witness:
  "\<exists>s d. export_reachable hex_platform s \<and> dget (dv_rows (ex_db s)) ''siem'' = Some d \<and> dc_last_sequence d = 1 \<and>
     (\<forall>r \<in> set (audit_rows (dv_chain (ex_db s))). ar_sequence r \<le> 1 \<longrightarrow>
       (\<exists>b \<in> set (ex_accepted s). ab_destination_id b = ''siem'' \<and> r \<in> set (ab_records b)))"
proof -
  obtain s where s: "export_reachable hex_platform s" "dv_rows (ex_db s) = []" "length (audit_rows (dv_chain (ex_db s))) = 1"
    using sample_export by blast
  obtain db' r where run: "deliver_once hex_platform 5 300 (\<lambda>b. SinkAck (exact_ack b)) ''siem'' 500 9 (ex_db s) = (db', r)" by fastforce
  have "export_due (ex_db s) ''siem'' 9" using s by (simp add: export_due_def)
  from export_pass [OF s(1) siem_ok hex_platform_hex _ _ _ this run] s
  obtain d where d: "dget (dv_rows db') ''siem'' = Some d" "dc_last_sequence d = 1" by (auto simp: export_cursor_def)
  from deliver_once_reachable [OF s(1) run] obtain s' where s': "export_reachable hex_platform s'" "ex_db s' = db'" by blast
  from exported_prefix_complete [OF s'(1), of "''siem''" d] d s' show ?thesis by (intro exI [of _ s'] exI [of _ d]) simp
qed

theorem fresh_destination_hides_backlog_witness:
  "as_max_backlog (delivery_stats \<lparr>dv_chain = migrated_db\<lparr>audit_head := Some (900, ZERO_AUDIT_HASH)\<rparr>,
     dv_rows = [(''siem'', (fresh_destination 1)\<lparr>dc_last_sequence := 400\<rparr>), (''worm'', fresh_destination 2)]\<rparr>) = 0"
  by (rule fresh_destination_hides_backlog [of "fresh_destination 2"]) (auto simp: fresh_destination_def)

end
