(* ===== verification/Tenancy.thy ===== *)
theory Tenancy
  imports PyValue "HOL-Library.Sublist"
begin

text \<open>
  \<open>query_api/app/auth.py\<close>, its tenant half: the policy of a collection, the tenants of a
  request, and what they allow to search, read, write and delete. \<open>settings.py\<close> contributes
  the check of the configured policies. A request is the scheme and the claims that the guards
  of \<open>deps.py\<close> left on it; \<open>rep\<close> is \<open>str\<close> of floats and containers. \<open>dict(...)\<close> of
  configuration is modelled for objects and for empty values; the settings check refuses the rest.
\<close>

datatype http_error = Http nat string | Unhandled string

record auth_request =
  rq_auth_scheme :: string
  rq_auth_claims :: "json option"

datatype policies_text = NoPolicies | PoliciesNotJson | Policies json

record authz_settings =
  st_deployment_profile :: string
  st_require_collection_policy :: bool
  st_api_key_tenant_bypass :: bool
  st_collection_policies :: policies_text

section \<open>Patterns and values\<close>

definition TENANT_FIELD_PATTERN :: "string \<Rightarrow> bool" where
  "TENANT_FIELD_PATTERN s = (case s of [] \<Rightarrow> False | c # cs \<Rightarrow>
     (is_lower c \<or> is_upper c \<or> c = CHR ''_'') \<and> list_all (\<lambda>d. is_alnum d \<or> d = CHR ''_'' \<or> d = CHR ''.'') cs)"

definition TENANT_VALUE_PATTERN :: "string \<Rightarrow> bool" where
  "TENANT_VALUE_PATTERN s = matches (\<lambda>c. is_alnum c \<or> c = CHR ''_'' \<or> c = CHR ''-'') 1 128 s"

definition VALID_TENANT_MODES :: "string list" where
  "VALID_TENANT_MODES = [''off'', ''required'', ''inject'']"

text \<open>\<open>text.split()\<close>: the words between runs of whitespace.\<close>

fun words_acc :: "string \<Rightarrow> string \<Rightarrow> string list" where
  "words_acc cur [] = (if cur = [] then [] else [rev cur])"
| "words_acc cur (c # cs) =
     (if is_space c then (if cur = [] then words_acc [] cs else rev cur # words_acc [] cs)
      else words_acc (c # cur) cs)"

definition comma_to_space :: "string \<Rightarrow> string" where
  "comma_to_space s = map (\<lambda>c. if c = CHR '','' then CHR '' '' else c) s"

fun flatten_claim_values :: "(json \<Rightarrow> string) \<Rightarrow> json \<Rightarrow> string list" where
  "flatten_claim_values rep JNull = []"
| "flatten_claim_values rep (JStr s) = words_acc [] (comma_to_space s)"
| "flatten_claim_values rep (JArr xs) = concat (map (flatten_claim_values rep) xs)"
| "flatten_claim_values rep v = [py_str rep v]"

definition get_claim_path :: "json \<Rightarrow> string \<Rightarrow> json" where
  "get_claim_path claims path = walk_path claims (split_on (CHR ''.'') path)"

definition document_value :: "document \<Rightarrow> string \<Rightarrow> json" where
  "document_value d path = walk_path (JObj d) (split_on (CHR ''.'') path)"

fun set_path :: "document \<Rightarrow> string list \<Rightarrow> json \<Rightarrow> http_error + document" where
  "set_path d [] v = Ok d"
| "set_path d [p] v = Ok (dput p v d)"
| "set_path d (p # q # ps) v =
     ebind (case jget d p of JNull \<Rightarrow> Ok [] | JObj inner \<Rightarrow> Ok inner
            | _ \<Rightarrow> Raise (Http 403 ''Document tenant path is not allowed''))
       (\<lambda>inner. ebind (set_path inner (q # ps) v) (\<lambda>inner'. Ok (dput p (JObj inner') d)))"

definition set_document_value :: "document \<Rightarrow> string \<Rightarrow> json \<Rightarrow> http_error + document" where
  "set_document_value d path v = set_path d (split_on (CHR ''.'') path) v"

section \<open>Policies\<close>

definition authz_policies :: "authz_settings \<Rightarrow> http_error + document" where
  "authz_policies st =
     (case st_collection_policies st of
        NoPolicies \<Rightarrow> Ok []
      | Policies (JObj d) \<Rightarrow> Ok d
      | _ \<Rightarrow> Raise (Http 500 ''AUTHZ_COLLECTION_POLICIES must be a JSON object''))"

definition as_dict :: "json \<Rightarrow> http_error + document" where
  "as_dict v = (case v of JObj d \<Rightarrow> Ok d | JArr [] \<Rightarrow> Ok [] | JStr [] \<Rightarrow> Ok [] | _ \<Rightarrow> Raise (Unhandled ''dict''))"

definition get_or :: "document \<Rightarrow> string \<Rightarrow> json \<Rightarrow> json" where
  "get_or d k def = (case dget d k of Some v \<Rightarrow> v | None \<Rightarrow> def)"

definition merge_policy :: "document \<Rightarrow> document \<Rightarrow> document" where
  "merge_policy base over =
     map (\<lambda>(k, v). (k, get_or over k v)) base @ filter (\<lambda>kv. fst kv \<notin> set (dkeys base)) over"

definition mode_text :: "(json \<Rightarrow> string) \<Rightarrow> document \<Rightarrow> string" where
  "mode_text rep policy = lower (strip (py_str rep (get_or policy ''mode'' (JStr ''off''))))"

definition policy_required :: "authz_settings \<Rightarrow> bool" where
  "policy_required st \<longleftrightarrow> st_deployment_profile st = ''enterprise'' \<or> st_require_collection_policy st"

definition policy_missing :: http_error where
  "policy_missing = Http 403 ''A tenant authorization policy is required for this collection''"

definition collection_policy :: "(json \<Rightarrow> string) \<Rightarrow> authz_settings \<Rightarrow> string \<Rightarrow> http_error + document" where
  "collection_policy rep st coll =
     ebind (authz_policies st) (\<lambda>policies.
       if policies = [] then
         (if policy_required st then Raise policy_missing else Ok [(''mode'', JStr ''off'')])
       else if dget policies ''mode'' \<noteq> None \<or> dget policies ''tenant_field'' \<noteq> None then Ok policies
       else
         ebind (as_dict (get_or policies ''default'' (JObj []))) (\<lambda>default_policy.
         ebind (as_dict (get_or policies ''collections'' (JObj []))) (\<lambda>collections.
         ebind (case find (\<lambda>(pat, _). fnmatch coll pat) collections of
             Some (_, JObj policy) \<Rightarrow> Ok (merge_policy default_policy policy)
           | Some _ \<Rightarrow> Raise (Http 500 ''AUTHZ_COLLECTION_POLICIES entry must be an object'')
           | None \<Rightarrow> Ok (if default_policy \<noteq> [] then default_policy else [(''mode'', JStr ''off'')])) (\<lambda>resolved.
           if policy_required st \<and> mode_text rep resolved = ''off'' then Raise policy_missing else Ok resolved))))"

definition policy_mode :: "(json \<Rightarrow> string) \<Rightarrow> document \<Rightarrow> http_error + string" where
  "policy_mode rep policy =
     (let mode = mode_text rep policy in
      if mode \<notin> set VALID_TENANT_MODES then Raise (Http 500 ''Unsupported AUTHZ collection policy mode'') else Ok mode)"

definition ensure_enterprise_collection_policy ::
  "(json \<Rightarrow> string) \<Rightarrow> authz_settings \<Rightarrow> string \<Rightarrow> http_error + unit" where
  "ensure_enterprise_collection_policy rep st coll =
     ebind (collection_policy rep st coll) (\<lambda>p. ebind (policy_mode rep p) (\<lambda>_. Ok ()))"

definition tenant_field :: "(json \<Rightarrow> string) \<Rightarrow> document \<Rightarrow> http_error + string" where
  "tenant_field rep policy =
     (let field = strip (py_str rep (get_or policy ''tenant_field'' (JStr ''tenant_id''))) in
      if TENANT_FIELD_PATTERN field then Ok field
      else Raise (Http 500 ''AUTHZ tenant_field must be a safe Typesense field path''))"

text \<open>\<open>None\<close> is the API-key bypass: the caller sees every tenant.\<close>

definition tenant_values_from_request ::
  "(json \<Rightarrow> string) \<Rightarrow> authz_settings \<Rightarrow> auth_request \<Rightarrow> document \<Rightarrow> http_error + string list option" where
  "tenant_values_from_request rep st rq policy =
     (if rq_auth_scheme rq = ''api_key'' \<and> st_api_key_tenant_bypass st then Ok None
      else case rq_auth_claims rq of
        Some (JObj claims) \<Rightarrow>
          let path = strip (py_str rep (get_or policy ''tenant_claim'' (JStr ''tenant_id'')));
              path = (if path = [] then ''tenant_id'' else path);
              values = filter (\<lambda>v. v \<noteq> []) (flatten_claim_values rep (get_claim_path (JObj claims) path)) in
          if values = [] then Raise (Http 403 ''Tenant claim is required'')
          else if \<exists>v \<in> set values. \<not> TENANT_VALUE_PATTERN v then Raise (Http 403 ''Tenant claim is not allowed'')
          else Ok (Some (fromkeys values))
      | _ \<Rightarrow> Raise (Http 403 ''Tenant claim is required''))"

section \<open>What a tenant may do\<close>

definition tenant_filter :: "string \<Rightarrow> string list \<Rightarrow> string" where
  "tenant_filter field tenants =
     (if length tenants = 1 then field @ '':='' @ hd tenants
      else field @ '':=['' @ join_with '','' tenants @ '']'')"

definition value_matches_any_tenant :: "(json \<Rightarrow> string) \<Rightarrow> json \<Rightarrow> string list \<Rightarrow> bool" where
  "value_matches_any_tenant rep v tenants =
     (case v of JArr xs \<Rightarrow> \<exists>x \<in> set xs. py_str rep x \<in> set tenants | _ \<Rightarrow> py_str rep v \<in> set tenants)"

definition value_is_within_authorized_tenants :: "(json \<Rightarrow> string) \<Rightarrow> json \<Rightarrow> string list \<Rightarrow> bool" where
  "value_is_within_authorized_tenants rep v tenants =
     (case v of JArr xs \<Rightarrow> xs \<noteq> [] \<and> (\<forall>x \<in> set xs. py_str rep x \<in> set tenants) | _ \<Rightarrow> py_str rep v \<in> set tenants)"

text \<open>The filter of the search that is sent.\<close>

definition authorize_search_request ::
  "(json \<Rightarrow> string) \<Rightarrow> authz_settings \<Rightarrow> auth_request \<Rightarrow> string \<Rightarrow> string option \<Rightarrow> http_error + string option" where
  "authorize_search_request rep st rq coll filter_by =
     ebind (collection_policy rep st coll) (\<lambda>policy. ebind (policy_mode rep policy) (\<lambda>mode.
       if mode = ''off'' then Ok filter_by
       else ebind (tenant_values_from_request rep st rq policy) (\<lambda>ts.
         case ts of None \<Rightarrow> Ok filter_by
         | Some tenants \<Rightarrow>
             ebind (tenant_field rep policy) (\<lambda>field.
               let current = strip (case filter_by of Some f \<Rightarrow> f | None \<Rightarrow> []) in
               Ok (Some (if current \<noteq> [] then ''('' @ current @ '') && '' @ tenant_filter field tenants
                         else tenant_filter field tenants))))))"

definition can_read_document ::
  "(json \<Rightarrow> string) \<Rightarrow> authz_settings \<Rightarrow> auth_request \<Rightarrow> string \<Rightarrow> document \<Rightarrow> http_error + bool" where
  "can_read_document rep st rq coll doc =
     ebind (collection_policy rep st coll) (\<lambda>policy. ebind (policy_mode rep policy) (\<lambda>mode.
       if mode = ''off'' then Ok True
       else ebind (tenant_values_from_request rep st rq policy) (\<lambda>ts.
         case ts of None \<Rightarrow> Ok True
         | Some tenants \<Rightarrow> ebind (tenant_field rep policy) (\<lambda>field.
             Ok (value_matches_any_tenant rep (document_value doc field) tenants)))))"

definition authorize_ingest_document ::
  "(json \<Rightarrow> string) \<Rightarrow> authz_settings \<Rightarrow> auth_request \<Rightarrow> string \<Rightarrow> document \<Rightarrow> http_error + document" where
  "authorize_ingest_document rep st rq coll doc =
     ebind (collection_policy rep st coll) (\<lambda>policy. ebind (policy_mode rep policy) (\<lambda>mode.
       if mode = ''off'' then Ok doc
       else ebind (tenant_values_from_request rep st rq policy) (\<lambda>ts.
         case ts of None \<Rightarrow> Ok doc
         | Some tenants \<Rightarrow> ebind (tenant_field rep policy) (\<lambda>field.
             let current = document_value doc field in
             if (current = JNull \<or> current = JStr []) \<and> mode = ''inject'' then
               (if length tenants \<noteq> 1 then Raise (Http 403 ''Cannot inject tenant when token has multiple tenants'')
                else set_document_value doc field (JStr (hd tenants)))
             else if \<not> value_is_within_authorized_tenants rep current tenants
             then Raise (Http 403 ''Document tenant is not allowed'')
             else Ok doc))))"

definition single_tenant :: "string list \<Rightarrow> http_error + string" where
  "single_tenant tenants = (if length tenants \<noteq> 1
     then Raise (Http 403 ''A single tenant identity is required for versioned indexing events'') else Ok (hd tenants))"

definition event_tenant_identity ::
  "(json \<Rightarrow> string) \<Rightarrow> authz_settings \<Rightarrow> auth_request \<Rightarrow> string \<Rightarrow> document option \<Rightarrow> http_error + string" where
  "event_tenant_identity rep st rq coll doc =
     ebind (collection_policy rep st coll) (\<lambda>policy. ebind (policy_mode rep policy) (\<lambda>mode.
       if mode = ''off'' then
         (let fallback = (case rq_auth_claims rq of
                Some (JObj claims) \<Rightarrow> py_str rep (get_or claims ''tenant_id'' (JStr ''development''))
              | None \<Rightarrow> ''development'' | _ \<Rightarrow> ''development'') in
          Ok (if TENANT_VALUE_PATTERN fallback then fallback else ''development''))
       else ebind (tenant_values_from_request rep st rq policy) (\<lambda>ts.
         case ts of
           None \<Rightarrow> if st_deployment_profile st = ''enterprise'' then Raise (Http 403 ''Tenant identity is required'')
                   else Ok ''development''
         | Some tenants \<Rightarrow>
             (case doc of
                None \<Rightarrow> single_tenant tenants
              | Some d \<Rightarrow> ebind (tenant_field rep policy) (\<lambda>field.
                  case document_value d field of
                    JStr s \<Rightarrow> if s \<in> set tenants then Ok s else single_tenant tenants
                  | JArr xs \<Rightarrow>
                      let ds = fromkeys (map (py_str rep) xs) in
                      if length ds = 1 \<and> hd ds \<in> set tenants then Ok (hd ds) else single_tenant tenants
                  | _ \<Rightarrow> single_tenant tenants)))))"

definition authorize_delete_filter ::
  "(json \<Rightarrow> string) \<Rightarrow> authz_settings \<Rightarrow> auth_request \<Rightarrow> string \<Rightarrow> string \<Rightarrow> http_error + string option" where
  "authorize_delete_filter rep st rq coll doc_id =
     ebind (collection_policy rep st coll) (\<lambda>policy. ebind (policy_mode rep policy) (\<lambda>mode.
       if mode = ''off'' then Ok None
       else ebind (tenant_values_from_request rep st rq policy) (\<lambda>ts.
         case ts of None \<Rightarrow> Ok None
         | Some tenants \<Rightarrow> ebind (tenant_field rep policy) (\<lambda>field.
             Ok (Some (''(id:='' @ doc_id @ '') && '' @ tenant_filter field tenants))))))"

section \<open>The configured policies\<close>

text \<open>\<open>Settings.validate_collection_policies_json\<close> on the decoded value.\<close>

definition policy_entry_ok :: "string \<times> json \<Rightarrow> bool" where
  "policy_entry_ok kv =
     (fst kv \<noteq> [] \<and> (case snd kv of
        JObj p \<Rightarrow> (dget p ''mode'' = Some (JStr ''required'') \<or> dget p ''mode'' = Some (JStr ''inject'')) \<and>
          truthy (jget p ''tenant_field'') \<and> truthy (jget p ''tenant_claim'')
      | _ \<Rightarrow> False))"

definition collection_policies_valid :: "policies_text \<Rightarrow> bool" where
  "collection_policies_valid raw =
     (case raw of
        NoPolicies \<Rightarrow> True
      | Policies (JObj d) \<Rightarrow>
          if dget d ''mode'' \<noteq> None \<or> dget d ''tenant_field'' \<noteq> None then policy_entry_ok (''*'', JObj d)
          else (case dget d ''collections'' of
            Some (JObj cs) \<Rightarrow> list_all policy_entry_ok
              (case dget d ''default'' of Some p \<Rightarrow> dput ''default'' p cs | None \<Rightarrow> cs)
          | _ \<Rightarrow> False)
      | _ \<Rightarrow> False)"

section \<open>Facts about the operations\<close>

lemma set_path_walk: "set_path d ps v = Ok d' \<Longrightarrow> ps \<noteq> [] \<Longrightarrow> walk_path (JObj d') ps = v"
proof (induction d ps v arbitrary: d' rule: set_path.induct)
  case (3 d p q ps v)
  obtain inner inner' where "set_path inner (q # ps) v = Ok inner'" and d': "d' = dput p (JObj inner') d"
    and IH: "walk_path (JObj inner') (q # ps) = v"
    using 3 by (auto simp: ebind_eq_Ok)
  show ?case using IH by (simp add: d' dget_dput)
qed (auto simp: dget_dput)

lemma set_document_value_read: "set_document_value d path v = Ok d' \<Longrightarrow> document_value d' path = v"
  by (simp add: set_document_value_def document_value_def set_path_walk)

lemma tenant_values_some:
  assumes "tenant_values_from_request rep st rq policy = Ok (Some ts)"
  shows "ts \<noteq> []" and "distinct ts" and "\<forall>t \<in> set ts. TENANT_VALUE_PATTERN t"
  using assms by (auto simp: tenant_values_from_request_def Let_def split: if_splits option.splits json.splits)

lemma within_then_matches:
  "value_is_within_authorized_tenants rep v ts \<Longrightarrow> value_matches_any_tenant rep v ts"
  by (cases v) (auto simp: value_is_within_authorized_tenants_def value_matches_any_tenant_def intro: ccontr)

lemma within_excludes:
  "value_is_within_authorized_tenants rep v ts \<Longrightarrow> set ts \<inter> set ts2 = {} \<Longrightarrow> \<not> value_matches_any_tenant rep v ts2"
  by (cases v) (auto simp: value_is_within_authorized_tenants_def value_matches_any_tenant_def)

text \<open>With a tenant policy in force, the operations reduce to their tenant rule.\<close>

definition tenancy :: "(json \<Rightarrow> string) \<Rightarrow> authz_settings \<Rightarrow> auth_request \<Rightarrow> string \<Rightarrow> document \<Rightarrow> string \<Rightarrow> string list \<Rightarrow> bool" where
  "tenancy rep st rq coll policy field ts \<longleftrightarrow> collection_policy rep st coll = Ok policy \<and>
     (\<exists>mode. policy_mode rep policy = Ok mode \<and> mode \<noteq> ''off'') \<and>
     tenant_values_from_request rep st rq policy = Ok (Some ts) \<and> tenant_field rep policy = Ok field"

lemma tenancy_reads:
  "tenancy rep st rq coll policy field ts \<Longrightarrow>
     can_read_document rep st rq coll doc = Ok (value_matches_any_tenant rep (document_value doc field) ts)"
  by (auto simp: tenancy_def can_read_document_def)

lemma tenancy_writes:
  assumes "tenancy rep st rq coll policy field ts" and "authorize_ingest_document rep st rq coll doc = Ok doc'"
  shows "value_is_within_authorized_tenants rep (document_value doc' field) ts"
proof -
  obtain mode where mode: "collection_policy rep st coll = Ok policy" "policy_mode rep policy = Ok mode" "mode \<noteq> ''off''"
    "tenant_values_from_request rep st rq policy = Ok (Some ts)" "tenant_field rep policy = Ok field"
    using assms(1) by (auto simp: tenancy_def)
  define current where "current = document_value doc field"
  have "(if (current = JNull \<or> current = JStr []) \<and> mode = ''inject'' then
      (if length ts \<noteq> 1 then Raise (Http 403 ''Cannot inject tenant when token has multiple tenants'')
       else set_document_value doc field (JStr (hd ts)))
    else if \<not> value_is_within_authorized_tenants rep current ts then Raise (Http 403 ''Document tenant is not allowed'')
    else Ok doc) = Ok doc'"
    using assms(2) mode(3) by (simp add: authorize_ingest_document_def mode(1,2,4,5) Let_def current_def cong: if_cong)
  then consider "set_document_value doc field (JStr (hd ts)) = Ok doc'" | "doc' = doc" "value_is_within_authorized_tenants rep (document_value doc field) ts"
    unfolding current_def by (metis sum.inject(2) sum.distinct(1))
  then show ?thesis
  proof cases
    case 1
    from set_document_value_read [OF this] tenant_values_some(1) [OF mode(4)]
    show ?thesis by (simp add: value_is_within_authorized_tenants_def)
  qed simp
qed

lemma tenancy_event:
  assumes "tenancy rep st rq coll policy field ts" and "event_tenant_identity rep st rq coll doc = Ok t"
  shows "t \<in> set ts"
proof -
  have "ts \<noteq> []" using assms(1) unfolding tenancy_def by (blast dest: tenant_values_some(1))
  then have one: "single_tenant ts = Ok t \<Longrightarrow> t \<in> set ts" by (auto simp: single_tenant_def split: if_splits)
  obtain mode where "collection_policy rep st coll = Ok policy" "policy_mode rep policy = Ok mode" "mode \<noteq> ''off''"
    "tenant_values_from_request rep st rq policy = Ok (Some ts)" "tenant_field rep policy = Ok field"
    using assms(1) by (auto simp: tenancy_def)
  with assms(2) one show ?thesis
    by (auto simp: event_tenant_identity_def Let_def split: option.splits json.splits if_splits)
qed

text \<open>A document without a tenant reads as the tenant \<open>None\<close>, which is a valid claim value.\<close>

lemma missing_tenant_reads_as_None:
  assumes "tenancy rep st rq coll policy field ts" and "document_value doc field = JNull"
  shows "can_read_document rep st rq coll doc = Ok (''None'' \<in> set ts)"
  using tenancy_reads [OF assms(1)] assms(2) by (simp add: value_matches_any_tenant_def)

text \<open>Parentheses: never more closed than opened, and all closed at the end.\<close>

fun paren_depth :: "nat \<Rightarrow> string \<Rightarrow> nat option" where
  "paren_depth n [] = Some n"
| "paren_depth n (c # cs) =
     (if c = CHR ''('' then paren_depth (Suc n) cs
      else if c = CHR '')'' then (case n of 0 \<Rightarrow> None | Suc m \<Rightarrow> paren_depth m cs)
      else paren_depth n cs)"

definition balanced :: "string \<Rightarrow> bool" where
  "balanced s \<longleftrightarrow> paren_depth 0 s = Some 0"

lemma paren_depth_append: "paren_depth n (s @ t) = Option.bind (paren_depth n s) (\<lambda>m. paren_depth m t)"
  by (induction n s rule: paren_depth.induct) (auto split: nat.splits)

lemma paren_depth_shift: "paren_depth n s = Some m \<Longrightarrow> paren_depth (n + k) s = Some (m + k)"
  by (induction n s rule: paren_depth.induct) (auto split: nat.splits)

lemma paren_depth_plain: "CHR ''('' \<notin> set s \<Longrightarrow> CHR '')'' \<notin> set s \<Longrightarrow> paren_depth n s = Some n"
  by (induction s arbitrary: n) auto

lemma balanced_group: "balanced b \<Longrightarrow> balanced g \<Longrightarrow> balanced (''('' @ b @ '') && '' @ g)"
  using paren_depth_shift [of 0 b 0 1] by (simp add: balanced_def paren_depth_append)

lemma join_with_set: "set (join_with sep xs) \<subseteq> set sep \<union> (\<Union>x \<in> set xs. set x)"
  by (induction sep xs rule: join_with.induct) auto

text \<open>
  Documented behaviour of Typesense filters, for a filter evaluator \<open>holds\<close>: a parenthesised
  group is a conjunct of what follows it after \<open>&&\<close>, and a disjunct of what follows it
  after \<open>||\<close>; the tenant filter compares the field with the tenants.
\<close>

definition typesense_and :: "(string \<Rightarrow> document \<Rightarrow> bool) \<Rightarrow> string \<Rightarrow> bool" where
  "typesense_and holds g \<longleftrightarrow> (\<forall>f d. balanced f \<longrightarrow> holds (''('' @ f @ '') && '' @ g) d = (holds f d \<and> holds g d))"

definition typesense_or :: "(string \<Rightarrow> document \<Rightarrow> bool) \<Rightarrow> bool" where
  "typesense_or holds \<longleftrightarrow> (\<forall>f g d. balanced f \<and> balanced g \<and> holds f d \<longrightarrow> holds (''('' @ f @ '') || '' @ g) d)"

definition tenant_filter_exact :: "(json \<Rightarrow> string) \<Rightarrow> (string \<Rightarrow> document \<Rightarrow> bool) \<Rightarrow> string \<Rightarrow> string list \<Rightarrow> bool" where
  "tenant_filter_exact rep holds field ts \<longleftrightarrow>
     (\<forall>d. holds (tenant_filter field ts) d = value_matches_any_tenant rep (document_value d field) ts)"

lemma tenancy_search:
  "tenancy rep st rq coll policy field ts \<Longrightarrow> authorize_search_request rep st rq coll filter_by =
     Ok (Some (let current = strip (case filter_by of Some f \<Rightarrow> f | None \<Rightarrow> []) in
       if current \<noteq> [] then ''('' @ current @ '') && '' @ tenant_filter field ts else tenant_filter field ts))"
  by (auto simp: tenancy_def authorize_search_request_def Let_def)

lemma tenant_filter_balanced:
  assumes "tenancy rep st rq coll policy field ts"
  shows "balanced (tenant_filter field ts)"
proof -
  have "TENANT_FIELD_PATTERN field" and ts: "ts \<noteq> []" "\<forall>t \<in> set ts. TENANT_VALUE_PATTERN t"
    using assms unfolding tenancy_def by (auto simp: tenant_field_def Let_def split: if_splits dest: tenant_values_some)
  then have field: "CHR ''('' \<notin> set field" "CHR '')'' \<notin> set field"
    by (auto simp: TENANT_FIELD_PATTERN_def list_all_iff is_alnum_def is_digit_def is_lower_def is_upper_def less_eq_char_def
        split: list.splits)
  have safe: "CHR ''('' \<notin> set t \<and> CHR '')'' \<notin> set t" if "t \<in> set ts" for t
  proof -
    have "\<forall>c \<in> set t. is_alnum c \<or> c = CHR ''_'' \<or> c = CHR ''-''"
      using ts(2) that by (simp add: TENANT_VALUE_PATTERN_def matches_def list_all_iff)
    moreover have "\<not> is_alnum (CHR ''('')" "\<not> is_alnum (CHR '')'')"
      by (simp_all add: is_alnum_def is_digit_def is_lower_def is_upper_def)
    ultimately show ?thesis by auto
  qed
  have "CHR ''('' \<notin> set (join_with '','' ts)" "CHR '')'' \<notin> set (join_with '','' ts)"
    using safe join_with_set [of "'',''" ts] by auto
  with field safe ts(1) show ?thesis by (simp add: balanced_def tenant_filter_def paren_depth_plain)
qed

section \<open>Configured policies fail closed\<close>

lemma valid_policies_enforced:
  assumes valid: "collection_policies_valid (st_collection_policies st)" and req: "policy_required st"
    and ok: "collection_policy rep st coll = Ok p"
  shows "mode_text rep p \<noteq> ''off''"
proof -
  from valid ok req obtain d where d: "st_collection_policies st = Policies (JObj d)" "d \<noteq> []"
    by (cases "st_collection_policies st")
      (auto simp: collection_policies_valid_def collection_policy_def authz_policies_def ebind_eq_Ok split: json.splits if_splits)
  show ?thesis
  proof (cases "dget d ''mode'' \<noteq> None \<or> dget d ''tenant_field'' \<noteq> None")
    case True
    then have "p = d" using ok d by (auto simp: collection_policy_def authz_policies_def)
    moreover have "policy_entry_ok (''*'', JObj d)" using valid True d by (simp add: collection_policies_valid_def)
    ultimately have "dget p ''mode'' = Some (JStr ''required'') \<or> dget p ''mode'' = Some (JStr ''inject'')"
      by (simp add: policy_entry_ok_def)
    then show ?thesis
      by (elim disjE) (simp_all add: mode_text_def get_or_def strip_def lower_def lower_char_def is_space_def Let_def)
  next
    case False
    with ok d req show ?thesis by (auto simp: collection_policy_def authz_policies_def ebind_eq_Ok split: if_splits)
  qed
qed

text \<open>A collection of tenants \<open>acme\<close> and \<open>zeta\<close>, one caller for each.\<close>

definition plain_rep :: "json \<Rightarrow> string" where
  "plain_rep v = []"

definition books_policy :: document where
  "books_policy = [(''mode'', JStr ''inject''), (''tenant_field'', JStr ''org''), (''tenant_claim'', JStr ''tid'')]"

definition tenant_settings :: authz_settings where
  "tenant_settings = \<lparr>st_deployment_profile = ''enterprise'', st_require_collection_policy = True,
     st_api_key_tenant_bypass = False, st_collection_policies = Policies (JObj books_policy)\<rparr>"

definition caller_of :: "string \<Rightarrow> auth_request" where
  "caller_of t = \<lparr>rq_auth_scheme = ''oidc'', rq_auth_claims = Some (JObj [(''tid'', JStr t)])\<rparr>"

lemmas tenancy_eval = tenancy_def collection_policy_def authz_policies_def tenant_settings_def books_policy_def policy_mode_def
  mode_text_def get_or_def VALID_TENANT_MODES_def tenant_values_from_request_def caller_of_def get_claim_path_def
  tenant_field_def strip_def lower_def lower_char_def is_space_def split_on_def comma_to_space_def TENANT_VALUE_PATTERN_def
  TENANT_FIELD_PATTERN_def matches_def is_alnum_def is_digit_def is_lower_def is_upper_def Let_def fromkeys_def

lemma caller_tenancy:
  "tenancy plain_rep tenant_settings (caller_of ''acme'') ''books'' books_policy ''org'' [''acme'']"
  "tenancy plain_rep tenant_settings (caller_of ''zeta'') ''books'' books_policy ''org'' [''zeta'']"
  by (simp_all add: tenancy_eval)

section \<open>Properties\<close>

text \<open>
  C13. Tenants are isolated. Under a tenant policy, a document that ingestion accepts, whether
  as it came or with the tenant injected, belongs to tenants of the caller only: the caller may
  read it, no caller with other tenants may, and the indexing event carries one of the
  caller's tenants.
\<close>

theorem tenant_writes_isolated:
  assumes "tenancy rep st rq coll policy field ts" and "authorize_ingest_document rep st rq coll doc = Ok doc'"
    and "tenancy rep st rq2 coll policy field ts2" and "set ts \<inter> set ts2 = {}"
  shows "can_read_document rep st rq coll doc' = Ok True \<and> can_read_document rep st rq2 coll doc' = Ok False \<and>
    (\<forall>t. event_tenant_identity rep st rq coll (Some doc') = Ok t \<longrightarrow> t \<in> set ts)"
proof -
  note within = tenancy_writes [OF assms(1,2)]
  show ?thesis
    using tenancy_reads [OF assms(1)] tenancy_reads [OF assms(3)] within_then_matches [OF within]
      within_excludes [OF within assms(4)] tenancy_event [OF assms(1)] by simp
qed

theorem tenant_writes_isolated_witness:
  "authorize_ingest_document plain_rep tenant_settings (caller_of ''acme'') ''books'' [(''id'', JStr ''b1'')] =
     Ok [(''id'', JStr ''b1''), (''org'', JStr ''acme'')] \<and>
   can_read_document plain_rep tenant_settings (caller_of ''zeta'') ''books'' [(''id'', JStr ''b1''), (''org'', JStr ''acme'')] = Ok False"
proof -
  have run: "authorize_ingest_document plain_rep tenant_settings (caller_of ''acme'') ''books'' [(''id'', JStr ''b1'')] =
     Ok [(''id'', JStr ''b1''), (''org'', JStr ''acme'')]"
    by (simp add: authorize_ingest_document_def tenancy_eval document_value_def set_document_value_def)
  from tenant_writes_isolated [OF caller_tenancy(1) run caller_tenancy(2)] run show ?thesis by simp
qed

text \<open>
  A deployment that requires policies fails closed. With policies that the settings
  accepted, no collection is served with tenancy off, and a request whose tenants cannot be
  established is refused by search, read, ingest, delete and event identity alike.
\<close>

theorem required_policies_fail_closed:
  assumes "collection_policies_valid (st_collection_policies st)" and "policy_required st"
    and "collection_policy rep st coll = Ok p" and "policy_mode rep p = Ok mode"
  shows "mode \<in> {''required'', ''inject''} \<and>
    (\<forall>rq e f d i. tenant_values_from_request rep st rq p = Raise e \<longrightarrow>
       authorize_search_request rep st rq coll f = Raise e \<and> can_read_document rep st rq coll d = Raise e \<and>
       authorize_ingest_document rep st rq coll d = Raise e \<and> authorize_delete_filter rep st rq coll i = Raise e \<and>
       event_tenant_identity rep st rq coll (Some d) = Raise e)"
proof -
  have on: "mode \<noteq> ''off''" using valid_policies_enforced [OF assms(1-3)] assms(4) by (auto simp: policy_mode_def Let_def split: if_splits)
  then have "mode \<in> {''required'', ''inject''}" using assms(4) by (auto simp: policy_mode_def Let_def VALID_TENANT_MODES_def split: if_splits)
  with on assms(3,4) show ?thesis
    by (simp add: authorize_search_request_def can_read_document_def authorize_ingest_document_def
        authorize_delete_filter_def event_tenant_identity_def)
qed

theorem required_policies_fail_closed_witness:
  "\<exists>e. can_read_document plain_rep tenant_settings \<lparr>rq_auth_scheme = ''oidc'', rq_auth_claims = None\<rparr> ''books'' [] = Raise e"
proof -
  have valid: "collection_policies_valid (st_collection_policies tenant_settings)" "policy_required tenant_settings"
    by (simp_all add: tenant_settings_def books_policy_def collection_policies_valid_def policy_entry_ok_def policy_required_def jget_def)
  have policy: "collection_policy plain_rep tenant_settings ''books'' = Ok books_policy" "policy_mode plain_rep books_policy = Ok ''inject''"
    by (simp_all add: tenancy_eval)
  have "\<exists>e. tenant_values_from_request plain_rep tenant_settings \<lparr>rq_auth_scheme = ''oidc'', rq_auth_claims = None\<rparr> books_policy = Raise e"
    by (simp add: tenant_values_from_request_def)
  then show ?thesis using required_policies_fail_closed [OF valid policy] by blast
qed


text \<open>An evaluator that knows the tenant filter of \<open>acme\<close> and ignores everything else.\<close>

definition tenant_only_filter :: "string \<Rightarrow> document \<Rightarrow> bool" where
  "tenant_only_filter f d \<longleftrightarrow> (suffix ''org:=acme'' f \<longrightarrow> value_matches_any_tenant plain_rep (document_value d ''org'') [''acme''])"

lemma tenant_only_filter_laws:
  "typesense_and tenant_only_filter (tenant_filter ''org'' [''acme''])"
  "tenant_filter_exact plain_rep tenant_only_filter ''org'' [''acme'']"
proof -
  have "suffix ''org:=acme'' (''('' @ f @ '') && org:=acme'')" for f :: string
    by (auto simp: suffix_def intro!: exI [of _ "''('' @ f @ '') && ''"])
  then show "typesense_and tenant_only_filter (tenant_filter ''org'' [''acme''])"
    by (auto simp: typesense_and_def tenant_only_filter_def tenant_filter_def)
qed (simp add: tenant_filter_exact_def tenant_only_filter_def tenant_filter_def)


text \<open>
  An unbalanced filter escapes its tenant. The caller's filter is put between parentheses
  unchecked, so one of the form a) || (b ends the group early: every document that a selects is
  selected by the filter that is sent, whatever its tenant.
\<close>

theorem search_filter_escapes_tenant:
  assumes "tenancy rep st rq coll policy field ts" and "typesense_or holds" and "balanced a" and "balanced b"
    and "strip (a @ '') || ('' @ b) = a @ '') || ('' @ b"
  shows "\<exists>sent. authorize_search_request rep st rq coll (Some (a @ '') || ('' @ b)) = Ok (Some sent) \<and>
    (\<forall>doc. holds a doc \<longrightarrow> holds sent doc)"
proof -
  let ?f = "a @ '') || ('' @ b"
  have "authorize_search_request rep st rq coll (Some ?f) = Ok (Some (''('' @ ?f @ '') && '' @ tenant_filter field ts))"
    using tenancy_search [OF assms(1), of "Some ?f"] assms(5) by simp
  moreover have "''('' @ ?f @ '') && '' @ tenant_filter field ts = ''('' @ a @ '') || '' @ (''('' @ b @ '') && '' @ tenant_filter field ts)"
    by simp
  moreover have "holds (''('' @ a @ '') || '' @ (''('' @ b @ '') && '' @ tenant_filter field ts)) doc" if "holds a doc" for doc
    using assms(2,3) that balanced_group [OF assms(4) tenant_filter_balanced [OF assms(1)]] unfolding typesense_or_def by blast
  ultimately show ?thesis by metis
qed

text \<open>An evaluator of the single comparison \<open>id:=7\<close>, behind any number of opening parentheses.\<close>

definition id_only_filter :: "string \<Rightarrow> document \<Rightarrow> bool" where
  "id_only_filter f d \<longleftrightarrow> take 5 (dropWhile (\<lambda>c. c = CHR ''('') f) = ''id:=7'' \<and> jget d ''id'' = JStr ''7''"

lemma id_only_filter_law: "typesense_or id_only_filter"
proof -
  have "take 5 (dropWhile (\<lambda>c. c = CHR ''('') (f @ g)) = ''id:=7''" if "take 5 (dropWhile (\<lambda>c. c = CHR ''('') f) = ''id:=7''" for f g
  proof -
    have len: "5 \<le> length (dropWhile (\<lambda>c. c = CHR ''('') f)" using arg_cong [OF that, of length] by simp
    have "dropWhile (\<lambda>c. c = CHR ''('') f \<noteq> []"
    proof
      assume "dropWhile (\<lambda>c. c = CHR ''('') f = []"
      with len show False by simp
    qed
    then obtain x where x: "x \<in> set f" "x \<noteq> CHR ''(''" unfolding dropWhile_eq_Nil_conv by blast
    have "dropWhile (\<lambda>c. c = CHR ''('') (f @ g) = dropWhile (\<lambda>c. c = CHR ''('') f @ g"
      using x by (intro dropWhile_append1) auto
    with that len show ?thesis by simp
  qed
  then show ?thesis by (simp add: typesense_or_def id_only_filter_def)
qed

theorem search_filter_escapes_tenant_witness:
  "\<exists>sent. authorize_search_request plain_rep tenant_settings (caller_of ''acme'') ''books'' (Some ''id:=7) || (x:=1'') = Ok (Some sent) \<and>
     id_only_filter sent [(''id'', JStr ''7''), (''org'', JStr ''zeta'')]"
proof -
  have "balanced ''id:=7''" "balanced ''x:=1''" by (simp_all add: balanced_def)
  moreover have "strip (''id:=7'' @ '') || ('' @ ''x:=1'') = ''id:=7'' @ '') || ('' @ ''x:=1''" by (simp add: strip_def is_space_def Let_def)
  ultimately obtain sent where "authorize_search_request plain_rep tenant_settings (caller_of ''acme'') ''books''
      (Some (''id:=7'' @ '') || ('' @ ''x:=1'')) = Ok (Some sent)" "\<forall>doc. id_only_filter ''id:=7'' doc \<longrightarrow> id_only_filter sent doc"
    using search_filter_escapes_tenant [OF caller_tenancy(1) id_only_filter_law] by blast
  moreover have "id_only_filter ''id:=7'' [(''id'', JStr ''7''), (''org'', JStr ''zeta'')]" by (simp add: id_only_filter_def jget_def)
  ultimately show ?thesis by auto
qed

end
