(* ===== verification/AccessControl.thy ===== *)
theory AccessControl
  imports Tenancy
begin

text \<open>
  \<open>query_api/app/deps.py\<close> and the scope half of \<open>query_api/app/auth.py\<close>: who may call an
  endpoint. The configured keys and the mapping of claims come decoded from the settings; the
  verification of a token's signature is the argument \<open>decode\<close>, the parser of ISO time
  stamps \<open>parse_iso\<close>, the hash \<open>digest\<close>. \<open>casefold\<close> is the ASCII \<open>lower\<close>.
\<close>

section \<open>API keys\<close>

record ScopedApiKey =
  sk_key :: string
  sk_scopes :: "string list"
  sk_claims :: document
  sk_expires_at :: "time option"

datatype json_setting = EmptySetting | BrokenSetting | JsonSetting json
datatype iso_result = IsoInvalid | IsoNaive | IsoAware time

record access_settings =
  as_admin_api_key :: string
  as_data_api_key :: string
  as_scoped_api_keys :: json_setting
  as_oidc_enabled :: bool
  as_oidc_scope_mapping :: json_setting
  as_oidc_scope_claims :: string
  as_oidc_subject_claim :: string

definition extract_api_key :: "string option \<Rightarrow> string option \<Rightarrow> string option" where
  "extract_api_key x_api_key authorization =
     (case x_api_key of
        Some k \<Rightarrow> if k \<noteq> [] then Some k
          else (case authorization of Some a \<Rightarrow> if take 7 a = ''Bearer '' then Some (strip (drop 7 a)) else None | None \<Rightarrow> None)
      | None \<Rightarrow> (case authorization of Some a \<Rightarrow> if take 7 a = ''Bearer '' then Some (strip (drop 7 a)) else None | None \<Rightarrow> None))"

definition replace_z :: "string \<Rightarrow> string" where
  "replace_z s = concat (map (\<lambda>c. if c = CHR ''Z'' then ''+00:00'' else [c]) s)"

definition scopes_of :: "(json \<Rightarrow> string) \<Rightarrow> json \<Rightarrow> string list" where
  "scopes_of rep v = filter (\<lambda>s. s \<noteq> []) (case v of
     JStr s \<Rightarrow> map (\<lambda>x. lower (strip x)) (split_on (CHR '','') s)
   | JArr xs \<Rightarrow> map (\<lambda>x. lower (strip (py_str rep x))) xs
   | _ \<Rightarrow> [])"

definition bad_keys :: http_error where
  "bad_keys = Http 500 ''Invalid SCOPED_API_KEYS configuration''"

definition parse_scoped_api_key ::
  "(json \<Rightarrow> string) \<Rightarrow> (string \<Rightarrow> iso_result) \<Rightarrow> json \<Rightarrow> http_error + ScopedApiKey" where
  "parse_scoped_api_key rep parse_iso entry =
     (case entry of
        JObj d \<Rightarrow>
          let key = strip (py_str rep (get_or d ''key'' (JStr []))); scopes = scopes_of rep (get_or d ''scopes'' (JArr [])) in
          if key = [] \<or> scopes = [] then Raise bad_keys
          else (case get_or d ''claims'' (JObj []) of
            JObj claims \<Rightarrow>
              let raw = strip (py_str rep (get_or d ''expires_at'' (JStr []))) in
              if raw = [] then Ok \<lparr>sk_key = key, sk_scopes = scopes, sk_claims = claims, sk_expires_at = None\<rparr>
              else (case parse_iso (replace_z raw) of
                IsoAware t \<Rightarrow> Ok \<lparr>sk_key = key, sk_scopes = scopes, sk_claims = claims, sk_expires_at = Some t\<rparr>
              | _ \<Rightarrow> Raise bad_keys)
          | _ \<Rightarrow> Raise bad_keys)
      | _ \<Rightarrow> Raise bad_keys)"

definition parse_scoped_api_keys ::
  "(json \<Rightarrow> string) \<Rightarrow> (string \<Rightarrow> iso_result) \<Rightarrow> access_settings \<Rightarrow> http_error + ScopedApiKey list" where
  "parse_scoped_api_keys rep parse_iso st =
     (case as_scoped_api_keys st of
        EmptySetting \<Rightarrow> Ok []
      | JsonSetting (JArr entries) \<Rightarrow> mapE (parse_scoped_api_key rep parse_iso) entries
      | _ \<Rightarrow> Raise bad_keys)"

definition resource_scope_matches :: "string \<Rightarrow> string \<Rightarrow> string \<Rightarrow> bool" where
  "resource_scope_matches scope base resource =
     (let prefix = base @ '':'' in
      take (length prefix) scope = prefix \<and>
      (let pat = strip (drop (length prefix) scope) in pat \<noteq> [] \<and> fnmatch (lower resource) (lower pat)))"

definition scope_matches :: "string list \<Rightarrow> string \<Rightarrow> string option \<Rightarrow> bool" where
  "scope_matches scopes required resource \<longleftrightarrow>
     ''*'' \<in> set scopes \<or> required \<in> set scopes \<or>
     required \<in> {''search'', ''ingest''} \<and> (''data'' \<in> set scopes \<or> ''data:*'' \<in> set scopes) \<or>
     required = ''data'' \<and> (''data'' \<in> set scopes \<or> ''data:*'' \<in> set scopes) \<or>
     required = ''admin'' \<and> ''admin:*'' \<in> set scopes \<or>
     take 6 required = ''admin:'' \<and> (''admin'' \<in> set scopes \<or> ''admin:*'' \<in> set scopes) \<or>
     (case resource of
        None \<Rightarrow> False
      | Some r \<Rightarrow> r \<noteq> [] \<and>
          (if required = ''search'' then \<exists>s \<in> set scopes. resource_scope_matches s ''search'' r \<or> resource_scope_matches s ''data'' r
           else if required = ''ingest'' then \<exists>s \<in> set scopes. resource_scope_matches s ''ingest'' r \<or> resource_scope_matches s ''data'' r
           else required = ''data'' \<and> (\<exists>s \<in> set scopes. resource_scope_matches s ''data'' r)))"

definition expired :: "time \<Rightarrow> ScopedApiKey \<Rightarrow> bool" where
  "expired now k \<longleftrightarrow> (case sk_expires_at k of Some t \<Rightarrow> t \<le> now | None \<Rightarrow> False)"

definition candidate_keys_for_scope ::
  "(json \<Rightarrow> string) \<Rightarrow> (string \<Rightarrow> iso_result) \<Rightarrow> access_settings \<Rightarrow> time \<Rightarrow> string \<Rightarrow> string option
   \<Rightarrow> http_error + (string \<times> document) list" where
  "candidate_keys_for_scope rep parse_iso st now required resource =
     ebind (parse_scoped_api_keys rep parse_iso st) (\<lambda>keys. Ok
       ((if (required = ''admin'' \<or> take 6 required = ''admin:'') \<and> as_admin_api_key st \<noteq> [] then [(as_admin_api_key st, [])] else []) @
        (if required \<in> {''search'', ''ingest'', ''data''} \<and> as_data_api_key st \<noteq> [] then [(as_data_api_key st, [])] else []) @
        map (\<lambda>k. (sk_key k, sk_claims k))
          (filter (\<lambda>k. \<not> expired now k \<and> scope_matches (sk_scopes k) required resource) keys)))"

definition all_active_api_keys ::
  "(json \<Rightarrow> string) \<Rightarrow> (string \<Rightarrow> iso_result) \<Rightarrow> access_settings \<Rightarrow> time \<Rightarrow> http_error + string list" where
  "all_active_api_keys rep parse_iso st now =
     ebind (parse_scoped_api_keys rep parse_iso st) (\<lambda>keys. Ok
       (filter (\<lambda>k. k \<noteq> []) [as_admin_api_key st, as_data_api_key st] @
        map sk_key (filter (\<lambda>k. \<not> expired now k) keys)))"

section \<open>Scopes of a token\<close>

datatype oidc_error = OidcConfigError | OidcTokenError | OidcAuthorizationError

definition ADMIN_OPERATION_SCOPES :: "string list" where
  "ADMIN_OPERATION_SCOPES = [''admin:read'', ''admin:write'', ''admin:backup'', ''admin:restore'', ''admin:internal'']"

definition VALID_INTERNAL_SCOPES :: "string list" where
  "VALID_INTERNAL_SCOPES = [''admin'', ''search'', ''ingest'', ''data''] @ ADMIN_OPERATION_SCOPES"

definition DEFAULT_OIDC_SCOPE_MAPPING :: "(string \<times> string list) list" where
  "DEFAULT_OIDC_SCOPE_MAPPING =
     (''admin'', [''imposbro:admin'', ''imposbro:*'']) #
     map (\<lambda>s. (s, [''imposbro:'' @ s, ''imposbro:admin:*'', ''imposbro:admin'', ''imposbro:*''])) ADMIN_OPERATION_SCOPES @
     [(''search'', [''imposbro:search'', ''imposbro:data'', ''imposbro:*'']),
      (''ingest'', [''imposbro:ingest'', ''imposbro:data'', ''imposbro:*'']),
      (''data'', [''imposbro:data'', ''imposbro:*''])]"

definition split_csv :: "string \<Rightarrow> string list" where
  "split_csv v = filter (\<lambda>x. x \<noteq> []) (map strip (split_on (CHR '','') v))"

definition parse_scope_entry :: "(json \<Rightarrow> string) \<Rightarrow> string \<times> json \<Rightarrow> oidc_error + string \<times> string list" where
  "parse_scope_entry rep kv =
     (let scope = lower (strip (fst kv)) in
      if scope \<notin> set VALID_INTERNAL_SCOPES then Raise OidcConfigError
      else ebind (case snd kv of
          JStr s \<Rightarrow> Ok (split_csv s)
        | JArr xs \<Rightarrow> Ok (filter (\<lambda>x. x \<noteq> []) (map (\<lambda>x. strip (py_str rep x)) xs))
        | _ \<Rightarrow> Raise OidcConfigError) (\<lambda>claims.
        if claims = [] then Raise OidcConfigError else Ok (scope, map lower claims)))"

definition parse_scope_mapping ::
  "(json \<Rightarrow> string) \<Rightarrow> access_settings \<Rightarrow> oidc_error + (string, string list) pydict" where
  "parse_scope_mapping rep st =
     (case as_oidc_scope_mapping st of
        EmptySetting \<Rightarrow> Ok (map (\<lambda>(s, cs). (s, map lower cs)) DEFAULT_OIDC_SCOPE_MAPPING)
      | JsonSetting (JObj d) \<Rightarrow>
          ebind (mapE (parse_scope_entry rep) d) (\<lambda>es. Ok (foldl (\<lambda>m (k, v). dput k v m) [] es))
      | _ \<Rightarrow> Raise OidcConfigError)"

definition token_grants :: "(json \<Rightarrow> string) \<Rightarrow> access_settings \<Rightarrow> document \<Rightarrow> string list" where
  "token_grants rep st claims = map lower (concat (map (\<lambda>path.
     flatten_claim_values rep (get_claim_path (JObj claims) path)) (split_csv (as_oidc_scope_claims st))))"

definition resource_claim_matches :: "string list \<Rightarrow> string list \<Rightarrow> string \<Rightarrow> bool" where
  "resource_claim_matches grants allowed resource \<longleftrightarrow>
     (\<exists>a \<in> set allowed. \<exists>g \<in> set grants. take (length a + 1) g = a @ '':'' \<and>
        (let pat = strip (drop (length a + 1) g) in pat \<noteq> [] \<and> fnmatch (lower resource) pat))"

definition mapping_get :: "(string, string list) pydict \<Rightarrow> string \<Rightarrow> string list" where
  "mapping_get m scope = (case dget m scope of Some cs \<Rightarrow> cs | None \<Rightarrow> [])"

definition has_required_scope ::
  "(json \<Rightarrow> string) \<Rightarrow> access_settings \<Rightarrow> document \<Rightarrow> string \<Rightarrow> string option \<Rightarrow> oidc_error + bool" where
  "has_required_scope rep st claims required resource =
     ebind (parse_scope_mapping rep st) (\<lambda>m.
       let allowed = mapping_get m required @ (if take 6 required = ''admin:'' then mapping_get m ''admin'' else []);
           grants = token_grants rep st claims in
       Ok (set allowed \<inter> set grants \<noteq> {} \<or>
         (case resource of
            None \<Rightarrow> False
          | Some r \<Rightarrow> r \<noteq> [] \<and>
              (\<exists>s \<in> set (required # (if required \<in> {''search'', ''ingest''} then [''data''] else [])).
                 resource_claim_matches grants (mapping_get m s) r))))"

text \<open>
  The verification of a token. The key set behind a URL (\<open>PyJWKClient\<close>) and \<open>jwt.decode\<close>
  are arguments; the leeway and the required claims go with \<open>jwt_decode\<close>.
\<close>

record oidc_verifier =
  ov_issuer :: string
  ov_audience :: string
  ov_jwks_url :: string
  ov_public_key :: string
  ov_algorithms :: string

definition is_symmetric :: "string \<Rightarrow> bool" where
  "is_symmetric a \<longleftrightarrow> lower (take 2 a) = ''hs''"

definition oidc_algorithms :: "oidc_verifier \<Rightarrow> oidc_error + string list" where
  "oidc_algorithms v =
     (let algorithms = split_csv (ov_algorithms v) in
      if algorithms = [] then Raise OidcConfigError
      else if \<exists>a \<in> set algorithms. is_symmetric a then Raise OidcConfigError
      else Ok algorithms)"

fun unescape_newlines :: "string \<Rightarrow> string" where
  "unescape_newlines (c # d # cs) =
     (if c = CHR 0x5C \<and> d = CHR ''n'' then CHR 0x0A # unescape_newlines cs else c # unescape_newlines (d # cs))"
| "unescape_newlines cs = cs"

definition static_public_key :: "oidc_verifier \<Rightarrow> string" where
  "static_public_key v = strip (unescape_newlines (ov_public_key v))"

definition decode_oidc_token ::
  "(string \<Rightarrow> string \<Rightarrow> string option) \<Rightarrow> (string \<Rightarrow> string \<Rightarrow> string list \<Rightarrow> string \<Rightarrow> string \<Rightarrow> document option)
   \<Rightarrow> oidc_verifier \<Rightarrow> string \<Rightarrow> oidc_error + document" where
  "decode_oidc_token signing_key jwt_decode v token =
     (let issuer = strip (ov_issuer v); audience = strip (ov_audience v); jwks_url = strip (ov_jwks_url v);
          public_key = static_public_key v in
      if issuer = [] \<or> audience = [] then Raise OidcConfigError
      else if (jwks_url \<noteq> []) = (public_key \<noteq> []) then Raise OidcConfigError
      else ebind (oidc_algorithms v) (\<lambda>algorithms.
        ebind (if jwks_url \<noteq> [] then (case signing_key jwks_url token of Some k \<Rightarrow> Ok k | None \<Rightarrow> Raise OidcTokenError)
               else Ok public_key) (\<lambda>key.
          case jwt_decode token key algorithms audience issuer of
            Some claims \<Rightarrow> Ok claims
          | None \<Rightarrow> Raise OidcTokenError)))"

text \<open>\<open>str(value or fallback)\<close> of the subject; the digest keeps its first 16 digits.\<close>

definition authenticate_oidc_bearer ::
  "(json \<Rightarrow> string) \<Rightarrow> (string \<Rightarrow> string) \<Rightarrow> (string \<Rightarrow> oidc_error + document) \<Rightarrow> access_settings \<Rightarrow> string \<Rightarrow> string
   \<Rightarrow> string option \<Rightarrow> oidc_error + (string \<times> document) option" where
  "authenticate_oidc_bearer rep digest decode st token required resource =
     (if \<not> as_oidc_enabled st then Ok None
      else ebind (decode token) (\<lambda>claims.
        ebind (has_required_scope rep st claims required resource) (\<lambda>ok.
          if \<not> ok then Raise OidcAuthorizationError
          else
            let path = (let p = strip (as_oidc_subject_claim st) in if p = [] then ''sub'' else p);
                found = get_claim_path (JObj claims) path;
                subject = py_str rep (if truthy found then found else get_or claims ''sub'' (JStr ''unknown''));
                issuer = py_str rep (get_or claims ''iss'' (JStr ''unknown'')) in
            Ok (Some (''oidc:'' @ take 16 (digest (issuer @ [CHR 0x00] @ subject)), claims)))))"

definition oidc_http_exception :: "oidc_error \<Rightarrow> http_error" where
  "oidc_http_exception e =
     (case e of OidcConfigError \<Rightarrow> Http 500 ''oidc'' | OidcAuthorizationError \<Rightarrow> Http 403 ''oidc'' | OidcTokenError \<Rightarrow> Http 401 ''oidc'')"

section \<open>The guard\<close>

text \<open>\<open>secrets.compare_digest\<close> raises \<open>TypeError\<close> on text that is not ASCII.\<close>

definition compare_digest :: "string \<Rightarrow> string \<Rightarrow> http_error + bool" where
  "compare_digest a b =
     (if list_all (\<lambda>c. (of_char c :: nat) < 128) a \<and> list_all (\<lambda>c. (of_char c :: nat) < 128) b
      then Ok (a = b) else Raise (Unhandled ''compare_digest''))"

fun first_equal :: "string \<Rightarrow> (string \<times> 'a) list \<Rightarrow> http_error + (string \<times> 'a) option" where
  "first_equal p [] = Ok None"
| "first_equal p ((k, x) # ks) =
     ebind (compare_digest p k) (\<lambda>eq. if eq then Ok (Some (k, x)) else first_equal p ks)"

definition key_known :: "string \<Rightarrow> string list \<Rightarrow> http_error + bool" where
  "key_known p keys = ebind (first_equal p (map (\<lambda>k. (k, ())) keys)) (\<lambda>r. Ok (r \<noteq> None))"

record auth_state =
  au_actor :: string
  au_scheme :: string
  au_claims :: "document option"

definition api_key_actor :: "(string \<Rightarrow> string) \<Rightarrow> string \<Rightarrow> string" where
  "api_key_actor digest key = ''api_key:'' @ take 12 (digest key)"

definition require_token ::
  "(json \<Rightarrow> string) \<Rightarrow> (string \<Rightarrow> string) \<Rightarrow> (string \<Rightarrow> oidc_error + document) \<Rightarrow> access_settings
   \<Rightarrow> string \<Rightarrow> string option \<Rightarrow> string option \<Rightarrow> http_error + auth_state" where
  "require_token rep digest decode st required resource authorization =
     (case authorization of
        Some a \<Rightarrow>
          if take 7 a = ''Bearer '' \<and> as_oidc_enabled st then
            (case authenticate_oidc_bearer rep digest decode st (strip (drop 7 a)) required resource of
               Inl e \<Rightarrow> Raise (oidc_http_exception e)
             | Inr (Some (actor, claims)) \<Rightarrow> Ok \<lparr>au_actor = actor, au_scheme = ''oidc'', au_claims = Some claims\<rparr>
             | Inr None \<Rightarrow> Raise (Http 401 ''Invalid or missing API key''))
          else Raise (Http 401 ''Invalid or missing API key'')
      | None \<Rightarrow> Raise (Http 401 ''Invalid or missing API key''))"

definition require_credentials ::
  "(json \<Rightarrow> string) \<Rightarrow> (string \<Rightarrow> iso_result) \<Rightarrow> (string \<Rightarrow> string) \<Rightarrow> (string \<Rightarrow> oidc_error + document) \<Rightarrow> access_settings
   \<Rightarrow> time \<Rightarrow> string \<Rightarrow> string option \<Rightarrow> string option \<Rightarrow> string option \<Rightarrow> (string \<times> document) list \<Rightarrow> http_error + auth_state" where
  "require_credentials rep parse_iso digest decode st now required resource provided authorization candidates =
     (let key = (case provided of Some p \<Rightarrow> p | None \<Rightarrow> []) in
      ebind (if key \<noteq> [] then first_equal key candidates else Ok None) (\<lambda>hit.
        case hit of
          Some (k, claims) \<Rightarrow> Ok \<lparr>au_actor = api_key_actor digest key, au_scheme = ''api_key'', au_claims = Some claims\<rparr>
        | None \<Rightarrow>
            ebind (if key \<noteq> [] then ebind (all_active_api_keys rep parse_iso st now) (key_known key) else Ok False) (\<lambda>known.
              if known then Raise (Http 403 ''Insufficient scope'')
              else require_token rep digest decode st required resource authorization)))"

definition require_api_key_for_scope ::
  "(json \<Rightarrow> string) \<Rightarrow> (string \<Rightarrow> iso_result) \<Rightarrow> (string \<Rightarrow> string) \<Rightarrow> (string \<Rightarrow> oidc_error + document) \<Rightarrow> access_settings
   \<Rightarrow> time \<Rightarrow> bool \<Rightarrow> string \<Rightarrow> string option \<Rightarrow> string option \<Rightarrow> string option \<Rightarrow> http_error + auth_state" where
  "require_api_key_for_scope rep parse_iso digest decode st now allow required resource x_api_key authorization =
     ebind (candidate_keys_for_scope rep parse_iso st now required resource) (\<lambda>candidates.
       let provided = extract_api_key x_api_key authorization; key = (case provided of Some p \<Rightarrow> p | None \<Rightarrow> []) in
       if candidates = [] \<and> \<not> as_oidc_enabled st then
         ebind (all_active_api_keys rep parse_iso st now) (\<lambda>active.
         ebind (if key \<noteq> [] then key_known key active else Ok False) (\<lambda>known.
           if known then Raise (Http 403 ''Insufficient scope'')
           else if allow \<and> active = [] then Ok \<lparr>au_actor = ''unauthenticated-dev'', au_scheme = ''none'', au_claims = None\<rparr>
           else Raise (Http 401 ''API key is required'')))
       else require_credentials rep parse_iso digest decode st now required resource provided authorization candidates)"

definition require_admin_mutations_unfrozen :: "bool \<Rightarrow> http_error + unit" where
  "require_admin_mutations_unfrozen frozen =
     (if frozen then Raise (Http 503 ''Control-plane admin mutations are temporarily frozen'') else Ok ())"

section \<open>What opens the guard\<close>

lemma first_equal_Some: "first_equal p ks = Ok (Some (k, x)) \<Longrightarrow> k = p \<and> (k, x) \<in> set ks"
  by (induction p ks rule: first_equal.induct) (auto simp: compare_digest_def split: if_splits)

lemma candidate_origin:
  assumes "candidate_keys_for_scope rep parse_iso st now required resource = Ok candidates" and "(k, claims) \<in> set candidates"
  shows "k = as_admin_api_key st \<and> (required = ''admin'' \<or> take 6 required = ''admin:'') \<and> k \<noteq> [] \<and> claims = [] \<or>
    k = as_data_api_key st \<and> required \<in> {''search'', ''ingest'', ''data''} \<and> k \<noteq> [] \<and> claims = [] \<or>
    (\<exists>keys. parse_scoped_api_keys rep parse_iso st = Ok keys \<and>
      (\<exists>key \<in> set keys. sk_key key = k \<and> sk_claims key = claims \<and> \<not> expired now key \<and> scope_matches (sk_scopes key) required resource))"
proof -
  obtain keys where keys: "parse_scoped_api_keys rep parse_iso st = Ok keys" and
    candidates: "candidates =
       (if (required = ''admin'' \<or> take 6 required = ''admin:'') \<and> as_admin_api_key st \<noteq> [] then [(as_admin_api_key st, [])] else []) @
       (if required \<in> {''search'', ''ingest'', ''data''} \<and> as_data_api_key st \<noteq> [] then [(as_data_api_key st, [])] else []) @
       map (\<lambda>k. (sk_key k, sk_claims k)) (filter (\<lambda>k. \<not> expired now k \<and> scope_matches (sk_scopes k) required resource) keys)"
    using assms(1) unfolding candidate_keys_for_scope_def ebind_eq_Ok by blast
  have "(k, claims) \<in> set (if (required = ''admin'' \<or> take 6 required = ''admin:'') \<and> as_admin_api_key st \<noteq> [] then [(as_admin_api_key st, [])] else []) \<or>
    (k, claims) \<in> set (if required \<in> {''search'', ''ingest'', ''data''} \<and> as_data_api_key st \<noteq> [] then [(as_data_api_key st, [])] else []) \<or>
    (k, claims) \<in> set (map (\<lambda>k. (sk_key k, sk_claims k)) (filter (\<lambda>k. \<not> expired now k \<and> scope_matches (sk_scopes k) required resource) keys))"
    using assms(2) unfolding candidates set_append by blast
  then show ?thesis
  proof (elim disjE)
    assume "(k, claims) \<in> set (if (required = ''admin'' \<or> take 6 required = ''admin:'') \<and> as_admin_api_key st \<noteq> [] then [(as_admin_api_key st, [])] else [])"
    then show ?thesis by (simp split: if_splits)
  next
    assume "(k, claims) \<in> set (if required \<in> {''search'', ''ingest'', ''data''} \<and> as_data_api_key st \<noteq> [] then [(as_data_api_key st, [])] else [])"
    then show ?thesis by (simp split: if_splits)
  next
    assume "(k, claims) \<in> set (map (\<lambda>k. (sk_key k, sk_claims k)) (filter (\<lambda>k. \<not> expired now k \<and> scope_matches (sk_scopes k) required resource) keys))"
    then obtain key where "key \<in> set keys" "sk_key key = k" "sk_claims key = claims" "\<not> expired now key" "scope_matches (sk_scopes key) required resource"
      by auto
    with keys show ?thesis by blast
  qed
qed

lemma admin_scope_matches:
  assumes "required = ''admin'' \<or> take 6 required = ''admin:''"
  shows "scope_matches scopes required resource \<longleftrightarrow>
    ''*'' \<in> set scopes \<or> required \<in> set scopes \<or> ''admin:*'' \<in> set scopes \<or>
    required \<noteq> ''admin'' \<and> ''admin'' \<in> set scopes"
  using assms by (auto simp: scope_matches_def split: option.splits)

text \<open>The three ways through the guard.\<close>

definition opened_by_key ::
  "(json \<Rightarrow> string) \<Rightarrow> (string \<Rightarrow> iso_result) \<Rightarrow> access_settings \<Rightarrow> time \<Rightarrow> string \<Rightarrow> string option \<Rightarrow> string \<Rightarrow> auth_state \<Rightarrow> bool" where
  "opened_by_key rep parse_iso st now required resource key au \<longleftrightarrow> au_scheme au = ''api_key'' \<and> key \<noteq> [] \<and>
     (key = as_admin_api_key st \<and> (required = ''admin'' \<or> take 6 required = ''admin:'') \<and> au_claims au = Some [] \<or>
      key = as_data_api_key st \<and> required \<in> {''search'', ''ingest'', ''data''} \<and> au_claims au = Some [] \<or>
      (\<exists>keys. parse_scoped_api_keys rep parse_iso st = Ok keys \<and>
        (\<exists>k \<in> set keys. sk_key k = key \<and> au_claims au = Some (sk_claims k) \<and> \<not> expired now k \<and>
           scope_matches (sk_scopes k) required resource)))"

definition opened_by_token ::
  "(json \<Rightarrow> string) \<Rightarrow> (string \<Rightarrow> oidc_error + document) \<Rightarrow> access_settings \<Rightarrow> string \<Rightarrow> string option \<Rightarrow> string option \<Rightarrow> auth_state \<Rightarrow> bool" where
  "opened_by_token rep decode st required resource authorization au \<longleftrightarrow> au_scheme au = ''oidc'' \<and> as_oidc_enabled st \<and>
     (\<exists>a claims. authorization = Some a \<and> take 7 a = ''Bearer '' \<and> decode (strip (drop 7 a)) = Ok claims \<and>
        au_claims au = Some claims \<and> has_required_scope rep st claims required resource = Ok True)"

lemma authenticated_token:
  "authenticate_oidc_bearer rep digest decode st token required resource = Ok (Some (actor, claims)) \<Longrightarrow>
   as_oidc_enabled st \<and> decode token = Ok claims \<and> has_required_scope rep st claims required resource = Ok True"
  by (auto simp: authenticate_oidc_bearer_def ebind_eq_Ok Let_def split: if_splits)

text \<open>A token is only ever verified with a named issuer and audience and asymmetric algorithms.\<close>

lemma decoded_token_verified:
  assumes "decode_oidc_token signing_key jwt_decode v token = Ok claims"
  shows "\<exists>key algorithms. jwt_decode token key algorithms (strip (ov_audience v)) (strip (ov_issuer v)) = Some claims \<and>
    algorithms \<noteq> [] \<and> (\<forall>a \<in> set algorithms. \<not> is_symmetric a) \<and> strip (ov_audience v) \<noteq> [] \<and> strip (ov_issuer v) \<noteq> [] \<and>
    (if strip (ov_jwks_url v) \<noteq> [] then signing_key (strip (ov_jwks_url v)) token = Some key else key = static_public_key v \<and> key \<noteq> [])"
proof -
  from assms have settings: "strip (ov_issuer v) \<noteq> []" "strip (ov_audience v) \<noteq> []"
    "(strip (ov_jwks_url v) \<noteq> []) \<noteq> (static_public_key v \<noteq> [])"
    by (auto simp: decode_oidc_token_def Let_def split: if_splits)
  with assms obtain algorithms key where algs: "oidc_algorithms v = Ok algorithms"
    and key: "(if strip (ov_jwks_url v) \<noteq> [] then (case signing_key (strip (ov_jwks_url v)) token of Some k \<Rightarrow> Ok k | None \<Rightarrow> Raise OidcTokenError)
               else Ok (static_public_key v)) = Ok key"
    and claims: "(case jwt_decode token key algorithms (strip (ov_audience v)) (strip (ov_issuer v)) of
            Some claims \<Rightarrow> Ok claims | None \<Rightarrow> Raise OidcTokenError) = Ok claims"
    by (auto simp: decode_oidc_token_def Let_def ebind_eq_Ok)
  from algs have "algorithms \<noteq> []" "\<forall>a \<in> set algorithms. \<not> is_symmetric a"
    by (auto simp: oidc_algorithms_def Let_def split: if_splits)
  moreover from claims have "jwt_decode token key algorithms (strip (ov_audience v)) (strip (ov_issuer v)) = Some claims"
    by (auto split: option.splits)
  ultimately show ?thesis using settings key by (auto split: if_splits option.splits)
qed

lemma require_token_opened:
  assumes "require_token rep digest decode st required resource authorization = Ok au"
  shows "opened_by_token rep decode st required resource authorization au"
proof -
  from assms obtain a actor claims where a: "authorization = Some a" "take 7 a = ''Bearer ''"
    "authenticate_oidc_bearer rep digest decode st (strip (drop 7 a)) required resource = Ok (Some (actor, claims))"
    "au_scheme au = ''oidc''" "au_claims au = Some claims"
    by (auto simp: require_token_def split: option.splits if_splits sum.splits)
  from authenticated_token [OF a(3)] a show ?thesis by (auto simp: opened_by_token_def)
qed

lemma require_credentials_cases:
  assumes "require_credentials rep parse_iso digest decode st now required resource provided authorization candidates = Ok au"
  shows "(\<exists>key claims. provided = Some key \<and> key \<noteq> [] \<and> au_scheme au = ''api_key'' \<and> au_claims au = Some claims \<and>
      (key, claims) \<in> set candidates) \<or>
    opened_by_token rep decode st required resource authorization au"
proof -
  define key where "key = (case provided of Some p \<Rightarrow> p | None \<Rightarrow> [])"
  obtain hit where hit: "(if key \<noteq> [] then first_equal key candidates else Ok None) = Ok hit"
    and go: "(case hit of
        Some (k, claims) \<Rightarrow> Ok \<lparr>au_actor = api_key_actor digest key, au_scheme = ''api_key'', au_claims = Some claims\<rparr>
      | None \<Rightarrow>
          ebind (if key \<noteq> [] then ebind (all_active_api_keys rep parse_iso st now) (key_known key) else Ok False) (\<lambda>known.
            if known then Raise (Http 403 ''Insufficient scope'')
            else require_token rep digest decode st required resource authorization)) = Ok au"
    using assms unfolding require_credentials_def Let_def key_def [symmetric] ebind_eq_Ok by blast
  show ?thesis
  proof (cases hit)
    case (Some kc)
    obtain k claims where kc: "kc = (k, claims)" by fastforce
    have key: "key \<noteq> []" and first: "first_equal key candidates = Ok (Some (k, claims))"
      using hit Some kc by (auto split: if_splits)
    from key have "provided = Some key" by (auto simp: key_def split: option.splits)
    moreover have "au_scheme au = ''api_key''" "au_claims au = Some claims" using go Some kc by auto
    ultimately show ?thesis using first_equal_Some [OF first] key by blast
  next
    case None
    with go have "require_token rep digest decode st required resource authorization = Ok au"
      by (auto simp: ebind_eq_Ok split: if_splits)
    then show ?thesis using require_token_opened by blast
  qed
qed

lemma guard_cases:
  assumes "require_api_key_for_scope rep parse_iso digest decode st now allow required resource x_api_key authorization = Ok au"
  shows "(\<exists>key claims candidates. extract_api_key x_api_key authorization = Some key \<and> key \<noteq> [] \<and> au_scheme au = ''api_key'' \<and>
      au_claims au = Some claims \<and> candidate_keys_for_scope rep parse_iso st now required resource = Ok candidates \<and>
      (key, claims) \<in> set candidates) \<or>
    opened_by_token rep decode st required resource authorization au \<or>
    au_scheme au = ''none'' \<and> allow \<and> \<not> as_oidc_enabled st \<and> all_active_api_keys rep parse_iso st now = Ok []"
proof -
  obtain candidates where candidates: "candidate_keys_for_scope rep parse_iso st now required resource = Ok candidates"
    using assms unfolding require_api_key_for_scope_def ebind_eq_Ok by blast
  show ?thesis
  proof (cases "candidates = [] \<and> \<not> as_oidc_enabled st")
    case True
    with assms candidates have "\<exists>active. all_active_api_keys rep parse_iso st now = Ok active \<and> allow \<and> active = [] \<and> au_scheme au = ''none''"
      by (auto simp: require_api_key_for_scope_def ebind_eq_Ok Let_def split: if_splits)
    with True show ?thesis by blast
  next
    case False
    from assms have "require_credentials rep parse_iso digest decode st now required resource
        (extract_api_key x_api_key authorization) authorization candidates = Ok au"
      unfolding require_api_key_for_scope_def candidates ebind_Ok Let_def if_not_P [OF False] .
    from require_credentials_cases [OF this] candidates show ?thesis by blast
  qed
qed

section \<open>Properties\<close>

lemma admin_needs_admin_scope:
  assumes "required = ''admin'' \<or> take 6 required = ''admin:''" "scope_matches scopes required resource"
  shows "{''*'', ''admin'', ''admin:*'', required} \<inter> set scopes \<noteq> {}"
  using assms by (auto simp: admin_scope_matches)


text \<open>One scoped key for searching \<open>books\<close>.\<close>

definition key_settings :: access_settings where
  "key_settings = \<lparr>as_admin_api_key = ''root'', as_data_api_key = [],
     as_scoped_api_keys = JsonSetting (JArr [JObj [(''key'', JStr ''k1''), (''scopes'', JStr ''search:books'')]]),
     as_oidc_enabled = False, as_oidc_scope_mapping = EmptySetting, as_oidc_scope_claims = ''scope'', as_oidc_subject_claim = ''sub''\<rparr>"


end
