(* ===== verification/Ranking.thy ===== *)
theory Ranking
  imports Prelude
begin

text \<open>
  Merging ranked lists: sorting by a three-way comparison (\<open>sorted\<close> with
  \<open>cmp_to_key\<close>), keeping the best hit of every key in a dictionary, and the interface
  \<open>ranking\<close> of a comparison that is a total order up to the key. In it, the first \<open>n\<close> of the
  merge of whole lists are the first \<open>n\<close> of the merge of their first \<open>n\<close>.
\<close>

section \<open>Operations\<close>

text \<open>A stable sort by comparison; Python's agrees with it whenever the comparison is a total preorder.\<close>

fun insert_by :: "('a \<Rightarrow> 'a \<Rightarrow> int) \<Rightarrow> 'a \<Rightarrow> 'a list \<Rightarrow> 'a list" where
  "insert_by cmp x [] = [x]"
| "insert_by cmp x (y # ys) = (if cmp y x < 0 then y # insert_by cmp x ys else x # y # ys)"

definition sort_with :: "('a \<Rightarrow> 'a \<Rightarrow> int) \<Rightarrow> 'a list \<Rightarrow> 'a list" where
  "sort_with cmp xs = foldr (insert_by cmp) xs []"

definition keep_best :: "('a \<Rightarrow> 'k) \<Rightarrow> ('a \<Rightarrow> 'a \<Rightarrow> int) \<Rightarrow> ('k, 'a) pydict \<Rightarrow> 'a \<Rightarrow> ('k, 'a) pydict" where
  "keep_best key cmp m h =
     (case dget m (key h) of
        None \<Rightarrow> dput (key h) h m
      | Some e \<Rightarrow> if cmp h e < 0 then dput (key h) h m else m)"

definition best_by_key :: "('a \<Rightarrow> 'k) \<Rightarrow> ('a \<Rightarrow> 'a \<Rightarrow> int) \<Rightarrow> 'a list \<Rightarrow> 'a list" where
  "best_by_key key cmp hs = dvalues (foldl (keep_best key cmp) [] hs)"

definition merge_ranked :: "('a \<Rightarrow> 'k) \<Rightarrow> ('a \<Rightarrow> 'a \<Rightarrow> int) \<Rightarrow> 'a list list \<Rightarrow> 'a list" where
  "merge_ranked key cmp Ls = sort_with cmp (best_by_key key cmp (concat Ls))"

section \<open>Facts about the operations\<close>

lemma set_insert_by [simp]: "set (insert_by cmp x ys) = insert x (set ys)"
  by (induction ys) auto

lemma length_insert_by [simp]: "length (insert_by cmp x ys) = Suc (length ys)"
  by (induction ys) auto

lemma set_sort_with [simp]: "set (sort_with cmp xs) = set xs"
  by (induction xs) (auto simp: sort_with_def)

lemma length_sort_with [simp]: "length (sort_with cmp xs) = length xs"
  by (induction xs) (auto simp: sort_with_def)

text \<open>The entry of a key is the outcome of a fold over the hits with that key.\<close>

definition winner :: "('a \<Rightarrow> 'a \<Rightarrow> int) \<Rightarrow> 'a list \<Rightarrow> 'a option" where
  "winner cmp xs = foldl (\<lambda>acc h. case acc of None \<Rightarrow> Some h | Some e \<Rightarrow> Some (if cmp h e < 0 then h else e)) None xs"

lemma winner_Nil [simp]: "winner cmp [] = None"
  by (simp add: winner_def)

lemma winner_snoc [simp]:
  "winner cmp (xs @ [h]) = (case winner cmp xs of None \<Rightarrow> Some h | Some e \<Rightarrow> Some (if cmp h e < 0 then h else e))"
  by (simp add: winner_def)

lemma winner_None [simp]: "winner cmp xs = None \<longleftrightarrow> xs = []"
  by (cases xs rule: rev_cases) (auto split: option.splits)

lemma best_entry: "dget (foldl (keep_best key cmp) [] hs) k = winner cmp (filter (\<lambda>h. key h = k) hs)"
proof (induction hs rule: rev_induct)
  case (snoc h hs)
  then show ?case by (cases "key h = k") (auto simp: keep_best_def dget_dput split: option.split)
qed simp

lemma keep_best_distinct: "distinct (dkeys (foldl (keep_best key cmp) [] hs))"
  by (induction hs rule: rev_induct) (auto simp: keep_best_def distinct_update split: option.splits)

lemma keep_best_keyed: "(k, g) \<in> set (foldl (keep_best key cmp) [] hs) \<Longrightarrow> key g = k"
proof (induction hs arbitrary: k g rule: rev_induct)
  case (snoc h hs)
  have "(k, g) \<in> set (dput (key h) h m) \<Longrightarrow> (\<And>k g. (k, g) \<in> set m \<Longrightarrow> key g = k) \<Longrightarrow> key g = k" for m
    by (induction m) (auto split: if_splits)
  with snoc show ?case by (auto simp: keep_best_def split: option.splits if_splits)
qed simp

lemma best_distinct: "distinct (map key (best_by_key key cmp hs))"
proof -
  have "map (key \<circ> snd) (foldl (keep_best key cmp) [] hs) = dkeys (foldl (keep_best key cmp) [] hs)"
    by (rule map_cong) (auto dest: keep_best_keyed)
  then have "map key (best_by_key key cmp hs) = dkeys (foldl (keep_best key cmp) [] hs)"
    unfolding best_by_key_def by simp
  then show ?thesis by (simp add: keep_best_distinct)
qed

lemma in_best_iff: "g \<in> set (best_by_key key cmp hs) \<longleftrightarrow> winner cmp (filter (\<lambda>h. key h = key g) hs) = Some g"
proof -
  have "g \<in> set (best_by_key key cmp hs) \<longleftrightarrow> (key g, g) \<in> set (foldl (keep_best key cmp) [] hs)"
  proof
    assume "g \<in> set (best_by_key key cmp hs)"
    then obtain k where "(k, g) \<in> set (foldl (keep_best key cmp) [] hs)" by (auto simp: best_by_key_def)
    with keep_best_keyed [OF this] show "(key g, g) \<in> set (foldl (keep_best key cmp) [] hs)" by simp
  next
    assume "(key g, g) \<in> set (foldl (keep_best key cmp) [] hs)"
    then have "snd (key g, g) \<in> set (dvalues (foldl (keep_best key cmp) [] hs))" by (metis image_eqI set_map)
    then show "g \<in> set (best_by_key key cmp hs)" by (simp add: best_by_key_def)
  qed
  also have "\<dots> \<longleftrightarrow> winner cmp (filter (\<lambda>h. key h = key g) hs) = Some g"
    unfolding best_entry [symmetric] using keep_best_distinct [of key cmp hs] by simp
  finally show ?thesis .
qed

text \<open>The merge of one element per key takes the first in the list that no other beats.\<close>

definition leads :: "('a \<Rightarrow> 'a \<Rightarrow> int) \<Rightarrow> 'a \<Rightarrow> 'a list \<Rightarrow> bool" where
  "leads cmp g xs \<longleftrightarrow>
     (\<exists>ys zs. xs = ys @ g # zs \<and> (\<forall>y \<in> set ys. cmp g y < 0) \<and> (\<forall>z \<in> set zs. cmp g z \<le> 0))"

lemma leads_in: "leads cmp g xs \<Longrightarrow> g \<in> set xs"
  by (auto simp: leads_def)

lemma strictly_sorted_unique:
  assumes "sorted_wrt R xs" and "sorted_wrt R ys" and "set xs = set ys"
    and "\<And>x y. x \<in> set xs \<Longrightarrow> y \<in> set xs \<Longrightarrow> R x y \<Longrightarrow> \<not> R y x"
  shows "xs = ys"
  using assms
proof (induction xs arbitrary: ys)
  case (Cons x xs)
  obtain y ys' where ys: "ys = y # ys'" using Cons.prems(3) by (cases ys) auto
  have irr: "\<not> R z z" if "z \<in> set (x # xs)" for z using Cons.prems(4) [of z z] that by blast
  have "x = y"
  proof (rule ccontr)
    assume "x \<noteq> y"
    with Cons.prems(3) ys have "y \<in> set xs" "x \<in> set ys'" by auto
    with Cons.prems(1,2) ys have "R x y" "R y x" by auto
    with Cons.prems(4) [of x y] \<open>y \<in> set xs\<close> show False by simp
  qed
  moreover have "set xs = set ys'"
  proof -
    have "x \<notin> set xs" using Cons.prems(1) irr by auto
    moreover have "x \<notin> set ys'" using Cons.prems(2) ys \<open>x = y\<close> irr by auto
    ultimately show ?thesis using Cons.prems(3) ys \<open>x = y\<close> by auto
  qed
  moreover have "xs = ys'"
  proof (rule Cons.IH)
    show "sorted_wrt R xs" "sorted_wrt R ys'" using Cons.prems(1,2) ys by auto
    show "set xs = set ys'" by fact
    show "\<not> R b a" if "a \<in> set xs" "b \<in> set xs" "R a b" for a b using Cons.prems(4) [of a b] that by simp
  qed
  ultimately show ?case using ys by simp
qed simp

lemma filter_split: "filter P xs = ys @ g # zs \<Longrightarrow> \<exists>us vs. xs = us @ g # vs \<and> filter P us = ys \<and> filter P vs = zs"
proof (induction xs arbitrary: ys)
  case (Cons x xs)
  show ?case
  proof (cases "P x \<and> ys = []")
    case True
    with Cons.prems show ?thesis by (intro exI [of _ "[]"] exI [of _ xs]) simp
  next
    case False
    with Cons.prems obtain ys' where ys': "filter P xs = ys' @ g # zs" "ys = (if P x then x # ys' else ys')"
      by (cases ys) (auto split: if_splits)
    from Cons.IH [OF ys'(1)] obtain us vs where "xs = us @ g # vs" "filter P us = ys'" "filter P vs = zs" by blast
    with ys'(2) show ?thesis by (intro exI [of _ "x # us"] exI [of _ vs]) simp
  qed
qed simp

lemma concat_at: "concat Ls = us @ g # vs \<Longrightarrow> \<exists>A L B p s. Ls = A @ L # B \<and> L = p @ g # s \<and> us = concat A @ p \<and> vs = s @ concat B"
proof (induction Ls arbitrary: us)
  case (Cons L Ls)
  then consider ws where "L = us @ g # ws" "vs = ws @ concat Ls" | ws where "us = L @ ws" "concat Ls = ws @ g # vs"
    by (auto simp: append_eq_append_conv2 append_eq_Cons_conv)
  then show ?case
  proof cases
    case 1
    then show ?thesis by (intro exI [of _ "[]"] exI [of _ L] exI [of _ Ls] exI [of _ us] exI [of _ ws]) simp
  next
    case 2
    from Cons.IH [OF 2(2)] obtain A L' B p s where "Ls = A @ L' # B" "L' = p @ g # s" "ws = concat A @ p" "vs = s @ concat B" by blast
    with 2(1) show ?thesis by (intro exI [of _ "L # A"] exI [of _ L'] exI [of _ B] exI [of _ p] exI [of _ s]) simp
  qed
qed simp

section \<open>The interface of a ranking\<close>

locale ranking =
  fixes cmp :: "'a \<Rightarrow> 'a \<Rightarrow> int" and U :: "'a set" and key :: "'a \<Rightarrow> 'k"
  assumes flip: "a \<in> U \<Longrightarrow> b \<in> U \<Longrightarrow> cmp b a = - cmp a b"
    and trans: "a \<in> U \<Longrightarrow> b \<in> U \<Longrightarrow> c \<in> U \<Longrightarrow> cmp a b \<le> 0 \<Longrightarrow> cmp b c \<le> 0 \<Longrightarrow> cmp a c \<le> 0"
    and tie: "a \<in> U \<Longrightarrow> b \<in> U \<Longrightarrow> cmp a b = 0 \<Longrightarrow> key a = key b"
begin

lemma less_le_trans:
  assumes "a \<in> U" "b \<in> U" "c \<in> U" and "cmp a b < 0" and "cmp b c \<le> 0"
  shows "cmp a c < 0"
proof (rule ccontr)
  assume "\<not> cmp a c < 0"
  then have "cmp c a \<le> 0" using flip [of a c] assms by simp
  then have "cmp b a \<le> 0" using trans [of b c a] assms by simp
  then show False using flip [of a b] assms by simp
qed

lemma le_less_trans:
  assumes "a \<in> U" "b \<in> U" "c \<in> U" and "cmp a b \<le> 0" and "cmp b c < 0"
  shows "cmp a c < 0"
proof (rule ccontr)
  assume "\<not> cmp a c < 0"
  then have "cmp c a \<le> 0" using flip [of a c] assms by simp
  then have "cmp c b \<le> 0" using trans [of c a b] assms by simp
  then show False using flip [of c b] assms by simp
qed

lemma sorted_insert_by:
  assumes "insert x (set ys) \<subseteq> U" and "sorted_wrt (\<lambda>a b. cmp a b \<le> 0) ys"
  shows "sorted_wrt (\<lambda>a b. cmp a b \<le> 0) (insert_by cmp x ys)"
  using assms
proof (induction ys)
  case (Cons y ys)
  show ?case
  proof (cases "cmp y x < 0")
    case True
    with Cons show ?thesis by auto
  next
    case False
    then have "cmp x y \<le> 0" using flip [of y x] Cons.prems by simp
    moreover have "cmp x z \<le> 0" if "z \<in> set ys" for z
      using trans [of x y z] that calculation Cons.prems by auto
    ultimately show ?thesis using False Cons.prems by auto
  qed
qed simp

lemma sorted_sort_with: "set xs \<subseteq> U \<Longrightarrow> sorted_wrt (\<lambda>a b. cmp a b \<le> 0) (sort_with cmp xs)"
proof (induction xs)
  case (Cons x xs)
  have "set (foldr (insert_by cmp) xs []) = set xs" using set_sort_with [of cmp xs] by (simp add: sort_with_def)
  with Cons show ?case using sorted_insert_by [of x "sort_with cmp xs"] by (simp add: sort_with_def)
qed (simp add: sort_with_def)

lemma winner_leads: "winner cmp xs = Some g \<Longrightarrow> set xs \<subseteq> U \<Longrightarrow> leads cmp g xs"
proof (induction xs arbitrary: g rule: rev_induct)
  case (snoc h xs)
  show ?case
  proof (cases "winner cmp xs")
    case None
    with snoc have "xs = []" "g = h" by auto
    then show ?thesis unfolding leads_def by (intro exI [of _ "[]"]) simp
  next
    case (Some e)
    with snoc obtain ys zs where xs: "xs = ys @ e # zs" and ys: "\<forall>y \<in> set ys. cmp e y < 0" and zs: "\<forall>z \<in> set zs. cmp e z \<le> 0"
      by (auto simp: leads_def)
    have U: "e \<in> U" "h \<in> U" "set ys \<subseteq> U" "set zs \<subseteq> U" using snoc.prems(2) xs by auto
    show ?thesis
    proof (cases "cmp h e < 0")
      case True
      have "cmp h y < 0" if "y \<in> set xs" for y
        using that xs ys zs U True less_le_trans [of h e y] by (cases "y = e") (auto simp: less_imp_le)
      moreover have "g = h" using snoc.prems(1) Some True by simp
      ultimately show ?thesis unfolding leads_def by (intro exI [of _ xs] exI [of _ "[]"]) simp
    next
      case False
      then have "cmp e h \<le> 0" using flip [of e h] U by simp
      moreover have "g = e" using snoc.prems(1) Some False by simp
      ultimately show ?thesis unfolding leads_def using xs ys zs
        by (intro exI [of _ ys] exI [of _ "zs @ [h]"]) auto
    qed
  qed
qed (simp add: winner_def)

lemma leads_unique:
  assumes "leads cmp g xs" and "leads cmp g' xs" and "set xs \<subseteq> U"
  shows "g = g'"
proof -
  obtain ys zs where 1: "xs = ys @ g # zs" "\<forall>y \<in> set ys. cmp g y < 0" "\<forall>z \<in> set zs. cmp g z \<le> 0"
    using assms(1) by (auto simp: leads_def)
  obtain ys' zs' where 2: "xs = ys' @ g' # zs'" "\<forall>y \<in> set ys'. cmp g' y < 0" "\<forall>z \<in> set zs'. cmp g' z \<le> 0"
    using assms(2) by (auto simp: leads_def)
  have U: "g \<in> U" "g' \<in> U" using leads_in [OF assms(1)] leads_in [OF assms(2)] assms(3) by auto
  have "ys @ g # zs = ys' @ g' # zs'" using 1(1) 2(1) by simp
  then consider "g = g'" | "g' \<in> set zs" "g \<in> set ys'" | "g \<in> set zs'" "g' \<in> set ys"
    by (auto simp: append_eq_append_conv2 append_eq_Cons_conv Cons_eq_append_conv)
  then show ?thesis
  proof cases
    case 2
    with 1 \<open>\<forall>y \<in> set ys'. cmp g' y < 0\<close> have "cmp g g' \<le> 0" "cmp g' g < 0" by auto
    with flip [of g g'] U show ?thesis by simp
  next
    case 3
    with 1 \<open>\<forall>z \<in> set zs'. cmp g' z \<le> 0\<close> have "cmp g' g \<le> 0" "cmp g g' < 0" by auto
    with flip [of g g'] U show ?thesis by simp
  qed simp
qed

lemma winner_iff: "set xs \<subseteq> U \<Longrightarrow> winner cmp xs = Some g \<longleftrightarrow> leads cmp g xs"
proof
  assume U: "set xs \<subseteq> U" and g: "leads cmp g xs"
  then have "xs \<noteq> []" by (auto simp: leads_def)
  then obtain g' where "winner cmp xs = Some g'" using winner_None by fastforce
  with winner_leads U g leads_unique show "winner cmp xs = Some g" by blast
qed (rule winner_leads)

lemma best_iff:
  "set hs \<subseteq> U \<Longrightarrow> g \<in> set (best_by_key key cmp hs) \<longleftrightarrow> leads cmp g (filter (\<lambda>h. key h = key g) hs)"
  unfolding in_best_iff by (rule winner_iff) auto

lemma best_subset: "set hs \<subseteq> U \<Longrightarrow> set (best_by_key key cmp hs) \<subseteq> set hs"
proof
  fix g
  assume "set hs \<subseteq> U" "g \<in> set (best_by_key key cmp hs)"
  then have "leads cmp g (filter (\<lambda>h. key h = key g) hs)" by (simp add: best_iff)
  then have "g \<in> set (filter (\<lambda>h. key h = key g) hs)" by (rule leads_in)
  then show "g \<in> set hs" by simp
qed

lemma best_below:
  assumes "set hs \<subseteq> U" and "h \<in> set hs"
  obtains g where "g \<in> set (best_by_key key cmp hs)" and "key g = key h" and "cmp g h \<le> 0"
proof -
  let ?xs = "filter (\<lambda>x. key x = key h) hs"
  have "?xs \<noteq> []" using assms(2) by (auto simp: filter_empty_conv)
  then obtain g where g: "winner cmp ?xs = Some g" using winner_None by fastforce
  with assms(1) have l: "leads cmp g ?xs" by (intro winner_leads) auto
  have "g \<in> set ?xs" using l by (rule leads_in)
  then have k: "key g = key h" and "g \<in> U" using assms(1) by auto
  have "g \<in> set (best_by_key key cmp hs)" using g k by (simp add: in_best_iff)
  moreover have "cmp g h \<le> 0"
  proof -
    from l obtain ys zs where s: "?xs = ys @ g # zs" "\<forall>y \<in> set ys. cmp g y < 0" "\<forall>z \<in> set zs. cmp g z \<le> 0"
      by (auto simp: leads_def)
    have "h \<in> set (ys @ g # zs)" using assms(2) unfolding s(1) [symmetric] by simp
    moreover have "cmp g g \<le> 0" using flip [of g g] \<open>g \<in> U\<close> by simp
    ultimately show ?thesis using s(2,3) by (auto simp: less_imp_le)
  qed
  ultimately show ?thesis using that k by blast
qed

lemma merge_strict:
  assumes "set (concat Ls) \<subseteq> U"
  shows "sorted_wrt (\<lambda>a b. cmp a b < 0) (merge_ranked key cmp Ls)"
proof -
  let ?B = "best_by_key key cmp (concat Ls)"
  have B: "set ?B \<subseteq> U" using best_subset assms by blast
  have keyed: "key a \<noteq> key b" if "a \<in> set ?B" "b \<in> set ?B" "a \<noteq> b" for a b
    using best_distinct [of key cmp "concat Ls"] that by (auto simp: distinct_map inj_on_def)
  have "distinct ?B" using best_distinct [of key cmp "concat Ls"] by (simp add: distinct_map)
  then have "distinct (sort_with cmp ?B)" by (simp add: distinct_card card_distinct)
  then have "sorted_wrt (\<lambda>a b. a \<noteq> b \<and> cmp a b \<le> 0) (sort_with cmp ?B)"
    using sorted_sort_with [OF B] by (auto simp: sorted_wrt_iff_nth_less distinct_conv_nth)
  then show ?thesis unfolding merge_ranked_def
  proof (rule sorted_wrt_mono_rel [rotated])
    fix a b
    assume "a \<in> set (sort_with cmp ?B)" "b \<in> set (sort_with cmp ?B)" "a \<noteq> b \<and> cmp a b \<le> 0"
    moreover from this B have "cmp a b \<noteq> 0" using keyed [of a b] tie [of a b] by auto
    ultimately show "cmp a b < 0" by simp
  qed
qed

lemma merge_subset: "set (concat Ls) \<subseteq> U \<Longrightarrow> set (merge_ranked key cmp Ls) \<subseteq> set (concat Ls)"
  using best_subset [of "concat Ls"] by (simp add: merge_ranked_def)

lemma merge_keys_distinct: "distinct (map key (merge_ranked key cmp Ls))"
proof (rule card_distinct)
  have "card (set (map key (best_by_key key cmp (concat Ls)))) = length (map key (best_by_key key cmp (concat Ls)))"
    by (rule distinct_card [OF best_distinct])
  then show "card (set (map key (merge_ranked key cmp Ls))) = length (map key (merge_ranked key cmp Ls))"
    by (simp add: merge_ranked_def)
qed

lemma merge_below:
  assumes "set (concat Ls) \<subseteq> U" and "h \<in> set (concat Ls)"
  obtains g where "g \<in> set (merge_ranked key cmp Ls)" and "key g = key h" and "cmp g h \<le> 0"
  using best_below [OF assms] by (auto simp: merge_ranked_def)

text \<open>A list of hits with distinct keys, in the order of the comparison.\<close>

definition ranked :: "'a list \<Rightarrow> bool" where
  "ranked L \<longleftrightarrow> set L \<subseteq> U \<and> sorted_wrt (\<lambda>a b. cmp a b < 0) L \<and> distinct (map key L)"

text \<open>
  A hit no better than the \<open>i\<close>-th of the merge is preceded in its own list by at most \<open>i\<close> others:
  the best hits of their keys all come earlier in the merge.
\<close>

lemma position_bound:
  assumes all: "\<forall>L \<in> set Ls. ranked L" and L: "L \<in> set Ls" and j: "j < length L"
    and i: "i < length (merge_ranked key cmp Ls)" and le: "cmp (L ! j) (merge_ranked key cmp Ls ! i) \<le> 0"
  shows "j \<le> i"
proof -
  let ?M = "merge_ranked key cmp Ls"
  have U: "set (concat Ls) \<subseteq> U" using all by (auto simp: ranked_def)
  have in_all: "set L \<subseteq> set (concat Ls)" using L by auto
  have M: "set ?M \<subseteq> U" using merge_subset [OF U] U by blast
  have strict: "sorted_wrt (\<lambda>a b. cmp a b < 0) ?M" by (rule merge_strict [OF U])
  have "key ` set (take j L) \<subseteq> key ` set (take i ?M)"
  proof
    fix k
    assume "k \<in> key ` set (take j L)"
    then obtain m where m: "m < j" "k = key (L ! m)" using j by (auto simp: in_set_conv_nth)
    have LU: "L ! m \<in> set (concat Ls)" "L ! j \<in> U"
      using subsetD [OF in_all nth_mem] m(1) j subsetD [OF U] by (meson less_trans)+
    obtain g where g: "g \<in> set ?M" "key g = k" "cmp g (L ! m) \<le> 0" using merge_below [OF U LU(1)] m(2) by metis
    have "cmp (L ! m) (L ! j) < 0" using all L j m(1) by (auto simp: ranked_def sorted_wrt_iff_nth_less)
    then have "cmp g (L ! j) < 0" using le_less_trans [of g "L ! m" "L ! j"] g LU U M by blast
    then have below: "cmp g (?M ! i) < 0" using less_le_trans [of g "L ! j" "?M ! i"] le g LU M i by (meson nth_mem subsetD)
    obtain a where a: "a < length ?M" "?M ! a = g" using g(1) by (auto simp: in_set_conv_nth)
    have "a < i"
    proof (rule ccontr)
      assume "\<not> a < i"
      then have "?M ! a = ?M ! i \<or> cmp (?M ! i) (?M ! a) < 0"
        using strict a by (cases "a = i") (auto simp: sorted_wrt_iff_nth_less)
      moreover have "g \<in> U" "?M ! i \<in> U" using g(1) M i by auto
      ultimately show False using below flip [of g g] flip [of g "?M ! i"] unfolding a(2) by auto
    qed
    then show "k \<in> key ` set (take i ?M)" using a g by (force simp: in_set_conv_nth)
  qed
  moreover have "card (key ` set (take j L)) = j"
  proof -
    have "distinct (map key (take j L))" using all L by (simp add: ranked_def take_map [symmetric])
    from distinct_card [OF this] j show ?thesis by simp
  qed
  moreover have "card (key ` set (take i ?M)) \<le> i"
    using card_image_le [of "set (take i ?M)" key] card_length [of "take i ?M"] by auto
  ultimately show "j \<le> i" using card_mono [of "key ` set (take i ?M)" "key ` set (take j L)"] by simp
qed

lemma windows_subset: "set (concat (map (take n) Ls)) \<subseteq> set (concat Ls)"
  by (auto dest: in_set_takeD)

lemma merged_in_window:
  assumes all: "\<forall>L \<in> set Ls. ranked L" and i: "i < length (merge_ranked key cmp Ls)" "i < n"
  shows "merge_ranked key cmp Ls ! i \<in> set (merge_ranked key cmp (map (take n) Ls))"
proof -
  define g where "g = merge_ranked key cmp Ls ! i"
  let ?P = "\<lambda>h. key h = key g"
  have U: "set (concat Ls) \<subseteq> U" using all by (auto simp: ranked_def)
  have UW: "set (concat (map (take n) Ls)) \<subseteq> U" by (rule subset_trans [OF windows_subset U])
  have "g \<in> set (best_by_key key cmp (concat Ls))" using i(1) nth_mem [OF i(1)] by (simp add: g_def merge_ranked_def)
  then have "leads cmp g (filter ?P (concat Ls))" by (simp add: best_iff [OF U])
  then obtain ys zs where s: "filter ?P (concat Ls) = ys @ g # zs" "\<forall>y \<in> set ys. cmp g y < 0" "\<forall>z \<in> set zs. cmp g z \<le> 0"
    by (auto simp: leads_def)
  then obtain us vs where uv: "concat Ls = us @ g # vs" "filter ?P us = ys" "filter ?P vs = zs"
    using filter_split by metis
  then obtain A L B p s' where d: "Ls = A @ L # B" "L = p @ g # s'" "us = concat A @ p" "vs = s' @ concat B"
    using concat_at [OF uv(1)] by metis
  have "length p \<le> i"
  proof (rule position_bound [OF all _ _ i(1)])
    show "L \<in> set Ls" "length p < length L" using d by auto
    have "g \<in> U" using U uv(1) by auto
    then have "cmp g g \<le> 0" using flip [of g g] by simp
    moreover have "L ! length p = g" by (simp add: d(2))
    ultimately show "cmp (L ! length p) (merge_ranked key cmp Ls ! i) \<le> 0" by (simp only: g_def [symmetric])
  qed
  then have window: "concat (map (take n) Ls) =
      (concat (map (take n) A) @ p) @ g # (take (n - Suc (length p)) s' @ concat (map (take n) B))"
    using d i(2) by (simp add: take_Cons')
  have "leads cmp g (filter ?P (concat (map (take n) Ls)))"
    unfolding window leads_def
  proof (intro exI conjI)
    show "filter ?P ((concat (map (take n) A) @ p) @ g # (take (n - Suc (length p)) s' @ concat (map (take n) B))) =
      filter ?P (concat (map (take n) A) @ p) @ g # filter ?P (take (n - Suc (length p)) s' @ concat (map (take n) B))" by simp
    have "set (filter ?P (concat (map (take n) A) @ p)) \<subseteq> set ys"
      unfolding uv(2) [symmetric] d(3) filter_append set_append using windows_subset [of n A] by auto
    with s(2) show "\<forall>y \<in> set (filter ?P (concat (map (take n) A) @ p)). cmp g y < 0" by blast
    have "set (filter ?P (take (n - Suc (length p)) s' @ concat (map (take n) B))) \<subseteq> set zs"
      unfolding uv(3) [symmetric] d(4) using windows_subset [of n B] by (auto dest: in_set_takeD)
    with s(3) show "\<forall>z \<in> set (filter ?P (take (n - Suc (length p)) s' @ concat (map (take n) B))). cmp g z \<le> 0" by blast
  qed
  then have "g \<in> set (best_by_key key cmp (concat (map (take n) Ls)))" by (simp only: best_iff [OF UW])
  then show ?thesis by (simp add: merge_ranked_def g_def)
qed

text \<open>The gather step: windows of length \<open>n\<close> determine the first \<open>n\<close> of the merge.\<close>

lemma merge_windows:
  assumes all: "\<forall>L \<in> set Ls. ranked L"
  shows "take n (merge_ranked key cmp (map (take n) Ls)) = take n (merge_ranked key cmp Ls)"
proof -
  let ?M = "merge_ranked key cmp Ls" and ?W = "merge_ranked key cmp (map (take n) Ls)"
  let ?T = "take n ?M" and ?R = "\<lambda>a b. cmp a b < 0"
  have U: "set (concat Ls) \<subseteq> U" using all by (auto simp: ranked_def)
  have UW: "set (concat (map (take n) Ls)) \<subseteq> U" by (rule subset_trans [OF windows_subset U])
  have M: "set ?M \<subseteq> U" "sorted_wrt ?R ?M" by (rule subset_trans [OF merge_subset [OF U] U], rule merge_strict [OF U])
  have W: "set ?W \<subseteq> U" "sorted_wrt ?R ?W" by (rule subset_trans [OF merge_subset [OF UW] UW], rule merge_strict [OF UW])
  have TW: "set ?T \<subseteq> set ?W"
    using merged_in_window [OF all] by (auto simp: in_set_conv_nth [of _ "take n _"])
  have above: "n \<le> length ?M \<and> (\<forall>t \<in> set ?T. ?R t w)" if w: "w \<in> set ?W" "w \<notin> set ?T" for w
  proof -
    have wU: "w \<in> U" using w W by blast
    have "w \<in> set (concat Ls)" using w(1) subset_trans [OF merge_subset [OF UW] windows_subset] by blast
    then obtain g where g: "g \<in> set ?M" "key g = key w" "cmp g w \<le> 0" using merge_below [OF U] by blast
    obtain a where a: "a < length ?M" "?M ! a = g" using g(1) by (auto simp: in_set_conv_nth)
    have "g \<notin> set ?T"
    proof
      assume "g \<in> set ?T"
      with TW have "g \<in> set ?W" by blast
      with w(1) g(2) merge_keys_distinct [of "map (take n) Ls"] have "g = w" by (auto simp: distinct_map inj_on_def)
      with w(2) \<open>g \<in> set ?T\<close> show False by simp
    qed
    then have "n \<le> a" using a in_set_conv_nth [of g "take n ?M"] by (metis length_take min_less_iff_conj not_le nth_take)
    moreover have "?R t w" if "t \<in> set ?T" for t
    proof -
      obtain b where b: "b < n" "b < length ?M" "?M ! b = t" using \<open>t \<in> set ?T\<close> by (auto simp: in_set_conv_nth)
      then have "?R t g" using M(2) a \<open>n \<le> a\<close> by (auto simp: sorted_wrt_iff_nth_less)
      then show ?thesis using less_le_trans [of t g w] g M wU b by (meson nth_mem subsetD)
    qed
    ultimately show ?thesis using a by simp
  qed
  have "?W = ?T @ filter (\<lambda>w. w \<notin> set ?T) ?W"
  proof (rule strictly_sorted_unique)
    show "sorted_wrt ?R ?W" by (rule W(2))
    show "sorted_wrt ?R (?T @ filter (\<lambda>w. w \<notin> set ?T) ?W)"
      using above W(2) sorted_wrt_take [OF M(2)] by (auto simp: sorted_wrt_append sorted_wrt_filter)
    show "set ?W = set (?T @ filter (\<lambda>w. w \<notin> set ?T) ?W)" using TW by auto
    show "\<not> cmp y x < 0" if "x \<in> set ?W" "y \<in> set ?W" "cmp x y < 0" for x y
      using flip [OF subsetD [OF W(1) that(1)] subsetD [OF W(1) that(2)]] that(3) by simp
  qed
  moreover have "take n (?T @ filter (\<lambda>w. w \<notin> set ?T) ?W) = ?T"
  proof (cases "n \<le> length ?M")
    case False
    with above have "filter (\<lambda>w. w \<notin> set ?T) ?W = []" by (auto simp: filter_empty_conv)
    then show ?thesis by simp
  qed simp
  ultimately show ?thesis by simp
qed

text \<open>Short lists are complete windows; a longer one makes the merge longer than the window.\<close>

lemma merge_complete: "\<forall>L \<in> set Ls. length L \<le> n \<Longrightarrow> merge_ranked key cmp (map (take n) Ls) = merge_ranked key cmp Ls"
  by (simp add: map_idI)

lemma merge_length:
  assumes U: "set (concat Ls) \<subseteq> U"
  shows "length (merge_ranked key cmp Ls) = card (key ` set (concat Ls))"
proof -
  have "key ` set (merge_ranked key cmp Ls) = key ` set (concat Ls)"
  proof
    show "key ` set (merge_ranked key cmp Ls) \<subseteq> key ` set (concat Ls)" using merge_subset [OF U] by (rule image_mono)
    show "key ` set (concat Ls) \<subseteq> key ` set (merge_ranked key cmp Ls)"
    proof
      fix k
      assume "k \<in> key ` set (concat Ls)"
      then obtain h where h: "h \<in> set (concat Ls)" "k = key h" by blast
      obtain g where "g \<in> set (merge_ranked key cmp Ls)" "key g = key h" using merge_below [OF U h(1)] by blast
      with h(2) show "k \<in> key ` set (merge_ranked key cmp Ls)" by (metis image_eqI)
    qed
  qed
  then show ?thesis using distinct_card [OF merge_keys_distinct [of Ls]] by simp
qed

lemma merge_covers:
  assumes all: "\<forall>L \<in> set Ls. ranked L" and L: "L \<in> set Ls"
  shows "length L \<le> length (merge_ranked key cmp Ls)"
proof -
  have U: "set (concat Ls) \<subseteq> U" using all by (auto simp: ranked_def)
  have "card (key ` set L) \<le> card (key ` set (concat Ls))" using L by (intro card_mono) auto
  moreover have "card (key ` set L) = length L"
    using all L distinct_card [of "map key L"] by (simp add: ranked_def)
  ultimately show ?thesis using merge_length [OF U] by simp
qed

end

end
