(* ===== verification/SearchMerge.thy ===== *)
theory SearchMerge
  imports Ranking Tenancy
begin

text \<open>
  \<open>query_api/app/routers/search.py\<close>, the scatter-gather search: the sort expression, the
  comparison of hits, the projection that keeps the merge keys, the loop that fetches a window of
  every shard, and the merge into one page. A hit is the \<open>document\<close> object that Typesense puts
  into it and the rest of its entries; ids are strings, as Typesense stores them. \<open>rep\<close> is
  \<open>str\<close> of floats and containers, \<open>casefold\<close> the ASCII \<open>lower\<close>. Clients are arguments.
\<close>

section \<open>Data\<close>

record Hit =
  h_document :: document
  h_rest :: document

type_synonym sort_field = "string \<times> string"

record SearchRequest =
  sq_q :: string
  sq_query_by :: "string option"
  sq_filter_by :: "string option"
  sq_sort_by :: "string option"
  sq_vector_query :: "string option"
  sq_query_by_weights :: "string option"
  sq_include_fields :: "string option"
  sq_exclude_fields :: "string option"
  sq_highlight_fields :: "string option"
  sq_highlight_full_fields :: "string option"
  sq_highlight_start_tag :: "string option"
  sq_highlight_end_tag :: "string option"
  sq_remote_embedding_timeout_ms :: "nat option"
  sq_remote_embedding_num_tries :: "nat option"
  sq_limit_hits :: "nat option"
  sq_search_cutoff_ms :: "nat option"
  sq_max_candidates :: "nat option"
  sq_exhaustive_search :: "bool option"
  sq_page :: nat
  sq_per_page :: nat
  sq_offset :: "nat option"
  sq_limit :: "nat option"

definition text_given :: "string option \<Rightarrow> bool" where
  "text_given t \<longleftrightarrow> (\<exists>s. t = Some s \<and> strip s \<noteq> [])"

definition at_least_1 :: "nat option \<Rightarrow> bool" where
  "at_least_1 n \<longleftrightarrow> n \<noteq> Some 0"

text \<open>The field bounds and the model validator.\<close>

definition requested_window :: "SearchRequest \<Rightarrow> nat" where
  "requested_window rq =
     (case (sq_offset rq, sq_limit rq) of (Some off, Some cnt) \<Rightarrow> off + cnt | _ \<Rightarrow> sq_page rq * sq_per_page rq)"

definition search_request_ok :: "SearchRequest \<Rightarrow> bool" where
  "search_request_ok rq \<longleftrightarrow>
     sq_q rq \<noteq> [] \<and> at_least_1 (sq_remote_embedding_timeout_ms rq) \<and> at_least_1 (sq_remote_embedding_num_tries rq) \<and>
     at_least_1 (sq_limit_hits rq) \<and> at_least_1 (sq_search_cutoff_ms rq) \<and> at_least_1 (sq_max_candidates rq) \<and>
     1 \<le> sq_page rq \<and> 1 \<le> sq_per_page rq \<and> sq_per_page rq \<le> 250 \<and>
     (case sq_limit rq of None \<Rightarrow> True | Some l \<Rightarrow> 1 \<le> l \<and> l \<le> 250) \<and>
     (text_given (sq_query_by rq) \<or> text_given (sq_vector_query rq)) \<and>
     (sq_offset rq = None) = (sq_limit rq = None) \<and>
     (case sq_limit_hits rq of None \<Rightarrow> True | Some n \<Rightarrow> requested_window rq \<le> n)"

definition MAX_DEEP_PAGINATION_DOCS :: nat where "MAX_DEEP_PAGINATION_DOCS = 10000"
definition DEEP_PAGINATION_WARNING_PAGE :: nat where "DEEP_PAGINATION_WARNING_PAGE = 10"
definition TYPESENSE_MAX_PER_PAGE :: nat where "TYPESENSE_MAX_PER_PAGE = 250"

section \<open>Sort expressions\<close>

definition rsplit_colon :: "string \<Rightarrow> string \<times> string" where
  "rsplit_colon s = (let parts = split_on (CHR '':'') s in (join_with '':'' (butlast parts), last parts))"

definition parse_sort_field :: "string \<Rightarrow> string + sort_field option" where
  "parse_sort_field raw =
     (let raw = strip raw in
      if raw = [] then Ok None
      else if CHR ''('' \<in> set raw \<or> CHR '')'' \<in> set raw
      then Raise ''Federated global sort supports simple field:asc/desc expressions only.''
      else
        let (name, direction) = (if CHR '':'' \<in> set raw then rsplit_colon raw else (raw, ''desc''));
            name = strip name; direction = lower (strip direction) in
        if name = [] \<or> direction \<notin> {''asc'', ''desc''} then Raise ''sort_by must use field:asc or field:desc expressions.''
        else Ok (Some (name, direction)))"

definition text_match_names :: "string list" where "text_match_names = [''_text_match'', ''text_match'']"
definition vector_distance_names :: "string list" where "vector_distance_names = [''_vector_distance'', ''vector_distance'']"

definition parse_sort_fields :: "string option \<Rightarrow> bool \<Rightarrow> string + sort_field list" where
  "parse_sort_fields sort_by has_vector_query =
     ebind (mapE parse_sort_field (split_on (CHR '','') (case sort_by of Some s \<Rightarrow> s | None \<Rightarrow> []))) (\<lambda>parsed.
       let sfs = List.map_filter id parsed in
       if sfs = [] then
         Ok (if has_vector_query then [(''_text_match'', ''desc''), (''_vector_distance'', ''asc'')] else [(''_text_match'', ''desc'')])
       else
         let has_text_match = (\<exists>f \<in> set sfs. fst f \<in> set text_match_names);
             has_vector_distance = (\<exists>f \<in> set sfs. fst f \<in> set vector_distance_names);
             sfs = (if has_vector_query \<and> \<not> has_vector_distance \<and> length sfs < 3
                       then sfs @ [(''_vector_distance'', ''asc'')] else sfs) in
         Ok (if \<not> has_text_match \<and> length sfs < 3 then sfs @ [(''_text_match'', ''desc'')] else sfs))"

section \<open>The order of hits\<close>

definition get_document_value :: "document \<Rightarrow> string \<Rightarrow> json" where
  "get_document_value d path = walk_path (JObj d) (split_on (CHR ''.'') path)"

definition hit_sort_value :: "Hit \<Rightarrow> string \<Rightarrow> json" where
  "hit_sort_value h field =
     (if field \<in> set text_match_names then jget (h_rest h) ''text_match''
      else if field \<in> set vector_distance_names then jget (h_rest h) ''vector_distance''
      else get_document_value (h_document h) field)"

text \<open>\<open>isinstance(value, (int, float))\<close>, to which a Boolean belongs.\<close>

fun number_of :: "json \<Rightarrow> pyfloat option" where
  "number_of (JInt i) = Some (Fin (of_int i))"
| "number_of (JBool b) = Some (Fin (if b then 1 else 0))"
| "number_of (JFloat f) = Some f"
| "number_of _ = None"

definition three_way :: "('a \<Rightarrow> 'a \<Rightarrow> bool) \<Rightarrow> 'a \<Rightarrow> 'a \<Rightarrow> int" where
  "three_way lt l r = (if lt r l then 1 else 0) - (if lt l r then 1 else 0)"

definition compare_scalar :: "(json \<Rightarrow> string) \<Rightarrow> json \<Rightarrow> json \<Rightarrow> int" where
  "compare_scalar rep l r =
     (case (number_of l, number_of r) of
        (Some a, Some b) \<Rightarrow> three_way pf_less a b
      | _ \<Rightarrow> three_way (<) (lower (py_str rep l)) (lower (py_str rep r)))"

definition hit_id :: "Hit \<Rightarrow> json" where
  "hit_id h = jget (h_document h) ''id''"

definition id_text :: "(json \<Rightarrow> string) \<Rightarrow> Hit \<Rightarrow> string" where
  "id_text rep h = py_str rep (get_or (h_document h) ''id'' (JStr []))"

fun compare_hits :: "(json \<Rightarrow> string) \<Rightarrow> sort_field list \<Rightarrow> Hit \<Rightarrow> Hit \<Rightarrow> int" where
  "compare_hits rep [] l r = three_way (<) (id_text rep l) (id_text rep r)"
| "compare_hits rep ((field, direction) # sfs) l r =
     (let lv = hit_sort_value l field; rv = hit_sort_value r field in
      if lv = JNull \<and> rv = JNull then compare_hits rep sfs l r
      else if lv = JNull then 1
      else if rv = JNull then -1
      else
        let result = compare_scalar rep lv rv in
        if result \<noteq> 0 then (if direction = ''desc'' then - result else result) else compare_hits rep sfs l r)"

section \<open>Projections\<close>

text \<open>The scan of a field list: finished parts, the current token in reverse, the depth.\<close>

definition close_token :: "string list \<Rightarrow> string \<Rightarrow> string list" where
  "close_token parts current = (let token = strip (rev current) in if token \<noteq> [] then parts @ [token] else parts)"

fun scan_csv :: "string list \<Rightarrow> string \<Rightarrow> nat \<Rightarrow> string \<Rightarrow> string list" where
  "scan_csv parts current depth [] = close_token parts current"
| "scan_csv parts current depth (c # cs) =
     (let depth = (if c = CHR ''('' then depth + 1 else if c = CHR '')'' \<and> depth > 0 then depth - 1 else depth) in
      if c = CHR '','' \<and> depth = 0 then scan_csv (close_token parts current) [] depth cs
      else scan_csv parts (c # current) depth cs)"

definition split_top_level_csv :: "string option \<Rightarrow> string list" where
  "split_top_level_csv v = (case v of None \<Rightarrow> [] | Some s \<Rightarrow> if s = [] then [] else scan_csv [] [] 0 s)"

definition required_fields :: "sort_field list \<Rightarrow> string list" where
  "required_fields sort_fields =
     foldl (\<lambda>rs f. if fst f \<in> set (text_match_names @ vector_distance_names) then rs
                   else if fst f \<in> set rs then rs else rs @ [fst f]) [''id''] sort_fields"

definition projection_step ::
  "bool \<Rightarrow> string list \<Rightarrow> string list \<times> string list \<Rightarrow> string \<Rightarrow> string list \<times> string list" where
  "projection_step include_all exclude_fields st field =
     (let (include_fields, internal) = st in
      (if include_fields \<noteq> [] \<and> field \<notin> set include_fields then include_fields @ [field] else include_fields,
       if (\<not> include_all \<and> field \<notin> set include_fields) \<or> field \<in> set exclude_fields then internal @ [field] else internal))"

definition joined :: "string list \<Rightarrow> string option" where
  "joined fs = (if fs = [] then None else Some (join_with '','' fs))"

definition projection_fields ::
  "SearchRequest \<Rightarrow> sort_field list \<Rightarrow> string list \<times> string list \<times> string list" where
  "projection_fields rq sort_fields =
     (let required = required_fields sort_fields;
          include_fields = split_top_level_csv (sq_include_fields rq);
          exclude_fields = split_top_level_csv (sq_exclude_fields rq);
          include_all = (include_fields = [] \<or> ''*'' \<in> set include_fields);
          (forwarded, internal) = foldl (projection_step include_all exclude_fields) (include_fields, []) required in
      (forwarded, filter (\<lambda>f. f \<notin> set required) exclude_fields, internal))"

definition projection_plan ::
  "SearchRequest \<Rightarrow> sort_field list \<Rightarrow> string option \<times> string option \<times> string list" where
  "projection_plan rq sort_fields =
     (let (inc, exc, internal) = projection_fields rq sort_fields in (joined inc, joined exc, internal))"

fun remove_path :: "document \<Rightarrow> string list \<Rightarrow> document" where
  "remove_path d [] = d"
| "remove_path d [p] = AList.delete p d"
| "remove_path d (p # q # ps) =
     (case dget d p of Some (JObj inner) \<Rightarrow> dput p (JObj (remove_path inner (q # ps))) d | _ \<Rightarrow> d)"

definition remove_document_path :: "document \<Rightarrow> string \<Rightarrow> document" where
  "remove_document_path d path = remove_path d (split_on (CHR ''.'') path)"

definition hide_internal_projection_fields :: "string list \<Rightarrow> Hit \<Rightarrow> Hit" where
  "hide_internal_projection_fields internal h =
     (if internal = [] then h else h\<lparr>h_document := foldl remove_document_path (h_document h) internal\<rparr>)"

section \<open>One shard\<close>

definition str_param :: "string option \<Rightarrow> json" where
  "str_param v = (case v of None \<Rightarrow> JNull | Some s \<Rightarrow> JStr (strip s))"

definition int_param :: "nat option \<Rightarrow> json" where
  "int_param v = (case v of None \<Rightarrow> JNull | Some n \<Rightarrow> JInt (int n))"

definition optional_params :: "SearchRequest \<Rightarrow> document" where
  "optional_params rq =
     [(''query_by'', str_param (sq_query_by rq)),
      (''filter_by'', str_param (sq_filter_by rq)),
      (''vector_query'', str_param (sq_vector_query rq)),
      (''query_by_weights'', str_param (sq_query_by_weights rq)),
      (''highlight_fields'', str_param (sq_highlight_fields rq)),
      (''highlight_full_fields'', str_param (sq_highlight_full_fields rq)),
      (''highlight_start_tag'', str_param (sq_highlight_start_tag rq)),
      (''highlight_end_tag'', str_param (sq_highlight_end_tag rq)),
      (''remote_embedding_timeout_ms'', int_param (sq_remote_embedding_timeout_ms rq)),
      (''remote_embedding_num_tries'', int_param (sq_remote_embedding_num_tries rq)),
      (''limit_hits'', int_param (sq_limit_hits rq)),
      (''search_cutoff_ms'', int_param (sq_search_cutoff_ms rq)),
      (''max_candidates'', int_param (sq_max_candidates rq)),
      (''exhaustive_search'', case sq_exhaustive_search rq of None \<Rightarrow> JNull | Some b \<Rightarrow> JBool b)]"

definition given_text :: "string \<Rightarrow> string option \<Rightarrow> document" where
  "given_text name v = (case v of None \<Rightarrow> [] | Some s \<Rightarrow> if s = [] then [] else [(name, JStr s)])"

definition build_search_params ::
  "SearchRequest \<Rightarrow> string option \<Rightarrow> string option \<Rightarrow> string option \<Rightarrow> nat \<Rightarrow> nat \<Rightarrow> document" where
  "build_search_params rq sort_by include_fields exclude_fields page per_page =
     [(''q'', JStr (sq_q rq)), (''page'', JInt (int page)), (''per_page'', JInt (int per_page))] @
     filter (\<lambda>(_, v). v \<noteq> JNull \<and> v \<noteq> JStr []) (optional_params rq) @
     given_text ''sort_by'' sort_by @ given_text ''include_fields'' include_fields @ given_text ''exclude_fields'' exclude_fields"

record shard_reply =
  sr_found :: int
  sr_hits :: "Hit list"

record multi_result =
  mr_error :: json
  mr_code :: int
  mr_reply :: shard_reply

record shard_client =
  sc_search :: "string \<Rightarrow> document \<Rightarrow> string + shard_reply"
  sc_multi_search :: "(string \<Rightarrow> document \<Rightarrow> string + multi_result list) option"

definition execute_typesense_search :: "shard_client \<Rightarrow> string \<Rightarrow> document \<Rightarrow> string + shard_reply" where
  "execute_typesense_search client coll params =
     (case sc_multi_search client of
        Some perform \<Rightarrow>
          if truthy (jget params ''vector_query'') then
            ebind (perform coll params) (\<lambda>results.
              case results of
                [] \<Rightarrow> Ok \<lparr>sr_found = 0, sr_hits = []\<rparr>
              | r # _ \<Rightarrow> if truthy (mr_error r) \<or> 400 \<le> mr_code r then Raise ''Typesense multi-search shard failed''
                         else Ok (mr_reply r))
          else sc_search client coll params
      | None \<Rightarrow> sc_search client coll params)"

text \<open>The loop over the pages of a shard; \<open>run\<close> fetches one page.\<close>

function search_window ::
  "(nat \<Rightarrow> string + shard_reply) \<Rightarrow> nat \<Rightarrow> nat \<Rightarrow> nat \<Rightarrow> Hit list \<Rightarrow> int option \<Rightarrow> string + int \<times> Hit list" where
  "search_window run needed per_page page hits found =
     (if length hits < needed then
        ebind (run page) (\<lambda>r.
          let found' = (case found of None \<Rightarrow> sr_found r | Some f \<Rightarrow> f); hits' = hits @ sr_hits r in
          if sr_hits r = [] \<or> length (sr_hits r) < per_page \<or> found' \<le> int (length hits')
          then Ok (found', take needed hits')
          else search_window run needed per_page (page + 1) hits' (Some found'))
      else Ok (case found of None \<Rightarrow> 0 | Some f \<Rightarrow> f, take needed hits))"
  by pat_completeness auto
termination
  by (relation "measure (\<lambda>(run, needed, per_page, page, hits, found). needed - length hits)") (auto simp: neq_Nil_conv)

declare search_window.simps [simp del]

definition execute_typesense_search_window ::
  "shard_client \<Rightarrow> string \<Rightarrow> (nat \<Rightarrow> nat \<Rightarrow> document) \<Rightarrow> nat \<Rightarrow> string + int \<times> Hit list" where
  "execute_typesense_search_window client coll params needed =
     (let per_page = min needed TYPESENSE_MAX_PER_PAGE in
      search_window (\<lambda>page. execute_typesense_search client coll (params page per_page)) needed per_page 1 [] None)"

section \<open>The page\<close>

record SearchResponse =
  rs_found :: int
  rs_found_relation :: string
  rs_page :: nat
  rs_per_page :: nat
  rs_hits :: "Hit list"
  rs_out_of :: nat
  rs_raw_found :: int
  rs_deduplicated_found :: nat
  rs_deduplicated_found_window :: nat
  rs_clusters_queried :: nat
  rs_clusters_responded :: nat
  rs_failed_clusters :: "string list"
  rs_partial :: bool
  rs_has_more :: bool
  rs_offset :: "nat option"
  rs_next_offset :: "nat option"
  rs_window_warning :: bool
  rs_deep_page_info :: bool

text \<open>\<open>start_idx\<close>, \<open>page_size\<close>, \<open>total_needed\<close> and \<open>effective_page\<close>.\<close>

definition page_window :: "SearchRequest \<Rightarrow> nat \<times> nat \<times> nat \<times> nat" where
  "page_window rq =
     (case (sq_offset rq, sq_limit rq) of
        (Some off, Some cnt) \<Rightarrow> (off, cnt, off + cnt, off div cnt + 1)
      | _ \<Rightarrow> ((sq_page rq - 1) * sq_per_page rq, sq_per_page rq, sq_page rq * sq_per_page rq, sq_page rq))"

definition has_vector_query :: "SearchRequest \<Rightarrow> bool" where
  "has_vector_query rq = text_given (sq_vector_query rq)"

text \<open>The sort that is sent; \<open>default_sorting\<close> is the stored schema's default sorting field.\<close>

definition forwarded_sort_by :: "(json \<Rightarrow> string) \<Rightarrow> json \<Rightarrow> SearchRequest \<Rightarrow> string option" where
  "forwarded_sort_by rep default_sorting rq =
     (if (sq_sort_by rq = None \<or> sq_sort_by rq = Some []) \<and> \<not> has_vector_query rq
      then Some (''_text_match:desc'' @ (if truthy default_sorting then '','' @ py_str rep default_sorting @ '':desc'' else []))
      else sq_sort_by rq)"

definition shard_params ::
  "(json \<Rightarrow> string) \<Rightarrow> json \<Rightarrow> SearchRequest \<Rightarrow> sort_field list \<Rightarrow> nat \<Rightarrow> nat \<Rightarrow> document" where
  "shard_params rep default_sorting rq sort_fields =
     (let (inc, exc, _) = projection_plan rq sort_fields in
      build_search_params rq (forwarded_sort_by rep default_sorting rq) inc exc)"

definition fetch_needed :: "nat \<Rightarrow> nat" where
  "fetch_needed total_needed = min (total_needed + 1) MAX_DEEP_PAGINATION_DOCS"

definition merged_hits :: "(json \<Rightarrow> string) \<Rightarrow> sort_field list \<Rightarrow> Hit list \<Rightarrow> Hit list" where
  "merged_hits rep sort_fields all_hits =
     sort_with (compare_hits rep sort_fields)
       (best_by_key hit_id (compare_hits rep sort_fields) (filter (\<lambda>h. truthy (hit_id h)) all_hits))"

definition gather_page ::
  "(json \<Rightarrow> string) \<Rightarrow> SearchRequest \<Rightarrow> sort_field list \<Rightarrow> (string \<times> (string + int \<times> Hit list)) list \<Rightarrow> http_error + SearchResponse" where
  "gather_page rep rq sort_fields results =
     (let (start_idx, page_size, total_needed, effective_page) = page_window rq;
          answers = List.map_filter (\<lambda>(_, r). case r of Inl _ \<Rightarrow> None | Inr a \<Rightarrow> Some a) results;
          all_hits = concat (map snd answers);
          total_found = sum_list (map fst answers);
          failed = map fst (filter (\<lambda>(_, r). case r of Inl _ \<Rightarrow> True | Inr _ \<Rightarrow> False) results) in
      if answers = [] then Raise (Http 503 ''Search failed on all clusters'')
      else
        let (_, _, internal) = projection_plan rq sort_fields;
            sorted_hits = merged_hits rep sort_fields all_hits;
            end_idx = start_idx + page_size;
            duplicates_seen = (\<not> distinct (filter truthy (map hit_id all_hits)));
            has_more = (end_idx < length sorted_hits \<or> int (length all_hits) < total_found) in
        Ok \<lparr>rs_found = (if duplicates_seen then int (length sorted_hits) else total_found),
            rs_found_relation = (if duplicates_seen then ''window_lower_bound''
                                 else if length results = 1 then ''exact'' else ''upper_bound''),
            rs_page = effective_page,
            rs_per_page = page_size,
            rs_hits = map (hide_internal_projection_fields internal) (take page_size (drop start_idx sorted_hits)),
            rs_out_of = length sorted_hits,
            rs_raw_found = total_found,
            rs_deduplicated_found = length sorted_hits,
            rs_deduplicated_found_window = length sorted_hits,
            rs_clusters_queried = length results,
            rs_clusters_responded = length answers,
            rs_failed_clusters = failed,
            rs_partial = (failed \<noteq> []),
            rs_has_more = has_more,
            rs_offset = (if sq_offset rq \<noteq> None \<and> sq_limit rq \<noteq> None then sq_offset rq else None),
            rs_next_offset =
              (case (sq_offset rq, sq_limit rq) of
                 (Some off, Some cnt) \<Rightarrow>
                   if has_more \<and> off + cnt + cnt \<le> MAX_DEEP_PAGINATION_DOCS then Some (off + cnt) else None
               | _ \<Rightarrow> None),
            rs_window_warning = (fetch_needed total_needed = MAX_DEEP_PAGINATION_DOCS),
            rs_deep_page_info = (DEEP_PAGINATION_WARNING_PAGE < effective_page)\<rparr>)"

definition perform_federated_search ::
  "(json \<Rightarrow> string) \<Rightarrow> json \<Rightarrow> string \<Rightarrow> SearchRequest \<Rightarrow> (string \<times> shard_client) list \<Rightarrow> http_error + SearchResponse" where
  "perform_federated_search rep default_sorting coll rq named_clients =
     (if named_clients = [] then Raise (Http 404 ''Collection not found on any registered cluster'')
      else case parse_sort_fields (forwarded_sort_by rep default_sorting rq) (has_vector_query rq) of
        Inl message \<Rightarrow> Raise (Http 400 message)
      | Inr sort_fields \<Rightarrow>
          let (_, _, total_needed, _) = page_window rq in
          if MAX_DEEP_PAGINATION_DOCS < total_needed
          then Raise (Http 400 ''Requested pagination window exceeds the configured maximum'')
          else gather_page rep rq sort_fields (map (\<lambda>(name, client). (name,
            execute_typesense_search_window client coll (shard_params rep default_sorting rq sort_fields)
              (fetch_needed total_needed))) named_clients))"

text \<open>The endpoints: the tenant filter goes into the request before the search.\<close>

definition search_with_body ::
  "(json \<Rightarrow> string) \<Rightarrow> authz_settings \<Rightarrow> auth_request \<Rightarrow> json \<Rightarrow> string \<Rightarrow> SearchRequest \<Rightarrow> (string \<times> shard_client) list
   \<Rightarrow> http_error + SearchResponse" where
  "search_with_body rep st http_request default_sorting coll rq named_clients =
     ebind (authorize_search_request rep st http_request coll (sq_filter_by rq)) (\<lambda>filter_by.
       perform_federated_search rep default_sorting coll (rq\<lparr>sq_filter_by := filter_by\<rparr>) named_clients)"

definition search_endpoint ::
  "(json \<Rightarrow> string) \<Rightarrow> authz_settings \<Rightarrow> auth_request \<Rightarrow> json \<Rightarrow> string \<Rightarrow> SearchRequest \<Rightarrow> (string \<times> shard_client) list
   \<Rightarrow> http_error + SearchResponse" where
  "search_endpoint rep st http_request default_sorting coll rq named_clients =
     (if \<not> search_request_ok rq then Raise (Http 400 ''validation'')
      else search_with_body rep st http_request default_sorting coll rq named_clients)"

section \<open>The order is a total preorder\<close>

lemma three_way_flip: "three_way lt r l = - three_way lt l r"
  by (simp add: three_way_def)

lemma three_way_lex:
  fixes a b c :: string
  assumes "three_way (<) a b \<le> 0" and "three_way (<) b c \<le> 0"
  shows "three_way (<) a c \<le> 0"
  using assms by (auto simp: three_way_def split: if_splits)

lemma three_way_lex_eq:
  fixes a b :: string
  shows "three_way (<) a b = 0 \<longleftrightarrow> a = b"
  by (auto simp: three_way_def split: if_splits)

lemma pf_less_order:
  assumes "a \<noteq> NotANumber" "b \<noteq> NotANumber" "c \<noteq> NotANumber" "\<not> pf_less b a" "\<not> pf_less c b"
  shows "\<not> pf_less c a"
  using assms by (cases a; cases b; cases c) auto

lemma pf_less_asym: "pf_less a b \<Longrightarrow> \<not> pf_less b a"
  by (cases a; cases b) auto

lemma three_way_pf:
  assumes "a \<noteq> NotANumber" "b \<noteq> NotANumber" "c \<noteq> NotANumber" "three_way pf_less a b \<le> 0" "three_way pf_less b c \<le> 0"
  shows "three_way pf_less a c \<le> 0"
proof -
  have "three_way pf_less x y \<le> 0 \<longleftrightarrow> \<not> pf_less y x" for x y
    using pf_less_asym [of x y] by (auto simp: three_way_def)
  with pf_less_order assms show ?thesis by blast
qed

text \<open>Values of one field of a schema: numbers other than NaN, or no numbers at all.\<close>

definition typed_value :: "bool \<Rightarrow> json \<Rightarrow> bool" where
  "typed_value numeric v \<longleftrightarrow>
     v = JNull \<or> (if numeric then (\<exists>x. number_of v = Some x \<and> x \<noteq> NotANumber) else number_of v = None)"

lemma compare_scalar_flip: "compare_scalar rep r l = - compare_scalar rep l r"
  by (cases "number_of l"; cases "number_of r") (simp_all add: compare_scalar_def three_way_def)

lemma compare_scalar_trans:
  assumes "typed_value n a" "typed_value n b" "typed_value n c" "a \<noteq> JNull" "b \<noteq> JNull" "c \<noteq> JNull"
    and "compare_scalar rep a b \<le> 0" "compare_scalar rep b c \<le> 0"
  shows "compare_scalar rep a c \<le> 0"
proof (cases n)
  case True
  with assms show ?thesis by (auto simp: typed_value_def compare_scalar_def intro: three_way_pf)
next
  case False
  with assms show ?thesis by (auto simp: typed_value_def compare_scalar_def intro: three_way_lex)
qed

text \<open>One field of the comparison.\<close>

definition field_order :: "(json \<Rightarrow> string) \<Rightarrow> string \<Rightarrow> json \<Rightarrow> json \<Rightarrow> int" where
  "field_order rep direction a b =
     (if a = JNull \<and> b = JNull then 0 else if a = JNull then 1 else if b = JNull then -1
      else if direction = ''desc'' then - compare_scalar rep a b else compare_scalar rep a b)"

lemma field_order_flip: "field_order rep d b a = - field_order rep d a b"
  using compare_scalar_flip [of rep b a] by (simp add: field_order_def)

lemma field_order_trans:
  assumes "typed_value n a" "typed_value n b" "typed_value n c"
    and "field_order rep d a b \<le> 0" "field_order rep d b c \<le> 0"
  shows "field_order rep d a c \<le> 0"
proof (cases "a = JNull \<or> b = JNull \<or> c = JNull")
  case True
  with assms(4,5) show ?thesis by (auto simp: field_order_def split: if_splits)
next
  case False
  then show ?thesis
    using compare_scalar_trans [of n a b c rep] compare_scalar_trans [of n c b a rep] assms
      compare_scalar_flip [of rep a b] compare_scalar_flip [of rep b c] compare_scalar_flip [of rep a c]
    by (auto simp: field_order_def split: if_splits)
qed

lemma compare_hits_Cons:
  "compare_hits rep ((f, d) # fs) l r =
     (let o1 = field_order rep d (hit_sort_value l f) (hit_sort_value r f) in if o1 \<noteq> 0 then o1 else compare_hits rep fs l r)"
  by (auto simp: field_order_def Let_def)

text \<open>
  The hits that a typed collection can return: string ids, and for every sort field values of the
  kind \<open>numeric\<close> gives it. Between hits with mixed values the comparison is not transitive.
\<close>

definition typed_hits :: "(string \<Rightarrow> bool) \<Rightarrow> sort_field list \<Rightarrow> Hit set" where
  "typed_hits numeric sfs =
     {h. (\<exists>s. s \<noteq> [] \<and> hit_id h = JStr s) \<and> (\<forall>f \<in> set sfs. typed_value (numeric (fst f)) (hit_sort_value h (fst f)))}"

lemma mixed_values_cycle:
  "compare_scalar rep (JInt 9) (JInt 10) < 0" "compare_scalar rep (JInt 10) (JStr ''5'') < 0"
  "compare_scalar rep (JStr ''5'') (JInt 9) < 0"
proof -
  have "int_str 9 = ''9''" "int_str 10 = ''10''" by code_simp+
  then show "compare_scalar rep (JInt 9) (JInt 10) < 0" "compare_scalar rep (JInt 10) (JStr ''5'') < 0"
    "compare_scalar rep (JStr ''5'') (JInt 9) < 0"
    by (simp_all add: compare_scalar_def three_way_def lower_def lower_char_def)
qed

lemma compare_hits_flip: "compare_hits rep sfs b a = - compare_hits rep sfs a b"
proof (induction sfs)
  case (Cons fd sfs)
  obtain f d where "fd = (f, d)" by fastforce
  with Cons show ?case
    using field_order_flip [of rep d "hit_sort_value b f" "hit_sort_value a f"]
    by (simp add: compare_hits_Cons Let_def del: compare_hits.simps)
qed (simp add: three_way_def)

lemma compare_hits_trans:
  assumes "a \<in> typed_hits numeric sfs" "b \<in> typed_hits numeric sfs" "c \<in> typed_hits numeric sfs"
    and "compare_hits rep sfs a b \<le> 0" "compare_hits rep sfs b c \<le> 0"
  shows "compare_hits rep sfs a c \<le> 0"
  using assms
proof (induction sfs)
  case Nil
  then show ?case using three_way_lex by auto
next
  case (Cons fd sfs)
  obtain f d where fd: "fd = (f, d)" by fastforce
  let ?o = "\<lambda>x y. field_order rep d (hit_sort_value x f) (hit_sort_value y f)"
  have typed: "typed_value (numeric f) (hit_sort_value x f)" if "x \<in> {a, b, c}" for x
    using that Cons.prems fd by (auto simp: typed_hits_def)
  have tail: "x \<in> typed_hits numeric sfs" if "x \<in> {a, b, c}" for x
    using that Cons.prems by (auto simp: typed_hits_def)
  note split = Cons.prems(4,5) [unfolded fd compare_hits_Cons Let_def]
  have le: "?o a b \<le> 0" "?o b c \<le> 0" using split by (auto split: if_splits)
  then have ac: "?o a c \<le> 0" using field_order_trans typed by blast
  show ?case
  proof (cases "?o a c = 0")
    case True
    then have "?o c a \<le> 0" using field_order_flip [of rep d "hit_sort_value a f" "hit_sort_value c f"] by simp
    then have "?o b a \<le> 0" "?o c b \<le> 0" using field_order_trans typed le by blast+
    then have "?o a b = 0" "?o b c = 0"
      using le field_order_flip [of rep d "hit_sort_value a f" "hit_sort_value b f"]
        field_order_flip [of rep d "hit_sort_value b f" "hit_sort_value c f"] by auto
    with split have "compare_hits rep sfs a b \<le> 0" "compare_hits rep sfs b c \<le> 0" by auto
    with Cons.IH tail True fd show ?thesis by (simp add: compare_hits_Cons Let_def del: compare_hits.simps)
  next
    case False
    with ac fd show ?thesis by (simp add: compare_hits_Cons Let_def del: compare_hits.simps)
  qed
qed

lemma compare_hits_tie:
  assumes "a \<in> typed_hits numeric sfs" "b \<in> typed_hits numeric sfs" and "compare_hits rep sfs a b = 0"
  shows "hit_id a = hit_id b"
proof -
  have "compare_hits rep sfs a b = 0 \<Longrightarrow> id_text rep a = id_text rep b" for sfs
  proof (induction sfs)
    case (Cons fd sfs)
    obtain f d where "fd = (f, d)" by fastforce
    with Cons show ?case by (auto simp: compare_hits_Cons Let_def simp del: compare_hits.simps split: if_splits)
  qed (simp add: three_way_lex_eq)
  with assms(3) have "id_text rep a = id_text rep b" by blast
  then show ?thesis using assms(1,2)
    by (auto simp: typed_hits_def id_text_def hit_id_def jget_def get_or_def split: option.splits)
qed

interpretation hit_order: ranking "compare_hits rep sfs" "typed_hits numeric sfs" hit_id
  for rep :: "json \<Rightarrow> string" and sfs :: "sort_field list" and numeric :: "string \<Rightarrow> bool"
  by unfold_locales (rule compare_hits_flip, rule compare_hits_trans, assumption+, rule compare_hits_tie, assumption+)

section \<open>What a shard answers\<close>

text \<open>A shard that serves the ranked result list \<open>L\<close> page by page, and one that is down.\<close>

definition serves :: "shard_client \<Rightarrow> string \<Rightarrow> (nat \<Rightarrow> nat \<Rightarrow> document) \<Rightarrow> Hit list \<Rightarrow> bool" where
  "serves client coll params L \<longleftrightarrow>
     (\<forall>page per_page. 1 \<le> page \<longrightarrow> 1 \<le> per_page \<longrightarrow> per_page \<le> TYPESENSE_MAX_PER_PAGE \<longrightarrow>
        execute_typesense_search client coll (params page per_page) =
          Ok \<lparr>sr_found = int (length L), sr_hits = take per_page (drop ((page - 1) * per_page) L)\<rparr>)"

definition is_down :: "shard_client \<Rightarrow> string \<Rightarrow> (nat \<Rightarrow> nat \<Rightarrow> document) \<Rightarrow> bool" where
  "is_down client coll params \<longleftrightarrow>
     (\<forall>page per_page. \<exists>e. execute_typesense_search client coll (params page per_page) = Raise e)"

definition ranked_hits :: "(json \<Rightarrow> string) \<Rightarrow> sort_field list \<Rightarrow> (string \<Rightarrow> bool) \<Rightarrow> Hit list \<Rightarrow> bool" where
  "ranked_hits rep sfs numeric L \<longleftrightarrow>
     set L \<subseteq> typed_hits numeric sfs \<and> sorted_wrt (\<lambda>a b. compare_hits rep sfs a b < 0) L \<and> distinct (map hit_id L)"

lemma ranked_hits_ranked: "ranked_hits rep sfs numeric L \<longleftrightarrow> ranking.ranked (compare_hits rep sfs) (typed_hits numeric sfs) hit_id L"
  by (simp add: ranked_hits_def hit_order.ranked_def)

definition shard_view ::
  "(json \<Rightarrow> string) \<Rightarrow> string \<Rightarrow> (nat \<Rightarrow> nat \<Rightarrow> document) \<Rightarrow> (string \<Rightarrow> bool) \<Rightarrow> sort_field list
   \<Rightarrow> string \<times> shard_client \<Rightarrow> string \<times> Hit list option \<Rightarrow> bool" where
  "shard_view rep coll params numeric sfs shard view \<longleftrightarrow> fst view = fst shard \<and>
     (case snd view of
        None \<Rightarrow> is_down (snd shard) coll params
      | Some L \<Rightarrow> serves (snd shard) coll params L \<and> ranked_hits rep sfs numeric L)"

text \<open>The reference: all hits of all shards, each document once, in order.\<close>

definition federated_order :: "(json \<Rightarrow> string) \<Rightarrow> sort_field list \<Rightarrow> Hit list list \<Rightarrow> Hit list" where
  "federated_order rep sfs Ls = merge_ranked hit_id (compare_hits rep sfs) Ls"

section \<open>The window loop\<close>

lemma search_window_step:
  assumes "length hits < needed" and "run p = Ok r" and "(case found of None \<Rightarrow> sr_found r | Some f \<Rightarrow> f) = f"
  shows "search_window run needed n p hits found =
    (if sr_hits r = [] \<or> length (sr_hits r) < n \<or> f \<le> int (length (hits @ sr_hits r)) then Ok (f, take needed (hits @ sr_hits r))
     else search_window run needed n (p + 1) (hits @ sr_hits r) (Some f))"
  using assms by (subst search_window.simps) (simp only: ebind_Ok Let_def if_True)

lemma search_window_done: "\<not> length hits < needed \<Longrightarrow>
    search_window run needed n p hits found = Ok (case found of None \<Rightarrow> 0 | Some f \<Rightarrow> f, take needed hits)"
  by (simp add: search_window.simps)

lemma search_window_raises: "length hits < needed \<Longrightarrow> run p = Raise e \<Longrightarrow> search_window run needed n p hits found = Raise e"
  by (simp add: search_window.simps)

lemma window_serves_aux:
  assumes run: "\<And>p. 1 \<le> p \<Longrightarrow> run p = Ok \<lparr>sr_found = int (length L), sr_hits = take n (drop ((p - 1) * n) L)\<rparr>"
    and n: "1 \<le> n" and needed: "1 \<le> needed"
  shows "hits = take ((p - 1) * n) L \<Longrightarrow> (p - 1) * n \<le> length L \<Longrightarrow> 1 \<le> p \<Longrightarrow>
    found = Some (int (length L)) \<or> found = None \<and> p = 1 \<Longrightarrow>
    search_window run needed n p hits found = Ok (int (length L), take needed L)"
proof (induction "needed - length hits" arbitrary: p hits found rule: less_induct)
  case less
  let ?page = "take n (drop ((p - 1) * n) L)"
  have len: "length hits = (p - 1) * n" using less.prems by simp
  have next_hits: "hits @ ?page = take (p * n) L"
  proof -
    have "take ((p - 1) * n + n) L = hits @ ?page" unfolding less.prems(1) by (rule take_add)
    moreover have "(p - 1) * n + n = p * n" using less.prems(3) by (cases p) auto
    ultimately show ?thesis by simp
  qed
  show ?case
  proof (cases "length hits < needed")
    case False
    with needed len less.prems(4) have "found = Some (int (length L))" by (cases p) auto
    moreover have "take needed hits = take needed L" using False less.prems(1) len by (simp add: min_absorb2)
    ultimately show ?thesis using False by (simp add: search_window.simps)
  next
    case True
    let ?stop = "?page = [] \<or> length ?page < n \<or> int (length L) \<le> int (length (hits @ ?page))"
    have found: "(case found of None \<Rightarrow> int (length L) | Some f \<Rightarrow> f) = int (length L)" using less.prems(4) by auto
    have step: "search_window run needed n p hits found =
        (if ?stop then Ok (int (length L), take needed (hits @ ?page))
         else search_window run needed n (p + 1) (hits @ ?page) (Some (int (length L))))"
      using search_window_step [of hits needed run p _ found "int (length L)" n, OF True run [OF less.prems(3)]] found by (simp only: shard_reply.simps)
    show ?thesis
    proof (cases ?stop)
      case stop: True
      have "p * n = (p - 1) * n + n" using less.prems(3) by (cases p) auto
      moreover from stop have "length ?page < n \<or> length L \<le> length hits + length ?page" using n by auto
      moreover have "length ?page = min (length L - (p - 1) * n) n" by simp
      ultimately have "length L \<le> p * n" using len by linarith
      then have "hits @ ?page = L" unfolding next_hits by simp
      with step stop show ?thesis by simp
    next
      case go: False
      have "search_window run needed n (p + 1) (hits @ ?page) (Some (int (length L))) = Ok (int (length L), take needed L)"
      proof (rule less.hyps)
        show "needed - length (hits @ ?page) < needed - length hits" using go True by (cases "?page") auto
        show "hits @ ?page = take ((p + 1 - 1) * n) L" using next_hits by simp
        show "(p + 1 - 1) * n \<le> length L" using go next_hits len by (cases p) auto
      qed simp_all
      with step go show ?thesis by simp
    qed
  qed
qed

lemma window_serves:
  assumes "serves client coll params L" and "1 \<le> needed"
  shows "execute_typesense_search_window client coll params needed = Ok (int (length L), take needed L)"
  unfolding execute_typesense_search_window_def Let_def
proof (rule window_serves_aux [where p = 1])
  show "1 \<le> min needed TYPESENSE_MAX_PER_PAGE" using assms(2) by (simp add: TYPESENSE_MAX_PER_PAGE_def)
  then show "execute_typesense_search client coll (params p (min needed TYPESENSE_MAX_PER_PAGE)) =
      Ok \<lparr>sr_found = int (length L), sr_hits = take (min needed TYPESENSE_MAX_PER_PAGE) (drop ((p - 1) * min needed TYPESENSE_MAX_PER_PAGE) L)\<rparr>"
    if "1 \<le> p" for p
    using assms(1) that by (simp add: serves_def)
qed (use assms(2) in auto)

lemma window_down:
  assumes "is_down client coll params" and "1 \<le> needed"
  shows "\<exists>e. execute_typesense_search_window client coll params needed = Raise e"
proof -
  from assms(1) obtain e where "execute_typesense_search client coll (params 1 (min needed TYPESENSE_MAX_PER_PAGE)) = Raise e"
    unfolding is_down_def by blast
  with assms(2) show ?thesis by (simp add: execute_typesense_search_window_def Let_def search_window.simps)
qed

text \<open>The loop asks for page \<open>p\<close> only after \<open>p - 1\<close> full pages.\<close>

lemma search_window_cong:
  assumes "\<forall>p. 1 \<le> p \<longrightarrow> (p - 1) * n < needed \<longrightarrow> run p = run' p"
  shows "1 \<le> p \<Longrightarrow> (p - 1) * n \<le> length hits \<Longrightarrow>
    search_window run needed n p hits found = search_window run' needed n p hits found"
proof (induction "needed - length hits" arbitrary: p hits found rule: less_induct)
  case less
  show ?case
  proof (cases "length hits < needed")
    case False
    then show ?thesis by (simp add: search_window_done)
  next
    case True
    with less.prems assms have same: "run p = run' p" by auto
    show ?thesis
    proof (cases "run' p")
      case (Inl e)
      with same True show ?thesis by (simp add: search_window_raises)
    next
      case (Inr r)
      let ?f = "case found of None \<Rightarrow> sr_found r | Some f \<Rightarrow> f"
      let ?stop = "sr_hits r = [] \<or> length (sr_hits r) < n \<or> ?f \<le> int (length (hits @ sr_hits r))"
      have step: "search_window rn needed n p hits found =
          (if ?stop then Ok (?f, take needed (hits @ sr_hits r))
           else search_window rn needed n (p + 1) (hits @ sr_hits r) (Some ?f))" if "rn p = Ok r" for rn
        by (rule search_window_step [of hits needed rn p r found, OF True that refl])
      have "\<not> ?stop \<Longrightarrow> search_window run needed n (p + 1) (hits @ sr_hits r) (Some ?f) =
          search_window run' needed n (p + 1) (hits @ sr_hits r) (Some ?f)"
      proof (rule less.hyps)
        assume go: "\<not> ?stop"
        then show "needed - length (hits @ sr_hits r) < needed - length hits" using True by (cases "sr_hits r") auto
        have "(p - 1) * n + n \<le> length (hits @ sr_hits r)" using go less.prems by simp
        then show "(p + 1 - 1) * n \<le> length (hits @ sr_hits r)" using less.prems(1) by (cases p) auto
      qed simp
      then show ?thesis using step [of run] step [of run'] same Inr by auto
    qed
  qed
qed

lemma search_window_short: "search_window run needed n p hits found = Ok (f, hs) \<Longrightarrow> length hs \<le> needed"
proof (induction "needed - length hits" arbitrary: p hits found rule: less_induct)
  case less
  show ?case
  proof (cases "length hits < needed")
    case False
    with less.prems show ?thesis by (auto simp: search_window_done)
  next
    case True
    with less.prems obtain r where r: "run p = Ok r" by (cases "run p") (auto simp: search_window_raises)
    let ?f = "case found of None \<Rightarrow> sr_found r | Some f \<Rightarrow> f"
    show ?thesis
    proof (cases "sr_hits r = [] \<or> length (sr_hits r) < n \<or> ?f \<le> int (length (hits @ sr_hits r))")
      case stop: True
      with less.prems search_window_step [of hits needed run p r found _ n, OF True r refl] show ?thesis by auto
    next
      case False
      with less.prems search_window_step [of hits needed run p r found _ n, OF True r refl]
      have "search_window run needed n (p + 1) (hits @ sr_hits r) (Some ?f) = Ok (f, hs)" by simp
      moreover have "needed - length (hits @ sr_hits r) < needed - length hits" using False True by (cases "sr_hits r") auto
      ultimately show ?thesis by (rule less.hyps [rotated])
    qed
  qed
qed

section \<open>The gathered window\<close>

definition shard_results ::
  "string \<Rightarrow> (nat \<Rightarrow> nat \<Rightarrow> document) \<Rightarrow> nat \<Rightarrow> (string \<times> shard_client) list \<Rightarrow> (string \<times> (string + int \<times> Hit list)) list" where
  "shard_results coll params needed clients =
     map (\<lambda>(name, client). (name, execute_typesense_search_window client coll params needed)) clients"

lemma gathered_answers:
  assumes "list_all2 (shard_view rep coll params numeric sfs) clients views" and "1 \<le> needed"
  shows "List.map_filter (\<lambda>(_, r). case r of Inl _ \<Rightarrow> None | Inr a \<Rightarrow> Some a) (shard_results coll params needed clients) =
      map (\<lambda>L. (int (length L), take needed L)) (List.map_filter snd views)"
    and "map fst (filter (\<lambda>(_, r). case r of Inl _ \<Rightarrow> True | Inr _ \<Rightarrow> False) (shard_results coll params needed clients)) =
      map fst (filter (\<lambda>v. snd v = None) views)"
  using assms(1)
proof (induction rule: list_all2_induct)
  case (Cons shard shards view views)
  obtain name client v where s: "shard = (name, client)" "view = (name, v)"
    using Cons(1) by (cases shard; cases view) (auto simp: shard_view_def)
  { case 1
    show ?case
    proof (cases v)
      case None
      with Cons(1) s obtain e where "execute_typesense_search_window client coll params needed = Raise e"
        using window_down [OF _ assms(2), of client coll params] by (auto simp: shard_view_def)
      with Cons(3) s None show ?thesis by (simp add: shard_results_def List.map_filter_simps)
    next
      case (Some L)
      with Cons(1) s have "execute_typesense_search_window client coll params needed = Ok (int (length L), take needed L)"
        using window_serves [OF _ assms(2), of client coll params L] by (auto simp: shard_view_def)
      with Cons(3) s Some show ?thesis by (simp add: shard_results_def List.map_filter_simps)
    qed
  next
    case 2
    show ?case
    proof (cases v)
      case None
      with Cons(1) s obtain e where "execute_typesense_search_window client coll params needed = Raise e"
        using window_down [OF _ assms(2), of client coll params] by (auto simp: shard_view_def)
      with Cons(4) s None show ?thesis by (simp add: shard_results_def)
    next
      case (Some L)
      with Cons(1) s have "execute_typesense_search_window client coll params needed = Ok (int (length L), take needed L)"
        using window_serves [OF _ assms(2), of client coll params L] by (auto simp: shard_view_def)
      with Cons(4) s Some show ?thesis by (simp add: shard_results_def)
    qed
  }
qed (simp_all add: shard_results_def List.map_filter_simps)

lemma views_ranked:
  assumes "list_all2 (shard_view rep coll params numeric sfs) clients views"
  shows "\<forall>L \<in> set (List.map_filter snd views). ranked_hits rep sfs numeric L"
  using assms by (induction rule: list_all2_induct) (auto simp: shard_view_def List.map_filter_simps split: option.splits)

lemma typed_truthy: "h \<in> typed_hits numeric sfs \<Longrightarrow> truthy (hit_id h)"
  by (auto simp: typed_hits_def)

lemma windows_typed:
  assumes "\<forall>L \<in> set Ls. ranked_hits rep sfs numeric L"
  shows "set (concat (map (take n) Ls)) \<subseteq> typed_hits numeric sfs"
  using assms by (auto simp: ranked_hits_def dest!: in_set_takeD)

lemma merged_windows:
  assumes "\<forall>L \<in> set Ls. ranked_hits rep sfs numeric L"
  shows "merged_hits rep sfs (concat (map (take n) Ls)) = federated_order rep sfs (map (take n) Ls)"
proof -
  have "filter (\<lambda>h. truthy (hit_id h)) (concat (map (take n) Ls)) = concat (map (take n) Ls)"
    using windows_typed [OF assms] typed_truthy by (intro filter_True ballI) blast
  then show ?thesis by (simp add: merged_hits_def federated_order_def merge_ranked_def)
qed

lemma federated_windows:
  assumes "\<forall>L \<in> set Ls. ranked_hits rep sfs numeric L"
  shows "take n (federated_order rep sfs (map (take n) Ls)) = take n (federated_order rep sfs Ls)"
  unfolding federated_order_def
  by (rule hit_order.merge_windows) (use assms in \<open>simp add: ranked_hits_ranked [symmetric]\<close>)

lemma federated_covers:
  assumes "\<forall>L \<in> set Ls. ranked_hits rep sfs numeric L" and "L \<in> set Ls"
  shows "length L \<le> length (federated_order rep sfs Ls)"
  unfolding federated_order_def
  by (rule hit_order.merge_covers) (use assms in \<open>auto simp: ranked_hits_ranked [symmetric]\<close>)

text \<open>Some shard has more hits than the window exactly when the counts exceed the hits.\<close>

lemma counts_exceed:
  "int (length (concat (map (take n) Ls))) < sum_list (map (\<lambda>L. int (length L)) Ls) \<longleftrightarrow> (\<exists>L \<in> set Ls. n < length L)"
proof (induction Ls)
  case (Cons L Ls)
  have le: "int (length (concat (map (take n) Ls))) \<le> sum_list (map (\<lambda>L. int (length L)) Ls)"
    by (induction Ls) (auto simp: min_def)
  show ?case
  proof (cases "n < length L")
    case True
    with le show ?thesis by (auto simp: min_def)
  next
    case False
    with Cons show ?thesis by (auto simp: min_def)
  qed
qed simp

text \<open>Whether more pages follow is decided by the window alone.\<close>

lemma more_pages:
  assumes ranked: "\<forall>L \<in> set Ls. ranked_hits rep sfs numeric L" and n: "n = fetch_needed needed" and total: "needed \<le> MAX_DEEP_PAGINATION_DOCS"
  shows "needed < length (federated_order rep sfs (map (take n) Ls)) \<or> (\<exists>L \<in> set Ls. n < length L) \<longleftrightarrow>
    needed < length (federated_order rep sfs Ls)"
proof (cases "\<exists>L \<in> set Ls. n < length L")
  case True
  then obtain L where "L \<in> set Ls" "n < length L" by blast
  moreover have "needed \<le> n" using n total by (simp add: fetch_needed_def)
  ultimately show ?thesis using federated_covers [OF ranked] by fastforce
next
  case False
  then have "map (take n) Ls = Ls" by (intro map_idI) auto
  with False show ?thesis by simp
qed

lemma slice_of_window:
  assumes "take n xs = take n ys" and "start + count \<le> n"
  shows "take count (drop start xs) = take count (drop start ys)"
proof -
  have "take count (drop start zs) = drop start (take (start + count) (take n zs))" for zs :: "'a list"
    using assms(2) by (simp add: take_drop min_absorb1 add.commute)
  with assms(1) show ?thesis by metis
qed

lemma page_window_sum:
  assumes "search_request_ok rq" and "page_window rq = (start, count, needed, page)"
  shows "start + count = needed" "1 \<le> count"
  using assms
  by (cases "sq_page rq"; auto simp: page_window_def search_request_ok_def split: option.splits)+

text \<open>The answer of the router in terms of the shards' lists.\<close>

lemma federated_search_answer:
  assumes sfs: "parse_sort_fields (forwarded_sort_by rep ds rq) (has_vector_query rq) = Ok sfs"
    and window: "page_window rq = (start, count, needed, page)" and total: "needed \<le> MAX_DEEP_PAGINATION_DOCS"
    and views: "list_all2 (shard_view rep coll (shard_params rep ds rq sfs) numeric sfs) clients views"
    and Ls: "Ls = List.map_filter snd views" "Ls \<noteq> []"
  defines "n \<equiv> fetch_needed needed"
  defines "W \<equiv> federated_order rep sfs (map (take n) Ls)"
  defines "dup \<equiv> \<not> distinct (map hit_id (concat (map (take n) Ls)))"
  obtains resp where "perform_federated_search rep ds coll rq clients = Ok resp"
    and "rs_hits resp = map (hide_internal_projection_fields (snd (snd (projection_plan rq sfs)))) (take count (drop start W))"
    and "rs_has_more resp \<longleftrightarrow> start + count < length W \<or> (\<exists>L \<in> set Ls. n < length L)"
    and "rs_failed_clusters resp = map fst (filter (\<lambda>v. snd v = None) views)"
    and "rs_found resp = (if dup then int (length W) else sum_list (map (\<lambda>L. int (length L)) Ls))"
    and "rs_found_relation resp = (if dup then ''window_lower_bound'' else if length clients = 1 then ''exact'' else ''upper_bound'')"
proof -
  let ?results = "shard_results coll (shard_params rep ds rq sfs) n clients"
  have ranked: "\<forall>L \<in> set Ls. ranked_hits rep sfs numeric L" using views_ranked [OF views] Ls(1) by simp
  have n: "1 \<le> n" by (simp add: n_def fetch_needed_def MAX_DEEP_PAGINATION_DOCS_def)
  note answers = gathered_answers [OF views n, folded Ls(1)]
  have nonempty: "clients \<noteq> []" using views Ls by (auto simp: List.map_filter_simps)
  have run: "perform_federated_search rep ds coll rq clients = gather_page rep rq sfs ?results"
    using sfs window total nonempty by (simp add: perform_federated_search_def shard_results_def n_def)
  have hits: "concat (map snd (map (\<lambda>L. (int (length L), take n L)) Ls)) = concat (map (take n) Ls)"
    "sum_list (map fst (map (\<lambda>L. (int (length L), take n L)) Ls)) = sum_list (map (\<lambda>L. int (length L)) Ls)"
    by (simp_all add: comp_def)
  have ids: "filter truthy (map hit_id (concat (map (take n) Ls))) = map hit_id (concat (map (take n) Ls))"
    using windows_typed [OF ranked, of n] typed_truthy by (intro filter_True) (auto simp del: set_concat)
  have len: "length ?results = length clients" by (simp add: shard_results_def)
  obtain inc exc internal where plan: "projection_plan rq sfs = (inc, exc, internal)" by (cases "projection_plan rq sfs") auto
  obtain resp where resp: "gather_page rep rq sfs ?results = Ok resp"
    and fs: "rs_hits resp = map (hide_internal_projection_fields internal) (take count (drop start W))"
    "rs_has_more resp \<longleftrightarrow> start + count < length W \<or>
       int (length (concat (map (take n) Ls))) < sum_list (map (\<lambda>L. int (length L)) Ls)"
    "rs_failed_clusters resp = map fst (filter (\<lambda>v. snd v = None) views)"
    "rs_found resp = (if dup then int (length W) else sum_list (map (\<lambda>L. int (length L)) Ls))"
    "rs_found_relation resp = (if dup then ''window_lower_bound'' else if length clients = 1 then ''exact'' else ''upper_bound'')"
    unfolding gather_page_def window answers Let_def prod.case hits merged_windows [OF ranked] ids plan len
      W_def [symmetric] dup_def [symmetric]
    using Ls(2) by simp
  show ?thesis
    by (rule that [of resp]) (use run resp fs counts_exceed [of n Ls] plan in auto)
qed

lemma federated_length:
  assumes "\<forall>L \<in> set Ls. ranked_hits rep sfs numeric L"
  shows "length (federated_order rep sfs (map (take n) Ls)) = card (hit_id ` set (concat (map (take n) Ls)))"
    and "length (federated_order rep sfs Ls) = card (hit_id ` set (concat Ls))"
proof -
  have "set (concat Ls) \<subseteq> typed_hits numeric sfs" using assms by (auto simp: ranked_hits_def)
  then show "length (federated_order rep sfs Ls) = card (hit_id ` set (concat Ls))"
    unfolding federated_order_def by (rule hit_order.merge_length)
  show "length (federated_order rep sfs (map (take n) Ls)) = card (hit_id ` set (concat (map (take n) Ls)))"
    unfolding federated_order_def by (rule hit_order.merge_length [OF windows_typed [OF assms]])
qed

lemma federated_length_bounds:
  assumes "\<forall>L \<in> set Ls. ranked_hits rep sfs numeric L"
  shows "length (federated_order rep sfs (map (take n) Ls)) \<le> length (federated_order rep sfs Ls)"
    and "int (length (federated_order rep sfs Ls)) \<le> sum_list (map (\<lambda>L. int (length L)) Ls)"
proof -
  show "length (federated_order rep sfs (map (take n) Ls)) \<le> length (federated_order rep sfs Ls)"
    unfolding federated_length [OF assms] by (intro card_mono image_mono) (auto dest: in_set_takeD)
  have "card (hit_id ` set (concat Ls)) \<le> length (concat Ls)"
    using card_image_le [of "set (concat Ls)" hit_id] card_length [of "concat Ls"] by simp
  also have "int (length (concat Ls)) = sum_list (map (\<lambda>L. int (length L)) Ls)"
    by (induction Ls) auto
  finally show "int (length (federated_order rep sfs Ls)) \<le> sum_list (map (\<lambda>L. int (length L)) Ls)"
    by (simp add: federated_length(2) [OF assms])
qed

section \<open>Examples\<close>

definition sample_hit :: "string \<times> int \<Rightarrow> Hit" where
  "sample_hit x = \<lparr>h_document = [(''id'', JStr (fst x))], h_rest = [(''text_match'', JInt (snd x))]\<rparr>"

definition sample_client :: "Hit list \<Rightarrow> shard_client" where
  "sample_client L = \<lparr>sc_search = (\<lambda>_ params.
     case (jget params ''page'', jget params ''per_page'') of
       (JInt p, JInt n) \<Rightarrow> Ok \<lparr>sr_found = int (length L), sr_hits = take (nat n) (drop ((nat p - 1) * nat n) L)\<rparr>
     | _ \<Rightarrow> Raise ''bad request''), sc_multi_search = None\<rparr>"

definition down_client :: shard_client where
  "down_client = \<lparr>sc_search = (\<lambda>_ _. Raise ''down''), sc_multi_search = None\<rparr>"

definition sample_request :: "nat \<Rightarrow> nat \<Rightarrow> SearchRequest" where
  "sample_request page per_page =
     \<lparr>sq_q = ''*'', sq_query_by = Some ''title'', sq_filter_by = None, sq_sort_by = None, sq_vector_query = None,
      sq_query_by_weights = None, sq_include_fields = None, sq_exclude_fields = None, sq_highlight_fields = None,
      sq_highlight_full_fields = None, sq_highlight_start_tag = None, sq_highlight_end_tag = None,
      sq_remote_embedding_timeout_ms = None, sq_remote_embedding_num_tries = None, sq_limit_hits = None,
      sq_search_cutoff_ms = None, sq_max_candidates = None, sq_exhaustive_search = None,
      sq_page = page, sq_per_page = per_page, sq_offset = None, sq_limit = None\<rparr>"

lemma params_page:
  "jget (shard_params rep ds rq sfs page per_page) ''page'' = JInt (int page)"
  "jget (shard_params rep ds rq sfs page per_page) ''per_page'' = JInt (int per_page)"
  by (simp_all add: shard_params_def build_search_params_def jget_def split: prod.split)

lemma sample_client_serves: "serves (sample_client L) coll (shard_params rep ds rq sfs) L"
  by (simp add: serves_def execute_typesense_search_def sample_client_def params_page)

lemma down_client_down: "is_down down_client coll params"
  by (simp add: is_down_def execute_typesense_search_def down_client_def)

lemma sample_request_ok: "1 \<le> page \<Longrightarrow> 1 \<le> n \<Longrightarrow> n \<le> 250 \<Longrightarrow> search_request_ok (sample_request page n)"
proof -
  have "strip ''title'' = ''title''" by code_simp
  then show "1 \<le> page \<Longrightarrow> 1 \<le> n \<Longrightarrow> n \<le> 250 \<Longrightarrow> search_request_ok (sample_request page n)"
    by (simp add: search_request_ok_def sample_request_def at_least_1_def text_given_def)
qed

lemma sample_sort_fields:
  "parse_sort_fields (forwarded_sort_by rep JNull (sample_request page n)) (has_vector_query (sample_request page n)) =
     Ok [(''_text_match'', ''desc'')]"
proof -
  have "parse_sort_fields (Some ''_text_match:desc'') False = Ok [(''_text_match'', ''desc'')]" by code_simp
  then show ?thesis by (simp add: forwarded_sort_by_def has_vector_query_def sample_request_def text_given_def)
qed

lemma sample_ranked:
  assumes "sorted_wrt (\<lambda>x y. snd y < snd x) xs" and "distinct (map fst xs)" and "[] \<notin> set (map fst xs)"
  shows "ranked_hits rep [(''_text_match'', ''desc'')] (\<lambda>_. True) (map sample_hit xs)"
proof -
  have typed: "sample_hit x \<in> typed_hits (\<lambda>_. True) [(''_text_match'', ''desc'')]" if "fst x \<noteq> []" for x
    using that by (simp add: typed_hits_def sample_hit_def hit_id_def jget_def typed_value_def hit_sort_value_def text_match_names_def)
  have "compare_hits rep [(''_text_match'', ''desc'')] (sample_hit x) (sample_hit y) < 0" if "snd y < snd x" for x y
    using that by (simp add: hit_sort_value_def text_match_names_def sample_hit_def jget_def compare_scalar_def three_way_def)
  then have "sorted_wrt (\<lambda>a b. compare_hits rep [(''_text_match'', ''desc'')] a b < 0) (map sample_hit xs)"
    unfolding sorted_wrt_map by (intro sorted_wrt_mono_rel [OF _ assms(1)])
  moreover have "map hit_id (map sample_hit xs) = map JStr (map fst xs)"
    by (simp add: hit_id_def sample_hit_def jget_def)
  then have "distinct (map hit_id (map sample_hit xs))" using assms(2) by (simp only: distinct_map [of JStr] inj_on_def) simp
  moreover have "set (map sample_hit xs) \<subseteq> typed_hits (\<lambda>_. True) [(''_text_match'', ''desc'')]"
  proof
    fix h
    assume "h \<in> set (map sample_hit xs)"
    then obtain x where x: "x \<in> set xs" "h = sample_hit x" by auto
    with assms(3) have "fst x \<noteq> []" by force
    then show "h \<in> typed_hits (\<lambda>_. True) [(''_text_match'', ''desc'')]" unfolding x(2) by (rule typed)
  qed
  ultimately show ?thesis unfolding ranked_hits_def by blast
qed

section \<open>Properties\<close>

text \<open>
  C2. A page of the federated search is the page of the global order. When every shard either
  fails or serves its result list in the order of the gateway's comparison, the router answers
  with exactly the requested slice of the sorted, deduplicated union of all whole lists of the
  shards that answered (with merge keys hidden that the caller did not ask for), although it
  fetched only one hit more than the window from each shard; it says that more pages follow
  exactly when that union is longer; and it lists the shards that failed.
\<close>

theorem federated_page_correct:
  assumes "search_request_ok rq" and "parse_sort_fields (forwarded_sort_by rep ds rq) (has_vector_query rq) = Ok sfs"
    and "page_window rq = (start, count, needed, page)" and "needed \<le> MAX_DEEP_PAGINATION_DOCS"
    and "list_all2 (shard_view rep coll (shard_params rep ds rq sfs) numeric sfs) clients views"
    and "Ls = List.map_filter snd views" and "Ls \<noteq> []"
  shows "\<exists>resp. perform_federated_search rep ds coll rq clients = Ok resp \<and>
    rs_hits resp = map (hide_internal_projection_fields (snd (snd (projection_plan rq sfs))))
      (take count (drop start (federated_order rep sfs Ls))) \<and>
    (rs_has_more resp \<longleftrightarrow> start + count < length (federated_order rep sfs Ls)) \<and>
    rs_failed_clusters resp = map fst (filter (\<lambda>v. snd v = None) views)"
proof -
  let ?n = "fetch_needed needed"
  have ranked: "\<forall>L \<in> set Ls. ranked_hits rep sfs numeric L" using views_ranked [OF assms(5)] assms(6) by simp
  have sum: "start + count = needed" using page_window_sum [OF assms(1,3)] by simp
  then have "start + count \<le> ?n" using assms(4) by (simp add: fetch_needed_def)
  then have slice: "take count (drop start (federated_order rep sfs (map (take ?n) Ls))) =
      take count (drop start (federated_order rep sfs Ls))"
    by (rule slice_of_window [OF federated_windows [OF ranked]])
  obtain resp where resp: "perform_federated_search rep ds coll rq clients = Ok resp"
    "rs_hits resp = map (hide_internal_projection_fields (snd (snd (projection_plan rq sfs))))
       (take count (drop start (federated_order rep sfs (map (take ?n) Ls))))"
    "rs_has_more resp \<longleftrightarrow> start + count < length (federated_order rep sfs (map (take ?n) Ls)) \<or> (\<exists>L \<in> set Ls. ?n < length L)"
    "rs_failed_clusters resp = map fst (filter (\<lambda>v. snd v = None) views)"
    using federated_search_answer [OF assms(2-7)] by blast
  then show ?thesis using slice more_pages [OF ranked refl assms(4)] sum by auto
qed

theorem federated_page_correct_witness:
  "\<exists>resp. perform_federated_search plain_rep JNull ''books'' (sample_request 1 2)
     [(''east'', sample_client (map sample_hit [(''x'', 9), (''y'', 5)])), (''west'', down_client),
      (''north'', sample_client (map sample_hit [(''z'', 7)]))] = Ok resp \<and>
     rs_hits resp = map sample_hit [(''x'', 9), (''z'', 7)] \<and> rs_has_more resp \<and> rs_failed_clusters resp = [''west'']"
proof -
  let ?sfs = "[(''_text_match'', ''desc'')]" and ?rq = "sample_request 1 2"
  let ?A = "map sample_hit [(''x'', 9), (''y'', 5)]" and ?B = "map sample_hit [(''z'', 7)]"
  let ?views = "[(''east'', Some ?A), (''west'', None), (''north'', Some ?B)]"
  have window: "page_window ?rq = (0, 2, 2, 1)" by (simp add: page_window_def sample_request_def)
  have order: "federated_order plain_rep ?sfs [?A, ?B] = map sample_hit [(''x'', 9), (''z'', 7), (''y'', 5)]"
    by (simp add: federated_order_def merge_ranked_def best_by_key_def keep_best_def sort_with_def sample_hit_def hit_id_def jget_def
        hit_sort_value_def text_match_names_def compare_scalar_def three_way_def)
  have plan: "snd (snd (projection_plan ?rq ?sfs)) = []"
    by (simp add: projection_plan_def projection_fields_def sample_request_def split_top_level_csv_def required_fields_def
        text_match_names_def projection_step_def)
  have "ranked_hits plain_rep ?sfs (\<lambda>_. True) ?A" "ranked_hits plain_rep ?sfs (\<lambda>_. True) ?B" by (rule sample_ranked; simp)+
  then have "list_all2 (shard_view plain_rep ''books'' (shard_params plain_rep JNull ?rq ?sfs) (\<lambda>_. True) ?sfs)
      [(''east'', sample_client ?A), (''west'', down_client), (''north'', sample_client ?B)] ?views"
    using sample_client_serves down_client_down by (simp add: shard_view_def)
  from federated_page_correct [OF sample_request_ok sample_sort_fields window _ this refl]
  show ?thesis by (simp add: List.map_filter_simps order [simplified] plan [simplified] MAX_DEEP_PAGINATION_DOCS_def hide_internal_projection_fields_def)
qed



text \<open>
  C39. The loop over the pages of a shard ends whatever the shard answers: no window asks for a
  page after the fortieth (two shards that agree on those give the same window), and it never
  holds more hits than were asked for.
\<close>

theorem search_window_bounded:
  assumes "needed \<le> MAX_DEEP_PAGINATION_DOCS"
    and "\<forall>page. 1 \<le> page \<longrightarrow> page \<le> 40 \<longrightarrow>
      execute_typesense_search client' coll (params page (min needed TYPESENSE_MAX_PER_PAGE)) =
      execute_typesense_search client coll (params page (min needed TYPESENSE_MAX_PER_PAGE))"
  shows "execute_typesense_search_window client' coll params needed = execute_typesense_search_window client coll params needed \<and>
    (case execute_typesense_search_window client coll params needed of Inl _ \<Rightarrow> True | Inr (found, hits) \<Rightarrow> length hits \<le> needed)"
proof
  let ?n = "min needed TYPESENSE_MAX_PER_PAGE"
  have few: "p \<le> 40" if "1 \<le> p" "(p - 1) * ?n < needed" for p
  proof (cases "needed \<le> 250")
    case True
    with that show ?thesis by (cases "p - 1") (auto simp: TYPESENSE_MAX_PER_PAGE_def)
  next
    case False
    with that(2) have "(p - 1) * 250 < needed" by (simp add: TYPESENSE_MAX_PER_PAGE_def)
    with assms(1) show ?thesis by (simp add: MAX_DEEP_PAGINATION_DOCS_def)
  qed
  show "execute_typesense_search_window client' coll params needed = execute_typesense_search_window client coll params needed"
    unfolding execute_typesense_search_window_def Let_def
    by (rule search_window_cong) (use few assms(2) in auto)
  show "case execute_typesense_search_window client coll params needed of Inl _ \<Rightarrow> True | Inr (found, hits) \<Rightarrow> length hits \<le> needed"
    unfolding execute_typesense_search_window_def Let_def
    by (auto split: sum.split dest: search_window_short)
qed

text \<open>A shard that claims more and more hits and repeats itself for ever.\<close>

definition endless_client :: "nat \<Rightarrow> shard_client" where
  "endless_client m = \<lparr>sc_search = (\<lambda>_ params. case jget params ''page'' of
     JInt p \<Rightarrow> if p \<le> int m then Ok \<lparr>sr_found = 1000000, sr_hits = replicate 250 (sample_hit (''x'', 1))\<rparr> else Raise ''gone''
   | _ \<Rightarrow> Raise ''bad request''), sc_multi_search = None\<rparr>"

theorem search_window_bounded_witness:
  "execute_typesense_search_window (endless_client 40) ''books'' (shard_params plain_rep JNull (sample_request 1 2) []) 10000 =
   execute_typesense_search_window (endless_client 50) ''books'' (shard_params plain_rep JNull (sample_request 1 2) []) 10000"
proof -
  have "execute_typesense_search (endless_client 40) coll (shard_params plain_rep JNull (sample_request 1 2) [] page n) =
      execute_typesense_search (endless_client 50) coll (shard_params plain_rep JNull (sample_request 1 2) [] page n)"
    if "page \<le> 40" for coll page n
    using that by (simp add: execute_typesense_search_def endless_client_def params_page)
  then show ?thesis
    by (intro search_window_bounded [THEN conjunct1]) (simp_all add: MAX_DEEP_PAGINATION_DOCS_def)
qed

lemma required_fields_contains: "(f, d) \<in> set sfs \<Longrightarrow> f \<notin> set (text_match_names @ vector_distance_names) \<Longrightarrow> f \<in> set (required_fields sfs)"
proof -
  let ?step = "\<lambda>rs f. if fst f \<in> set (text_match_names @ vector_distance_names) then rs
                   else if fst f \<in> set rs then rs else rs @ [fst f]"
  have mono: "set rs \<subseteq> set (foldl ?step rs xs)" for rs and xs :: "sort_field list"
  proof (induction xs arbitrary: rs)
    case (Cons x xs)
    have "set rs \<subseteq> set (?step rs x)" by auto
    also have "\<dots> \<subseteq> set (foldl ?step (?step rs x) xs)" by (rule Cons.IH)
    finally show ?case by (simp only: foldl_Cons)
  qed simp
  have "(f, d) \<in> set xs \<Longrightarrow> f \<notin> set (text_match_names @ vector_distance_names) \<Longrightarrow> f \<in> set (foldl ?step rs xs)" for rs xs
  proof (induction xs arbitrary: rs)
    case (Cons x xs)
    show ?case
    proof (cases "x = (f, d)")
      case True
      with Cons.prems(2) have "f \<in> set (?step rs x)" by simp
      then show ?thesis using mono [of "?step rs x" xs] by auto
    next
      case False
      with Cons show ?thesis by auto
    qed
  qed simp
  then show "(f, d) \<in> set sfs \<Longrightarrow> f \<notin> set (text_match_names @ vector_distance_names) \<Longrightarrow> f \<in> set (required_fields sfs)"
    unfolding required_fields_def .
qed

lemma required_fields_distinct: "distinct (required_fields sfs)" and required_fields_id: "''id'' \<in> set (required_fields sfs)"
proof -
  have "distinct rs \<Longrightarrow> ''id'' \<in> set rs \<Longrightarrow> distinct (foldl (\<lambda>rs f. if fst f \<in> set (text_match_names @ vector_distance_names) then rs
      else if fst f \<in> set rs then rs else rs @ [fst f]) rs xs) \<and>
    ''id'' \<in> set (foldl (\<lambda>rs f. if fst f \<in> set (text_match_names @ vector_distance_names) then rs
      else if fst f \<in> set rs then rs else rs @ [fst f]) rs xs)" for rs and xs :: "sort_field list"
    by (induction xs arbitrary: rs) auto
  from this [of "[''id'']" sfs] show "distinct (required_fields sfs)" "''id'' \<in> set (required_fields sfs)"
    by (simp_all add: required_fields_def)
qed

lemma projection_fold:
  assumes "foldl (projection_step all exc) (inc, int0) fs = (inc', internal)" and "distinct fs"
  shows "(inc = [] \<longrightarrow> inc' = []) \<and> (inc \<noteq> [] \<longrightarrow> set inc' = set inc \<union> set fs) \<and>
    set internal = set int0 \<union> {f \<in> set fs. \<not> all \<and> f \<notin> set inc \<or> f \<in> set exc}"
  using assms
proof (induction fs arbitrary: inc int0)
  case (Cons f fs)
  obtain inc1 int1 where step: "projection_step all exc (inc, int0) f = (inc1, int1)" by fastforce
  from Cons.IH [of inc1 int1] Cons.prems step
  have IH: "(inc1 = [] \<longrightarrow> inc' = []) \<and> (inc1 \<noteq> [] \<longrightarrow> set inc' = set inc1 \<union> set fs) \<and>
    set internal = set int1 \<union> {g \<in> set fs. \<not> all \<and> g \<notin> set inc1 \<or> g \<in> set exc}" by simp
  have one: "inc1 = (if inc \<noteq> [] \<and> f \<notin> set inc then inc @ [f] else inc)"
    "int1 = (if (\<not> all \<and> f \<notin> set inc) \<or> f \<in> set exc then int0 @ [f] else int0)"
    using step by (simp_all add: projection_step_def)
  have "{g \<in> set fs. \<not> all \<and> g \<notin> set inc1 \<or> g \<in> set exc} = {g \<in> set fs. \<not> all \<and> g \<notin> set inc \<or> g \<in> set exc}"
    using Cons.prems(2) by (auto simp: one)
  with IH show ?case by (auto simp: one split: if_splits)
qed simp

text \<open>
  The projection sent to the shards never loses a merge key and never shows one more field:
  the id and every document field of the sort are among the forwarded fields (or all fields are)
  and are not excluded, and the fields removed again from the answer are exactly the merge keys
  that the caller's own include and exclude lists leave out.
\<close>

theorem projection_keeps_merge_keys:
  assumes "projection_fields rq sfs = (inc, exc, internal)"
    and "f = ''id'' \<or> (\<exists>d. (f, d) \<in> set sfs) \<and> f \<notin> set (text_match_names @ vector_distance_names)"
  shows "(inc = [] \<or> f \<in> set inc) \<and> f \<notin> set exc \<and>
    (f \<in> set internal \<longleftrightarrow>
      (let wanted = split_top_level_csv (sq_include_fields rq) in wanted \<noteq> [] \<and> ''*'' \<notin> set wanted \<and> f \<notin> set wanted) \<or>
      f \<in> set (split_top_level_csv (sq_exclude_fields rq)))"
proof -
  have f: "f \<in> set (required_fields sfs)" using assms(2) required_fields_contains required_fields_id by auto
  let ?inc0 = "split_top_level_csv (sq_include_fields rq)" and ?exc0 = "split_top_level_csv (sq_exclude_fields rq)"
  let ?all = "?inc0 = [] \<or> ''*'' \<in> set ?inc0"
  have fold: "foldl (projection_step ?all ?exc0) (?inc0, []) (required_fields sfs) = (inc, internal)"
    and exc: "exc = filter (\<lambda>f. f \<notin> set (required_fields sfs)) ?exc0"
    using assms(1) by (auto simp: projection_fields_def Let_def split: prod.splits)
  from projection_fold [OF fold required_fields_distinct] f exc show ?thesis by (auto simp: Let_def)
qed

theorem projection_keeps_merge_keys_witness:
  "let (inc, exc, internal) = projection_fields (sample_request 1 2\<lparr>sq_include_fields := Some ''title''\<rparr>) [(''year'', ''asc'')] in
     ''year'' \<in> set inc \<and> ''year'' \<notin> set exc \<and> ''year'' \<in> set internal"
proof -
  let ?rq = "sample_request 1 2\<lparr>sq_include_fields := Some ''title''\<rparr>"
  have plan: "projection_fields ?rq [(''year'', ''asc'')] = ([''title'', ''id'', ''year''], [], [''id'', ''year''])"
    by code_simp
  from projection_keeps_merge_keys [OF plan, of "''year''"] plan show ?thesis
    by (simp add: text_match_names_def vector_distance_names_def)
qed

section \<open>Where the code falls short\<close>

text \<open>
  Typesense breaks ties by insertion, the gateway by id. With three hits of one score, pages of
  size 1 show \<open>b\<close> twice and \<open>a\<close> never: the window of a page ends in the middle of the tie.
\<close>

definition tied_shard :: "Hit list" where
  "tied_shard = map sample_hit [(''c'', 1), (''b'', 1), (''a'', 1)]"

definition ids_of_page :: "nat \<Rightarrow> http_error + json list" where
  "ids_of_page page = ebind (perform_federated_search plain_rep JNull ''books'' (sample_request page 1) [(''east'', sample_client tied_shard)])
     (\<lambda>resp. Ok (map hit_id (rs_hits resp)))"

lemma ids_of_tied_page:
  assumes "1 \<le> page" and "page \<le> 9"
  shows "ids_of_page page =
    Ok (map hit_id (take 1 (drop (page - 1) (merged_hits plain_rep [(''_text_match'', ''desc'')] (take (page + 1) tied_shard)))))"
proof -
  let ?sfs = "[(''_text_match'', ''desc'')]" and ?rq = "sample_request page 1"
  have window: "page_window ?rq = (page - 1, 1, page, page)"
    by (simp add: page_window_def sample_request_def)
  have n: "fetch_needed page = page + 1" using assms by (simp add: fetch_needed_def MAX_DEEP_PAGINATION_DOCS_def)
  have fetched: "execute_typesense_search_window (sample_client tied_shard) ''books'' (shard_params plain_rep JNull ?rq ?sfs) (page + 1) =
      Ok (int (length tied_shard), take (page + 1) tied_shard)"
    by (rule window_serves [OF sample_client_serves]) simp
  have plan: "projection_plan ?rq ?sfs = (None, None, [])"
    by (simp add: projection_plan_def projection_fields_def sample_request_def split_top_level_csv_def required_fields_def
        text_match_names_def projection_step_def joined_def)
  have run: "perform_federated_search plain_rep JNull ''books'' ?rq [(''east'', sample_client tied_shard)] =
      gather_page plain_rep ?rq ?sfs [(''east'', Ok (int (length tied_shard), take (page + 1) tied_shard))]"
    unfolding perform_federated_search_def sample_sort_fields sum.case window prod.case Let_def n list.map fetched
    using assms(2) by (simp add: MAX_DEEP_PAGINATION_DOCS_def)
  show ?thesis
    unfolding ids_of_page_def run gather_page_def window prod.case Let_def plan
    by (simp add: List.map_filter_simps hide_internal_projection_fields_def)
qed

lemma tied_hits_skipped:
  "map ids_of_page [1, 2, 3] = [Ok [JStr ''b''], Ok [JStr ''b''], Ok [JStr ''c'']]"
proof -
  have cmp: "compare_hits plain_rep [(''_text_match'', ''desc'')] (sample_hit (x, 1)) (sample_hit (y, 1)) = three_way (<) x y" for x y
    by (simp add: hit_sort_value_def text_match_names_def sample_hit_def jget_def compare_scalar_def three_way_def id_text_def get_or_def)
  have id: "hit_id (sample_hit (x, n)) = JStr x" for x n by (simp add: hit_id_def sample_hit_def jget_def)
  note go = merged_hits_def best_by_key_def keep_best_def sort_with_def tied_shard_def id cmp three_way_def
  show ?thesis by (simp add: ids_of_tied_page) (simp add: go del: compare_hits.simps)
qed

text \<open>
  The look-ahead hit breaks \<open>limit_hits\<close>: Typesense refuses a request whose page times page size
  exceeds it. A caller whose limit is exactly the window passes the validator, and every shard
  is then asked for one hit more than the limit.
\<close>

lemma lookahead_exceeds_limit_hits:
  assumes "sq_limit_hits rq = Some (requested_window rq)" and "requested_window rq < TYPESENSE_MAX_PER_PAGE"
    and "page_window rq = (start, count, needed, page)" and "params = shard_params rep ds rq sfs 1 (min (fetch_needed needed) TYPESENSE_MAX_PER_PAGE)"
  shows "jget params ''page'' = JInt 1" "jget params ''per_page'' = JInt (int (requested_window rq) + 1)"
    and "jget params ''limit_hits'' = JInt (int (requested_window rq))"
proof -
  have "needed = requested_window rq"
    using assms(3) by (auto simp: page_window_def requested_window_def split: option.splits)
  then show "jget params ''page'' = JInt 1" "jget params ''per_page'' = JInt (int (requested_window rq) + 1)"
    using assms by (simp_all add: params_page fetch_needed_def MAX_DEEP_PAGINATION_DOCS_def TYPESENSE_MAX_PER_PAGE_def)
  have "jget (filter (\<lambda>(_, v). v \<noteq> JNull \<and> v \<noteq> JStr []) (optional_params rq)) ''limit_hits'' = JInt (int (requested_window rq))"
  proof -
    have "(''limit_hits'', JInt (int (requested_window rq))) \<in> set (optional_params rq)"
      using assms(1) by (simp add: optional_params_def int_param_def)
    moreover have "distinct (dkeys (optional_params rq))" by (simp add: optional_params_def)
    ultimately have "dget (filter (\<lambda>(_, v). v \<noteq> JNull \<and> v \<noteq> JStr []) (optional_params rq)) ''limit_hits'' =
        Some (JInt (int (requested_window rq)))"
      by (intro map_of_is_SomeI distinct_map_filter) simp_all
    then show ?thesis by (simp add: jget_def)
  qed
  then show "jget params ''limit_hits'' = JInt (int (requested_window rq))"
    unfolding assms(4)
    by (simp add: shard_params_def build_search_params_def jget_def map_add_Some_iff split: prod.split option.splits)
qed

end
