(* ===== verification/IngestRouter.thy ===== *)
theory IngestRouter
  imports Federation Tenancy PostgresOutbox
begin

text \<open>
  The write side and the document reads of \<open>query_api/app/routers/search.py\<close>: ordering metadata
  of a mutation, single and batch ingestion, deletion, and the retrieval of a document. The
  producer is an argument, a step of its state \<open>'s\<close>; \<open>durable_publish\<close> is the producer with the
  durable store. Errors carry where they were raised, since each endpoint maps them on its own.
\<close>

section \<open>Requests\<close>

definition DOCUMENT_ID_PATTERN :: "string \<Rightarrow> bool" where
  "DOCUMENT_ID_PATTERN s = matches (\<lambda>c. is_alnum c \<or> c = CHR ''_'' \<or> c = CHR ''.'' \<or> c = CHR ''-'') 1 256 s"

record IngestEventMetadata =
  im_document_version :: int
  im_sequence :: "int option"
  im_idempotency_key :: string

text \<open>The three metadata headers, as sent.\<close>

record event_headers =
  eh_version :: "string option"
  eh_sequence :: "string option"
  eh_key :: "string option"

record router_env =
  re_rep :: "json \<Rightarrow> string"
  re_float :: "json \<Rightarrow> pyfloat option"
  re_int :: "string \<Rightarrow> int option"
  re_fromisoformat :: "string \<Rightarrow> time option"
  re_settings :: authz_settings
  re_caller :: auth_request
  re_runtime :: FederationRuntime
  re_durable :: bool
  re_now_ns :: int
  re_uuid :: string
  re_trace :: document

record mutation =
  mu_draft :: IndexingEventDraft
  mu_version :: int
  mu_sequence :: int

datatype ingest_failure = HttpFailure http_error | RouteFailure payload_error | PublishFailure event_error

definition http :: "http_error + 'a \<Rightarrow> ingest_failure + 'a" where
  "http r = (case r of Inl e \<Rightarrow> Raise (HttpFailure e) | Inr x \<Rightarrow> Ok x)"

definition route :: "payload_error + 'a \<Rightarrow> ingest_failure + 'a" where
  "route r = (case r of Inl e \<Rightarrow> Raise (RouteFailure e) | Inr x \<Rightarrow> Ok x)"

section \<open>Ordering metadata\<close>

text \<open>\<open>int(raw_value)\<close>; Booleans and other values do not occur here.\<close>

definition python_int :: "(string \<Rightarrow> int option) \<Rightarrow> json \<Rightarrow> int option" where
  "python_int of_text v = (case v of JInt n \<Rightarrow> Some n | JStr s \<Rightarrow> of_text s | _ \<Rightarrow> None)"

definition positive_event_integer :: "(string \<Rightarrow> int option) \<Rightarrow> json \<Rightarrow> http_error + int" where
  "positive_event_integer of_text raw =
     (case python_int of_text raw of
        None \<Rightarrow> Raise (Http 400 ''must be a positive integer'')
      | Some v \<Rightarrow> if v < 1 \<or> 2 ^ 63 - 1 < v then Raise (Http 400 ''must be an integer between 1 and INT64_MAX'') else Ok v)"

definition header_value :: "string option \<Rightarrow> json" where
  "header_value h = (case h of None \<Rightarrow> JNull | Some s \<Rightarrow> JStr s)"

definition indexing_event_metadata ::
  "router_env \<Rightarrow> event_headers \<Rightarrow> IngestEventMetadata option \<Rightarrow> http_error + int \<times> int \<times> string" where
  "indexing_event_metadata env headers supplied =
     (let raw_version = (case supplied of Some m \<Rightarrow> JInt (im_document_version m) | None \<Rightarrow> header_value (eh_version headers));
          raw_sequence = (case supplied of
             Some m \<Rightarrow> (case im_sequence m of Some n \<Rightarrow> JInt n | None \<Rightarrow> JNull) | None \<Rightarrow> header_value (eh_sequence headers));
          key = (case supplied of Some m \<Rightarrow> im_idempotency_key m
                 | None \<Rightarrow> strip (case eh_key headers of Some k \<Rightarrow> k | None \<Rightarrow> []));
          enterprise = (st_deployment_profile (re_settings env) = ''enterprise'');
          no_version = raw_version \<in> {JNull, JStr []} in
      if no_version \<and> enterprise \<and> \<not> re_durable env then Raise (Http 428 ''document_version_required'')
      else
        ebind (positive_event_integer (re_int env)
                 (if no_version then JInt (if re_durable env then 1 else re_now_ns env) else raw_version)) (\<lambda>version.
        ebind (positive_event_integer (re_int env)
                 (if raw_sequence \<in> {JNull, JStr []} then JInt version else raw_sequence)) (\<lambda>sequence.
          if key = [] \<and> enterprise then Raise (Http 428 ''idempotency_key_required'')
          else
            let key = (if key = [] then re_uuid env else key) in
            if length key < 8 \<or> 256 < length key \<or> (\<exists>c \<in> set key. (of_char c :: nat) < 32)
            then Raise (Http 400 ''Idempotency-Key must contain 8-256 printable characters'')
            else Ok (version, sequence, key))))"

section \<open>Publishing\<close>

type_synonym 's publisher = "mutation \<Rightarrow> 's \<Rightarrow> 's \<times> (event_error + string)"

definition published :: "'s \<times> (event_error + string) \<Rightarrow> 'b \<Rightarrow> 's \<times> (ingest_failure + 'b)" where
  "published r x = (fst r, case snd r of Inl e \<Rightarrow> Raise (PublishFailure e) | Inr _ \<Rightarrow> Ok x)"

definition ingest_draft ::
  "router_env \<Rightarrow> string \<Rightarrow> string \<Rightarrow> document \<Rightarrow> string \<Rightarrow> string list \<Rightarrow> int \<Rightarrow> string option \<Rightarrow> string \<Rightarrow> IndexingEventDraft" where
  "ingest_draft env coll doc_id document tenant targets revision rollout key =
     \<lparr>dr_tenant_id = tenant, dr_collection = coll, dr_document_id = doc_id, dr_operation = ''upsert'',
      dr_target_clusters = targets, dr_routing_revision = max 1 revision, dr_idempotency_key = key,
      dr_rollout_id = rollout, dr_trace = re_trace env, dr_document = Some document, dr_delete_filter = None\<rparr>"

text \<open>Everything before the producer is called: the checks, the route and the mutation.\<close>

definition document_id_of :: "document \<Rightarrow> ingest_failure + string" where
  "document_id_of document =
     (case jget document ''id'' of
        JStr i \<Rightarrow> if DOCUMENT_ID_PATTERN i then Ok i else Raise (HttpFailure (Http 400 ''Document id''))
      | _ \<Rightarrow> Raise (HttpFailure (Http 400 ''Document id'')))"

definition prepare_ingest ::
  "router_env \<Rightarrow> event_headers \<Rightarrow> IngestEventMetadata option \<Rightarrow> string \<Rightarrow> document
   \<Rightarrow> ingest_failure + mutation \<times> string \<times> string list" where
  "prepare_ingest env headers supplied coll document =
     ebind (document_id_of document) (\<lambda>doc_id.
     ebind (http (authorize_ingest_document (re_rep env) (re_settings env) (re_caller env) coll document)) (\<lambda>document.
     ebind (route (get_indexing_route (re_fromisoformat env) (re_rep env) (re_float env) (re_runtime env) coll document))
       (\<lambda>(targets, revision, rollout).
       if targets = [] then Raise (HttpFailure (Http 503 ''No target cluster available for document''))
       else
         ebind (http (indexing_event_metadata env headers supplied)) (\<lambda>(version, sequence, key).
         ebind (http (event_tenant_identity (re_rep env) (re_settings env) (re_caller env) coll (Some document))) (\<lambda>tenant.
           Ok (\<lparr>mu_draft = ingest_draft env coll (py_str (re_rep env) (get_or document ''id'' (JStr []))) document tenant
                  targets revision rollout key, mu_version = version, mu_sequence = sequence\<rparr>, doc_id, targets))))))"

definition publish_ingest_document ::
  "'s publisher \<Rightarrow> router_env \<Rightarrow> event_headers \<Rightarrow> IngestEventMetadata option \<Rightarrow> string \<Rightarrow> document \<Rightarrow> 's
   \<Rightarrow> 's \<times> (ingest_failure + string \<times> string)" where
  "publish_ingest_document publish env headers supplied coll document s =
     (case prepare_ingest env headers supplied coll document of
        Inl e \<Rightarrow> (s, Raise e)
      | Inr (call, doc_id, targets) \<Rightarrow> published (publish call s) (doc_id, join_with '','' targets))"

text \<open>An \<open>HTTPException\<close> passes, a key conflict is 409, everything else 500.\<close>

definition ingest_error :: "ingest_failure \<Rightarrow> http_error" where
  "ingest_error e =
     (case e of
        HttpFailure (Http code detail) \<Rightarrow> Http code detail
      | PublishFailure IdempotencyConflict \<Rightarrow> Http 409 ''idempotency_key_conflict''
      | _ \<Rightarrow> Http 500 ''Kafka producer error'')"

definition ingest_document ::
  "'s publisher \<Rightarrow> router_env \<Rightarrow> event_headers \<Rightarrow> string \<Rightarrow> document \<Rightarrow> 's \<Rightarrow> 's \<times> (http_error + string \<times> string)" where
  "ingest_document publish env headers coll document s =
     (case publish_ingest_document publish env headers None coll document s of
        (s', Inl e) \<Rightarrow> (s', Raise (ingest_error e))
      | (s', Inr r) \<Rightarrow> (s', Ok r))"

section \<open>Batches\<close>

record BatchItem =
  bi_index :: nat
  bi_document_id :: "string option"
  bi_routed_to :: "string option"    \<comment> \<open>present exactly when the status is \<open>ok\<close>\<close>
  bi_error :: "ingest_failure option"

record BatchIngestResponse =
  br_status :: string
  br_requested :: nat
  br_accepted :: nat
  br_rejected :: nat
  br_items :: "BatchItem list"

definition batch_item :: "router_env \<Rightarrow> nat \<Rightarrow> document \<Rightarrow> ingest_failure + string \<times> string \<Rightarrow> BatchItem" where
  "batch_item env index document r =
     (case r of
        Inr (doc_id, clusters) \<Rightarrow> \<lparr>bi_index = index, bi_document_id = Some doc_id, bi_routed_to = Some clusters, bi_error = None\<rparr>
      | Inl e \<Rightarrow> \<lparr>bi_index = index,
          bi_document_id = (if jget document ''id'' = JNull then None else Some (py_str (re_rep env) (jget document ''id''))),
          bi_routed_to = None, bi_error = Some e\<rparr>)"

fun ingest_items ::
  "'s publisher \<Rightarrow> (nat \<Rightarrow> router_env) \<Rightarrow> event_headers \<Rightarrow> (string, IngestEventMetadata) pydict \<Rightarrow> string \<Rightarrow> nat \<Rightarrow> document list \<Rightarrow> 's
   \<Rightarrow> 's \<times> BatchItem list" where
  "ingest_items publish env headers metadata coll index [] s = (s, [])"
| "ingest_items publish env headers metadata coll index (document # documents) s =
     (let (s', r) = publish_ingest_document publish (env index) headers
            (dget metadata (py_str (re_rep (env index)) (jget document ''id''))) coll document s;
          (s'', items) = ingest_items publish env headers metadata coll (index + 1) documents s' in
      (s'', batch_item (env index) index document r # items))"

text \<open>\<open>env\<close> gives every document its own clock and identifier; \<open>limit\<close> is the configured maximum.\<close>

definition ingest_documents_batch ::
  "'s publisher \<Rightarrow> (nat \<Rightarrow> router_env) \<Rightarrow> nat \<Rightarrow> event_headers \<Rightarrow> (string, IngestEventMetadata) pydict \<Rightarrow> string \<Rightarrow> document list \<Rightarrow> 's
   \<Rightarrow> 's \<times> (http_error + BatchIngestResponse)" where
  "ingest_documents_batch publish env limit headers metadata coll documents s =
     (if limit < length documents then (s, Raise (Http 413 ''Batch too large''))
      else
        let (s', items) = ingest_items publish env headers metadata coll 0 documents s;
            accepted = length (filter (\<lambda>i. bi_error i = None) items);
            rejected = length documents - accepted in
        (s', Ok \<lparr>br_status = (if rejected = 0 then ''ok'' else if accepted = 0 then ''rejected'' else ''partial''),
                 br_requested = length documents, br_accepted = accepted, br_rejected = rejected, br_items = items\<rparr>))"

section \<open>Deletion\<close>

definition delete_draft ::
  "router_env \<Rightarrow> string \<Rightarrow> string \<Rightarrow> string \<Rightarrow> string list \<Rightarrow> int \<Rightarrow> string option \<Rightarrow> string \<Rightarrow> string option \<Rightarrow> IndexingEventDraft" where
  "delete_draft env coll doc_id tenant targets revision rollout key filter_by =
     \<lparr>dr_tenant_id = tenant, dr_collection = coll, dr_document_id = doc_id, dr_operation = ''delete'',
      dr_target_clusters = targets, dr_routing_revision = max 1 revision, dr_idempotency_key = key,
      dr_rollout_id = rollout, dr_trace = re_trace env, dr_document = None, dr_delete_filter = filter_by\<rparr>"

text \<open>What runs before the \<open>try\<close> of the endpoint.\<close>

definition prepare_delete ::
  "router_env \<Rightarrow> event_headers \<Rightarrow> string \<Rightarrow> string
   \<Rightarrow> ingest_failure + (string list \<times> int \<times> string option) \<times> string option \<times> int \<times> int \<times> string" where
  "prepare_delete env headers coll doc_id =
     ebind (route (get_delete_route (re_fromisoformat env) (re_runtime env) coll)) (\<lambda>(targets, revision, rollout).
       if targets = [] then Raise (HttpFailure (Http 503 ''No target cluster available for document deletion''))
       else
         ebind (http (authorize_delete_filter (re_rep env) (re_settings env) (re_caller env) coll doc_id)) (\<lambda>filter_by.
         ebind (http (indexing_event_metadata env headers None)) (\<lambda>metadata.
           Ok ((targets, revision, rollout), filter_by, metadata))))"

text \<open>
  The \<open>try\<close> covers the tenant identity as well, and its handler maps every exception but a key
  conflict to 500. Before it, an \<open>HTTPException\<close> passes and the server answers 500 to the rest.
\<close>

definition delete_document ::
  "'s publisher \<Rightarrow> router_env \<Rightarrow> event_headers \<Rightarrow> string \<Rightarrow> string \<Rightarrow> 's \<Rightarrow> 's \<times> (http_error + string \<times> string)" where
  "delete_document publish env headers coll doc_id s =
     (case prepare_delete env headers coll doc_id of
        Inl (HttpFailure e) \<Rightarrow> (s, Raise e)
      | Inl _ \<Rightarrow> (s, Raise (Unhandled ''delete''))
      | Inr ((targets, revision, rollout), filter_by, version, sequence, key) \<Rightarrow>
          (case event_tenant_identity (re_rep env) (re_settings env) (re_caller env) coll None of
             Inl _ \<Rightarrow> (s, Raise (Http 500 ''Kafka producer error''))
           | Inr tenant \<Rightarrow>
               (case publish \<lparr>mu_draft = delete_draft env coll doc_id tenant targets revision rollout key filter_by,
                              mu_version = version, mu_sequence = sequence\<rparr> s of
                  (s', Inl IdempotencyConflict) \<Rightarrow> (s', Raise (Http 409 ''idempotency_key_conflict''))
                | (s', Inl _) \<Rightarrow> (s', Raise (Http 500 ''Kafka producer error''))
                | (s', Inr _) \<Rightarrow> (s', Ok (doc_id, join_with '','' targets)))))"

section \<open>Retrieval\<close>

datatype read_outcome = Retrieved document | ObjectNotFound | ReadError

text \<open>The loop over the clusters; the last argument is \<open>failed_clusters\<close>.\<close>

fun find_document ::
  "(document \<Rightarrow> http_error + bool) \<Rightarrow> (string \<Rightarrow> read_outcome) \<Rightarrow> string list \<Rightarrow> string list
   \<Rightarrow> http_error + string \<times> document" where
  "find_document can_read retrieve [] failed =
     (if failed \<noteq> [] then Raise (Http 503 (''Document lookup failed on cluster(s): '' @ join_with '', '' failed))
      else Raise (Http 404 ''Document not found.''))"
| "find_document can_read retrieve (name # names) failed =
     (case retrieve name of
        ObjectNotFound \<Rightarrow> find_document can_read retrieve names failed
      | ReadError \<Rightarrow> find_document can_read retrieve names (failed @ [name])
      | Retrieved document \<Rightarrow>
          ebind (can_read document) (\<lambda>ok.
            if ok then Ok (name, document) else find_document can_read retrieve names failed))"

definition get_document ::
  "router_env \<Rightarrow> (string \<Rightarrow> read_outcome) \<Rightarrow> string \<Rightarrow> http_error + string \<times> document" where
  "get_document env retrieve coll =
     (case cluster_names_for_search (re_fromisoformat env) (re_rep env) (re_runtime env) coll of
        Inl _ \<Rightarrow> Raise (Unhandled ''route'')
      | Inr names \<Rightarrow>
          if names = [] then Raise (Http 404 ''Collection not found on any registered cluster.'')
          else find_document (can_read_document (re_rep env) (re_settings env) (re_caller env) coll) retrieve names [])"

section \<open>The durable producer\<close>

definition durable_publish ::
  "platform \<Rightarrow> string \<Rightarrow> document \<Rightarrow> send_outcome \<Rightarrow> event_env \<Rightarrow> (EvDb \<times> kafka_log) publisher" where
  "durable_publish pl topics propagated outcome ev call s =
     (case publish_mutation (db_prepare pl) db_mark_published db_record_failure topics propagated outcome ev (fst s) (snd s) (mu_draft call) of
        (db, klog, r) \<Rightarrow> ((db, klog), r))"

section \<open>Facts about the operations\<close>

lemma http_Ok [simp]: "http r = Ok x \<longleftrightarrow> r = Ok x"
  by (cases r) (auto simp: http_def)

lemma route_Ok [simp]: "route r = Ok x \<longleftrightarrow> r = Ok x"
  by (cases r) (auto simp: route_def)

lemma prepare_ingest_OkD:
  assumes "prepare_ingest env headers supplied coll document = Ok (call, doc_id, targets)"
  obtains document' revision rollout tenant where
    "jget document ''id'' = JStr doc_id" and "DOCUMENT_ID_PATTERN doc_id"
    and "authorize_ingest_document (re_rep env) (re_settings env) (re_caller env) coll document = Ok document'"
    and "get_indexing_route (re_fromisoformat env) (re_rep env) (re_float env) (re_runtime env) coll document' = Ok (targets, revision, rollout)"
    and "targets \<noteq> []"
    and "event_tenant_identity (re_rep env) (re_settings env) (re_caller env) coll (Some document') = Ok tenant"
    and "dr_tenant_id (mu_draft call) = tenant" "dr_collection (mu_draft call) = coll" "dr_operation (mu_draft call) = ''upsert''"
    and "dr_document (mu_draft call) = Some document'" "dr_target_clusters (mu_draft call) = targets"
proof -
  from assms obtain i where i: "document_id_of document = Ok i"
    by (auto simp: prepare_ingest_def ebind_eq_Ok)
  then have id: "jget document ''id'' = JStr i" "DOCUMENT_ID_PATTERN i"
    by (auto simp: document_id_of_def split: json.splits if_splits)
  from assms i obtain document' r where
    auth: "authorize_ingest_document (re_rep env) (re_settings env) (re_caller env) coll document = Ok document'"
    and r: "get_indexing_route (re_fromisoformat env) (re_rep env) (re_float env) (re_runtime env) coll document' = Ok r"
    by (auto simp: prepare_ingest_def ebind_eq_Ok)
  obtain ts revision rollout where rr: "r = (ts, revision, rollout)" by (cases r)
  note run = assms [unfolded prepare_ingest_def i ebind_Ok http_def auth sum.case route_def r rr prod.case]
  have ts: "ts \<noteq> []" using run by auto
  note run = run [unfolded if_not_P [OF ts] http_def [symmetric]]
  from run obtain m tenant where m: "indexing_event_metadata env headers supplied = Ok m"
    and tenant: "event_tenant_identity (re_rep env) (re_settings env) (re_caller env) coll (Some document') = Ok tenant"
    by (auto simp: ebind_eq_Ok)
  from run m tenant have "call = \<lparr>mu_draft = ingest_draft env coll (py_str (re_rep env) (get_or document' ''id'' (JStr []))) document'
      tenant ts revision rollout (snd (snd m)), mu_version = fst m, mu_sequence = fst (snd m)\<rparr>" "doc_id = i" "targets = ts"
    by (auto simp: http_def split: prod.splits)
  with id auth r rr ts tenant show ?thesis by (intro that) (simp_all add: ingest_draft_def)
qed

text \<open>A published mutation stays in the outbox, under its key and with its digest.\<close>

lemma prepared_known:
  assumes "outbox_inv pl db" and "db_prepare pl db ev d = (db', Ok e)"
  shows "outbox_inv pl db' \<and> (\<exists>g. request_digest pl d = Some g \<and> dget (db_event_rows db') (draft_key_hash pl d) = Some (g, e))"
proof (cases "dget (db_event_rows db) (draft_key_hash pl d)")
  case None
  from db_prepare_new [OF assms(1) None assms(2)] obtain g where
    "request_digest pl d = Some g" "db_event_rows db' = db_event_rows db @ [(draft_key_hash pl d, g, e)]" by blast
  with None outbox_inv_prepare [OF assms] show ?thesis by (auto simp: map_add_def)
next
  case (Some ge)
  obtain g e0 where ge: "ge = (g, e0)" by fastforce
  obtain g' where g': "request_digest pl d = Some g'" using pg_events.prepare_digested [OF assms(2)] by blast
  from db_prepare_known [of db pl d g e0 g' ev] Some ge g' assms(2) have "db' = db" "g' = g" "e0 = e" by (auto split: if_splits)
  with Some ge g' assms(1) show ?thesis by simp
qed

lemma rows_extend_get: "rows_extend rs rs' \<Longrightarrow> dget rs k = Some (g, e) \<Longrightarrow> \<exists>e'. dget rs' k = Some (g, e') \<and> same_envelope e e'"
  unfolding rows_extend_def by blast

lemma publish_prepared_extends:
  assumes "outbox_inv pl db"
    and "publish_prepared db_mark_published db_record_failure topics propagated outcome now db klog e = (db', klog', r)"
  shows "outbox_inv pl db'" and "rows_extend (db_event_rows db) (db_event_rows db')"
proof -
  have "db' = fst (db_mark_published db (pe_event_id e) now) \<or> db' = fst (db_record_failure db (pe_event_id e) ''send failed'')"
    using assms(2) by (auto simp: publish_prepared_def split: send_outcome.splits)
  then show "outbox_inv pl db'" "rows_extend (db_event_rows db) (db_event_rows db')"
    using pg_events.mark_rows [OF assms(1)] pg_events.failure_rows [OF assms(1)]
    by (auto intro!: rows_extend_touch)
qed

lemma durable_publish_recorded:
  assumes inv: "outbox_inv pl db" and ok: "durable_publish pl topics propagated outcome ev call (db, klog) = ((db', klog'), Ok eid)"
  shows "outbox_inv pl db' \<and> (\<exists>targets g e. producer_targets (dr_target_clusters (mu_draft call)) = Ok targets \<and>
    request_digest pl (mu_draft call\<lparr>dr_target_clusters := targets\<rparr>) = Some g \<and>
    dget (db_event_rows db') (draft_key_hash pl (mu_draft call\<lparr>dr_target_clusters := targets\<rparr>)) = Some (g, e) \<and> pe_event_id e = eid)"
proof -
  let ?d = "mu_draft call"
  have run: "publish_mutation (db_prepare pl) db_mark_published db_record_failure topics propagated outcome ev db klog ?d =
      (db', klog', Ok eid)"
    using ok by (auto simp: durable_publish_def split: prod.splits)
  then obtain targets where targets: "producer_targets (dr_target_clusters ?d) = Ok targets"
    by (auto simp: publish_mutation_def ebind_eq_Ok split: sum.splits)
  let ?t = "?d\<lparr>dr_target_clusters := targets\<rparr>"
  obtain db1 r1 where prep: "db_prepare pl db ev ?t = (db1, r1)" by fastforce
  have accepted: "\<exists>n. positive_int64 (dr_routing_revision ?d) = Ok n"
    using run by (cases "positive_int64 (dr_routing_revision ?d)") (auto simp: publish_mutation_def)
  note go = run [unfolded publish_mutation_def]
  from go accepted targets prep obtain e where r1: "r1 = Ok e"
    by (cases r1) auto
  from prepared_known [OF inv prep [unfolded r1]] obtain g where known: "outbox_inv pl db1" "request_digest pl ?t = Some g"
    "dget (db_event_rows db1) (draft_key_hash pl ?t) = Some (g, e)" by blast
  show ?thesis
  proof (cases "pe_published_at e = None")
    case False
    with go accepted targets prep r1 have "db' = db1" "eid = pe_event_id e" by auto
    with known targets show ?thesis by blast
  next
    case True
    obtain db2 klog2 r2 where pub: "publish_prepared db_mark_published db_record_failure topics propagated outcome (ev_now ev) db1 klog e = (db2, klog2, r2)"
      by (metis prod_cases3)
    with go accepted targets prep r1 True have "db' = db2" "eid = pe_event_id e" by (auto split: sum.splits)
    with publish_prepared_extends [OF known(1) pub] rows_extend_get [OF _ known(3)] known targets show ?thesis
      by (auto simp: same_envelope_def)
  qed
qed

text \<open>Authorization injects the tenant at its own path and keeps the document's id.\<close>

lemma set_path_keeps_id:
  assumes "set_path d ps v = Ok d'" and "jget d ''id'' = JStr i" and "ps \<noteq> [''id'']"
  shows "jget d' ''id'' = JStr i"
  using assms by (cases ps rule: remdups_adj.cases) (auto simp: ebind_eq_Ok jget_dput split: if_splits)

lemma authorize_keeps_id:
  assumes "authorize_ingest_document rep st rq coll d = Ok d'" and "jget d ''id'' = JStr i" and "i \<noteq> []"
  shows "jget d' ''id'' = JStr i"
proof -
  have "d' = d \<or> (\<exists>field v. (document_value d field = JNull \<or> document_value d field = JStr []) \<and> set_document_value d field v = Ok d')"
  proof -
    obtain policy mode where p: "collection_policy rep st coll = Ok policy" "policy_mode rep policy = Ok mode"
      using assms(1) unfolding authorize_ingest_document_def ebind_eq_Ok by blast
    note run = assms(1) [unfolded authorize_ingest_document_def p ebind_Ok]
    show ?thesis
    proof (cases "mode = ''off''")
      case False
      note run = run [unfolded if_not_P [OF False]]
      then obtain v where v: "tenant_values_from_request rep st rq policy = Ok v" unfolding ebind_eq_Ok by blast
      show ?thesis
      proof (cases v)
        case (Some tenants)
        note run = run [unfolded v ebind_Ok Some option.case]
        then obtain field where field: "tenant_field rep policy = Ok field" unfolding ebind_eq_Ok by blast
        define current where "current = document_value d field"
        from run [unfolded field ebind_Ok Let_def, folded current_def]
        have "d' = d \<or> (current = JNull \<or> current = JStr []) \<and> set_document_value d field (JStr (hd tenants)) = Ok d'"
          by (auto split: if_splits)
        then show ?thesis by (auto simp: current_def)
      qed (use run v in simp)
    qed (use run in simp)
  qed
  then show ?thesis
  proof
    assume "\<exists>field v. (document_value d field = JNull \<or> document_value d field = JStr []) \<and> set_document_value d field v = Ok d'"
    then obtain field v where f: "document_value d field = JNull \<or> document_value d field = JStr []"
      and s: "set_path d (split_on (CHR ''.'') field) v = Ok d'" by (auto simp: set_document_value_def)
    have "split_on (CHR ''.'') field \<noteq> [''id'']"
    proof
      assume "split_on (CHR ''.'') field = [''id'']"
      then have "document_value d field = JStr i" using assms(2) by (auto simp: document_value_def jget_def split: option.splits)
      with f assms(3) show False by auto
    qed
    from set_path_keeps_id [OF s assms(2) this] show ?thesis .
  qed (use assms(2) in simp)
qed

lemma prepare_ingest_id:
  assumes "prepare_ingest env headers supplied coll document = Ok (call, doc_id, targets)"
  shows "dr_document_id (mu_draft call) = doc_id"
proof -
  from assms obtain i document' where i: "document_id_of document = Ok i"
    and auth: "authorize_ingest_document (re_rep env) (re_settings env) (re_caller env) coll document = Ok document'"
    and d: "dr_document_id (mu_draft call) = py_str (re_rep env) (get_or document' ''id'' (JStr []))" "doc_id = i"
    by (auto simp: prepare_ingest_def ebind_eq_Ok ingest_draft_def split: if_splits)
  have id: "jget document ''id'' = JStr i" "i \<noteq> []"
    using i by (auto simp: document_id_of_def DOCUMENT_ID_PATTERN_def matches_def split: json.splits if_splits)
  from authorize_keeps_id [OF auth id] d show ?thesis by (auto simp: jget_def get_or_def split: option.splits)
qed

section \<open>Properties\<close>


lemma ingest_items_split:
  "ingest_items publish env headers metadata coll index (xs @ ys) s =
     (let (s1, a) = ingest_items publish env headers metadata coll index xs s;
          (s2, b) = ingest_items publish env headers metadata coll (index + length xs) ys s1 in (s2, a @ b))"
proof (induction xs arbitrary: index s)
  case (Cons x xs)
  then show ?case by (simp add: Let_def case_prod_unfold)
qed simp

lemma ingest_items_length: "length (snd (ingest_items publish env headers metadata coll index ds s)) = length ds"
  by (induction ds arbitrary: index s) (simp_all add: Let_def case_prod_unfold)

lemma ingest_items_nth:
  assumes "i < length ds"
  shows "snd (ingest_items publish env headers metadata coll 0 ds s) ! i =
    batch_item (env i) i (ds ! i) (snd (publish_ingest_document publish (env i) headers
      (dget metadata (py_str (re_rep (env i)) (jget (ds ! i) ''id''))) coll (ds ! i)
      (fst (ingest_items publish env headers metadata coll 0 (take i ds) s))))"
proof -
  have "ds = take i ds @ ds ! i # drop (Suc i) ds" using assms by (rule id_take_nth_drop)
  then have "snd (ingest_items publish env headers metadata coll 0 ds s) =
      snd (ingest_items publish env headers metadata coll 0 (take i ds @ ds ! i # drop (Suc i) ds) s)" by simp
  then show ?thesis
    using assms ingest_items_length [of publish env headers metadata coll 0 "take i ds" s]
    by (simp add: ingest_items_split Let_def case_prod_unfold nth_append)
qed

text \<open>
  A batch accounts for every document: within the limit, it answers with one item per
  document, in order; each item is the outcome of the single ingestion of its document in the
  state that the documents before it left; a rejected document does not stop the rest; and the
  counts and the status agree with the items.
\<close>

theorem batch_accounts_for_every_document:
  assumes "length documents \<le> limit"
  shows "\<exists>s' resp. ingest_documents_batch publish env limit headers metadata coll documents s = (s', Ok resp) \<and>
    length (br_items resp) = length documents \<and> br_requested resp = length documents \<and>
    br_accepted resp = length (filter (\<lambda>i. bi_error i = None) (br_items resp)) \<and>
    br_accepted resp + br_rejected resp = length documents \<and>
    (br_status resp = ''ok'') = (\<forall>i \<in> set (br_items resp). bi_error i = None) \<and>
    (\<forall>i < length documents. br_items resp ! i = batch_item (env i) i (documents ! i)
      (snd (publish_ingest_document publish (env i) headers
        (dget metadata (py_str (re_rep (env i)) (jget (documents ! i) ''id''))) coll (documents ! i)
        (fst (ingest_items publish env headers metadata coll 0 (take i documents) s)))))"
proof -
  let ?items = "snd (ingest_items publish env headers metadata coll 0 documents s)"
  let ?ok = "filter (\<lambda>i. bi_error i = None) ?items"
  have len: "length ?items = length documents" by (rule ingest_items_length)
  have le: "length ?ok \<le> length documents" using length_filter_le [of "\<lambda>i. bi_error i = None" ?items] len by simp
  have all: "length documents - length ?ok = 0 \<longleftrightarrow> (\<forall>i \<in> set ?items. bi_error i = None)"
  proof
    assume "length documents - length ?ok = 0"
    with le len have same: "length ?ok = length ?items" by simp
    show "\<forall>i \<in> set ?items. bi_error i = None"
    proof (rule ballI, rule ccontr)
      fix i
      assume "i \<in> set ?items" "bi_error i \<noteq> None"
      from length_filter_less [OF this(1), of "\<lambda>i. bi_error i = None"] this(2) same show False by simp
    qed
  qed (simp add: len)
  show ?thesis
    using assms len le all ingest_items_nth [of _ documents publish env headers metadata coll s]
    by (auto simp: ingest_documents_batch_def Let_def case_prod_unfold)
qed

lemma find_document_cases:
  assumes "\<And>d. can_read d = Ok (P d)"
  shows "case find_document can_read retrieve names failed of
      Inr (name, d) \<Rightarrow> name \<in> set names \<and> retrieve name = Retrieved d \<and> P d
    | Inl e \<Rightarrow> (\<forall>name \<in> set names. case retrieve name of Retrieved d \<Rightarrow> \<not> P d | _ \<Rightarrow> True) \<and>
        e = (let bad = failed @ filter (\<lambda>n. retrieve n = ReadError) names in
             if bad \<noteq> [] then Http 503 (''Document lookup failed on cluster(s): '' @ join_with '', '' bad) else Http 404 ''Document not found.'')"
proof (induction names arbitrary: failed)
  case (Cons name names)
  show ?case
  proof (cases "retrieve name")
    case (Retrieved d)
    with Cons [of failed] assms [of d] show ?thesis by (cases "P d") (auto split: sum.splits)
  next
    case ObjectNotFound
    with Cons [of failed] show ?thesis by (auto split: sum.splits)
  next
    case ReadError
    with Cons [of "failed @ [name]"] show ?thesis by (auto simp: Let_def split: sum.splits)
  qed
qed simp

text \<open>
  A document read is confined and never mistakes a failure for an absence. Under a tenant
  policy, a document is only returned when it was retrieved from a cluster of the search and
  belongs to a tenant of the caller; 404 is only answered when every cluster answered and none
  holds a document of the caller's tenants under the id; and a cluster that failed makes the
  answer 503 unless another one has the document.
\<close>

theorem document_read_confined:
  assumes "tenancy (re_rep env) (re_settings env) (re_caller env) coll policy field ts"
    and "cluster_names_for_search (re_fromisoformat env) (re_rep env) (re_runtime env) coll = Ok names" and "names \<noteq> []"
  shows "case get_document env retrieve coll of
      Inr (name, d) \<Rightarrow> name \<in> set names \<and> retrieve name = Retrieved d \<and> value_matches_any_tenant (re_rep env) (document_value d field) ts
    | Inl e \<Rightarrow>
        (\<forall>name \<in> set names. case retrieve name of
           Retrieved d \<Rightarrow> \<not> value_matches_any_tenant (re_rep env) (document_value d field) ts | _ \<Rightarrow> True) \<and>
        (if \<exists>name \<in> set names. retrieve name = ReadError then (\<exists>m. e = Http 503 m) else e = Http 404 ''Document not found.'')"
proof -
  have "get_document env retrieve coll = find_document (can_read_document (re_rep env) (re_settings env) (re_caller env) coll) retrieve names []"
    using assms(2,3) by (simp add: get_document_def)
  moreover have "case find_document (can_read_document (re_rep env) (re_settings env) (re_caller env) coll) retrieve names [] of
      Inr (name, d) \<Rightarrow> name \<in> set names \<and> retrieve name = Retrieved d \<and> value_matches_any_tenant (re_rep env) (document_value d field) ts
    | Inl e \<Rightarrow> (\<forall>name \<in> set names. case retrieve name of
          Retrieved d \<Rightarrow> \<not> value_matches_any_tenant (re_rep env) (document_value d field) ts | _ \<Rightarrow> True) \<and>
        e = (let bad = [] @ filter (\<lambda>n. retrieve n = ReadError) names in
             if bad \<noteq> [] then Http 503 (''Document lookup failed on cluster(s): '' @ join_with '', '' bad) else Http 404 ''Document not found.'')"
    by (rule find_document_cases) (rule tenancy_reads [OF assms(1)])
  ultimately show ?thesis
    by (auto simp: Let_def filter_empty_conv split: sum.splits if_splits)
qed

section \<open>Examples\<close>

definition small_runtime :: FederationRuntime where
  "small_runtime = empty_runtime\<lparr>rt_revision := 3, clients := [''a'']\<rparr>"

definition small_env :: router_env where
  "small_env = \<lparr>re_rep = plain_rep, re_float = (\<lambda>_. None), re_int = (\<lambda>_. None), re_fromisoformat = (\<lambda>_. None),
     re_settings = tenant_settings, re_caller = caller_of ''acme'', re_runtime = small_runtime, re_durable = True,
     re_now_ns = 7, re_uuid = ''u'', re_trace = []\<rparr>"

definition small_headers :: event_headers where
  "small_headers = \<lparr>eh_version = None, eh_sequence = None, eh_key = Some ''key-00001''\<rparr>"

definition small_document :: document where
  "small_document = [(''id'', JStr ''b1''), (''org'', JStr ''acme'')]"

definition small_draft :: IndexingEventDraft where
  "small_draft = \<lparr>dr_tenant_id = ''acme'', dr_collection = ''books'', dr_document_id = ''b1'', dr_operation = ''upsert'',
      dr_target_clusters = [''a''], dr_routing_revision = 3, dr_idempotency_key = ''key-00001'',
      dr_rollout_id = None, dr_trace = [], dr_document = Some small_document, dr_delete_filter = None\<rparr>"

lemma small_route: "get_indexing_route (\<lambda>_. None) plain_rep (\<lambda>_. None) small_runtime ''books'' small_document = Ok ([''a''], 3, None)"
  by code_simp

lemma small_metadata: "indexing_event_metadata small_env small_headers None = Ok (1, 1, ''key-00001'')"
  by code_simp

lemma small_authorized: "authorize_ingest_document plain_rep tenant_settings (caller_of ''acme'') ''books'' small_document = Ok small_document"
  by code_simp

lemma small_identity: "event_tenant_identity plain_rep tenant_settings (caller_of ''acme'') ''books'' (Some small_document) = Ok ''acme''"
  by code_simp

lemma small_prepared:
  "prepare_ingest small_env small_headers None ''books'' small_document = Ok (\<lparr>mu_draft = small_draft, mu_version = 1, mu_sequence = 1\<rparr>, ''b1'', [''a''])"
proof -
  have "document_id_of small_document = Ok ''b1''" by code_simp
  moreover have "py_str plain_rep (get_or small_document ''id'' (JStr [])) = ''b1''" by code_simp
  ultimately show ?thesis using small_metadata small_route small_authorized small_identity
    by (simp add: prepare_ingest_def http_def route_def small_env_def ingest_draft_def small_draft_def)
qed

lemma small_ingest:
  "\<exists>db klog. ingest_document (durable_publish toy_platform ''p'' [] Acked (toy_env ''u1'')) small_env small_headers ''books'' small_document
     (db_empty, []) = ((db, klog), Ok (''b1'', ''a''))"
proof -
  let ?e = "new_event toy_platform (toy_env ''u1'') small_draft 1 1"
  have dg: "\<exists>dg. request_digest toy_platform small_draft = Some dg \<and> length dg = 64"
    by (simp add: request_digest_def digest_material_def small_draft_def small_document_def opt_json_def)
  have lens: "length (draft_identity_hash toy_platform small_draft) = 64" "length (draft_key_hash toy_platform small_draft) = 64"
    by (simp_all add: draft_identity_hash_def identity_hash_of_def draft_key_hash_def indexing_idempotency_key_hash_def)
  have fs: "dr_tenant_id small_draft = ''acme''" "dr_collection small_draft = ''books''" "dr_document_id small_draft = ''b1''"
    "dr_operation small_draft = ''upsert''" "ev_uuid (toy_env ''u1'') = ''u1''" "dr_target_clusters small_draft = [''a'']" "dr_routing_revision small_draft = 3"
    by (simp_all add: small_draft_def toy_env_def)
  have "pe_sequence ?e = 1" "pe_event_id ?e = ''evt:u1''" "pe_published_at ?e = None" by (simp_all add: fs)
  then have "\<exists>db. db_prepare toy_platform db_empty (toy_env ''u1'') small_draft = (db, Ok ?e)"
    using dg lens
    by (auto simp: db_prepare_def existing_for_key_def db_empty_def ensure_head_def head_of_identity_def fs
        allocate_and_insert_def insert_outbox_event_def advance_head_def Let_def outbox_event_fits_def in_transaction_def event_row_def)
  then obtain db where db: "db_prepare toy_platform db_empty (toy_env ''u1'') small_draft = (db, Ok ?e)" by blast
  have targets: "producer_targets [''a''] = Ok [''a'']" "positive_int64 3 = Ok 3" by code_simp+
  have same: "small_draft\<lparr>dr_target_clusters := [''a'']\<rparr> = small_draft" by (simp add: small_draft_def)
  show ?thesis using \<open>pe_published_at ?e = None\<close>
    by (simp add: ingest_document_def publish_ingest_document_def small_prepared published_def durable_publish_def publish_mutation_def
        targets fs same db publish_prepared_def)
qed

lemma small_tenancy: "tenancy (re_rep small_env) (re_settings small_env) (re_caller small_env) ''books'' books_policy ''org'' [''acme'']"
  using caller_tenancy(1) by (simp add: small_env_def)


definition counting_publish :: "nat publisher" where
  "counting_publish call n = (n + 1, if n = 1 then Raise IdempotencyConflict else Ok ''evt'')"

theorem batch_accounts_for_every_document_witness:
  "\<exists>s' resp. ingest_documents_batch counting_publish (\<lambda>_. small_env) 5 small_headers [] ''books'' [small_document, [], small_document] 0 =
     (s', Ok resp) \<and> length (br_items resp) = 3"
  using batch_accounts_for_every_document [of "[small_document, [], small_document]" 5] by fastforce

theorem document_read_confined_witness:
  "get_document small_env (\<lambda>_. ReadError) ''books'' = Raise (Http 503 ''Document lookup failed on cluster(s): a'')"
proof -
  have names: "cluster_names_for_search (re_fromisoformat small_env) (re_rep small_env) (re_runtime small_env) ''books'' = Ok [''a'']"
    by code_simp
  have "get_document small_env (\<lambda>_. ReadError) ''books'' = Raise (Http 503 ''Document lookup failed on cluster(s): a'') \<or>
    (\<exists>x. get_document small_env (\<lambda>_. ReadError) ''books'' = Ok x)"
    using names by (simp add: get_document_def)
  with document_read_confined [OF small_tenancy names, of "\<lambda>_. ReadError"] show ?thesis by auto
qed

section \<open>Where the code falls short\<close>

text \<open>
  The deletion evaluates the tenant identity inside its \<open>try\<close>: the 403 for a caller with several
  tenants, which ingestion passes on, is answered as a producer failure.
\<close>

lemma delete_hides_tenant_error:
  assumes "prepare_delete env headers coll doc_id = Ok call"
    and "event_tenant_identity (re_rep env) (re_settings env) (re_caller env) coll None = Raise (Http 403 m)"
  shows "delete_document publish env headers coll doc_id s = (s, Raise (Http 500 ''Kafka producer error''))"
  using assms by (simp add: delete_document_def split: prod.splits)

text \<open>A caller with two tenants meets it.\<close>

definition two_tenants :: router_env where
  "two_tenants = small_env\<lparr>re_caller := \<lparr>rq_auth_scheme = ''oidc'', rq_auth_claims = Some (JObj [(''tid'', JStr ''acme zeta'')])\<rparr>\<rparr>"

lemma two_tenants_delete:
  "delete_document publish two_tenants small_headers ''books'' ''b1'' s = (s, Raise (Http 500 ''Kafka producer error''))"
proof -
  have "\<exists>call. prepare_delete two_tenants small_headers ''books'' ''b1'' = Ok call"
  proof -
    have "prepare_delete two_tenants small_headers ''books'' ''b1'' =
        Ok (([''a''], 3, None), Some ''(id:=b1) && org:=[acme,zeta]'', 1, 1, ''key-00001'')" by code_simp
    then show ?thesis by blast
  qed
  then obtain call where "prepare_delete two_tenants small_headers ''books'' ''b1'' = Ok call" by blast
  moreover have "event_tenant_identity (re_rep two_tenants) (re_settings two_tenants) (re_caller two_tenants) ''books'' None =
      Raise (Http 403 ''A single tenant identity is required for versioned indexing events'')" by code_simp
  ultimately show ?thesis by (rule delete_hides_tenant_error)
qed

end
