(* ===== verification/StateSync.thy ===== *)
theory StateSync
  imports ControlPlane Federation
begin

text \<open>
  \<open>query_api/app/services/state_manager.py\<close>, \<open>services/config_sync.py\<close> and the parts
  of \<open>main.py\<close> that join them: the facade over the transactional control-plane store, the
  notifications between the replicas of the API, the poller that reconciles a replica with the
  durable head, and the dispatcher of the control-plane outbox. The store is a record of its
  operations, instantiated with both stores of \<open>ControlPlane\<close>. The read-compatible Typesense
  backend keeps one document; its client is an argument.
\<close>

section \<open>The store interface\<close>

record 's store_api =
  store_latest :: "'s \<Rightarrow> int option"
  store_load :: "'s \<Rightarrow> cp_error + ControlPlaneRecord option"
  store_commit :: "'s \<Rightarrow> call_env \<Rightarrow> int \<Rightarrow> document \<Rightarrow> AuditEvent \<Rightarrow> string \<Rightarrow> document \<Rightarrow> int
    \<Rightarrow> cp_error + 's \<times> ControlPlaneRecord"
  store_append_audit :: "'s \<Rightarrow> call_env \<Rightarrow> AuditEvent \<Rightarrow> int option \<Rightarrow> cp_error + 's"
  store_list_audit :: "'s \<Rightarrow> int \<Rightarrow> string option \<Rightarrow> string option \<Rightarrow> cp_error + document list"
  store_export_audit :: "'s \<Rightarrow> int \<Rightarrow> int \<Rightarrow> cp_error + document list"
  store_verify_chain :: "'s \<Rightarrow> cp_error + unit"
  store_outbox :: "'s \<Rightarrow> int \<Rightarrow> int \<Rightarrow> cp_error + OutboxRecord list"
  store_unpublished :: "'s \<Rightarrow> int \<Rightarrow> cp_error + OutboxRecord list"
  store_mark :: "'s \<Rightarrow> string \<Rightarrow> time \<Rightarrow> 's \<times> bool"
  store_failure :: "'s \<Rightarrow> string \<Rightarrow> string \<Rightarrow> 's \<times> bool"

definition pg_api :: "platform \<Rightarrow> ControlPlaneDb store_api" where
  "pg_api pl = \<lparr>store_latest = pg_latest_revision, store_load = pg_load pl, store_commit = pg_commit pl,
     store_append_audit = pg_append_audit pl, store_list_audit = pg_list_audit pl,
     store_export_audit = pg_export_audit pl, store_verify_chain = pg_verify_audit_chain pl,
     store_outbox = pg_list_outbox, store_unpublished = pg_list_unpublished,
     store_mark = pg_mark_outbox_published, store_failure = pg_record_outbox_failure\<rparr>"

definition mem_api :: "platform \<Rightarrow> MemStore store_api" where
  "mem_api pl = \<lparr>store_latest = mem_latest_revision, store_load = mem_load, store_commit = mem_commit pl,
     store_append_audit = mem_append_audit pl, store_list_audit = mem_list_audit,
     store_export_audit = mem_export_audit, store_verify_chain = mem_verify_audit_chain pl,
     store_outbox = mem_list_outbox, store_unpublished = mem_list_unpublished,
     store_mark = mem_mark_outbox_published, store_failure = mem_record_outbox_failure\<rparr>"

section \<open>The state of the control plane as one document\<close>

record DesiredState =
  ds_clusters :: "(string, document) pydict"
  ds_rules :: "(string, document) pydict"
  ds_schemas :: "(string, document) pydict"
  ds_aliases :: "(string, (string, document) pydict) pydict"

definition docs_json :: "(string, document) pydict \<Rightarrow> json" where
  "docs_json docs = JObj (map (\<lambda>(k, d). (k, JObj d)) docs)"

definition aliases_json :: "(string, (string, document) pydict) pydict \<Rightarrow> json" where
  "aliases_json aliases = JObj (map (\<lambda>(c, docs). (c, docs_json docs)) aliases)"

definition state_document :: "DesiredState \<Rightarrow> (string, document) pydict \<Rightarrow> document" where
  "state_document ds rollouts =
     [(''federation_clusters_config'', docs_json (ds_clusters ds)),
      (''collection_routing_rules'', docs_json (ds_rules ds)),
      (''collection_schemas'', docs_json (ds_schemas ds)),
      (''collection_aliases'', aliases_json (ds_aliases ds)),
      (''routing_rollouts'', docs_json rollouts)]"

text \<open>\<open>state.get(key) or {}\<close>; the stored values are the objects that were saved.\<close>

fun object_of :: "json \<Rightarrow> document" where
  "object_of (JObj d) = d"
| "object_of _ = []"

definition docs_of :: "document \<Rightarrow> string \<Rightarrow> (string, document) pydict" where
  "docs_of state key = map (\<lambda>(k, v). (k, object_of v)) (object_of (jget state key))"

definition aliases_of :: "document \<Rightarrow> string \<Rightarrow> (string, (string, document) pydict) pydict" where
  "aliases_of state key = map (\<lambda>(c, v). (c, map (\<lambda>(k, v). (k, object_of v)) (object_of v))) (object_of (jget state key))"

definition desired_of :: "document \<Rightarrow> DesiredState" where
  "desired_of state = \<lparr>ds_clusters = docs_of state ''federation_clusters_config'',
     ds_rules = docs_of state ''collection_routing_rules'', ds_schemas = docs_of state ''collection_schemas'',
     ds_aliases = aliases_of state ''collection_aliases''\<rparr>"

section \<open>The state manager\<close>

record StateManager =
  sm_current_revision :: int
  sm_state_digest :: string
  sm_routing_rollouts :: "(string, document) pydict"

datatype manager_error = SecretPolicy secret_error | RevisionConflict int int | StateLoadError

type_synonym secret_check = "document \<Rightarrow> secret_error + unit"

definition validate_cluster_secrets :: "secret_check \<Rightarrow> (string, document) pydict \<Rightarrow> manager_error + unit" where
  "validate_cluster_secrets check clusters =
     (case mapE check (dvalues clusters) of Raise e \<Rightarrow> Raise (SecretPolicy e) | Ok _ \<Rightarrow> Ok ())"

text \<open>The constructor over a transactional store, once \<open>check_ready\<close> has passed.\<close>

definition new_state_manager :: "'s store_api \<Rightarrow> 's \<Rightarrow> StateManager" where
  "new_state_manager api s = \<lparr>sm_current_revision = head_of (store_latest api s), sm_state_digest = [], sm_routing_rollouts = []\<rparr>"

definition bootstrap_audit :: AuditEvent where
  "bootstrap_audit = \<lparr>ae_actor = ''system'', ae_action = ''state_bootstrapped'', ae_resource_type = ''control_plane_state'',
     ae_resource_id = ''current'', ae_status = ''success'', ae_request_id = [], ae_details = []\<rparr>"

text \<open>What a caller asks \<open>save_state\<close> to record beside the state.\<close>

record save_request =
  sr_audit :: "AuditEvent option"
  sr_event_type :: string
  sr_event_payload :: document
  sr_expected :: "int option"

definition save_state :: "'s store_api \<Rightarrow> secret_check \<Rightarrow> 's \<Rightarrow> StateManager \<Rightarrow> call_env \<Rightarrow> DesiredState
    \<Rightarrow> (string, document) pydict option \<Rightarrow> save_request \<Rightarrow> 's \<times> StateManager \<times> (manager_error + bool)" where
  "save_state api check s mgr env ds rollouts rq =
     (case validate_cluster_secrets check (ds_clusters ds) of
        Raise e \<Rightarrow> (s, mgr, Raise e)
      | Ok _ \<Rightarrow>
        (let saved = (case rollouts of None \<Rightarrow> sm_routing_rollouts mgr | Some r \<Rightarrow> r);
             expected = (case sr_expected rq of None \<Rightarrow> sm_current_revision mgr | Some r \<Rightarrow> r);
             audit = (case sr_audit rq of None \<Rightarrow> bootstrap_audit | Some a \<Rightarrow> a) in
         case store_commit api s env expected (state_document ds saved) audit (sr_event_type rq) (sr_event_payload rq)
             CURRENT_STATE_SCHEMA_VERSION of
           Ok (s', rec) \<Rightarrow>
             (s', \<lparr>sm_current_revision = cr_revision rec, sm_state_digest = cr_digest rec, sm_routing_rollouts = saved\<rparr>, Ok True)
         | Raise (StateConflictError e a) \<Rightarrow> (s, mgr, Raise (RevisionConflict e a))
         | Raise _ \<Rightarrow> (s, mgr, Ok False)))"

definition load_state :: "'s store_api \<Rightarrow> secret_check \<Rightarrow> 's \<Rightarrow> StateManager \<Rightarrow> StateManager \<times> (manager_error + DesiredState option)" where
  "load_state api check s mgr =
     (case store_load api s of
        Raise _ \<Rightarrow> (mgr, Raise StateLoadError)
      | Ok None \<Rightarrow> (\<lparr>sm_current_revision = 0, sm_state_digest = [], sm_routing_rollouts = []\<rparr>, Ok None)
      | Ok (Some rec) \<Rightarrow>
        (let mgr1 = mgr\<lparr>sm_current_revision := cr_revision rec, sm_state_digest := cr_digest rec\<rparr>;
             ds = desired_of (cr_state rec) in
         case validate_cluster_secrets check (ds_clusters ds) of
           Raise _ \<Rightarrow> (mgr1, Raise StateLoadError)
         | Ok _ \<Rightarrow> (mgr1\<lparr>sm_routing_rollouts := docs_of (cr_state rec) ''routing_rollouts''\<rparr>, Ok (Some ds))))"

definition record_admin_audit :: "'s store_api \<Rightarrow> 's \<Rightarrow> StateManager \<Rightarrow> call_env \<Rightarrow> AuditEvent \<Rightarrow> 's \<times> bool" where
  "record_admin_audit api s mgr env a =
     (case store_append_audit api s env a (if sm_current_revision mgr = 0 then None else Some (sm_current_revision mgr)) of
        Ok s' \<Rightarrow> (s', True) | Raise _ \<Rightarrow> (s, False))"

definition list_admin_audit :: "'s store_api \<Rightarrow> 's \<Rightarrow> int \<Rightarrow> string option \<Rightarrow> string option \<Rightarrow> document list" where
  "list_admin_audit api s limit act rtype =
     (case store_list_audit api s limit act rtype of Ok rows \<Rightarrow> rows | Raise _ \<Rightarrow> [])"

definition export_admin_audit :: "'s store_api \<Rightarrow> 's \<Rightarrow> int \<Rightarrow> int \<Rightarrow> cp_error + document list" where
  "export_admin_audit api s after limit =
     ebind (store_verify_chain api s) (\<lambda>_. store_export_audit api s after limit)"

definition authoritative_revision :: "'s store_api \<Rightarrow> 's \<Rightarrow> int" where
  "authoritative_revision api s = head_of (store_latest api s)"

section \<open>The Typesense backend\<close>

text \<open>One document holds the whole state; a failed call raises.\<close>

datatype legacy_reply = LegacyMissing | LegacyFailed | LegacyDocument document

record 'l legacy_client =
  legacy_upsert :: "'l \<Rightarrow> document \<Rightarrow> 'l option"
  legacy_retrieve :: "'l \<Rightarrow> legacy_reply"

definition STATE_DOCUMENT_ID :: string where
  "STATE_DOCUMENT_ID = ''config_v1''"

definition save_state_legacy :: "'l legacy_client \<Rightarrow> (json \<Rightarrow> string) \<Rightarrow> secret_check \<Rightarrow> 'l \<Rightarrow> StateManager
    \<Rightarrow> DesiredState \<Rightarrow> (string, document) pydict option \<Rightarrow> 'l \<times> StateManager \<times> (manager_error + bool)" where
  "save_state_legacy lc dumps check l mgr ds rollouts =
     (case validate_cluster_secrets check (ds_clusters ds) of
        Raise e \<Rightarrow> (l, mgr, Raise e)
      | Ok _ \<Rightarrow>
        (let saved = (case rollouts of None \<Rightarrow> sm_routing_rollouts mgr | Some r \<Rightarrow> r) in
         case legacy_upsert lc l [(''id'', JStr STATE_DOCUMENT_ID),
             (''state_data'', JStr (dumps (JObj (state_document ds saved))))] of
           None \<Rightarrow> (l, mgr, Ok False)
         | Some l' \<Rightarrow> (l', mgr\<lparr>sm_routing_rollouts := saved\<rparr>, Ok True)))"

definition load_state_legacy :: "'l legacy_client \<Rightarrow> (string \<Rightarrow> json option) \<Rightarrow> secret_check \<Rightarrow> 'l \<Rightarrow> StateManager
    \<Rightarrow> StateManager \<times> (manager_error + DesiredState option)" where
  "load_state_legacy lc loads check l mgr =
     (case legacy_retrieve lc l of
        LegacyMissing \<Rightarrow> (mgr\<lparr>sm_routing_rollouts := []\<rparr>, Ok None)
      | LegacyFailed \<Rightarrow> (mgr, Raise StateLoadError)
      | LegacyDocument d \<Rightarrow>
        (case Option.bind (case dget d ''state_data'' of None \<Rightarrow> Some ''{}'' | Some (JStr t) \<Rightarrow> Some t | Some _ \<Rightarrow> None) loads of
           Some (JObj state) \<Rightarrow>
             (case validate_cluster_secrets check (ds_clusters (desired_of state)) of
                Raise _ \<Rightarrow> (mgr, Raise StateLoadError)
              | Ok _ \<Rightarrow> (mgr\<lparr>sm_routing_rollouts := docs_of state ''routing_rollouts''\<rparr>, Ok (Some (desired_of state))))
         | _ \<Rightarrow> (mgr, Raise StateLoadError)))"

section \<open>A replica\<close>

record Replica =
  rp_manager :: StateManager
  rp_federation :: FederationRuntime

definition desired_state :: "FederationRuntime \<Rightarrow> DesiredState" where
  "desired_state rt = \<lparr>ds_clusters = clusters_config rt, ds_rules = routing_rules rt,
     ds_schemas = collection_schemas rt, ds_aliases = collection_aliases rt\<rparr>"

text \<open>
  What starting a replica and reading its configuration need beside the store: the text of a
  value, the secret policy, and \<open>build_client\<close>.
\<close>

record replica_env =
  re_repr :: "json \<Rightarrow> string"
  re_check :: secret_check
  re_build :: "document \<Rightarrow> federation_error + unit"

definition reload_federation :: "replica_env \<Rightarrow> FederationRuntime \<Rightarrow> DesiredState \<Rightarrow> StateManager \<Rightarrow> federation_error + FederationRuntime" where
  "reload_federation re rt ds mgr =
     load_from_state (re_repr re) (re_build re) rt (ds_clusters ds) (ds_rules ds) (ds_schemas ds) (ds_aliases ds)
       (sm_routing_rollouts mgr) (sm_current_revision mgr)"

text \<open>\<open>reload_configuration\<close>: the result is the exception that leaves it, if any.\<close>

definition reload_configuration :: "'s store_api \<Rightarrow> replica_env \<Rightarrow> 's \<Rightarrow> Replica \<Rightarrow> Replica \<times> (federation_error + unit)" where
  "reload_configuration api re s rp =
     (case load_state api (re_check re) s (rp_manager rp) of
        (mgr, Raise _) \<Rightarrow> (rp\<lparr>rp_manager := mgr\<rparr>, Ok ())
      | (mgr, Ok None) \<Rightarrow> (rp\<lparr>rp_manager := mgr\<rparr>, Ok ())
      | (mgr, Ok (Some ds)) \<Rightarrow>
          (case reload_federation re (rp_federation rp) ds mgr of
             Raise e \<Rightarrow> (rp\<lparr>rp_manager := mgr\<rparr>, Raise e)
           | Ok rt \<Rightarrow> (rp\<lparr>rp_manager := mgr, rp_federation := rt\<rparr>, Ok ())))"

section \<open>Notifications and the poller\<close>

text \<open>
  \<open>_listen_for_updates\<close> on one parsed message: whether the configuration is reloaded. An
  exception while reading the message only skips it.
\<close>

definition message_revision :: "(json \<Rightarrow> int option) \<Rightarrow> document \<Rightarrow> int option" where
  "message_revision int_of data = (let v = jget data ''revision'' in
     if \<not> truthy v then Some 0 else case v of JInt n \<Rightarrow> Some n | _ \<Rightarrow> int_of v)"

definition notification_reloads :: "(json \<Rightarrow> int option) \<Rightarrow> string \<Rightarrow> int \<Rightarrow> document \<Rightarrow> bool" where
  "notification_reloads int_of source_id local_revision data =
     (let source = (case dget data ''source'' of None \<Rightarrow> JStr ''unknown'' | Some v \<Rightarrow> v) in
      case message_revision int_of data of
        None \<Rightarrow> False
      | Some r \<Rightarrow> source \<noteq> JStr source_id \<and> \<not> (r \<noteq> 0 \<and> r \<le> local_revision))"

definition change_message :: "string \<Rightarrow> string option \<Rightarrow> string \<Rightarrow> int option \<Rightarrow> document" where
  "change_message source_id source change_type revision =
     [(''type'', JStr change_type),
      (''source'', JStr (case source of Some x \<Rightarrow> if x = [] then source_id else x | None \<Rightarrow> source_id)),
      (''revision'', revision_json revision)]"

definition durable_message :: "string \<Rightarrow> OutboxRecord \<Rightarrow> document" where
  "durable_message source_id ob =
     [(''type'', JStr (ob_event_type ob)), (''source'', JStr source_id),
      (''revision'', JInt (ob_revision ob)), (''event_id'', JStr (ob_event_id ob))]"

text \<open>One round of \<open>_reconcile_revisions\<close>.\<close>

definition reconcile_revisions :: "'s store_api \<Rightarrow> replica_env \<Rightarrow> 's \<Rightarrow> Replica \<Rightarrow> Replica \<times> (federation_error + unit)" where
  "reconcile_revisions api re s rp =
     (if rt_revision (rp_federation rp) < authoritative_revision api s
      then reload_configuration api re s rp else (rp, Ok ()))"

section \<open>The dispatcher of the outbox\<close>

text \<open>
  \<open>publish\<close> is what Redis answers for a record: \<open>None\<close>, or the text of the exception. The
  messages that were published are collected in order.
\<close>

fun dispatch_records :: "'s store_api \<Rightarrow> string \<Rightarrow> (OutboxRecord \<Rightarrow> string option) \<Rightarrow> time \<Rightarrow> 's
    \<Rightarrow> OutboxRecord list \<Rightarrow> 's \<times> document list \<times> nat \<times> nat" where
  "dispatch_records api source_id publish now s [] = (s, [], 0, 0)"
| "dispatch_records api source_id publish now s (ob # obs) =
     (case publish ob of
        None \<Rightarrow>
          (let (s1, marked) = store_mark api s (ob_event_id ob) now;
               (s2, sent, delivered_count, failed_count) = dispatch_records api source_id publish now s1 obs in
           (s2, durable_message source_id ob # sent, (if marked then 1 else 0) + delivered_count, failed_count))
      | Some err \<Rightarrow>
          (let (s1, _) = store_failure api s (ob_event_id ob) err;
               (s2, sent, delivered_count, failed_count) = dispatch_records api source_id publish now s1 obs in
           (s2, sent, delivered_count, failed_count + 1)))"

definition dispatch_control_plane_outbox_once :: "'s store_api \<Rightarrow> string \<Rightarrow> (OutboxRecord \<Rightarrow> string option) \<Rightarrow> time \<Rightarrow> 's
    \<Rightarrow> int \<Rightarrow> cp_error + 's \<times> document list \<times> nat \<times> nat" where
  "dispatch_control_plane_outbox_once api source_id publish now s limit =
     ebind (store_unpublished api s limit) (\<lambda>obs. Ok (dispatch_records api source_id publish now s obs))"

section \<open>Sorted states\<close>

text \<open>What the store keeps of a document: the same entries, keys sorted at every level.\<close>

definition sorted_document :: "document \<Rightarrow> document" where
  "sorted_document d = object_of (sort_json (JObj d))"

definition sorted_docs :: "(string, document) pydict \<Rightarrow> (string, document) pydict" where
  "sorted_docs docs = sort_key fst (map (\<lambda>(k, d). (k, sorted_document d)) docs)"

definition sorted_aliases :: "(string, (string, document) pydict) pydict \<Rightarrow> (string, (string, document) pydict) pydict" where
  "sorted_aliases aliases = sort_key fst (map (\<lambda>(c, docs). (c, sorted_docs docs)) aliases)"

definition sorted_state :: "DesiredState \<Rightarrow> DesiredState" where
  "sorted_state ds = \<lparr>ds_clusters = sorted_docs (ds_clusters ds), ds_rules = sorted_docs (ds_rules ds),
     ds_schemas = sorted_docs (ds_schemas ds), ds_aliases = sorted_aliases (ds_aliases ds)\<rparr>"

text \<open>The sort is stable, so a lookup finds the same entry.\<close>

lemma map_of_sort_key: "map_of (sort_key fst xs) = map_of xs"
proof -
  have "map_of (insort_key fst x ys) = (map_of ys)(fst x \<mapsto> snd x)" for x :: "'a \<times> 'b" and ys
    by (induction ys) auto
  then show ?thesis by (induction xs) simp_all
qed

lemma map_of_map_snd: "map_of (map (\<lambda>kv. (fst kv, f (snd kv))) xs) k = map_option f (map_of xs k)"
  by (induction xs) auto

lemma jget_sorted: "jget (sorted_document d) k = sort_json (jget d k)"
  by (simp add: jget_def sorted_document_def map_of_sort_key map_of_map_snd split: option.split)

lemma sorted_secret_config:
  "validate_cluster_secret_config (sorted_document d) allow rs = validate_cluster_secret_config d allow rs"
proof -
  have "nonempty_text (sort_json v) = nonempty_text v" for v by (cases v) (simp_all add: nonempty_text_def)
  then show ?thesis by (simp add: validate_cluster_secret_config_def jget_sorted)
qed

lemma map_sort_key_fst_val: "map (\<lambda>(k, v). (k, f v)) (sort_key fst xs) = sort_key fst (map (\<lambda>(k, v). (k, f v)) xs)"
  by (rule map_sort_key_fst) (simp add: split_beta)

lemma object_of_docs:
  "map (\<lambda>(k, v). (k, object_of v)) (object_of (sort_json (docs_json docs))) = sorted_docs docs"
proof -
  have "object_of (sort_json (docs_json docs)) = sort_key fst (map (\<lambda>(k, d). (k, sort_json (JObj d))) docs)"
    by (simp add: docs_json_def comp_def case_prod_beta')
  then show ?thesis
    by (simp only: map_sort_key_fst_val sorted_docs_def) (simp add: sorted_document_def comp_def case_prod_beta')
qed

lemma object_of_aliases:
  "map (\<lambda>(c, v). (c, map (\<lambda>(k, v). (k, object_of v)) (object_of v))) (object_of (sort_json (aliases_json aliases))) =
     sorted_aliases aliases"
proof -
  have "object_of (sort_json (aliases_json aliases)) = sort_key fst (map (\<lambda>(c, docs). (c, sort_json (docs_json docs))) aliases)"
    by (simp add: aliases_json_def comp_def case_prod_beta')
  then show ?thesis
    by (simp only: map_sort_key_fst_val sorted_aliases_def) (simp add: comp_def case_prod_beta' object_of_docs [unfolded case_prod_beta'])
qed

lemma state_document_sorted:
  assumes "normalize_json_object (state_document ds rollouts) = Some st"
  shows "desired_of st = sorted_state ds" and "docs_of st ''routing_rollouts'' = sorted_docs rollouts"
proof -
  let ?entries = "map (\<lambda>kv. (fst kv, sort_json (snd kv))) (state_document ds rollouts)"
  have st: "st = sort_key fst ?entries"
    using assms by (simp add: normalize_json_object_def split: if_splits)
  have "map_of st = map_of ?entries" unfolding st by (rule map_of_sort_key)
  then have "jget st k = jget ?entries k" for k by (simp add: jget_def)
  then have entries: "jget st ''federation_clusters_config'' = sort_json (docs_json (ds_clusters ds))"
      "jget st ''collection_routing_rules'' = sort_json (docs_json (ds_rules ds))"
      "jget st ''collection_schemas'' = sort_json (docs_json (ds_schemas ds))"
      "jget st ''collection_aliases'' = sort_json (aliases_json (ds_aliases ds))"
      "jget st ''routing_rollouts'' = sort_json (docs_json rollouts)"
    by (simp_all add: state_document_def jget_def)
  then show "desired_of st = sorted_state ds" "docs_of st ''routing_rollouts'' = sorted_docs rollouts"
    by (simp_all only: desired_of_def docs_of_def aliases_of_def entries object_of_docs object_of_aliases sorted_state_def)
qed

section \<open>What every managed store gives\<close>

locale managed_store = control_plane_store "store_latest api" "store_load api" "store_commit api" outbox inv
  for api :: "'s store_api" and outbox :: "'s \<Rightarrow> OutboxRecord list" and inv :: "'s \<Rightarrow> bool"
begin

lemma saved:
  assumes "inv s" and "save_state api check s mgr env ds ro rq = (s', mgr', Ok True)"
  shows "\<exists>rec. inv s' \<and> store_load api s' = Ok (Some rec) \<and>
    normalize_json_object (state_document ds (sm_routing_rollouts mgr')) = Some (cr_state rec) \<and>
    head_of (store_latest api s) = (case sr_expected rq of None \<Rightarrow> sm_current_revision mgr | Some r \<Rightarrow> r) \<and>
    store_latest api s' = Some (cr_revision rec) \<and> cr_revision rec = head_of (store_latest api s) + 1 \<and>
    mgr' = \<lparr>sm_current_revision = cr_revision rec, sm_state_digest = cr_digest rec,
      sm_routing_rollouts = (case ro of None \<Rightarrow> sm_routing_rollouts mgr | Some r \<Rightarrow> r)\<rparr> \<and>
    validate_cluster_secrets check (ds_clusters ds) = Ok ()"
proof -
  let ?e = "case sr_expected rq of None \<Rightarrow> sm_current_revision mgr | Some r \<Rightarrow> r"
  from assms(2) obtain rec a where
    ok: "store_commit api s env ?e (state_document ds (case ro of None \<Rightarrow> sm_routing_rollouts mgr | Some r \<Rightarrow> r)) a
      (sr_event_type rq) (sr_event_payload rq) CURRENT_STATE_SCHEMA_VERSION = Ok (s', rec)"
    and mgr': "mgr' = \<lparr>sm_current_revision = cr_revision rec, sm_state_digest = cr_digest rec,
      sm_routing_rollouts = (case ro of None \<Rightarrow> sm_routing_rollouts mgr | Some r \<Rightarrow> r)\<rparr>"
    and check: "validate_cluster_secrets check (ds_clusters ds) = Ok ()"
    by (auto simp: save_state_def Let_def split: sum.splits prod.splits cp_error.splits)
  from commit_inv [OF assms(1) ok] commit_cas [OF assms(1) ok] commit_loads [OF assms(1) ok] mgr' check
  show ?thesis by auto
qed

lemma not_saved:
  "save_state api check s mgr env ds ro rq = (s', mgr', res) \<Longrightarrow> res \<noteq> Ok True \<Longrightarrow> s' = s \<and> mgr' = mgr"
  by (auto simp: save_state_def Let_def split: sum.splits prod.splits cp_error.splits)

lemma saved_loads:
  assumes "inv s" and "save_state api check s mgr env ds ro rq = (s', mgr', Ok True)"
    and "\<And>d. d \<in> set (dvalues (ds_clusters ds)) \<Longrightarrow> check (sorted_document d) = check d"
  shows "\<exists>m. load_state api check s' other = (m, Ok (Some (sorted_state ds))) \<and>
    sm_current_revision m = sm_current_revision mgr' \<and> sm_state_digest m = sm_state_digest mgr' \<and>
    sm_routing_rollouts m = sorted_docs (sm_routing_rollouts mgr')"
proof -
  from saved [OF assms(1,2)] obtain rec where
    load: "store_load api s' = Ok (Some rec)" and
    state: "normalize_json_object (state_document ds (sm_routing_rollouts mgr')) = Some (cr_state rec)" and
    mgr': "sm_current_revision mgr' = cr_revision rec" "sm_state_digest mgr' = cr_digest rec" and
    check: "validate_cluster_secrets check (ds_clusters ds) = Ok ()" by auto
  have "\<exists>ys. mapE check (dvalues (ds_clusters ds)) = Ok ys"
    using check by (auto simp: validate_cluster_secrets_def split: sum.splits)
  then have "\<forall>d \<in> set (dvalues (ds_clusters ds)). check d = Ok ()"
    using mapE_Ok_elem by fastforce
  then have "\<And>d. d \<in> set (dvalues (sorted_docs (ds_clusters ds))) \<Longrightarrow> check d = Ok ()"
    using assms(3) by (fastforce simp: sorted_docs_def)
  then have "mapE check (dvalues (sorted_docs (ds_clusters ds))) = Ok (map (\<lambda>_. ()) (dvalues (sorted_docs (ds_clusters ds))))"
    by (rule mapE_Ok_self)
  then have "validate_cluster_secrets check (sorted_docs (ds_clusters ds)) = Ok ()"
    by (simp add: validate_cluster_secrets_def)
  with load mgr' state_document_sorted [OF state] show ?thesis
    by (simp add: load_state_def Let_def sorted_state_def)
qed

end

interpretation pg_managed: managed_store "pg_api pl" outbox_rows "db_inv pl"
proof -
  have "control_plane_store pg_latest_revision (pg_load pl) (pg_commit pl) outbox_rows (db_inv pl)"
    by (rule pg_store.control_plane_store_axioms)
  then show "managed_store (pg_api pl) outbox_rows (db_inv pl)" by (simp add: managed_store_def pg_api_def)
qed

interpretation mem_managed: managed_store "mem_api pl" mem_outbox "mem_inv pl"
proof -
  have "control_plane_store mem_latest_revision mem_load (mem_commit pl) mem_outbox (mem_inv pl)"
    by (rule mem_store.control_plane_store_axioms)
  then show "managed_store (mem_api pl) mem_outbox (mem_inv pl)" by (simp add: managed_store_def mem_api_def)
qed

section \<open>Properties\<close>


lemma save_reachable:
  assumes "db_reachable pl db" and "save_state (pg_api pl) check db mgr env ds ro rq = (db', mgr', res)"
  shows "db_reachable pl db'"
  using assms
  by (auto simp: save_state_def pg_api_def Let_def split: sum.splits prod.splits cp_error.splits
      intro: db_reachable.Committed)

definition sample_manager :: StateManager where
  "sample_manager = \<lparr>sm_current_revision = 0, sm_state_digest = [], sm_routing_rollouts = []\<rparr>"

definition sample_desired :: DesiredState where
  "sample_desired = \<lparr>ds_clusters = [], ds_rules = [(''books'', [(''default_cluster'', JStr ''default'')])],
     ds_schemas = [], ds_aliases = []\<rparr>"

definition sample_save :: save_request where
  "sample_save = \<lparr>sr_audit = None, sr_event_type = ''set'', sr_event_payload = [], sr_expected = None\<rparr>"

definition no_references :: secret_check where
  "no_references c = validate_cluster_secret_config c False (None :: secret_provider resolver option)"

lemma sample_saved:
  "\<exists>db mgr. save_state (pg_api sample_platform) no_references migrated_db sample_manager sample_env
     sample_desired None sample_save = (db, mgr, Ok True) \<and> state_row db \<noteq> None \<and> mgr = sample_manager\<lparr>
       sm_current_revision := 1, sm_state_digest := sm_state_digest mgr\<rparr>"
proof -
  have "case save_state (pg_api sample_platform) no_references migrated_db sample_manager sample_env
     sample_desired None sample_save of (db, mgr, res) \<Rightarrow> res = Ok True \<and> state_row db \<noteq> None \<and>
     mgr = sample_manager\<lparr>sm_current_revision := 1, sm_state_digest := sm_state_digest mgr\<rparr>"
    by code_simp
  then show ?thesis by (auto split: prod.splits)
qed


lemma build_all: "(\<And>name config. (name, config) \<in> set configs \<Longrightarrow> f name config = Ok ()) \<Longrightarrow>
    mapE (\<lambda>(name, config). f name config) configs = Ok (map (\<lambda>_. ()) configs)"
  by (rule mapE_Ok_self) auto


definition sample_replica_env :: replica_env where
  "sample_replica_env = \<lparr>re_repr = (\<lambda>_. []), re_check = no_references, re_build = (\<lambda>_. Ok ())\<rparr>"


section \<open>What a failed reload and a masked notification leave\<close>

text \<open>
  A reload moves the revision of the state manager before it validates the state and builds the
  clients: when that fails, the manager stands at the stored revision and the federation
  still runs the older configuration.
\<close>

lemma failed_reload_moves_manager:
  assumes "store_load api s = Ok (Some row)"
    and "reload_configuration api re s rp = (rp', res)" and "rp_federation rp' = rp_federation rp"
  shows "sm_current_revision (rp_manager rp') = cr_revision row \<and> rp_federation rp' = rp_federation rp"
  using assms by (auto simp: reload_configuration_def load_state_def Let_def split: sum.splits prod.splits option.splits)

text \<open>
  The dispatcher signs every record of the outbox with its own id, also a change that another
  replica committed; the dispatching replica then ignores the message and waits for the poller.
\<close>

lemma dispatcher_ignores_change:
  "notification_reloads int_of source_id local_revision (durable_message source_id ob) = False"
  by (simp add: notification_reloads_def durable_message_def split: option.split)

end
