(* ===== verification/Provider.thy ===== *)
theory Provider
  imports Federation
begin

text \<open>
  What the control plane asks of the Typesense clusters: creating, looking up and deleting
  collections and aliases. The clusters are a state of any type behind the record \<open>typesense\<close>, whose
  operations are arguments of the model (the \<open>typesense\<close> client). The loops over them are those of
  \<open>query_api/app/services/federation.py\<close> and \<open>routers/admin.py\<close>: schema backfill and
  reconciliation, alias restoration, and the calls made on every cluster at once.
\<close>

text \<open>Success, the two exceptions the code tells apart, and every other exception.\<close>

datatype provider_reply = ProviderDone | ProviderExists | ProviderMissing | ProviderFailed

record 'w typesense =
  pv_create_collection :: "'w \<Rightarrow> string \<Rightarrow> document \<Rightarrow> 'w \<times> provider_reply"
  pv_retrieve_collection :: "'w \<Rightarrow> string \<Rightarrow> string \<Rightarrow> provider_reply"
  pv_delete_collection :: "'w \<Rightarrow> string \<Rightarrow> string \<Rightarrow> 'w \<times> provider_reply"
  pv_upsert_alias :: "'w \<Rightarrow> string \<Rightarrow> string \<Rightarrow> string \<Rightarrow> 'w \<times> provider_reply"
  pv_delete_alias :: "'w \<Rightarrow> string \<Rightarrow> string \<Rightarrow> 'w \<times> provider_reply"

section \<open>Schemas\<close>

text \<open>\<open>backfill_collection_schemas\<close>: the names that were created, or \<open>None\<close> for an exception.\<close>

fun backfill_schemas :: "'w typesense \<Rightarrow> string \<Rightarrow> 'w \<Rightarrow> (string, document) pydict \<Rightarrow> 'w \<times> string list option" where
  "backfill_schemas pv cluster w [] = (w, Some [])"
| "backfill_schemas pv cluster w ((name, schema) # schemas) =
     (case pv_create_collection pv w cluster schema of
        (w1, ProviderDone) \<Rightarrow>
          (let (w2, created) = backfill_schemas pv cluster w1 schemas in (w2, map_option ((#) name) created))
      | (w1, ProviderExists) \<Rightarrow> backfill_schemas pv cluster w1 schemas
      | (w1, _) \<Rightarrow> (w1, None))"

definition backfill_collection_schemas :: "'w typesense \<Rightarrow> FederationRuntime \<Rightarrow> string \<Rightarrow> 'w \<Rightarrow> 'w \<times> string list option" where
  "backfill_collection_schemas pv rt cluster w =
     (if cluster \<notin> set (clients rt) then (w, None) else backfill_schemas pv cluster w (collection_schemas rt))"

record cluster_report =
  report_existing :: "string list"
  report_created :: "string list"

definition empty_report :: cluster_report where
  "empty_report = \<lparr>report_existing = [], report_created = []\<rparr>"

fun reconcile_cluster :: "'w typesense \<Rightarrow> string \<Rightarrow> 'w \<Rightarrow> (string, document) pydict \<Rightarrow> cluster_report \<Rightarrow> 'w \<times> cluster_report option" where
  "reconcile_cluster pv cluster w [] rep = (w, Some rep)"
| "reconcile_cluster pv cluster w ((name, schema) # schemas) rep =
     (case pv_retrieve_collection pv w cluster name of
        ProviderDone \<Rightarrow> reconcile_cluster pv cluster w schemas (rep\<lparr>report_existing := report_existing rep @ [name]\<rparr>)
      | ProviderMissing \<Rightarrow>
          (case pv_create_collection pv w cluster schema of
             (w1, ProviderDone) \<Rightarrow> reconcile_cluster pv cluster w1 schemas (rep\<lparr>report_created := report_created rep @ [name]\<rparr>)
           | (w1, ProviderExists) \<Rightarrow> reconcile_cluster pv cluster w1 schemas (rep\<lparr>report_existing := report_existing rep @ [name]\<rparr>)
           | (w1, _) \<Rightarrow> (w1, None))
      | _ \<Rightarrow> (w, None))"

fun reconcile_clusters :: "'w typesense \<Rightarrow> string list \<Rightarrow> (string, document) pydict \<Rightarrow> 'w \<Rightarrow> 'w \<times> (string, cluster_report) pydict option" where
  "reconcile_clusters pv [] schemas w = (w, Some [])"
| "reconcile_clusters pv (cluster # clusters) schemas w =
     (case reconcile_cluster pv cluster w schemas empty_report of
        (w1, None) \<Rightarrow> (w1, None)
      | (w1, Some rep) \<Rightarrow>
          (let (w2, reports) = reconcile_clusters pv clusters schemas w1 in (w2, map_option ((#) (cluster, rep)) reports)))"

definition reconcile_collection_schemas :: "'w typesense \<Rightarrow> FederationRuntime \<Rightarrow> 'w \<Rightarrow> 'w \<times> (string, cluster_report) pydict option" where
  "reconcile_collection_schemas pv rt w = reconcile_clusters pv (clients rt) (collection_schemas rt) w"

section \<open>Calls on every cluster\<close>

text \<open>
  \<open>asyncio.gather\<close>: every cluster is called, whatever the others answer; the replies that count as
  failures are collected. The order of the concurrent calls is the order of the clients.
\<close>

fun on_every_cluster :: "('w \<Rightarrow> string \<Rightarrow> 'w \<times> provider_reply) \<Rightarrow> provider_reply set \<Rightarrow> 'w \<Rightarrow> string list \<Rightarrow> 'w \<times> nat" where
  "on_every_cluster call accepted w [] = (w, 0)"
| "on_every_cluster call accepted w (cluster # clusters) =
     (let (w1, reply) = call w cluster;
          (w2, failures) = on_every_cluster call accepted w1 clusters in
      (w2, if reply \<in> accepted then failures else failures + 1))"

definition create_on_clusters :: "'w typesense \<Rightarrow> document \<Rightarrow> 'w \<Rightarrow> string list \<Rightarrow> 'w \<times> nat" where
  "create_on_clusters pv schema w clusters =
     on_every_cluster (\<lambda>w cluster. pv_create_collection pv w cluster schema) {ProviderDone, ProviderExists} w clusters"

definition delete_on_clusters :: "'w typesense \<Rightarrow> string \<Rightarrow> 'w \<Rightarrow> string list \<Rightarrow> 'w \<times> nat" where
  "delete_on_clusters pv coll w clusters =
     on_every_cluster (\<lambda>w cluster. pv_delete_collection pv w cluster coll) {ProviderDone, ProviderMissing} w clusters"

section \<open>Aliases\<close>

fun upsert_aliases :: "'w typesense \<Rightarrow> string \<Rightarrow> 'w \<Rightarrow> (string, document) pydict \<Rightarrow> 'w \<times> bool" where
  "upsert_aliases pv cluster w [] = (w, True)"
| "upsert_aliases pv cluster w ((alias, config) # aliases) =
     (case pv_upsert_alias pv w cluster alias (text_or config ''collection_name'' []) of
        (w1, ProviderDone) \<Rightarrow> upsert_aliases pv cluster w1 aliases
      | (w1, _) \<Rightarrow> (w1, False))"

fun restore_aliases :: "'w typesense \<Rightarrow> FederationRuntime \<Rightarrow> 'w \<Rightarrow> (string, (string, document) pydict) pydict \<Rightarrow> 'w \<times> bool" where
  "restore_aliases pv rt w [] = (w, True)"
| "restore_aliases pv rt w ((cluster, aliases) # rest) =
     (case resolve_cluster_name rt cluster of
        None \<Rightarrow> (w, False)
      | Some c \<Rightarrow>
          (case upsert_aliases pv c w aliases of
             (w1, True) \<Rightarrow> restore_aliases pv rt w1 rest
           | (w1, False) \<Rightarrow> (w1, False)))"

section \<open>What the reports say\<close>

lemma reconcile_cluster_report:
  "reconcile_cluster pv cluster w schemas rep = (w', Some rep') \<Longrightarrow>
     set (report_existing rep') \<union> set (report_created rep') =
       set (report_existing rep) \<union> set (report_created rep) \<union> set (dkeys schemas)"
proof (induction pv cluster w schemas rep rule: reconcile_cluster.induct)
  case (2 pv cluster w name schema schemas rep)
  show ?case
  proof (cases "pv_retrieve_collection pv w cluster name")
    case ProviderMissing
    obtain w1 reply where create: "pv_create_collection pv w cluster schema = (w1, reply)" by fastforce
    show ?thesis using 2 ProviderMissing create by (cases reply) auto
  qed (use 2 in auto)
qed auto

lemma reconcile_clusters_report:
  assumes "reconcile_clusters pv clusters schemas w = (w', Some reports)"
  shows "dkeys reports = clusters \<and> (\<forall>(c, rep) \<in> set reports.
    set (report_existing rep) \<union> set (report_created rep) = set (dkeys schemas))"
  using assms
proof (induction clusters arbitrary: w reports)
  case (Cons cluster clusters)
  from Cons.prems obtain w1 rep rest where
    rep: "reconcile_cluster pv cluster w schemas empty_report = (w1, Some rep)" and
    rest: "reconcile_clusters pv clusters schemas w1 = (w', Some rest)" and "reports = (cluster, rep) # rest"
    by (auto split: prod.splits option.splits)
  with Cons.IH [OF rest] reconcile_cluster_report [OF rep] show ?case
    by (simp add: empty_report_def)
qed simp

text \<open>A call counted as a failure is answered by a reply that the code does not accept.\<close>

lemma on_every_cluster_failures:
  "snd (on_every_cluster call accepted w clusters) = 0 \<Longrightarrow> (\<And>w c. snd (call w c) \<in> accepted \<Longrightarrow> P (fst (call w c)) c)
    \<Longrightarrow> (\<And>w c d. P w c \<Longrightarrow> P (fst (call w d)) c) \<Longrightarrow> \<forall>c \<in> set clusters. P (fst (on_every_cluster call accepted w clusters)) c"
proof (induction clusters arbitrary: w)
  case (Cons cluster clusters)
  obtain w1 reply where call: "call w cluster = (w1, reply)" by fastforce
  obtain w2 n where rest: "on_every_cluster call accepted w1 clusters = (w2, n)" by fastforce
  have "reply \<in> accepted" "n = 0" using Cons.prems(1) call rest by (simp_all split: if_splits)
  then have "P w1 cluster" using Cons.prems(2) [of w cluster] call by simp
  have kept: "P w c \<Longrightarrow> P (fst (on_every_cluster call accepted w clusters)) c" for w c
    by (induction clusters arbitrary: w) (auto simp: split_beta Let_def intro: Cons.prems(3))
  have "\<forall>c \<in> set clusters. P (fst (on_every_cluster call accepted w1 clusters)) c"
    using Cons.IH [of w1] Cons.prems(2,3) rest \<open>n = 0\<close> by simp
  with kept [OF \<open>P w1 cluster\<close>] show ?case using call rest by simp
qed simp

end
