(* ===== verification/Schemas.thy ===== *)
theory Schemas
  imports Federation
begin

text \<open>
  \<open>query_api/app/models/schemas.py\<close>: the request models of the control plane. A record holds
  what pydantic has read with the declared types; an optional field that was not given is
  \<open>None\<close>. The constraints and the validators of each model are a bool-valued function, and
  \<open>model_dump\<close> is a document. \<open>RoutingRules\<close> is what the federation of \<open>Federation\<close> runs:
  \<open>validated_rule_meaning\<close> relates the two.
\<close>

section \<open>Names\<close>

definition name_ok :: "string \<Rightarrow> bool" where
  "name_ok s \<longleftrightarrow> s \<noteq> [] \<and> list_all (\<lambda>c. is_alnum c \<or> c = CHR ''_'' \<or> c = CHR ''-'') s"

definition field_name_ok :: "string \<Rightarrow> bool" where
  "field_name_ok s \<longleftrightarrow> s \<noteq> [] \<and> list_all (\<lambda>c. is_alnum c \<or> c = CHR ''_'' \<or> c = CHR ''.'' \<or> c = CHR ''-'') s"

section \<open>Clusters\<close>

record Cluster =
  cl_name :: string
  cl_protocol :: string
  cl_host :: string
  cl_port :: int
  cl_api_key_ref :: "string option"
  cl_api_key :: string

definition cluster_ref :: "Cluster \<Rightarrow> string" where
  "cluster_ref c = (case cl_api_key_ref c of None \<Rightarrow> [] | Some r \<Rightarrow> r)"

definition cluster_ok :: "Cluster \<Rightarrow> bool" where
  "cluster_ok c \<longleftrightarrow> name_ok (cl_name c) \<and> cl_protocol c \<in> {''http'', ''https''} \<and>
     1 \<le> cl_port c \<and> cl_port c \<le> 65535 \<and>
     (case cl_api_key_ref c of None \<Rightarrow> True | Some r \<Rightarrow> 1 \<le> length r \<and> length r \<le> 1024) \<and>
     (cluster_ref c \<noteq> []) \<noteq> (cl_api_key c \<noteq> [])"

section \<open>Collections\<close>

definition TYPESENSE_FIELD_TYPES :: "string list" where
  "TYPESENSE_FIELD_TYPES = [''string'', ''int32'', ''int64'', ''float'', ''bool'', ''string[]'', ''int32[]'', ''int64[]'',
     ''float[]'', ''bool[]'', ''geopoint'', ''geopoint[]'', ''object'', ''object[]'', ''auto'']"

definition DEFAULT_SORTING_TYPES :: "string list" where
  "DEFAULT_SORTING_TYPES = [''int32'', ''int64'', ''float'']"

record CollectionField =
  cf_name :: string
  cf_type :: string
  cf_facet :: bool
  cf_num_dim :: "int option"
  cf_embed :: "document option"

definition validate_collection_field :: "CollectionField \<Rightarrow> CollectionField option" where
  "validate_collection_field f =
     (let kind = strip (cf_type f) in
      if \<not> field_name_ok (cf_name f) then None
      else if kind \<notin> set TYPESENSE_FIELD_TYPES then None
      else if (case cf_num_dim f of None \<Rightarrow> False | Some n \<Rightarrow> n < 1) then None
      else if cf_num_dim f \<noteq> None \<and> kind \<noteq> ''float[]'' then None
      else if cf_embed f \<noteq> None \<and> kind \<noteq> ''float[]'' then None
      else Some (f\<lparr>cf_type := kind\<rparr>))"

record CollectionSchema =
  cs_name :: string
  cs_fields :: "CollectionField list"
  cs_default_sorting_field :: "string option"

definition sorting_field_ok :: "CollectionField list \<Rightarrow> string option \<Rightarrow> bool" where
  "sorting_field_ok fs sorting =
     (case sorting of
        None \<Rightarrow> True
      | Some name \<Rightarrow> name = [] \<or>
          (case dget (rev (map (\<lambda>f. (cf_name f, f)) fs)) name of
             None \<Rightarrow> False | Some f \<Rightarrow> cf_type f \<in> set DEFAULT_SORTING_TYPES))"

fun validate_fields :: "CollectionField list \<Rightarrow> CollectionField list option" where
  "validate_fields [] = Some []"
| "validate_fields (f # fs) =
     (case validate_collection_field f of None \<Rightarrow> None | Some g \<Rightarrow> map_option ((#) g) (validate_fields fs))"

definition validate_collection_schema :: "CollectionSchema \<Rightarrow> CollectionSchema option" where
  "validate_collection_schema s =
     (if \<not> name_ok (cs_name s) \<or> cs_fields s = [] then None
      else case validate_fields (cs_fields s) of
        None \<Rightarrow> None
      | Some fs \<Rightarrow> if sorting_field_ok fs (cs_default_sorting_field s) then Some (s\<lparr>cs_fields := fs\<rparr>) else None)"

text \<open>\<open>model_dump(exclude_none=True)\<close>.\<close>

definition some_entry :: "string \<Rightarrow> ('a \<Rightarrow> json) \<Rightarrow> 'a option \<Rightarrow> document" where
  "some_entry k f v = (case v of None \<Rightarrow> [] | Some x \<Rightarrow> [(k, f x)])"

definition field_payload :: "CollectionField \<Rightarrow> document" where
  "field_payload f = [(''name'', JStr (cf_name f)), (''type'', JStr (cf_type f)), (''facet'', JBool (cf_facet f))] @
     some_entry ''num_dim'' JInt (cf_num_dim f) @ some_entry ''embed'' JObj (cf_embed f)"

definition schema_payload :: "CollectionSchema \<Rightarrow> document" where
  "schema_payload s = [(''name'', JStr (cs_name s)), (''fields'', JArr (map (JObj \<circ> field_payload) (cs_fields s)))] @
     some_entry ''default_sorting_field'' JStr (cs_default_sorting_field s)"

section \<open>Routing rules\<close>

record FieldRule =
  fr_field :: string
  fr_operator :: string
  fr_value :: "string option"
  fr_values :: "string list option"
  fr_pattern :: "string option"
  fr_min :: "pyfloat option"
  fr_max :: "pyfloat option"
  fr_priority :: "int option"
  fr_cluster :: "string option"
  fr_clusters :: "string list option"

definition text_or_none :: "string option \<Rightarrow> string" where
  "text_or_none v = (case v of None \<Rightarrow> [] | Some s \<Rightarrow> s)"

definition field_rule_ok :: "FieldRule \<Rightarrow> bool" where
  "field_rule_ok r \<longleftrightarrow>
     field_name_ok (fr_field r) \<and> fr_operator r \<in> {''equals'', ''in'', ''glob'', ''range''} \<and>
     (case fr_priority r of None \<Rightarrow> True | Some p \<Rightarrow> 0 \<le> p) \<and>
     (case fr_cluster r of None \<Rightarrow> True | Some c \<Rightarrow> name_ok c) \<and>
     (case fr_clusters r of None \<Rightarrow> True | Some cs \<Rightarrow> list_all name_ok cs) \<and>
     (fr_cluster r = None) \<noteq> (fr_clusters r = None) \<and> fr_clusters r \<noteq> Some [] \<and>
     (fr_operator r = ''equals'' \<longrightarrow> fr_value r \<noteq> None) \<and>
     (fr_operator r = ''in'' \<longrightarrow> fr_values r \<noteq> None \<and> fr_values r \<noteq> Some []) \<and>
     (fr_operator r = ''glob'' \<longrightarrow> text_or_none (fr_pattern r) \<noteq> [] \<or> text_or_none (fr_value r) \<noteq> []) \<and>
     (fr_operator r = ''range'' \<longrightarrow> fr_min r \<noteq> None \<or> fr_max r \<noteq> None) \<and>
     (fr_operator r = ''range'' \<longrightarrow> (case (fr_min r, fr_max r) of (Some a, Some b) \<Rightarrow> \<not> pf_less b a | _ \<Rightarrow> True))"

record RoutingRules =
  ru_collection :: string
  ru_rules :: "FieldRule list"
  ru_default_cluster :: string

definition routing_rules_ok :: "RoutingRules \<Rightarrow> bool" where
  "routing_rules_ok p \<longleftrightarrow> name_ok (ru_collection p) \<and> list_all field_rule_ok (ru_rules p) \<and> name_ok (ru_default_cluster p)"

text \<open>\<open>model_dump(exclude_none=True, exclude_defaults=True)\<close>.\<close>

definition rule_payload :: "FieldRule \<Rightarrow> document" where
  "rule_payload r = [(''field'', JStr (fr_field r))] @
     (if fr_operator r = ''equals'' then [] else [(''operator'', JStr (fr_operator r))]) @
     some_entry ''value'' JStr (fr_value r) @
     some_entry ''values'' (\<lambda>vs. JArr (map JStr vs)) (fr_values r) @
     some_entry ''pattern'' JStr (fr_pattern r) @
     some_entry ''min'' JFloat (fr_min r) @ some_entry ''max'' JFloat (fr_max r) @
     some_entry ''priority'' JInt (fr_priority r) @
     some_entry ''cluster'' JStr (fr_cluster r) @
     some_entry ''clusters'' (\<lambda>cs. JArr (map JStr cs)) (fr_clusters r)"

definition policy_payload :: "RoutingRules \<Rightarrow> document" where
  "policy_payload p = [(''collection'', JStr (ru_collection p))] @
     (if ru_rules p = [] then [] else [(''rules'', JArr (map (JObj \<circ> rule_payload) (ru_rules p)))]) @
     (if ru_default_cluster p = ''default'' then [] else [(''default_cluster'', JStr (ru_default_cluster p))])"

section \<open>What a validated rule means\<close>

definition given_targets :: "FieldRule \<Rightarrow> string list" where
  "given_targets r = (case fr_clusters r of Some cs \<Rightarrow> cs | None \<Rightarrow> (case fr_cluster r of Some c \<Rightarrow> [c] | None \<Rightarrow> []))"

text \<open>The rule as the documentation of \<open>FieldRule\<close> reads, on the value of its field.\<close>

definition rule_holds :: "(json \<Rightarrow> string) \<Rightarrow> (json \<Rightarrow> pyfloat option) \<Rightarrow> FieldRule \<Rightarrow> json \<Rightarrow> bool" where
  "rule_holds repr_of py_float r v \<longleftrightarrow> v \<noteq> JNull \<and>
     (if fr_operator r = ''equals'' then py_str repr_of v = text_or_none (fr_value r)
      else if fr_operator r = ''in'' then (\<exists>w \<in> set (case fr_values r of Some ws \<Rightarrow> ws | None \<Rightarrow> []). py_str repr_of v = w)
      else if fr_operator r = ''glob'' then
        fnmatch (py_str repr_of v) (if text_or_none (fr_pattern r) \<noteq> [] then text_or_none (fr_pattern r) else text_or_none (fr_value r))
      else (case numeric_value py_float v of
          None \<Rightarrow> False
        | Some x \<Rightarrow> (case fr_min r of None \<Rightarrow> True | Some a \<Rightarrow> \<not> pf_less x a) \<and>
                    (case fr_max r of None \<Rightarrow> True | Some b \<Rightarrow> \<not> pf_less b x)))"

lemma dget_some_entry: "dget (some_entry k f v) k' = (if k' = k then map_option f v else None)"
  by (simp add: some_entry_def split: option.split)

lemma jget_rule_payload:
  "jget (rule_payload r) ''field'' = JStr (fr_field r)"
  "jget (rule_payload r) ''operator'' = (if fr_operator r = ''equals'' then JNull else JStr (fr_operator r))"
  "jget (rule_payload r) ''value'' = (case fr_value r of None \<Rightarrow> JNull | Some s \<Rightarrow> JStr s)"
  "jget (rule_payload r) ''values'' = (case fr_values r of None \<Rightarrow> JNull | Some vs \<Rightarrow> JArr (map JStr vs))"
  "jget (rule_payload r) ''pattern'' = (case fr_pattern r of None \<Rightarrow> JNull | Some s \<Rightarrow> JStr s)"
  "jget (rule_payload r) ''min'' = (case fr_min r of None \<Rightarrow> JNull | Some x \<Rightarrow> JFloat x)"
  "jget (rule_payload r) ''max'' = (case fr_max r of None \<Rightarrow> JNull | Some x \<Rightarrow> JFloat x)"
  "jget (rule_payload r) ''priority'' = (case fr_priority r of None \<Rightarrow> JNull | Some p \<Rightarrow> JInt p)"
  "jget (rule_payload r) ''cluster'' = (case fr_cluster r of None \<Rightarrow> JNull | Some c \<Rightarrow> JStr c)"
  "jget (rule_payload r) ''clusters'' = (case fr_clusters r of None \<Rightarrow> JNull | Some cs \<Rightarrow> JArr (map JStr cs))"
  by (simp_all add: jget_def rule_payload_def map_add_def dget_some_entry split: option.split)

lemma operator_of_payload:
  assumes "field_rule_ok r"
  shows "rule_operator repr_of (rule_payload r) = fr_operator r"
proof -
  from assms have "fr_operator r \<in> {''equals'', ''in'', ''glob'', ''range''}" by (simp add: field_rule_ok_def)
  moreover have "lower (strip ''equals'') = ''equals''" "lower (strip ''in'') = ''in''"
      "lower (strip ''glob'') = ''glob''" "lower (strip ''range'') = ''range''" by code_simp+
  ultimately show ?thesis
    by (auto simp: rule_operator_def jget_rule_payload Let_def)
qed

lemma targets_of_payload:
  assumes "field_rule_ok r"
  shows "rule_targets repr_of (rule_payload r) = given_targets r \<and> given_targets r \<noteq> []"
proof -
  have "filter truthy (map JStr cs) = map JStr cs" if "list_all name_ok cs" for cs
    using that by (induction cs) (auto simp: name_ok_def)
  with assms show ?thesis
    by (cases "fr_clusters r"; cases "fr_cluster r")
      (auto simp: field_rule_ok_def rule_targets_def jget_rule_payload given_targets_def Let_def comp_def name_ok_def)
qed

text \<open>
  C16. A routing rule that the request model accepts means in the federation what it says: the
  document that is stored for it (defaults left out) matches exactly the documents whose field
  satisfies the operator of the rule, and names exactly its target clusters, at least one.
\<close>

theorem validated_rule_meaning:
  assumes "field_rule_ok r" and "\<And>x. py_float (JFloat x) = Some x" and "py_float JNull = None"
  shows "rule_matches repr_of py_float (rule_payload r) doc =
      rule_holds repr_of py_float r (document_value doc (fr_field r)) \<and>
    rule_targets repr_of (rule_payload r) = given_targets r \<and> given_targets r \<noteq> []"
proof -
  let ?v = "document_value doc (fr_field r)"
  have field: "rule_field repr_of (rule_payload r) = fr_field r"
    by (simp add: rule_field_def rule_payload_def)
  have operators: "fr_operator r \<in> {''equals'', ''in'', ''glob'', ''range''}"
    using assms(1) by (simp add: field_rule_ok_def)
  have num: "numeric_value py_float (JFloat x) = Some x" for x by (simp add: numeric_value_def assms(2))
  have num_null: "numeric_value py_float JNull = None" by (simp add: numeric_value_def assms(3))
  note matches = rule_matches_def rule_holds_def operator_of_payload [OF assms(1)] field jget_rule_payload Let_def
  have "fr_operator r = ''equals'' \<Longrightarrow> fr_value r \<noteq> None" "fr_operator r = ''glob'' \<Longrightarrow>
      text_or_none (fr_pattern r) \<noteq> [] \<or> text_or_none (fr_value r) \<noteq> []"
      "fr_operator r = ''range'' \<Longrightarrow> fr_min r \<noteq> None \<or> fr_max r \<noteq> None"
    using assms(1) by (simp_all only: field_rule_ok_def) blast+
  note given = this
  consider "fr_operator r = ''equals''" | "fr_operator r = ''in''" | "fr_operator r = ''glob''" | "fr_operator r = ''range''"
    using operators by blast
  then have "rule_matches repr_of py_float (rule_payload r) doc = rule_holds repr_of py_float r ?v"
  proof cases
    case 1
    with given(1) show ?thesis by (cases "fr_value r") (simp_all add: matches text_or_none_def)
  next
    case 2
    then show ?thesis by (cases "fr_values r") (auto simp: matches rule_values_def)
  next
    case 3
    with given(2) show ?thesis
      by (cases "fr_pattern r"; cases "fr_value r") (simp_all add: matches text_or_none_def)
  next
    case 4
    with given(3) show ?thesis
      by (cases "fr_min r"; cases "fr_max r") (simp_all add: matches range_matches_def num num_null split: option.splits)
  qed
  with targets_of_payload [OF assms(1)] show ?thesis by simp
qed

definition sample_rule :: FieldRule where
  "sample_rule = \<lparr>fr_field = ''kind'', fr_operator = ''glob'', fr_value = None, fr_values = None, fr_pattern = Some ''b*'',
     fr_min = None, fr_max = None, fr_priority = None, fr_cluster = Some ''a'', fr_clusters = None\<rparr>"

definition float_only :: "json \<Rightarrow> pyfloat option" where
  "float_only v = (case v of JFloat x \<Rightarrow> Some x | _ \<Rightarrow> None)"

lemma sample_rule_ok: "field_rule_ok sample_rule"
  by code_simp

theorem validated_rule_meaning_witness:
  "rule_matches (\<lambda>_. []) float_only (rule_payload sample_rule) [(''kind'', JStr ''book'')] \<and>
   rule_targets (\<lambda>_. []) (rule_payload sample_rule) = [''a'']"
proof -
  have "rule_holds (\<lambda>_. []) float_only sample_rule (document_value [(''kind'', JStr ''book'')] (fr_field sample_rule))"
    and "given_targets sample_rule = [''a'']" by code_simp+
  with validated_rule_meaning [OF sample_rule_ok, of float_only "\<lambda>_. []" "[(''kind'', JStr ''book'')]"]
  show ?thesis by (simp add: float_only_def)
qed

section \<open>Validating twice\<close>

lemma known_type_stripped: "kind \<in> set TYPESENSE_FIELD_TYPES \<Longrightarrow> strip kind = kind"
proof -
  have "list_all (\<lambda>kind. strip kind = kind) TYPESENSE_FIELD_TYPES" by code_simp
  then show "kind \<in> set TYPESENSE_FIELD_TYPES \<Longrightarrow> strip kind = kind" by (simp add: list_all_iff)
qed

lemma validated_field_again: "validate_collection_field f = Some g \<Longrightarrow> validate_collection_field g = Some g"
  by (auto simp: validate_collection_field_def Let_def known_type_stripped split: if_splits)

lemma validated_fields_again: "validate_fields fs = Some gs \<Longrightarrow> validate_fields gs = Some gs"
  by (induction fs arbitrary: gs) (auto split: option.splits simp: validated_field_again)

text \<open>A schema that was accepted, as it is stored, is accepted again unchanged.\<close>

lemma validated_schema_again:
  assumes "validate_collection_schema s = Some t"
  shows "validate_collection_schema t = Some t"
proof -
  from assms obtain fs where "validate_fields (cs_fields s) = Some fs" and t: "t = s\<lparr>cs_fields := fs\<rparr>"
    and "name_ok (cs_name s)" "cs_fields s \<noteq> []" "sorting_field_ok fs (cs_default_sorting_field s)"
    by (auto simp: validate_collection_schema_def split: if_splits option.splits)
  moreover from calculation have "fs \<noteq> []" by (cases "cs_fields s") (auto split: option.splits)
  ultimately show ?thesis by (simp add: validate_collection_schema_def validated_fields_again)
qed

end
