(* ===== verification/AdminMutations.thy ===== *)
theory AdminMutations
  imports StateSync Provider Schemas Tenancy
begin

text \<open>
  The handlers of \<open>query_api/app/routers/admin.py\<close> that change the control plane: clusters,
  collections, aliases and routing rules. A handler runs on one replica over the shared store: it
  fences the request by revision, changes the runtime of the federation, persists it under
  compare-and-set with its audit event, announces the change and only then calls the clusters.
  A request carries what its handler reads of it; \<open>aq_env\<close> numbers the clock and the ids of
  its transactions. The transactional store is modelled (\<open>state_manager.transactional\<close>).
\<close>

section \<open>Environment and request\<close>

record ('w, 'p) admin_env =
  av_settings :: authz_settings
  av_open_admin :: bool
  av_sha :: "string \<Rightarrow> string"
  av_int :: "string \<Rightarrow> int option"
  av_replica :: replica_env
  av_ask :: "'p \<Rightarrow> string \<Rightarrow> secret_error + string"
  av_resolver :: "'p resolver"
  av_allow_inline :: bool
  av_reachable :: "string \<Rightarrow> int \<Rightarrow> string \<Rightarrow> string \<Rightarrow> bool"
  av_provider :: "'w typesense"
  av_source_id :: string
  av_redis_up :: bool

record admin_request =
  aq_if_match :: string
  aq_auth_actor :: "string option"
  aq_api_key :: string
  aq_authorization :: string
  aq_request_id :: string
  aq_env :: "nat \<Rightarrow> call_env"

record ('s, 'w) admin =
  ad_store :: 's
  ad_replica :: Replica
  ad_provider :: 'w
  ad_sent :: "document list"

abbreviation ad_manager :: "('s, 'w) admin \<Rightarrow> StateManager" where
  "ad_manager st \<equiv> rp_manager (ad_replica st)"

abbreviation ad_federation :: "('s, 'w) admin \<Rightarrow> FederationRuntime" where
  "ad_federation st \<equiv> rp_federation (ad_replica st)"

abbreviation ad_profile :: "('w, 'p) admin_env \<Rightarrow> string" where
  "ad_profile env \<equiv> st_deployment_profile (av_settings env)"

text \<open>A handler in sequence: the first exception ends it in the state it left.\<close>

definition sbind :: "'x \<times> ('e + 'a) \<Rightarrow> ('a \<Rightarrow> 'x \<Rightarrow> 'x \<times> ('e + 'b)) \<Rightarrow> 'x \<times> ('e + 'b)" where
  "sbind m k = (case m of (st, Raise e) \<Rightarrow> (st, Raise e) | (st, Ok x) \<Rightarrow> k x st)"

lemma sbind_simps [simp]:
  "sbind (st, Raise e) k = (st, Raise e)" "sbind (st, Ok x) k = k x st"
  by (simp_all add: sbind_def)

section \<open>Actor and revision\<close>

definition admin_actor :: "('w, 'p) admin_env \<Rightarrow> admin_request \<Rightarrow> string" where
  "admin_actor env rq =
     (case aq_auth_actor rq of
        Some a \<Rightarrow> a
      | None \<Rightarrow>
          (let bearer = ''Bearer '';
               provided = (if aq_api_key rq = [] \<and> take 7 (aq_authorization rq) = bearer
                 then strip (drop 7 (aq_authorization rq)) else aq_api_key rq) in
           if provided \<noteq> [] then ''api_key:'' @ take 12 (av_sha env provided)
           else if av_open_admin env then ''unauthenticated-dev'' else ''unknown''))"

definition strip_quotes :: "string \<Rightarrow> string" where
  "strip_quotes s = rev (dropWhile (\<lambda>c. c = CHR 0x22) (rev (dropWhile (\<lambda>c. c = CHR 0x22) s)))"

definition expected_revision :: "('w, 'p) admin_env \<Rightarrow> admin_request \<Rightarrow> StateManager \<Rightarrow> http_error + int" where
  "expected_revision env rq mgr =
     (let given = strip (aq_if_match rq);
          opaque = (if take 2 given = ''W/'' then strip (drop 2 given) else given) in
      if given = [] then
        (if ad_profile env = ''enterprise'' then Raise (Http 428 ''If-Match with the current control-plane revision is required'')
         else Ok (sm_current_revision mgr))
      else case av_int env (strip_quotes opaque) of
        None \<Rightarrow> Raise (Http 400 ''If-Match must contain a revision'')
      | Some r \<Rightarrow>
          if r < 0 then Raise (Http 400 ''If-Match revision must be non-negative'')
          else if r \<noteq> sm_current_revision mgr then Raise (Http 409 ''control_plane_revision_conflict'')
          else Ok r)"

lemma expected_revision_current: "expected_revision env rq mgr = Ok r \<Longrightarrow> r = sm_current_revision mgr"
  by (auto simp: expected_revision_def Let_def split: if_splits option.splits)

section \<open>Persisting a change\<close>

record admin_change =
  ac_action :: string
  ac_resource_type :: string
  ac_resource_id :: string
  ac_details :: document
  ac_event_type :: "string option"

definition change_request :: "('w, 'p) admin_env \<Rightarrow> admin_request \<Rightarrow> admin_change \<Rightarrow> int \<Rightarrow> save_request" where
  "change_request env rq ch expected =
     \<lparr>sr_audit = Some \<lparr>ae_actor = admin_actor env rq, ae_action = ac_action ch, ae_resource_type = ac_resource_type ch,
        ae_resource_id = ac_resource_id ch, ae_status = ''success'', ae_request_id = aq_request_id rq,
        ae_details = ac_details ch\<rparr>,
      sr_event_type = (case ac_event_type ch of Some t \<Rightarrow> t | None \<Rightarrow> ac_action ch),
      sr_event_payload = [(''action'', JStr (ac_action ch)), (''resource_type'', JStr (ac_resource_type ch)),
        (''resource_id'', JStr (ac_resource_id ch))],
      sr_expected = Some expected\<rparr>"

definition persist_state :: "'s store_api \<Rightarrow> ('w, 'p) admin_env \<Rightarrow> admin_request \<Rightarrow> nat \<Rightarrow> ('s, 'w) admin
    \<Rightarrow> FederationRuntime \<Rightarrow> admin_change \<Rightarrow> int \<Rightarrow> ('s, 'w) admin \<times> (http_error + int)" where
  "persist_state api env rq i st snapshot ch expected =
     (let rt = ad_federation st;
          restored = st\<lparr>ad_replica := (ad_replica st)\<lparr>rp_federation := snapshot\<rparr>\<rparr> in
      case save_state api (re_check (av_replica env)) (ad_store st) (ad_manager st) (aq_env rq i) (desired_state rt)
          (if routing_rollouts rt = [] then None else Some (routing_rollouts rt)) (change_request env rq ch expected) of
        (s, mgr, Raise (RevisionConflict _ _)) \<Rightarrow> (restored, Raise (Http 409 ''control_plane_revision_conflict''))
      | (s, mgr, Raise _) \<Rightarrow> (st, Raise (Unhandled ''SecretResolutionError''))
      | (s, mgr, Ok False) \<Rightarrow> (restored, Raise (Http 500 ''Configuration could not be persisted''))
      | (s, mgr, Ok True) \<Rightarrow>
          (case mark_applied_revision rt (sm_current_revision mgr) of
             Raise _ \<Rightarrow> (st\<lparr>ad_store := s, ad_replica := \<lparr>rp_manager = mgr, rp_federation = rt\<rparr>\<rparr>, Raise (Unhandled ''ValueError''))
           | Ok rt' \<Rightarrow> (st\<lparr>ad_store := s, ad_replica := \<lparr>rp_manager = mgr, rp_federation = rt'\<rparr>\<rparr>, Ok (sm_current_revision mgr))))"

definition notify_config_change :: "('w, 'p) admin_env \<Rightarrow> string \<Rightarrow> int \<Rightarrow> ('s, 'w) admin \<Rightarrow> ('s, 'w) admin" where
  "notify_config_change env change_type revision st =
     (if av_redis_up env then st\<lparr>ad_sent := ad_sent st @ [change_message (av_source_id env) None change_type (Some revision)]\<rparr>
      else st)"

text \<open>
  The middle of every handler: with the snapshot taken, the changed runtime is installed,
  persisted and announced.
\<close>

definition commit_change :: "'s store_api \<Rightarrow> ('w, 'p) admin_env \<Rightarrow> admin_request \<Rightarrow> nat \<Rightarrow> ('s, 'w) admin
    \<Rightarrow> FederationRuntime \<Rightarrow> admin_change \<Rightarrow> int \<Rightarrow> string \<Rightarrow> ('s, 'w) admin \<times> (http_error + int)" where
  "commit_change api env rq i st changed ch expected change_type =
     sbind (persist_state api env rq i (st\<lparr>ad_replica := (ad_replica st)\<lparr>rp_federation := changed\<rparr>\<rparr>) (ad_federation st) ch expected)
       (\<lambda>revision st1. (notify_config_change env change_type revision st1, Ok revision))"

text \<open>\<open>except ValueError\<close> around the change.\<close>

definition value_error_as :: "nat \<Rightarrow> 'x \<times> (http_error + 'a) \<Rightarrow> 'x \<times> (http_error + 'a)" where
  "value_error_as code m = (case m of
     (st, Raise e) \<Rightarrow> (st, Raise (if e = Unhandled ''ValueError'' then Http code ''ValueError'' else e)) | ok \<Rightarrow> ok)"

section \<open>Clusters\<close>

definition register_cluster_handler :: "'s store_api \<Rightarrow> ('w, 'p) admin_env \<Rightarrow> admin_request \<Rightarrow> Cluster \<Rightarrow> ('s, 'w) admin
    \<Rightarrow> ('s, 'w) admin \<times> (http_error + int)" where
  "register_cluster_handler api env rq c st =
     (if cl_api_key c \<noteq> [] \<and> ad_profile env \<noteq> ''development''
      then (st, Raise (Http 400 ''Inline cluster API keys are allowed only in the development profile''))
      else case expected_revision env rq (ad_manager st) of
        Raise e \<Rightarrow> (st, Raise e)
      | Ok expected \<Rightarrow>
        (case register_cluster (re_repr (av_replica env)) (av_ask env) (av_resolver env) (av_allow_inline env)
            (av_reachable env) (ad_federation st) (cl_name c) (cl_host c) (cl_port c) (Some (cl_api_key c))
            (JStr (cl_protocol c)) (if cluster_ref c = [] then None else Some (cluster_ref c)) of
           Raise (SecretError e) \<Rightarrow> (st, Raise (Http 400 ''secret''))
         | Raise e \<Rightarrow> (st, Raise (Http 409 ''cluster''))
         | Ok changed \<Rightarrow>
             sbind (commit_change api env rq 0 st changed
               \<lparr>ac_action = ''cluster_registered'', ac_resource_type = ''cluster'', ac_resource_id = cl_name c,
                ac_details = [(''host'', JStr (cl_host c)), (''port'', JInt (cl_port c)), (''protocol'', JStr (cl_protocol c)),
                  (''collections_desired'', JInt (int (length (collection_schemas changed))))],
                ac_event_type = None\<rparr> expected (''cluster_registered:'' @ cl_name c))
             (\<lambda>revision st1.
               (case backfill_collection_schemas (av_provider env) (ad_federation st1) (cl_name c) (ad_provider st1) of
                  (w, Some _) \<Rightarrow> (st1\<lparr>ad_provider := w\<rparr>, Ok revision)
                | (w, None) \<Rightarrow> (st1\<lparr>ad_provider := w\<rparr>, Raise (Http 503 ''cluster_reconciliation_pending''))))))"

definition delete_cluster_handler :: "'s store_api \<Rightarrow> ('w, 'p) admin_env \<Rightarrow> admin_request \<Rightarrow> string \<Rightarrow> ('s, 'w) admin
    \<Rightarrow> ('s, 'w) admin \<times> (http_error + int)" where
  "delete_cluster_handler api env rq name st =
     (if name = ''default'' then (st, Raise (Http 400 ''Cannot delete the default cluster.''))
      else case expected_revision env rq (ad_manager st) of
        Raise e \<Rightarrow> (st, Raise e)
      | Ok expected \<Rightarrow>
        (case unregister_cluster (ad_federation st) name of
           Raise ClusterNotFound \<Rightarrow> (st, Raise (Http 404 ''not found''))
         | Raise e \<Rightarrow> (st, Raise (Http 400 ''in use''))
         | Ok changed \<Rightarrow>
             value_error_as 400 (commit_change api env rq 0 st changed
                 \<lparr>ac_action = ''cluster_deleted'', ac_resource_type = ''cluster'', ac_resource_id = name, ac_details = [],
                  ac_event_type = None\<rparr> expected (''cluster_deleted:'' @ name))))"

section \<open>Collections\<close>

text \<open>\<open>reconcile_collections\<close>; the audit entry is best effort.\<close>

definition audit_event :: "('w, 'p) admin_env \<Rightarrow> admin_request \<Rightarrow> admin_change \<Rightarrow> AuditEvent" where
  "audit_event env rq ch = \<lparr>ae_actor = admin_actor env rq, ae_action = ac_action ch, ae_resource_type = ac_resource_type ch,
     ae_resource_id = ac_resource_id ch, ae_status = ''success'', ae_request_id = aq_request_id rq, ae_details = ac_details ch\<rparr>"

definition record_audit :: "'s store_api \<Rightarrow> ('w, 'p) admin_env \<Rightarrow> bool \<Rightarrow> admin_request \<Rightarrow> admin_change \<Rightarrow> ('s, 'w) admin \<Rightarrow> ('s, 'w) admin" where
  "record_audit api env audit_enabled rq ch st =
     (if \<not> audit_enabled then st
      else st\<lparr>ad_store := fst (record_admin_audit api (ad_store st) (ad_manager st) (aq_env rq 0) (audit_event env rq ch))\<rparr>)"

definition reconcile_handler :: "'s store_api \<Rightarrow> ('w, 'p) admin_env \<Rightarrow> bool \<Rightarrow> admin_request \<Rightarrow> ('s, 'w) admin
    \<Rightarrow> ('s, 'w) admin \<times> (http_error + (string, cluster_report) pydict)" where
  "reconcile_handler api env audit_enabled rq st =
     (case reconcile_collection_schemas (av_provider env) (ad_federation st) (ad_provider st) of
        (w, None) \<Rightarrow> (st\<lparr>ad_provider := w\<rparr>, Raise (Http 500 ''reconciliation''))
      | (w, Some report) \<Rightarrow>
          (record_audit api env audit_enabled rq
            \<lparr>ac_action = ''collections_reconciled'', ac_resource_type = ''collection_schema'', ac_resource_id = ''*'',
             ac_details = [(''clusters_checked'', JInt (int (length report))),
               (''collections_desired'', JInt (int (length (collection_schemas (ad_federation st))))),
               (''collections_created'', JInt (int (sum_list (map (length \<circ> report_created \<circ> snd) report))))],
             ac_event_type = None\<rparr> (st\<lparr>ad_provider := w\<rparr>), Ok report))"

definition default_policy :: "string \<Rightarrow> document" where
  "default_policy coll = [(''collection'', JStr coll), (''rules'', JArr []), (''default_cluster'', JStr ''default'')]"

definition with_collection :: "CollectionSchema \<Rightarrow> FederationRuntime \<Rightarrow> FederationRuntime" where
  "with_collection s rt =
     rt\<lparr>collection_schemas := dput (cs_name s) (schema_payload s) (collection_schemas rt),
        routing_rules := (if dget (routing_rules rt) (cs_name s) = None \<or> is_disabled rt (cs_name s)
          then dput (cs_name s) (default_policy (cs_name s)) (routing_rules rt) else routing_rules rt)\<rparr>"

definition create_collection :: "'s store_api \<Rightarrow> ('w, 'p) admin_env \<Rightarrow> admin_request \<Rightarrow> CollectionSchema \<Rightarrow> ('s, 'w) admin
    \<Rightarrow> ('s, 'w) admin \<times> (http_error + int)" where
  "create_collection api env rq s st =
     (case ebind (ensure_enterprise_collection_policy (re_repr (av_replica env)) (av_settings env) (cs_name s))
          (\<lambda>_. expected_revision env rq (ad_manager st)) of
        Raise e \<Rightarrow> (st, Raise e)
      | Ok expected \<Rightarrow>
         sbind (commit_change api env rq 0 st (with_collection s (ad_federation st))
           \<lparr>ac_action = ''collection_created'', ac_resource_type = ''collection'', ac_resource_id = cs_name s,
            ac_details = [(''fields'', JArr (map (JObj \<circ> field_payload) (cs_fields s))),
              (''default_sorting_field'', case cs_default_sorting_field s of None \<Rightarrow> JNull | Some f \<Rightarrow> JStr f),
              (''cluster_count'', JInt (int (length (clients (ad_federation st)))))],
            ac_event_type = None\<rparr> expected (''collection_created:'' @ cs_name s))
         (\<lambda>revision st1.
           (case create_on_clusters (av_provider env) (schema_payload s) (ad_provider st1) (clients (ad_federation st1)) of
              (w, failures) \<Rightarrow> (st1\<lparr>ad_provider := w\<rparr>,
                if failures = 0 then Ok revision else Raise (Http 503 ''collection_reconciliation_pending'')))))"

definition TERMINAL_ROLLOUT_PHASES :: "RolloutPhase list" where
  "TERMINAL_ROLLOUT_PHASES = [COMPLETED, CANCELLED, ROLLED_BACK]"

fun blocking_rollout :: "string \<Rightarrow> document list \<Rightarrow> http_error option" where
  "blocking_rollout coll [] = None"
| "blocking_rollout coll (p # ps) =
     (if jget p ''collection'' \<noteq> JStr coll then blocking_rollout coll ps
      else case jget p ''phase'' of
        JStr v \<Rightarrow> (case phase_of_value v of
            None \<Rightarrow> Some (Http 500 ''routing_rollout_state_invalid'')
          | Some ph \<Rightarrow> if ph \<in> set TERMINAL_ROLLOUT_PHASES then blocking_rollout coll ps
              else Some (Http 409 ''active_routing_rollout_blocks_collection_delete''))
      | _ \<Rightarrow> Some (Http 500 ''routing_rollout_state_invalid''))"

definition tombstone :: "string \<Rightarrow> document" where
  "tombstone coll = default_policy coll @ [(''disabled'', JBool True)]"

definition drop_aliases :: "string \<Rightarrow> (string, (string, document) pydict) pydict \<Rightarrow> (string, (string, document) pydict) pydict" where
  "drop_aliases coll = map (\<lambda>(cluster, aliases).
     (cluster, filter (\<lambda>(alias, config). jget config ''collection_name'' \<noteq> JStr coll) aliases))"

text \<open>\<open>delete_collection\<close> commits a tombstone, deletes on the clusters, and commits the end.\<close>

definition begin_collection_deletion :: "'s store_api \<Rightarrow> ('w, 'p) admin_env \<Rightarrow> admin_request \<Rightarrow> string \<Rightarrow> ('s, 'w) admin
    \<Rightarrow> ('s, 'w) admin \<times> (http_error + int)" where
  "begin_collection_deletion api env rq coll st =
     (case expected_revision env rq (ad_manager st) of
        Raise e \<Rightarrow> (st, Raise e)
      | Ok expected \<Rightarrow>
        (case blocking_rollout coll (dvalues (routing_rollouts (ad_federation st))) of
           Some e \<Rightarrow> (st, Raise e)
         | None \<Rightarrow>
            if is_disabled (ad_federation st) coll then (st, Ok expected)
            else commit_change api env rq 0 st
              ((ad_federation st)\<lparr>routing_rules := dput coll (tombstone coll) (routing_rules (ad_federation st)),
                 collection_aliases := drop_aliases coll (collection_aliases (ad_federation st))\<rparr>)
              \<lparr>ac_action = ''collection_deletion_started'', ac_resource_type = ''collection'', ac_resource_id = coll,
               ac_details = [(''phase'', JStr ''tombstoned'')], ac_event_type = None\<rparr>
              expected (''collection_deletion_started:'' @ coll)))"

definition finish_collection_deletion :: "'s store_api \<Rightarrow> ('w, 'p) admin_env \<Rightarrow> admin_request \<Rightarrow> string \<Rightarrow> int \<Rightarrow> ('s, 'w) admin
    \<Rightarrow> ('s, 'w) admin \<times> (http_error + int)" where
  "finish_collection_deletion api env rq coll deletion_revision st =
     commit_change api env rq 1 st
       ((ad_federation st)\<lparr>collection_schemas := AList.delete coll (collection_schemas (ad_federation st)),
          collection_aliases := drop_aliases coll (collection_aliases (ad_federation st))\<rparr>)
       \<lparr>ac_action = ''collection_deleted'', ac_resource_type = ''collection'', ac_resource_id = coll,
        ac_details = [(''phase'', JStr ''provider_deleted'')], ac_event_type = None\<rparr>
       deletion_revision (''collection_deleted:'' @ coll)"

definition delete_collection :: "'s store_api \<Rightarrow> ('w, 'p) admin_env \<Rightarrow> admin_request \<Rightarrow> string \<Rightarrow> ('s, 'w) admin
    \<Rightarrow> ('s, 'w) admin \<times> (http_error + int)" where
  "delete_collection api env rq coll st =
     sbind (begin_collection_deletion api env rq coll st) (\<lambda>deletion_revision st1.
       (case delete_on_clusters (av_provider env) coll (ad_provider st1) (clients (ad_federation st1)) of
          (w, failures) \<Rightarrow>
            if failures \<noteq> 0 then (st1\<lparr>ad_provider := w\<rparr>, Raise (Http 503 ''collection_deletion_pending''))
            else finish_collection_deletion api env rq coll deletion_revision (st1\<lparr>ad_provider := w\<rparr>)))"

section \<open>Aliases\<close>

definition resolved_alias_cluster_name :: "FederationRuntime \<Rightarrow> string \<Rightarrow> string" where
  "resolved_alias_cluster_name rt name =
     (case resolve_cluster_name rt name of Some c \<Rightarrow> if c \<noteq> [] then c else name | None \<Rightarrow> name)"

definition aliases_on :: "FederationRuntime \<Rightarrow> string \<Rightarrow> (string, document) pydict" where
  "aliases_on rt cluster = (case dget (collection_aliases rt) cluster of None \<Rightarrow> [] | Some a \<Rightarrow> a)"

definition client_for_cluster :: "FederationRuntime \<Rightarrow> string \<Rightarrow> string option" where
  "client_for_cluster rt name =
     (case resolve_cluster_name rt name of Some c \<Rightarrow> if c \<noteq> [] then Some c else None | None \<Rightarrow> None)"

definition upsert_alias :: "'s store_api \<Rightarrow> ('w, 'p) admin_env \<Rightarrow> admin_request \<Rightarrow> string \<Rightarrow> string \<Rightarrow> string \<Rightarrow> ('s, 'w) admin
    \<Rightarrow> ('s, 'w) admin \<times> (http_error + int)" where
  "upsert_alias api env rq alias coll cluster st =
     (case expected_revision env rq (ad_manager st) of
        Raise e \<Rightarrow> (st, Raise e)
      | Ok expected \<Rightarrow>
        (case client_for_cluster (ad_federation st) cluster of
           None \<Rightarrow> (st, Raise (Http 404 ''not available''))
         | Some client \<Rightarrow>
           (let rt = ad_federation st; resolved = resolved_alias_cluster_name rt cluster in
            sbind (commit_change api env rq 0 st
              (rt\<lparr>collection_aliases := dput resolved
                 (dput alias [(''collection_name'', JStr coll)] (aliases_on rt resolved)) (collection_aliases rt)\<rparr>)
              \<lparr>ac_action = ''alias_upserted'', ac_resource_type = ''alias'', ac_resource_id = alias,
               ac_details = [(''collection_name'', JStr coll), (''cluster_name'', JStr resolved)], ac_event_type = None\<rparr>
              expected (''alias_upserted:'' @ resolved @ '':'' @ alias))
            (\<lambda>revision st1.
              (case pv_upsert_alias (av_provider env) (ad_provider st1) client alias coll of
                 (w, ProviderDone) \<Rightarrow> (st1\<lparr>ad_provider := w\<rparr>, Ok revision)
               | (w, _) \<Rightarrow> (st1\<lparr>ad_provider := w\<rparr>, Raise (Http 503 ''alias_reconciliation_pending'')))))))"

definition without_alias :: "FederationRuntime \<Rightarrow> string \<Rightarrow> string \<Rightarrow> FederationRuntime" where
  "without_alias rt cluster alias =
     (case dget (collection_aliases rt) cluster of
        None \<Rightarrow> rt
      | Some aliases \<Rightarrow>
          (let rest = AList.delete alias aliases in
           rt\<lparr>collection_aliases := (if rest = [] then AList.delete cluster (collection_aliases rt)
                else dput cluster rest (collection_aliases rt))\<rparr>))"

definition delete_alias :: "'s store_api \<Rightarrow> ('w, 'p) admin_env \<Rightarrow> admin_request \<Rightarrow> string \<Rightarrow> string \<Rightarrow> ('s, 'w) admin
    \<Rightarrow> ('s, 'w) admin \<times> (http_error + int)" where
  "delete_alias api env rq alias cluster st =
     (case expected_revision env rq (ad_manager st) of
        Raise e \<Rightarrow> (st, Raise e)
      | Ok expected \<Rightarrow>
        (case client_for_cluster (ad_federation st) cluster of
           None \<Rightarrow> (st, Raise (Http 404 ''not available''))
         | Some client \<Rightarrow>
           (let rt = ad_federation st; resolved = resolved_alias_cluster_name rt cluster in
            sbind (commit_change api env rq 0 st (without_alias rt resolved alias)
              \<lparr>ac_action = ''alias_deleted'', ac_resource_type = ''alias'', ac_resource_id = alias,
               ac_details = [(''cluster_name'', JStr resolved)], ac_event_type = None\<rparr>
              expected (''alias_deleted:'' @ resolved @ '':'' @ alias))
            (\<lambda>revision st1.
              (case pv_delete_alias (av_provider env) (ad_provider st1) client alias of
                 (w, reply) \<Rightarrow> (st1\<lparr>ad_provider := w\<rparr>,
                   if reply \<in> {ProviderDone, ProviderMissing} then Ok revision
                   else Raise (Http 503 ''alias_deletion_pending'')))))))"

section \<open>Routing rules\<close>

text \<open>A collection without a stored schema is looked up on the first cluster.\<close>

definition check_collection_exists :: "('w, 'p) admin_env \<Rightarrow> ('s, 'w) admin \<Rightarrow> string \<Rightarrow> http_error + unit" where
  "check_collection_exists env st coll =
     (case clients (ad_federation st) of
        [] \<Rightarrow> Ok ()
      | client # _ \<Rightarrow>
          if dget (collection_schemas (ad_federation st)) coll \<noteq> None then Ok ()
          else (case pv_retrieve_collection (av_provider env) (ad_provider st) client coll of
              ProviderDone \<Rightarrow> Ok ()
            | ProviderMissing \<Rightarrow> Raise (Http 404 ''Cannot set rules for non-existent collection'')
            | _ \<Rightarrow> Raise (Unhandled ''Typesense'')))"

definition set_routing_rules_handler :: "'s store_api \<Rightarrow> ('w, 'p) admin_env \<Rightarrow> admin_request \<Rightarrow> RoutingRules \<Rightarrow> ('s, 'w) admin
    \<Rightarrow> ('s, 'w) admin \<times> (http_error + int)" where
  "set_routing_rules_handler api env rq p st =
     (case ebind (expected_revision env rq (ad_manager st)) (\<lambda>expected.
         if ad_profile env = ''enterprise'' then Raise (Http 409 ''safe_routing_rollout_required'')
         else ebind (check_collection_exists env st (ru_collection p)) (\<lambda>_. Ok expected)) of
        Raise e \<Rightarrow> (st, Raise e)
      | Ok expected \<Rightarrow>
        (case set_routing_rules (re_repr (av_replica env)) (ad_federation st) (ru_collection p)
            (map rule_payload (ru_rules p)) (ru_default_cluster p) of
           Raise e \<Rightarrow> (st, Raise (Http 404 ''cluster''))
         | Ok changed \<Rightarrow>
             value_error_as 404 (commit_change api env rq 0 st changed
                 \<lparr>ac_action = ''routing_updated'', ac_resource_type = ''routing_rule'', ac_resource_id = ru_collection p,
                  ac_details = [(''rules_count'', JInt (int (length (ru_rules p)))), (''default_cluster'', JStr (ru_default_cluster p))],
                  ac_event_type = None\<rparr> expected (''routing_updated:'' @ ru_collection p))))"

definition delete_routing_rule :: "'s store_api \<Rightarrow> ('w, 'p) admin_env \<Rightarrow> admin_request \<Rightarrow> string \<Rightarrow> ('s, 'w) admin
    \<Rightarrow> ('s, 'w) admin \<times> (http_error + int)" where
  "delete_routing_rule api env rq coll st =
     (case ebind (expected_revision env rq (ad_manager st)) (\<lambda>expected.
         if ad_profile env = ''enterprise'' then Raise (Http 409 ''safe_routing_rollout_required'') else Ok expected) of
        Raise e \<Rightarrow> (st, Raise e)
      | Ok expected \<Rightarrow>
         commit_change api env rq 0 st (delete_routing_rules (ad_federation st) coll)
           \<lparr>ac_action = ''routing_deleted'', ac_resource_type = ''routing_rule'', ac_resource_id = coll, ac_details = [],
            ac_event_type = None\<rparr> expected (''routing_deleted:'' @ coll))"

text \<open>Resetting the rules of a deleted collection lifts its tombstone.\<close>

lemma reset_lifts_tombstone: "\<not> is_disabled (delete_routing_rules rt coll) coll"
  by (simp add: is_disabled_def policy_of_def delete_routing_rules_def jget_def dget_dput)

end
