(* ===== verification/AdminEffects.thy ===== *)
theory AdminEffects
  imports AdminMutations
begin

text \<open>
  What a handler of \<open>routers/admin.py\<close> can do to the shared store and to its replica: nothing,
  an audit entry, or commits that start from the revision of the replica and leave the replica
  running what it stored. The later theories build the interleaving of replicas on
  \<open>admin_effect\<close>. Stored and running configurations are compared up to the order of keys,
  and clusters up to the name and the protocol that loading fills in.
\<close>

section \<open>Equal configurations\<close>

definition same_cluster :: "document \<Rightarrow> document \<Rightarrow> bool" where
  "same_cluster c d \<longleftrightarrow> (\<forall>k. k \<notin> {''name'', ''protocol''} \<longrightarrow> sort_json (jget c k) = sort_json (jget d k))"

definition same_clusters :: "(string, document) pydict \<Rightarrow> (string, document) pydict \<Rightarrow> bool" where
  "same_clusters cs ds \<longleftrightarrow> (\<forall>n. rel_option same_cluster (dget cs n) (dget ds n))"

definition equal_state :: "DesiredState \<Rightarrow> DesiredState \<Rightarrow> bool" where
  "equal_state a b \<longleftrightarrow> sorted_docs (ds_rules a) = sorted_docs (ds_rules b) \<and>
     sorted_docs (ds_schemas a) = sorted_docs (ds_schemas b) \<and>
     sorted_aliases (ds_aliases a) = sorted_aliases (ds_aliases b) \<and> same_clusters (ds_clusters a) (ds_clusters b)"

lemma same_clusters_refl [simp]: "same_clusters cs cs"
  by (simp add: same_clusters_def same_cluster_def option.rel_refl)

lemma same_clusters_sym:
  assumes "same_clusters cs ds"
  shows "same_clusters ds cs"
  unfolding same_clusters_def
proof
  fix n
  show "rel_option same_cluster (dget ds n) (dget cs n)"
    using assms [unfolded same_clusters_def, rule_format, of n]
    by (cases "dget cs n"; cases "dget ds n") (auto simp: same_cluster_def)
qed

lemma same_clusters_trans:
  assumes "same_clusters bs cs" and "same_clusters cs ds"
  shows "same_clusters bs ds"
  unfolding same_clusters_def
proof
  fix n
  show "rel_option same_cluster (dget bs n) (dget ds n)"
    using assms [unfolded same_clusters_def, rule_format, of n]
    by (cases "dget bs n"; cases "dget cs n"; cases "dget ds n") (auto simp: same_cluster_def)
qed

lemma equal_state_refl [simp]: "equal_state a a"
  by (simp add: equal_state_def)

lemma equal_state_sym: "equal_state a b \<Longrightarrow> equal_state b a"
  by (auto simp: equal_state_def same_clusters_sym)

lemma equal_state_trans: "equal_state a b \<Longrightarrow> equal_state b c \<Longrightarrow> equal_state a c"
  by (auto simp: equal_state_def intro: same_clusters_trans)

lemma sorted_document_idem: "sorted_document (sorted_document d) = sorted_document d"
  using sort_json_idem [of "JObj d"] by (simp add: sorted_document_def)

lemma sort_map_sort:
  assumes "\<And>x. f (f x) = f x"
  shows "sort_key fst (map (\<lambda>(k, x). (k, f x)) (sort_key fst (map (\<lambda>(k, x). (k, f x)) xs))) =
    sort_key fst (map (\<lambda>(k, x). (k, f x)) xs)"
proof -
  have "map (\<lambda>(k, x). (k, f x)) (map (\<lambda>(k, x). (k, f x)) xs) = map (\<lambda>(k, x). (k, f x)) xs"
    by (simp add: assms case_prod_beta')
  then show ?thesis by (simp only: map_sort_key_fst_val) (simp only: sort_key_id_if_sorted sorted_sort_key)
qed

lemma sorted_docs_idem [simp]: "sorted_docs (sorted_docs docs) = sorted_docs docs"
  unfolding sorted_docs_def by (rule sort_map_sort) (rule sorted_document_idem)

lemma sorted_aliases_idem [simp]: "sorted_aliases (sorted_aliases aliases) = sorted_aliases aliases"
  unfolding sorted_aliases_def by (rule sort_map_sort) simp

lemma same_clusters_sorted: "same_clusters (sorted_docs cs) cs"
proof -
  have "dget (sorted_docs cs) n = map_option sorted_document (dget cs n)" for n
    unfolding sorted_docs_def map_of_sort_key using map_of_map_snd [of sorted_document cs n]
    by (simp add: case_prod_beta')
  then show ?thesis
    by (auto simp: same_clusters_def same_cluster_def option.rel_map jget_sorted sort_json_idem option.rel_refl)
qed

lemma equal_sorted_state: "equal_state (sorted_state ds) ds"
  by (simp add: equal_state_def sorted_state_def same_clusters_sorted)

lemma same_cluster_normalized:
  "normalize_cluster_config rep c name = Ok d \<Longrightarrow> same_cluster d c"
  by (auto simp: normalize_cluster_config_def Let_def ebind_eq_Ok same_cluster_def jget_dput split: option.splits if_splits)

lemma same_clusters_loaded:
  assumes "mapE (\<lambda>(name, config). ebind (normalize_cluster_config rep config (Some name)) (\<lambda>c. Ok (name, c))) cs = Ok ds"
  shows "same_clusters ds cs"
proof -
  have "rel_option same_cluster (dget ds n) (dget cs n)" for n
    using assms
  proof (induction cs arbitrary: ds)
    case (Cons x cs)
    then obtain c ds' where "normalize_cluster_config rep (snd x) (Some (fst x)) = Ok c" and "ds = (fst x, c) # ds'"
      and "mapE (\<lambda>(name, config). ebind (normalize_cluster_config rep config (Some name)) (\<lambda>c. Ok (name, c))) cs = Ok ds'"
      by (auto simp: ebind_eq_Ok case_prod_beta')
    with Cons.IH [of ds'] same_cluster_normalized show ?case by (cases x) auto
  qed simp
  then show ?thesis by (simp add: same_clusters_def)
qed

lemma loaded_state:
  assumes "load_from_state rep build rt cs rules schemas aliases rollouts revision = Ok rt'"
  shows "equal_state (desired_state rt')
      \<lparr>ds_clusters = cs, ds_rules = rules, ds_schemas = schemas, ds_aliases = aliases\<rparr>"
    and "rt_revision rt' = revision" and "routing_rollouts rt' = rollouts"
proof -
  from assms obtain normalized where
    "mapE (\<lambda>(name, config). ebind (normalize_cluster_config rep config (Some name)) (\<lambda>c. Ok (name, c))) cs = Ok normalized"
    and "rt' = \<lparr>rt_revision = revision, clusters_config = normalized, clients = map fst normalized, routing_rules = rules,
      collection_schemas = schemas, collection_aliases = aliases, routing_rollouts = rollouts\<rparr>"
    by (auto simp: load_from_state_def ebind_eq_Ok)
  with same_clusters_loaded show "equal_state (desired_state rt')
      \<lparr>ds_clusters = cs, ds_rules = rules, ds_schemas = schemas, ds_aliases = aliases\<rparr>"
    "rt_revision rt' = revision" "routing_rollouts rt' = rollouts"
    by (simp_all add: equal_state_def desired_state_def)
qed

section \<open>Effects\<close>

inductive admin_effect :: "'s store_api \<Rightarrow> ('w, 'p) admin_env \<Rightarrow> ('s, 'w) admin \<Rightarrow> ('s, 'w) admin \<Rightarrow> bool"
  for api env where
  Kept: "ad_store st' = ad_store st \<Longrightarrow> ad_replica st' = ad_replica st \<Longrightarrow> admin_effect api env st st'"
| Saved: "save_state api (re_check (av_replica env)) (ad_store st) (ad_manager st) call ds ro rq = (ad_store st', ad_manager st', Ok True)
    \<Longrightarrow> sr_expected rq = Some (sm_current_revision (ad_manager st))
    \<Longrightarrow> equal_state (desired_state (ad_federation st')) ds
    \<Longrightarrow> (rt_revision (ad_federation st) \<le> sm_current_revision (ad_manager st') \<Longrightarrow>
          rt_revision (ad_federation st') = sm_current_revision (ad_manager st'))
    \<Longrightarrow> (case ro of Some r \<Rightarrow> routing_rollouts (ad_federation st') = r
        | None \<Rightarrow> routing_rollouts (ad_federation st') = [] \<and> routing_rollouts (ad_federation st) = [])
    \<Longrightarrow> admin_effect api env st st'"
| AuditAppended: "record_admin_audit api (ad_store st) (ad_manager st) call a = (ad_store st', ok)
    \<Longrightarrow> ad_replica st' = ad_replica st \<Longrightarrow> admin_effect api env st st'"
| InSequence: "admin_effect api env st st1 \<Longrightarrow> admin_effect api env st1 st' \<Longrightarrow> admin_effect api env st st'"

text \<open>
  The two ways in which a handler leaves its replica with a runtime that is neither the one it had nor
  the stored one: the secret policy refuses the save (the change is not taken back), or an imported
  state cannot be loaded after it was committed.
\<close>

definition detached_errors :: "http_error list" where
  "detached_errors = [Unhandled ''SecretResolutionError'', Unhandled ''reload'']"

definition detached :: "http_error + 'a \<Rightarrow> bool" where
  "detached res \<longleftrightarrow> (case res of Raise e \<Rightarrow> e \<in> set detached_errors | Ok _ \<Rightarrow> False)"

lemma detached_simps [simp]:
  "detached (Ok x) = False" "detached (Raise e) = (e \<in> {Unhandled ''SecretResolutionError'', Unhandled ''reload''})"
  by (simp_all add: detached_def detached_errors_def)

lemma effect_refl [intro]: "admin_effect api env st st"
  by (rule Kept) simp_all

lemma effect_provider: "admin_effect api env st st1 \<Longrightarrow> admin_effect api env st (st1\<lparr>ad_provider := w\<rparr>)"
  by (rule InSequence, assumption) (rule Kept, simp_all)

text \<open>The one place where handlers write: what \<open>commit_change\<close> leaves.\<close>

lemma commit_change_effect:
  assumes "commit_change api env rq i st changed ch expected change_type = (st', res)" and "\<not> detached res"
    and "expected = sm_current_revision (ad_manager st)" and "rt_revision changed = rt_revision (ad_federation st)"
    and "routing_rollouts changed = [] \<Longrightarrow> routing_rollouts (ad_federation st) = []"
  shows "admin_effect api env st st'"
proof -
  let ?start = "st\<lparr>ad_replica := (ad_replica st)\<lparr>rp_federation := changed\<rparr>\<rparr>"
  let ?ro = "if routing_rollouts changed = [] then None else Some (routing_rollouts changed)"
  obtain s mgr saved where save: "save_state api (re_check (av_replica env)) (ad_store st) (ad_manager st) (aq_env rq i)
      (desired_state changed) ?ro (change_request env rq ch expected) = (s, mgr, saved)"
    by (metis prod_cases3)
  obtain st1 r where persist: "persist_state api env rq i ?start (ad_federation st) ch expected = (st1, r)" by fastforce
  have sent: "ad_store (notify_config_change env t n x) = ad_store x \<and> ad_replica (notify_config_change env t n x) = ad_replica x"
    for t n and x :: "('a, 'b) admin" by (simp add: notify_config_change_def)
  have st': "ad_store st' = ad_store st1 \<and> ad_replica st' = ad_replica st1 \<and> (detached r \<longrightarrow> detached res)"
    using assms(1) persist sent by (cases r) (auto simp: commit_change_def)
  show ?thesis
  proof (cases "saved = Ok True")
    case True
    with persist save have "ad_store st1 = s" "ad_manager st1 = mgr" and
      fed: "ad_federation st1 = changed\<lparr>rt_revision := sm_current_revision mgr\<rparr> \<or>
        (ad_federation st1 = changed \<and> sm_current_revision mgr < rt_revision changed)"
      by (auto simp: persist_state_def Let_def mark_applied_revision_def split: if_splits)
    show ?thesis
    proof (rule Saved)
      show "save_state api (re_check (av_replica env)) (ad_store st) (ad_manager st) (aq_env rq i) (desired_state changed) ?ro
          (change_request env rq ch expected) = (ad_store st', ad_manager st', Ok True)"
        using save True st' \<open>ad_store st1 = s\<close> \<open>ad_manager st1 = mgr\<close> by simp
      show "sr_expected (change_request env rq ch expected) = Some (sm_current_revision (ad_manager st))"
        by (simp add: change_request_def assms(3))
      show "equal_state (desired_state (ad_federation st')) (desired_state changed)"
        using fed st' by (auto simp: desired_state_def)
      show "rt_revision (ad_federation st') = sm_current_revision (ad_manager st')"
        if "rt_revision (ad_federation st) \<le> sm_current_revision (ad_manager st')"
        using fed st' that assms(4) \<open>ad_manager st1 = mgr\<close> by auto
      show "case ?ro of Some r \<Rightarrow> routing_rollouts (ad_federation st') = r
          | None \<Rightarrow> routing_rollouts (ad_federation st') = [] \<and> routing_rollouts (ad_federation st) = []"
        using fed st' assms(5) by auto
    qed
  next
    case False
    with persist save have "detached r \<or> (ad_store st1 = ad_store st \<and> ad_replica st1 = ad_replica st)"
      by (auto simp: persist_state_def Let_def split: sum.splits manager_error.splits bool.splits)
    with st' assms(2) show ?thesis by (auto intro: Kept)
  qed
qed

text \<open>A result of a handler that started in \<open>st\<close>, unless it left the replica detached.\<close>

definition effectful :: "'s store_api \<Rightarrow> ('w, 'p) admin_env \<Rightarrow> ('s, 'w) admin \<Rightarrow> ('s, 'w) admin \<times> (http_error + 'r) \<Rightarrow> bool" where
  "effectful api env st m \<longleftrightarrow> detached (snd m) \<or> admin_effect api env st (fst m)"

lemma effectful_stay: "effectful api env st (st, r)"
  by (auto simp: effectful_def)

lemma effectful_provider: "effectful api env st (st\<lparr>ad_provider := w\<rparr>, r)"
  by (auto simp: effectful_def intro: effect_provider)

lemma effectful_commit:
  assumes "expected = sm_current_revision (ad_manager st)"
    and "rt_revision changed = rt_revision (ad_federation st)" and "routing_rollouts changed = routing_rollouts (ad_federation st)"
  shows "effectful api env st (commit_change api env rq i st changed ch expected t)"
  using commit_change_effect [of api env rq i st changed ch expected t] assms
  by (cases "commit_change api env rq i st changed ch expected t") (auto simp: effectful_def)

lemma effectful_sbind:
  assumes "effectful api env st m" and "\<And>x st1. m = (st1, Ok x) \<Longrightarrow> effectful api env st1 (k x st1)"
  shows "effectful api env st (sbind m k)"
proof (cases m)
  case (Pair st1 r)
  with assms show ?thesis
    by (cases r) (auto simp: effectful_def intro: InSequence)
qed

text \<open>One rule for each way in which a handler branches.\<close>

lemma effectful_if:
  "(P \<Longrightarrow> effectful api env st a) \<Longrightarrow> (\<not> P \<Longrightarrow> effectful api env st b) \<Longrightarrow> effectful api env st (if P then a else b)"
  by simp

lemma effectful_sum:
  "(\<And>e. x = Raise e \<Longrightarrow> effectful api env st (f e)) \<Longrightarrow> (\<And>y. x = Ok y \<Longrightarrow> effectful api env st (g y))
    \<Longrightarrow> effectful api env st (case x of Raise e \<Rightarrow> f e | Ok y \<Rightarrow> g y)"
  by (simp split: sum.split)

lemma effectful_option:
  "(x = None \<Longrightarrow> effectful api env st f) \<Longrightarrow> (\<And>y. x = Some y \<Longrightarrow> effectful api env st (g y))
    \<Longrightarrow> effectful api env st (case x of None \<Rightarrow> f | Some y \<Rightarrow> g y)"
  by (simp split: option.split)

lemma effectful_pair:
  "(\<And>a b. x = (a, b) \<Longrightarrow> effectful api env st (f a b)) \<Longrightarrow> effectful api env st (case x of (a, b) \<Rightarrow> f a b)"
  by (simp split: prod.split)

lemma effectful_value_error: "effectful api env st m \<Longrightarrow> effectful api env st (value_error_as code m)"
  by (cases m) (auto simp: effectful_def value_error_as_def split: sum.split)

lemmas effectful_rules = effectful_stay effectful_provider effectful_commit effectful_sbind effectful_if effectful_sum
  effectful_option effectful_pair effectful_value_error

section \<open>The handlers\<close>

text \<open>Every runtime that a handler installs keeps the applied revision and the rollouts.\<close>

lemma register_cluster_keeps:
  "register_cluster rep ask rs inline reach rt n h p k pr ref = Ok rt' \<Longrightarrow>
     rt_revision rt' = rt_revision rt \<and> routing_rollouts rt' = routing_rollouts rt"
  by (auto simp: register_cluster_def Let_def ebind_eq_Ok split: if_splits)

lemma unregister_cluster_keeps:
  "unregister_cluster rt n = Ok rt' \<Longrightarrow> rt_revision rt' = rt_revision rt \<and> routing_rollouts rt' = routing_rollouts rt"
  by (auto simp: unregister_cluster_def split: if_splits option.splits)

lemma set_routing_rules_keeps:
  "set_routing_rules rep rt coll rules d = Ok rt' \<Longrightarrow> rt_revision rt' = rt_revision rt \<and> routing_rollouts rt' = routing_rollouts rt"
  by (auto simp: set_routing_rules_def ebind_eq_Ok)

lemma without_alias_keeps:
  "rt_revision (without_alias rt c a) = rt_revision rt \<and> routing_rollouts (without_alias rt c a) = routing_rollouts rt"
  by (simp add: without_alias_def Let_def split: option.split)

lemma register_cluster_effect: "effectful api env st (register_cluster_handler api env rq c st)"
  unfolding register_cluster_handler_def
  by (intro effectful_rules)
    (auto simp: expected_revision_current effectful_stay dest: register_cluster_keeps split: federation_error.split)

lemma delete_cluster_effect: "effectful api env st (delete_cluster_handler api env rq n st)"
  unfolding delete_cluster_handler_def
  by (intro effectful_rules)
    (auto simp: expected_revision_current effectful_stay dest: unregister_cluster_keeps split: federation_error.split)

lemma record_audit_effect: "admin_effect api env st (record_audit api env enabled rq ch st)"
proof (cases enabled)
  case True
  show ?thesis
    by (rule AuditAppended [where call = "aq_env rq 0" and a = "audit_event env rq ch"
          and ok = "snd (record_admin_audit api (ad_store st) (ad_manager st) (aq_env rq 0) (audit_event env rq ch))"])
      (simp_all add: record_audit_def True)
qed (simp add: record_audit_def effect_refl)

lemma reconcile_effect: "effectful api env st (reconcile_handler api env enabled rq st)"
  unfolding reconcile_handler_def
  by (intro effectful_pair effectful_option effectful_provider)
    (auto simp: effectful_def intro: InSequence [OF effect_provider [OF effect_refl] record_audit_effect])

lemma create_collection_effect: "effectful api env st (create_collection api env rq s st)"
  unfolding create_collection_def
  by (intro effectful_rules) (auto simp: ebind_eq_Ok expected_revision_current with_collection_def)

lemma begin_deletion_effect: "effectful api env st (begin_collection_deletion api env rq coll st)"
  unfolding begin_collection_deletion_def
  by (intro effectful_rules) (auto simp: expected_revision_current)

lemma upsert_alias_effect: "effectful api env st (upsert_alias api env rq alias coll cluster st)"
  unfolding upsert_alias_def Let_def
  by (intro effectful_rules) (auto simp: expected_revision_current effectful_provider split: provider_reply.split)

lemma delete_alias_effect: "effectful api env st (delete_alias api env rq alias cluster st)"
  unfolding delete_alias_def Let_def
  by (intro effectful_rules) (auto simp: expected_revision_current without_alias_keeps)

lemma set_routing_rules_effect: "effectful api env st (set_routing_rules_handler api env rq p st)"
  unfolding set_routing_rules_handler_def
  by (intro effectful_rules) (auto simp: ebind_eq_Ok expected_revision_current dest: set_routing_rules_keeps split: if_splits)

lemma commit_change_revision:
  "commit_change api env rq i st changed ch expected t = (st', Ok r) \<Longrightarrow> r = sm_current_revision (ad_manager st')"
  by (auto simp: commit_change_def persist_state_def sbind_def Let_def notify_config_change_def
      split: prod.splits sum.splits manager_error.splits bool.splits)

lemma delete_collection_effect: "effectful api env st (delete_collection api env rq coll st)"
proof -
  have fenced: "r = sm_current_revision (ad_manager st1)" if "begin_collection_deletion api env rq coll st = (st1, Ok r)" for st1 r
    using that by (auto simp: begin_collection_deletion_def expected_revision_current commit_change_revision
        split: sum.splits option.splits if_splits)
  have finish: "effectful api env st1 (finish_collection_deletion api env rq coll r st1)"
    if "r = sm_current_revision (ad_manager st1)" for st1 r
    using that unfolding finish_collection_deletion_def by (intro effectful_commit) simp_all
  have moved: "effectful api env st1 m" if "effectful api env (st1\<lparr>ad_provider := w\<rparr>) m"
    for st1 w and m :: "('a, 'b) admin \<times> (http_error + int)"
    using that by (auto simp: effectful_def intro: InSequence [OF effect_provider [OF effect_refl]])
  show ?thesis
    unfolding delete_collection_def
    by (intro effectful_sbind effectful_pair effectful_if effectful_provider begin_deletion_effect)
      (rule moved, rule finish, simp add: fenced)
qed

lemma delete_routing_rule_effect: "effectful api env st (delete_routing_rule api env rq coll st)"
  unfolding delete_routing_rule_def
  by (intro effectful_rules) (auto simp: ebind_eq_Ok expected_revision_current delete_routing_rules_def split: if_splits)

end
