(* ===== verification/StateSnapshot.thy ===== *)
theory StateSnapshot
  imports AdminEffects
begin

text \<open>
  Backup and restore in \<open>query_api/app/routers/admin.py\<close>: the snapshot of the control plane,
  the masking of inline keys, the validation of a snapshot, and its import; and the internal route that
  hands the worker materialized cluster configurations. \<open>readers\<close> are pydantic's
  readings of a stored document with the declared types; the constraints of the models are those
  of \<open>Schemas\<close>.
\<close>

section \<open>Masking\<close>

definition mask_api_key :: "string \<Rightarrow> string" where
  "mask_api_key key =
     (if key = [] \<or> key = ''N/A'' then key
      else if length key \<le> 4 then ''***''
      else replicate (length key - 4) (CHR ''*'') @ drop (length key - 4) key)"

definition is_masked_api_key :: "json \<Rightarrow> bool" where
  "is_masked_api_key v = (case v of JStr s \<Rightarrow> take 3 s = ''***'' | _ \<Rightarrow> False)"

definition mask_config :: "(json \<Rightarrow> string) \<Rightarrow> document \<Rightarrow> document" where
  "mask_config repr_of config =
     (case dget config ''api_key'' of
        None \<Rightarrow> config
      | Some v \<Rightarrow> dput ''api_key'' (JStr (mask_api_key (py_str repr_of v))) config)"

definition mask_cluster_secrets :: "(json \<Rightarrow> string) \<Rightarrow> (string, document) pydict \<Rightarrow> (string, document) pydict" where
  "mask_cluster_secrets repr_of clusters = map (\<lambda>(name, config). (name, mask_config repr_of config)) clusters"

section \<open>Export\<close>

record StateSnapshot =
  ss_version :: string
  ss_revision :: int
  ss_state_digest :: string
  ss_secrets_included :: bool
  ss_clusters :: "(string, document) pydict"
  ss_rules :: "(string, document) pydict"
  ss_schemas :: "(string, document) pydict"
  ss_aliases :: "(string, (string, document) pydict) pydict"
  ss_rollouts :: "(string, document) pydict"

definition normalized_clusters :: "(json \<Rightarrow> string) \<Rightarrow> (string, document) pydict \<Rightarrow> federation_error + (string, document) pydict" where
  "normalized_clusters repr_of clusters =
     mapE (\<lambda>(name, config). ebind (normalize_cluster_config repr_of config (Some name)) (\<lambda>c. Ok (name, c))) clusters"

definition state_snapshot_from_federation :: "(json \<Rightarrow> string) \<Rightarrow> Replica \<Rightarrow> bool \<Rightarrow> federation_error + StateSnapshot" where
  "state_snapshot_from_federation repr_of rp include_secrets =
     ebind (normalized_clusters repr_of (clusters_config (rp_federation rp))) (\<lambda>clusters.
       Ok \<lparr>ss_version = ''imposbro.state.v2'', ss_revision = sm_current_revision (rp_manager rp),
         ss_state_digest = sm_state_digest (rp_manager rp), ss_secrets_included = include_secrets,
         ss_clusters = (if include_secrets then clusters else mask_cluster_secrets repr_of clusters),
         ss_rules = routing_rules (rp_federation rp), ss_schemas = collection_schemas (rp_federation rp),
         ss_aliases = collection_aliases (rp_federation rp), ss_rollouts = routing_rollouts (rp_federation rp)\<rparr>)"

definition alias_count :: "StateSnapshot \<Rightarrow> nat" where
  "alias_count snap = sum_list (map length (dvalues (ss_aliases snap)))"

definition snapshot_counts :: "StateSnapshot \<Rightarrow> document" where
  "snapshot_counts snap =
     [(''clusters'', JInt (int (length (ss_clusters snap)))), (''routing_rules'', JInt (int (length (ss_rules snap)))),
      (''collection_schemas'', JInt (int (length (ss_schemas snap)))),
      (''collection_aliases'', JInt (int (alias_count snap))), (''routing_rollouts'', JInt (int (length (ss_rollouts snap))))]"

definition export_control_plane_state :: "'s store_api \<Rightarrow> ('w, 'p) admin_env \<Rightarrow> bool \<Rightarrow> admin_request \<Rightarrow> bool \<Rightarrow> ('s, 'w) admin
    \<Rightarrow> ('s, 'w) admin \<times> (http_error + StateSnapshot)" where
  "export_control_plane_state api env audit_enabled rq include_secrets st =
     (if include_secrets \<and> ad_profile env \<noteq> ''development''
      then (st, Raise (Http 403 ''Plaintext secret export is disabled outside the development profile.''))
      else case state_snapshot_from_federation (re_repr (av_replica env)) (ad_replica st) include_secrets of
        Raise _ \<Rightarrow> (st, Raise (Unhandled ''ValueError''))
      | Ok snap \<Rightarrow>
          (record_audit api env audit_enabled rq
            \<lparr>ac_action = ''state_exported'', ac_resource_type = ''control_plane_state'', ac_resource_id = ''config_v1'',
             ac_details = snapshot_counts snap @ [(''secrets_included'', JBool include_secrets)], ac_event_type = None\<rparr> st,
           Ok snap))"

section \<open>Validation of a snapshot\<close>

record readers =
  read_schema :: "document \<Rightarrow> CollectionSchema option"
  read_cluster :: "document \<Rightarrow> Cluster option"
  read_rules :: "document \<Rightarrow> RoutingRules option"

definition bad_snapshot :: "string \<Rightarrow> http_error" where
  "bad_snapshot m = Http 400 m"

definition validate_name_map :: "(string, 'v) pydict \<Rightarrow> http_error + unit" where
  "validate_name_map d = require (list_all name_ok (dkeys d)) (bad_snapshot ''Invalid name'')"

definition validate_alias :: "(json \<Rightarrow> string) \<Rightarrow> document \<Rightarrow> http_error + unit" where
  "validate_alias repr_of config =
     (let target = strip (case dget config ''collection_name'' of None \<Rightarrow> [] | Some v \<Rightarrow> py_str repr_of v) in
      require (target \<noteq> [] \<and> name_ok target) (bad_snapshot ''invalid collection_name''))"

definition validate_cluster_aliases :: "(json \<Rightarrow> string) \<Rightarrow> string list \<Rightarrow> string \<times> (string, document) pydict \<Rightarrow> http_error + unit" where
  "validate_cluster_aliases repr_of clusters entry =
     (case entry of (cluster, aliases) \<Rightarrow>
        ebind (require (cluster = ''default'' \<or> cluster \<in> set clusters) (bad_snapshot ''Aliases reference unknown cluster'')) (\<lambda>_.
        ebind (validate_name_map aliases) (\<lambda>_.
        ebind (mapE (validate_alias repr_of) (dvalues aliases)) (\<lambda>_. Ok ()))))"

definition validate_schema_entry :: "readers \<Rightarrow> string \<times> document \<Rightarrow> http_error + unit" where
  "validate_schema_entry rd entry =
     (case Option.bind (read_schema rd (snd entry)) validate_collection_schema of
        None \<Rightarrow> Raise (bad_snapshot ''Invalid schema'')
      | Some s \<Rightarrow> require (cs_name s = fst entry) (bad_snapshot ''Collection schema name mismatch''))"

definition validate_cluster_entry :: "('w, 'p) admin_env \<Rightarrow> readers \<Rightarrow> bool \<Rightarrow> string \<times> document \<Rightarrow> http_error + unit" where
  "validate_cluster_entry env rd apply_changes entry =
     (case entry of (name, config) \<Rightarrow>
        ebind (require (case dget config ''name'' of None \<Rightarrow> True | Some v \<Rightarrow> v = JStr name) (bad_snapshot ''Cluster config name mismatch'')) (\<lambda>_.
        (case read_cluster rd ((''name'', JStr name) # AList.delete ''name'' config) of
           None \<Rightarrow> Raise (bad_snapshot ''Invalid cluster config'')
         | Some c \<Rightarrow>
             ebind (require (cluster_ok c) (bad_snapshot ''Invalid cluster config'')) (\<lambda>_.
             ebind (require (strip (case dget config ''host'' of None \<Rightarrow> [] | Some v \<Rightarrow> py_str (re_repr (av_replica env)) v) \<noteq> [])
               (bad_snapshot ''missing host'')) (\<lambda>_.
             ebind (require (cl_api_key c = [] \<or> ad_profile env = ''development'')
               (bad_snapshot ''Inline cluster API keys cannot be imported'')) (\<lambda>_.
             ebind (require (\<not> (apply_changes \<and> is_masked_api_key (jget config ''api_key'')))
               (bad_snapshot ''Cannot apply a snapshot with masked cluster API keys.'')) (\<lambda>_.
             if \<not> apply_changes then Ok ()
             else case ebind (normalize_cluster_config (re_repr (av_replica env)) config None) (\<lambda>normalized.
                 lift_secret (materialize_cluster_secret (av_ask env) normalized (av_allow_inline env) (av_resolver env))) of
               Ok _ \<Rightarrow> Ok ()
             | Raise (SecretError _) \<Rightarrow> Raise (bad_snapshot ''secret reference cannot be resolved'')
             | Raise _ \<Rightarrow> Raise (Unhandled ''ValueError'')))))))) "

definition with_collection_key :: "document \<Rightarrow> string \<Rightarrow> document" where
  "with_collection_key d coll = (if dget d ''collection'' = None then d @ [(''collection'', JStr coll)] else d)"

definition validate_rules_entry :: "readers \<Rightarrow> string list \<Rightarrow> string \<times> document \<Rightarrow> http_error + unit" where
  "validate_rules_entry rd clusters entry =
     (case entry of (coll, config) \<Rightarrow>
        (case read_rules rd (with_collection_key config coll) of
           None \<Rightarrow> Raise (bad_snapshot ''Invalid routing rules'')
         | Some p \<Rightarrow>
             ebind (require (routing_rules_ok p) (bad_snapshot ''Invalid routing rules'')) (\<lambda>_.
             ebind (require (ru_collection p = coll) (bad_snapshot ''Routing rules collection mismatch'')) (\<lambda>_.
             ebind (require (ru_default_cluster p = ''default'' \<or> ru_default_cluster p \<in> set clusters)
               (bad_snapshot ''Routing default references unknown cluster'')) (\<lambda>_.
             require (list_all (\<lambda>t. t = ''default'' \<or> t \<in> set clusters) (concat (map given_targets (ru_rules p))))
               (bad_snapshot ''Routing rule references unknown cluster''))))))"

definition validate_rollout_entry :: "(string \<Rightarrow> time option) \<Rightarrow> readers \<Rightarrow> string list \<Rightarrow> string \<times> document \<Rightarrow> http_error + unit" where
  "validate_rollout_entry fromisoformat rd collections entry =
     (case from_dict fromisoformat (snd entry) of
        Raise _ \<Rightarrow> Raise (bad_snapshot ''Invalid routing rollout'')
      | Ok r \<Rightarrow>
          ebind (require (rollout_id r = fst entry) (bad_snapshot ''Routing rollout id mismatch'')) (\<lambda>_.
          ebind (require (rollout_collection r \<in> set collections) (bad_snapshot ''references unknown collection'')) (\<lambda>_.
          ebind (mapE (\<lambda>policy. case read_rules rd (with_collection_key policy (rollout_collection r)) of
              Some p \<Rightarrow> require (routing_rules_ok p) (bad_snapshot ''policy for routing rollout'')
            | None \<Rightarrow> Raise (bad_snapshot ''policy for routing rollout''))
            [active_policy r, candidate_policy r]) (\<lambda>_. Ok ()))))"

definition validate_import_snapshot :: "(string \<Rightarrow> time option) \<Rightarrow> readers \<Rightarrow> ('w, 'p) admin_env \<Rightarrow> StateSnapshot \<Rightarrow> bool \<Rightarrow> http_error + unit" where
  "validate_import_snapshot fromisoformat rd env snap apply_changes =
     (let clusters = dkeys (ss_clusters snap) in
      ebind (require (ss_version snap \<in> {''imposbro.state.v1'', ''imposbro.state.v2''}) (bad_snapshot ''Unsupported state snapshot version.'')) (\<lambda>_.
      ebind (validate_name_map (ss_clusters snap)) (\<lambda>_.
      ebind (validate_name_map (ss_rules snap)) (\<lambda>_.
      ebind (validate_name_map (ss_schemas snap)) (\<lambda>_.
      ebind (validate_name_map (ss_aliases snap)) (\<lambda>_.
      ebind (validate_name_map (ss_rollouts snap)) (\<lambda>_.
      ebind (mapE (validate_cluster_aliases (re_repr (av_replica env)) clusters) (ss_aliases snap)) (\<lambda>_.
      ebind (mapE (validate_schema_entry rd) (ss_schemas snap)) (\<lambda>_.
      ebind (mapE (validate_cluster_entry env rd apply_changes) (ss_clusters snap)) (\<lambda>_.
      ebind (mapE (validate_rules_entry rd clusters) (ss_rules snap)) (\<lambda>_.
      ebind (mapE (validate_rollout_entry fromisoformat rd (dkeys (ss_rules snap))) (ss_rollouts snap)) (\<lambda>_. Ok ()))))))))))))"

section \<open>Import\<close>

datatype import_result = DryRun bool | Imported int

definition import_request :: "('w, 'p) admin_env \<Rightarrow> admin_request \<Rightarrow> StateSnapshot \<Rightarrow> int \<Rightarrow> save_request" where
  "import_request env rq snap expected =
     \<lparr>sr_audit = Some \<lparr>ae_actor = admin_actor env rq, ae_action = ''state_imported'', ae_resource_type = ''control_plane_state'',
        ae_resource_id = ''current'', ae_status = ''success'', ae_request_id = aq_request_id rq, ae_details = snapshot_counts snap\<rparr>,
      sr_event_type = ''state.imported'', sr_event_payload = [(''counts'', JObj (snapshot_counts snap))], sr_expected = Some expected\<rparr>"

text \<open>After the commit: load the state, create missing collections, restore the aliases, announce.\<close>

definition load_imported_state :: "('w, 'p) admin_env \<Rightarrow> DesiredState \<Rightarrow> (string, document) pydict \<Rightarrow> ('s, 'w) admin
    \<Rightarrow> ('s, 'w) admin \<times> (http_error + import_result)" where
  "load_imported_state env ds rollouts st =
     (case load_from_state (re_repr (av_replica env)) (re_build (av_replica env)) (ad_federation st) (ds_clusters ds) (ds_rules ds)
         (ds_schemas ds) (ds_aliases ds) rollouts (sm_current_revision (ad_manager st)) of
        Raise _ \<Rightarrow> (st, Raise (Unhandled ''reload''))
      | Ok rt \<Rightarrow>
         (let st1 = st\<lparr>ad_replica := (ad_replica st)\<lparr>rp_federation := rt\<rparr>\<rparr>;
              (w1, reconciled) = (if ds_aliases ds = [] then (ad_provider st1, True)
                else case reconcile_collection_schemas (av_provider env) rt (ad_provider st1) of (w, r) \<Rightarrow> (w, r \<noteq> None));
              st2 = st1\<lparr>ad_provider := w1\<rparr> in
          if \<not> reconciled then (st2, Raise (Unhandled ''Typesense''))
          else case restore_aliases (av_provider env) rt w1 (ds_aliases ds) of
            (w2, False) \<Rightarrow> (st2\<lparr>ad_provider := w2\<rparr>, Raise (Http 500 ''Could not restore alias''))
          | (w2, True) \<Rightarrow>
              (notify_config_change env ''state_imported'' (sm_current_revision (ad_manager st)) (st2\<lparr>ad_provider := w2\<rparr>),
               Ok (Imported (sm_current_revision (ad_manager st))))))"

definition import_control_plane_state :: "'s store_api \<Rightarrow> (string \<Rightarrow> time option) \<Rightarrow> readers \<Rightarrow> ('w, 'p) admin_env \<Rightarrow> admin_request
    \<Rightarrow> StateSnapshot \<Rightarrow> bool \<Rightarrow> ('s, 'w) admin \<Rightarrow> ('s, 'w) admin \<times> (http_error + import_result)" where
  "import_control_plane_state api fromisoformat rd env rq snap apply_changes st =
     (case validate_import_snapshot fromisoformat rd env snap apply_changes of
        Raise e \<Rightarrow> (st, Raise e)
      | Ok _ \<Rightarrow>
          if \<not> apply_changes then
            (st, Ok (DryRun (\<not> list_ex (\<lambda>config. is_masked_api_key (jget config ''api_key'')) (dvalues (ss_clusters snap)))))
          else
            (case expected_revision env rq (ad_manager st) of
               Raise e \<Rightarrow> (st, Raise e)
             | Ok expected \<Rightarrow>
                 (case normalized_clusters (re_repr (av_replica env)) (ss_clusters snap) of
                    Raise _ \<Rightarrow> (st, Raise (Unhandled ''ValueError''))
                  | Ok clusters \<Rightarrow>
                      (let ds = \<lparr>ds_clusters = clusters, ds_rules = ss_rules snap, ds_schemas = ss_schemas snap, ds_aliases = ss_aliases snap\<rparr> in
                       case save_state api (re_check (av_replica env)) (ad_store st) (ad_manager st) (aq_env rq 0) ds
                           (Some (ss_rollouts snap)) (import_request env rq snap expected) of
                         (s, mgr, Raise (RevisionConflict _ _)) \<Rightarrow> (st, Raise (Http 409 ''control_plane_revision_conflict''))
                       | (s, mgr, Raise _) \<Rightarrow> (st, Raise (Unhandled ''SecretResolutionError''))
                       | (s, mgr, Ok False) \<Rightarrow> (st, Raise (Http 500 ''Could not persist imported state.''))
                       | (s, mgr, Ok True) \<Rightarrow>
                           load_imported_state env ds (ss_rollouts snap)
                             (st\<lparr>ad_store := s, ad_replica := (ad_replica st)\<lparr>rp_manager := mgr\<rparr>\<rparr>)))))"

section \<open>The worker's view\<close>

definition materialize_cluster_config :: "('w, 'p) admin_env \<Rightarrow> document \<Rightarrow> federation_error + document" where
  "materialize_cluster_config env config =
     ebind (normalize_cluster_config (re_repr (av_replica env)) config None) (\<lambda>normalized.
     ebind (lift_secret (materialize_cluster_secret (av_ask env) normalized (av_allow_inline env) (av_resolver env))) (\<lambda>key.
       Ok (dput ''api_key'' (JStr key) (AList.delete ''api_key_ref'' normalized))))"

definition get_internal_clusters :: "('w, 'p) admin_env \<Rightarrow> FederationRuntime \<Rightarrow> http_error + (string, document) pydict" where
  "get_internal_clusters env rt =
     (case mapE (\<lambda>(name, config). ebind (materialize_cluster_config env (dput ''name'' (JStr name) config)) (\<lambda>c. Ok (name, c)))
         (clusters_config rt) of
        Ok configs \<Rightarrow> Ok configs
      | Raise (SecretError _) \<Rightarrow> Raise (Http 503 ''cluster_secret_unavailable'')
      | Raise _ \<Rightarrow> Raise (Unhandled ''ValueError''))"

section \<open>What an import leaves\<close>

lemma load_imported:
  assumes "load_imported_state env ds rollouts st = (st', res)" and "res \<noteq> Raise (Unhandled ''reload'')"
  shows "ad_store st' = ad_store st \<and> ad_manager st' = ad_manager st \<and>
    equal_state (desired_state (ad_federation st')) ds \<and>
    rt_revision (ad_federation st') = sm_current_revision (ad_manager st) \<and> routing_rollouts (ad_federation st') = rollouts"
proof -
  from assms obtain rt where rt: "load_from_state (re_repr (av_replica env)) (re_build (av_replica env)) (ad_federation st)
      (ds_clusters ds) (ds_rules ds) (ds_schemas ds) (ds_aliases ds) rollouts (sm_current_revision (ad_manager st)) = Ok rt"
    by (auto simp: load_imported_state_def split: sum.splits)
  have "ad_replica st' = (ad_replica st)\<lparr>rp_federation := rt\<rparr> \<and> ad_store st' = ad_store st"
    using assms(1) by (auto simp: load_imported_state_def rt Let_def notify_config_change_def split: prod.splits if_splits bool.splits)
  moreover have "equal_state (desired_state rt) ds"
    using loaded_state(1) [OF rt] by (cases ds) simp
  ultimately show ?thesis using loaded_state(2,3) [OF rt] by simp
qed

lemma import_saves:
  assumes "import_control_plane_state api fromisoformat rd env rq snap apply_changes st = (st', res)"
  shows "(ad_store st' = ad_store st \<and> ad_replica st' = ad_replica st) \<or>
    (\<exists>s mgr clusters. apply_changes \<and> validate_import_snapshot fromisoformat rd env snap True = Ok () \<and>
      normalized_clusters (re_repr (av_replica env)) (ss_clusters snap) = Ok clusters \<and>
      save_state api (re_check (av_replica env)) (ad_store st) (ad_manager st) (aq_env rq 0)
        \<lparr>ds_clusters = clusters, ds_rules = ss_rules snap, ds_schemas = ss_schemas snap, ds_aliases = ss_aliases snap\<rparr>
        (Some (ss_rollouts snap)) (import_request env rq snap (sm_current_revision (ad_manager st))) = (s, mgr, Ok True) \<and>
      load_imported_state env
        \<lparr>ds_clusters = clusters, ds_rules = ss_rules snap, ds_schemas = ss_schemas snap, ds_aliases = ss_aliases snap\<rparr>
        (ss_rollouts snap) (st\<lparr>ad_store := s, ad_replica := (ad_replica st)\<lparr>rp_manager := mgr\<rparr>\<rparr>) = (st', res))"
proof (cases "apply_changes \<and> validate_import_snapshot fromisoformat rd env snap apply_changes = Ok ()")
  case True
  then have valid: "validate_import_snapshot fromisoformat rd env snap True = Ok ()" by (cases apply_changes) simp_all
  show ?thesis
  proof (cases "expected_revision env rq (ad_manager st)")
    case (Inr expected)
    then have expected: "expected = sm_current_revision (ad_manager st)" by (rule expected_revision_current)
    show ?thesis
    proof (cases "normalized_clusters (re_repr (av_replica env)) (ss_clusters snap)")
      case clusters: (Inr clusters)
      obtain s mgr r where save: "save_state api (re_check (av_replica env)) (ad_store st) (ad_manager st) (aq_env rq 0)
          \<lparr>ds_clusters = clusters, ds_rules = ss_rules snap, ds_schemas = ss_schemas snap, ds_aliases = ss_aliases snap\<rparr>
          (Some (ss_rollouts snap)) (import_request env rq snap (sm_current_revision (ad_manager st))) = (s, mgr, r)"
        by (metis prod_cases3)
      show ?thesis
        using assms True valid Inr clusters save expected
        by (cases r) (auto simp: import_control_plane_state_def Let_def split: manager_error.splits bool.splits)
    qed (use assms True Inr in \<open>auto simp: import_control_plane_state_def\<close>)
  qed (use assms True in \<open>auto simp: import_control_plane_state_def\<close>)
qed (use assms in \<open>auto simp: import_control_plane_state_def split: sum.splits if_splits\<close>)

lemma import_effect: "effectful api env st (import_control_plane_state api fromisoformat rd env rq snap apply_changes st)"
proof (cases "import_control_plane_state api fromisoformat rd env rq snap apply_changes st")
  case (Pair st' res)
  from import_saves [OF Pair] show ?thesis
  proof (elim disjE exE conjE)
    assume "ad_store st' = ad_store st" "ad_replica st' = ad_replica st"
    with Pair show ?thesis by (auto simp: effectful_def intro: Kept)
  next
    fix s mgr clusters
    let ?ds = "\<lparr>ds_clusters = clusters, ds_rules = ss_rules snap, ds_schemas = ss_schemas snap, ds_aliases = ss_aliases snap\<rparr>"
    assume save: "save_state api (re_check (av_replica env)) (ad_store st) (ad_manager st) (aq_env rq 0) ?ds
        (Some (ss_rollouts snap)) (import_request env rq snap (sm_current_revision (ad_manager st))) = (s, mgr, Ok True)"
      and load: "load_imported_state env ?ds (ss_rollouts snap) (st\<lparr>ad_store := s, ad_replica := (ad_replica st)\<lparr>rp_manager := mgr\<rparr>\<rparr>) = (st', res)"
    show ?thesis
    proof (cases "detached res")
      case False
      then have "res \<noteq> Raise (Unhandled ''reload'')" by auto
      note loaded = load_imported [OF load this]
      have "admin_effect api env st st'"
        by (rule Saved [where call = "aq_env rq 0" and ds = ?ds and ro = "Some (ss_rollouts snap)"
              and rq = "import_request env rq snap (sm_current_revision (ad_manager st))"])
          (use loaded save in \<open>auto simp: import_request_def\<close>)
      with Pair show ?thesis by (simp add: effectful_def)
    qed (use Pair in \<open>simp add: effectful_def\<close>)
  qed
qed

lemma export_effect: "effectful api env st (export_control_plane_state api env enabled rq secrets st)"
proof -
  have "admin_effect api env st (record_audit api env enabled rq ch st)" for ch
    using record_audit_effect .
  then show ?thesis
    unfolding export_control_plane_state_def
    by (intro effectful_if effectful_sum effectful_stay) (simp add: effectful_def)
qed

text \<open>
  C19. Backup and restore are inverse: importing an exported snapshot (with secrets) into any replica
  leaves it running the exported configuration and rollouts, and stores them as the new head; the
  name and the protocol that normalization fills into a cluster are the only entries that may be new.
\<close>

theorem exported_state_restores:
  assumes "export_control_plane_state (pg_api pl) env enabled rq True source = (source', Ok snap)"
    and "db_reachable pl (ad_store target)"
    and "import_control_plane_state (pg_api pl) fromisoformat rd env' rq' snap True target = (target', Ok (Imported revision))"
  shows "equal_state (desired_state (ad_federation target')) (desired_state (ad_federation source)) \<and>
    routing_rollouts (ad_federation target') = routing_rollouts (ad_federation source) \<and>
    (\<exists>row. state_row (ad_store target') = Some row \<and> cr_revision row = rt_revision (ad_federation target') \<and>
      equal_state (desired_of (cr_state row)) (desired_state (ad_federation source)))"
proof -
  from assms(1) obtain normal where
    normal: "normalized_clusters (re_repr (av_replica env)) (clusters_config (ad_federation source)) = Ok normal" and
    snap: "ss_clusters snap = normal" "ss_rules snap = routing_rules (ad_federation source)"
      "ss_schemas snap = collection_schemas (ad_federation source)" "ss_aliases snap = collection_aliases (ad_federation source)"
      "ss_rollouts snap = routing_rollouts (ad_federation source)"
    by (auto simp: export_control_plane_state_def state_snapshot_from_federation_def ebind_eq_Ok split: if_splits sum.splits)
  from assms(3) obtain s mgr clusters where
    clusters: "normalized_clusters (re_repr (av_replica env')) normal = Ok clusters" and
    save: "save_state (pg_api pl) (re_check (av_replica env')) (ad_store target) (ad_manager target) (aq_env rq' 0)
        \<lparr>ds_clusters = clusters, ds_rules = ss_rules snap, ds_schemas = ss_schemas snap, ds_aliases = ss_aliases snap\<rparr>
        (Some (ss_rollouts snap)) (import_request env' rq' snap (sm_current_revision (ad_manager target))) = (s, mgr, Ok True)" and
    load: "load_imported_state env'
        \<lparr>ds_clusters = clusters, ds_rules = ss_rules snap, ds_schemas = ss_schemas snap, ds_aliases = ss_aliases snap\<rparr>
        (ss_rollouts snap) (target\<lparr>ad_store := s, ad_replica := (ad_replica target)\<lparr>rp_manager := mgr\<rparr>\<rparr>) =
        (target', Ok (Imported revision))"
    by (auto simp: import_control_plane_state_def snap Let_def dest: expected_revision_current
        split: sum.splits if_splits prod.splits manager_error.splits bool.splits)
  let ?ds = "\<lparr>ds_clusters = clusters, ds_rules = ss_rules snap, ds_schemas = ss_schemas snap, ds_aliases = ss_aliases snap\<rparr>"
  have "same_clusters clusters (clusters_config (ad_federation source))"
    using same_clusters_trans [OF same_clusters_loaded [OF clusters [unfolded normalized_clusters_def]]
        same_clusters_loaded [OF normal [unfolded normalized_clusters_def]]] .
  then have ds: "equal_state ?ds (desired_state (ad_federation source))"
    by (simp add: equal_state_def desired_state_def snap)
  from load_imported [OF load] have loaded: "ad_store target' = s" "equal_state (desired_state (ad_federation target')) ?ds"
    "rt_revision (ad_federation target') = sm_current_revision mgr" "routing_rollouts (ad_federation target') = ss_rollouts snap" by simp_all
  from pg_managed.saved [OF db_reachable_inv [OF assms(2)] save] obtain rec where
    rec: "store_load (pg_api pl) s = Ok (Some rec)" "sm_current_revision mgr = cr_revision rec" "db_inv pl s"
      "normalize_json_object (state_document ?ds (sm_routing_rollouts mgr)) = Some (cr_state rec)" by auto
  have row: "state_row s = Some rec"
    using rec(1,3) by (simp add: pg_api_def pg_load_committed)
  have "equal_state (desired_of (cr_state rec)) ?ds"
    using state_document_sorted(1) [OF rec(4)] equal_sorted_state by simp
  then have "equal_state (desired_of (cr_state rec)) (desired_state (ad_federation source))"
    using ds by (rule equal_state_trans)
  moreover have "equal_state (desired_state (ad_federation target')) (desired_state (ad_federation source))"
    using loaded(2) ds by (rule equal_state_trans)
  ultimately show ?thesis using loaded row rec(2) snap(5) by auto
qed

definition sample_typesense :: "unit typesense" where
  "sample_typesense = \<lparr>pv_create_collection = (\<lambda>w c d. (w, ProviderDone)), pv_retrieve_collection = (\<lambda>w c n. ProviderDone),
     pv_delete_collection = (\<lambda>w c n. (w, ProviderDone)), pv_upsert_alias = (\<lambda>w c a n. (w, ProviderDone)),
     pv_delete_alias = (\<lambda>w c a. (w, ProviderDone))\<rparr>"

definition sample_admin_env :: "(unit, secret_provider) admin_env" where
  "sample_admin_env = \<lparr>av_settings = \<lparr>st_deployment_profile = ''development'', st_require_collection_policy = False,
       st_api_key_tenant_bypass = False, st_collection_policies = NoPolicies\<rparr>,
     av_open_admin = True, av_sha = (\<lambda>s. s), av_int = (\<lambda>_. None), av_replica = sample_replica_env,
     av_ask = (\<lambda>_ s. Ok s), av_resolver = [], av_allow_inline = True, av_reachable = (\<lambda>_ _ _ _. True),
     av_provider = sample_typesense, av_source_id = ''r1'', av_redis_up = True\<rparr>"

definition sample_admin_request :: admin_request where
  "sample_admin_request = \<lparr>aq_if_match = [], aq_auth_actor = None, aq_api_key = [], aq_authorization = [],
     aq_request_id = ''q1'', aq_env = (\<lambda>_. sample_env)\<rparr>"

definition sample_readers :: readers where
  "sample_readers = \<lparr>read_schema = (\<lambda>_. None), read_cluster = (\<lambda>_. None),
     read_rules = (\<lambda>d. Some \<lparr>ru_collection = text_or d ''collection'' [], ru_rules = [], ru_default_cluster = policy_default d\<rparr>)\<rparr>"

definition sample_target :: "(ControlPlaneDb, unit) admin" where
  "sample_target = \<lparr>ad_store = migrated_db, ad_replica = \<lparr>rp_manager = sample_manager, rp_federation = empty_runtime\<rparr>,
     ad_provider = (), ad_sent = []\<rparr>"

definition sample_db_source :: "(ControlPlaneDb, unit) admin" where
  "sample_db_source = \<lparr>ad_store = migrated_db, ad_replica = \<lparr>rp_manager = sample_manager, rp_federation =
     empty_runtime\<lparr>routing_rules := [(''books'', [(''default_cluster'', JStr ''default'')])]\<rparr>\<rparr>, ad_provider = (), ad_sent = []\<rparr>"

theorem exported_state_restores_witness:
  "\<exists>source' snap target'. export_control_plane_state (pg_api sample_platform) sample_admin_env False sample_admin_request True
       sample_db_source = (source', Ok snap) \<and>
     import_control_plane_state (pg_api sample_platform) (\<lambda>_. None) sample_readers sample_admin_env sample_admin_request snap True
       sample_target = (target', Ok (Imported 1)) \<and>
     equal_state (desired_state (ad_federation target')) (desired_state (ad_federation sample_db_source))"
proof -
  have "case export_control_plane_state (pg_api sample_platform) sample_admin_env False sample_admin_request True sample_db_source of
      (source', Ok snap) \<Rightarrow> snd (import_control_plane_state (pg_api sample_platform) (\<lambda>_. None) sample_readers sample_admin_env
        sample_admin_request snap True sample_target) = Ok (Imported 1)
    | _ \<Rightarrow> False"
    by code_simp
  then obtain source' snap target' where
    export: "export_control_plane_state (pg_api sample_platform) sample_admin_env False sample_admin_request True sample_db_source =
      (source', Ok snap)" and
    restore: "import_control_plane_state (pg_api sample_platform) (\<lambda>_. None) sample_readers sample_admin_env sample_admin_request
      snap True sample_target = (target', Ok (Imported 1))"
    by (auto split: prod.splits sum.splits) (metis prod.collapse)
  have "db_reachable sample_platform (ad_store sample_target)"
    by (simp add: sample_target_def db_reachable.Migrated)
  from exported_state_restores [OF export this restore] export restore show ?thesis by blast
qed

section \<open>Masked keys\<close>

lemma masked_long_key: "7 \<le> length key \<or> (length key \<le> 4 \<and> key \<noteq> []) \<Longrightarrow> key \<noteq> ''N/A'' \<Longrightarrow> is_masked_api_key (JStr (mask_api_key key))"
proof -
  have "take 3 (replicate n CHR ''*'' @ xs) = ''***''" if "3 \<le> n" for n xs
  proof -
    from that obtain m where "n = Suc (Suc (Suc m))" by (metis Suc_eq_plus1 add.commute le_Suc_ex numeral_3_eq_3 add_Suc_right)
    then show ?thesis by simp
  qed
  then show "7 \<le> length key \<or> (length key \<le> 4 \<and> key \<noteq> []) \<Longrightarrow> key \<noteq> ''N/A'' \<Longrightarrow> is_masked_api_key (JStr (mask_api_key key))"
    by (auto simp: mask_api_key_def is_masked_api_key_def numeral_eq_Suc)
qed

text \<open>The mask of a key of five or six characters is not recognized, and an import would store it as the key.\<close>

lemma short_key_mask_unrecognized:
  "mask_api_key ''abcdef'' = ''**cdef''" "\<not> is_masked_api_key (JStr (mask_api_key ''abcdef''))"
  by (simp_all add: mask_api_key_def is_masked_api_key_def)

end
