(* ===== verification/KafkaEvidence.thy ===== *)
theory KafkaEvidence
  imports PyValue
begin

text \<open>
  \<open>query_api/app/services/kafka_operations.py\<close> and \<open>KafkaService.operational_evidence\<close>:
  the consumer lag and the unresolved dead letters that the cutover of a routing rollout demands.
  What the brokers answer is an argument; \<open>None\<close> is an exception of the client.
\<close>

record KafkaOperationalEvidence =
  consumer_lag :: int
  evidence_unresolved_dlq :: int
  topic_partitions :: nat
  dlq_partitions :: nat

text \<open>\<open>committed\<close> gives the committed offset of a partition, \<open>None\<close> where there is none.\<close>

fun calculate_lag :: "(int \<times> int) list \<Rightarrow> (int \<Rightarrow> int option) \<Rightarrow> int" where
  "calculate_lag [] committed = 0"
| "calculate_lag ((p, end_offset) # rest) committed =
     (let offset = (case committed p of None \<Rightarrow> 0 | Some c \<Rightarrow> if c < 0 then 0 else c) in
      max 0 (end_offset - offset) + calculate_lag rest committed)"

record kafka_brokers =
  partitions_for_topic :: "string \<Rightarrow> int list option"
  end_offsets :: "string \<Rightarrow> int list \<Rightarrow> (int \<times> int) list option"
  group_offsets :: "string \<Rightarrow> string \<Rightarrow> int list \<Rightarrow> (int \<times> int) list option"

definition topic_lag :: "kafka_brokers \<Rightarrow> string \<Rightarrow> string \<Rightarrow> (int \<times> nat) option" where
  "topic_lag kb topic group_id =
     (case partitions_for_topic kb topic of
        None \<Rightarrow> Some (0, 0)
      | Some [] \<Rightarrow> Some (0, 0)
      | Some partitions \<Rightarrow>
          (let ps = sort partitions in
           case end_offsets kb topic ps of
             None \<Rightarrow> None
           | Some ends \<Rightarrow>
               (case group_offsets kb group_id topic ps of
                  None \<Rightarrow> None
                | Some committed \<Rightarrow> Some (calculate_lag ends (dget committed), length ps))))"

text \<open>\<open>brokers\<close> is \<open>None\<close> when the clients cannot connect.\<close>

definition measure_evidence :: "kafka_brokers option \<Rightarrow> string \<Rightarrow> string \<Rightarrow> string \<Rightarrow> string \<Rightarrow> KafkaOperationalEvidence option" where
  "measure_evidence brokers consumer_group dlq_group topic dlq_topic =
     (case brokers of
        None \<Rightarrow> None
      | Some kb \<Rightarrow>
          (case topic_lag kb topic consumer_group of
             None \<Rightarrow> None
           | Some (lag, n) \<Rightarrow>
               (case topic_lag kb dlq_topic dlq_group of
                  None \<Rightarrow> None
                | Some (dead, m) \<Rightarrow>
                    Some \<lparr>consumer_lag = lag, evidence_unresolved_dlq = dead, topic_partitions = n, dlq_partitions = m\<rparr>)))"

text \<open>The security options of \<open>_connection_options\<close>.\<close>

record kafka_connection =
  kc_security_protocol :: string
  kc_sasl_mechanism :: string
  kc_sasl_username :: string
  kc_sasl_password :: string
  kc_ssl_cafile :: string
  kc_ssl_certfile :: string
  kc_ssl_keyfile :: string
  kc_ssl_check_hostname :: bool
  kc_client_id :: string

definition upper_char :: "char \<Rightarrow> char" where
  "upper_char c = (if is_lower c then char_of (of_char c - (32 :: nat)) else c)"

definition connection_options :: "kafka_connection \<Rightarrow> string + document" where
  "connection_options kc =
     (let protocol = map upper_char (strip (kc_security_protocol kc));
          sasl = protocol \<in> {''SASL_PLAINTEXT'', ''SASL_SSL''};
          tls = protocol \<in> {''SSL'', ''SASL_SSL''};
          base = [(''security_protocol'', JStr protocol), (''client_id'', JStr (kc_client_id kc))];
          login = (if sasl then [(''sasl_mechanism'', JStr (kc_sasl_mechanism kc)),
              (''sasl_plain_username'', JStr (kc_sasl_username kc)), (''sasl_plain_password'', JStr (kc_sasl_password kc))] else []);
          ca = (if kc_ssl_cafile kc \<noteq> [] then [(''ssl_cafile'', JStr (kc_ssl_cafile kc))] else []);
          client_certificate = (if kc_ssl_certfile kc \<noteq> [] then [(''ssl_certfile'', JStr (kc_ssl_certfile kc)),
              (''ssl_keyfile'', JStr (kc_ssl_keyfile kc))] else []) in
      if protocol \<notin> {''PLAINTEXT'', ''SSL'', ''SASL_PLAINTEXT'', ''SASL_SSL''} then Raise ''Unsupported Kafka security protocol''
      else if sasl \<and> (kc_sasl_username kc = [] \<or> kc_sasl_password kc = []) then Raise ''Kafka SASL username and password are required''
      else if tls \<and> (kc_ssl_certfile kc = []) \<noteq> (kc_ssl_keyfile kc = []) then Raise ''Kafka mTLS requires both certificate and key files''
      else Ok (base @ login @
        (if tls then (''ssl_check_hostname'', JBool (kc_ssl_check_hostname kc)) # ca @ client_certificate else [])))"

section \<open>What the numbers say\<close>

lemma calculate_lag_nonneg: "0 \<le> calculate_lag ends committed"
  by (induction ends committed rule: calculate_lag.induct) (auto simp: Let_def)

text \<open>
  No lag means that every offset below the end of every partition is committed: an aggregate
  cannot hide one partition behind another.
\<close>

lemma no_lag_iff:
  "calculate_lag ends committed = 0 \<longleftrightarrow>
     (\<forall>(p, e) \<in> set ends. e \<le> (case committed p of None \<Rightarrow> 0 | Some c \<Rightarrow> max 0 c))"
proof (induction ends committed rule: calculate_lag.induct)
  case (2 p e rest committed)
  have "calculate_lag ((p, e) # rest) committed = 0 \<longleftrightarrow>
      e \<le> (case committed p of None \<Rightarrow> 0 | Some c \<Rightarrow> max 0 c) \<and> calculate_lag rest committed = 0"
    using calculate_lag_nonneg [of rest committed] by (auto simp: Let_def max_def split: option.splits if_splits)
  with 2 show ?case by simp
qed simp

text \<open>A topic that the brokers do not list measures as drained, whatever was published to it.\<close>

lemma unlisted_topic_measures_drained:
  assumes "partitions_for_topic kb topic = None" and "partitions_for_topic kb dlq_topic = None"
  shows "measure_evidence (Some kb) consumer_group dlq_group topic dlq_topic =
    Some \<lparr>consumer_lag = 0, evidence_unresolved_dlq = 0, topic_partitions = 0, dlq_partitions = 0\<rparr>"
  by (simp add: measure_evidence_def topic_lag_def assms)

end
