(* ===== verification/AdminRollouts.thy ===== *)
theory AdminRollouts
  imports AdminEffects KafkaEvidence BackfillParity PostgresOutbox
begin

text \<open>
  The rollout handlers of \<open>query_api/app/routers/admin.py\<close>: creating a rollout, its
  transitions, the backfill steps and the parity verification. They run on the replica of
  \<open>AdminMutations\<close>, the executor of \<open>RoutingMigration\<close> and the durable event store of
  \<open>IndexingEvents\<close>. \<open>rv_meanwhile\<close> is what other writers put into the event store while a
  handler copies or compares documents. Checkpoint entries are integers, as these handlers write them.
\<close>

section \<open>State and environment\<close>

record ('s, 'w) rollout_admin =
  ra_admin :: "('s, 'w) admin"
  ra_events :: EvDb
  ra_log :: kafka_log

record ('w, 'p) rollout_env =
  rv_admin :: "('w, 'p) admin_env"
  rv_python :: python
  rv_migration :: "'w RoutingMigration.provider"
  rv_durable :: bool
  rv_now :: time
  rv_uuid :: string
  rv_isoformat :: "time \<Rightarrow> string"
  rv_fromisoformat :: "string \<Rightarrow> time option"
  rv_meanwhile :: "EvDb \<Rightarrow> EvDb"
  rv_brokers :: "kafka_brokers option"
  rv_topic_prefix :: string
  rv_consumer_group :: string
  rv_dlq_group :: string
  rv_max_kafka_lag :: int
  rv_send :: "PreparedIndexingEvent \<Rightarrow> send_outcome"
  rv_event_env :: "string \<Rightarrow> event_env"
  rv_propagated :: document
  rv_trace :: document

abbreviation ra_federation :: "('s, 'w) rollout_admin \<Rightarrow> FederationRuntime" where
  "ra_federation st \<equiv> ad_federation (ra_admin st)"

abbreviation ra_manager :: "('s, 'w) rollout_admin \<Rightarrow> StateManager" where
  "ra_manager st \<equiv> ad_manager (ra_admin st)"

section \<open>Reading a rollout\<close>

definition routing_rollout_or_404 :: "(string \<Rightarrow> time option) \<Rightarrow> FederationRuntime \<Rightarrow> string \<Rightarrow> http_error + RoutingRollout" where
  "routing_rollout_or_404 fromisoformat rt rid =
     (case dget (routing_rollouts rt) rid of
        None \<Rightarrow> Raise (Http 404 ''routing_rollout_not_found'')
      | Some payload \<Rightarrow>
          (case from_dict fromisoformat payload of
             Raise _ \<Rightarrow> Raise (Http 500 ''routing_rollout_state_invalid'')
           | Ok r \<Rightarrow> Ok r))"

text \<open>\<open>list_routing_rollouts\<close>: the newest first.\<close>

definition rollout_order :: "RoutingRollout \<Rightarrow> int \<times> string" where
  "rollout_order r = (case rollout_updated_at r of Some t \<Rightarrow> t | None \<Rightarrow> 0, rollout_id r)"

definition list_routing_rollouts :: "(string \<Rightarrow> time option) \<Rightarrow> FederationRuntime \<Rightarrow> string option \<Rightarrow> http_error + RoutingRollout list" where
  "list_routing_rollouts fromisoformat rt coll =
     ebind (mapE (routing_rollout_or_404 fromisoformat rt) (dkeys (routing_rollouts rt))) (\<lambda>rollouts.
       let selected = (case coll of
             Some c \<Rightarrow> if c \<noteq> [] then filter (\<lambda>r. rollout_collection r = c) rollouts else rollouts
           | None \<Rightarrow> rollouts) in
       Ok (rev (sort_key rollout_order (rev selected))))"

text \<open>Committing one rollout: the runtime gets the rollout, and the rules when it completes.\<close>

definition with_rollout :: "(time \<Rightarrow> string) \<Rightarrow> string \<Rightarrow> RoutingRollout \<Rightarrow> FederationRuntime \<Rightarrow> FederationRuntime" where
  "with_rollout isoformat rid r rt = rt\<lparr>routing_rollouts := dput rid (to_dict isoformat r) (routing_rollouts rt)\<rparr>"

definition lift_admin :: "('s, 'w) rollout_admin \<Rightarrow> ('s, 'w) admin \<times> (http_error + 'r) \<Rightarrow> ('s, 'w) rollout_admin \<times> (http_error + 'r)" where
  "lift_admin st m = (case m of (a, r) \<Rightarrow> (st\<lparr>ra_admin := a\<rparr>, r))"

definition rollout_change :: "string \<Rightarrow> string \<Rightarrow> document \<Rightarrow> string \<Rightarrow> admin_change" where
  "rollout_change act rid details event =
     \<lparr>ac_action = act, ac_resource_type = ''routing_rollout'', ac_resource_id = rid, ac_details = details,
      ac_event_type = Some event\<rparr>"

section \<open>Creating a rollout\<close>

fun check_no_active_rollout :: "(string \<Rightarrow> time option) \<Rightarrow> FederationRuntime \<Rightarrow> string \<Rightarrow> string list \<Rightarrow> http_error + unit" where
  "check_no_active_rollout fromisoformat rt coll [] = Ok ()"
| "check_no_active_rollout fromisoformat rt coll (rid # rids) =
     ebind (routing_rollout_or_404 fromisoformat rt rid) (\<lambda>r.
       if rollout_collection r = coll \<and> phase r \<notin> set TERMINAL_ROLLOUT_PHASES
       then Raise (Http 409 ''routing_rollout_already_active'')
       else check_no_active_rollout fromisoformat rt coll rids)"

definition active_policy_for :: "FederationRuntime \<Rightarrow> string \<Rightarrow> document" where
  "active_policy_for rt coll =
     (case dget (routing_rules rt) coll of
        None \<Rightarrow> default_policy coll
      | Some p \<Rightarrow> if dget p ''collection'' = None then p @ [(''collection'', JStr coll)] else p)"

definition create_routing_rollout :: "'s store_api \<Rightarrow> ('w, 'p) rollout_env \<Rightarrow> admin_request \<Rightarrow> RoutingRules \<Rightarrow> int
    \<Rightarrow> ('s, 'w) rollout_admin \<Rightarrow> ('s, 'w) rollout_admin \<times> (http_error + int \<times> RoutingRollout)" where
  "create_routing_rollout api env rq policy rollback_window st =
     (let rt = ra_federation st; coll = ru_collection policy; candidate = policy_payload policy in
      case ebind (expected_revision (rv_admin env) rq (ra_manager st)) (\<lambda>expected.
          if is_disabled rt coll then Raise (Http 409 ''collection_tombstoned'')
          else ebind (check_no_active_rollout (rv_fromisoformat env) rt coll (dkeys (routing_rollouts rt))) (\<lambda>_.
            case validate_routing_policy (re_repr (av_replica (rv_admin env))) rt (policy_rules candidate) (policy_default candidate) of
              Raise _ \<Rightarrow> Raise (Http 422 ''cluster'')
            | Ok _ \<Rightarrow> Ok expected)) of
        Raise e \<Rightarrow> (st, Raise e)
      | Ok expected \<Rightarrow>
         (let r = new_rollout (rv_uuid env) coll (active_policy_for rt coll) candidate (admin_actor (rv_admin env) rq)
                rollback_window (rv_now env) in
          lift_admin st (sbind (commit_change api (rv_admin env) rq 0 (ra_admin st) (with_rollout (rv_isoformat env) (rollout_id r) r rt)
              (rollout_change ''routing_rollout_created'' (rollout_id r)
                [(''collection'', JStr coll), (''phase'', JStr (phase_value (phase r))), (''rollout_version'', JInt (rollout_version r))]
                ''routing.rollout.created'') expected (''routing_rollout_created:'' @ rollout_id r))
            (\<lambda>revision a. (a, Ok (revision, r))))))"

section \<open>Transitions\<close>

record transition_request =
  tr_target :: RolloutPhase
  tr_expected_version :: int
  tr_gates :: "RoutingRolloutGates option"
  tr_checkpoint :: "document option"
  tr_failure_reason :: string

definition transition_request_ok :: "transition_request \<Rightarrow> bool" where
  "transition_request_ok tr \<longleftrightarrow> 1 \<le> tr_expected_version tr \<and> length (tr_failure_reason tr) \<le> 2048 \<and>
     (tr_target tr = FAILED \<longrightarrow> strip (tr_failure_reason tr) \<noteq> []) \<and>
     (case tr_gates tr of None \<Rightarrow> True | Some g \<Rightarrow> length (source_barrier g) \<le> 512 \<and> length (parity_digest g) \<le> 256 \<and>
        0 \<le> unresolved_dlq g \<and> 0 \<le> kafka_lag g \<and> 0 \<le> max_kafka_lag g)"

definition operator_gates :: "RoutingRollout \<Rightarrow> transition_request \<Rightarrow> http_error + RoutingRolloutGates option" where
  "operator_gates r tr =
     (case tr_gates tr of
        None \<Rightarrow> Ok None
      | Some g \<Rightarrow>
          if tr_target tr \<noteq> DUAL_WRITE then Raise (Http 422 ''routing_rollout_evidence_read_only'')
          else if backfill_complete g \<or> source_barrier g \<noteq> [] \<or> parity_passed g \<or> parity_digest g \<noteq> [] \<or>
            unresolved_dlq g \<noteq> 0 \<or> kafka_lag g \<noteq> 0 \<or> max_kafka_lag g \<noteq> 0
          then Raise (Http 422 ''routing_rollout_evidence_read_only'')
          else Ok (Some ((gates r)\<lparr>validation_passed := validation_passed g, capacity_passed := capacity_passed g\<rparr>)))"

definition operational_evidence :: "('w, 'p) rollout_env \<Rightarrow> string \<Rightarrow> KafkaOperationalEvidence option" where
  "operational_evidence env coll =
     measure_evidence (rv_brokers env) (rv_consumer_group env) (rv_dlq_group env)
       (rv_topic_prefix env @ ''_'' @ coll) (rv_topic_prefix env @ ''_dlq'')"

definition measured_gates :: "('w, 'p) rollout_env \<Rightarrow> EvDb \<Rightarrow> RoutingRollout \<Rightarrow> http_error + RoutingRolloutGates" where
  "measured_gates env events r =
     (if \<not> rv_durable env then Raise (Http 503 ''durable_indexing_store_required'')
      else case operational_evidence env (rollout_collection r) of
        None \<Rightarrow> Raise (Http 503 ''routing_operational_evidence_unavailable'')
      | Some ev \<Rightarrow> Ok ((gates r)\<lparr>unresolved_dlq := evidence_unresolved_dlq ev,
          kafka_lag := consumer_lag ev + int (db_pending_count events), max_kafka_lag := rv_max_kafka_lag env\<rparr>))"

definition transition_gates :: "('w, 'p) rollout_env \<Rightarrow> EvDb \<Rightarrow> RoutingRollout \<Rightarrow> transition_request \<Rightarrow> http_error + RoutingRolloutGates option" where
  "transition_gates env events r tr =
     (if tr_checkpoint tr \<noteq> None then Raise (Http 422 ''routing_rollout_checkpoint_read_only'')
      else ebind (operator_gates r tr) (\<lambda>g.
        if tr_target tr \<in> {CUTOVER, COMPLETED} then ebind (measured_gates env events r) (\<lambda>m. Ok (Some m)) else Ok g))"

definition transition_error :: "rollout_error \<Rightarrow> http_error" where
  "transition_error e = (case e of
     RolloutVersionConflict _ _ \<Rightarrow> Http 409 ''routing_rollout_version_conflict''
   | InvalidRolloutTransition \<Rightarrow> Http 409 ''invalid_routing_rollout_transition''
   | RolloutGateError _ \<Rightarrow> Http 422 ''routing_rollout_gate_failed'')"

definition lift_rollout :: "(rollout_error \<Rightarrow> http_error) \<Rightarrow> rollout_error + 'r \<Rightarrow> http_error + 'r" where
  "lift_rollout f m = (case m of Raise e \<Rightarrow> Raise (f e) | Ok x \<Rightarrow> Ok x)"

definition next_rollout :: "('w, 'p) rollout_env \<Rightarrow> EvDb \<Rightarrow> RoutingRollout \<Rightarrow> transition_request \<Rightarrow> http_error + RoutingRollout" where
  "next_rollout env events r tr =
     ebind (transition_gates env events r tr) (\<lambda>g.
       lift_rollout transition_error (transition r (tr_target tr) (tr_expected_version tr) g None (tr_failure_reason tr) (rv_now env)))"

definition with_transition :: "(time \<Rightarrow> string) \<Rightarrow> string \<Rightarrow> RoutingRollout \<Rightarrow> FederationRuntime \<Rightarrow> FederationRuntime" where
  "with_transition isoformat rid r rt =
     (with_rollout isoformat rid r rt)\<lparr>routing_rules := (if phase r = COMPLETED
        then dput (rollout_collection r) (candidate_policy r) (routing_rules rt) else routing_rules rt)\<rparr>"

definition transition_routing_rollout :: "'s store_api \<Rightarrow> ('w, 'p) rollout_env \<Rightarrow> admin_request \<Rightarrow> string \<Rightarrow> transition_request
    \<Rightarrow> ('s, 'w) rollout_admin \<Rightarrow> ('s, 'w) rollout_admin \<times> (http_error + int \<times> RoutingRollout)" where
  "transition_routing_rollout api env rq rid tr st =
     (case ebind (expected_revision (rv_admin env) rq (ra_manager st)) (\<lambda>expected.
          ebind (routing_rollout_or_404 (rv_fromisoformat env) (ra_federation st) rid) (\<lambda>r.
          ebind (next_rollout env (ra_events st) r tr) (\<lambda>updated. Ok (expected, r, updated)))) of
        Raise e \<Rightarrow> (st, Raise e)
      | Ok (expected, r, updated) \<Rightarrow>
          lift_admin st (sbind (commit_change api (rv_admin env) rq 0 (ra_admin st)
              (with_transition (rv_isoformat env) rid updated (ra_federation st))
              (rollout_change ''routing_rollout_transitioned'' rid
                [(''collection'', JStr (rollout_collection updated)), (''from_phase'', JStr (phase_value (phase r))),
                 (''to_phase'', JStr (phase_value (phase updated))), (''rollout_version'', JInt (rollout_version updated))]
                ''routing.rollout.transitioned'') expected (''routing_rollout_transitioned:'' @ rid))
            (\<lambda>revision a. (a, Ok (revision, updated)))))"

section \<open>Backfill\<close>

definition commit_rollout_update :: "'s store_api \<Rightarrow> ('w, 'p) rollout_env \<Rightarrow> admin_request \<Rightarrow> RoutingRollout \<Rightarrow> RoutingRollout
    \<Rightarrow> int \<Rightarrow> string \<Rightarrow> document \<Rightarrow> ('s, 'w) rollout_admin \<Rightarrow> ('s, 'w) rollout_admin \<times> (http_error + int)" where
  "commit_rollout_update api env rq r updated expected act details st =
     lift_admin st (commit_change api (rv_admin env) rq 0 (ra_admin st)
       (with_rollout (rv_isoformat env) (rollout_id r) updated (ra_federation st))
       (rollout_change act (rollout_id r)
         ([(''collection'', JStr (rollout_collection r)), (''phase'', JStr (phase_value (phase r))),
           (''rollout_version'', JInt (rollout_version updated))] @ details)
         (''routing.rollout.'' @ act)) expected (act @ '':'' @ rollout_id r))"

definition checkpoint_int :: "document \<Rightarrow> string \<Rightarrow> int \<Rightarrow> http_error + int" where
  "checkpoint_int cp k fallback =
     (case dget cp k of None \<Rightarrow> Ok fallback | Some (JInt n) \<Rightarrow> Ok n | Some _ \<Rightarrow> Raise (Unhandled ''checkpoint''))"

text \<open>The raw copy of one chunk, and the window of events that has to be repaired when it was the last.\<close>

definition copy_chunk :: "('w, 'p) rollout_env \<Rightarrow> FederationRuntime \<Rightarrow> RoutingRollout \<Rightarrow> document \<Rightarrow> int \<Rightarrow> nat
    \<Rightarrow> 'w \<Rightarrow> EvDb \<Rightarrow> 'w \<times> EvDb \<times> (http_error + document \<times> nat \<times> nat)" where
  "copy_chunk env rt r cp barrier max_documents w events =
     (case run_step (rv_python env) (rv_migration env) rt w r cp max_documents of
        (w1, Raise _) \<Rightarrow> (w1, rv_meanwhile env events, Raise (Http 422 ''routing_backfill_failed''))
      | (w1, Ok result) \<Rightarrow>
          (let events1 = rv_meanwhile env events;
               through = db_high_water_mark events1;
               cp1 = dput ''raw_copy_complete'' (JBool (bs_complete result))
                 (dput ''source_barrier_position'' (JInt barrier) (bs_checkpoint result));
               cp2 = (if bs_complete result then
                   dput ''repair_complete'' (JBool (through \<le> barrier)) (dput ''repair_cursor_position'' (JInt barrier)
                     (dput ''repair_through_position'' (JInt through) cp1)) else cp1) in
           (w1, events1, Ok (cp2, bs_copied result, bs_source_documents result))))"

text \<open>Publishing the newest mutation of every identity again, at a higher sequence.\<close>

definition repair_draft :: "('w, 'p) rollout_env \<Rightarrow> FederationRuntime \<Rightarrow> RoutingRollout \<Rightarrow> string list \<Rightarrow> int \<Rightarrow> string \<Rightarrow> LatestRepairDraft" where
  "repair_draft env rt r targets through identity =
     \<lparr>rp_identity_hash = identity,
      rp_idempotency_key = ''rollout-repair:'' @ rollout_id r @ '':'' @ int_str through @ '':'' @ identity,
      rp_target_clusters = targets, rp_routing_revision = max 1 (rt_revision rt), rp_rollout_id = Some (rollout_id r),
      rp_trace = rv_trace env\<rparr>"

definition publish_latest_repair :: "('w, 'p) rollout_env \<Rightarrow> LatestRepairDraft \<Rightarrow> EvDb \<Rightarrow> kafka_log
    \<Rightarrow> EvDb \<times> kafka_log \<times> (event_error + unit)" where
  "publish_latest_repair env rp events klog =
     (case db_prepare_latest_repair (platform_of (rv_python env)) events (rv_event_env env (rp_identity_hash rp)) rp of
        (events1, Raise e) \<Rightarrow> (events1, klog, Raise e)
      | (events1, Ok e) \<Rightarrow>
          if pe_published_at e \<noteq> None then (events1, klog, Ok ())
          else publish_prepared db_mark_published db_record_failure (rv_topic_prefix env) (rv_propagated env) (rv_send env e)
            (rv_now env) events1 klog e)"

fun repair_events :: "('w, 'p) rollout_env \<Rightarrow> FederationRuntime \<Rightarrow> RoutingRollout \<Rightarrow> string list \<Rightarrow> int
    \<Rightarrow> PreparedIndexingEvent list \<Rightarrow> EvDb \<Rightarrow> kafka_log \<Rightarrow> EvDb \<times> kafka_log \<times> (event_error + nat)" where
  "repair_events env rt r targets through [] events klog = (events, klog, Ok 0)"
| "repair_events env rt r targets through (e # es) events klog =
     (if fst (snd (payload_identity (pe_payload e))) \<noteq> rollout_collection r
      then repair_events env rt r targets through es events klog
      else case publish_latest_repair env
          (repair_draft env rt r targets through (event_identity_hash (platform_of (rv_python env)) e)) events klog of
        (events1, klog1, Raise x) \<Rightarrow> (events1, klog1, Raise x)
      | (events1, klog1, Ok _) \<Rightarrow>
          (case repair_events env rt r targets through es events1 klog1 of
             (events2, klog2, res) \<Rightarrow> (events2, klog2, map_sum id Suc res)))"

definition event_failure :: "event_error \<Rightarrow> http_error" where
  "event_failure e = (case e of BadEvent _ \<Rightarrow> Http 422 ''routing_backfill_failed'' | _ \<Rightarrow> Unhandled ''event store'')"

definition repair_page :: "('w, 'p) rollout_env \<Rightarrow> FederationRuntime \<Rightarrow> RoutingRollout \<Rightarrow> document \<Rightarrow> int \<Rightarrow> nat
    \<Rightarrow> EvDb \<Rightarrow> kafka_log \<Rightarrow> EvDb \<times> kafka_log \<times> (http_error + document)" where
  "repair_page env rt r cp barrier max_documents events klog =
     (case ebind (checkpoint_int cp ''repair_cursor_position'' barrier) (\<lambda>cursor.
          ebind (case dget cp ''repair_through_position'' of Some (JInt n) \<Rightarrow> Ok n | _ \<Rightarrow> Raise (Unhandled ''checkpoint'')) (\<lambda>through.
          ebind (checkpoint_int cp ''repair_events_published'' 0) (\<lambda>published.
          ebind (case db_list_latest_by_identity events cursor through (int max_documents) of
              Raise e \<Rightarrow> Raise (event_failure e) | Ok es \<Rightarrow> Ok es) (\<lambda>es.
          ebind (case candidate_cluster_names (rv_python env) rt r of
              Raise _ \<Rightarrow> Raise (Http 422 ''routing_backfill_failed'') | Ok cs \<Rightarrow> Ok cs) (\<lambda>targets.
            Ok (through, published, es, targets)))))) of
        Raise e \<Rightarrow> (events, klog, Raise e)
      | Ok (through, published, es, targets) \<Rightarrow>
          (case repair_events env rt r targets through es events klog of
             (events1, klog1, Raise e) \<Rightarrow> (events1, klog1, Raise (event_failure e))
           | (events1, klog1, Ok n) \<Rightarrow>
               (let cursor = (if es = [] then through else pe_position (last es)) in
                (events1, klog1, Ok (dput ''repair_complete'' (JBool (through \<le> cursor))
                   (dput ''repair_events_published'' (JInt (published + int n))
                     (dput ''repair_cursor_position'' (JInt cursor) cp)))))))"

definition durable_barrier :: "int \<Rightarrow> string" where
  "durable_barrier n = ''indexing-outbox:'' @ int_str n"

definition backfill_error :: "rollout_error \<Rightarrow> http_error" where
  "backfill_error e = (case e of RolloutVersionConflict _ _ \<Rightarrow> Http 409 ''routing_rollout_version_conflict''
     | _ \<Rightarrow> Http 422 ''routing_backfill_failed'')"

text \<open>The middle of \<open>run_routing_backfill_step\<close>: copy, repair, or nothing when both are complete.\<close>

definition backfill_work :: "('w, 'p) rollout_env \<Rightarrow> RoutingRollout \<Rightarrow> document \<Rightarrow> int \<Rightarrow> nat \<Rightarrow> nat \<Rightarrow> ('s, 'w) rollout_admin
    \<Rightarrow> ('s, 'w) rollout_admin \<times> (http_error + document \<times> nat \<times> nat)" where
  "backfill_work env r cp barrier seen max_documents st =
     (if \<not> truthy (jget cp ''raw_copy_complete'') then
        (case copy_chunk env (ra_federation st) r cp barrier max_documents (ad_provider (ra_admin st)) (ra_events st) of
           (w, events, res) \<Rightarrow> (st\<lparr>ra_admin := (ra_admin st)\<lparr>ad_provider := w\<rparr>, ra_events := events\<rparr>, res))
      else if \<not> truthy (jget cp ''repair_complete'') then
        (case repair_page env (ra_federation st) r cp barrier max_documents (ra_events st) (ra_log st) of
           (events, klog, res) \<Rightarrow> (st\<lparr>ra_events := events, ra_log := klog\<rparr>, ebind res (\<lambda>cp'. Ok (cp', 0, seen))))
      else (st, Ok (cp, 0, seen)))"

text \<open>A rollout that came back from verification to backfill copies and repairs nothing: its checkpoint still says complete.\<close>

lemma backfill_reentry_copies_nothing:
  "truthy (jget cp ''raw_copy_complete'') \<Longrightarrow> truthy (jget cp ''repair_complete'') \<Longrightarrow>
     backfill_work env r cp barrier seen n st = (st, Ok (cp, 0, seen))"
  by (simp add: backfill_work_def)

definition backfill_start :: "('w, 'p) rollout_env \<Rightarrow> admin_request \<Rightarrow> string \<Rightarrow> int \<Rightarrow> ('s, 'w) rollout_admin
    \<Rightarrow> http_error + int \<times> RoutingRollout \<times> int \<times> nat" where
  "backfill_start env rq rid expected_version st =
     ebind (expected_revision (rv_admin env) rq (ra_manager st)) (\<lambda>expected.
     ebind (routing_rollout_or_404 (rv_fromisoformat env) (ra_federation st) rid) (\<lambda>r.
     ebind (require (rv_durable env) (Http 503 ''durable_indexing_store_required'')) (\<lambda>_.
     ebind (require (expected_version = rollout_version r) (Http 409 ''routing_rollout_version_conflict'')) (\<lambda>_.
     ebind (require (phase r = BACKFILL) (Http 409 ''routing_rollout_phase_conflict'')) (\<lambda>_.
     ebind (checkpoint_int (backfill_checkpoint r) ''source_barrier_position'' (db_high_water_mark (ra_events st))) (\<lambda>barrier.
     ebind (checkpoint_int (backfill_checkpoint r) ''source_documents_seen'' 0) (\<lambda>seen.
       Ok (expected, r, barrier, nat seen))))))))"

definition run_routing_backfill_step :: "'s store_api \<Rightarrow> ('w, 'p) rollout_env \<Rightarrow> admin_request \<Rightarrow> string \<Rightarrow> int \<Rightarrow> nat
    \<Rightarrow> ('s, 'w) rollout_admin \<Rightarrow> ('s, 'w) rollout_admin \<times> (http_error + int \<times> RoutingRollout \<times> nat \<times> nat)" where
  "run_routing_backfill_step api env rq rid expected_version max_documents st =
     (case backfill_start env rq rid expected_version st of
        Raise e \<Rightarrow> (st, Raise e)
      | Ok (expected, r, barrier, seen) \<Rightarrow>
         sbind (backfill_work env r (dput ''source_barrier_position'' (JInt barrier) (backfill_checkpoint r)) barrier seen max_documents st)
          (\<lambda>(cp, copied, source_documents) st1.
            (case lift_rollout backfill_error (record_backfill_progress r expected_version cp (durable_barrier barrier)
                (truthy (jget cp ''raw_copy_complete'') \<and> truthy (jget cp ''repair_complete'')) (rv_now env)) of
               Raise e \<Rightarrow> (st1, Raise e)
             | Ok updated \<Rightarrow>
                 sbind (commit_rollout_update api env rq r updated expected ''routing_rollout_backfill_progressed''
                   [(''copied'', JInt (int copied)), (''raw_copy_complete'', JBool (truthy (jget cp ''raw_copy_complete''))),
                    (''repair_complete'', JBool (truthy (jget cp ''repair_complete'')))] st1)
                  (\<lambda>revision st2. (st2, Ok (revision, updated, copied, source_documents))))))"

section \<open>Parity\<close>

record parity_run =
  pv_start_barrier :: int
  pv_end_barrier :: int
  pv_pending_before :: nat
  pv_pending_after :: nat
  pv_report :: ParityReport

definition parity_holds :: "parity_run \<Rightarrow> bool" where
  "parity_holds v \<longleftrightarrow> pr_passed (pv_report v) \<and> pv_start_barrier v = pv_end_barrier v \<and>
     pv_pending_before v = 0 \<and> pv_pending_after v = 0"

definition parity_checkpoint :: "document \<Rightarrow> parity_run \<Rightarrow> document" where
  "parity_checkpoint cp v =
     dput ''verification_candidate_documents'' (JInt (int (pr_candidate_documents (pv_report v))))
     (dput ''verification_source_documents'' (JInt (int (pr_source_documents (pv_report v))))
     (dput ''verification_pending_after'' (JInt (int (pv_pending_after v)))
     (dput ''verification_pending_before'' (JInt (int (pv_pending_before v)))
     (dput ''verification_end_barrier'' (JInt (pv_end_barrier v))
     (dput ''verification_start_barrier'' (JInt (pv_start_barrier v)) cp)))))"

definition run_parity :: "('w, 'p) rollout_env \<Rightarrow> RoutingRollout \<Rightarrow> nat \<Rightarrow> ('s, 'w) rollout_admin \<Rightarrow> http_error + parity_run" where
  "run_parity env r sample_limit st =
     (case verify_parity (rv_python env) (rv_migration env) (ra_federation st) (ad_provider (ra_admin st)) r sample_limit of
        Raise _ \<Rightarrow> Raise (Http 422 ''routing_parity_failed'')
      | Ok report \<Rightarrow>
         (let events1 = rv_meanwhile env (ra_events st) in
          Ok \<lparr>pv_start_barrier = db_high_water_mark (ra_events st), pv_end_barrier = db_high_water_mark events1,
              pv_pending_before = db_pending_count (ra_events st), pv_pending_after = db_pending_count events1,
              pv_report = report\<rparr>))"

definition recorded_parity :: "('w, 'p) rollout_env \<Rightarrow> RoutingRollout \<Rightarrow> int \<Rightarrow> parity_run \<Rightarrow> http_error + RoutingRollout" where
  "recorded_parity env r expected_version v =
     lift_rollout (\<lambda>_. Http 409 ''routing_parity_state_conflict'')
       (record_parity_evidence r expected_version (parity_holds v) (if parity_holds v then pr_digest (pv_report v) else [])
         (parity_checkpoint (backfill_checkpoint r) v) (rv_now env))"

definition verify_routing_rollout_parity :: "'s store_api \<Rightarrow> ('w, 'p) rollout_env \<Rightarrow> admin_request \<Rightarrow> string \<Rightarrow> int \<Rightarrow> nat
    \<Rightarrow> ('s, 'w) rollout_admin \<Rightarrow> ('s, 'w) rollout_admin \<times> (http_error + int \<times> RoutingRollout \<times> parity_run)" where
  "verify_routing_rollout_parity api env rq rid expected_version sample_limit st =
     (case ebind (expected_revision (rv_admin env) rq (ra_manager st)) (\<lambda>expected.
          ebind (routing_rollout_or_404 (rv_fromisoformat env) (ra_federation st) rid) (\<lambda>r.
          ebind (require (rv_durable env) (Http 503 ''durable_indexing_store_required'')) (\<lambda>_.
          ebind (require (expected_version = rollout_version r) (Http 409 ''routing_rollout_version_conflict'')) (\<lambda>_.
          ebind (require (truthy (jget (backfill_checkpoint r) ''repair_complete'')) (Http 409 ''routing_backfill_repair_incomplete'')) (\<lambda>_.
          ebind (run_parity env r sample_limit st) (\<lambda>v.
          ebind (recorded_parity env r expected_version v) (\<lambda>updated. Ok (expected, r, v, updated)))))))) of
        Raise e \<Rightarrow> (st, Raise e)
      | Ok (expected, r, v, updated) \<Rightarrow>
         sbind (commit_rollout_update api env rq r updated expected ''routing_rollout_parity_recorded''
             [(''passed'', JBool (parity_holds v)), (''source_documents'', JInt (int (pr_source_documents (pv_report v)))),
              (''candidate_documents'', JInt (int (pr_candidate_documents (pv_report v)))),
              (''stable_barrier'', JBool (pv_start_barrier v = pv_end_barrier v))]
             (st\<lparr>ra_events := rv_meanwhile env (ra_events st)\<rparr>))
          (\<lambda>revision st1. (st1, Ok (revision, updated, v))))"

end
