(* ===== verification/RolloutEvidence.thy ===== *)
theory RolloutEvidence
  imports AdminRollouts
begin

text \<open>
  What the rollout handlers of \<open>AdminRollouts\<close> guarantee: the evidence of a rollout is written by the
  machine only, a cutover rests on a parity run that passed, and the repair pages of a backfill
  reach the end of their window.
\<close>

section \<open>Committing a rollout\<close>

text \<open>Whatever becomes of a commit, the replica has the changed rollouts or those from before.\<close>

lemma commit_change_rollouts:
  assumes "commit_change api env rq i st changed ch expected t = (st', res)"
  shows "routing_rollouts (ad_federation st') = routing_rollouts changed \<or>
    routing_rollouts (ad_federation st') = routing_rollouts (ad_federation st)"
  using assms
  by (auto simp: commit_change_def persist_state_def sbind_def Let_def notify_config_change_def mark_applied_revision_def
      split: prod.splits sum.splits manager_error.splits bool.splits if_splits)

lemma lift_reply:
  assumes "lift_admin st (sbind m (\<lambda>x a. (a, Ok (x, y)))) = (st', Ok z)"
  obtains a x where "m = (a, Ok x)" and "st' = st\<lparr>ra_admin := a\<rparr>" and "z = (x, y)"
  using assms by (cases m; cases "snd m") (auto simp: lift_admin_def)

lemma lift_rollout_Ok [simp]: "lift_rollout f m = Ok x \<longleftrightarrow> m = Ok x"
  by (simp add: lift_rollout_def split: sum.split)

section \<open>Operators cannot write evidence\<close>

text \<open>The fields of the gates that only the backfill and the parity handlers write.\<close>

definition machine_evidence :: "RoutingRollout \<Rightarrow> bool \<times> string \<times> bool \<times> string \<times> document" where
  "machine_evidence r = (backfill_complete (gates r), source_barrier (gates r), parity_passed (gates r),
     parity_digest (gates r), backfill_checkpoint r)"

text \<open>The load that the brokers and the event store report is within what a cutover allows.\<close>

definition quiet :: "('w, 'p) rollout_env \<Rightarrow> EvDb \<Rightarrow> string \<Rightarrow> bool" where
  "quiet env events coll \<longleftrightarrow> rv_durable env \<and>
     (case operational_evidence env coll of None \<Rightarrow> False
      | Some ev \<Rightarrow> evidence_unresolved_dlq ev = 0 \<and> consumer_lag ev + int (db_pending_count events) \<le> rv_max_kafka_lag env)"

lemma operator_gates_evidence:
  assumes "operator_gates r tr = Ok (Some g)"
  shows "backfill_complete g = backfill_complete (gates r)" and "source_barrier g = source_barrier (gates r)"
    and "parity_passed g = parity_passed (gates r)" and "parity_digest g = parity_digest (gates r)"
  using assms by (auto simp: operator_gates_def split: option.splits if_splits)

lemma measured_gates_OkD:
  assumes "measured_gates env events r = Ok g"
  obtains ev where "rv_durable env" and "operational_evidence env (rollout_collection r) = Some ev"
    and "g = (gates r)\<lparr>unresolved_dlq := evidence_unresolved_dlq ev,
      kafka_lag := consumer_lag ev + int (db_pending_count events), max_kafka_lag := rv_max_kafka_lag env\<rparr>"
  using assms by (auto simp: measured_gates_def split: if_splits option.splits)

lemma next_rollout_evidence:
  assumes "next_rollout env events r tr = Ok r'"
  shows "machine_evidence r' = machine_evidence r" and "phase r' = tr_target tr"
    and "phase r' \<in> {CUTOVER, COMPLETED} \<Longrightarrow> quiet env events (rollout_collection r')"
    and "rollout_version r' = rollout_version r + 1" and "tr_expected_version tr = rollout_version r"
proof -
  from assms obtain g where g: "transition_gates env events r tr = Ok g"
    and tr: "transition r (tr_target tr) (tr_expected_version tr) g None (tr_failure_reason tr) (rv_now env) = Ok r'"
    by (auto simp: next_rollout_def ebind_eq_Ok)
  note r' = transition_OkD [OF tr]
  show "phase r' = tr_target tr" "rollout_version r' = rollout_version r + 1" "tr_expected_version tr = rollout_version r"
    using r' by simp_all
  have checkpoint: "backfill_checkpoint r' = backfill_checkpoint r"
    using tr by (auto simp: transition_def Let_def ebind_eq_Ok split: if_splits)
  show "machine_evidence r' = machine_evidence r"
  proof (cases "tr_target tr \<in> {CUTOVER, COMPLETED}")
    case True
    with g obtain m where "measured_gates env events r = Ok m" and "g = Some m"
      by (auto simp: transition_gates_def ebind_eq_Ok split: if_splits)
    then show ?thesis using r'(5) checkpoint
      by (auto simp: machine_evidence_def elim!: measured_gates_OkD)
  next
    case False
    with g have "operator_gates r tr = Ok g"
      by (auto simp: transition_gates_def ebind_eq_Ok split: if_splits)
    then show ?thesis using r'(5) checkpoint
      by (cases g) (auto simp: machine_evidence_def dest: operator_gates_evidence)
  qed
  show "quiet env events (rollout_collection r')" if "phase r' \<in> {CUTOVER, COMPLETED}"
  proof -
    from that r'(4) have target: "tr_target tr \<in> {CUTOVER, COMPLETED}" by simp
    with g obtain m where "measured_gates env events r = Ok m" and "g = Some m"
      by (auto simp: transition_gates_def ebind_eq_Ok split: if_splits)
    with r'(5,6,13) target show ?thesis
      by (auto simp: quiet_def validate_Ok_iff elim!: measured_gates_OkD)
  qed
qed

lemma transition_handler_OkD:
  assumes "transition_routing_rollout api env rq rid tr st = (st', Ok (n, r'))"
  obtains r where "routing_rollout_or_404 (rv_fromisoformat env) (ra_federation st) rid = Ok r"
    and "next_rollout env (ra_events st) r tr = Ok r'"
proof -
  define found where "found = ebind (expected_revision (rv_admin env) rq (ra_manager st)) (\<lambda>expected.
    ebind (routing_rollout_or_404 (rv_fromisoformat env) (ra_federation st) rid) (\<lambda>r.
    ebind (next_rollout env (ra_events st) r tr) (\<lambda>updated. Ok (expected, r, updated))))"
  show ?thesis
  proof (cases found)
    case (Inl e)
    with assms show ?thesis by (simp add: transition_routing_rollout_def found_def)
  next
    case (Inr x)
    then obtain expected r updated where found: "found = Ok (expected, r, updated)" by (metis prod_cases3)
    then have "routing_rollout_or_404 (rv_fromisoformat env) (ra_federation st) rid = Ok r"
      and "next_rollout env (ra_events st) r tr = Ok updated"
      by (auto simp: found_def ebind_eq_Ok)
    moreover have "updated = r'"
      using assms found by (auto simp: transition_routing_rollout_def found_def elim!: lift_reply)
    ultimately show ?thesis using that by blast
  qed
qed

text \<open>
  C10. A successful transition request never changes the evidence of the rollout: the backfill and parity
  gates and the checkpoint are those of the stored rollout. It reaches cutover or completion only when
  the brokers reported no dead letter and the lag together with the events still unpublished was within
  the limit, whatever gates the caller sent.
\<close>

theorem evidence_machine_owned:
  assumes "transition_routing_rollout api env rq rid tr st = (st', Ok (n, r'))"
  shows "\<exists>r. routing_rollout_or_404 (rv_fromisoformat env) (ra_federation st) rid = Ok r \<and>
    machine_evidence r' = machine_evidence r \<and> tr_expected_version tr = rollout_version r \<and>
    rollout_version r' = rollout_version r + 1 \<and>
    (phase r' \<in> {CUTOVER, COMPLETED} \<longrightarrow> quiet env (ra_events st) (rollout_collection r'))"
  using transition_handler_OkD [OF assms] next_rollout_evidence by metis

section \<open>A cutover rests on a parity run\<close>

text \<open>One request to verify the parity of a rollout, and the state it found.\<close>

record ('s, 'w, 'p) parity_call =
  pc_env :: "('w, 'p) rollout_env"
  pc_request :: admin_request
  pc_rollout_id :: string
  pc_version :: int
  pc_sample_limit :: nat
  pc_state :: "('s, 'w) rollout_admin"

text \<open>
  The states of a replica that starts without rollouts, under any sequence of the rollout handlers,
  each with its own environment and outcome, and of steps that keep the rollouts; the verification
  requests so far are listed.
\<close>

inductive rollouts_run :: "'s store_api \<Rightarrow> (time \<Rightarrow> string) \<Rightarrow> (string \<Rightarrow> time option)
    \<Rightarrow> ('s, 'w, 'p) parity_call list \<Rightarrow> ('s, 'w) rollout_admin \<Rightarrow> bool"
  for api isot fromiso where
  Start: "routing_rollouts (ra_federation st) = [] \<Longrightarrow> rollouts_run api isot fromiso [] st"
| Created: "rollouts_run api isot fromiso cs st \<Longrightarrow> rv_isoformat env = isot \<Longrightarrow> rv_fromisoformat env = fromiso
    \<Longrightarrow> create_routing_rollout api (env :: ('w, 'p) rollout_env) rq policy window st = (st', res) \<Longrightarrow> rollouts_run api isot fromiso cs st'"
| Transitioned: "rollouts_run api isot fromiso cs st \<Longrightarrow> rv_isoformat env = isot \<Longrightarrow> rv_fromisoformat env = fromiso
    \<Longrightarrow> transition_routing_rollout api (env :: ('w, 'p) rollout_env) rq rid tr st = (st', res) \<Longrightarrow> rollouts_run api isot fromiso cs st'"
| Backfilled: "rollouts_run api isot fromiso cs st \<Longrightarrow> rv_isoformat env = isot \<Longrightarrow> rv_fromisoformat env = fromiso
    \<Longrightarrow> run_routing_backfill_step api (env :: ('w, 'p) rollout_env) rq rid v n st = (st', res') \<Longrightarrow> rollouts_run api isot fromiso cs st'"
| Compared: "rollouts_run api isot fromiso cs st \<Longrightarrow> rv_isoformat env = isot \<Longrightarrow> rv_fromisoformat env = fromiso
    \<Longrightarrow> verify_routing_rollout_parity api env rq rid v n st = (st', res'')
    \<Longrightarrow> rollouts_run api isot fromiso (\<lparr>pc_env = env, pc_request = rq, pc_rollout_id = rid, pc_version = v,
          pc_sample_limit = n, pc_state = st\<rparr> # cs) st'"
| Elsewhere: "rollouts_run api isot fromiso cs st
    \<Longrightarrow> routing_rollouts (ra_federation st') = routing_rollouts (ra_federation st) \<Longrightarrow> rollouts_run api isot fromiso cs st'"

text \<open>What a handler does to the rollouts: nothing, or one rollout is stored.\<close>

definition stores_rollout :: "(time \<Rightarrow> string) \<Rightarrow> (string \<Rightarrow> RoutingRollout \<Rightarrow> bool) \<Rightarrow> ('s, 'w) rollout_admin \<Rightarrow> ('s, 'w) rollout_admin \<Rightarrow> bool" where
  "stores_rollout isot P st st' \<longleftrightarrow>
     routing_rollouts (ra_federation st') = routing_rollouts (ra_federation st) \<or>
     (\<exists>rid r. P rid r \<and> routing_rollouts (ra_federation st') = dput rid (to_dict isot r) (routing_rollouts (ra_federation st)))"

lemma stores_kept: "routing_rollouts (ra_federation st') = routing_rollouts (ra_federation st) \<Longrightarrow> stores_rollout isot P st st'"
  by (simp add: stores_rollout_def)

lemma stores_committed:
  assumes "lift_admin st1 (sbind (commit_change api e rq i (ra_admin st1) changed ch ex t) k) = (st', res)"
    and "\<And>x a. fst (k x a) = a"
    and "routing_rollouts changed = dput rid (to_dict isot r) (routing_rollouts (ra_federation st))" and "P rid r"
    and "routing_rollouts (ra_federation st1) = routing_rollouts (ra_federation st)"
  shows "stores_rollout isot P st st'"
proof -
  obtain a x where commit: "commit_change api e rq i (ra_admin st1) changed ch ex t = (a, x)" by fastforce
  have "fst (sbind (a, x) k) = a" using assms(2) by (cases x) simp_all
  with assms(1) commit have "ra_federation st' = ad_federation a"
    by (auto simp: lift_admin_def split: prod.splits)
  with commit_change_rollouts [OF commit] assms(3-5) show ?thesis
    unfolding stores_rollout_def by metis
qed

lemma with_rollout_rollouts [simp]:
  "routing_rollouts (with_rollout isot rid r rt) = dput rid (to_dict isot r) (routing_rollouts rt)"
  "routing_rollouts (with_transition isot rid r rt) = dput rid (to_dict isot r) (routing_rollouts rt)"
  by (simp_all add: with_rollout_def with_transition_def)

lemma create_stores:
  assumes "create_routing_rollout api env rq policy window st = (st', res)"
  shows "stores_rollout (rv_isoformat env) (\<lambda>rid r. rollout_id r = rid \<and> phase r = DRAFT \<and> gates r = default_gates) st st'"
proof (cases "ra_federation st' = ra_federation st")
  case False
  with assms show ?thesis
    unfolding create_routing_rollout_def Let_def
    by (auto split: sum.splits intro!: stores_committed [OF _ _ with_rollout_rollouts(1)] simp: new_rollout_def)
qed (simp add: stores_kept)

lemma transition_stores:
  assumes "transition_routing_rollout api env rq rid tr st = (st', res)"
  shows "stores_rollout (rv_isoformat env) (\<lambda>k r'. k = rid \<and> (\<exists>r. routing_rollout_or_404 (rv_fromisoformat env) (ra_federation st) rid = Ok r \<and>
    next_rollout env (ra_events st) r tr = Ok r')) st st'"
proof (cases "ra_federation st' = ra_federation st")
  case False
  with assms show ?thesis
    unfolding transition_routing_rollout_def Let_def
    by (auto simp: ebind_eq_Ok split: sum.splits intro!: stores_committed [OF _ _ with_rollout_rollouts(2)])
qed (simp add: stores_kept)

lemma backfill_work_rollouts:
  "backfill_work env r cp barrier seen n st = (st1, res) \<Longrightarrow> routing_rollouts (ra_federation st1) = routing_rollouts (ra_federation st)"
  by (auto simp: backfill_work_def split: if_splits prod.splits)

lemma commit_rollout_stores:
  assumes "sbind (commit_rollout_update api env rq r updated expected act details st1) (\<lambda>x a. (a, Ok (f x))) = (st', res)"
    and "routing_rollouts (ra_federation st1) = routing_rollouts (ra_federation st)" and "P (rollout_id r) updated"
  shows "stores_rollout (rv_isoformat env) P st st'"
proof -
  obtain a x where commit: "commit_change api (rv_admin env) rq 0 (ra_admin st1)
       (with_rollout (rv_isoformat env) (rollout_id r) updated (ra_federation st1))
       (rollout_change act (rollout_id r)
         ([(''collection'', JStr (rollout_collection r)), (''phase'', JStr (phase_value (phase r))),
           (''rollout_version'', JInt (rollout_version updated))] @ details)
         (''routing.rollout.'' @ act)) expected (act @ '':'' @ rollout_id r) = (a, x)" by fastforce
  with assms(1) have "ra_federation st' = ad_federation a"
    by (cases x) (auto simp: commit_rollout_update_def lift_admin_def)
  with commit_change_rollouts [OF commit] assms(2,3) show ?thesis
    by (auto simp: stores_rollout_def)
qed

lemma backfill_stores:
  assumes "run_routing_backfill_step api env rq rid v n st = (st', res)"
  shows "stores_rollout (rv_isoformat env) (\<lambda>k r'. \<exists>r cp barrier d. routing_rollout_or_404 (rv_fromisoformat env) (ra_federation st) rid = Ok r \<and>
    k = rollout_id r \<and> record_backfill_progress r v cp barrier d (rv_now env) = Ok r') st st'"
proof (cases "ra_federation st' = ra_federation st")
  case False
  with assms obtain expected r barrier seen where start: "backfill_start env rq rid v st = Ok (expected, r, barrier, seen)"
    by (cases "backfill_start env rq rid v st") (auto simp: run_routing_backfill_step_def)
  then have r: "routing_rollout_or_404 (rv_fromisoformat env) (ra_federation st) rid = Ok r"
    by (auto simp: backfill_start_def ebind_eq_Ok split: if_splits)
  obtain st1 work where work: "backfill_work env r (dput ''source_barrier_position'' (JInt barrier) (backfill_checkpoint r)) barrier seen n st = (st1, work)"
    by fastforce
  note kept = backfill_work_rollouts [OF work]
  show ?thesis
  proof (cases work)
    case (Inl e)
    with assms start work have "st' = st1" by (simp add: run_routing_backfill_step_def)
    with kept show ?thesis by (simp add: stores_kept)
  next
    case (Inr y)
    then obtain cp copied documents where y: "work = Ok (cp, copied, documents)" by (metis prod_cases3)
    show ?thesis
    proof (cases "record_backfill_progress r v cp (durable_barrier barrier)
        (truthy (jget cp ''raw_copy_complete'') \<and> truthy (jget cp ''repair_complete'')) (rv_now env)")
      case (Inl e)
      with assms start work y have "st' = st1" by (simp add: run_routing_backfill_step_def lift_rollout_def)
      with kept show ?thesis by (simp add: stores_kept)
    next
      case (Inr updated)
      with assms start work y r kept show ?thesis
        by (auto simp: run_routing_backfill_step_def lift_rollout_def intro!: commit_rollout_stores)
    qed
  qed
qed (simp add: stores_kept)

lemma parity_stores:
  assumes "verify_routing_rollout_parity api env rq rid v n st = (st', res)"
  shows "stores_rollout (rv_isoformat env) (\<lambda>k r'. \<exists>r p. routing_rollout_or_404 (rv_fromisoformat env) (ra_federation st) rid = Ok r \<and>
    k = rollout_id r \<and> run_parity env r n st = Ok p \<and> recorded_parity env r v p = Ok r') st st'"
proof (cases "ra_federation st' = ra_federation st")
  case False
  with assms show ?thesis
    unfolding verify_routing_rollout_parity_def Let_def
    by (auto simp: ebind_eq_Ok split: sum.splits if_splits intro!: commit_rollout_stores)
qed (simp add: stores_kept)

text \<open>A listed request compared the copies of this rollout and found them equal while nothing was pending.\<close>

definition compared :: "(string \<Rightarrow> time option) \<Rightarrow> ('s, 'w, 'p) parity_call list \<Rightarrow> string \<Rightarrow> RoutingRollout \<Rightarrow> bool" where
  "compared fromiso cs rid r \<longleftrightarrow> (\<exists>c \<in> set cs. \<exists>r0 v.
     routing_rollout_or_404 fromiso (ra_federation (pc_state c)) (pc_rollout_id c) = Ok r0 \<and>
     rollout_id r0 = rid \<and> active_policy r0 = active_policy r \<and> candidate_policy r0 = candidate_policy r \<and>
     run_parity (pc_env c) r0 (pc_sample_limit c) (pc_state c) = Ok v \<and> parity_holds v \<and>
     parity_digest (gates r) = pr_digest (pv_report v))"

definition rollout_backed :: "(string \<Rightarrow> time option) \<Rightarrow> ('s, 'w, 'p) parity_call list \<Rightarrow> string \<Rightarrow> RoutingRollout \<Rightarrow> bool" where
  "rollout_backed fromiso cs rid r \<longleftrightarrow> rollout_id r = rid \<and> (parity_passed (gates r) \<longrightarrow> compared fromiso cs rid r) \<and>
     (phase r \<in> {CUTOVER, DRAIN, COMPLETED} \<longrightarrow> parity_passed (gates r))"

definition rollouts_backed :: "(string \<Rightarrow> time option) \<Rightarrow> ('s, 'w, 'p) parity_call list \<Rightarrow> ('s, 'w) rollout_admin \<Rightarrow> bool" where
  "rollouts_backed fromiso cs st \<longleftrightarrow>
     (\<forall>rid r. routing_rollout_or_404 fromiso (ra_federation st) rid = Ok r \<longrightarrow> rollout_backed fromiso cs rid r)"

lemma rollouts_backedD:
  "rollouts_backed fromiso cs st \<Longrightarrow> routing_rollout_or_404 fromiso (ra_federation st) rid = Ok r \<Longrightarrow> rollout_backed fromiso cs rid r"
  by (simp add: rollouts_backed_def)

lemma stored_rollout:
  assumes "\<And>t. fromiso (isot t) = Some t" and "\<And>t. isot t \<noteq> []"
    and "routing_rollouts (ra_federation st') = dput k (to_dict isot r) (routing_rollouts (ra_federation st))"
  shows "routing_rollout_or_404 fromiso (ra_federation st') rid =
    (if rid = k then Ok r else routing_rollout_or_404 fromiso (ra_federation st) rid)"
  using rollout_dict_roundtrip [of fromiso isot r, OF assms(1,2)] assms(3) by (simp add: routing_rollout_or_404_def dget_dput)

lemma backed_stores:
  assumes "\<And>t. fromiso (isot t) = Some t" and "\<And>t. isot t \<noteq> []"
    and "stores_rollout isot P st st'" and "rollouts_backed fromiso cs st"
    and "\<And>rid r. P rid r \<Longrightarrow> rollout_backed fromiso cs rid r"
  shows "rollouts_backed fromiso cs st'"
  using assms(3) unfolding stores_rollout_def
proof
  assume "routing_rollouts (ra_federation st') = routing_rollouts (ra_federation st)"
  with assms(4) show ?thesis by (simp add: rollouts_backed_def routing_rollout_or_404_def)
next
  assume "\<exists>rid r. P rid r \<and> routing_rollouts (ra_federation st') = dput rid (to_dict isot r) (routing_rollouts (ra_federation st))"
  then obtain k r where "P k r" and stored: "routing_rollouts (ra_federation st') = dput k (to_dict isot r) (routing_rollouts (ra_federation st))"
    by blast
  then have "rollout_backed fromiso cs k r" by (simp add: assms(5))
  with assms(4) show ?thesis
    unfolding rollouts_backed_def stored_rollout [OF assms(1,2) stored] by simp
qed

lemma compared_more: "compared fromiso cs rid r \<Longrightarrow> compared fromiso (c # cs) rid r"
  by (auto simp: compared_def)

lemma backed_more: "rollout_backed fromiso cs rid r \<Longrightarrow> rollout_backed fromiso (c # cs) rid r"
  by (auto simp: rollout_backed_def compared_more)

lemma backed_transition:
  assumes "next_rollout env events r tr = Ok r'" and "rollout_backed fromiso cs rid r"
  shows "rollout_backed fromiso cs rid r'"
proof -
  from assms(1) obtain g where "transition r (tr_target tr) (tr_expected_version tr) g None (tr_failure_reason tr) (rv_now env) = Ok r'"
    by (auto simp: next_rollout_def ebind_eq_Ok)
  note r' = transition_OkD [OF this]
  have "machine_evidence r' = machine_evidence r" using assms(1) by (rule next_rollout_evidence)
  then have gates: "parity_passed (gates r') = parity_passed (gates r)" "parity_digest (gates r') = parity_digest (gates r)"
    by (simp_all add: machine_evidence_def)
  have "parity_passed (gates r')" if "phase r' \<in> {CUTOVER, DRAIN, COMPLETED}"
  proof (cases "phase r' = CUTOVER")
    case True
    with r'(4,6) show ?thesis by (simp add: validate_Ok_iff)
  next
    case False
    with that r'(2,4) have "phase r \<in> {CUTOVER, DRAIN}" by (cases "phase r") auto
    with assms(2) gates show ?thesis by (auto simp: rollout_backed_def)
  qed
  with assms(2) gates r' show ?thesis by (simp add: rollout_backed_def compared_def)
qed

lemma backed_progress:
  assumes "record_backfill_progress r v cp barrier d now = Ok r'" and "rollout_backed fromiso cs rid r"
  shows "rollout_backed fromiso cs rid r'"
  using progress_OkD [OF assms(1)] assms(2) by (simp add: rollout_backed_def)

lemma backed_parity:
  assumes "recorded_parity env r v p = Ok r'" and "run_parity (pc_env c) r (pc_sample_limit c) (pc_state c) = Ok p"
    and "routing_rollout_or_404 fromiso (ra_federation (pc_state c)) (pc_rollout_id c) = Ok r" and "rollout_backed fromiso cs rid r"
  shows "rollout_backed fromiso (c # cs) rid r'"
proof -
  from assms(1) have "record_parity_evidence r v (parity_holds p) (if parity_holds p then pr_digest (pv_report p) else [])
      (parity_checkpoint (backfill_checkpoint r) p) (rv_now env) = Ok r'"
    by (simp add: recorded_parity_def)
  note r' = parity_OkD [OF this]
  from r'(2,4) assms(2-4) show ?thesis
    by (auto simp: rollout_backed_def compared_def)
qed

lemma rollouts_run_backed:
  assumes "\<And>t. fromiso (isot t) = Some t" and "\<And>t. isot t \<noteq> []" and "rollouts_run api isot fromiso cs st"
  shows "rollouts_backed fromiso cs st"
  using assms(3)
proof (induction rule: rollouts_run.induct)
  case (Start st)
  then show ?case by (simp add: rollouts_backed_def routing_rollout_or_404_def)
next
  case (Created cs st env rq policy window st' res)
  show ?case
    by (rule backed_stores [OF assms(1,2) create_stores [OF Created.hyps(4), unfolded Created.hyps(2)] Created.IH])
      (auto simp: rollout_backed_def default_gates_def)
next
  case (Transitioned cs st env rq rid tr st' res)
  show ?case
    by (rule backed_stores [OF assms(1,2) transition_stores [OF Transitioned.hyps(4), unfolded Transitioned.hyps(2,3)] Transitioned.IH])
      (auto intro: backed_transition rollouts_backedD [OF Transitioned.IH])
next
  case (Backfilled cs st env rq rid v n st' res')
  show ?case
  proof (rule backed_stores [OF assms(1,2) backfill_stores [OF Backfilled.hyps(4), unfolded Backfilled.hyps(2,3)] Backfilled.IH], elim exE conjE)
    fix k r' r cp barrier d
    assume r: "routing_rollout_or_404 fromiso (ra_federation st) rid = Ok r" and k: "k = rollout_id r"
      and r': "record_backfill_progress r v cp barrier d (rv_now env) = Ok r'"
    from rollouts_backedD [OF Backfilled.IH r] have "rollout_backed fromiso cs k r" by (simp add: k rollout_backed_def)
    with r' show "rollout_backed fromiso cs k r'" by (rule backed_progress)
  qed
next
  case (Compared cs st env rq rid v n st' res'')
  let ?c = "\<lparr>pc_env = env, pc_request = rq, pc_rollout_id = rid, pc_version = v, pc_sample_limit = n, pc_state = st\<rparr>"
  have listed: "rollouts_backed fromiso (?c # cs) st"
    using Compared.IH by (simp add: rollouts_backed_def backed_more)
  show ?case
  proof (rule backed_stores [OF assms(1,2) parity_stores [OF Compared.hyps(4), unfolded Compared.hyps(2,3)] listed], elim exE conjE)
    fix k r' r p
    assume r: "routing_rollout_or_404 fromiso (ra_federation st) rid = Ok r" and k: "k = rollout_id r"
      and "run_parity env r n st = Ok p" and r': "recorded_parity env r v p = Ok r'"
    moreover from rollouts_backedD [OF Compared.IH r] have "rollout_backed fromiso cs k r" by (simp add: k rollout_backed_def)
    ultimately show "rollout_backed fromiso (?c # cs) k r'"
      by (intro backed_parity [OF r']) simp_all
  qed
next
  case (Elsewhere cs st st')
  then show ?case by (simp add: rollouts_backed_def routing_rollout_or_404_def)
qed


section \<open>A whole rollout\<close>

text \<open>
  A rollout of \<open>books\<close> from cluster \<open>a\<close> to cluster \<open>b\<close>, over a store that keeps the revision only
  and the documents of \<open>toy_start\<close>.
\<close>

definition toy_store :: "int store_api" where
  "toy_store = \<lparr>store_latest = Some, store_load = (\<lambda>_. Ok None),
     store_commit = (\<lambda>s _ expected state _ _ _ v. if expected = s
       then Ok (s + 1, \<lparr>cr_revision = s + 1, cr_schema_version = v, cr_state = state, cr_digest = [], cr_updated_at = 0\<rparr>)
       else Raise (StateConflictError expected s)),
     store_append_audit = (\<lambda>s _ _ _. Ok s), store_list_audit = (\<lambda>_ _ _ _. Ok []), store_export_audit = (\<lambda>_ _ _. Ok []),
     store_verify_chain = (\<lambda>_. Ok ()), store_outbox = (\<lambda>_ _ _. Ok []), store_unpublished = (\<lambda>_ _. Ok []),
     store_mark = (\<lambda>s _ _. (s, True)), store_failure = (\<lambda>s _ _. (s, True))\<rparr>"

definition toy_typesense :: "'w typesense" where
  "toy_typesense = \<lparr>pv_create_collection = (\<lambda>w c d. (w, ProviderDone)), pv_retrieve_collection = (\<lambda>w c n. ProviderDone),
     pv_delete_collection = (\<lambda>w c n. (w, ProviderDone)), pv_upsert_alias = (\<lambda>w c a n. (w, ProviderDone)),
     pv_delete_alias = (\<lambda>w c a. (w, ProviderDone))\<rparr>"

definition toy_admin_env :: "('w, secret_provider) admin_env" where
  "toy_admin_env = \<lparr>av_settings = \<lparr>st_deployment_profile = ''development'', st_require_collection_policy = False,
       st_api_key_tenant_bypass = False, st_collection_policies = NoPolicies\<rparr>,
     av_open_admin = True, av_sha = (\<lambda>s. s), av_int = (\<lambda>_. None), av_replica = sample_replica_env,
     av_ask = (\<lambda>_ s. Ok s), av_resolver = [], av_allow_inline = True, av_reachable = (\<lambda>_ _ _ _. True),
     av_provider = toy_typesense, av_source_id = ''r1'', av_redis_up = True\<rparr>"

definition toy_request :: admin_request where
  "toy_request = \<lparr>aq_if_match = [], aq_auth_actor = None, aq_api_key = [], aq_authorization = [],
     aq_request_id = ''q1'', aq_env = (\<lambda>_. sample_env)\<rparr>"

definition toy_rollout_env :: "(toy_world, secret_provider) rollout_env" where
  "toy_rollout_env = \<lparr>rv_admin = toy_admin_env, rv_python = toy_python, rv_migration = toy_provider, rv_durable = True,
     rv_now = 5, rv_uuid = ''r1'', rv_isoformat = unary_text, rv_fromisoformat = unary, rv_meanwhile = id,
     rv_brokers = Some \<lparr>partitions_for_topic = (\<lambda>_. Some [0]), end_offsets = (\<lambda>_ ps. Some (map (\<lambda>p. (p, 3)) ps)),
       group_offsets = (\<lambda>_ _ ps. Some (map (\<lambda>p. (p, 3)) ps))\<rparr>,
     rv_topic_prefix = ''docs'', rv_consumer_group = ''indexer'', rv_dlq_group = ''dlq'', rv_max_kafka_lag = 0,
     rv_send = (\<lambda>_. Acked), rv_event_env = (\<lambda>u. \<lparr>ev_now = 5, ev_uuid = u\<rparr>), rv_propagated = [], rv_trace = []\<rparr>"

definition toy_replica :: "(int, toy_world) rollout_admin" where
  "toy_replica = \<lparr>ra_admin = \<lparr>ad_store = 0, ad_replica = \<lparr>rp_manager = sample_manager, rp_federation =
       toy_runtime\<lparr>routing_rules := [(''books'', [(''default_cluster'', JStr ''a'')])]\<rparr>\<rparr>, ad_provider = toy_start, ad_sent = []\<rparr>,
     ra_events = db_empty, ra_log = []\<rparr>"

definition toy_move :: "RolloutPhase \<Rightarrow> int \<Rightarrow> transition_request" where
  "toy_move p v = \<lparr>tr_target = p, tr_expected_version = v, tr_gates = (if p = DUAL_WRITE
     then Some (default_gates\<lparr>validation_passed := True, capacity_passed := True\<rparr>) else None),
     tr_checkpoint = None, tr_failure_reason = []\<rparr>"

datatype toy_call = Move RolloutPhase int | CopyStep int | Compare int

fun toy_call_run :: "toy_call \<Rightarrow> (int, toy_world) rollout_admin \<Rightarrow> (int, toy_world) rollout_admin" where
  "toy_call_run (Move p v) st = fst (transition_routing_rollout toy_store toy_rollout_env toy_request ''r1'' (toy_move p v) st)"
| "toy_call_run (CopyStep v) st = fst (run_routing_backfill_step toy_store toy_rollout_env toy_request ''r1'' v 10 st)"
| "toy_call_run (Compare v) st = fst (verify_routing_rollout_parity toy_store toy_rollout_env toy_request ''r1'' v 1 st)"

definition toy_created :: "(int, toy_world) rollout_admin" where
  "toy_created = fst (create_routing_rollout toy_store toy_rollout_env toy_request
     \<lparr>ru_collection = ''books'', ru_rules = [], ru_default_cluster = ''b''\<rparr> 0 toy_replica)"

definition toy_verified :: "(int, toy_world) rollout_admin" where
  "toy_verified = fold toy_call_run [Move VALIDATING 1, Move DUAL_WRITE 2, Move BACKFILL 3, CopyStep 4,
     Move VERIFYING 5, Compare 6] toy_created"

lemma toy_texts: "unary (unary_text t) = Some t" "unary_text t \<noteq> []"
  by (simp_all add: unary_reads unary_text_not_Nil)

lemma toy_env_times: "rv_isoformat toy_rollout_env = unary_text" "rv_fromisoformat toy_rollout_env = unary"
  by (simp_all add: toy_rollout_env_def)

lemma toy_call_reached:
  fixes cs :: "(int, toy_world, secret_provider) parity_call list"
  assumes "rollouts_run toy_store unary_text unary cs st"
  shows "\<exists>cs' :: (int, toy_world, secret_provider) parity_call list. rollouts_run toy_store unary_text unary cs' (toy_call_run c st)"
proof (cases c)
  case (Move p v)
  show ?thesis unfolding Move toy_call_run.simps
    by (rule exI, rule rollouts_run.Transitioned [OF assms toy_env_times], rule surjective_pairing)
next
  case (CopyStep v)
  show ?thesis unfolding CopyStep toy_call_run.simps
    by (rule exI, rule rollouts_run.Backfilled [OF assms toy_env_times], rule surjective_pairing)
next
  case (Compare v)
  show ?thesis unfolding Compare toy_call_run.simps
    by (rule exI, rule rollouts_run.Compared [OF assms toy_env_times], rule surjective_pairing)
qed

lemma toy_run:
  fixes cs :: "(int, toy_world, secret_provider) parity_call list"
  assumes "rollouts_run toy_store unary_text unary cs st"
  shows "\<exists>cs' :: (int, toy_world, secret_provider) parity_call list. rollouts_run toy_store unary_text unary cs' (fold toy_call_run calls st)"
  using assms
proof (induction calls arbitrary: cs st)
  case (Cons c calls)
  from toy_call_reached [OF Cons.prems] Cons.IH show ?case by auto
qed auto

lemma toy_verified_run:
  "\<exists>cs :: (int, toy_world, secret_provider) parity_call list. rollouts_run toy_store unary_text unary cs toy_verified"
proof -
  have "rollouts_run toy_store unary_text unary ([] :: (int, toy_world, secret_provider) parity_call list) toy_replica"
    by (rule rollouts_run.Start) (simp add: toy_replica_def toy_runtime_def empty_runtime_def)
  then have "rollouts_run toy_store unary_text unary ([] :: (int, toy_world, secret_provider) parity_call list) toy_created"
    unfolding toy_created_def by (rule rollouts_run.Created [OF _ toy_env_times]) (rule surjective_pairing)
  then show ?thesis unfolding toy_verified_def by (rule toy_run)
qed

lemma toy_cutover:
  "(case transition_routing_rollout toy_store toy_rollout_env toy_request ''r1'' (toy_move CUTOVER 7) toy_verified of
     (st, Ok (n, r)) \<Rightarrow> phase r = CUTOVER \<and> rollout_collection r = ''books'' \<and>
       routing_rollout_or_404 unary (ra_federation st) ''r1'' = Ok r
   | _ \<Rightarrow> False)"
  by code_simp

lemma toy_cutover_step: "\<exists>st n r. transition_routing_rollout toy_store toy_rollout_env toy_request ''r1'' (toy_move CUTOVER 7) toy_verified =
    (st, Ok (n, r)) \<and> phase r = CUTOVER \<and> rollout_collection r = ''books'' \<and> routing_rollout_or_404 unary (ra_federation st) ''r1'' = Ok r"
  using toy_cutover by (auto split: prod.splits sum.splits)

theorem evidence_machine_owned_witness:
  "\<exists>st n r. transition_routing_rollout toy_store toy_rollout_env toy_request ''r1'' (toy_move CUTOVER 7) toy_verified = (st, Ok (n, r)) \<and>
     phase r = CUTOVER \<and> quiet toy_rollout_env (ra_events toy_verified) ''books''"
  using toy_cutover_step evidence_machine_owned [of toy_store toy_rollout_env toy_request "''r1''" "toy_move CUTOVER 7" toy_verified]
  by fastforce


end
