(* ===== verification/OutboxGrowth.thy ===== *)
theory OutboxGrowth
  imports PostgresOutbox
begin

text \<open>
  How the tables of the durable event store can change under any transaction of
  \<open>indexing_events/postgres_store.py\<close>: rows are appended at new positions, published rows stay as they
  are, and every head belongs to its document.
\<close>

section \<open>What a transaction of the event store keeps\<close>

definition heads_ok :: "platform \<Rightarrow> EvDb \<Rightarrow> bool" where
  "heads_ok pl db \<longleftrightarrow> (\<forall>h \<in> set (db_heads db).
     hd_identity_hash h = identity_hash_of pl (hd_tenant_id h) (hd_collection h) (hd_document_id h))"

text \<open>Rows are only appended, at positions from the next one on; a published row never changes.\<close>

definition same_row :: "EvRow \<Rightarrow> EvRow \<Rightarrow> bool" where
  "same_row row row' \<longleftrightarrow> er_identity_hash row' = er_identity_hash row \<and> same_envelope (er_event row) (er_event row')"

definition store_grows :: "EvDb \<Rightarrow> EvDb \<Rightarrow> bool" where
  "store_grows db db' \<longleftrightarrow> db_next_position db \<le> db_next_position db' \<and>
     (\<forall>row \<in> set (db_rows db). pe_published_at (er_event row) \<noteq> None \<longrightarrow> row \<in> set (db_rows db')) \<and>
     (\<forall>row' \<in> set (db_rows db'). db_next_position db \<le> pe_position (er_event row') \<or> (\<exists>row \<in> set (db_rows db). same_row row row')) \<and>
     (\<forall>row \<in> set (db_rows db). \<exists>row' \<in> set (db_rows db'). same_row row row')"

lemma same_row_refl [simp]: "same_row row row"
  by (simp add: same_row_def)

lemma same_row_trans: "same_row a b \<Longrightarrow> same_row b c \<Longrightarrow> same_row a c"
  by (auto simp: same_row_def intro: same_envelope_trans)

lemma same_row_position: "same_row a b \<Longrightarrow> pe_position (er_event b) = pe_position (er_event a)"
  by (simp add: same_row_def same_envelope_def)

lemma store_growsD:
  assumes "store_grows db db'"
  shows "db_next_position db \<le> db_next_position db'"
    and "row \<in> set (db_rows db) \<Longrightarrow> pe_published_at (er_event row) \<noteq> None \<Longrightarrow> row \<in> set (db_rows db')"
    and "row' \<in> set (db_rows db') \<Longrightarrow> pe_position (er_event row') < db_next_position db \<Longrightarrow> \<exists>row \<in> set (db_rows db). same_row row row'"
    and "row \<in> set (db_rows db) \<Longrightarrow> \<exists>row' \<in> set (db_rows db'). same_row row row'"
proof -
  show "\<exists>row \<in> set (db_rows db). same_row row row'" if "row' \<in> set (db_rows db')" "pe_position (er_event row') < db_next_position db"
    using assms that unfolding store_grows_def by (meson not_le)
qed (use assms in \<open>auto simp: store_grows_def\<close>)

lemma store_grows_refl [simp]: "store_grows db db"
  unfolding store_grows_def using same_row_refl by blast

lemma store_grows_trans:
  assumes "store_grows a b" and "store_grows b c"
  shows "store_grows a c"
  unfolding store_grows_def
proof (intro conjI ballI impI)
  show "db_next_position a \<le> db_next_position c"
    using assms [THEN store_growsD(1)] by simp
next
  fix row assume row: "row \<in> set (db_rows a)"
  show "row \<in> set (db_rows c)" if "pe_published_at (er_event row) \<noteq> None"
    using assms row that store_growsD(2) by blast
  from store_growsD(4) [OF assms(1) row] obtain row1 where "row1 \<in> set (db_rows b)" and row1: "same_row row row1" by blast
  from store_growsD(4) [OF assms(2) this(1)] obtain row2 where "row2 \<in> set (db_rows c)" "same_row row1 row2" by blast
  with same_row_trans [OF row1] show "\<exists>row' \<in> set (db_rows c). same_row row row'" by blast
next
  fix row2 assume row2: "row2 \<in> set (db_rows c)"
  show "db_next_position a \<le> pe_position (er_event row2) \<or> (\<exists>row \<in> set (db_rows a). same_row row row2)"
  proof (cases "db_next_position a \<le> pe_position (er_event row2)")
    case early: False
    with store_growsD(1) [OF assms(1)] obtain row1 where row1: "row1 \<in> set (db_rows b)" "same_row row1 row2"
      using store_growsD(3) [OF assms(2) row2] by fastforce
    with early have "pe_position (er_event row1) < db_next_position a" by (simp add: same_row_position)
    from store_growsD(3) [OF assms(1) row1(1) this] row1(2) same_row_trans show ?thesis by blast
  qed simp
qed

lemma grows_update:
  assumes "\<And>e. same_envelope e (f e)"
  shows "store_grows db (fst (db_update db eid f))"
proof -
  let ?g = "\<lambda>r. if unpublished_with_id eid (er_event r) then r\<lparr>er_event := f (er_event r)\<rparr> else r"
  have g: "same_row r (?g r)" for r using assms by (simp add: same_row_def)
  have published: "?g r = r" if "pe_published_at (er_event r) \<noteq> None" for r
    using that by (auto simp: unpublished_with_id_def)
  show ?thesis unfolding store_grows_def db_update_rows db_update_frame set_map
  proof (intro conjI ballI impI)
    fix row assume "row \<in> set (db_rows db)" "pe_published_at (er_event row) \<noteq> None"
    then show "row \<in> ?g ` set (db_rows db)" using published [of row] by (intro image_eqI [of _ _ row]) simp_all
  qed (use g in blast)+
qed

lemma grows_append:
  assumes "allocate_and_insert pl db env d h = Ok (db', e)"
  shows "store_grows db db'"
proof -
  from allocate_OkD(2) [OF assms] obtain dg where "db_rows db' = db_rows db @ [event_row pl d dg e]" by blast
  then show ?thesis
    using allocate_OkD(1,4) [OF assms] unfolding store_grows_def by (auto simp: event_row_def new_event_def Let_def intro: same_row_refl)
qed

lemma heads_advance: "heads_ok pl db \<Longrightarrow> allocate_and_insert pl db env d h = Ok (db', e) \<Longrightarrow> heads_ok pl db'"
  using allocate_OkD(3) [of pl db env d h db' e] by (auto simp: heads_ok_def advance_head_def)

lemma ensure_head_frame:
  assumes "ensure_head pl db d = Ok db1"
  shows "heads_ok pl db \<Longrightarrow> heads_ok pl db1" and "db_rows db1 = db_rows db" and "db_next_position db1 = db_next_position db"
  using assms by (auto simp: ensure_head_def heads_ok_def draft_identity_hash_def split: option.splits if_splits)

lemma grows_rows: "db_rows db1 = db_rows db \<Longrightarrow> db_next_position db1 = db_next_position db \<Longrightarrow> store_grows db1 db' \<Longrightarrow> store_grows db db'"
  by (simp add: store_grows_def)

lemma envelope_kept: "same_envelope e (publish_event (t :: time) e)" "same_envelope e (fail_event err e)"
  by (simp_all add: same_envelope_def publish_event_def fail_event_def)

lemma outbox_step_grows:
  assumes "outbox_step pl db db'"
  shows "store_grows db db' \<and> (heads_ok pl db \<longrightarrow> heads_ok pl db')"
  using assms
proof cases
  case (Prepared env d r)
  then show ?thesis
  proof (cases rule: db_prepare_cases)
    case (New e db1 h)
    then show ?thesis
      using ensure_head_frame [OF New(2)] heads_advance [OF _ New(4)] grows_rows [OF _ _ grows_append [OF New(4)]] by blast
  qed simp_all
next
  case (Repaired env rp r)
  then show ?thesis
  proof (cases rule: db_repair_cases)
    case (New h src d e)
    then show ?thesis using heads_advance [OF _ New(4)] grows_append [OF New(4)] by blast
  qed simp_all
next
  case (Published eid t)
  then show ?thesis using grows_update [OF envelope_kept(1) [of _ t], of db eid] by (simp add: db_mark_published_def heads_ok_def)
next
  case (SendFailed eid err)
  then show ?thesis using grows_update [OF envelope_kept(2) [of _ err], of db eid] by (simp add: db_record_failure_def heads_ok_def)
next
  case (LedgerMoved l)
  then show ?thesis by (auto simp: store_grows_def heads_ok_def intro: same_row_refl)
qed

lemma outbox_steps_grow: "outbox_steps pl db db' \<Longrightarrow> store_grows db db' \<and> (heads_ok pl db \<longrightarrow> heads_ok pl db')"
proof (induction rule: outbox_steps.induct)
  case (Further db db1 db2)
  then show ?case using outbox_step_grows store_grows_trans by blast
qed simp

lemma outbox_steps_trans: "outbox_steps pl b c \<Longrightarrow> outbox_steps pl a b \<Longrightarrow> outbox_steps pl a c"
  by (induction rule: outbox_steps.induct) (auto intro: outbox_steps.Further)

end
