(* ===== verification/RepairWindow.thy ===== *)
theory RepairWindow
  imports RolloutEvidence OutboxGrowth
begin

text \<open>
  The second half of a backfill: the mutations that reached the event store while the raw copy ran.
  \<open>repair_page\<close> of \<open>AdminRollouts\<close> publishes the newest mutation of each identity again, page after
  page, while other requests keep writing to the store. This theory shows that the pages end and that
  none of those mutations is left out.
\<close>

section \<open>One repair\<close>

definition repair_key :: "string \<Rightarrow> int \<Rightarrow> string \<Rightarrow> string" where
  "repair_key rid through identity = ''rollout-repair:'' @ rid @ '':'' @ int_str through @ '':'' @ identity"

text \<open>The identity has a published event under the key of this repair.\<close>

definition repaired :: "platform \<Rightarrow> EvDb \<Rightarrow> string \<Rightarrow> int \<Rightarrow> string \<Rightarrow> bool" where
  "repaired pl db rid through identity \<longleftrightarrow> (\<exists>row \<in> set (db_rows db). pe_published_at (er_event row) \<noteq> None \<and>
     (\<exists>tenant coll doc. identity_hash_of pl tenant coll doc = identity \<and>
       er_key_hash row = indexing_idempotency_key_hash pl tenant coll doc (repair_key rid through identity)))"

lemma repaired_grows: "store_grows db db' \<Longrightarrow> repaired pl db rid through identity \<Longrightarrow> repaired pl db' rid through identity"
  unfolding repaired_def using store_growsD(2) by blast

lemma prepared_repair_row:
  assumes "db_prepare_latest_repair pl db env rp = (db', Ok e)" and "heads_ok pl db"
  shows "\<exists>row \<in> set (db_rows db'). er_event row = e \<and>
    (\<exists>tenant coll doc. identity_hash_of pl tenant coll doc = rp_identity_hash rp \<and>
      er_key_hash row = indexing_idempotency_key_hash pl tenant coll doc (rp_idempotency_key rp))"
proof (cases "head_of_identity db (rp_identity_hash rp)")
  case None
  with assms(1) show ?thesis by (simp add: db_prepare_latest_repair_def in_transaction_def)
next
  case (Some h)
  then have h: "h \<in> set (db_heads db)" "hd_identity_hash h = rp_identity_hash rp"
    by (auto simp: head_of_identity_def find_Some_iff)
  with assms(2) have hash: "identity_hash_of pl (hd_tenant_id h) (hd_collection h) (hd_document_id h) = rp_identity_hash rp"
    by (simp add: heads_ok_def)
  let ?key = "indexing_idempotency_key_hash pl (hd_tenant_id h) (hd_collection h) (hd_document_id h) (rp_idempotency_key rp)"
  show ?thesis
  proof (cases "existing_for_key db ?key")
    case (Some row)
    with assms(1) \<open>head_of_identity db (rp_identity_hash rp) = Some h\<close> have "db' = db" "e = er_event row"
      by (auto simp: db_prepare_latest_repair_def in_transaction_def)
    with existing_for_keyD [OF Some] hash show ?thesis by blast
  next
    case None
    with assms(1) \<open>head_of_identity db (rp_identity_hash rp) = Some h\<close>
    have "\<exists>(src :: EvRow) d. build_latest_repair_draft pl rp (er_event src) = Ok d \<and> allocate_and_insert pl db env d h = Ok (db', e)"
      by (auto simp: db_prepare_latest_repair_def in_transaction_def ebind_eq_Ok split: option.splits sum.splits)
    then obtain src :: EvRow and d where d: "build_latest_repair_draft pl rp (er_event src) = Ok d"
      and insert: "allocate_and_insert pl db env d h = Ok (db', e)" by blast
    from allocate_OkD(2) [OF insert] obtain dg where "db_rows db' = db_rows db @ [event_row pl d dg e]" by blast
    then have row: "event_row pl d dg e \<in> set (db_rows db')" by simp
    have "dr_idempotency_key d = rp_idempotency_key rp"
      using d by (auto simp: build_latest_repair_draft_def Let_def split: if_splits prod.splits)
    with repair_identity(1) [OF d] row show ?thesis
      by (intro bexI [OF _ row]) (auto simp: event_row_def draft_key_hash_def draft_identity_hash_def)
  qed
qed

lemma publish_repair_effect:
  assumes "publish_latest_repair env rp events klog = (events', klog', Ok x)" and "heads_ok pl events"
    and "platform_of (rv_python env) = pl" and "rp_idempotency_key rp = repair_key rid through (rp_identity_hash rp)"
  shows "outbox_steps pl events events' \<and> repaired pl events' rid through (rp_identity_hash rp)"
proof -
  obtain events1 res where prep: "db_prepare_latest_repair pl events (rv_event_env env (rp_identity_hash rp)) rp = (events1, res)"
    by fastforce
  with assms(1,3) obtain e where res: "res = Ok e" by (cases res) (auto simp: publish_latest_repair_def)
  note prep = prep [unfolded res]
  have step: "outbox_steps pl events events1"
    by (rule outbox_steps.Further [OF outbox_steps.Here outbox_step.Repaired [OF prep]])
  from prepared_repair_row [OF prep assms(2)] obtain row tenant coll doc where
    row: "row \<in> set (db_rows events1)" "er_event row = e" and key: "identity_hash_of pl tenant coll doc = rp_identity_hash rp"
      "er_key_hash row = indexing_idempotency_key_hash pl tenant coll doc (rp_idempotency_key rp)" by blast
  show ?thesis
  proof (cases "pe_published_at e = None")
    case False
    with assms(1,3) prep have "events' = events1" by (auto simp: publish_latest_repair_def)
    with step row key False assms(4) show ?thesis by (auto simp: repaired_def)
  next
    case True
    have events': "events' = fst (db_mark_published events1 (pe_event_id e) (rv_now env))"
      using assms(1,3) prep True by (auto simp: publish_latest_repair_def publish_prepared_def split: send_outcome.splits)
    let ?row = "row\<lparr>er_event := publish_event (rv_now env) e\<rparr>"
    have "?row \<in> set (db_rows events')"
      using row True by (auto simp: events' db_mark_published_def db_update_rows unpublished_with_id_def image_iff intro: bexI [OF _ row(1)])
    moreover have "pe_published_at (er_event ?row) \<noteq> None" by (simp add: publish_event_def)
    ultimately have "repaired pl events' rid through (rp_identity_hash rp)"
      using key assms(4) unfolding repaired_def by (metis EvRow.select_convs(1) EvRow.surjective EvRow.update_convs(4))
    moreover have "outbox_steps pl events events'"
      unfolding events' by (rule outbox_steps.Further [OF step outbox_step.Published])
    ultimately show ?thesis by blast
  qed
qed

lemma repair_events_effect:
  assumes "repair_events env rt r targets through es events klog = (events', klog', Ok n)" and "heads_ok pl events"
    and "platform_of (rv_python env) = pl"
  shows "outbox_steps pl events events' \<and> (\<forall>e \<in> set es. fst (snd (payload_identity (pe_payload e))) = rollout_collection r
    \<longrightarrow> repaired pl events' (rollout_id r) through (event_identity_hash pl e))"
  using assms(1,2)
proof (induction es arbitrary: events klog n events' klog')
  case Nil
  then show ?case by (auto intro: outbox_steps.Here)
next
  case (Cons e es)
  show ?case
  proof (cases "fst (snd (payload_identity (pe_payload e))) = rollout_collection r")
    case False
    with Cons.prems Cons.IH show ?thesis by auto
  next
    case True
    obtain events1 klog1 x where pub: "publish_latest_repair env (repair_draft env rt r targets through (event_identity_hash pl e)) events klog =
        (events1, klog1, x)" by (metis prod_cases3)
    with Cons.prems(1) True assms(3) obtain u where x: "x = Ok u"
      by (cases x) (auto)
    obtain events2 klog2 res where rest: "repair_events env rt r targets through es events1 klog1 = (events2, klog2, res)"
      by (metis prod_cases3)
    with Cons.prems(1) True assms(3) pub x obtain m where res: "res = Ok m" and "events' = events2"
      by (cases res) auto
    have "rp_idempotency_key (repair_draft env rt r targets through i) = repair_key (rollout_id r) through (rp_identity_hash (repair_draft env rt r targets through i))"
      "rp_identity_hash (repair_draft env rt r targets through i) = i" for i
      by (simp_all add: repair_draft_def repair_key_def)
    from publish_repair_effect [OF pub [unfolded x] Cons.prems(2) assms(3) this(1)] this(2)
    have first: "outbox_steps pl events events1" "repaired pl events1 (rollout_id r) through (event_identity_hash pl e)" by simp_all
    from outbox_steps_grow [OF first(1)] Cons.prems(2) have "heads_ok pl events1" by blast
    from Cons.IH [OF rest [unfolded res] this] \<open>events' = events2\<close> first show ?thesis
      using outbox_steps_trans outbox_steps_grow repaired_grows by (metis set_ConsD)
  qed
qed

section \<open>Pages\<close>

definition cursor_of :: "document \<Rightarrow> int \<Rightarrow> bool" where
  "cursor_of cp n \<longleftrightarrow> dget cp ''repair_cursor_position'' = Some (JInt n)"

definition through_of :: "document \<Rightarrow> int \<Rightarrow> bool" where
  "through_of cp n \<longleftrightarrow> dget cp ''repair_through_position'' = Some (JInt n)"

text \<open>The newest event of its identity between two positions.\<close>

definition newest_in :: "EvDb \<Rightarrow> int \<Rightarrow> int \<Rightarrow> EvRow \<Rightarrow> bool" where
  "newest_in db after through row \<longleftrightarrow> row \<in> set (db_rows db) \<and> after < pe_position (er_event row) \<and> pe_position (er_event row) \<le> through \<and>
     (\<forall>row' \<in> set (db_rows db). er_identity_hash row' = er_identity_hash row \<longrightarrow> pe_position (er_event row') \<le> through \<longrightarrow>
        pe_position (er_event row') \<le> pe_position (er_event row))"

lemma listed_newest:
  assumes "db_list_latest_by_identity db after through limit = Ok es"
  shows "0 \<le> after" and "after \<le> through" and "1 \<le> limit"
    and "es = take (nat limit) (sort_key pe_position (map er_event (filter (newest_in db after through) (db_rows db))))"
proof -
  show bounds: "0 \<le> after" "after \<le> through" "1 \<le> limit"
    using assms by (auto simp: db_list_latest_by_identity_def validate_position_window_def split: if_splits)
  let ?window = "filter (\<lambda>r. after < pe_position (er_event r) \<and> pe_position (er_event r) \<le> through) (db_rows db)"
  have "filter (rank_one ?window) ?window = filter (newest_in db after through) (db_rows db)"
    unfolding filter_filter by (rule filter_cong) (auto simp: rank_one_def newest_in_def)
  with assms show "es = take (nat limit) (sort_key pe_position (map er_event (filter (newest_in db after through) (db_rows db))))"
    by (simp add: db_list_latest_by_identity_def Let_def ebind_eq_Ok)
qed

text \<open>A page lists the newest events up to its last position, or all of them.\<close>

lemma taken_prefix:
  fixes f :: "'a \<Rightarrow> 'b::linorder"
  assumes "sorted_wrt (<) (map f xs)" and "take n xs \<noteq> []" and "x \<in> set xs" and "f x \<le> f (last (take n xs))"
  shows "x \<in> set (take n xs)"
proof (rule ccontr)
  assume "x \<notin> set (take n xs)"
  with assms(3) have "x \<in> set (drop n xs)" by (metis Un_iff append_take_drop_id set_append)
  moreover have "sorted_wrt (<) (map f (take n xs) @ map f (drop n xs))"
    using assms(1) by (metis append_take_drop_id map_append)
  ultimately have "f (last (take n xs)) < f x"
    using assms(2) by (auto simp: sorted_wrt_append)
  with assms(4) show False by simp
qed

definition page_cursor :: "PreparedIndexingEvent list \<Rightarrow> int \<Rightarrow> int" where
  "page_cursor es through = (if es = [] then through else pe_position (last es))"

lemma page_lists:
  assumes "db_list_latest_by_identity db after through limit = Ok es" and "position_ok db"
  shows "after \<le> page_cursor es through \<and> page_cursor es through \<le> through \<and> (after < page_cursor es through \<or> page_cursor es through = through)"
    and "newest_in db after through row \<Longrightarrow> pe_position (er_event row) \<le> page_cursor es through \<Longrightarrow> er_event row \<in> set es"
proof -
  note list = listed_newest [OF assms(1)]
  let ?all = "map er_event (filter (newest_in db after through) (db_rows db))"
  have sorted: "sorted_wrt (<) (map pe_position ?all)"
    using assms(2) by (simp add: position_ok_def comp_def sorted_wrt_map sorted_wrt_filter)
  then have "sorted (map pe_position ?all)" by (auto simp: sorted_wrt_map elim: sorted_wrt_mono_rel [rotated])
  then have es: "es = take (nat limit) ?all" unfolding list(4) by (simp add: sort_key_id_if_sorted)
  have in_window: "after < pe_position e \<and> pe_position e \<le> through" if "e \<in> set es" for e
    using that unfolding es by (auto dest!: in_set_takeD simp: newest_in_def)
  show "after \<le> page_cursor es through \<and> page_cursor es through \<le> through \<and> (after < page_cursor es through \<or> page_cursor es through = through)"
    using in_window [OF last_in_set] list(2) by (auto simp: page_cursor_def)
  assume row: "newest_in db after through row" and below: "pe_position (er_event row) \<le> page_cursor es through"
  then have "er_event row \<in> set ?all" by (simp add: newest_in_def)
  moreover from this list(3) have "es \<noteq> []" unfolding es by (cases ?all) auto
  ultimately show "er_event row \<in> set es"
    using taken_prefix [OF sorted, of "nat limit"] below unfolding es by (simp add: page_cursor_def)
qed

lemma repair_page_effect:
  assumes "repair_page env rt r cp barrier n events klog = (events', klog', Ok cp')"
    and "outbox_inv pl events" and "heads_ok pl events" and "platform_of (rv_python env) = pl"
    and "cursor_of cp after" and "through_of cp through"
  obtains cursor where "cursor_of cp' cursor" and "through_of cp' through" and "after \<le> cursor" and "cursor \<le> through"
    and "after < cursor \<or> cursor = through" and "truthy (jget cp' ''repair_complete'') \<longleftrightarrow> cursor = through"
    and "outbox_steps pl events events'"
    and "\<And>row. newest_in events after through row \<Longrightarrow> pe_position (er_event row) \<le> cursor \<Longrightarrow>
      fst (snd (payload_identity (pe_payload (er_event row)))) = rollout_collection r \<Longrightarrow>
      repaired pl events' (rollout_id r) through (er_identity_hash row)"
proof -
  have read: "checkpoint_int cp ''repair_cursor_position'' barrier = Ok after" "dget cp ''repair_through_position'' = Some (JInt through)"
    using assms(5,6) by (simp_all add: checkpoint_int_def cursor_of_def through_of_def)
  note page = assms(1) [unfolded repair_page_def read ebind_Ok option.case json.case]
  obtain published where published: "checkpoint_int cp ''repair_events_published'' 0 = Ok published"
    using page by (cases "checkpoint_int cp ''repair_events_published'' 0") auto
  note page = page [unfolded published ebind_Ok]
  obtain es where es: "db_list_latest_by_identity events after through (int n) = Ok es"
    using page by (cases "db_list_latest_by_identity events after through (int n)") auto
  note page = page [unfolded es sum.case ebind_Ok]
  obtain targets where targets: "candidate_cluster_names (rv_python env) rt r = Ok targets"
    using page by (cases "candidate_cluster_names (rv_python env) rt r") auto
  note page = page [unfolded targets sum.case ebind_Ok prod.case]
  obtain events1 klog1 res where sent: "repair_events env rt r targets through es events klog = (events1, klog1, res)"
    by (metis prod_cases3)
  with page obtain m where res: "res = Ok m" by (cases res) auto
  let ?cursor = "page_cursor es through"
  from page [unfolded sent res] have events': "events' = events1" and cp': "cp' = dput ''repair_complete'' (JBool (through \<le> ?cursor))
      (dput ''repair_events_published'' (JInt (published + int m)) (dput ''repair_cursor_position'' (JInt ?cursor) cp))"
    by (simp_all add: page_cursor_def Let_def)
  from repair_events_effect [OF sent [unfolded res] assms(3,4)] have
    steps: "outbox_steps pl events events'" and
    each: "\<And>e. e \<in> set es \<Longrightarrow> fst (snd (payload_identity (pe_payload e))) = rollout_collection r \<Longrightarrow>
      repaired pl events' (rollout_id r) through (event_identity_hash pl e)"
    by (simp_all add: events')
  have inv: "position_ok events" "identity_ok pl events" using assms(2) by (simp_all add: outbox_inv_def)
  note cursor = page_lists [OF es inv(1)]
  show thesis
  proof (rule that)
    show "cursor_of cp' ?cursor" "through_of cp' through" "truthy (jget cp' ''repair_complete'') \<longleftrightarrow> ?cursor = through"
      using assms(6) cursor(1) by (auto simp: cp' cursor_of_def through_of_def dget_dput jget_dput)
    show "after \<le> ?cursor" "?cursor \<le> through" "after < ?cursor \<or> ?cursor = through" using cursor(1) by simp_all
    show "outbox_steps pl events events'" by (rule steps)
    fix row assume row: "newest_in events after through row" "pe_position (er_event row) \<le> ?cursor"
      "fst (snd (payload_identity (pe_payload (er_event row)))) = rollout_collection r"
    then have "er_identity_hash row = event_identity_hash pl (er_event row)"
      using inv(2) by (simp add: identity_ok_def newest_in_def)
    with each [OF cursor(2) [OF row(1,2)] row(3)] show "repaired pl events' (rollout_id r) through (er_identity_hash row)" by simp
  qed
qed

section \<open>The whole repair\<close>

text \<open>
  The checkpoints and stores of one repair: pages of the rollout, each in one of the given environments,
  and any transactions of the store in between, those of failed pages included.
\<close>

inductive repair_run :: "platform \<Rightarrow> ('w, 'p) rollout_env set \<Rightarrow> string \<Rightarrow> string \<Rightarrow> document \<Rightarrow> EvDb \<Rightarrow> nat \<Rightarrow> document \<Rightarrow> EvDb \<Rightarrow> bool"
  for pl envs rid coll cp0 ev0 where
  Begun: "repair_run pl envs rid coll cp0 ev0 0 cp0 ev0"
| Paged: "repair_run pl envs rid coll cp0 ev0 k cp ev \<Longrightarrow> env \<in> envs \<Longrightarrow> platform_of (rv_python env) = pl \<Longrightarrow>
    rollout_id r = rid \<Longrightarrow> rollout_collection r = coll \<Longrightarrow> \<not> truthy (jget cp ''repair_complete'') \<Longrightarrow>
    repair_page env rt r cp barrier n ev klog = (ev', klog', Ok cp') \<Longrightarrow> repair_run pl envs rid coll cp0 ev0 (Suc k) cp' ev'"
| Meanwhile: "repair_run pl envs rid coll cp0 ev0 k cp ev \<Longrightarrow> outbox_step pl ev ev' \<Longrightarrow> repair_run pl envs rid coll cp0 ev0 k cp ev'"

text \<open>What is repaired when the cursor stands at a position.\<close>

definition repaired_up_to :: "platform \<Rightarrow> string \<Rightarrow> string \<Rightarrow> EvDb \<Rightarrow> int \<Rightarrow> int \<Rightarrow> int \<Rightarrow> bool" where
  "repaired_up_to pl rid coll db start through cursor \<longleftrightarrow> (\<forall>row. newest_in db start through row \<longrightarrow> pe_position (er_event row) \<le> cursor \<longrightarrow>
     fst (snd (payload_identity (pe_payload (er_event row)))) = coll \<longrightarrow> repaired pl db rid through (er_identity_hash row))"

lemma newest_before:
  assumes "store_grows db db'" and "newest_in db' start through row'" and "through < db_next_position db"
  shows "\<exists>row. newest_in db start through row \<and> same_row row row'"
proof -
  from assms(2,3) have "pe_position (er_event row') < db_next_position db" "row' \<in> set (db_rows db')" by (auto simp: newest_in_def)
  from store_growsD(3) [OF assms(1) this(2,1)] obtain row where row: "row \<in> set (db_rows db)" "same_row row row'" by blast
  have "pe_position (er_event x) \<le> pe_position (er_event row)"
    if x: "x \<in> set (db_rows db)" "er_identity_hash x = er_identity_hash row" "pe_position (er_event x) \<le> through" for x
  proof -
    from store_growsD(4) [OF assms(1) x(1)] obtain x' where x': "x' \<in> set (db_rows db')" "same_row x x'" by blast
    with x row have "er_identity_hash x' = er_identity_hash row'" "pe_position (er_event x') \<le> through"
      by (simp_all add: same_row_def same_envelope_def)
    with assms(2) x'(1) have "pe_position (er_event x') \<le> pe_position (er_event row')" by (simp add: newest_in_def)
    with x'(2) row(2) show ?thesis by (simp add: same_row_position)
  qed
  with row assms(2) have "newest_in db start through row"
    by (simp add: newest_in_def same_row_position)
  with row(2) show ?thesis by blast
qed

lemma repaired_up_to_grows:
  assumes "store_grows db db'" and "through < db_next_position db" and "repaired_up_to pl rid coll db start through cursor"
  shows "repaired_up_to pl rid coll db' start through cursor"
  unfolding repaired_up_to_def
proof (intro allI impI)
  fix row' assume row': "newest_in db' start through row'" "pe_position (er_event row') \<le> cursor"
    "fst (snd (payload_identity (pe_payload (er_event row')))) = coll"
  from newest_before [OF assms(1) this(1) assms(2)] obtain row where row: "newest_in db start through row" "same_row row row'" by blast
  with row' have "pe_position (er_event row) \<le> cursor" "fst (snd (payload_identity (pe_payload (er_event row)))) = coll"
    by (simp_all add: same_row_def same_envelope_def)
  with assms(3) row(1) have "repaired pl db rid through (er_identity_hash row)" by (simp add: repaired_up_to_def)
  with row(2) repaired_grows [OF assms(1)] show "repaired pl db' rid through (er_identity_hash row')" by (simp add: same_row_def)
qed

lemma repaired_up_to_page:
  assumes "repaired_up_to pl rid coll ev start through after" and "store_grows ev ev'" and "through < db_next_position ev" and "start \<le> after"
    and page: "\<And>row. newest_in ev after through row \<Longrightarrow> pe_position (er_event row) \<le> cursor \<Longrightarrow>
      fst (snd (payload_identity (pe_payload (er_event row)))) = coll \<Longrightarrow> repaired pl ev' rid through (er_identity_hash row)"
  shows "repaired_up_to pl rid coll ev' start through cursor"
  unfolding repaired_up_to_def
proof (intro allI impI)
  fix row' assume row': "newest_in ev' start through row'" "pe_position (er_event row') \<le> cursor"
    "fst (snd (payload_identity (pe_payload (er_event row')))) = coll"
  from newest_before [OF assms(2) this(1) assms(3)] obtain row where row: "newest_in ev start through row" "same_row row row'" by blast
  with row' have same: "pe_position (er_event row) \<le> cursor" "fst (snd (payload_identity (pe_payload (er_event row)))) = coll"
    "er_identity_hash row' = er_identity_hash row"
    by (simp_all add: same_row_def same_envelope_def)
  show "repaired pl ev' rid through (er_identity_hash row')"
  proof (cases "pe_position (er_event row) \<le> after")
    case True
    with assms(1) row(1) same have "repaired pl ev rid through (er_identity_hash row)" by (simp add: repaired_up_to_def)
    with same repaired_grows [OF assms(2)] show ?thesis by simp
  next
    case False
    with row(1) have "newest_in ev after through row" by (simp add: newest_in_def)
    with page same show ?thesis by simp
  qed
qed

lemma repair_run_inv:
  assumes "repair_run pl envs rid coll cp0 ev0 k cp ev" and "outbox_inv pl ev0" and "heads_ok pl ev0"
    and "cursor_of cp0 start" and "through_of cp0 through" and "start \<le> through" and "through < db_next_position ev0"
  shows "outbox_inv pl ev \<and> heads_ok pl ev \<and> through < db_next_position ev \<and> through_of cp through \<and>
    (\<exists>cursor. cursor_of cp cursor \<and> start \<le> cursor \<and> cursor \<le> through \<and> repaired_up_to pl rid coll ev start through cursor \<and>
      (start + int k \<le> cursor \<or> (cursor = through \<and> start + int k \<le> through + 1)) \<and>
      (k = 0 \<or> (truthy (jget cp ''repair_complete'') \<longleftrightarrow> cursor = through)))"
  using assms(1)
proof (induction rule: repair_run.induct)
  case Begun
  have "repaired_up_to pl rid coll ev0 start through start"
    by (auto simp: repaired_up_to_def newest_in_def)
  with assms(2-7) show ?case by auto
next
  case (Paged k cp ev env r rt barrier n klog ev' klog' cp')
  then obtain after where inv: "outbox_inv pl ev" "heads_ok pl ev" "through < db_next_position ev" "through_of cp through"
    and after: "cursor_of cp after" "start \<le> after" "after \<le> through" "repaired_up_to pl rid coll ev start through after"
      "start + int k \<le> after \<or> (after = through \<and> start + int k \<le> through + 1)"
      "k = 0 \<or> (truthy (jget cp ''repair_complete'') \<longleftrightarrow> after = through)"
    by blast
  from repair_page_effect [OF Paged.hyps(7) inv(1,2) Paged.hyps(3) after(1) inv(4)] obtain cursor where
    cursor: "cursor_of cp' cursor" "through_of cp' through" "after \<le> cursor" "cursor \<le> through" "after < cursor \<or> cursor = through"
      "truthy (jget cp' ''repair_complete'') \<longleftrightarrow> cursor = through" and steps: "outbox_steps pl ev ev'" and
    page: "\<And>row. newest_in ev after through row \<Longrightarrow> pe_position (er_event row) \<le> cursor \<Longrightarrow>
      fst (snd (payload_identity (pe_payload (er_event row)))) = coll \<Longrightarrow> repaired pl ev' rid through (er_identity_hash row)"
    using Paged.hyps(4,5) by blast
  from outbox_steps_grow [OF steps] inv(2) have grows: "store_grows ev ev'" and heads: "heads_ok pl ev'" by simp_all
  from outbox_steps_extends [OF steps inv(1)] have "outbox_inv pl ev'" by simp
  moreover have "repaired_up_to pl rid coll ev' start through cursor"
    by (rule repaired_up_to_page [OF after(4) grows inv(3) after(2) page])
  moreover have "through < db_next_position ev'" using store_growsD(1) [OF grows] inv(3) by simp
  moreover have "k = 0 \<or> after < through" using after(3,6) Paged.hyps(6) by auto
  then have "start + int (Suc k) \<le> cursor \<or> (cursor = through \<and> start + int (Suc k) \<le> through + 1)"
    using after(2,3,5) cursor(3-5) by auto
  ultimately show ?case using heads cursor after(2) by auto
next
  case (Meanwhile k cp ev ev')
  then obtain cursor where inv: "outbox_inv pl ev" "heads_ok pl ev" "through < db_next_position ev" "through_of cp through"
    and cursor: "cursor_of cp cursor" "start \<le> cursor" "cursor \<le> through" "repaired_up_to pl rid coll ev start through cursor"
      "start + int k \<le> cursor \<or> (cursor = through \<and> start + int k \<le> through + 1)"
      "k = 0 \<or> (truthy (jget cp ''repair_complete'') \<longleftrightarrow> cursor = through)"
    by blast
  from outbox_step_grows [OF Meanwhile.hyps(2)] inv(2) have grows: "store_grows ev ev'" "heads_ok pl ev'" by simp_all
  moreover from outbox_step_extends [OF Meanwhile.hyps(2) inv(1)] have "outbox_inv pl ev'" by simp
  moreover have "repaired_up_to pl rid coll ev' start through cursor"
    by (rule repaired_up_to_grows [OF grows(1) inv(3) cursor(4)])
  moreover have "through < db_next_position ev'" using store_growsD(1) [OF grows(1)] inv(3) by simp
  ultimately show ?case using inv(4) cursor by blast
qed

lemma reachable_heads: "outbox_reachable pl db \<Longrightarrow> heads_ok pl db"
proof (induction rule: outbox_reachable.induct)
  case Start
  show ?case by (simp add: heads_ok_def db_empty_def)
next
  case (Step db db')
  with outbox_step_grows show ?case by blast
qed


text \<open>The copy that ends the raw phase opens such a window.\<close>

lemma high_water_below_next:
  assumes "position_ok db"
  shows "0 \<le> db_high_water_mark db \<and> db_high_water_mark db < db_next_position db"
proof (cases "py_max id (map (pe_position \<circ> er_event) (db_rows db))")
  case None
  with assms show ?thesis unfolding db_high_water_mark_def None by (simp add: position_ok_def)
next
  case (Some p)
  then have "p \<in> set (map (pe_position \<circ> er_event) (db_rows db))" by (rule py_max_Some [THEN conjunct1])
  with Some assms show ?thesis by (auto simp: db_high_water_mark_def position_ok_def)
qed

lemma copy_opens_window:
  assumes "copy_chunk env rt r cp barrier n w events = (w', events', Ok (cp', copied, documents))"
    and "truthy (jget cp' ''raw_copy_complete'')" and "position_ok events'"
  shows "cursor_of cp' barrier" and "through_of cp' (db_high_water_mark events')"
    and "db_high_water_mark events' < db_next_position events'"
    and "truthy (jget cp' ''repair_complete'') \<longleftrightarrow> db_high_water_mark events' \<le> barrier"
  using assms high_water_below_next [OF assms(3)]
  by (auto simp: copy_chunk_def Let_def cursor_of_def through_of_def dget_dput jget_dput split: prod.splits sum.splits if_splits)

section \<open>One page over a deletion\<close>

definition deletion_env :: "(toy_world, secret_provider) rollout_env" where
  "deletion_env = toy_rollout_env\<lparr>rv_python := toy_python\<lparr>platform_of := toy_platform\<rparr>\<rparr>"

definition deletion_window :: document where
  "deletion_window = [(''repair_cursor_position'', JInt 0), (''repair_through_position'', JInt 1), (''repair_complete'', JBool False)]"

lemma deletion_page:
  "(case repair_page deletion_env toy_runtime (toy_rollout\<lparr>rollout_collection := ''c''\<rparr>) deletion_window 0 10 toy_db [] of
      (ev, _, Ok cp) \<Rightarrow> truthy (jget cp ''repair_complete'') \<and> 1 < db_next_position toy_db \<and>
        list_ex (\<lambda>row. newest_in ev 0 1 row \<and> fst (snd (payload_identity (pe_payload (er_event row)))) = ''c'') (db_rows ev)
    | _ \<Rightarrow> False)"
  by code_simp


end
