(* ===== verification/OutboxRetention.thy ===== *)
theory OutboxRetention
  imports OutboxGrowth ControlPlane "HOL-Library.Product_Lexorder"
begin

text \<open>
  \<open>scripts/ops/outbox_retention.py\<close>: the operator job that deletes old published rows of the two
  outboxes under a reviewed policy. The policy file, the parser of its JSON, the connection, row locks
  and the transactions of other clients are arguments; every statement is one atomic step.
\<close>

section \<open>The policy\<close>

datatype retention_error = RetentionError string | UnexpectedFailure

definition EVIDENCE_SCHEMA :: string where "EVIDENCE_SCHEMA = ''imposbro.outbox-retention-evidence.v1''"
definition POLICY_SCHEMA :: string where "POLICY_SCHEMA = ''imposbro.outbox-retention-policy.v1''"
definition SUPPORTED_SCHEMA_REVISIONS :: "string list" where "SUPPORTED_SCHEMA_REVISIONS = [''0003_audit_delivery_deletion'']"
definition SUPPORTED_TABLES :: "string list" where "SUPPORTED_TABLES = [''control_plane_outbox'', ''indexing_event_outbox'']"
definition MAX_POLICY_BYTES :: int where "MAX_POLICY_BYTES = 262144"

definition SAFE_IDENTIFIER :: "string \<Rightarrow> bool" where
  "SAFE_IDENTIFIER s \<longleftrightarrow> matches (\<lambda>c. is_alnum c \<or> c \<in> {CHR ''.'', CHR ''_'', CHR '':'', CHR ''-''}) 1 128 s"

definition SHA256 :: "string \<Rightarrow> bool" where
  "SHA256 s \<longleftrightarrow> matches is_hex 64 64 s"

record TablePolicy =
  retention_seconds :: int
  max_unpublished :: int
  held_identity_hashes :: "string list"
  held_revisions :: "int list"

record LegalHoldSnapshot =
  snapshot_id :: string
  captured_at :: time
  snapshot_expires_at :: time
  snapshot_complete :: bool

record RetentionPolicy =
  policy_id :: string
  database_id :: string
  database_name :: string
  schema_revision :: string
  not_before :: time
  policy_expires_at :: time
  deny_all :: bool
  legal_hold_snapshot :: LegalHoldSnapshot
  allowed_tables :: "string list"
  table_policies :: "(string, TablePolicy) pydict"
  policy_digest :: string

definition confirmation :: "RetentionPolicy \<Rightarrow> string" where
  "confirmation p = ''APPLY:'' @ database_id p @ '':'' @ policy_id p @ '':'' @ take 12 (policy_digest p)"

text \<open>
  What the operating system says about the policy path: whether it is a regular file, whether group or other
  have a permission bit, its owner, its size, and what reading returned.
\<close>

datatype policy_file = NoSuchFile | CannotOpen
  | OpenedFile bool bool nat int string

definition read_policy :: "nat \<Rightarrow> policy_file \<Rightarrow> retention_error + string" where
  "read_policy euid f = (case f of
     NoSuchFile \<Rightarrow> Raise (RetentionError ''policy_not_found'')
   | CannotOpen \<Rightarrow> Raise (RetentionError ''unsafe_policy_file'')
   | OpenedFile regular shared owner stored raw \<Rightarrow>
       if \<not> regular then Raise (RetentionError ''unsafe_policy_file'')
       else if shared then Raise (RetentionError ''unsafe_policy_permissions'')
       else if owner \<notin> {0, euid} then Raise (RetentionError ''unsafe_policy_owner'')
       else if stored \<le> 0 \<or> MAX_POLICY_BYTES < stored then Raise (RetentionError ''invalid_policy_size'')
       else if int (length raw) \<noteq> stored \<or> MAX_POLICY_BYTES < int (length raw) then Raise (RetentionError ''policy_changed_during_read'')
       else Ok raw)"

text \<open>No object of the parsed text has a key twice.\<close>

fun unique_keys :: "json \<Rightarrow> bool" where
  "unique_keys (JObj kvs) = (distinct (map fst kvs) \<and> list_all (\<lambda>(k, v). unique_keys v) kvs)"
| "unique_keys (JArr vs) = list_all unique_keys vs"
| "unique_keys v = True"

definition strict_json_object :: "(string \<Rightarrow> json option) \<Rightarrow> string \<Rightarrow> retention_error + document" where
  "strict_json_object loads raw = (case loads raw of
     None \<Rightarrow> Raise (RetentionError ''invalid_policy_json'')
   | Some v \<Rightarrow> if \<not> unique_keys v then Raise (RetentionError ''invalid_policy_json'')
       else (case v of JObj kvs \<Rightarrow> Ok kvs | _ \<Rightarrow> Raise (RetentionError ''invalid_policy_json'')))"

abbreviation bad_policy :: "retention_error + 'a" where
  "bad_policy \<equiv> Raise (RetentionError ''invalid_policy_schema'')"

definition require_exact_keys :: "document \<Rightarrow> string list \<Rightarrow> retention_error + unit" where
  "require_exact_keys d ks = (if set (dkeys d) = set ks then Ok () else bad_policy)"

definition require_identifier :: "json \<Rightarrow> retention_error + string" where
  "require_identifier v = (case v of JStr s \<Rightarrow> if SAFE_IDENTIFIER s then Ok s else bad_policy | _ \<Rightarrow> bad_policy)"

definition parse_utc :: "(string \<Rightarrow> time option) \<Rightarrow> json \<Rightarrow> retention_error + time" where
  "parse_utc fromiso v = (case v of
     JStr s \<Rightarrow> if s = [] \<or> last s \<noteq> CHR ''Z'' then bad_policy
       else (case fromiso (butlast s @ ''+00:00'') of Some t \<Rightarrow> Ok t | None \<Rightarrow> bad_policy)
   | _ \<Rightarrow> bad_policy)"

definition require_int :: "json \<Rightarrow> int \<Rightarrow> int \<Rightarrow> retention_error + int" where
  "require_int v lo hi = (case v of JInt n \<Rightarrow> if n < lo \<or> hi < n then bad_policy else Ok n | _ \<Rightarrow> bad_policy)"

definition require_bool :: "json \<Rightarrow> retention_error + bool" where
  "require_bool v = (case v of JBool b \<Rightarrow> Ok b | _ \<Rightarrow> bad_policy)"

text \<open>\<open>len(set(items))\<close> raises \<open>TypeError\<close> on a list or an object.\<close>

definition unhashable :: "json \<Rightarrow> bool" where
  "unhashable v = (case v of JArr _ \<Rightarrow> True | JObj _ \<Rightarrow> True | _ \<Rightarrow> False)"

definition parse_snapshot :: "(string \<Rightarrow> time option) \<Rightarrow> json \<Rightarrow> retention_error + LegalHoldSnapshot" where
  "parse_snapshot fromiso v = (case v of
     JObj d \<Rightarrow>
       ebind (require_exact_keys d [''snapshot_id'', ''captured_at'', ''expires_at'', ''complete'']) (\<lambda>_.
       ebind (require_identifier (jget d ''snapshot_id'')) (\<lambda>sid.
       ebind (parse_utc fromiso (jget d ''captured_at'')) (\<lambda>captured.
       ebind (parse_utc fromiso (jget d ''expires_at'')) (\<lambda>expires.
       ebind (require_bool (jget d ''complete'')) (\<lambda>whole.
         if expires \<le> captured then Raise (RetentionError ''invalid_legal_hold_snapshot'')
         else Ok \<lparr>snapshot_id = sid, captured_at = captured, snapshot_expires_at = expires, snapshot_complete = whole\<rparr>)))))
   | _ \<Rightarrow> bad_policy)"

definition parse_allowed :: "json \<Rightarrow> retention_error + string list" where
  "parse_allowed v = (case v of
     JArr items \<Rightarrow>
       if items = [] then Raise (RetentionError ''invalid_policy_allowlist'')
       else if list_ex unhashable items then Raise UnexpectedFailure
       else (case those (map (\<lambda>i. case i of JStr s \<Rightarrow> if s \<in> set SUPPORTED_TABLES then Some s else None | _ \<Rightarrow> None) items) of
           None \<Rightarrow> Raise (RetentionError ''invalid_policy_allowlist'')
         | Some names \<Rightarrow> if distinct names then Ok names else Raise (RetentionError ''invalid_policy_allowlist''))
   | _ \<Rightarrow> Raise (RetentionError ''invalid_policy_allowlist''))"

definition parse_held :: "(json \<Rightarrow> 'a option) \<Rightarrow> json \<Rightarrow> retention_error + 'a list" where
  "parse_held read v = (case v of
     JArr items \<Rightarrow>
       if list_ex unhashable items then Raise UnexpectedFailure
       else (case those (map read items) of
           None \<Rightarrow> bad_policy
         | Some held \<Rightarrow> if distinct held then Ok held else bad_policy)
   | _ \<Rightarrow> bad_policy)"

definition held_revision :: "json \<Rightarrow> int option" where
  "held_revision v = (case v of JInt n \<Rightarrow> if 1 \<le> n then Some n else None | _ \<Rightarrow> None)"

definition held_hash :: "json \<Rightarrow> string option" where
  "held_hash v = (case v of JStr s \<Rightarrow> if SHA256 s then Some s else None | _ \<Rightarrow> None)"

definition parse_table :: "string \<Rightarrow> json \<Rightarrow> retention_error + TablePolicy" where
  "parse_table table v = (case v of
     JObj d \<Rightarrow>
       (let held_key = (if table = ''control_plane_outbox'' then ''held_revisions'' else ''held_identity_hashes'') in
        ebind (require_exact_keys d [''retention_seconds'', ''max_unpublished'', held_key]) (\<lambda>_.
        ebind (if table = ''control_plane_outbox'' then ebind (parse_held held_revision (jget d held_key)) (\<lambda>h. Ok ([], h))
               else ebind (parse_held held_hash (jget d held_key)) (\<lambda>h. Ok (h, []))) (\<lambda>(hashes, revisions).
        ebind (require_int (jget d ''retention_seconds'') 3600 315576000) (\<lambda>seconds.
        ebind (require_int (jget d ''max_unpublished'') 0 10000000) (\<lambda>backlog.
          Ok \<lparr>retention_seconds = seconds, max_unpublished = backlog, held_identity_hashes = sort hashes,
              held_revisions = sort revisions\<rparr>)))))
   | _ \<Rightarrow> bad_policy)"

definition parse_tables :: "string list \<Rightarrow> json \<Rightarrow> retention_error + (string, TablePolicy) pydict" where
  "parse_tables allowed v = (case v of
     JObj d \<Rightarrow> if set (dkeys d) \<noteq> set allowed then bad_policy
       else mapE (\<lambda>table. ebind (parse_table table (jget d table)) (\<lambda>tp. Ok (table, tp))) allowed
   | _ \<Rightarrow> bad_policy)"

definition POLICY_KEYS :: "string list" where
  "POLICY_KEYS = [''schema'', ''policy_id'', ''database_id'', ''database_name'', ''schema_revision'', ''not_before'',
     ''expires_at'', ''deny_all'', ''legal_hold_snapshot'', ''allowed_tables'', ''tables'']"

definition parse_policy :: "(string \<Rightarrow> time option) \<Rightarrow> string \<Rightarrow> document \<Rightarrow> retention_error + RetentionPolicy" where
  "parse_policy fromiso digest d =
     ebind (require_exact_keys d POLICY_KEYS) (\<lambda>_.
     ebind (require (jget d ''schema'' = JStr POLICY_SCHEMA) (RetentionError ''unsupported_policy_schema'')) (\<lambda>_.
     ebind (require_identifier (jget d ''policy_id'')) (\<lambda>pid.
     ebind (require_identifier (jget d ''database_id'')) (\<lambda>did.
     ebind (require_identifier (jget d ''database_name'')) (\<lambda>name.
     ebind (require_identifier (jget d ''schema_revision'')) (\<lambda>revision.
     ebind (require (revision \<in> set SUPPORTED_SCHEMA_REVISIONS) (RetentionError ''unsupported_schema_revision'')) (\<lambda>_.
     ebind (parse_utc fromiso (jget d ''not_before'')) (\<lambda>start.
     ebind (parse_utc fromiso (jget d ''expires_at'')) (\<lambda>expires.
     ebind (require (start < expires) (RetentionError ''invalid_policy_window'')) (\<lambda>_.
     ebind (require_bool (jget d ''deny_all'')) (\<lambda>deny.
     ebind (parse_snapshot fromiso (jget d ''legal_hold_snapshot'')) (\<lambda>snapshot.
     ebind (require (deny \<or> snapshot_complete snapshot) (RetentionError ''incomplete_legal_hold_snapshot'')) (\<lambda>_.
     ebind (parse_allowed (jget d ''allowed_tables'')) (\<lambda>allowed.
     ebind (parse_tables allowed (jget d ''tables'')) (\<lambda>tables.
       Ok \<lparr>policy_id = pid, database_id = did, database_name = name, schema_revision = revision, not_before = start,
           policy_expires_at = expires, deny_all = deny, legal_hold_snapshot = snapshot, allowed_tables = allowed,
           table_policies = tables, policy_digest = digest\<rparr>)))))))))))))))"

definition load_policy :: "platform \<Rightarrow> (string \<Rightarrow> json option) \<Rightarrow> (string \<Rightarrow> time option) \<Rightarrow> nat \<Rightarrow> policy_file \<Rightarrow> retention_error + RetentionPolicy" where
  "load_policy pl loads fromiso euid f =
     ebind (read_policy euid f) (\<lambda>raw. ebind (strict_json_object loads raw) (parse_policy fromiso (sha256 pl raw)))"

section \<open>Candidates and one batch\<close>

record retention_db =
  rd_control :: ControlPlaneDb
  rd_events :: EvDb

text \<open>The columns of an outbox that the statements use.\<close>

record 'r outbox_view =
  ov_rows :: "retention_db \<Rightarrow> 'r list"
  ov_replace :: "'r list \<Rightarrow> retention_db \<Rightarrow> retention_db"
  ov_published :: "'r \<Rightarrow> time option"
  ov_id :: "'r \<Rightarrow> string"
  ov_held :: "TablePolicy \<Rightarrow> 'r \<Rightarrow> bool"
  ov_newer :: "'r \<Rightarrow> 'r \<Rightarrow> bool"

definition control_view :: "OutboxRecord outbox_view" where
  "control_view = \<lparr>ov_rows = (\<lambda>d. outbox_rows (rd_control d)),
     ov_replace = (\<lambda>rows d. d\<lparr>rd_control := (rd_control d)\<lparr>outbox_rows := rows\<rparr>\<rparr>),
     ov_published = ob_published_at, ov_id = ob_event_id, ov_held = (\<lambda>tp r. ob_revision r \<in> set (held_revisions tp)),
     ov_newer = (\<lambda>r r'. ob_revision r < ob_revision r')\<rparr>"

definition indexing_view :: "EvRow outbox_view" where
  "indexing_view = \<lparr>ov_rows = (\<lambda>d. db_rows (rd_events d)),
     ov_replace = (\<lambda>rows d. d\<lparr>rd_events := (rd_events d)\<lparr>db_rows := rows\<rparr>\<rparr>),
     ov_published = (\<lambda>r. pe_published_at (er_event r)), ov_id = (\<lambda>r. pe_event_id (er_event r)),
     ov_held = (\<lambda>tp r. er_identity_hash r \<in> set (held_identity_hashes tp)),
     ov_newer = (\<lambda>r r'. er_identity_hash r' = er_identity_hash r \<and> pe_sequence (er_event r) < pe_sequence (er_event r'))\<rparr>"

definition retention_candidate :: "'r outbox_view \<Rightarrow> TablePolicy \<Rightarrow> time \<Rightarrow> retention_db \<Rightarrow> 'r \<Rightarrow> bool" where
  "retention_candidate v tp cutoff d r \<longleftrightarrow> (case ov_published v r of None \<Rightarrow> False | Some t \<Rightarrow> t < cutoff) \<and> \<not> ov_held v tp r \<and>
     list_ex (ov_newer v r) (ov_rows v d)"

definition sql_min :: "time list \<Rightarrow> time option" where
  "sql_min ts = (case ts of [] \<Rightarrow> None | t # rest \<Rightarrow> Some (fold min rest t))"

definition sql_max :: "time list \<Rightarrow> time option" where
  "sql_max ts = (case ts of [] \<Rightarrow> None | t # rest \<Rightarrow> Some (fold max rest t))"

definition published_times :: "'r outbox_view \<Rightarrow> 'r list \<Rightarrow> time list" where
  "published_times v rows = List.map_filter (ov_published v) rows"

definition unpublished_count :: "'r outbox_view \<Rightarrow> retention_db \<Rightarrow> int" where
  "unpublished_count v d = int (length (filter (\<lambda>r. ov_published v r = None) (ov_rows v d)))"

definition candidates :: "'r outbox_view \<Rightarrow> TablePolicy \<Rightarrow> time \<Rightarrow> retention_db \<Rightarrow> 'r list" where
  "candidates v tp cutoff d = filter (retention_candidate v tp cutoff d) (ov_rows v d)"

text \<open>The delete statement: candidates that no one has locked, oldest first, up to the limit.\<close>

definition delete_batch :: "'r outbox_view \<Rightarrow> TablePolicy \<Rightarrow> time \<Rightarrow> nat \<Rightarrow> ('r \<Rightarrow> bool) \<Rightarrow> retention_db \<Rightarrow> retention_db \<times> 'r list" where
  "delete_batch v tp cutoff batch_size locked d =
     (let order = (\<lambda>r. (case ov_published v r of Some t \<Rightarrow> t | None \<Rightarrow> 0, ov_id v r));
          chosen = take batch_size (sort_key order (filter (\<lambda>r. \<not> locked r) (candidates v tp cutoff d)));
          victim = (\<lambda>r. ov_id v r \<in> set (map (ov_id v) chosen) \<and> ov_published v r \<noteq> None \<and> list_ex (ov_newer v r) (ov_rows v d)) in
      (ov_replace v (filter (\<lambda>r. \<not> victim r) (ov_rows v d)) d, filter victim (ov_rows v d)))"

section \<open>One table\<close>

record TableResult =
  tr_table :: string
  tr_retention_seconds :: int
  tr_held_entries :: nat
  tr_initial_unpublished :: int
  tr_candidates_before :: nat
  tr_candidate_oldest :: "time option"
  tr_candidate_newest :: "time option"
  tr_deleted :: nat
  tr_deleted_oldest :: "time option"
  tr_deleted_newest :: "time option"
  tr_batches :: nat
  tr_remaining :: nat

definition add_deleted :: "'r outbox_view \<Rightarrow> 'r list \<Rightarrow> TableResult \<Rightarrow> TableResult" where
  "add_deleted v victims res =
     (let oldest = sql_min (published_times v victims); newest = sql_max (published_times v victims) in
      res\<lparr>tr_batches := tr_batches res + 1, tr_deleted := tr_deleted res + length victims,
        tr_deleted_oldest := (case (tr_deleted_oldest res, oldest) of (None, t) \<Rightarrow> t | (Some a, Some b) \<Rightarrow> Some (min a b) | (a, None) \<Rightarrow> a),
        tr_deleted_newest := (case (tr_deleted_newest res, newest) of (None, t) \<Rightarrow> t | (Some a, Some b) \<Rightarrow> Some (max a b) | (a, None) \<Rightarrow> a)\<rparr>)"

text \<open>
  \<open>others n\<close> is what the other clients commit before the batch with \<open>n\<close> more to come; \<open>locks n\<close> says which rows
  they hold locked during that statement, and \<open>None\<close> that a timeout rolls it back.
\<close>

fun delete_batches :: "'r outbox_view \<Rightarrow> TablePolicy \<Rightarrow> (nat \<Rightarrow> retention_db \<Rightarrow> retention_db) \<Rightarrow> (nat \<Rightarrow> ('r \<Rightarrow> bool) option)
    \<Rightarrow> time \<Rightarrow> nat \<Rightarrow> nat \<Rightarrow> retention_db \<Rightarrow> TableResult \<Rightarrow> retention_db \<times> (retention_error + TableResult)" where
  "delete_batches v tp others locks cutoff batch_size 0 d res = (d, Ok res)"
| "delete_batches v tp others locks cutoff batch_size (Suc n) d res =
     (let d1 = others n d in
      if tr_initial_unpublished res < unpublished_count v d1 \<or> max_unpublished tp < unpublished_count v d1
      then (d1, Raise (RetentionError ''unpublished_backlog_rising''))
      else case locks n of
        None \<Rightarrow> (d1, Raise UnexpectedFailure)
      | Some locked \<Rightarrow>
          (case delete_batch v tp cutoff batch_size locked d1 of
             (d2, []) \<Rightarrow> (d2, Ok res)
           | (d2, victims) \<Rightarrow> delete_batches v tp others locks cutoff batch_size n d2 (add_deleted v victims res)))"

definition process_table :: "'r outbox_view \<Rightarrow> string \<Rightarrow> TablePolicy \<Rightarrow> (nat \<Rightarrow> retention_db \<Rightarrow> retention_db) \<Rightarrow> (nat \<Rightarrow> ('r \<Rightarrow> bool) option)
    \<Rightarrow> time \<Rightarrow> nat \<Rightarrow> nat \<Rightarrow> bool \<Rightarrow> retention_db \<Rightarrow> retention_db \<times> (retention_error + TableResult)" where
  "process_table v table tp others locks now batch_size max_batches apply d =
     (let cutoff = now - retention_seconds tp * 1000000; found = candidates v tp cutoff d in
      if max_unpublished tp < unpublished_count v d then (d, Raise (RetentionError ''unpublished_backlog_exceeds_policy''))
      else
       (let res = \<lparr>tr_table = table, tr_retention_seconds = retention_seconds tp,
              tr_held_entries = (if table = ''control_plane_outbox'' then length (held_revisions tp) else length (held_identity_hashes tp)),
              tr_initial_unpublished = unpublished_count v d, tr_candidates_before = length found,
              tr_candidate_oldest = sql_min (published_times v found), tr_candidate_newest = sql_max (published_times v found),
              tr_deleted = 0, tr_deleted_oldest = None, tr_deleted_newest = None, tr_batches = 0, tr_remaining = length found\<rparr> in
        if \<not> apply then (d, Ok res)
        else case delete_batches v tp others locks cutoff batch_size max_batches d res of
          (d1, Raise e) \<Rightarrow> (d1, Raise e)
        | (d1, Ok res1) \<Rightarrow> (d1, Ok (res1\<lparr>tr_remaining := length (candidates v tp cutoff d1)\<rparr>))))"

section \<open>The run\<close>

record retention_env =
  rn_connects :: bool
  rn_database_name :: string
  rn_now :: time
  rn_revision :: "string option"
  rn_lock_free :: bool
  rn_others :: "string \<Rightarrow> nat \<Rightarrow> retention_db \<Rightarrow> retention_db"
  rn_control_locks :: "nat \<Rightarrow> (OutboxRecord \<Rightarrow> bool) option"
  rn_event_locks :: "nat \<Rightarrow> (EvRow \<Rightarrow> bool) option"

definition connection_checks :: "retention_env \<Rightarrow> RetentionPolicy \<Rightarrow> retention_error + unit" where
  "connection_checks env p =
     ebind (require (rn_connects env) (RetentionError ''database_connection_failed'')) (\<lambda>_.
     ebind (require (rn_database_name env = database_name p) (RetentionError ''database_identity_mismatch'')) (\<lambda>_.
     ebind (require (rn_revision env = Some (schema_revision p)) (RetentionError ''schema_revision_mismatch'')) (\<lambda>_.
     ebind (require (not_before p \<le> rn_now env \<and> rn_now env \<le> policy_expires_at p) (RetentionError ''policy_outside_validity_window'')) (\<lambda>_.
     ebind (require (captured_at (legal_hold_snapshot p) \<le> rn_now env \<and> rn_now env \<le> snapshot_expires_at (legal_hold_snapshot p))
       (RetentionError ''legal_hold_snapshot_outside_validity_window'')) (\<lambda>_.
     require (rn_lock_free env) (RetentionError ''retention_job_already_running''))))))"

definition run_table :: "retention_env \<Rightarrow> RetentionPolicy \<Rightarrow> nat \<Rightarrow> nat \<Rightarrow> bool \<Rightarrow> string \<Rightarrow> retention_db \<Rightarrow> retention_db \<times> (retention_error + TableResult)" where
  "run_table env p batch_size max_batches apply table d =
     (case dget (table_policies p) table of
        None \<Rightarrow> (d, Raise UnexpectedFailure)
      | Some tp \<Rightarrow>
          if table = ''control_plane_outbox''
          then process_table control_view table tp (rn_others env table) (rn_control_locks env) (rn_now env) batch_size max_batches apply d
          else process_table indexing_view table tp (rn_others env table) (rn_event_locks env) (rn_now env) batch_size max_batches apply d)"

fun run_tables :: "retention_env \<Rightarrow> RetentionPolicy \<Rightarrow> nat \<Rightarrow> nat \<Rightarrow> bool \<Rightarrow> string list \<Rightarrow> retention_db \<Rightarrow> retention_db \<times> (retention_error + TableResult list)" where
  "run_tables env p batch_size max_batches apply [] d = (d, Ok [])"
| "run_tables env p batch_size max_batches apply (table # tables) d =
     (case run_table env p batch_size max_batches apply table d of
        (d1, Raise e) \<Rightarrow> (d1, Raise e)
      | (d1, Ok res) \<Rightarrow>
          (case run_tables env p batch_size max_batches apply tables d1 of
             (d2, Raise e) \<Rightarrow> (d2, Raise e) | (d2, Ok rest) \<Rightarrow> (d2, Ok (res # rest))))"

definition retention_run :: "retention_env \<Rightarrow> RetentionPolicy \<Rightarrow> nat \<Rightarrow> nat \<Rightarrow> bool \<Rightarrow> retention_db
    \<Rightarrow> retention_db \<times> (retention_error + TableResult list \<times> bool)" where
  "retention_run env p batch_size max_batches apply d =
     (case connection_checks env p of
        Raise e \<Rightarrow> (d, Raise e)
      | Ok _ \<Rightarrow>
          (case run_tables env p batch_size max_batches apply (allowed_tables p) d of
             (d1, Raise e) \<Rightarrow> (d1, Raise e)
           | (d1, Ok results) \<Rightarrow> (d1, Ok (results, list_ex (\<lambda>res. 0 < tr_remaining res) results))))"

section \<open>The command\<close>

record retention_args =
  rg_apply :: bool
  rg_policy_sha256 :: string
  rg_batch_size :: nat
  rg_max_batches :: nat
  rg_lock_timeout_ms :: nat
  rg_statement_timeout_ms :: nat

definition retention_args_ok :: "retention_args \<Rightarrow> bool" where
  "retention_args_ok a \<longleftrightarrow> 1 \<le> rg_batch_size a \<and> rg_batch_size a \<le> 10000 \<and> 1 \<le> rg_max_batches a \<and> rg_max_batches a \<le> 100000 \<and>
     100 \<le> rg_lock_timeout_ms a \<and> rg_lock_timeout_ms a \<le> 60000 \<and> 1000 \<le> rg_statement_timeout_ms a \<and> rg_statement_timeout_ms a \<le> 300000"

record retention_report =
  ro_outcome :: string
  ro_error :: "string option"
  ro_exit :: int
  ro_policy :: "RetentionPolicy option"
  ro_results :: "TableResult list"

definition authorize_run :: "RetentionPolicy \<Rightarrow> retention_args \<Rightarrow> string \<Rightarrow> retention_error + unit" where
  "authorize_run p a confirm =
     ebind (require (\<not> deny_all p) (RetentionError ''policy_denies_retention'')) (\<lambda>_.
     if \<not> rg_apply a then Ok ()
     else
       (let supplied = lower (strip (rg_policy_sha256 a)) in
        ebind (require (SHA256 supplied \<and> supplied = policy_digest p) (RetentionError ''policy_digest_mismatch'')) (\<lambda>_.
        require (confirm = confirmation p) (RetentionError ''confirmation_mismatch''))))"

definition failure_code :: "retention_error \<Rightarrow> string" where
  "failure_code e = (case e of RetentionError c \<Rightarrow> c | UnexpectedFailure \<Rightarrow> ''unexpected_retention_failure'')"

definition failed_report :: "RetentionPolicy option \<Rightarrow> retention_error \<Rightarrow> retention_report" where
  "failed_report p e = \<lparr>ro_outcome = ''failed'', ro_error = Some (failure_code e), ro_exit = 1, ro_policy = p, ro_results = []\<rparr>"

text \<open>\<open>main\<close> up to the evidence, which is written whatever happened.\<close>

definition retention_main :: "platform \<Rightarrow> (string \<Rightarrow> json option) \<Rightarrow> (string \<Rightarrow> time option) \<Rightarrow> nat \<Rightarrow> policy_file \<Rightarrow> retention_args \<Rightarrow> string
    \<Rightarrow> retention_env \<Rightarrow> retention_db \<Rightarrow> retention_db \<times> retention_report" where
  "retention_main pl loads fromiso euid file a confirm env d =
     (case load_policy pl loads fromiso euid file of
        Raise e \<Rightarrow> (d, failed_report None e)
      | Ok p \<Rightarrow>
          (case authorize_run p a confirm of
             Raise e \<Rightarrow> (d, failed_report (Some p) e)
           | Ok _ \<Rightarrow>
               (case retention_run env p (rg_batch_size a) (rg_max_batches a) (rg_apply a) d of
                  (d1, Raise e) \<Rightarrow> (d1, failed_report (Some p) e)
                | (d1, Ok (results, incomplete)) \<Rightarrow>
                    (d1, if rg_apply a \<and> incomplete
                       then \<lparr>ro_outcome = ''partial'', ro_error = Some ''bounded_run_incomplete'', ro_exit = 2, ro_policy = Some p, ro_results = results\<rparr>
                       else \<lparr>ro_outcome = ''success'', ro_error = None, ro_exit = 0, ro_policy = Some p, ro_results = results\<rparr>))))"

definition exit_status :: "bool \<Rightarrow> retention_report \<Rightarrow> int" where
  "exit_status evidence_written ro = (if evidence_written then ro_exit ro else 1)"

text \<open>The evidence document.\<close>

definition opt_time :: "(time \<Rightarrow> string) \<Rightarrow> time option \<Rightarrow> json" where
  "opt_time isoformat t = (case t of None \<Rightarrow> JNull | Some x \<Rightarrow> JStr (isoformat x))"

definition table_evidence :: "(time \<Rightarrow> string) \<Rightarrow> TableResult \<Rightarrow> json" where
  "table_evidence isoformat res = JObj
     [(''table'', JStr (tr_table res)), (''retention_seconds'', JInt (tr_retention_seconds res)),
      (''legal_hold_entries'', JInt (int (tr_held_entries res))), (''initial_unpublished'', JInt (tr_initial_unpublished res)),
      (''candidates_before'', JInt (int (tr_candidates_before res))),
      (''candidate_range'', JObj [(''oldest'', opt_time isoformat (tr_candidate_oldest res)), (''newest'', opt_time isoformat (tr_candidate_newest res))]),
      (''deleted'', JInt (int (tr_deleted res))),
      (''deleted_range'', JObj [(''oldest'', opt_time isoformat (tr_deleted_oldest res)), (''newest'', opt_time isoformat (tr_deleted_newest res))]),
      (''batches'', JInt (int (tr_batches res))), (''remaining_candidates'', JInt (int (tr_remaining res)))]"

definition policy_evidence :: "(time \<Rightarrow> string) \<Rightarrow> RetentionPolicy option \<Rightarrow> json" where
  "policy_evidence isoformat po =
     (let from = (\<lambda>f. case po of Some p \<Rightarrow> f p | None \<Rightarrow> JNull) in
      JObj [(''id'', from (\<lambda>p. JStr (policy_id p))), (''sha256'', from (\<lambda>p. JStr (policy_digest p))), (''deny_all'', from (\<lambda>p. JBool (deny_all p))),
        (''allowed_tables'', JArr (case po of Some p \<Rightarrow> map JStr (allowed_tables p) | None \<Rightarrow> [])),
        (''valid_from'', from (\<lambda>p. JStr (isoformat (not_before p)))), (''valid_until'', from (\<lambda>p. JStr (isoformat (policy_expires_at p)))),
        (''legal_hold_snapshot'', JObj [(''id'', from (\<lambda>p. JStr (snapshot_id (legal_hold_snapshot p)))),
           (''captured_at'', from (\<lambda>p. JStr (isoformat (captured_at (legal_hold_snapshot p))))),
           (''valid_until'', from (\<lambda>p. JStr (isoformat (snapshot_expires_at (legal_hold_snapshot p))))),
           (''complete'', from (\<lambda>p. JBool (snapshot_complete (legal_hold_snapshot p))))])])"

definition retention_evidence :: "(time \<Rightarrow> string) \<Rightarrow> retention_args \<Rightarrow> retention_report \<Rightarrow> json \<Rightarrow> json \<Rightarrow> document" where
  "retention_evidence isoformat a ro provenance timing =
     [(''schema'', JStr EVIDENCE_SCHEMA), (''outcome'', JStr (ro_outcome ro)), (''mode'', JStr (if rg_apply a then ''apply'' else ''dry-run'')),
      (''error_code'', case ro_error ro of Some c \<Rightarrow> JStr c | None \<Rightarrow> JNull), (''policy'', policy_evidence isoformat (ro_policy ro)),
      (''provenance'', provenance),
      (''safety'', JObj [(''dry_run_default'', JBool True), (''published_rows_only'', JBool True),
         (''newest_mutation_per_identity_preserved'', JBool True), (''audit_chain_touched'', JBool False), (''payloads_recorded'', JBool False),
         (''bounded_batch_size'', JInt (int (rg_batch_size a))), (''bounded_max_batches'', JInt (int (rg_max_batches a))),
         (''lock_timeout_ms'', JInt (int (rg_lock_timeout_ms a))), (''statement_timeout_ms'', JInt (int (rg_statement_timeout_ms a)))]),
      (''tables'', JArr (map (table_evidence isoformat) (ro_results ro))), (''timing'', timing), (''production_certification'', JBool False)]"

section \<open>What a run keeps\<close>

text \<open>
  Every row stays, up to its delivery bookkeeping, unless the policy of the table lets it go and a newer row
  of its group is still there.
\<close>

definition view_kept :: "'r outbox_view \<Rightarrow> ('r \<Rightarrow> 'r \<Rightarrow> bool) \<Rightarrow> TablePolicy option \<Rightarrow> retention_db \<Rightarrow> retention_db \<Rightarrow> bool" where
  "view_kept v same po d d' \<longleftrightarrow> (\<forall>r \<in> set (ov_rows v d). (\<exists>r' \<in> set (ov_rows v d'). same r r') \<or>
     (case po of None \<Rightarrow> False | Some tp \<Rightarrow> \<not> ov_held v tp r \<and> list_ex (ov_newer v r) (ov_rows v d')))"

locale deletable_outbox =
  fixes v :: "'r outbox_view" and same :: "'r \<Rightarrow> 'r \<Rightarrow> bool" and group :: "'r \<Rightarrow> string" and rank :: "'r \<Rightarrow> int"
  assumes newer: "ov_newer v r r' \<longleftrightarrow> group r' = group r \<and> rank r < rank r'"
    and replaced: "ov_rows v (ov_replace v rows d) = rows"
    and same_refl: "same r r"
    and same_trans: "same r r' \<Longrightarrow> same r' r'' \<Longrightarrow> same r r''"
    and same_row: "same r r' \<Longrightarrow> group r' = group r \<and> rank r' = rank r \<and> ov_held v tp r' = ov_held v tp r"
begin

lemma kept_refl: "view_kept v same po d d"
  unfolding view_kept_def using same_refl by blast

lemma newer_trans: "ov_newer v r r' \<Longrightarrow> ov_newer v r' r'' \<Longrightarrow> ov_newer v r r''"
  by (auto simp: newer)

lemma newer_same: "ov_newer v r r' \<Longrightarrow> same r' r'' \<Longrightarrow> ov_newer v r r''" "same r r' \<Longrightarrow> ov_newer v r' r'' \<Longrightarrow> ov_newer v r r''"
  using same_row by (auto simp: newer)

lemma kept_newer:
  assumes "view_kept v same po d d'" and "list_ex (ov_newer v r) (ov_rows v d)"
  shows "list_ex (ov_newer v r) (ov_rows v d')"
proof -
  from assms(2) obtain r1 where r1: "r1 \<in> set (ov_rows v d)" "ov_newer v r r1" by (auto simp: list_ex_iff)
  with assms(1) have "(\<exists>r' \<in> set (ov_rows v d'). same r1 r') \<or> list_ex (ov_newer v r1) (ov_rows v d')"
    unfolding view_kept_def by (auto split: option.splits)
  with r1(2) newer_same(1) newer_trans show ?thesis unfolding list_ex_iff by blast
qed

lemma kept_trans:
  assumes "view_kept v same po d d1" and "view_kept v same po d1 d2"
  shows "view_kept v same po d d2"
  unfolding view_kept_def
proof
  fix r assume r: "r \<in> set (ov_rows v d)"
  show "(\<exists>r' \<in> set (ov_rows v d2). same r r') \<or>
      (case po of None \<Rightarrow> False | Some tp \<Rightarrow> \<not> ov_held v tp r \<and> list_ex (ov_newer v r) (ov_rows v d2))"
  proof (cases "\<exists>r1 \<in> set (ov_rows v d1). same r r1")
    case True
    then obtain r1 where r1: "r1 \<in> set (ov_rows v d1)" "same r r1" by blast
    with assms(2) have "(\<exists>r' \<in> set (ov_rows v d2). same r1 r') \<or>
        (case po of None \<Rightarrow> False | Some tp \<Rightarrow> \<not> ov_held v tp r1 \<and> list_ex (ov_newer v r1) (ov_rows v d2))"
      unfolding view_kept_def by blast
    then show ?thesis
    proof
      assume "\<exists>r' \<in> set (ov_rows v d2). same r1 r'"
      with r1(2) same_trans show ?thesis by blast
    next
      assume let_go: "case po of None \<Rightarrow> False | Some tp \<Rightarrow> \<not> ov_held v tp r1 \<and> list_ex (ov_newer v r1) (ov_rows v d2)"
      then obtain tp r2 where tp: "po = Some tp" "\<not> ov_held v tp r1" and r2: "r2 \<in> set (ov_rows v d2)" "ov_newer v r1 r2"
        by (cases po) (auto simp: list_ex_iff)
      have "\<not> ov_held v tp r" using tp(2) same_row [OF r1(2)] by simp
      with tp(1) r2(1) newer_same(2) [OF r1(2) r2(2)] show ?thesis by (auto simp: list_ex_iff)
    qed
  next
    case False
    with assms(1) r obtain tp where "po = Some tp" "\<not> ov_held v tp r" "list_ex (ov_newer v r) (ov_rows v d1)"
      unfolding view_kept_def by (cases po) auto
    with kept_newer [OF assms(2)] show ?thesis by simp
  qed
qed

text \<open>A batch deletes candidates only, and the newest row of a group is never one.\<close>

lemma kept_batch:
  assumes "distinct (map (ov_id v) (ov_rows v d))"
  shows "view_kept v same (Some tp) d (fst (delete_batch v tp cutoff batch_size locked d))"
proof -
  define chosen where "chosen = take batch_size (sort_key (\<lambda>r. (case ov_published v r of Some t \<Rightarrow> t | None \<Rightarrow> 0, ov_id v r))
    (filter (\<lambda>r. \<not> locked r) (candidates v tp cutoff d)))"
  define victim where "victim r \<longleftrightarrow> ov_id v r \<in> set (map (ov_id v) chosen) \<and> ov_published v r \<noteq> None \<and> list_ex (ov_newer v r) (ov_rows v d)" for r
  have rest: "ov_rows v (fst (delete_batch v tp cutoff batch_size locked d)) = filter (\<lambda>r. \<not> victim r) (ov_rows v d)"
    by (simp add: delete_batch_def Let_def chosen_def victim_def replaced)
  have held: "\<not> ov_held v tp r" if "victim r" "r \<in> set (ov_rows v d)" for r
  proof -
    from that(1) obtain c where c: "c \<in> set chosen" "ov_id v c = ov_id v r" by (auto simp: victim_def)
    then have "c \<in> set (candidates v tp cutoff d)" by (auto simp: chosen_def dest: in_set_takeD)
    then have "c \<in> set (ov_rows v d)" "\<not> ov_held v tp c" by (auto simp: candidates_def retention_candidate_def)
    with assms c(2) that(2) show ?thesis by (auto simp: distinct_map dest: inj_onD)
  qed
  have top: "\<exists>r' \<in> set (ov_rows v d). \<not> victim r' \<and> group r' = group r \<and> rank r \<le> rank r'" if "r \<in> set (ov_rows v d)" for r
  proof -
    let ?group = "filter (\<lambda>x. group x = group r) (ov_rows v d)"
    have "?group \<noteq> []" using that by (auto simp: filter_empty_conv)
    then obtain m where m: "py_max rank ?group = Some m" by (cases "py_max rank ?group") (simp_all add: py_max_None)
    from py_max_Some [OF m] have "m \<in> set ?group" and max: "\<forall>x \<in> set ?group. rank x \<le> rank m" by simp_all
    then have "m \<in> set (ov_rows v d)" "group m = group r" "\<not> victim m"
      by (auto simp: victim_def list_ex_iff newer)
    moreover have "rank r \<le> rank m" using max that by simp
    ultimately show ?thesis by blast
  qed
  show ?thesis unfolding view_kept_def rest
  proof
    fix r assume r: "r \<in> set (ov_rows v d)"
    show "(\<exists>r' \<in> set (filter (\<lambda>r. \<not> victim r) (ov_rows v d)). same r r') \<or>
        (case Some tp of None \<Rightarrow> False | Some tp \<Rightarrow> \<not> ov_held v tp r \<and> list_ex (ov_newer v r) (filter (\<lambda>r. \<not> victim r) (ov_rows v d)))"
    proof (cases "victim r")
      case False
      with r same_refl [of r] show ?thesis by auto
    next
      case True
      then obtain r1 where r1: "r1 \<in> set (ov_rows v d)" "ov_newer v r r1" by (auto simp: victim_def list_ex_iff)
      from top [OF r1(1)] r1(2) held [OF True r] show ?thesis by (fastforce simp: list_ex_iff newer)
    qed
  qed
qed

end

text \<open>Both outboxes under the policies of their tables; the ids are the primary keys.\<close>

definition same_record :: "OutboxRecord \<Rightarrow> OutboxRecord \<Rightarrow> bool" where
  "same_record r r' \<longleftrightarrow> ob_event_id r' = ob_event_id r \<and> ob_revision r' = ob_revision r \<and> ob_event_type r' = ob_event_type r \<and>
     ob_payload r' = ob_payload r"

definition keys_distinct :: "retention_db \<Rightarrow> bool" where
  "keys_distinct d \<longleftrightarrow> distinct (map (ov_id control_view) (ov_rows control_view d)) \<and> distinct (map (ov_id indexing_view) (ov_rows indexing_view d))"

definition rows_safe :: "(string, TablePolicy) pydict \<Rightarrow> retention_db \<Rightarrow> retention_db \<Rightarrow> bool" where
  "rows_safe policies d d' \<longleftrightarrow> (keys_distinct d \<longrightarrow> keys_distinct d' \<and>
     view_kept control_view same_record (dget policies ''control_plane_outbox'') d d' \<and>
     view_kept indexing_view same_row (dget policies ''indexing_event_outbox'') d d')"

interpretation control: deletable_outbox control_view same_record "\<lambda>_. []" ob_revision
  by unfold_locales (auto simp: control_view_def same_record_def)

interpretation indexing: deletable_outbox indexing_view same_row er_identity_hash "\<lambda>r. pe_sequence (er_event r)"
  by unfold_locales (auto simp: indexing_view_def same_row_def same_envelope_def)

lemma views_apart [simp]:
  "ov_rows control_view (ov_replace indexing_view rows d) = ov_rows control_view d"
  "ov_rows indexing_view (ov_replace control_view rows' d) = ov_rows indexing_view d"
  by (simp_all add: control_view_def indexing_view_def)

lemma safe_refl: "rows_safe policies d d"
  by (simp add: rows_safe_def control.kept_refl indexing.kept_refl)

lemma safe_trans: "rows_safe policies d d1 \<Longrightarrow> rows_safe policies d1 d2 \<Longrightarrow> rows_safe policies d d2"
  unfolding rows_safe_def using control.kept_trans indexing.kept_trans by blast

lemma kept_same_rows:
  "ov_rows control_view d' = ov_rows control_view d \<Longrightarrow> view_kept control_view same_record po d d'"
  "ov_rows indexing_view d' = ov_rows indexing_view d \<Longrightarrow> view_kept indexing_view same_row po' d d'"
  using control.kept_refl [of po d] indexing.kept_refl [of po' d] by (simp_all only: view_kept_def)

lemma distinct_map_sublist: "distinct (map f xs) \<Longrightarrow> distinct (map f (filter P xs))"
  by (induction xs) auto

lemma batch_rows: "\<exists>victim. fst (delete_batch v tp cutoff batch_size locked d) = ov_replace v (filter victim (ov_rows v d)) d"
  by (auto simp: delete_batch_def Let_def)

lemma safe_batch:
  "dget policies ''control_plane_outbox'' = Some tp \<Longrightarrow> rows_safe policies d (fst (delete_batch control_view tp cutoff n locked d))"
  "dget policies ''indexing_event_outbox'' = Some tp \<Longrightarrow> rows_safe policies d (fst (delete_batch indexing_view tp cutoff n locked' d))"
proof -
  obtain vc where vc: "fst (delete_batch control_view tp cutoff n locked d) = ov_replace control_view (filter vc (ov_rows control_view d)) d"
    using batch_rows by blast
  obtain vi where vi: "fst (delete_batch indexing_view tp cutoff n locked' d) = ov_replace indexing_view (filter vi (ov_rows indexing_view d)) d"
    using batch_rows by blast
  show "rows_safe policies d (fst (delete_batch control_view tp cutoff n locked d))" if "dget policies ''control_plane_outbox'' = Some tp"
    unfolding rows_safe_def
  proof (intro impI conjI)
    assume keys: "keys_distinct d"
    then show "keys_distinct (fst (delete_batch control_view tp cutoff n locked d))"
      by (simp add: keys_distinct_def vc control.replaced distinct_map_sublist)
    show "view_kept control_view same_record (dget policies ''control_plane_outbox'') d (fst (delete_batch control_view tp cutoff n locked d))"
      using control.kept_batch keys by (simp add: keys_distinct_def that)
    show "view_kept indexing_view same_row (dget policies ''indexing_event_outbox'') d (fst (delete_batch control_view tp cutoff n locked d))"
      by (rule kept_same_rows) (simp add: vc)
  qed
  show "rows_safe policies d (fst (delete_batch indexing_view tp cutoff n locked' d))" if "dget policies ''indexing_event_outbox'' = Some tp"
    unfolding rows_safe_def
  proof (intro impI conjI)
    assume keys: "keys_distinct d"
    then show "keys_distinct (fst (delete_batch indexing_view tp cutoff n locked' d))"
      by (simp add: keys_distinct_def vi indexing.replaced distinct_map_sublist)
    show "view_kept indexing_view same_row (dget policies ''indexing_event_outbox'') d (fst (delete_batch indexing_view tp cutoff n locked' d))"
      using indexing.kept_batch keys by (simp add: keys_distinct_def that)
    show "view_kept control_view same_record (dget policies ''control_plane_outbox'') d (fst (delete_batch indexing_view tp cutoff n locked' d))"
      by (rule kept_same_rows) (simp add: vi)
  qed
qed

text \<open>Any preorder that the other clients and every batch respect holds over a run.\<close>

lemma delete_batches_rel:
  assumes "\<And>n d. R d (others n d)" and "\<And>locked d. R d (fst (delete_batch v tp cutoff bs locked d))"
    and "\<And>d. R d d" and "\<And>a b c. R a b \<Longrightarrow> R b c \<Longrightarrow> R a c"
  shows "delete_batches v tp others locks cutoff bs n d res = (d', r) \<Longrightarrow> R d d'"
proof (induction n arbitrary: d res)
  case 0
  then show ?case using assms(3) by simp
next
  case (Suc n)
  let ?d1 = "others n d"
  show ?case
  proof (cases "tr_initial_unpublished res < unpublished_count v ?d1 \<or> max_unpublished tp < unpublished_count v ?d1 \<or> locks n = None")
    case True
    with Suc.prems have "d' = ?d1" by (cases "locks n") (auto simp: Let_def split: if_splits)
    with assms(1) show ?thesis by simp
  next
    case False
    then obtain locked where locked: "locks n = Some locked" by auto
    obtain d2 victims where batch: "delete_batch v tp cutoff bs locked ?d1 = (d2, victims)" by fastforce
    have d2: "R d d2" using assms(4) [OF assms(1) [of d n] assms(2) [of ?d1 locked]] by (simp add: batch)
    show ?thesis
    proof (cases victims)
      case Nil
      with Suc.prems False locked batch d2 show ?thesis by (simp add: Let_def)
    next
      case (Cons x xs)
      with Suc.prems False locked batch have "delete_batches v tp others locks cutoff bs n d2 (add_deleted v (x # xs) res) = (d', r)"
        by (simp add: Let_def)
      from assms(4) [OF d2 Suc.IH [OF this]] show ?thesis .
    qed
  qed
qed

lemma process_table_rel:
  assumes "\<And>n d. R d (others n d)" and "\<And>cutoff locked d. R d (fst (delete_batch v tp cutoff bs locked d))"
    and "\<And>d. R d d" and "\<And>a b c. R a b \<Longrightarrow> R b c \<Longrightarrow> R a c"
    and "process_table v table tp others locks now bs n apply d = (d', r)"
  shows "R d d'"
  using assms(5) assms(3) delete_batches_rel [OF assms(1-4)]
  by (auto simp: process_table_def Let_def split: if_splits prod.splits sum.splits)

lemma run_table_safe:
  assumes "\<And>t n d. rows_safe policies d (rn_others env t n d)" and "table_policies p = policies"
    and "set (dkeys policies) \<subseteq> set SUPPORTED_TABLES"
    and "run_table env p bs n apply table d = (d', r)"
  shows "rows_safe policies d d'"
proof (cases "dget policies table")
  case None
  with assms(2,4) show ?thesis by (simp add: run_table_def safe_refl)
next
  case (Some tp)
  then have "table \<in> set SUPPORTED_TABLES" using assms(3) by (metis dget_None_iff option.distinct(1) subsetD)
  then consider "table = ''control_plane_outbox''" | "table = ''indexing_event_outbox''" by (auto simp: SUPPORTED_TABLES_def)
  then show ?thesis
  proof cases
    case 1
    with Some assms(2,4) have "process_table control_view table tp (rn_others env table) (rn_control_locks env) (rn_now env) bs n apply d = (d', r)"
      by (simp add: run_table_def)
    from process_table_rel [where R = "rows_safe policies", OF assms(1) safe_batch(1) safe_refl safe_trans this] Some 1 show ?thesis by simp
  next
    case 2
    with Some assms(2,4) have "process_table indexing_view table tp (rn_others env table) (rn_event_locks env) (rn_now env) bs n apply d = (d', r)"
      by (simp add: run_table_def)
    from process_table_rel [where R = "rows_safe policies", OF assms(1) safe_batch(2) safe_refl safe_trans this] Some 2 show ?thesis by simp
  qed
qed

lemma run_tables_safe:
  assumes "\<And>t n d. rows_safe policies d (rn_others env t n d)" and "table_policies p = policies"
    and "set (dkeys policies) \<subseteq> set SUPPORTED_TABLES"
  shows "run_tables env p bs n apply tables d = (d', r) \<Longrightarrow> rows_safe policies d d'"
proof (induction tables arbitrary: d r)
  case (Cons table tables)
  obtain d1 res where first: "run_table env p bs n apply table d = (d1, res)" by fastforce
  note d1 = run_table_safe [OF assms first]
  show ?case
  proof (cases res)
    case (Inl e)
    with Cons.prems first d1 show ?thesis by simp
  next
    case (Inr x)
    obtain d2 rest where "run_tables env p bs n apply tables d1 = (d2, rest)" by fastforce
    moreover from this Cons.prems first Inr have "d' = d2" by (auto split: sum.splits)
    ultimately show ?thesis using Cons.IH safe_trans [OF d1] by blast
  qed
qed (simp add: safe_refl)

lemma run_safe:
  assumes "\<And>t n d. rows_safe policies d (rn_others env t n d)" and "table_policies p = policies"
    and "set (dkeys policies) \<subseteq> set SUPPORTED_TABLES" and "retention_run env p bs n apply d = (d', r)"
  shows "rows_safe policies d d'"
  using assms(4) run_tables_safe [OF assms(1-3)] safe_refl
  by (auto simp: retention_run_def split: sum.splits prod.splits)

lemma no_deletion_safe: "rows_safe [] d d' \<Longrightarrow> rows_safe policies d d'"
  by (auto simp: rows_safe_def view_kept_def)

lemma parse_tables_keys: "parse_tables allowed v = Ok ts \<Longrightarrow> dkeys ts = allowed"
proof -
  have "map fst ts = xs" if "mapE (\<lambda>table. ebind (parse_table table (f table)) (\<lambda>tp. Ok (table, tp))) xs = Ok ts" for f xs ts
    using that by (induction xs arbitrary: ts) (auto simp: ebind_eq_Ok)
  then show "parse_tables allowed v = Ok ts \<Longrightarrow> dkeys ts = allowed"
    by (auto simp: parse_tables_def split: json.splits if_splits)
qed

lemma those_map: "those (map f xs) = Some ys \<Longrightarrow> y \<in> set ys \<Longrightarrow> \<exists>x \<in> set xs. f x = Some y"
  by (induction xs arbitrary: ys) (auto split: option.splits)

lemma parse_allowed_supported: "parse_allowed v = Ok ts \<Longrightarrow> set ts \<subseteq> set SUPPORTED_TABLES"
  by (auto simp: parse_allowed_def split: json.splits if_splits option.splits dest!: those_map)

lemma load_policy_OkD:
  assumes "load_policy pl loads fromiso euid file = Ok p"
  shows "\<exists>raw. read_policy euid file = Ok raw \<and> policy_digest p = sha256 pl raw"
    and "set (dkeys (table_policies p)) \<subseteq> set SUPPORTED_TABLES"
    and "deny_all p \<or> snapshot_complete (legal_hold_snapshot p)"
proof -
  show "\<exists>raw. read_policy euid file = Ok raw \<and> policy_digest p = sha256 pl raw" "deny_all p \<or> snapshot_complete (legal_hold_snapshot p)"
    using assms by (auto simp: load_policy_def parse_policy_def ebind_eq_Ok split: if_splits)
  from assms obtain allowed v w where "parse_tables allowed v = Ok (table_policies p)" and "parse_allowed w = Ok allowed"
    by (auto simp: load_policy_def parse_policy_def ebind_eq_Ok split: if_splits)
  then show "set (dkeys (table_policies p)) \<subseteq> set SUPPORTED_TABLES"
    by (simp only: parse_tables_keys parse_allowed_supported)
qed

lemma dry_run_keeps:
  assumes "\<not> apply"
  shows "process_table v table tp others locks now bs n apply d = (d', r) \<Longrightarrow> d' = d"
    and "run_table env p bs n apply table d = (d', r') \<Longrightarrow> d' = d"
    and "run_tables env p bs n apply tables d = (d', r'') \<Longrightarrow> d' = d"
proof -
  have one: "process_table v table tp others locks now bs n apply d = (d', r) \<Longrightarrow> d' = d"
    for v :: "'b outbox_view" and table tp others locks now d d' r
    using assms by (auto simp: process_table_def Let_def split: if_splits)
  then show "process_table v table tp others locks now bs n apply d = (d', r) \<Longrightarrow> d' = d" .
  have two: "run_table env p bs n apply table d = (d', r') \<Longrightarrow> d' = d" for table d d' r'
    using assms by (auto simp: run_table_def process_table_def Let_def split: if_splits option.splits)
  then show "run_table env p bs n apply table d = (d', r') \<Longrightarrow> d' = d" .
  show "run_tables env p bs n apply tables d = (d', r'') \<Longrightarrow> d' = d"
    by (induction tables arbitrary: d r'') (auto split: prod.splits sum.splits dest: two)
qed

text \<open>
  C31. Whatever the command does, in whatever outcome it ends and whatever the other clients commit in between,
  a row of an outbox disappears only if its table is under the policy, the policy does not hold it, and a newer
  row of the same document (a later revision of the control plane) is still stored. So the newest mutation of
  every document and everything under a legal hold stay.
\<close>

theorem retention_keeps_newest:
  assumes "\<And>t n d. rows_safe [] d (rn_others env t n d)" and "keys_distinct d"
    and "retention_main pl loads fromiso euid file a confirm env d = (d', report)"
    and "policies = (case ro_policy report of None \<Rightarrow> [] | Some p \<Rightarrow> table_policies p)"
  shows "view_kept control_view same_record (dget policies ''control_plane_outbox'') d d' \<and>
    view_kept indexing_view same_row (dget policies ''indexing_event_outbox'') d d'"
proof -
  have "rows_safe policies d d'"
  proof (cases "load_policy pl loads fromiso euid file")
    case (Inl e)
    with assms(3) show ?thesis by (auto simp: retention_main_def safe_refl)
  next
    case (Inr p)
    show ?thesis
    proof (cases "authorize_run p a confirm")
      case (Inl e)
      with assms(3) Inr show ?thesis by (auto simp: retention_main_def safe_refl)
    next
      case (Inr u)
      obtain d1 r where run: "retention_run env p (rg_batch_size a) (rg_max_batches a) (rg_apply a) d = (d1, r)" by fastforce
      with assms(3,4) \<open>load_policy pl loads fromiso euid file = Ok p\<close> Inr have "d' = d1" and "policies = table_policies p"
        by (auto simp: retention_main_def failed_report_def split: sum.splits if_splits)
      with run_safe [OF no_deletion_safe [OF assms(1)] refl load_policy_OkD(2) run] \<open>load_policy pl loads fromiso euid file = Ok p\<close>
      show ?thesis by simp
    qed
  qed
  with assms(2) show ?thesis by (simp add: rows_safe_def)
qed

text \<open>
  The command deletes something only when it was asked to apply, with the digest of the policy file that it read
  and the confirmation of that policy, and when the policy permits it: not denied, with a complete snapshot of
  the legal holds, for this database and schema revision, inside both validity windows, and as the only job.
\<close>

theorem retention_authorized:
  assumes "\<And>t n d. rn_others env t n d = d" and "retention_main pl loads fromiso euid file a confirm env d = (d', report)" and "d' \<noteq> d"
  shows "\<exists>p raw. read_policy euid file = Ok raw \<and> load_policy pl loads fromiso euid file = Ok p \<and> rg_apply a \<and>
    lower (strip (rg_policy_sha256 a)) = sha256 pl raw \<and> confirm = confirmation p \<and> \<not> deny_all p \<and>
    snapshot_complete (legal_hold_snapshot p) \<and> rn_database_name env = database_name p \<and> rn_revision env = Some (schema_revision p) \<and>
    not_before p \<le> rn_now env \<and> rn_now env \<le> policy_expires_at p \<and> captured_at (legal_hold_snapshot p) \<le> rn_now env \<and>
    rn_now env \<le> snapshot_expires_at (legal_hold_snapshot p) \<and> rn_lock_free env"
proof -
  from assms(2,3) obtain p where p: "load_policy pl loads fromiso euid file = Ok p"
    by (auto simp: retention_main_def split: sum.splits)
  with assms(2,3) have auth: "authorize_run p a confirm = Ok ()"
    by (auto simp: retention_main_def split: sum.splits)
  obtain d1 r where run: "retention_run env p (rg_batch_size a) (rg_max_batches a) (rg_apply a) d = (d1, r)" by fastforce
  with assms(2,3) p auth have d1: "d1 \<noteq> d"
    by (auto simp: retention_main_def split: sum.splits)
  with run have checks: "connection_checks env p = Ok ()"
    by (auto simp: retention_run_def split: sum.splits)
  with run d1 have applied: "rg_apply a"
    using dry_run_keeps(3) by (fastforce simp: retention_run_def split: sum.splits prod.splits)
  from load_policy_OkD(1) [OF p] obtain raw where "read_policy euid file = Ok raw" "policy_digest p = sha256 pl raw" by blast
  with p auth applied checks load_policy_OkD(3) [OF p] show ?thesis
    by (auto simp: authorize_run_def connection_checks_def Let_def ebind_eq_Ok split: if_splits)
qed

text \<open>A run that fails reports no table, whatever it had deleted before.\<close>

lemma failed_run_reports_nothing:
  "retention_main pl loads fromiso euid file a confirm env d = (d', report) \<Longrightarrow> ro_outcome report = ''failed'' \<Longrightarrow> ro_results report = []"
  by (auto simp: retention_main_def failed_report_def split: sum.splits prod.splits if_splits)

section \<open>A run over two outboxes\<close>

definition sample_policy :: document where
  "sample_policy = [(''schema'', JStr POLICY_SCHEMA), (''policy_id'', JStr ''p1''), (''database_id'', JStr ''db1''), (''database_name'', JStr ''imposbro''),
     (''schema_revision'', JStr ''0003_audit_delivery_deletion''), (''not_before'', JStr ''Z''), (''expires_at'', JStr ''99Z''), (''deny_all'', JBool False),
     (''legal_hold_snapshot'', JObj [(''snapshot_id'', JStr ''h1''), (''captured_at'', JStr ''Z''), (''expires_at'', JStr ''99Z''), (''complete'', JBool True)]),
     (''allowed_tables'', JArr [JStr ''control_plane_outbox'', JStr ''indexing_event_outbox'']),
     (''tables'', JObj [(''control_plane_outbox'', JObj [(''retention_seconds'', JInt 3600), (''max_unpublished'', JInt 5), (''held_revisions'', JArr [])]),
        (''indexing_event_outbox'', JObj [(''retention_seconds'', JInt 3600), (''max_unpublished'', JInt 0), (''held_identity_hashes'', JArr [])])])]"

definition old_record :: "int \<Rightarrow> string \<Rightarrow> OutboxRecord" where
  "old_record revision eid = \<lparr>ob_event_id = eid, ob_revision = revision, ob_event_type = ''set'', ob_payload = [], ob_created_at = - 4000000000,
     ob_published_at = Some (- 4000000000), ob_last_error = None, ob_attempts = 1\<rparr>"

definition event_at :: "string \<Rightarrow> int \<Rightarrow> time option \<Rightarrow> EvRow" where
  "event_at eid n published = \<lparr>er_key_hash = eid, er_request_digest = [], er_identity_hash = ''i'', er_event = \<lparr>pe_event_id = eid, pe_sequence = n,
     pe_payload = [], pe_created_at = 0, pe_position = n, pe_published_at = published, pe_attempts = 1, pe_last_error = None\<rparr>\<rparr>"

definition retention_start :: "time option \<Rightarrow> retention_db" where
  "retention_start published = \<lparr>rd_control = migrated_db\<lparr>outbox_rows := [old_record 1 ''o1'', old_record 2 ''o2'']\<rparr>,
     rd_events = db_empty\<lparr>db_rows := [event_at ''e1'' 1 (Some (- 4000000000)), event_at ''e2'' 2 published]\<rparr>\<rparr>"

definition sample_retention_env :: retention_env where
  "sample_retention_env = \<lparr>rn_connects = True, rn_database_name = ''imposbro'', rn_now = 7, rn_revision = Some ''0003_audit_delivery_deletion'',
     rn_lock_free = True, rn_others = (\<lambda>_ _ d. d), rn_control_locks = (\<lambda>_. Some (\<lambda>_. False)), rn_event_locks = (\<lambda>_. Some (\<lambda>_. False))\<rparr>"

definition sample_retention :: "time option \<Rightarrow> retention_db \<times> retention_report" where
  "sample_retention published = retention_main toy_platform (\<lambda>_. Some (JObj sample_policy)) (\<lambda>s. Some (int (length s))) 0
     (OpenedFile True False 0 1 ''x'') \<lparr>rg_apply = True, rg_policy_sha256 = sha256 toy_platform ''x'', rg_batch_size = 1, rg_max_batches = 3,
       rg_lock_timeout_ms = 100, rg_statement_timeout_ms = 1000\<rparr> (''APPLY:db1:p1:'' @ take 12 (sha256 toy_platform ''x''))
     sample_retention_env (retention_start published)"

lemma sample_retention_result:
  "(case sample_retention (Some 0) of (d', report) \<Rightarrow> ro_exit report = 0 \<and> map tr_deleted (ro_results report) = [1, 1] \<and>
     map ob_event_id (outbox_rows (rd_control d')) = [''o2''] \<and> map er_key_hash (db_rows (rd_events d')) = [''e2''])"
  by code_simp

lemma nothing_else: "rows_safe [] d (rn_others sample_retention_env t n d)"
  by (simp add: sample_retention_env_def safe_refl)

lemma keys_distinct_start: "keys_distinct (retention_start published)"
  by (simp add: keys_distinct_def control_view_def indexing_view_def retention_start_def old_record_def event_at_def)

theorem retention_keeps_newest_witness:
  "\<exists>d' report policies. sample_retention (Some 0) = (d', report) \<and> map er_key_hash (db_rows (rd_events d')) = [''e2''] \<and>
     view_kept indexing_view same_row (dget policies ''indexing_event_outbox'') (retention_start (Some 0)) d'"
proof -
  obtain d' report where run: "sample_retention (Some 0) = (d', report)" by fastforce
  from retention_keeps_newest [OF nothing_else keys_distinct_start run [unfolded sample_retention_def] refl] sample_retention_result run
  show ?thesis by auto
qed

theorem retention_authorized_witness:
  "\<exists>d' report p. sample_retention (Some 0) = (d', report) \<and> d' \<noteq> retention_start (Some 0) \<and>
     load_policy toy_platform (\<lambda>_. Some (JObj sample_policy)) (\<lambda>s. Some (int (length s))) 0 (OpenedFile True False 0 1 ''x'') = Ok p \<and> \<not> deny_all p"
proof -
  obtain d' report where run: "sample_retention (Some 0) = (d', report)" by fastforce
  with sample_retention_result have "map er_key_hash (db_rows (rd_events d')) = [''e2'']" by simp
  then have "d' \<noteq> retention_start (Some 0)" by (auto simp: retention_start_def event_at_def)
  with retention_authorized [OF _ run [unfolded sample_retention_def] this] run show ?thesis
    by (auto simp: sample_retention_env_def)
qed

text \<open>
  The second table is refused because of its backlog; a row of the first one is gone, and the evidence lists
  no table.
\<close>

lemma deletion_unreported:
  "(case sample_retention None of (d', report) \<Rightarrow> ro_outcome report = ''failed'' \<and> ro_results report = [] \<and>
     map ob_event_id (outbox_rows (rd_control d')) = [''o2''])"
  by code_simp

end
