(* ===== verification/RateLimiter.thy ===== *)
theory RateLimiter
  imports AccessControl
begin

text \<open>
  \<open>query_api/app/services/rate_limiter.py\<close> and the guard of \<open>query_api/app/deps.py\<close> that uses it: fixed
  windows, counted in the process or in Redis. The Redis server is the argument \<open>redis\<close>, with its state
  in the limiter; SHA-256 is \<open>sha\<close>. One request is checked at a time; \<open>now\<close> is the clock of that check.
\<close>

section \<open>The limiter\<close>

record RateLimitCheck =
  rl_allowed :: bool
  rl_limit :: int
  rl_remaining :: int
  rl_reset_seconds :: int

datatype rate_limit_error = RateLimitConfigError string | RateLimitBackendError | UncaughtRedis string

datatype redis_reply = Counted int | RedisError | OtherError string

type_synonym memory_windows = "(string, int \<times> int) pydict"

record 'r limiter =
  lm_windows :: memory_windows
  lm_redis :: 'r

definition fingerprint_text :: "string \<Rightarrow> string \<Rightarrow> string \<Rightarrow> string" where
  "fingerprint_text identity action collection = identity @ CHR 0x00 # action @ CHR 0x00 # collection"

definition bucket_key :: "(string \<Rightarrow> string) \<Rightarrow> string \<Rightarrow> string \<Rightarrow> string \<Rightarrow> string \<Rightarrow> int \<Rightarrow> string" where
  "bucket_key sha key_prefix identity action collection window =
     (if strip key_prefix = [] then ''imposbro:rate_limit'' else strip key_prefix) @
     '':'' @ action @ '':'' @ int_str window @ '':'' @ sha (fingerprint_text identity action collection)"

definition check_memory :: "string \<Rightarrow> int \<Rightarrow> memory_windows \<Rightarrow> memory_windows \<times> int" where
  "check_memory bucket window ws =
     (let kept = (if 10000 < length ws then filter (\<lambda>(k, stored, n). \<not> stored < window - 1) ws else ws);
          (stored, n) = (case dget kept bucket of Some p \<Rightarrow> p | None \<Rightarrow> (window, 0));
          counted = (if stored \<noteq> window then 0 else n) + 1
      in (dput bucket (window, counted) kept, counted))"

text \<open>\<open>INCR\<close> and \<open>EXPIRE\<close> of twice the window, in one pipeline.\<close>

definition check_redis :: "(string \<Rightarrow> int \<Rightarrow> 'r \<Rightarrow> 'r \<times> redis_reply) \<Rightarrow> string \<Rightarrow> int \<Rightarrow> 'r \<Rightarrow> 'r \<times> (rate_limit_error + int)" where
  "check_redis redis bucket window_seconds r =
     (case redis bucket (window_seconds * 2) r of
        (r', Counted n) \<Rightarrow> (r', Ok n)
      | (r', RedisError) \<Rightarrow> (r', Raise RateLimitBackendError)
      | (r', OtherError e) \<Rightarrow> (r', Raise (UncaughtRedis e)))"

definition rate_check :: "(string \<Rightarrow> string) \<Rightarrow> (string \<Rightarrow> int \<Rightarrow> 'r \<Rightarrow> 'r \<times> redis_reply) \<Rightarrow> int \<Rightarrow> string \<Rightarrow> string \<Rightarrow> string
   \<Rightarrow> int \<Rightarrow> int \<Rightarrow> string \<Rightarrow> string \<Rightarrow> 'r limiter \<Rightarrow> 'r limiter \<times> (rate_limit_error + RateLimitCheck)" where
  "rate_check sha redis now identity action collection limit window_seconds backend key_prefix lm =
     (if limit < 1 then (lm, Raise (RateLimitConfigError ''Rate-limit request limits must be >= 1''))
      else if window_seconds < 1 then (lm, Raise (RateLimitConfigError ''RATE_LIMIT_WINDOW_SECONDS must be >= 1''))
      else
        (let window = now div window_seconds;
             reset = max 1 ((window + 1) * window_seconds - now);
             bucket = bucket_key sha key_prefix identity action collection window;
             verdict = (\<lambda>n. \<lparr>rl_allowed = n \<le> limit, rl_limit = limit, rl_remaining = max 0 (limit - n), rl_reset_seconds = reset\<rparr>)
         in if lower (strip backend) = ''redis'' then
              (case check_redis redis bucket window_seconds (lm_redis lm) of
                 (r', res) \<Rightarrow> (lm\<lparr>lm_redis := r'\<rparr>, ebind res (\<lambda>n. Ok (verdict n))))
            else if lower (strip backend) = ''memory'' then
              (case check_memory bucket window (lm_windows lm) of
                 (ws', n) \<Rightarrow> (lm\<lparr>lm_windows := ws'\<rparr>, Ok (verdict n)))
            else (lm, Raise (RateLimitConfigError (''RATE_LIMIT_BACKEND must be either '' @ [CHR 0x27] @ ''redis'' @ [CHR 0x27] @ '' or '' @
                   [CHR 0x27] @ ''memory'' @ [CHR 0x27])))))"

section \<open>The guard\<close>

record rate_settings =
  rs_enabled :: bool
  rs_backend :: string
  rs_window_seconds :: int
  rs_search_requests :: int
  rs_ingest_requests :: int
  rs_fail_closed :: bool
  rs_key_prefix :: string

record rate_request =
  rq_now :: int
  rq_auth :: "auth_state option"
  rq_client_host :: "string option"
  rq_action :: string
  rq_collection :: string

datatype rate_outcome = Admitted | Refused http_error "(string \<times> string) list"

definition rate_limit_identity :: "rate_request \<Rightarrow> string" where
  "rate_limit_identity r =
     (let by_address = (case rq_client_host r of Some h \<Rightarrow> if h \<noteq> [] then ''ip:'' @ h else ''unknown'' | None \<Rightarrow> ''unknown'')
      in case rq_auth r of
           Some a \<Rightarrow> if au_actor a \<noteq> [] \<and> au_scheme a \<noteq> ''none'' then au_actor a else by_address
         | None \<Rightarrow> by_address)"

definition limit_for_action :: "rate_settings \<Rightarrow> string \<Rightarrow> rate_limit_error + int" where
  "limit_for_action st action =
     (if action = ''search'' then Ok (rs_search_requests st)
      else if action = ''ingest'' then Ok (rs_ingest_requests st)
      else Raise (RateLimitConfigError (''Unsupported rate-limit action '' @ [CHR 0x27] @ action @ [CHR 0x27])))"

definition enforce_rate_limit :: "(string \<Rightarrow> string) \<Rightarrow> (string \<Rightarrow> int \<Rightarrow> 'r \<Rightarrow> 'r \<times> redis_reply) \<Rightarrow> rate_settings \<Rightarrow> rate_request
   \<Rightarrow> 'r limiter \<Rightarrow> 'r limiter \<times> rate_outcome" where
  "enforce_rate_limit sha redis st r lm =
     (if \<not> rs_enabled st then (lm, Admitted)
      else
        (case (case limit_for_action st (rq_action r) of
                 Inl e \<Rightarrow> (lm, Raise e)
               | Inr limit \<Rightarrow> rate_check sha redis (rq_now r) (rate_limit_identity r) (rq_action r) (rq_collection r) limit
                   (rs_window_seconds st) (rs_backend st) (rs_key_prefix st) lm) of
           (lm', Inl (RateLimitConfigError e)) \<Rightarrow> (lm', Refused (Http 500 e) [])
         | (lm', Inl RateLimitBackendError) \<Rightarrow>
             (lm', if rs_fail_closed st then Refused (Http 503 ''Rate-limit backend unavailable'') [] else Admitted)
         | (lm', Inl (UncaughtRedis e)) \<Rightarrow> (lm', Refused (Unhandled e) [])
         | (lm', Inr result) \<Rightarrow>
             (lm', if rl_allowed result then Admitted
                   else Refused (Http 429 ''Rate limit exceeded'')
                     [(''Retry-After'', int_str (rl_reset_seconds result)),
                      (''X-RateLimit-Limit'', int_str (rl_limit result)),
                      (''X-RateLimit-Remaining'', int_str (rl_remaining result)),
                      (''X-RateLimit-Reset'', int_str (rl_reset_seconds result))])))"

text \<open>
  The dependencies of the search and ingestion endpoints: credentials first, then the limit; a caller who is refused is
  not counted. \<open>auth\<close> is the outcome of \<open>require_api_key_for_scope\<close>.
\<close>

definition data_plane_guard :: "(string \<Rightarrow> string) \<Rightarrow> (string \<Rightarrow> int \<Rightarrow> 'r \<Rightarrow> 'r \<times> redis_reply) \<Rightarrow> rate_settings
   \<Rightarrow> http_error + auth_state \<Rightarrow> rate_request \<Rightarrow> 'r limiter \<Rightarrow> 'r limiter \<times> rate_outcome" where
  "data_plane_guard sha redis st auth r lm =
     (case auth of
        Inl e \<Rightarrow> (lm, Refused e [])
      | Inr caller \<Rightarrow> enforce_rate_limit sha redis st (r\<lparr>rq_auth := Some caller\<rparr>) lm)"

text \<open>The requests of one process, in the order in which they are checked.\<close>

fun enforce_all :: "(string \<Rightarrow> string) \<Rightarrow> (string \<Rightarrow> int \<Rightarrow> 'r \<Rightarrow> 'r \<times> redis_reply) \<Rightarrow> rate_settings \<Rightarrow> rate_request list
   \<Rightarrow> 'r limiter \<Rightarrow> rate_outcome list" where
  "enforce_all sha redis st [] lm = []"
| "enforce_all sha redis st (r # rs) lm =
     (case enforce_rate_limit sha redis st r lm of (lm', out) \<Rightarrow> out # enforce_all sha redis st rs lm')"

section \<open>Keys of buckets\<close>

fun digits_value :: "string \<Rightarrow> nat \<Rightarrow> nat" where
  "digits_value [] n = n"
| "digits_value (c # cs) n = digits_value cs (10 * n + (of_char c - 48))"

lemma digits_value_append: "digits_value (xs @ ys) n = digits_value ys (digits_value xs n)"
  by (induction xs n rule: digits_value.induct) auto

lemma digits_value_nat_str: "digits_value (nat_str n) 0 = n"
proof (induction n rule: nat_str.induct)
  case (1 n)
  then show ?case
    by (subst nat_str.simps) (auto simp: digits_value_append of_char_of)
qed

lemma nat_str_inject: "nat_str m = nat_str n \<longleftrightarrow> m = n"
  by (metis digits_value_nat_str)

lemma nat_str_digits: "c \<in> set (nat_str n) \<Longrightarrow> 48 \<le> (of_char c :: nat) \<and> (of_char c :: nat) \<le> 57"
proof (induction n rule: nat_str.induct)
  case (1 n)
  then show ?case
    by (subst (asm) nat_str.simps) (auto simp: of_char_of split: if_splits)
qed

lemma int_str_inject: "int_str i = int_str j \<longleftrightarrow> i = j"
proof -
  have minus: "CHR ''-'' \<notin> set (nat_str n)" for n using nat_str_digits [of "CHR ''-''" n] by auto
  have "CHR ''-'' # xs \<noteq> nat_str n" "nat_str n \<noteq> CHR ''-'' # xs" for xs n
    using minus [of n] by (metis list.set_intros(1))+
  then show ?thesis by (simp add: int_str_def nat_str_inject) linarith
qed

lemma int_str_no_colon: "CHR '':'' \<notin> set (int_str i)"
  using nat_str_digits [of "CHR '':''"] by (auto simp: int_str_def)

lemma first_part_inject:
  "sep \<notin> set x \<Longrightarrow> sep \<notin> set x' \<Longrightarrow> x @ sep # y = x' @ sep # y' \<longleftrightarrow> x = x' \<and> y = y'"
proof (induction x arbitrary: x')
  case Nil
  then show ?case by (cases x') auto
next
  case (Cons a x)
  then show ?case by (cases x') auto
qed

lemma last_part_inject:
  assumes "sep \<notin> set y" and "sep \<notin> set y'"
  shows "x @ sep # y = x' @ sep # y' \<longleftrightarrow> x = x' \<and> y = y'"
proof -
  have "x @ sep # y = x' @ sep # y' \<longleftrightarrow> rev y @ sep # rev x = rev y' @ sep # rev x'"
    by (metis append.assoc append_Cons append_Nil rev.simps(2) rev_append rev_rev_ident)
  also have "\<dots> \<longleftrightarrow> rev y = rev y' \<and> rev x = rev x'" using assms by (intro first_part_inject) auto
  finally show ?thesis by auto
qed

lemma fingerprint_inject:
  assumes "CHR 0x00 \<notin> set action" "CHR 0x00 \<notin> set action'" "CHR 0x00 \<notin> set collection" "CHR 0x00 \<notin> set collection'"
  shows "fingerprint_text identity action collection = fingerprint_text identity' action' collection' \<longleftrightarrow>
    identity = identity' \<and> action = action' \<and> collection = collection'"
proof -
  have "fingerprint_text identity action collection = (identity @ CHR 0x00 # action) @ CHR 0x00 # collection"
    "fingerprint_text identity' action' collection' = (identity' @ CHR 0x00 # action') @ CHR 0x00 # collection'"
    by (simp_all add: fingerprint_text_def)
  then show ?thesis by (simp only: last_part_inject [OF assms(3,4)] last_part_inject [OF assms(1,2)]) auto
qed

lemma bucket_key_inject:
  assumes "CHR '':'' \<notin> set action" and "CHR '':'' \<notin> set action'"
  shows "bucket_key sha p identity action collection w = bucket_key sha p identity' action' collection' w' \<longleftrightarrow>
    action = action' \<and> w = w' \<and> sha (fingerprint_text identity action collection) = sha (fingerprint_text identity' action' collection')"
  by (simp add: bucket_key_def first_part_inject [OF assms] first_part_inject [OF int_str_no_colon int_str_no_colon] int_str_inject)

section \<open>The counts in memory\<close>

text \<open>
  The windows after the counted requests \<open>hist\<close>, each a key with its window, whose last window is \<open>newest\<close>:
  a stored count is the number of the requests of its key, and a key that is not stored was used in
  windows older than the last two only.
\<close>

definition windows_count :: "(string \<times> int) list \<Rightarrow> int \<Rightarrow> memory_windows \<Rightarrow> bool" where
  "windows_count hist newest ws \<longleftrightarrow> distinct (dkeys ws) \<and>
     (\<forall>k. case dget ws k of
            Some (w, n) \<Rightarrow> n = int (count_list (map fst hist) k) \<and> 1 \<le> n \<and> (\<forall>v. (k, v) \<in> set hist \<longrightarrow> v = w)
          | None \<Rightarrow> (\<forall>v. (k, v) \<in> set hist \<longrightarrow> v < newest - 1))"

lemma dget_filter:
  "distinct (dkeys ws) \<Longrightarrow> dget (filter P ws) k = (case dget ws k of Some v \<Rightarrow> if P (k, v) then Some v else None | None \<Rightarrow> None)"
  by (induction ws) (auto split: option.splits dest: map_of_SomeD intro: rev_image_eqI)

lemma count_list_positive: "1 \<le> int (count_list xs k) \<Longrightarrow> k \<in> set xs"
  by (metis count_list_0_iff not_one_le_zero of_nat_0)

lemma windows_prune:
  assumes "windows_count hist newest ws" and "newest \<le> w"
  shows "windows_count hist w (if 10000 < length ws then filter (\<lambda>(k, stored, n). \<not> stored < w - 1) ws else ws)"
proof -
  have distinct: "distinct (dkeys ws)" using assms(1) by (simp add: windows_count_def)
  have "case dget (filter (\<lambda>(k, stored, n). \<not> stored < w - 1) ws) k of
      Some (v, n) \<Rightarrow> n = int (count_list (map fst hist) k) \<and> 1 \<le> n \<and> (\<forall>u. (k, u) \<in> set hist \<longrightarrow> u = v)
    | None \<Rightarrow> (\<forall>u. (k, u) \<in> set hist \<longrightarrow> u < w - 1)" for k
    using assms unfolding windows_count_def dget_filter [OF distinct]
    by (cases "dget ws k") (force dest!: spec [of _ k] split: if_splits)+
  moreover have "case dget ws k of
      Some (v, n) \<Rightarrow> n = int (count_list (map fst hist) k) \<and> 1 \<le> n \<and> (\<forall>u. (k, u) \<in> set hist \<longrightarrow> u = v)
    | None \<Rightarrow> (\<forall>u. (k, u) \<in> set hist \<longrightarrow> u < w - 1)" for k
    using assms unfolding windows_count_def by (cases "dget ws k") (force dest!: spec [of _ k])+
  moreover have "distinct (dkeys (filter (\<lambda>(k, stored, n). \<not> stored < w - 1) ws))"
    using distinct by (simp add: distinct_map_filter)
  ultimately show ?thesis using distinct by (simp add: windows_count_def)
qed

lemma check_memory_counts:
  assumes inv: "windows_count hist newest ws" and later: "newest \<le> w" and own: "\<And>v. (k, v) \<in> set hist \<Longrightarrow> v = w"
    and check: "check_memory k w ws = (ws', n)"
  shows "n = int (count_list (map fst hist) k) + 1 \<and> windows_count (hist @ [(k, w)]) w ws'"
proof -
  define kept where "kept = (if 10000 < length ws then filter (\<lambda>(k, stored, n). \<not> stored < w - 1) ws else ws)"
  have kept: "windows_count hist w kept" using windows_prune [OF inv later] by (simp add: kept_def)
  have n: "n = int (count_list (map fst hist) k) + 1" and ws': "ws' = dput k (w, n) kept"
  proof -
    have "ws' = dput k (w, n) kept \<and> n = int (count_list (map fst hist) k) + 1"
    proof (cases "dget kept k")
      case None
      then have "(k, v) \<notin> set hist" for v using kept own [of v] by (force simp: windows_count_def dest!: spec [of _ k])
      then have "count_list (map fst hist) k = 0" by (auto simp: count_list_0_iff)
      then show ?thesis using check None by (auto simp: check_memory_def Let_def kept_def [symmetric])
    next
      case (Some p)
      obtain v m where p: "p = (v, m)" by (cases p)
      have m: "m = int (count_list (map fst hist) k)" "1 \<le> m" and v: "\<And>u. (k, u) \<in> set hist \<Longrightarrow> u = v"
        using kept Some p by (force simp: windows_count_def dest!: spec [of _ k])+
      have "k \<in> set (map fst hist)" using m count_list_positive by metis
      then have "v = w" using v own by force
      then show ?thesis using check Some p m by (auto simp: check_memory_def Let_def kept_def [symmetric])
    qed
    then show "n = int (count_list (map fst hist) k) + 1" and "ws' = dput k (w, n) kept" by auto
  qed
  have "case dget ws' j of
      Some (v, m) \<Rightarrow> m = int (count_list (map fst (hist @ [(k, w)])) j) \<and> 1 \<le> m \<and> (\<forall>u. (j, u) \<in> set (hist @ [(k, w)]) \<longrightarrow> u = v)
    | None \<Rightarrow> (\<forall>u. (j, u) \<in> set (hist @ [(k, w)]) \<longrightarrow> u < w - 1)" for j
  proof (cases "j = k")
    case True
    then show ?thesis using n own by (auto simp: ws' dget_dput)
  next
    case False
    then have "dget ws' j = dget kept j" by (simp add: ws' dget_dput)
    then show ?thesis using kept False unfolding windows_count_def
      by (cases "dget kept j") (force dest!: spec [of _ j])+
  qed
  moreover have "distinct (dkeys ws')" using kept by (simp add: ws' windows_count_def distinct_dkeys_dput)
  ultimately show ?thesis using n by (simp add: windows_count_def)
qed

section \<open>Exactly the limit\<close>

definition memory_settings_ok :: "rate_settings \<Rightarrow> bool" where
  "memory_settings_ok st \<longleftrightarrow> rs_enabled st \<and> lower (strip (rs_backend st)) = ''memory'' \<and> 1 \<le> rs_window_seconds st \<and>
     1 \<le> rs_search_requests st \<and> 1 \<le> rs_ingest_requests st"

definition action_limit :: "rate_settings \<Rightarrow> string \<Rightarrow> int" where
  "action_limit st action = (if action = ''search'' then rs_search_requests st else rs_ingest_requests st)"

definition data_plane_request :: "rate_request \<Rightarrow> bool" where
  "data_plane_request r \<longleftrightarrow> rq_action r \<in> {''search'', ''ingest''} \<and> CHR 0x00 \<notin> set (rq_collection r)"

definition request_key :: "(string \<Rightarrow> string) \<Rightarrow> rate_settings \<Rightarrow> rate_request \<Rightarrow> string \<times> int" where
  "request_key sha st r = (bucket_key sha (rs_key_prefix st) (rate_limit_identity r) (rq_action r) (rq_collection r)
     (rq_now r div rs_window_seconds st), rq_now r div rs_window_seconds st)"

text \<open>The same caller, action and collection, in the same window.\<close>

definition same_bucket :: "rate_settings \<Rightarrow> rate_request \<Rightarrow> rate_request \<Rightarrow> bool" where
  "same_bucket st r r' \<longleftrightarrow> rate_limit_identity r = rate_limit_identity r' \<and> rq_action r = rq_action r' \<and>
     rq_collection r = rq_collection r' \<and> rq_now r div rs_window_seconds st = rq_now r' div rs_window_seconds st"

lemma data_plane_chars: "data_plane_request r \<Longrightarrow> CHR '':'' \<notin> set (rq_action r) \<and> CHR 0x00 \<notin> set (rq_action r)"
  by (auto simp: data_plane_request_def)

lemma same_key_same_window:
  assumes "data_plane_request r" and "data_plane_request r'"
    and "fst (request_key sha st r) = fst (request_key sha st r')"
  shows "snd (request_key sha st r) = snd (request_key sha st r')"
  using assms data_plane_chars [OF assms(1)] data_plane_chars [OF assms(2)]
  by (simp add: request_key_def bucket_key_inject)

lemma same_key_iff:
  assumes "inj sha" and "data_plane_request r" and "data_plane_request r'"
  shows "fst (request_key sha st r) = fst (request_key sha st r') \<longleftrightarrow> same_bucket st r r'"
  using data_plane_chars [OF assms(2)] data_plane_chars [OF assms(3)] assms
  by (auto simp: request_key_def same_bucket_def bucket_key_inject fingerprint_inject data_plane_request_def inj_eq)

lemma enforce_memory:
  assumes "memory_settings_ok st" and "data_plane_request r"
    and "check_memory (fst (request_key sha st r)) (snd (request_key sha st r)) (lm_windows lm) = (ws', n)"
  shows "\<exists>out. enforce_rate_limit sha redis st r lm = (lm\<lparr>lm_windows := ws'\<rparr>, out) \<and> (out = Admitted \<longleftrightarrow> n \<le> action_limit st (rq_action r))"
proof -
  have "limit_for_action st (rq_action r) = Ok (action_limit st (rq_action r))" and "1 \<le> action_limit st (rq_action r)"
    using assms(1,2) by (auto simp: limit_for_action_def action_limit_def data_plane_request_def memory_settings_ok_def)
  then show ?thesis using assms by (simp add: enforce_rate_limit_def rate_check_def memory_settings_ok_def request_key_def Let_def)
qed

lemma enforce_all_counts:
  assumes "memory_settings_ok st" and "\<forall>r \<in> set rs. data_plane_request r" and "\<forall>r \<in> set past. data_plane_request r"
    and "sorted (map rq_now rs)" and "\<forall>r \<in> set rs. newest \<le> snd (request_key sha st r)"
    and "windows_count (map (request_key sha st) past) newest (lm_windows lm)" and "j < length rs"
  shows "enforce_all sha redis st rs lm ! j = Admitted \<longleftrightarrow>
    int (count_list (map (fst \<circ> request_key sha st) (past @ take j rs)) (fst (request_key sha st (rs ! j)))) < action_limit st (rq_action (rs ! j))"
  using assms
proof (induction rs arbitrary: past newest lm j)
  case Nil
  then show ?case by simp
next
  case (Cons r rs)
  obtain ws' n where check: "check_memory (fst (request_key sha st r)) (snd (request_key sha st r)) (lm_windows lm) = (ws', n)"
    by (cases "check_memory (fst (request_key sha st r)) (snd (request_key sha st r)) (lm_windows lm)")
  have r: "data_plane_request r" using Cons.prems(2) by simp
  have own: "v = snd (request_key sha st r)" if "(fst (request_key sha st r), v) \<in> set (map (request_key sha st) past)" for v
  proof -
    obtain r' where r': "r' \<in> set past" and key: "request_key sha st r' = (fst (request_key sha st r), v)"
      using \<open>(fst (request_key sha st r), v) \<in> set (map (request_key sha st) past)\<close> by auto
    then have "data_plane_request r'" using Cons.prems(3) by blast
    from same_key_same_window [OF this r, of sha st] show ?thesis using key by simp
  qed
  have counted: "n = int (count_list (map fst (map (request_key sha st) past)) (fst (request_key sha st r))) + 1"
    and inv: "windows_count (map (request_key sha st) (past @ [r])) (snd (request_key sha st r)) ws'"
    using check_memory_counts [OF Cons.prems(6) _ own check] Cons.prems(5) by auto
  obtain out where out: "enforce_rate_limit sha redis st r lm = (lm\<lparr>lm_windows := ws'\<rparr>, out)"
    and admitted: "out = Admitted \<longleftrightarrow> n \<le> action_limit st (rq_action r)"
    using enforce_memory [OF Cons.prems(1) r check] by blast
  show ?case
  proof (cases j)
    case 0
    then show ?thesis using out admitted counted by (simp add: comp_def) linarith
  next
    case (Suc i)
    have "sorted (map rq_now rs)" using Cons.prems(4) by simp
    moreover have "\<forall>r' \<in> set rs. snd (request_key sha st r) \<le> snd (request_key sha st r')"
      using Cons.prems(1,4) by (auto simp: request_key_def memory_settings_ok_def intro: zdiv_mono1)
    moreover have "\<forall>r' \<in> set (past @ [r]). data_plane_request r'" using Cons.prems(3) r by auto
    ultimately show ?thesis
      using Cons.IH [of "past @ [r]" "snd (request_key sha st r)" "lm\<lparr>lm_windows := ws'\<rparr>" i] Cons.prems(1,2,7) inv out Suc by simp
  qed
qed

lemma count_list_filter: "count_list (map f xs) k = length (filter (\<lambda>x. f x = k) xs)"
  by (induction xs) auto


definition rate_sample :: rate_settings where
  "rate_sample = \<lparr>rs_enabled = True, rs_backend = ''Memory '', rs_window_seconds = 60, rs_search_requests = 2,
     rs_ingest_requests = 1, rs_fail_closed = False, rs_key_prefix = []\<rparr>"

definition search_at :: "int \<Rightarrow> string \<Rightarrow> rate_request" where
  "search_at now host = \<lparr>rq_now = now, rq_auth = None, rq_client_host = Some host, rq_action = ''search'', rq_collection = ''books''\<rparr>"

definition rate_requests :: "rate_request list" where
  "rate_requests = [search_at 1 ''a'', search_at 10 ''a'', search_at 20 ''b'', search_at 59 ''a'', search_at 60 ''a'']"

definition fresh_limiter :: "unit limiter" where
  "fresh_limiter = \<lparr>lm_windows = [], lm_redis = ()\<rparr>"


section \<open>When the backend fails\<close>

text \<open>A failing Redis refuses the request or lets it pass, as the settings say; it is never counted in memory.\<close>

lemma redis_failure_outcome:
  assumes "rs_enabled st" and "lower (strip (rs_backend st)) = ''redis''" and "limit_for_action st (rq_action r) = Ok limit"
    and "1 \<le> limit" and "1 \<le> rs_window_seconds st" and "\<And>k w s. snd (redis k w s) = RedisError"
  shows "snd (enforce_rate_limit sha redis st r lm) =
      (if rs_fail_closed st then Refused (Http 503 ''Rate-limit backend unavailable'') [] else Admitted) \<and>
    lm_windows (fst (enforce_rate_limit sha redis st r lm)) = lm_windows lm"
proof -
  obtain r' where "redis (fst (request_key sha st r)) (rs_window_seconds st * 2) (lm_redis lm) = (r', RedisError)"
    using assms(6) by (metis prod.collapse)
  then show ?thesis using assms(1-5)
    by (simp add: enforce_rate_limit_def rate_check_def check_redis_def Let_def request_key_def)
qed

text \<open>The wait that a caller is told is at least one second and at most the window.\<close>

lemma retry_after_bounds:
  assumes "rate_check sha redis now identity action collection limit window backend p lm = (lm', Ok v)"
  shows "1 \<le> rl_reset_seconds v \<and> rl_reset_seconds v \<le> window \<and> 0 \<le> rl_remaining v \<and> (0 < rl_remaining v \<longrightarrow> rl_allowed v)"
proof -
  have "window * (now div window) \<le> now" if "0 < window"
  proof -
    have "now = window * (now div window) + now mod window" by simp
    then show ?thesis using pos_mod_sign [OF that, of now] by linarith
  qed
  then show ?thesis using assms
    by (auto simp: rate_check_def Let_def ebind_eq_Ok algebra_simps split: if_splits prod.splits)
qed

text \<open>A caller is admitted only with credentials, and only credentials are charged: whatever the address, one key is one identity.\<close>

lemma guard_admits:
  assumes "data_plane_guard sha redis st auth r lm = (lm', Admitted)"
  shows "\<exists>caller. auth = Ok caller \<and> enforce_rate_limit sha redis st (r\<lparr>rq_auth := Some caller\<rparr>) lm = (lm', Admitted)"
  using assms by (cases auth) (simp_all add: data_plane_guard_def)

lemma one_key_one_identity:
  assumes "au_scheme caller \<noteq> ''none''" and "au_actor caller \<noteq> []"
  shows "rate_limit_identity (r\<lparr>rq_auth := Some caller\<rparr>) = au_actor caller"
  using assms by (simp add: rate_limit_identity_def)

end
