(* ===== verification/DlqResolver.thy ===== *)
theory DlqResolver
  imports Consumer
begin

text \<open>
  \<open>scripts/ops/dlq_resolver.py\<close>: the operator tool that inspects, replays or disposes of one dead letter. The
  Kafka client is a record of calls with their exceptions; UTF-8, JSON and base64 decoding are the fields of
  \<open>codec\<close>. An error is its code, since the public message is fixed by it. Every call that reads or moves
  the group's offset, and every replay, is written down in the order in which it happens.
\<close>

section \<open>Configuration\<close>

datatype resolver_error = ResolverError string | UnexpectedResolverFailure

definition TOPIC_PATTERN :: "string \<Rightarrow> bool" where
  "TOPIC_PATTERN s \<longleftrightarrow> matches (\<lambda>c. is_alnum c \<or> c \<in> {CHR ''.'', CHR ''_'', CHR ''-''}) 1 249 s"

definition IDENTIFIER_PATTERN :: "string \<Rightarrow> bool" where
  "IDENTIFIER_PATTERN s \<longleftrightarrow> matches (\<lambda>c. is_alnum c \<or> c \<in> {CHR ''.'', CHR ''_'', CHR '':'', CHR ''@'', CHR ''-''}) 1 128 s"

text \<open>The class has no slash and no at sign, which the source tests again.\<close>

definition BROKER_PATTERN :: "string \<Rightarrow> bool" where
  "BROKER_PATTERN s \<longleftrightarrow> matches (\<lambda>c. is_alnum c \<or> c \<in> {CHR ''.'', CHR ''_'', CHR '':'', CHR ''['', CHR '']'', CHR ''-''}) 1 253 s"

definition MAX_ERROR_MESSAGE_BYTES :: int where "MAX_ERROR_MESSAGE_BYTES = 16384"

text \<open>\<open>str.upper\<close>, as far as a comparison with ASCII text can tell.\<close>

definition upper_text :: "string \<Rightarrow> string" where
  "upper_text s = concat (map (\<lambda>c. if is_lower c then [char_of (of_char c - (32 :: nat))]
     else if (of_char c :: nat) = 223 then ''SS'' else [c]) s)"

definition env_get :: "environ \<Rightarrow> string \<Rightarrow> string \<Rightarrow> string" where
  "env_get env name d = (case dget env name of Some v \<Rightarrow> v | None \<Rightarrow> d)"

abbreviation bad_transport :: "resolver_error + 'a" where
  "bad_transport \<equiv> Raise (ResolverError ''invalid_transport_config'')"

definition strict_bool_env :: "environ \<Rightarrow> string \<Rightarrow> bool \<Rightarrow> resolver_error + bool" where
  "strict_bool_env env name d =
     (let raw = lower (strip (env_get env name [])) in
      if raw = [] then Ok d
      else if raw \<in> {''1'', ''true'', ''yes'', ''on''} then Ok True
      else if raw \<in> {''0'', ''false'', ''no'', ''off''} then Ok False
      else bad_transport)"

definition bounded_int_env :: "(string \<Rightarrow> int option) \<Rightarrow> environ \<Rightarrow> string \<Rightarrow> int \<Rightarrow> int \<Rightarrow> int \<Rightarrow> resolver_error + int" where
  "bounded_int_env py_int env name d lo hi =
     (let raw = strip (env_get env name []) in
      if raw = [] then Ok d
      else (case py_int raw of None \<Rightarrow> bad_transport | Some n \<Rightarrow> if n < lo \<or> hi < n then bad_transport else Ok n))"

definition required_env :: "environ \<Rightarrow> string \<Rightarrow> resolver_error + string" where
  "required_env env name =
     (let v = strip (env_get env name []) in
      if v = [] then Raise (ResolverError ''missing_transport_config'') else Ok v)"

definition readable_file :: "(string \<Rightarrow> bool) \<Rightarrow> string \<Rightarrow> resolver_error + string" where
  "readable_file readable v = (if v = [] \<or> \<not> readable v then bad_transport else Ok v)"

record ResolverConfig =
  rc_bootstrap_servers :: "string list"
  rc_security_protocol :: string
  rc_sasl :: "(string \<times> string \<times> string) option"
  rc_tls :: "(string \<times> (string \<times> string) option) option"
  rc_client_id :: string
  rc_timeout_ms :: int
  rc_max_record_bytes :: int

definition sasl_from_env :: "environ \<Rightarrow> bool \<Rightarrow> resolver_error + (string \<times> string \<times> string) option" where
  "sasl_from_env env uses_sasl =
     (let mechanism = upper_text (strip (env_get env ''KAFKA_SASL_MECHANISM'' []));
          username = env_get env ''KAFKA_SASL_USERNAME'' []; password = env_get env ''KAFKA_SASL_PASSWORD'' [] in
      if uses_sasl then
        if mechanism \<notin> {''PLAIN'', ''SCRAM-SHA-256'', ''SCRAM-SHA-512''} then bad_transport
        else if username = [] \<or> password = [] then Raise (ResolverError ''missing_transport_config'')
        else Ok (Some (mechanism, username, password))
      else if mechanism \<noteq> [] \<or> username \<noteq> [] \<or> password \<noteq> [] then bad_transport
      else Ok None)"

definition tls_from_env :: "(string \<Rightarrow> bool) \<Rightarrow> environ \<Rightarrow> bool \<Rightarrow> resolver_error + (string \<times> (string \<times> string) option) option" where
  "tls_from_env readable env uses_tls =
     (let cafile = strip (env_get env ''KAFKA_SSL_CAFILE'' []); certfile = strip (env_get env ''KAFKA_SSL_CERTFILE'' []);
          keyfile = strip (env_get env ''KAFKA_SSL_KEYFILE'' []) in
      if uses_tls then
        ebind (readable_file readable cafile) (\<lambda>_.
          if (certfile \<noteq> []) \<noteq> (keyfile \<noteq> []) then bad_transport
          else ebind (strict_bool_env env ''KAFKA_SSL_CHECK_HOSTNAME'' True) (\<lambda>checked.
            if \<not> checked then bad_transport
            else if certfile = [] then Ok (Some (cafile, None))
            else ebind (readable_file readable certfile) (\<lambda>cert. ebind (readable_file readable keyfile) (\<lambda>key.
              Ok (Some (cafile, Some (cert, key)))))))
      else if cafile \<noteq> [] \<or> certfile \<noteq> [] \<or> keyfile \<noteq> [] then bad_transport
      else Ok None)"

definition config_from_env :: "(string \<Rightarrow> int option) \<Rightarrow> (string \<Rightarrow> bool) \<Rightarrow> environ \<Rightarrow> resolver_error + ResolverConfig" where
  "config_from_env py_int readable env =
     ebind (required_env env ''KAFKA_BOOTSTRAP_SERVERS'') (\<lambda>raw.
     let brokers = map strip (split_on (CHR '','') raw) in
     if list_ex (\<lambda>b. \<not> BROKER_PATTERN b) brokers then bad_transport
     else ebind (required_env env ''KAFKA_SECURITY_PROTOCOL'') (\<lambda>named.
     let protocol = upper_text named in
     if protocol \<notin> {''PLAINTEXT'', ''SSL'', ''SASL_PLAINTEXT'', ''SASL_SSL''} then bad_transport
     else ebind (if protocol \<in> {''PLAINTEXT'', ''SASL_PLAINTEXT''}
                 then strict_bool_env env ''DLQ_RESOLVER_ALLOW_INSECURE_KAFKA'' False else Ok True) (\<lambda>approved.
     if \<not> approved then Raise (ResolverError ''insecure_transport_not_approved'')
     else ebind (sasl_from_env env (protocol \<in> {''SASL_PLAINTEXT'', ''SASL_SSL''})) (\<lambda>sasl.
     ebind (tls_from_env readable env (protocol \<in> {''SSL'', ''SASL_SSL''})) (\<lambda>tls.
     let client_id = strip (env_get env ''DLQ_RESOLVER_CLIENT_ID'' ''imposbro-dlq-resolver'') in
     if \<not> IDENTIFIER_PATTERN client_id then bad_transport
     else ebind (bounded_int_env py_int env ''DLQ_RESOLVER_TIMEOUT_MS'' 30000 11000 120000) (\<lambda>timeout.
     ebind (bounded_int_env py_int env ''DLQ_RESOLVER_MAX_RECORD_BYTES'' 1048576 1024 10485760) (\<lambda>bytes.
       Ok \<lparr>rc_bootstrap_servers = brokers, rc_security_protocol = protocol, rc_sasl = sasl, rc_tls = tls,
           rc_client_id = client_id, rc_timeout_ms = timeout, rc_max_record_bytes = bytes\<rparr>)))))))"

section \<open>The selected record\<close>

record Selection =
  sl_dlq_topic :: string
  sl_partition :: int
  sl_offset :: int
  sl_source_topic :: string

definition validate_selection :: "Selection \<Rightarrow> resolver_error + unit" where
  "validate_selection s =
     (if \<not> TOPIC_PATTERN (sl_dlq_topic s) \<or> \<not> TOPIC_PATTERN (sl_source_topic s) then Raise (ResolverError ''invalid_selector'')
      else if sl_dlq_topic s = sl_source_topic s then Raise (ResolverError ''invalid_selector'')
      else if sl_partition s < 0 \<or> sl_offset s < 0 then Raise (ResolverError ''invalid_selector'')
      else Ok ())"

definition selection_token :: "Selection \<Rightarrow> string" where
  "selection_token s = sl_dlq_topic s @ '':'' @ int_str (sl_partition s) @ '':'' @ int_str (sl_offset s)"

record codec =
  cd_utf8 :: "string \<Rightarrow> string"
  cd_loads :: "string \<Rightarrow> json option"       \<comment> \<open>UTF-8 and JSON; \<open>None\<close> where either fails\<close>
  cd_b64decode :: "string \<Rightarrow> string option"

record ParsedDlqEnvelope =
  de_source_topic :: string
  de_source_partition :: int
  de_source_offset :: int
  de_error_class :: string
  de_error_message_sha256 :: string
  de_message :: json
  de_message_sha256 :: string
  de_message_key :: "string option"
  de_wrapper_sha256 :: string
  de_wrapper_size_bytes :: nat

fun keys_unique :: "json \<Rightarrow> bool" where
  "keys_unique (JObj kvs) = (distinct (map fst kvs) \<and> list_all (\<lambda>kv. keys_unique (snd kv)) kvs)"
| "keys_unique (JArr vs) = list_all keys_unique vs"
| "keys_unique v = True"

text \<open>
  \<open>_strict_json_object\<close>: \<open>NaN\<close> and \<open>Infinity\<close> are refused while parsing, so the parsed text has neither;
  a number too large for a float still parses as an infinity.
\<close>

definition strict_object :: "codec \<Rightarrow> string \<Rightarrow> resolver_error + document" where
  "strict_object cd raw =
     (case cd_loads cd raw of
        None \<Rightarrow> Raise (ResolverError ''malformed_dlq_json'')
      | Some v \<Rightarrow> if \<not> keys_unique v then Raise (ResolverError ''malformed_dlq_json'')
          else (case v of JObj d \<Rightarrow> Ok d | _ \<Rightarrow> Raise (ResolverError ''malformed_dlq_wrapper'')))"

abbreviation bad_wrapper :: "resolver_error + 'a" where
  "bad_wrapper \<equiv> Raise (ResolverError ''malformed_dlq_wrapper'')"

definition WRAPPER_REQUIRED :: "string list" where
  "WRAPPER_REQUIRED = [''source_topic'', ''source_partition'', ''source_offset'', ''error'', ''error_message'', ''message'']"

definition strict_nonnegative :: "json \<Rightarrow> resolver_error + int" where
  "strict_nonnegative v = (case v of JInt n \<Rightarrow> if n < 0 then bad_wrapper else Ok n | _ \<Rightarrow> bad_wrapper)"

definition parse_message_key :: "codec \<Rightarrow> json \<Rightarrow> json \<Rightarrow> resolver_error + string option" where
  "parse_message_key cd key encoding =
     (case key of
        JNull \<Rightarrow> if encoding \<noteq> JNull then bad_wrapper else Ok None
      | JStr s \<Rightarrow> if encoding \<noteq> JStr ''base64'' then bad_wrapper
          else (case cd_b64decode cd s of
             None \<Rightarrow> bad_wrapper
           | Some k \<Rightarrow> if k = [] \<or> 2048 < length k then bad_wrapper else Ok (Some k))
      | _ \<Rightarrow> bad_wrapper)"

definition parse_dlq_envelope :: "platform \<Rightarrow> codec \<Rightarrow> string \<Rightarrow> int \<Rightarrow> string option \<Rightarrow> resolver_error + ParsedDlqEnvelope" where
  "parse_dlq_envelope pl cd expected max_bytes raw_value =
     (case raw_value of
        None \<Rightarrow> Raise (ResolverError ''malformed_dlq_value'')
      | Some raw \<Rightarrow>
          if raw = [] \<or> max_bytes < int (length raw) then Raise (ResolverError ''invalid_record_size'')
          else ebind (strict_object cd raw) (\<lambda>w.
            if \<not> set WRAPPER_REQUIRED \<subseteq> set (dkeys w) \<or>
               \<not> set (dkeys w) \<subseteq> set WRAPPER_REQUIRED \<union> {''message_key'', ''message_key_encoding''} then bad_wrapper
            else (case jget w ''source_topic'' of
              JStr topic \<Rightarrow>
                if \<not> TOPIC_PATTERN topic then bad_wrapper
                else if topic \<noteq> expected then Raise (ResolverError ''source_topic_mismatch'')
                else ebind (strict_nonnegative (jget w ''source_partition'')) (\<lambda>part.
                ebind (strict_nonnegative (jget w ''source_offset'')) (\<lambda>off.
                case jget w ''error'' of
                  JStr error_class \<Rightarrow>
                    if \<not> IDENTIFIER_PATTERN error_class then bad_wrapper
                    else (case jget w ''error_message'' of
                      JStr text_value \<Rightarrow>
                        if MAX_ERROR_MESSAGE_BYTES < int (length (cd_utf8 cd text_value)) then bad_wrapper
                        else ebind (parse_message_key cd (jget w ''message_key'') (jget w ''message_key_encoding'')) (\<lambda>key.
                          if \<not> finite_json (jget w ''message'') then Raise (ResolverError ''invalid_json_value'')
                          else Ok \<lparr>de_source_topic = topic, de_source_partition = part, de_source_offset = off,
                            de_error_class = error_class, de_error_message_sha256 = sha256 pl (cd_utf8 cd text_value),
                            de_message = jget w ''message'',
                            de_message_sha256 = sha256 pl (cd_utf8 cd (canonical_json pl (jget w ''message''))),
                            de_message_key = key, de_wrapper_sha256 = sha256 pl raw, de_wrapper_size_bytes = length raw\<rparr>)
                    | _ \<Rightarrow> bad_wrapper)
                | _ \<Rightarrow> bad_wrapper))
            | _ \<Rightarrow> bad_wrapper)))"

section \<open>What can be replayed\<close>

record ReplayMetadata =
  rm_event_id_sha256 :: string
  rm_identity_sha256 :: string
  rm_operation :: string
  rm_sequence :: int
  rm_target_count :: nat

abbreviation bad_payload :: "resolver_error + 'a" where
  "bad_payload \<equiv> Raise (ResolverError ''replay_payload_invalid'')"

definition tenant_ok :: "string \<Rightarrow> bool" where
  "tenant_ok t \<longleftrightarrow> t \<noteq> [] \<and> length t \<le> 256 \<and> strip t = t \<and> list_all is_printable t \<and> IDENTITY_SEPARATOR \<notin> set t"

definition replay_identity :: "json \<Rightarrow> resolver_error + EventIdentity" where
  "replay_identity v =
     (case v of
        JObj d \<Rightarrow>
          if set (dkeys d) \<noteq> {''tenant_id'', ''collection'', ''document_id''} then bad_payload
          else (case (jget d ''tenant_id'', jget d ''collection'', jget d ''document_id'') of
            (JStr t, JStr c, JStr i) \<Rightarrow>
              if \<not> tenant_ok t \<or> \<not> NAME_PATTERN c \<or> \<not> DOCUMENT_ID_PATTERN i then bad_payload
              else Ok \<lparr>id_tenant_id = t, id_collection = c, id_document_id = i\<rparr>
          | _ \<Rightarrow> bad_payload)
      | _ \<Rightarrow> bad_payload)"

definition replay_positive :: "json \<Rightarrow> resolver_error + int" where
  "replay_positive v = (case v of JInt n \<Rightarrow> if n < 1 then bad_payload else Ok n | _ \<Rightarrow> bad_payload)"

text \<open>Looking up a list or an object in a set raises \<open>TypeError\<close>, which is no \<open>ResolverError\<close>.\<close>

definition replay_operation :: "json \<Rightarrow> resolver_error + string" where
  "replay_operation v =
     (case v of
        JStr s \<Rightarrow> if s \<in> {''upsert'', ''delete'', ''tombstone''} then Ok s else bad_payload
      | JArr _ \<Rightarrow> Raise UnexpectedResolverFailure
      | JObj _ \<Rightarrow> Raise UnexpectedResolverFailure
      | _ \<Rightarrow> bad_payload)"

definition replay_targets :: "json \<Rightarrow> resolver_error + string list" where
  "replay_targets v =
     (case v of
        JArr vs \<Rightarrow>
          if vs = [] then bad_payload
          else (case those (map (\<lambda>t. case t of JStr s \<Rightarrow> if NAME_PATTERN s then Some s else None | _ \<Rightarrow> None) vs) of
             None \<Rightarrow> bad_payload
           | Some ts \<Rightarrow> if distinct ts then Ok ts else bad_payload)
      | _ \<Rightarrow> bad_payload)"

definition replay_content :: "document \<Rightarrow> string \<Rightarrow> string \<Rightarrow> resolver_error + unit" where
  "replay_content p op document_id =
     (if op = ''upsert'' then
        (case jget p ''document'' of
           JObj d \<Rightarrow> if jget d ''id'' \<noteq> JStr document_id then bad_payload
             else if jget p ''delete_filter'' \<noteq> JNull then bad_payload else Ok ()
         | _ \<Rightarrow> bad_payload)
      else if jget p ''document'' \<noteq> JNull then bad_payload else Ok ())"

definition ends_with :: "string \<Rightarrow> string \<Rightarrow> bool" where
  "ends_with s suf \<longleftrightarrow> length suf \<le> length s \<and> drop (length s - length suf) s = suf"

text \<open>The key and the topics that the identity demands.\<close>

definition replay_addressed :: "codec \<Rightarrow> ParsedDlqEnvelope \<Rightarrow> string \<Rightarrow> EventIdentity \<Rightarrow> resolver_error + unit" where
  "replay_addressed cd e dlq_topic i =
     (let suf = ''_'' @ id_collection i; src_topic = de_source_topic e in
      if de_message_key e \<noteq> Some (cd_utf8 cd (identity_key i)) then Raise (ResolverError ''replay_key_mismatch'')
      else if \<not> ends_with src_topic suf then Raise (ResolverError ''replay_source_topic_mismatch'')
      else if dlq_topic \<noteq> take (length src_topic - length suf) src_topic @ ''_dlq''
        then Raise (ResolverError ''replay_dlq_topic_mismatch'')
      else Ok ())"

definition validate_replay_payload :: "platform \<Rightarrow> codec \<Rightarrow> ParsedDlqEnvelope \<Rightarrow> string \<Rightarrow> resolver_error + ReplayMetadata" where
  "validate_replay_payload pl cd e dlq_topic =
     (case de_message e of
        JObj p \<Rightarrow>
          if \<not> version_two (jget p ''envelope_version'') then bad_payload
          else (case jget p ''event_id'' of
            JStr eid \<Rightarrow>
              if \<not> EVENT_ID_PATTERN eid then bad_payload
              else ebind (replay_identity (jget p ''identity'')) (\<lambda>i.
              ebind (replay_positive (jget p ''sequence'')) (\<lambda>sequence.
              ebind (replay_positive (jget p ''document_version'')) (\<lambda>_.
              ebind (replay_positive (jget p ''routing_revision'')) (\<lambda>_.
              ebind (replay_operation (jget p ''operation'')) (\<lambda>op.
              ebind (replay_targets (jget p ''target_clusters'')) (\<lambda>targets.
              ebind (replay_content p op (id_document_id i)) (\<lambda>_.
              ebind (replay_addressed cd e dlq_topic i) (\<lambda>_.
                Ok \<lparr>rm_event_id_sha256 = sha256 pl (cd_utf8 cd eid), rm_identity_sha256 = sha256 pl (cd_utf8 cd (identity_key i)),
                    rm_operation = op, rm_sequence = sequence, rm_target_count = length targets\<rparr>))))))))
          | _ \<Rightarrow> bad_payload)
      | _ \<Rightarrow> bad_payload)"

section \<open>The Kafka client\<close>

record dlq_record =
  dr_topic :: string
  dr_partition :: int
  dr_offset :: int
  dr_value :: "string option"           \<comment> \<open>\<open>None\<close> for a value that is not bytes\<close>
  dr_key :: "string option"

record replay_ack =
  ra_topic :: string
  ra_partition :: int
  ra_offset :: int

text \<open>The left of a result is an exception of the library.\<close>

record 'k kafka_client =
  kc_consumer :: "'k \<Rightarrow> 'k \<times> (unit + unit)"
  kc_partitions_for_topic :: "string \<Rightarrow> 'k \<Rightarrow> 'k \<times> (unit + int list option)"
  kc_beginning_offset :: "string \<Rightarrow> int \<Rightarrow> 'k \<Rightarrow> 'k \<times> (unit + int)"
  kc_end_offset :: "string \<Rightarrow> int \<Rightarrow> 'k \<Rightarrow> 'k \<times> (unit + int)"
  kc_committed :: "string \<Rightarrow> int \<Rightarrow> 'k \<Rightarrow> 'k \<times> (unit + int option)"
  kc_poll :: "string \<Rightarrow> int \<Rightarrow> int \<Rightarrow> 'k \<Rightarrow> 'k \<times> (unit + dlq_record list)"    \<comment> \<open>assign, seek and poll\<close>
  kc_commit :: "string \<Rightarrow> int \<Rightarrow> int \<Rightarrow> string \<Rightarrow> 'k \<Rightarrow> 'k \<times> (unit + unit)"
  kc_send :: "string \<Rightarrow> string option \<Rightarrow> json \<Rightarrow> (string \<times> string) list \<Rightarrow> 'k \<Rightarrow> 'k \<times> (unit + replay_ack)"
    \<comment> \<open>a producer, send, the acknowledgement, flush\<close>

datatype kafka_call =
    OffsetRead "int option"
  | OffsetCommitted string int int string bool
  | Replayed string "string option" json "(string \<times> string) list" bool

record 'k resolver_world =
  rw_kafka :: 'k
  rw_calls :: "kafka_call list"

type_synonym ('k, 'a) resolver_op = "'k resolver_world \<Rightarrow> 'k resolver_world \<times> (resolver_error + 'a)"

definition rbind :: "('k, 'a) resolver_op \<Rightarrow> ('a \<Rightarrow> ('k, 'b) resolver_op) \<Rightarrow> ('k, 'b) resolver_op" where
  "rbind m f w = (case m w of (w', Inl e) \<Rightarrow> (w', Raise e) | (w', Inr x) \<Rightarrow> f x w')"

definition rpure :: "resolver_error + 'a \<Rightarrow> ('k, 'a) resolver_op" where
  "rpure r w = (w, r)"

text \<open>A call of the library whose exception becomes the given code.\<close>

definition rcall :: "string \<Rightarrow> ('k \<Rightarrow> 'k \<times> (unit + 'a)) \<Rightarrow> ('k, 'a) resolver_op" where
  "rcall code f w = (case f (rw_kafka w) of (k, r) \<Rightarrow>
     (w\<lparr>rw_kafka := k\<rparr>, case r of Inl _ \<Rightarrow> Raise (ResolverError code) | Inr x \<Rightarrow> Ok x))"

definition read_committed :: "'k kafka_client \<Rightarrow> string \<Rightarrow> Selection \<Rightarrow> ('k, int option) resolver_op" where
  "read_committed kc code s =
     rbind (rcall code (kc_committed kc (sl_dlq_topic s) (sl_partition s))) (\<lambda>c w. (w\<lparr>rw_calls := rw_calls w @ [OffsetRead c]\<rparr>, Ok c))"

record FetchResult =
  fr_record :: dlq_record
  fr_beginning_offset :: int
  fr_end_offset :: int
  fr_committed_offset :: "int option"

definition expected_next_offset :: "FetchResult \<Rightarrow> int" where
  "expected_next_offset f = (case fr_committed_offset f of None \<Rightarrow> fr_beginning_offset f | Some c \<Rightarrow> c)"

definition resolution_order_eligible :: "FetchResult \<Rightarrow> bool" where
  "resolution_order_eligible f \<longleftrightarrow>
     (case fr_committed_offset f of Some c \<Rightarrow> fr_beginning_offset f \<le> c | None \<Rightarrow> True) \<and>
     dr_offset (fr_record f) = expected_next_offset f"

text \<open>The partition and its bounds, before the group's offset is read; then the one record.\<close>

definition locate_partition :: "'k kafka_client \<Rightarrow> Selection \<Rightarrow> ('k, int \<times> int) resolver_op" where
  "locate_partition kc s =
     (let t = sl_dlq_topic s; p = sl_partition s; failed = ''kafka_fetch_failed'' in
      rbind (rcall failed (kc_consumer kc)) (\<lambda>_.
      rbind (rcall failed (kc_partitions_for_topic kc t)) (\<lambda>parts.
      if \<not> (case parts of Some ps \<Rightarrow> p \<in> set ps | None \<Rightarrow> False) then rpure (Raise (ResolverError ''partition_not_found''))
      else rbind (rcall failed (kc_beginning_offset kc t p)) (\<lambda>begins.
      rbind (rcall failed (kc_end_offset kc t p)) (\<lambda>ends.
      if sl_offset s < begins then rpure (Raise (ResolverError ''offset_expired''))
      else if ends \<le> sl_offset s then rpure (Raise (ResolverError ''offset_not_available''))
      else rpure (Ok (begins, ends)))))))"

definition poll_record :: "'k kafka_client \<Rightarrow> Selection \<Rightarrow> ('k, dlq_record) resolver_op" where
  "poll_record kc s =
     rbind (rcall ''kafka_fetch_failed'' (kc_poll kc (sl_dlq_topic s) (sl_partition s) (sl_offset s))) (\<lambda>polled. rpure
       (case polled of
          [r] \<Rightarrow> if dr_topic r \<noteq> sl_dlq_topic s \<or> dr_partition r \<noteq> sl_partition s \<or> dr_offset r \<noteq> sl_offset s
            then Raise (ResolverError ''exact_record_mismatch'') else Ok r
        | _ \<Rightarrow> Raise (ResolverError ''exact_record_not_returned'')))"

definition fetch_exact :: "'k kafka_client \<Rightarrow> Selection \<Rightarrow> ('k, FetchResult) resolver_op" where
  "fetch_exact kc s =
     rbind (locate_partition kc s) (\<lambda>(begins, ends).
     rbind (read_committed kc ''kafka_fetch_failed'' s) (\<lambda>committed.
     rbind (poll_record kc s) (\<lambda>r. rpure
       (Ok \<lparr>fr_record = r, fr_beginning_offset = begins, fr_end_offset = ends, fr_committed_offset = committed\<rparr>))))"

definition require_resolution_order :: "FetchResult \<Rightarrow> resolver_error + unit" where
  "require_resolution_order f =
     (if (case fr_committed_offset f of Some c \<Rightarrow> c < fr_beginning_offset f | None \<Rightarrow> False)
        then Raise (ResolverError ''committed_offset_expired'')
      else if dr_offset (fr_record f) \<noteq> expected_next_offset f then Raise (ResolverError ''partition_order_violation'')
      else Ok ())"

definition commit_metadata :: "string \<Rightarrow> string" where
  "commit_metadata operation_id = ''imposbro-dlq-resolver:'' @ operation_id"

definition send_commit :: "'k kafka_client \<Rightarrow> Selection \<Rightarrow> int \<Rightarrow> string \<Rightarrow> ('k, unit) resolver_op" where
  "send_commit kc s n metadata w =
     (case kc_commit kc (sl_dlq_topic s) (sl_partition s) n metadata (rw_kafka w) of (k, r) \<Rightarrow>
        (w\<lparr>rw_kafka := k, rw_calls := rw_calls w @ [OffsetCommitted (sl_dlq_topic s) (sl_partition s) n metadata (\<not> isl r)]\<rparr>,
         case r of Inl _ \<Rightarrow> Raise (ResolverError ''offset_commit_failed'') | Inr _ \<Rightarrow> Ok ()))"

definition commit_exact :: "'k kafka_client \<Rightarrow> Selection \<Rightarrow> string \<Rightarrow> FetchResult \<Rightarrow> ('k, int) resolver_op" where
  "commit_exact kc s operation_id f =
     rbind (read_committed kc ''offset_commit_failed'' s) (\<lambda>current.
     if current \<noteq> Some (dr_offset (fr_record f)) then rpure (Raise (ResolverError ''concurrent_offset_change''))
     else rbind (send_commit kc s (dr_offset (fr_record f) + 1) (commit_metadata operation_id)) (\<lambda>_.
       rbind (read_committed kc ''offset_commit_failed'' s) (\<lambda>committed. rpure
         (case committed of
            None \<Rightarrow> Raise (ResolverError ''offset_commit_failed'')
          | Some n \<Rightarrow> if n \<noteq> dr_offset (fr_record f) + 1 then Raise (ResolverError ''offset_commit_mismatch'') else Ok n))))"

section \<open>One resolution\<close>

record resolve_args =
  rs_action :: string
  rs_selection :: Selection
  rs_operation_id :: string
  rs_commit :: bool
  rs_confirm :: string
  rs_reason :: string
  rs_approver :: string

text \<open>The evidence of a run; the constant schema, group and redaction flags are left out.\<close>

record resolution_evidence =
  ev_operation_id :: string
  ev_action :: string
  ev_outcome :: string
  ev_started_at :: string
  ev_completed_at :: "string option"
  ev_selector :: Selection
  ev_security_protocol :: string
  ev_fetch :: "int \<times> int \<times> int option \<times> int \<times> bool"
  ev_envelope :: "string \<times> nat \<times> string option \<times> string \<times> int \<times> int \<times> string \<times> string \<times> string \<times> string option"
  ev_replay_validation :: "bool \<times> string"
  ev_event :: "ReplayMetadata option"
  ev_planned_replay :: "string list option"
  ev_replay :: "(replay_ack \<times> string list) option"
  ev_disposition :: "(string \<times> string) option"
  ev_commit_requested :: bool
  ev_commit_attempted :: bool
  ev_commit_offset :: "int option"                 \<comment> \<open>\<open>performed\<close> is whether it is there\<close>

definition recovery_headers :: "codec \<Rightarrow> Selection \<Rightarrow> ParsedDlqEnvelope \<Rightarrow> string \<Rightarrow> (string \<times> string) list" where
  "recovery_headers cd s e operation_id =
     [(''imposbro-recovery-protocol'', ''dlq-replay-v1''), (''imposbro-recovery-id'', operation_id),
      (''imposbro-dlq-topic'', cd_utf8 cd (sl_dlq_topic s)), (''imposbro-dlq-partition'', int_str (sl_partition s)),
      (''imposbro-dlq-offset'', int_str (sl_offset s)), (''imposbro-source-partition'', int_str (de_source_partition e)),
      (''imposbro-source-offset'', int_str (de_source_offset e))]"

definition resolver_code :: "resolver_error \<Rightarrow> string" where
  "resolver_code e = (case e of ResolverError c \<Rightarrow> c | UnexpectedResolverFailure \<Rightarrow> ''unexpected_resolver_failure'')"

definition first_evidence :: "platform \<Rightarrow> ResolverConfig \<Rightarrow> resolve_args \<Rightarrow> string \<Rightarrow> FetchResult \<Rightarrow> ParsedDlqEnvelope
   \<Rightarrow> resolver_error + ReplayMetadata \<Rightarrow> resolution_evidence" where
  "first_evidence pl cfg a started f e validated =
     \<lparr>ev_operation_id = rs_operation_id a, ev_action = rs_action a, ev_outcome = ''started'', ev_started_at = started,
      ev_completed_at = None, ev_selector = rs_selection a, ev_security_protocol = rc_security_protocol cfg,
      ev_fetch = (fr_beginning_offset f, fr_end_offset f, fr_committed_offset f, expected_next_offset f, resolution_order_eligible f),
      ev_envelope = (de_wrapper_sha256 e, de_wrapper_size_bytes e, map_option (sha256 pl) (dr_key (fr_record f)), de_source_topic e,
        de_source_partition e, de_source_offset e, de_error_class e, de_error_message_sha256 e, de_message_sha256 e,
        map_option (sha256 pl) (de_message_key e)),
      ev_replay_validation = (case validated of Inl err \<Rightarrow> (False, resolver_code err) | Inr _ \<Rightarrow> (True, ''valid_v2_identity_and_key'')),
      ev_event = (case validated of Inl _ \<Rightarrow> None | Inr m \<Rightarrow> Some m),
      ev_planned_replay = None, ev_replay = None, ev_disposition = None,
      ev_commit_requested = rs_commit a, ev_commit_attempted = False, ev_commit_offset = None\<rparr>"

text \<open>An action gives the evidence as far as it was written and the error that ended it, if any.\<close>

type_synonym 'k action_result = "'k resolver_world \<times> resolution_evidence \<times> resolver_error option"

definition act_inspect :: "resolve_args \<Rightarrow> resolution_evidence \<Rightarrow> 'k resolver_world \<Rightarrow> 'k action_result" where
  "act_inspect a ev w =
     (if rs_commit a then (w, ev, Some (ResolverError ''commit_not_allowed''))
      else (w, ev\<lparr>ev_outcome := ''inspected''\<rparr>, None))"

definition act_dry_run :: "codec \<Rightarrow> resolve_args \<Rightarrow> FetchResult \<Rightarrow> ParsedDlqEnvelope \<Rightarrow> resolver_error + ReplayMetadata
   \<Rightarrow> resolution_evidence \<Rightarrow> 'k resolver_world \<Rightarrow> 'k action_result" where
  "act_dry_run cd a f e validated ev w =
     (if rs_commit a then (w, ev, Some (ResolverError ''commit_not_allowed''))
      else (case ebind (require_resolution_order f) (\<lambda>_. validated) of
         Inl err \<Rightarrow> (w, ev, Some (ResolverError (resolver_code err)))
       | Inr _ \<Rightarrow> (w, ev\<lparr>ev_outcome := ''dry_run'',
           ev_planned_replay := Some (map fst (recovery_headers cd (rs_selection a) e (rs_operation_id a)))\<rparr>, None)))"

definition commit_action :: "'k kafka_client \<Rightarrow> resolve_args \<Rightarrow> FetchResult \<Rightarrow> string \<Rightarrow> resolution_evidence
   \<Rightarrow> 'k resolver_world \<Rightarrow> 'k action_result" where
  "commit_action kc a f outcome ev w =
     (case commit_exact kc (rs_selection a) (rs_operation_id a) f w of
        (w', Inl err) \<Rightarrow> (w', ev, Some err)
      | (w', Inr n) \<Rightarrow> (w', ev\<lparr>ev_commit_offset := Some n, ev_outcome := outcome\<rparr>, None))"

definition replay_confirmation :: "resolve_args \<Rightarrow> string" where
  "replay_confirmation a = (if rs_commit a then ''REPLAY-AND-COMMIT'' else ''REPLAY'') @ '':'' @ selection_token (rs_selection a)"

definition disposition_confirmation :: "resolve_args \<Rightarrow> string" where
  "disposition_confirmation a = ''DISPOSITION-AND-COMMIT:'' @ selection_token (rs_selection a)"

text \<open>The digest of the payload before and after the send is that of the same value here, so the test for a change has no branch.\<close>

definition act_replay :: "codec \<Rightarrow> 'k kafka_client \<Rightarrow> resolve_args \<Rightarrow> FetchResult \<Rightarrow> ParsedDlqEnvelope \<Rightarrow> resolver_error + ReplayMetadata
   \<Rightarrow> resolution_evidence \<Rightarrow> 'k resolver_world \<Rightarrow> 'k action_result" where
  "act_replay cd kc a f e validated ev w =
     (case ebind (require_resolution_order f) (\<lambda>_. validated) of
        Inl err \<Rightarrow> (w, ev, Some (ResolverError (resolver_code err)))
      | Inr _ \<Rightarrow>
          if rs_confirm a \<noteq> replay_confirmation a then (w, ev, Some (ResolverError ''confirmation_mismatch''))
          else
            (let headers = recovery_headers cd (rs_selection a) e (rs_operation_id a) in
             case kc_send kc (de_source_topic e) (de_message_key e) (de_message e) headers (rw_kafka w) of (k, r) \<Rightarrow>
               (let w1 = w\<lparr>rw_kafka := k, rw_calls := rw_calls w @
                      [Replayed (de_source_topic e) (de_message_key e) (de_message e) headers (\<not> isl r)]\<rparr> in
                case r of
                  Inl _ \<Rightarrow> (w1, ev, Some (ResolverError ''replay_ack_failed''))
                | Inr ack \<Rightarrow>
                    if ra_topic ack \<noteq> de_source_topic e then (w1, ev, Some (ResolverError ''replay_ack_mismatch''))
                    else
                      (let ev1 = ev\<lparr>ev_replay := Some (ack, map fst headers)\<rparr> in
                       if rs_commit a then commit_action kc a f ''replayed_and_committed'' (ev1\<lparr>ev_commit_attempted := True\<rparr>) w1
                       else (w1, ev1\<lparr>ev_outcome := ''replayed_uncommitted''\<rparr>, None)))))"

definition act_disposition :: "'k kafka_client \<Rightarrow> resolve_args \<Rightarrow> FetchResult \<Rightarrow> resolution_evidence \<Rightarrow> 'k resolver_world \<Rightarrow> 'k action_result" where
  "act_disposition kc a f ev w =
     (case require_resolution_order f of
        Inl err \<Rightarrow> (w, ev, Some err)
      | Inr _ \<Rightarrow>
          if \<not> rs_commit a then (w, ev, Some (ResolverError ''explicit_commit_required''))
          else if \<not> IDENTIFIER_PATTERN (rs_reason a) then (w, ev, Some (ResolverError ''invalid_disposition''))
          else if \<not> IDENTIFIER_PATTERN (rs_approver a) then (w, ev, Some (ResolverError ''invalid_disposition''))
          else if rs_confirm a \<noteq> disposition_confirmation a then (w, ev, Some (ResolverError ''confirmation_mismatch''))
          else commit_action kc a f ''disposition_committed'' (ev\<lparr>ev_disposition := Some (rs_reason a, rs_approver a)\<rparr>) w)"

definition run_action :: "codec \<Rightarrow> 'k kafka_client \<Rightarrow> resolve_args \<Rightarrow> FetchResult \<Rightarrow> ParsedDlqEnvelope \<Rightarrow> resolver_error + ReplayMetadata
   \<Rightarrow> resolution_evidence \<Rightarrow> 'k resolver_world \<Rightarrow> 'k action_result" where
  "run_action cd kc a f e validated ev w =
     (if rs_action a = ''inspect'' then act_inspect a ev w
      else if rs_action a = ''dry-run'' then act_dry_run cd a f e validated ev w
      else if rs_action a = ''replay'' then act_replay cd kc a f e validated ev w
      else act_disposition kc a f ev w)"

text \<open>\<open>resolve\<close>: an error carries the evidence that was already there. \<open>clock\<close> gives the two readings of the time.\<close>

definition dlq_resolve :: "platform \<Rightarrow> codec \<Rightarrow> 'k kafka_client \<Rightarrow> ResolverConfig \<Rightarrow> string \<times> string \<Rightarrow> resolve_args \<Rightarrow> 'k resolver_world
   \<Rightarrow> 'k resolver_world \<times> (resolver_error \<times> resolution_evidence option + resolution_evidence)" where
  "dlq_resolve pl cd kc cfg clock a w =
     (let s = rs_selection a in
      if rs_action a \<notin> {''inspect'', ''dry-run'', ''replay'', ''disposition''} then (w, Raise (ResolverError ''invalid_action'', None))
      else (case validate_selection s of
        Inl e \<Rightarrow> (w, Raise (e, None))
      | Inr _ \<Rightarrow>
          if \<not> IDENTIFIER_PATTERN (rs_operation_id a) then (w, Raise (ResolverError ''invalid_operation_id'', None))
          else (case fetch_exact kc s w of
            (w1, Inl e) \<Rightarrow> (w1, Raise (e, None))
          | (w1, Inr f) \<Rightarrow>
              (case parse_dlq_envelope pl cd (sl_source_topic s) (rc_max_record_bytes cfg) (dr_value (fr_record f)) of
                 Inl e \<Rightarrow> (w1, Raise (e, None))
               | Inr env \<Rightarrow>
                   (let validated = validate_replay_payload pl cd env (sl_dlq_topic s) in
                    if validated = Raise UnexpectedResolverFailure then (w1, Raise (UnexpectedResolverFailure, None))
                    else
                      (case run_action cd kc a f env validated (first_evidence pl cfg a (fst clock) f env validated) w1 of
                         (w2, ev, None) \<Rightarrow> (w2, Ok (ev\<lparr>ev_completed_at := Some (snd clock)\<rparr>))
                       | (w2, ev, Some err) \<Rightarrow>
                           (w2, Raise (err, Some (ev\<lparr>ev_outcome := ''failed'', ev_completed_at := Some (snd clock)\<rparr>)))))))))"

section \<open>The command\<close>

datatype evidence_content = EmptyEvidence | StartedEvidence string | FinalEvidence resolution_evidence
  | FailedEvidence string resolver_error "resolution_evidence option"

datatype reserve_outcome = Reserves | OpenFails | WriteFails

record evidence_path =
  ep_json_suffix :: bool
  ep_parent_is_dir :: bool
  ep_content :: "evidence_content option"

definition reserve_evidence :: "reserve_outcome \<Rightarrow> string \<Rightarrow> evidence_path \<Rightarrow> evidence_path \<times> (resolver_error + unit)" where
  "reserve_evidence io operation_id p =
     (if \<not> ep_json_suffix p \<or> \<not> ep_parent_is_dir p then (p, Raise (ResolverError ''invalid_evidence_path''))
      else (case ep_content p of
        Some _ \<Rightarrow> (p, Raise (ResolverError ''evidence_exists''))
      | None \<Rightarrow>
          (case io of
             Reserves \<Rightarrow> (p\<lparr>ep_content := Some (StartedEvidence operation_id)\<rparr>, Ok ())
           | OpenFails \<Rightarrow> (p, Raise (ResolverError ''evidence_reservation_failed''))
           | WriteFails \<Rightarrow> (p\<lparr>ep_content := Some EmptyEvidence\<rparr>, Raise (ResolverError ''evidence_reservation_failed'')))))"

text \<open>Replacing the file is atomic: a failure leaves what was there.\<close>

definition finalize_evidence :: "bool \<Rightarrow> evidence_content \<Rightarrow> evidence_path \<Rightarrow> evidence_path \<times> (resolver_error + unit)" where
  "finalize_evidence writes c p =
     (if writes then (p\<lparr>ep_content := Some c\<rparr>, Ok ()) else (p, Raise (ResolverError ''evidence_write_failed'')))"

record resolver_io =
  ri_environ :: environ
  ri_readable :: "string \<Rightarrow> bool"
  ri_py_int :: "string \<Rightarrow> int option"
  ri_kafka_installed :: bool
  ri_reserve :: reserve_outcome
  ri_finalize :: bool
  ri_finalize_failure :: bool

definition resolver_run :: "platform \<Rightarrow> codec \<Rightarrow> 'k kafka_client \<Rightarrow> resolver_io \<Rightarrow> string \<times> string \<Rightarrow> resolve_args \<Rightarrow> 'k resolver_world
   \<Rightarrow> 'k resolver_world \<times> (resolver_error \<times> resolution_evidence option + resolution_evidence)" where
  "resolver_run pl cd kc io clock a w =
     (case config_from_env (ri_py_int io) (ri_readable io) (ri_environ io) of
        Inl e \<Rightarrow> (w, Raise (e, None))
      | Inr cfg \<Rightarrow>
          if \<not> ri_kafka_installed io then (w, Raise (ResolverError ''missing_dependency'', None))
          else dlq_resolve pl cd kc cfg clock a w)"

text \<open>The result is the exit status.\<close>

definition resolver_main :: "platform \<Rightarrow> codec \<Rightarrow> 'k kafka_client \<Rightarrow> resolver_io \<Rightarrow> string \<times> string \<Rightarrow> resolve_args
   \<Rightarrow> 'k resolver_world \<times> evidence_path \<Rightarrow> ('k resolver_world \<times> evidence_path) \<times> int" where
  "resolver_main pl cd kc io clock a = (\<lambda>(w, p).
     case validate_selection (rs_selection a) of
       Inl _ \<Rightarrow> ((w, p), 2)
     | Inr _ \<Rightarrow>
         (case reserve_evidence (ri_reserve io) (rs_operation_id a) p of
            (p1, Inl _) \<Rightarrow> ((w, p1), 2)
          | (p1, Inr _) \<Rightarrow>
              (case resolver_run pl cd kc io clock a w of
                 (w1, Inl (err, partial)) \<Rightarrow>
                   ((w1, fst (finalize_evidence (ri_finalize io) (FailedEvidence (rs_operation_id a) err partial) p1)), 2)
               | (w1, Inr ev) \<Rightarrow>
                   (case finalize_evidence (ri_finalize io) (FinalEvidence ev) p1 of
                      (p2, Inr _) \<Rightarrow> ((w1, p2), 0)
                    | (p2, Inl err) \<Rightarrow>
                        ((w1, fst (finalize_evidence (ri_finalize_failure io) (FailedEvidence (rs_operation_id a) err None) p2)), 2)))))"

section \<open>What one resolution does to Kafka\<close>

text \<open>An operation that neither reads nor moves the group's offset, and replays nothing.\<close>

definition quiet :: "('k, 'a) resolver_op \<Rightarrow> bool" where
  "quiet m \<longleftrightarrow> (\<forall>w. rw_calls (fst (m w)) = rw_calls w)"

lemma quiet_intros: "quiet (rcall code f)" "quiet (rpure r)" "quiet m \<Longrightarrow> (\<And>x. quiet (g x)) \<Longrightarrow> quiet (rbind m g)"
  "quiet m \<Longrightarrow> quiet m' \<Longrightarrow> quiet (if b then m else m')"
     apply (auto simp: quiet_def rcall_def rpure_def split: prod.splits) [2]
   apply (simp add: quiet_def rbind_def split: prod.splits sum.splits, metis fst_conv)
  by simp

lemma rbind_Ok: "m w = (w1, Ok x) \<Longrightarrow> rbind m f w = f x w1"
  by (simp add: rbind_def)

lemma rbind_Raise: "m w = (w1, Raise e) \<Longrightarrow> rbind m f w = (w1, Raise e)"
  by (simp add: rbind_def)

lemma quiet_locate: "quiet (locate_partition kc s)"
  unfolding locate_partition_def Let_def by (intro quiet_intros)

lemma quiet_poll: "quiet (poll_record kc s)"
  unfolding poll_record_def by (intro quiet_intros)

lemma quietD: "quiet m \<Longrightarrow> m w = (w', r) \<Longrightarrow> rw_calls w' = rw_calls w"
  by (metis fst_conv quiet_def)

lemma read_committed_cases:
  assumes "read_committed kc code s w = (w', r)"
  obtains e where "r = Raise e" "rw_calls w' = rw_calls w"
  | c where "r = Ok c" "rw_calls w' = rw_calls w @ [OffsetRead c]"
  using assms by (auto simp: read_committed_def rbind_def rcall_def split: prod.splits sum.splits)

definition only_reads :: "kafka_call list \<Rightarrow> bool" where
  "only_reads es \<longleftrightarrow> (\<forall>e \<in> set es. case e of OffsetRead _ \<Rightarrow> True | _ \<Rightarrow> False)"

definition fetched_record :: "Selection \<Rightarrow> dlq_record \<Rightarrow> bool" where
  "fetched_record s r \<longleftrightarrow> dr_topic r = sl_dlq_topic s \<and> dr_partition r = sl_partition s \<and> dr_offset r = sl_offset s"

lemma poll_record_exact: "poll_record kc s w = (w', Ok r) \<Longrightarrow> fetched_record s r"
  by (auto simp: poll_record_def rbind_def rpure_def fetched_record_def split: prod.splits sum.splits list.splits if_splits)

lemma fetch_exact_calls:
  assumes "fetch_exact kc s w = (w', r)"
  shows "\<exists>es. rw_calls w' = rw_calls w @ es \<and> only_reads es \<and>
    (\<forall>f. r = Ok f \<longrightarrow> es = [OffsetRead (fr_committed_offset f)] \<and> fetched_record s (fr_record f))"
proof -
  obtain w1 r1 where located: "locate_partition kc s w = (w1, r1)" by fastforce
  note q1 = quietD [OF quiet_locate located]
  show ?thesis
  proof (cases r1)
    case (Inl e)
    then show ?thesis using assms located q1 by (auto simp: fetch_exact_def rbind_def only_reads_def)
  next
    case (Inr bounds)
    obtain begins ends where bounds: "bounds = (begins, ends)" by fastforce
    obtain w2 r2 where read: "read_committed kc ''kafka_fetch_failed'' s w1 = (w2, r2)" by fastforce
    from read show ?thesis
    proof (cases rule: read_committed_cases)
      case (1 e)
      then show ?thesis using assms located read Inr bounds q1 by (auto simp: fetch_exact_def rbind_def only_reads_def)
    next
      case (2 c)
      obtain w3 r3 where polled: "poll_record kc s w2 = (w3, r3)" by fastforce
      show ?thesis
        using assms located read Inr bounds q1 2 polled quietD [OF quiet_poll polled] poll_record_exact [of kc s w2 w3]
        by (cases r3) (auto simp: fetch_exact_def rbind_def rpure_def only_reads_def)
    qed
  qed
qed

text \<open>The calls of a commit: the group's offset is read again and must be the offset of the record.\<close>

definition commit_calls :: "Selection \<Rightarrow> string \<Rightarrow> kafka_call list \<Rightarrow> bool" where
  "commit_calls s operation_id es \<longleftrightarrow> only_reads es \<or>
     (\<exists>b rest. es = [OffsetRead (Some (sl_offset s)),
        OffsetCommitted (sl_dlq_topic s) (sl_partition s) (sl_offset s + 1) (commit_metadata operation_id) b] @ rest \<and>
        only_reads rest)"

lemma send_commit_calls:
  assumes "send_commit kc s n metadata w = (w', r)"
  shows "\<exists>b. rw_calls w' = rw_calls w @ [OffsetCommitted (sl_dlq_topic s) (sl_partition s) n metadata b]"
  using assms by (auto simp: send_commit_def split: prod.splits)

lemma commit_exact_calls:
  assumes "commit_exact kc s operation_id f w = (w', r)" and "fetched_record s (fr_record f)"
  shows "\<exists>es. rw_calls w' = rw_calls w @ es \<and> commit_calls s operation_id es \<and> (\<forall>n. r = Ok n \<longrightarrow> n = sl_offset s + 1 \<and> \<not> only_reads es)"
proof -
  have off: "dr_offset (fr_record f) = sl_offset s" using assms(2) by (simp add: fetched_record_def)
  obtain w1 r1 where read: "read_committed kc ''offset_commit_failed'' s w = (w1, r1)" by fastforce
  from read show ?thesis
  proof (cases rule: read_committed_cases)
    case (1 e)
    then show ?thesis using assms(1) read by (auto simp: commit_exact_def rbind_Raise commit_calls_def only_reads_def)
  next
    case (2 cur)
    then have first: "read_committed kc ''offset_commit_failed'' s w = (w1, Ok cur)" using read by simp
    have run: "(if cur \<noteq> Some (sl_offset s) then rpure (Raise (ResolverError ''concurrent_offset_change''))
      else rbind (send_commit kc s (sl_offset s + 1) (commit_metadata operation_id)) (\<lambda>_.
       rbind (read_committed kc ''offset_commit_failed'' s) (\<lambda>committed. rpure
         (case committed of
            None \<Rightarrow> Raise (ResolverError ''offset_commit_failed'')
          | Some n \<Rightarrow> if n \<noteq> sl_offset s + 1 then Raise (ResolverError ''offset_commit_mismatch'') else Ok n)))) w1 = (w', r)"
      using assms(1) unfolding commit_exact_def off
        rbind_Ok [of "read_committed kc ''offset_commit_failed'' s", OF first] .
    show ?thesis
    proof (cases "cur = Some (sl_offset s)")
      case False
      then show ?thesis using run 2 by (auto simp: rpure_def commit_calls_def only_reads_def)
    next
      case True
      obtain w2 r2 where sent: "send_commit kc s (sl_offset s + 1) (commit_metadata operation_id) w1 = (w2, r2)" by fastforce
      from send_commit_calls [OF this] obtain b where calls: "rw_calls w2 = rw_calls w1 @
        [OffsetCommitted (sl_dlq_topic s) (sl_partition s) (sl_offset s + 1) (commit_metadata operation_id) b]" ..
      have shape: ?thesis if "rw_calls w' = rw_calls w2 @ rest" "only_reads rest" "\<forall>n. r = Ok n \<longrightarrow> n = sl_offset s + 1" for rest
        using that calls 2 True by (auto simp: commit_calls_def only_reads_def intro!: exI [of _ b])
      show ?thesis
      proof (cases r2)
        case (Inl e)
        then show ?thesis using run True sent by (intro shape [of "[]"]) (auto simp: rbind_Raise only_reads_def)
      next
        case (Inr u)
        obtain w3 r3 where again: "read_committed kc ''offset_commit_failed'' s w2 = (w3, r3)" by fastforce
        from again show ?thesis
        proof (cases rule: read_committed_cases)
          case (1 e)
          then show ?thesis using run True sent Inr again
            by (intro shape [of "[]"]) (auto simp: rbind_Ok rbind_Raise only_reads_def)
        next
          case (2 n)
          then show ?thesis using run True sent Inr again
            by (intro shape [of "[OffsetRead n]"]) (auto simp: rbind_Ok rpure_def only_reads_def split: option.splits if_splits)
        qed
      qed
    qed
  qed
qed

lemma order_next:
  assumes "require_resolution_order f = Ok u" and "fetched_record s (fr_record f)"
  shows "fr_committed_offset f = None \<and> fr_beginning_offset f = sl_offset s \<or> fr_committed_offset f = Some (sl_offset s)"
  using assms by (auto simp: require_resolution_order_def expected_next_offset_def fetched_record_def split: if_splits option.splits)

text \<open>
  A lawful resolution: reads only; or one confirmed replay of the next unresolved record, unchanged, followed by a commit
  only when it was requested and the broker acknowledged; or a commit for a confirmed disposition.
\<close>

definition replayed_calls :: "platform \<Rightarrow> codec \<Rightarrow> resolve_args \<Rightarrow> ParsedDlqEnvelope \<Rightarrow> kafka_call list \<Rightarrow> bool" where
  "replayed_calls pl cd a e es \<longleftrightarrow> rs_action a = ''replay'' \<and> rs_confirm a = replay_confirmation a \<and>
     (\<exists>m. validate_replay_payload pl cd e (sl_dlq_topic (rs_selection a)) = Ok m) \<and>
     (\<exists>acknowledged rest. es = Replayed (de_source_topic e) (de_message_key e) (de_message e)
          (recovery_headers cd (rs_selection a) e (rs_operation_id a)) acknowledged # rest \<and>
        (rest = [] \<or> rs_commit a \<and> acknowledged \<and> commit_calls (rs_selection a) (rs_operation_id a) rest))"

definition disposed_calls :: "resolve_args \<Rightarrow> kafka_call list \<Rightarrow> bool" where
  "disposed_calls a es \<longleftrightarrow> rs_action a = ''disposition'' \<and> rs_commit a \<and> rs_confirm a = disposition_confirmation a \<and>
     IDENTIFIER_PATTERN (rs_reason a) \<and> IDENTIFIER_PATTERN (rs_approver a) \<and>
     commit_calls (rs_selection a) (rs_operation_id a) es"

definition resolution_calls :: "platform \<Rightarrow> codec \<Rightarrow> ResolverConfig \<Rightarrow> resolve_args \<Rightarrow> kafka_call list \<Rightarrow> bool" where
  "resolution_calls pl cd cfg a es \<longleftrightarrow> only_reads es \<or>
     (\<exists>seen raw e rest. es = OffsetRead seen # rest \<and> (seen = None \<or> seen = Some (sl_offset (rs_selection a))) \<and>
        parse_dlq_envelope pl cd (sl_source_topic (rs_selection a)) (rc_max_record_bytes cfg) raw = Ok e \<and>
        (replayed_calls pl cd a e rest \<or> disposed_calls a rest))"

lemma commit_action_calls:
  assumes "commit_action kc a f outcome ev w = (w', ev', err)" and "fetched_record (rs_selection a) (fr_record f)"
  shows "\<exists>es. rw_calls w' = rw_calls w @ es \<and> commit_calls (rs_selection a) (rs_operation_id a) es"
proof -
  obtain w1 r where "commit_exact kc (rs_selection a) (rs_operation_id a) f w = (w1, r)" by fastforce
  with commit_exact_calls [OF this assms(2)] assms(1) show ?thesis by (cases r) (auto simp: commit_action_def)
qed

lemma act_replay_calls:
  assumes "act_replay cd kc a f e (validate_replay_payload pl cd e (sl_dlq_topic (rs_selection a))) ev w = (w', ev', err)"
    and "fetched_record (rs_selection a) (fr_record f)" and "rs_action a = ''replay''"
  shows "\<exists>es. rw_calls w' = rw_calls w @ es \<and> (es = [] \<or> require_resolution_order f = Ok () \<and> replayed_calls pl cd a e es)"
proof (cases "ebind (require_resolution_order f) (\<lambda>_. validate_replay_payload pl cd e (sl_dlq_topic (rs_selection a)))")
  case (Inl err)
  then show ?thesis using assms(1) by (simp add: act_replay_def)
next
  case (Inr m)
  then have order: "require_resolution_order f = Ok ()" and valid: "validate_replay_payload pl cd e (sl_dlq_topic (rs_selection a)) = Ok m"
    by (auto simp: ebind_eq_Ok)
  let ?headers = "recovery_headers cd (rs_selection a) e (rs_operation_id a)"
  obtain k r where sent: "kc_send kc (de_source_topic e) (de_message_key e) (de_message e) ?headers (rw_kafka w) = (k, r)" by fastforce
  define w1 where "w1 = w\<lparr>rw_kafka := k, rw_calls := rw_calls w @
    [Replayed (de_source_topic e) (de_message_key e) (de_message e) ?headers (\<not> isl r)]\<rparr>"
  have w1: "rw_calls w1 = rw_calls w @ [Replayed (de_source_topic e) (de_message_key e) (de_message e) ?headers (\<not> isl r)]"
    by (simp add: w1_def)
  show ?thesis
  proof (cases "rs_confirm a = replay_confirmation a")
    case False
    then show ?thesis using assms(1) Inr by (simp add: act_replay_def)
  next
    case True
    have shape: ?thesis if "rw_calls w' = rw_calls w1 @ rest"
      and "rest = [] \<or> rs_commit a \<and> \<not> isl r \<and> commit_calls (rs_selection a) (rs_operation_id a) rest" for rest
      using that w1 True order valid assms(3) by (auto simp: replayed_calls_def)
    show ?thesis
    proof (cases "\<exists>ack. r = Inr ack \<and> ra_topic ack = de_source_topic e \<and> rs_commit a")
      case True
      then obtain ack where ack: "r = Inr ack" "ra_topic ack = de_source_topic e" "rs_commit a" by blast
      have "commit_action kc a f ''replayed_and_committed'' (ev\<lparr>ev_replay := Some (ack, map fst ?headers), ev_commit_attempted := True\<rparr>) w1 = (w', ev', err)"
        using assms(1) Inr \<open>rs_confirm a = replay_confirmation a\<close> sent ack by (simp add: act_replay_def Let_def w1_def)
      from commit_action_calls [OF this assms(2)] show ?thesis using ack shape by auto
    next
      case False
      then have "w' = w1" using assms(1) Inr \<open>rs_confirm a = replay_confirmation a\<close> sent
        by (cases r) (auto simp: act_replay_def Let_def w1_def split: if_splits)
      then show ?thesis using shape [of "[]"] by simp
    qed
  qed
qed

lemma act_disposition_calls:
  assumes "act_disposition kc a f ev w = (w', ev', err)" and "fetched_record (rs_selection a) (fr_record f)" and "rs_action a = ''disposition''"
  shows "\<exists>es. rw_calls w' = rw_calls w @ es \<and> (es = [] \<or> require_resolution_order f = Ok () \<and> disposed_calls a es)"
proof (cases "require_resolution_order f = Ok () \<and> rs_commit a \<and> IDENTIFIER_PATTERN (rs_reason a) \<and> IDENTIFIER_PATTERN (rs_approver a) \<and>
    rs_confirm a = disposition_confirmation a")
  case True
  then have "commit_action kc a f ''disposition_committed'' (ev\<lparr>ev_disposition := Some (rs_reason a, rs_approver a)\<rparr>) w = (w', ev', err)"
    using assms(1) by (simp add: act_disposition_def)
  from commit_action_calls [OF this assms(2)] show ?thesis using True assms(3) by (auto simp: disposed_calls_def)
next
  case False
  then have "w' = w" using assms(1) by (auto simp: act_disposition_def split: sum.splits if_splits)
  then show ?thesis by simp
qed

lemma run_action_calls:
  assumes "run_action cd kc a f e (validate_replay_payload pl cd e (sl_dlq_topic (rs_selection a))) ev w = (w', ev', err)"
    and "fetched_record (rs_selection a) (fr_record f)" and "rs_action a \<in> {''inspect'', ''dry-run'', ''replay'', ''disposition''}"
  shows "\<exists>es. rw_calls w' = rw_calls w @ es \<and>
    (es = [] \<or> require_resolution_order f = Ok () \<and> (replayed_calls pl cd a e es \<or> disposed_calls a es))"
proof -
  consider "rs_action a = ''inspect''" | "rs_action a = ''dry-run''" | "rs_action a = ''replay''" | "rs_action a = ''disposition''"
    using assms(3) by blast
  then show ?thesis
  proof cases
    case 1
    then show ?thesis using assms(1) by (auto simp: run_action_def act_inspect_def split: if_splits)
  next
    case 2
    then show ?thesis using assms(1) by (auto simp: run_action_def act_dry_run_def split: if_splits sum.splits)
  next
    case 3
    then show ?thesis using assms(1) act_replay_calls [OF _ assms(2) 3] by (simp add: run_action_def) blast
  next
    case 4
    then show ?thesis using assms(1) act_disposition_calls [OF _ assms(2) 4] by (simp add: run_action_def) blast
  qed
qed

lemma dlq_resolve_stages:
  assumes "fetch_exact kc (rs_selection a) w = (w1, r1)"
  obtains "fst (dlq_resolve pl cd kc cfg clock a w) = w"
  | "fst (dlq_resolve pl cd kc cfg clock a w) = w1"
  | f env ev0 ev err where "r1 = Ok f" "rs_action a \<in> {''inspect'', ''dry-run'', ''replay'', ''disposition''}"
      "parse_dlq_envelope pl cd (sl_source_topic (rs_selection a)) (rc_max_record_bytes cfg) (dr_value (fr_record f)) = Ok env"
      "run_action cd kc a f env (validate_replay_payload pl cd env (sl_dlq_topic (rs_selection a))) ev0 w1 =
        (fst (dlq_resolve pl cd kc cfg clock a w), ev, err)"
proof (cases "rs_action a \<in> {''inspect'', ''dry-run'', ''replay'', ''disposition''} \<and> validate_selection (rs_selection a) = Ok () \<and>
    IDENTIFIER_PATTERN (rs_operation_id a)")
  case False
  then have "fst (dlq_resolve pl cd kc cfg clock a w) = w" by (auto simp: dlq_resolve_def Let_def split: sum.splits)
  then show thesis using that(1) by blast
next
  case guards: True
  show thesis
  proof (cases "\<exists>f env. r1 = Ok f \<and>
      parse_dlq_envelope pl cd (sl_source_topic (rs_selection a)) (rc_max_record_bytes cfg) (dr_value (fr_record f)) = Ok env \<and>
      validate_replay_payload pl cd env (sl_dlq_topic (rs_selection a)) \<noteq> Raise UnexpectedResolverFailure")
    case True
    then obtain f env where ok: "r1 = Ok f" "parse_dlq_envelope pl cd (sl_source_topic (rs_selection a)) (rc_max_record_bytes cfg) (dr_value (fr_record f)) = Ok env"
      "validate_replay_payload pl cd env (sl_dlq_topic (rs_selection a)) \<noteq> Raise UnexpectedResolverFailure" by blast
    let ?v = "validate_replay_payload pl cd env (sl_dlq_topic (rs_selection a))"
    obtain w2 ev err where acted: "run_action cd kc a f env ?v (first_evidence pl cfg a (fst clock) f env ?v) w1 = (w2, ev, err)"
      by (metis prod_cases3)
    have "fst (dlq_resolve pl cd kc cfg clock a w) = w2"
      using guards assms ok acted by (auto simp: dlq_resolve_def split: option.splits)
    then show thesis using that(3) [OF ok(1) _ ok(2)] guards acted by blast
  next
    case False
    then have "fst (dlq_resolve pl cd kc cfg clock a w) = w1"
      using guards assms by (auto simp: dlq_resolve_def Let_def split: sum.splits)
    then show thesis using that(2) by blast
  qed
qed


section \<open>From the worker to the operator\<close>

text \<open>The wrapper that the worker publishes (\<open>publish_to_dlq\<close> and \<open>_encode_dlq_key\<close> of \<open>consumer.py\<close>).\<close>

definition dlq_wrapper :: "(string \<Rightarrow> string) \<Rightarrow> (worker_error option \<Rightarrow> string) \<Rightarrow> (worker_error option \<Rightarrow> string) \<Rightarrow> DlqMessage \<Rightarrow> document" where
  "dlq_wrapper b64encode error_name error_text m =
     [(''source_topic'', JStr (dq_source_topic m)), (''error'', JStr (error_name (dq_error m))),
      (''error_message'', JStr (error_text (dq_error m))), (''message'', dq_message m),
      (''source_partition'', JInt (int (dq_partition m))), (''source_offset'', JInt (int (dq_offset m)))] @
     (case dq_key m of None \<Rightarrow> []
      | Some k \<Rightarrow> [(''message_key'', JStr (b64encode k)), (''message_key_encoding'', JStr ''base64'')])"

definition topic_named :: "string \<Rightarrow> string \<Rightarrow> string" where
  "topic_named prefix name = prefix @ ''_'' @ name"

lemma dlq_wrapper_fields:
  fixes m enc en et
  defines "w \<equiv> dlq_wrapper enc en et m"
  shows "jget w ''source_topic'' = JStr (dq_source_topic m)" "jget w ''error'' = JStr (en (dq_error m))"
    "jget w ''error_message'' = JStr (et (dq_error m))" "jget w ''message'' = dq_message m"
    "jget w ''source_partition'' = JInt (int (dq_partition m))" "jget w ''source_offset'' = JInt (int (dq_offset m))"
    "jget w ''message_key'' = (case dq_key m of None \<Rightarrow> JNull | Some k \<Rightarrow> JStr (enc k))"
    "jget w ''message_key_encoding'' = (case dq_key m of None \<Rightarrow> JNull | Some k \<Rightarrow> JStr ''base64'')"
    "set WRAPPER_REQUIRED \<subseteq> set (dkeys w)" "set (dkeys w) \<subseteq> set WRAPPER_REQUIRED \<union> {''message_key'', ''message_key_encoding''}"
    "distinct (dkeys w)" "keys_unique (JObj w) = keys_unique (dq_message m)"
  unfolding w_def dlq_wrapper_def by (auto simp: jget_def WRAPPER_REQUIRED_def split: option.splits)

text \<open>A wrapper with a bounded error and a usable key is read back, whatever its message.\<close>

lemma wrapper_parsed:
  assumes "cd_loads cd raw = Some (JObj (dlq_wrapper enc en et m))" and "raw \<noteq> []" and "int (length raw) \<le> max_bytes"
    and "TOPIC_PATTERN (dq_source_topic m)" and "IDENTIFIER_PATTERN (en (dq_error m))"
    and "int (length (cd_utf8 cd (et (dq_error m)))) \<le> MAX_ERROR_MESSAGE_BYTES"
    and "keys_unique (dq_message m)" and "finite_json (dq_message m)"
    and "\<And>k. dq_key m = Some k \<Longrightarrow> cd_b64decode cd (enc k) = Some k \<and> k \<noteq> [] \<and> length k \<le> 2048"
  shows "\<exists>e. parse_dlq_envelope pl cd (dq_source_topic m) max_bytes (Some raw) = Ok e \<and> de_source_topic e = dq_source_topic m \<and>
    de_message e = dq_message m \<and> de_message_key e = dq_key m \<and> de_source_offset e = int (dq_offset m)"
proof -
  have "parse_message_key cd (jget (dlq_wrapper enc en et m) ''message_key'') (jget (dlq_wrapper enc en et m) ''message_key_encoding'') = Ok (dq_key m)"
    using assms(9) by (cases "dq_key m") (simp_all add: dlq_wrapper_fields parse_message_key_def)
  then show ?thesis
    using assms(1-8) dlq_wrapper_fields(9,10,12) [of enc en et m]
    by (simp add: parse_dlq_envelope_def strict_object_def dlq_wrapper_fields(1-6,12) strict_nonnegative_def)
qed

lemma ends_with_append: "ends_with (x @ y) y \<and> take (length (x @ y) - length y) (x @ y) = x"
  by (simp add: ends_with_def)

lemma built_payload_replayable:
  assumes "publishable rd d" and "EVENT_ID_PATTERN eid" and "1 \<le> n"
    and "\<And>src. dr_document d = Some src \<Longrightarrow> jget src ''id'' = JStr (dr_document_id d)"
    and "de_message e = JObj (build_event_payload pl d eid n now)"
    and "de_message_key e = Some (cd_utf8 cd (logical_key (dr_tenant_id d) (dr_collection d) (dr_document_id d)))"
    and "de_source_topic e = topic_named prefix (dr_collection d)"
  shows "\<exists>m. validate_replay_payload pl cd e (topic_named prefix ''dlq'') = Ok m \<and> rm_sequence m = n \<and> rm_operation m = dr_operation d \<and>
    rm_target_count m = length (dr_target_clusters d)"
proof -
  let ?p = "build_event_payload pl d eid n now" and ?i = "draft_identity d"
  note pub = assms(1) [unfolded publishable_def]
  have wf: "dr_tenant_id d \<noteq> []" "length (dr_tenant_id d) \<le> 256" "\<forall>c \<in> set (dr_tenant_id d). is_printable c"
    "NAME_PATTERN (dr_collection d)" "DOCUMENT_ID_PATTERN (dr_document_id d)" "strip (dr_tenant_id d) = dr_tenant_id d"
    using pub by (auto simp: identity_wellformed_def draft_identity_def)
  then have "tenant_ok (dr_tenant_id d)" using separator_not_printable by (auto simp: tenant_ok_def list_all_iff)
  then have identity: "replay_identity (jget ?p ''identity'') = Ok ?i"
    unfolding built_fields using wf by (simp add: replay_identity_def jget_def draft_identity_def)
  have "those (map (\<lambda>t. case t of JStr s \<Rightarrow> if NAME_PATTERN s then Some s else None | _ \<Rightarrow> None) (map JStr ts)) = Some ts"
    if "\<forall>t \<in> set ts. NAME_PATTERN t" for ts using that by (induction ts) auto
  then have targets: "replay_targets (jget ?p ''target_clusters'') = Ok (dr_target_clusters d)"
    using pub by (simp add: built_fields replay_targets_def)
  have content: "replay_operation (jget ?p ''operation'') = Ok (dr_operation d) \<and>
      replay_content ?p (dr_operation d) (id_document_id ?i) = Ok ()"
    using pub assms(4) by (cases "dr_document d")
      (auto simp: content_publishable_def built_fields replay_operation_def replay_content_def draft_identity_def opt_json_def)
  have addressed: "replay_addressed cd e (topic_named prefix ''dlq'') ?i = Ok ()"
    using assms(6,7) ends_with_append [of prefix "''_'' @ dr_collection d"]
    by (simp add: replay_addressed_def topic_named_def identity_key_def draft_identity_def)
  show ?thesis
    using assms(2,3,5) identity targets content addressed pub
    by (simp add: validate_replay_payload_def built_fields(2-5,7) version_two_def replay_positive_def)
qed


section \<open>A dead letter of the sample event\<close>

definition parked_message :: DlqMessage where
  "parked_message = \<lparr>dq_source_topic = ''ing_books'', dq_error = Some TypesenseFailed,
     dq_message = JObj (build_event_payload stamp_platform plain_draft ''evt:0001'' 3 9),
     dq_key = Some (logical_key ''acme'' ''books'' ''b1''), dq_partition = 0, dq_offset = 7\<rparr>"

definition parked_wrapper :: document where
  "parked_wrapper = dlq_wrapper id (\<lambda>_. ''TypesenseError'') (\<lambda>_. ''refused'') parked_message"

definition parked_codec :: codec where
  "parked_codec = \<lparr>cd_utf8 = id, cd_loads = (\<lambda>_. Some (JObj parked_wrapper)), cd_b64decode = Some\<rparr>"


section \<open>Where a resolution cannot end\<close>

text \<open>
  A partition on which the group never committed: its first record is the next unresolved one, but the offset read before
  the commit is absent, which is not the offset of the record.
\<close>

lemma first_commit_refused:
  assumes "\<And>k. snd (kc_committed kc (sl_dlq_topic s) (sl_partition s) k) = Ok None"
  shows "\<exists>w'. commit_exact kc s operation_id f w = (w', Raise (ResolverError ''concurrent_offset_change'')) \<and>
    rw_calls w' = rw_calls w @ [OffsetRead None]"
proof -
  obtain k where "kc_committed kc (sl_dlq_topic s) (sl_partition s) (rw_kafka w) = (k, Ok None)"
    using assms by (metis prod.collapse)
  then show ?thesis by (simp add: commit_exact_def read_committed_def rbind_def rcall_def rpure_def)
qed

text \<open>A small broker: the committed offset of the group and the number of replays.\<close>

definition toy_kafka :: "(int option \<times> int) kafka_client" where
  "toy_kafka = \<lparr>kc_consumer = (\<lambda>k. (k, Ok ())), kc_partitions_for_topic = (\<lambda>_ k. (k, Ok (Some [0]))),
     kc_beginning_offset = (\<lambda>_ _ k. (k, Ok 4)), kc_end_offset = (\<lambda>_ _ k. (k, Ok 6)), kc_committed = (\<lambda>_ _ k. (k, Ok (fst k))),
     kc_poll = (\<lambda>t p n k. (k, Ok [\<lparr>dr_topic = t, dr_partition = p, dr_offset = n, dr_value = Some ''raw'', dr_key = None\<rparr>])),
     kc_commit = (\<lambda>_ _ n _ k. ((Some n, snd k), Ok ())),
     kc_send = (\<lambda>t _ _ _ k. ((fst k, snd k + 1), Ok \<lparr>ra_topic = t, ra_partition = 0, ra_offset = 9\<rparr>))\<rparr>"

definition toy_args :: resolve_args where
  "toy_args = \<lparr>rs_action = ''replay'', rs_selection = \<lparr>sl_dlq_topic = ''ing_dlq'', sl_partition = 0, sl_offset = 4, sl_source_topic = ''ing_books''\<rparr>,
     rs_operation_id = ''dlq-1'', rs_commit = True, rs_confirm = ''REPLAY-AND-COMMIT:ing_dlq:0:4'', rs_reason = [], rs_approver = []\<rparr>"

definition toy_config :: ResolverConfig where
  "toy_config = \<lparr>rc_bootstrap_servers = [''k:9092''], rc_security_protocol = ''SSL'', rc_sasl = None, rc_tls = Some (''ca'', None),
     rc_client_id = ''c'', rc_timeout_ms = 30000, rc_max_record_bytes = 1024\<rparr>"

definition toy_resolve :: "int option \<times> int \<Rightarrow> (int option \<times> int) resolver_world \<times> (resolver_error \<times> resolution_evidence option + resolution_evidence)" where
  "toy_resolve k = dlq_resolve stamp_platform parked_codec toy_kafka toy_config (''t0'', ''t1'') toy_args \<lparr>rw_kafka = k, rw_calls = []\<rparr>"

lemma char_of_small: "char_of (48 :: nat) = CHR ''0''" "char_of (52 :: nat) = CHR ''4''"
  by code_simp+

lemma toy_guards: "validate_selection (rs_selection toy_args) = Ok ()" "IDENTIFIER_PATTERN (rs_operation_id toy_args)"
  "replay_confirmation toy_args = rs_confirm toy_args"
  by (simp_all add: validate_selection_def toy_args_def TOPIC_PATTERN_def IDENTIFIER_PATTERN_def char_class_defs replay_confirmation_def
      selection_token_def int_str_def nat_str.simps char_of_small)

lemma parked_envelope:
  obtains e v where "parse_dlq_envelope stamp_platform parked_codec ''ing_books'' 1024 (Some ''raw'') = Ok e"
    "validate_replay_payload stamp_platform parked_codec e ''ing_dlq'' = Ok v" "de_source_topic e = ''ing_books''"
proof -
  let ?p = "build_event_payload stamp_platform plain_draft ''evt:0001'' 3 9"
  have "dq_message parked_message = JObj ?p" "dq_source_topic parked_message = ''ing_books''" "dq_error parked_message = Some TypesenseFailed"
    "dq_key parked_message = Some (cd_utf8 parked_codec (logical_key ''acme'' ''books'' ''b1''))"
    by (simp_all add: parked_message_def parked_codec_def)
  note m = this
  have "\<exists>e. parse_dlq_envelope stamp_platform parked_codec (dq_source_topic parked_message) 1024 (Some ''raw'') = Ok e \<and>
    de_source_topic e = dq_source_topic parked_message \<and> de_message e = dq_message parked_message \<and>
    de_message_key e = dq_key parked_message \<and> de_source_offset e = int (dq_offset parked_message)"
    by (rule wrapper_parsed [where enc = id and en = "\<lambda>_. ''TypesenseError''" and et = "\<lambda>_. ''refused''"])
      (simp_all add: parked_codec_def parked_wrapper_def, simp_all add: parked_message_def TOPIC_PATTERN_def IDENTIFIER_PATTERN_def
        char_class_defs MAX_ERROR_MESSAGE_BYTES_def build_event_payload_def plain_draft_def opt_json_def logical_key_def, blast?)
  then obtain e where e: "parse_dlq_envelope stamp_platform parked_codec ''ing_books'' 1024 (Some ''raw'') = Ok e"
    "de_source_topic e = ''ing_books''" "de_message e = JObj ?p"
    "de_message_key e = Some (cd_utf8 parked_codec (logical_key (dr_tenant_id plain_draft) (dr_collection plain_draft) (dr_document_id plain_draft)))"
    using m by (auto simp: plain_draft_def)
  have "\<exists>v. validate_replay_payload stamp_platform parked_codec e (topic_named ''ing'' ''dlq'') = Ok v \<and> rm_sequence v = 3 \<and>
    rm_operation v = dr_operation plain_draft \<and> rm_target_count v = length (dr_target_clusters plain_draft)"
    by (rule built_payload_replayable [OF plain_publishable plain_event_id _ _ e(3,4)])
      (auto simp: plain_draft_def jget_def e(2) topic_named_def)
  then show thesis using that e by (auto simp: topic_named_def)
qed

text \<open>
  Replay and commit of the first record of the partition, twice: two replays, no commit. Once any offset was committed, the same command ends.
\<close>

lemma first_record_never_resolved:
  "\<exists>w ev. toy_resolve (None, n) = (w, Raise (ResolverError ''concurrent_offset_change'', Some ev)) \<and> rw_kafka w = (None, n + 1)"
  "\<exists>w ev. toy_resolve (Some 4, n) = (w, Ok ev) \<and> rw_kafka w = (Some 5, n + 1) \<and> ev_commit_offset ev = Some 5"
proof -
  obtain e v where e: "parse_dlq_envelope stamp_platform parked_codec ''ing_books'' 1024 (Some ''raw'') = Ok e"
    "validate_replay_payload stamp_platform parked_codec e ''ing_dlq'' = Ok v" "de_source_topic e = ''ing_books''"
    by (rule parked_envelope)
  have fetch: "fetch_exact toy_kafka (rs_selection toy_args) \<lparr>rw_kafka = (c, n), rw_calls = []\<rparr> =
      (\<lparr>rw_kafka = (c, n), rw_calls = [OffsetRead c]\<rparr>, Ok \<lparr>fr_record = \<lparr>dr_topic = ''ing_dlq'', dr_partition = 0, dr_offset = 4, dr_value = Some ''raw'', dr_key = None\<rparr>,
        fr_beginning_offset = 4, fr_end_offset = 6, fr_committed_offset = c\<rparr>)" for c
    by (simp add: fetch_exact_def locate_partition_def read_committed_def poll_record_def rbind_def rcall_def rpure_def toy_kafka_def toy_args_def Let_def)
  have args: "rs_action toy_args = ''replay''" "rs_commit toy_args" "sl_dlq_topic (rs_selection toy_args) = ''ing_dlq''"
    "sl_source_topic (rs_selection toy_args) = ''ing_books''" "sl_offset (rs_selection toy_args) = 4" "rc_max_record_bytes toy_config = 1024"
    by (simp_all add: toy_args_def toy_config_def)
  have kafka: "kc_send toy_kafka t key v h k = ((fst k, snd k + 1), Ok \<lparr>ra_topic = t, ra_partition = 0, ra_offset = 9\<rparr>)"
    "kc_committed toy_kafka t i k = (k, Ok (fst k))" "kc_commit toy_kafka t i m d k = ((Some m, snd k), Ok ())" for t key v h k i m d
    by (simp_all add: toy_kafka_def)
  note run = toy_resolve_def dlq_resolve_def Let_def fetch toy_guards e run_action_def act_replay_def require_resolution_order_def
    expected_next_offset_def commit_action_def commit_exact_def read_committed_def send_commit_def rbind_def rcall_def rpure_def args kafka
  show "\<exists>w ev. toy_resolve (None, n) = (w, Raise (ResolverError ''concurrent_offset_change'', Some ev)) \<and> rw_kafka w = (None, n + 1)"
    by (simp add: run)
  show "\<exists>w ev. toy_resolve (Some 4, n) = (w, Ok ev) \<and> rw_kafka w = (Some 5, n + 1) \<and> ev_commit_offset ev = Some 5"
    by (simp add: run)
qed

text \<open>
  The worker does not bound the text of the error it parks. A longer one than the resolver reads makes the record unreadable for every
  action, a disposition included, and the records behind it wait for it.
\<close>

lemma long_error_unresolvable:
  assumes "cd_loads cd raw = Some (JObj (dlq_wrapper enc en et m))" and "MAX_ERROR_MESSAGE_BYTES < int (length (cd_utf8 cd (et (dq_error m))))"
  shows "\<exists>code. parse_dlq_envelope pl cd expected max_bytes (Some raw) = Raise (ResolverError code)"
  using assms dlq_wrapper_fields(9,10) [of enc en et m]
  by (simp add: parse_dlq_envelope_def strict_object_def dlq_wrapper_fields(1-6) strict_nonnegative_def)

section \<open>The evidence of a run\<close>

text \<open>An existing evidence file is never written to, and Kafka is not called before the file is reserved.\<close>

lemma evidence_never_overwritten:
  assumes "ep_content p = Some c"
  shows "resolver_main pl cd kc io clock a (w, p) = ((w, p), 2)"
  using assms by (auto simp: resolver_main_def reserve_evidence_def split: sum.splits)

lemma finalize_keeps: "ep_content p \<noteq> None \<Longrightarrow> ep_content (fst (finalize_evidence b c p)) \<noteq> None"
  by (simp add: finalize_evidence_def)

lemma evidence_reserved_first:
  assumes "resolver_main pl cd kc io clock a (w, p) = ((w', p'), code)" and "w' \<noteq> w"
  shows "ep_content p = None \<and> ep_content p' \<noteq> None"
  using assms
  by (auto simp: resolver_main_def reserve_evidence_def finalize_evidence_def split: sum.splits option.splits if_splits prod.splits reserve_outcome.splits)

text \<open>
  Where the evidence of a successful run cannot be written and the second attempt can, the file says that the run
  failed and nothing of the commit that was performed.
\<close>

lemma commit_unrecorded:
  assumes "validate_selection (rs_selection a) = Ok ()" and "reserve_evidence (ri_reserve io) (rs_operation_id a) p = (p1, Ok ())"
    and "resolver_run pl cd kc io clock a w = (w1, Ok ev)" and "\<not> ri_finalize io" and "ri_finalize_failure io"
  shows "\<exists>p'. resolver_main pl cd kc io clock a (w, p) = ((w1, p'), 2) \<and>
    ep_content p' = Some (FailedEvidence (rs_operation_id a) (ResolverError ''evidence_write_failed'') None)"
  using assms by (simp add: resolver_main_def finalize_evidence_def)

text \<open>Kafka without encryption is used only where the operator approved it.\<close>

lemma plaintext_approved:
  assumes "config_from_env py_int readable env = Ok cfg" and "rc_security_protocol cfg \<in> {''PLAINTEXT'', ''SASL_PLAINTEXT''}"
  shows "strict_bool_env env ''DLQ_RESOLVER_ALLOW_INSECURE_KAFKA'' False = Ok True"
  using assms by (auto simp: config_from_env_def Let_def ebind_eq_Ok split: if_splits)

end
