(* ===== verification/AdminSystem.thy ===== *)
theory AdminSystem
  imports StateSnapshot AdminRollouts
begin

text \<open>
  The replicas of the query API on one PostgreSQL control plane: how \<open>main.py\<close> starts a replica, and every
  administrative request, reload and outbox round as a step of the whole system. A handler is one step; what other
  replicas do while it waits is caught by the compare-and-set of its commit.
\<close>

section \<open>Starting a replica\<close>

record default_cluster =
  dc_nodes :: string
  dc_api_key :: string
  dc_protocol :: string
  dc_api_key_ref :: string

record startup_env =
  su_replica :: replica_env
  su_allow_inline :: bool
  su_first :: default_cluster
  su_second :: default_cluster
  su_call :: call_env

datatype startup_error = StateNotLoaded manager_error | ClusterRefused federation_error | StateNotSaved

definition add_default_cluster :: "startup_env \<Rightarrow> string \<Rightarrow> default_cluster \<Rightarrow> FederationRuntime \<Rightarrow> federation_error + FederationRuntime" where
  "add_default_cluster su name c rt =
     ebind (create_client_config (re_repr (su_replica su)) name (dc_nodes c) (Some (dc_api_key c)) (JStr (dc_protocol c))
       (Some (dc_api_key_ref c)) (su_allow_inline su)) (\<lambda>config.
     ebind (re_build (su_replica su) config) (\<lambda>_.
       Ok (rt\<lparr>clusters_config := dput name config (clusters_config rt),
             clients := (if name \<in> set (clients rt) then clients rt else clients rt @ [name])\<rparr>)))"

definition bootstrap_runtime :: "startup_env \<Rightarrow> federation_error + FederationRuntime" where
  "bootstrap_runtime su =
     ebind (add_default_cluster su ''default-data-cluster'' (su_first su) empty_runtime) (\<lambda>rt.
       if dc_nodes (su_second su) = [] then Ok rt else add_default_cluster su ''default-data-cluster-2'' (su_second su) rt)"

definition bootstrap_request :: save_request where
  "bootstrap_request = \<lparr>sr_audit = None, sr_event_type = ''control_plane.changed'', sr_event_payload = [], sr_expected = None\<rparr>"

definition bootstrap_replica :: "'s store_api \<Rightarrow> startup_env \<Rightarrow> 's \<Rightarrow> StateManager \<Rightarrow> 's \<times> (startup_error + Replica)" where
  "bootstrap_replica api su s mgr =
     (case bootstrap_runtime su of
        Raise e \<Rightarrow> (s, Raise (ClusterRefused e))
      | Ok rt \<Rightarrow>
          (case save_state api (re_check (su_replica su)) s mgr (su_call su) (desired_state rt) (Some (routing_rollouts rt)) bootstrap_request of
             (s', mgr', Raise e) \<Rightarrow> (s', Raise (StateNotLoaded e))
           | (s', mgr', Ok False) \<Rightarrow> (s', Raise StateNotSaved)
           | (s', mgr', Ok True) \<Rightarrow>
               (case mark_applied_revision rt (sm_current_revision mgr') of
                  Raise e \<Rightarrow> (s', Raise (ClusterRefused e))
                | Ok rt' \<Rightarrow> (s', Ok \<lparr>rp_manager = mgr', rp_federation = rt'\<rparr>))))"

definition start_replica :: "'s store_api \<Rightarrow> startup_env \<Rightarrow> 's \<Rightarrow> 's \<times> (startup_error + Replica)" where
  "start_replica api su s =
     (case load_state api (re_check (su_replica su)) s (new_state_manager api s) of
        (mgr, Raise e) \<Rightarrow> (s, Raise (StateNotLoaded e))
      | (mgr, Ok None) \<Rightarrow> bootstrap_replica api su s mgr
      | (mgr, Ok (Some ds)) \<Rightarrow>
          (case reload_federation (su_replica su) empty_runtime ds mgr of
             Raise e \<Rightarrow> (s, Raise (ClusterRefused e))
           | Ok rt \<Rightarrow> (s, Ok \<lparr>rp_manager = mgr, rp_federation = rt\<rparr>)))"

section \<open>Administrative requests\<close>

datatype admin_call =
    RegisterCluster Cluster
  | DeleteCluster string
  | ReconcileClusters bool
  | CreateCollection CollectionSchema
  | DeleteCollection string
  | UpsertAlias string string string
  | DeleteAlias string string
  | SetRoutingRules RoutingRules
  | DeleteRoutingRule string
  | ExportState bool bool
  | ImportState readers StateSnapshot bool
  | CreateRollout RoutingRules int
  | TransitionRollout string transition_request
  | BackfillRollout string int nat
  | VerifyRollout string int nat

definition reply_only :: "('s, 'w) rollout_admin \<times> (http_error + 'r) \<Rightarrow> ('s, 'w) rollout_admin \<times> (http_error + unit)" where
  "reply_only m = (fst m, case snd m of Raise e \<Rightarrow> Raise e | Ok _ \<Rightarrow> Ok ())"

text \<open>\<open>handle env call\<close> runs the handler of the call on one replica.\<close>

fun handle_admin :: "'s store_api \<Rightarrow> ('w, 'p) rollout_env \<Rightarrow> admin_request \<Rightarrow> admin_call \<Rightarrow> ('s, 'w) rollout_admin
    \<Rightarrow> ('s, 'w) rollout_admin \<times> (http_error + unit)" where
  "handle_admin api env rq (RegisterCluster c) st = reply_only (lift_admin st (register_cluster_handler api (rv_admin env) rq c (ra_admin st)))"
| "handle_admin api env rq (DeleteCluster n) st = reply_only (lift_admin st (delete_cluster_handler api (rv_admin env) rq n (ra_admin st)))"
| "handle_admin api env rq (ReconcileClusters b) st = reply_only (lift_admin st (reconcile_handler api (rv_admin env) b rq (ra_admin st)))"
| "handle_admin api env rq (CreateCollection s) st = reply_only (lift_admin st (create_collection api (rv_admin env) rq s (ra_admin st)))"
| "handle_admin api env rq (DeleteCollection c) st = reply_only (lift_admin st (delete_collection api (rv_admin env) rq c (ra_admin st)))"
| "handle_admin api env rq (UpsertAlias a c n) st = reply_only (lift_admin st (upsert_alias api (rv_admin env) rq a c n (ra_admin st)))"
| "handle_admin api env rq (DeleteAlias a n) st = reply_only (lift_admin st (delete_alias api (rv_admin env) rq a n (ra_admin st)))"
| "handle_admin api env rq (SetRoutingRules p) st = reply_only (lift_admin st (set_routing_rules_handler api (rv_admin env) rq p (ra_admin st)))"
| "handle_admin api env rq (DeleteRoutingRule c) st = reply_only (lift_admin st (delete_routing_rule api (rv_admin env) rq c (ra_admin st)))"
| "handle_admin api env rq (ExportState audited secrets) st =
     reply_only (lift_admin st (export_control_plane_state api (rv_admin env) audited rq secrets (ra_admin st)))"
| "handle_admin api env rq (ImportState rd snap b) st =
     reply_only (lift_admin st (import_control_plane_state api (rv_fromisoformat env) rd (rv_admin env) rq snap b (ra_admin st)))"
| "handle_admin api env rq (CreateRollout p n) st = reply_only (create_routing_rollout api env rq p n st)"
| "handle_admin api env rq (TransitionRollout rid tr) st = reply_only (transition_routing_rollout api env rq rid tr st)"
| "handle_admin api env rq (BackfillRollout rid v n) st = reply_only (run_routing_backfill_step api env rq rid v n st)"
| "handle_admin api env rq (VerifyRollout rid v n) st = reply_only (verify_routing_rollout_parity api env rq rid v n st)"

section \<open>The effect of every request\<close>

definition rollout_effectful :: "'s store_api \<Rightarrow> ('w, 'p) rollout_env \<Rightarrow> ('s, 'w) rollout_admin \<Rightarrow> ('s, 'w) rollout_admin \<times> (http_error + 'r) \<Rightarrow> bool" where
  "rollout_effectful api env st m \<longleftrightarrow> effectful api (rv_admin env) (ra_admin st) (ra_admin (fst m), snd m)"

lemma rollout_stay:
  "ad_store (ra_admin st') = ad_store (ra_admin st) \<Longrightarrow> ad_replica (ra_admin st') = ad_replica (ra_admin st) \<Longrightarrow>
     rollout_effectful api env st (st', r)"
  by (auto simp: rollout_effectful_def effectful_def intro: Kept)

lemma rollout_reply: "rollout_effectful api env st m \<Longrightarrow> rollout_effectful api env st (reply_only m)"
  by (cases m) (auto simp: rollout_effectful_def effectful_def reply_only_def detached_def split: sum.splits)

lemma rollout_lift: "effectful api (rv_admin env) (ra_admin st) m \<Longrightarrow> rollout_effectful api env st (lift_admin st m)"
  by (cases m) (simp add: rollout_effectful_def lift_admin_def)

lemma rollout_sbind:
  assumes "rollout_effectful api env st m" and "\<And>x st1. m = (st1, Ok x) \<Longrightarrow> rollout_effectful api env st1 (k x st1)"
  shows "rollout_effectful api env st (sbind m k)"
proof (cases m)
  case (Pair st1 r)
  show ?thesis
  proof (cases r)
    case (Inl e)
    then show ?thesis using assms(1) Pair by (simp add: rollout_effectful_def effectful_def)
  next
    case (Inr x)
    then show ?thesis using assms(1) assms(2) [of st1 x] Pair
      by (auto simp: rollout_effectful_def effectful_def intro: InSequence)
  qed
qed

lemma effectful_rollout_commit:
  assumes "expected = sm_current_revision (ad_manager st)" and "rt_revision changed = rt_revision (ad_federation st)" and "routing_rollouts changed \<noteq> []"
  shows "effectful api env st (commit_change api env rq i st changed ch expected t)"
  using commit_change_effect [of api env rq i st changed ch expected t] assms
  by (cases "commit_change api env rq i st changed ch expected t") (auto simp: effectful_def)

lemma with_rollout_keeps: "rt_revision (with_rollout isot rid r rt) = rt_revision rt" "routing_rollouts (with_rollout isot rid r rt) \<noteq> []"
  "rt_revision (with_transition isot rid r rt) = rt_revision rt" "routing_rollouts (with_transition isot rid r rt) \<noteq> []"
proof -
  have "dput rid d xs \<noteq> []" for d :: document and xs by (cases xs) auto
  then show "rt_revision (with_rollout isot rid r rt) = rt_revision rt" "routing_rollouts (with_rollout isot rid r rt) \<noteq> []"
    "rt_revision (with_transition isot rid r rt) = rt_revision rt" "routing_rollouts (with_transition isot rid r rt) \<noteq> []"
    by (simp_all add: with_rollout_def with_transition_def)
qed

lemma create_rollout_effect: "rollout_effectful api env st (create_routing_rollout api env rq p n st)"
proof -
  let ?start = "ebind (expected_revision (rv_admin env) rq (ra_manager st)) (\<lambda>expected.
    if is_disabled (ra_federation st) (ru_collection p) then Raise (Http 409 ''collection_tombstoned'')
    else ebind (check_no_active_rollout (rv_fromisoformat env) (ra_federation st) (ru_collection p) (dkeys (routing_rollouts (ra_federation st)))) (\<lambda>_.
      case validate_routing_policy (re_repr (av_replica (rv_admin env))) (ra_federation st) (policy_rules (policy_payload p)) (policy_default (policy_payload p)) of
        Raise _ \<Rightarrow> Raise (Http 422 ''cluster'') | Ok _ \<Rightarrow> Ok expected))"
  have "expected = sm_current_revision (ra_manager st)" if "?start = Ok expected" for expected
    using that by (auto simp: ebind_eq_Ok split: if_splits sum.splits dest: expected_revision_current)
  then show ?thesis
    unfolding create_routing_rollout_def Let_def
    by (cases ?start) (simp_all add: rollout_stay, auto intro!: rollout_lift effectful_sbind effectful_rollout_commit effectful_stay simp: with_rollout_keeps)
qed

lemma transition_rollout_effect: "rollout_effectful api env st (transition_routing_rollout api env rq rid tr st)"
  unfolding transition_routing_rollout_def
  by (auto split: sum.split intro!: rollout_stay rollout_lift effectful_sbind effectful_rollout_commit effectful_stay
      simp: with_rollout_keeps ebind_eq_Ok dest!: expected_revision_current)

lemma commit_rollout_effect:
  "expected = sm_current_revision (ra_manager st) \<Longrightarrow> rollout_effectful api env st (commit_rollout_update api env rq r u expected act details st)"
  unfolding commit_rollout_update_def
  by (intro rollout_lift effectful_rollout_commit) (simp_all add: with_rollout_keeps)

lemma backfill_work_keeps:
  "backfill_work env r cp b n m st = (st', res) \<Longrightarrow> ad_store (ra_admin st') = ad_store (ra_admin st) \<and> ad_replica (ra_admin st') = ad_replica (ra_admin st)"
  by (auto simp: backfill_work_def split: if_splits prod.splits)

lemma backfill_effect: "rollout_effectful api env st (run_routing_backfill_step api env rq rid v n st)"
proof (cases "backfill_start env rq rid v st")
  case (Inl e)
  then show ?thesis by (simp add: run_routing_backfill_step_def rollout_stay)
next
  case (Inr start)
  obtain expected r barrier seen where start: "start = (expected, r, barrier, seen)" by (metis prod_cases4)
  then have expected: "expected = sm_current_revision (ra_manager st)"
    using Inr by (auto simp: backfill_start_def ebind_eq_Ok require_def split: if_splits dest: expected_revision_current)
  let ?work = "backfill_work env r (dput ''source_barrier_position'' (JInt barrier) (backfill_checkpoint r)) barrier seen n st"
  obtain st1 res where work: "?work = (st1, res)" by fastforce
  note kept = backfill_work_keeps [OF work]
  have "rollout_effectful api env st ?work" using kept work by (simp add: rollout_stay)
  then show ?thesis
    unfolding run_routing_backfill_step_def Inr start sum.case prod.case
  proof (rule rollout_sbind)
    fix x st2 assume "?work = (st2, Ok x)"
    then have st2: "sm_current_revision (ra_manager st2) = expected" using work kept expected by simp
    obtain cp copied docs where x: "x = (cp, copied, docs)" by (metis prod_cases3)
    show "rollout_effectful api env st2 ((\<lambda>(cp, copied, source_documents) st1.
            (case lift_rollout backfill_error (record_backfill_progress r v cp (durable_barrier barrier)
                (truthy (jget cp ''raw_copy_complete'') \<and> truthy (jget cp ''repair_complete'')) (rv_now env)) of
               Raise e \<Rightarrow> (st1, Raise e)
             | Ok updated \<Rightarrow>
                 sbind (commit_rollout_update api env rq r updated expected ''routing_rollout_backfill_progressed''
                   [(''copied'', JInt (int copied)), (''raw_copy_complete'', JBool (truthy (jget cp ''raw_copy_complete''))),
                    (''repair_complete'', JBool (truthy (jget cp ''repair_complete'')))] st1)
                  (\<lambda>revision st2. (st2, Ok (revision, updated, copied, source_documents))))) x st2)"
      unfolding x prod.case
      by (cases "lift_rollout backfill_error (record_backfill_progress r v cp (durable_barrier barrier)
          (truthy (jget cp ''raw_copy_complete'') \<and> truthy (jget cp ''repair_complete'')) (rv_now env))")
        (auto intro!: rollout_stay rollout_sbind commit_rollout_effect simp: st2)
  qed
qed

lemma verify_effect: "rollout_effectful api env st (verify_routing_rollout_parity api env rq rid v n st)"
proof -
  have moved: "rollout_effectful api env st m" if "rollout_effectful api env (st\<lparr>ra_events := x\<rparr>) m" for m :: "_ \<times> (http_error + int \<times> RoutingRollout \<times> parity_run)" and x
    using that by (simp add: rollout_effectful_def)
  show ?thesis
    unfolding verify_routing_rollout_parity_def
    by (auto split: sum.split intro!: rollout_stay moved [where x = "rv_meanwhile env (ra_events st)"] rollout_sbind commit_rollout_effect
        simp: ebind_eq_Ok require_def dest!: expected_revision_current split: if_splits)
qed

lemmas request_effects = register_cluster_effect delete_cluster_effect reconcile_effect create_collection_effect delete_collection_effect
  upsert_alias_effect delete_alias_effect set_routing_rules_effect delete_routing_rule_effect export_effect import_effect
  create_rollout_effect transition_rollout_effect backfill_effect verify_effect

lemma handle_effect:
  assumes "handle_admin api env rq c st = (st', res)" and "\<not> detached res"
  shows "admin_effect api (rv_admin env) (ra_admin st) (ra_admin st')"
proof -
  have "rollout_effectful api env st (handle_admin api env rq c st)"
    by (cases c) (auto intro!: rollout_reply rollout_lift request_effects)
  then show ?thesis using assms by (simp add: rollout_effectful_def effectful_def)
qed

section \<open>Replicas and the stored state\<close>

definition runs_stored :: "Replica \<Rightarrow> ControlPlaneRecord \<Rightarrow> bool" where
  "runs_stored rp rec \<longleftrightarrow> equal_state (desired_state (rp_federation rp)) (desired_of (cr_state rec)) \<and>
     sorted_docs (routing_rollouts (rp_federation rp)) = sorted_docs (docs_of (cr_state rec) ''routing_rollouts'')"

definition in_sync :: "ControlPlaneDb \<Rightarrow> Replica \<Rightarrow> bool" where
  "in_sync db rp \<longleftrightarrow> (\<exists>rec. state_row db = Some rec \<and> sm_current_revision (rp_manager rp) \<le> cr_revision rec \<and>
     (sm_current_revision (rp_manager rp) = cr_revision rec \<longrightarrow> runs_stored rp rec)) \<and>
     sorted_docs (routing_rollouts (rp_federation rp)) = sorted_docs (sm_routing_rollouts (rp_manager rp))"

text \<open>What one step may do: nothing that shows, or a commit on top of a state that the replica was running.\<close>

definition advanced :: "ControlPlaneDb \<Rightarrow> Replica \<Rightarrow> ControlPlaneDb \<Rightarrow> Replica \<Rightarrow> bool" where
  "advanced db rp db' rp' \<longleftrightarrow>
     (state_row db' = state_row db \<and> rp' = rp) \<or>
     (\<exists>rec'. state_row db' = Some rec' \<and> head_revision (state_row db) < cr_revision rec' \<and> sm_current_revision (rp_manager rp') = cr_revision rec' \<and>
        (\<forall>rec. state_row db = Some rec \<longrightarrow> cr_revision rec = sm_current_revision (rp_manager rp) \<and> runs_stored rp rec))"

lemma sorted_docs_Nil [simp]: "sorted_docs xs = [] \<longleftrightarrow> xs = []"
proof -
  have "length (sorted_docs xs) = length xs" by (simp add: sorted_docs_def)
  then show ?thesis by (metis length_0_conv)
qed

lemma pg_row: "db_reachable pl db \<Longrightarrow> store_load (pg_api pl) db = Ok (state_row db)"
  by (simp add: pg_api_def pg_load_committed [OF db_reachable_inv])

lemma pg_head: "head_of (store_latest (pg_api pl) db) = head_revision (state_row db)"
  by (simp add: pg_api_def head_of_latest)

lemma audit_keeps_row: "pg_append_audit pl db call a rv = Ok db' \<Longrightarrow> state_row db' = state_row db"
  by (auto simp: pg_append_audit_def append_audit_in_transaction_def ebind_eq_Ok Let_def split: if_splits option.splits)

lemma saved_row:
  assumes "db_reachable pl db" and "save_state (pg_api pl) check db mgr call ds ro rq = (db', mgr', Ok True)"
  shows "db_reachable pl db'" and "\<exists>rec. state_row db' = Some rec \<and> cr_revision rec = head_revision (state_row db) + 1 \<and>
    sm_current_revision mgr' = cr_revision rec \<and> sm_routing_rollouts mgr' = (case ro of None \<Rightarrow> sm_routing_rollouts mgr | Some r \<Rightarrow> r) \<and>
    head_revision (state_row db) = (case sr_expected rq of None \<Rightarrow> sm_current_revision mgr | Some r \<Rightarrow> r) \<and>
    desired_of (cr_state rec) = sorted_state ds \<and> docs_of (cr_state rec) ''routing_rollouts'' = sorted_docs (sm_routing_rollouts mgr')"
proof -
  show reach: "db_reachable pl db'" by (rule save_reachable [OF assms])
  note inv = db_reachable_inv [OF assms(1)]
  from pg_managed.saved [OF inv assms(2)] obtain rec where
    load: "store_load (pg_api pl) db' = Ok (Some rec)" and
    document: "normalize_json_object (state_document ds (sm_routing_rollouts mgr')) = Some (cr_state rec)" and
    expected: "head_of (store_latest (pg_api pl) db) = (case sr_expected rq of None \<Rightarrow> sm_current_revision mgr | Some r \<Rightarrow> r)" and
    successor: "cr_revision rec = head_of (store_latest (pg_api pl) db) + 1" and
    mgr': "mgr' = \<lparr>sm_current_revision = cr_revision rec, sm_state_digest = cr_digest rec,
      sm_routing_rollouts = (case ro of None \<Rightarrow> sm_routing_rollouts mgr | Some r \<Rightarrow> r)\<rparr>" by (elim exE conjE)
  have manager: "sm_current_revision mgr' = cr_revision rec"
    "sm_routing_rollouts mgr' = (case ro of None \<Rightarrow> sm_routing_rollouts mgr | Some r \<Rightarrow> r)"
    by (simp_all only: mgr' StateManager.simps)
  have row: "state_row db' = Some rec" using load pg_row [OF reach] by simp
  show "\<exists>rec. state_row db' = Some rec \<and> cr_revision rec = head_revision (state_row db) + 1 \<and>
    sm_current_revision mgr' = cr_revision rec \<and> sm_routing_rollouts mgr' = (case ro of None \<Rightarrow> sm_routing_rollouts mgr | Some r \<Rightarrow> r) \<and>
    head_revision (state_row db) = (case sr_expected rq of None \<Rightarrow> sm_current_revision mgr | Some r \<Rightarrow> r) \<and>
    desired_of (cr_state rec) = sorted_state ds \<and> docs_of (cr_state rec) ''routing_rollouts'' = sorted_docs (sm_routing_rollouts mgr')"
    by (intro exI [of _ rec] conjI row successor [unfolded pg_head] expected [unfolded pg_head] manager
        state_document_sorted [OF document])
qed

text \<open>A newer row leaves the other replicas behind the head, which is all that is asked of them.\<close>

lemma others_stay:
  assumes "advanced db rp db' rp'" and "in_sync db other"
  shows "in_sync db' other"
  using assms by (auto simp: advanced_def in_sync_def head_revision_def)

lemma advanced_trans:
  assumes "advanced db rp db1 rp1" and "advanced db1 rp1 db' rp'"
  shows "advanced db rp db' rp'"
proof (cases "state_row db1 = state_row db \<and> rp1 = rp")
  case True
  then show ?thesis using assms(2) by (simp add: advanced_def)
next
  case False
  then obtain rec1 where rec1: "state_row db1 = Some rec1" "head_revision (state_row db) < cr_revision rec1"
    "\<forall>rec. state_row db = Some rec \<longrightarrow> cr_revision rec = sm_current_revision (rp_manager rp) \<and> runs_stored rp rec"
    "sm_current_revision (rp_manager rp1) = cr_revision rec1"
    using assms(1) by (auto simp: advanced_def)
  from assms(2) rec1(1,2,4) have "\<exists>rec'. state_row db' = Some rec' \<and> head_revision (state_row db) < cr_revision rec' \<and>
      sm_current_revision (rp_manager rp') = cr_revision rec'"
    by (auto simp: advanced_def head_revision_def)
  then show ?thesis using rec1(3) by (auto simp: advanced_def)
qed

lemma effect_sync:
  assumes "admin_effect (pg_api pl) env st st'" and "db_reachable pl (ad_store st)" and "in_sync (ad_store st) (ad_replica st)"
  shows "db_reachable pl (ad_store st') \<and> in_sync (ad_store st') (ad_replica st') \<and>
    advanced (ad_store st) (ad_replica st) (ad_store st') (ad_replica st')"
  using assms
proof (induction rule: admin_effect.induct)
  case (Kept st' st)
  then show ?case by (simp add: advanced_def)
next
  case (Saved st call ds ro rq st')
  obtain rec where rec: "state_row (ad_store st') = Some rec" "cr_revision rec = head_revision (state_row (ad_store st)) + 1"
    "sm_current_revision (ad_manager st') = cr_revision rec"
    "sm_routing_rollouts (ad_manager st') = (case ro of None \<Rightarrow> sm_routing_rollouts (ad_manager st) | Some r \<Rightarrow> r)"
    "head_revision (state_row (ad_store st)) = sm_current_revision (ad_manager st)"
    "desired_of (cr_state rec) = sorted_state ds" "docs_of (cr_state rec) ''routing_rollouts'' = sorted_docs (sm_routing_rollouts (ad_manager st'))"
    using saved_row(2) [OF Saved.prems(1) Saved.hyps(1)] Saved.hyps(2) by auto
  obtain old where old: "state_row (ad_store st) = Some old" "sm_current_revision (ad_manager st) = cr_revision old \<longrightarrow> runs_stored (ad_replica st) old"
    "sorted_docs (routing_rollouts (ad_federation st)) = sorted_docs (sm_routing_rollouts (ad_manager st))"
    using Saved.prems(2) by (auto simp: in_sync_def)
  have rollouts: "sorted_docs (routing_rollouts (ad_federation st')) = sorted_docs (sm_routing_rollouts (ad_manager st'))"
  proof (cases ro)
    case None
    then have "routing_rollouts (ad_federation st') = []" "routing_rollouts (ad_federation st) = []" using Saved.hyps(5) by simp_all
    moreover have "sm_routing_rollouts (ad_manager st) = []" using old(3) \<open>routing_rollouts (ad_federation st) = []\<close> by (metis sorted_docs_Nil)
    ultimately show ?thesis using rec(4) None by simp
  next
    case (Some r)
    then show ?thesis using Saved.hyps(5) rec(4) by simp
  qed
  have "equal_state (desired_state (ad_federation st')) (desired_of (cr_state rec))"
    using Saved.hyps(3) rec(6) equal_state_trans equal_state_sym [OF equal_sorted_state] by metis
  then have "runs_stored (ad_replica st') rec" using rollouts rec(7) by (simp add: runs_stored_def)
  then have "in_sync (ad_store st') (ad_replica st')" using rec(1,3) rollouts by (simp add: in_sync_def)
  moreover have "advanced (ad_store st) (ad_replica st) (ad_store st') (ad_replica st')"
    using rec(1,2,3,5) old(1,2) by (auto simp: advanced_def head_revision_def)
  ultimately show ?case using saved_row(1) [OF Saved.prems(1) Saved.hyps(1)] by simp
next
  case (AuditAppended st call a st' ok)
  then have "ad_store st' = ad_store st \<or> (\<exists>rv. pg_append_audit pl (ad_store st) call a rv = Ok (ad_store st'))"
    by (auto simp: record_admin_audit_def pg_api_def split: sum.splits)
  then show ?case using AuditAppended audit_keeps_row by (fastforce simp: advanced_def in_sync_def intro: db_reachable.Audited)
next
  case (InSequence st st1 st')
  then show ?case using advanced_trans by blast
qed

section \<open>The whole system\<close>

text \<open>
  \<open>deployed\<close> are the environments in which requests are handled. A replica may start, stop, reload, handle requests; the outbox is
  dispatched. Two steps are left out because they break what follows: a reload that fails after it moved
  the revision of the state manager, and a handler that ends detached (\<open>StateSync\<close>, \<open>AdminEffects\<close>).
\<close>

inductive system_reachable :: "platform \<Rightarrow> (('w, 'p) rollout_env \<Rightarrow> bool) \<Rightarrow> ControlPlaneDb \<Rightarrow> (nat \<Rightarrow> Replica option) \<Rightarrow> bool" for pl deployed where
  Migrated: "system_reachable pl deployed migrated_db (\<lambda>_. None)"
| Started: "system_reachable pl deployed db reps \<Longrightarrow> start_replica (pg_api pl) su db = (db', Ok rp) \<Longrightarrow> system_reachable pl deployed db' (reps(i := Some rp))"
| Stopped: "system_reachable pl deployed db reps \<Longrightarrow> system_reachable pl deployed db (reps(i := None))"
| Handled: "system_reachable pl deployed db reps \<Longrightarrow> reps i = Some rp \<Longrightarrow> deployed env \<Longrightarrow> ad_store (ra_admin st) = db \<Longrightarrow> ad_replica (ra_admin st) = rp
    \<Longrightarrow> handle_admin (pg_api pl) env rq call st = (st', res) \<Longrightarrow> \<not> detached res
    \<Longrightarrow> system_reachable pl deployed (ad_store (ra_admin st')) (reps(i := Some (ad_replica (ra_admin st'))))"
| Reloaded: "system_reachable pl deployed db reps \<Longrightarrow> reps i = Some rp \<Longrightarrow> load_state (pg_api pl) (re_check re) db (rp_manager rp) = (mgr, Ok ds)
    \<Longrightarrow> reload_configuration (pg_api pl) re db rp = (rp', Ok ()) \<Longrightarrow> system_reachable pl deployed db (reps(i := Some rp'))"
| Dispatched: "system_reachable pl deployed db reps \<Longrightarrow> dispatch_control_plane_outbox_once (pg_api pl) source publish now db batch = Ok (db', sent, n, m)
    \<Longrightarrow> system_reachable pl deployed db' reps"

lemma loads_stored:
  assumes "db_reachable pl db" and "load_state (pg_api pl) check db mgr = (mgr', Ok (Some ds))"
    and "reload_federation re rt ds mgr' = Ok rt'"
  shows "in_sync db \<lparr>rp_manager = mgr', rp_federation = rt'\<rparr>"
proof -
  from assms(2) pg_row [OF assms(1)] obtain rec where rec: "state_row db = Some rec" "sm_current_revision mgr' = cr_revision rec"
    "ds = desired_of (cr_state rec)" "sm_routing_rollouts mgr' = docs_of (cr_state rec) ''routing_rollouts''"
    by (auto simp: load_state_def Let_def split: option.splits sum.splits)
  note loaded = loaded_state [OF assms(3) [unfolded reload_federation_def]]
  have "equal_state (desired_state rt') ds" using loaded(1) by (cases ds) simp
  moreover have "routing_rollouts rt' = sm_routing_rollouts mgr'" by (rule loaded(3))
  ultimately  show ?thesis using rec by (simp add: in_sync_def runs_stored_def)
qed

lemma reload_sync:
  assumes "db_reachable pl db" and "in_sync db rp" and "load_state (pg_api pl) (re_check re) db (rp_manager rp) = (mgr, Ok ds)"
    and "reload_configuration (pg_api pl) re db rp = (rp', Ok ())"
  shows "in_sync db rp'"
proof (cases ds)
  case None
  then have "state_row db = None" using assms(3) pg_row [OF assms(1)] by (auto simp: load_state_def Let_def split: option.splits sum.splits)
  then show ?thesis using assms(2) by (simp add: in_sync_def)
next
  case (Some d)
  then obtain rt where "reload_federation re (rp_federation rp) d mgr = Ok rt" and "rp' = rp\<lparr>rp_manager := mgr, rp_federation := rt\<rparr>"
    using assms(3,4) by (auto simp: reload_configuration_def split: sum.splits)
  with loads_stored [OF assms(1) assms(3) [unfolded Some]] show ?thesis by (cases rp) simp
qed

lemma bootstrap_rollouts: "bootstrap_runtime su = Ok rt \<Longrightarrow> routing_rollouts rt = []"
  by (auto simp: bootstrap_runtime_def add_default_cluster_def empty_runtime_def ebind_eq_Ok split: if_splits)

lemma start_sync:
  assumes "db_reachable pl db" and "start_replica (pg_api pl) su db = (db', Ok rp)"
  shows "db_reachable pl db' \<and> in_sync db' rp \<and> (db' = db \<or> state_row db = None)"
proof -
  obtain mgr res where load: "load_state (pg_api pl) (re_check (su_replica su)) db (new_state_manager (pg_api pl) db) = (mgr, res)" by fastforce
  consider ds rt where "res = Ok (Some ds)" "reload_federation (su_replica su) empty_runtime ds mgr = Ok rt" "db' = db" "rp = \<lparr>rp_manager = mgr, rp_federation = rt\<rparr>"
    | "res = Ok None" "bootstrap_replica (pg_api pl) su db mgr = (db', Ok rp)"
    using assms(2) load by (auto simp: start_replica_def split: sum.splits option.splits)
  then show ?thesis
  proof cases
    case 1
    then show ?thesis using loads_stored [OF assms(1)] load assms(1) by auto
  next
    case 2
    have empty: "state_row db = None"
      using load 2(1) pg_row [OF assms(1)] by (auto simp: load_state_def Let_def split: option.splits sum.splits)
    obtain rt mgr' rt' where rt: "bootstrap_runtime su = Ok rt" and
      save: "save_state (pg_api pl) (re_check (su_replica su)) db mgr (su_call su) (desired_state rt) (Some (routing_rollouts rt)) bootstrap_request = (db', mgr', Ok True)"
      and rp: "mark_applied_revision rt (sm_current_revision mgr') = Ok rt'" "rp = \<lparr>rp_manager = mgr', rp_federation = rt'\<rparr>"
      using 2(2) by (auto simp: bootstrap_replica_def split: sum.splits prod.splits bool.splits)
    from saved_row(2) [OF assms(1) save] obtain rec where rec: "state_row db' = Some rec" "sm_current_revision mgr' = cr_revision rec"
      "sm_routing_rollouts mgr' = routing_rollouts rt" "desired_of (cr_state rec) = sorted_state (desired_state rt)"
      "docs_of (cr_state rec) ''routing_rollouts'' = sorted_docs (sm_routing_rollouts mgr')" by auto
    have "desired_state rt' = desired_state rt \<and> routing_rollouts rt' = routing_rollouts rt"
      using rp(1) by (auto simp: mark_applied_revision_def desired_state_def split: if_splits)
    then have "in_sync db' rp" using rec rp(2) equal_state_sym [OF equal_sorted_state] by (simp add: in_sync_def runs_stored_def)
    then show ?thesis using saved_row(1) [OF assms(1) save] empty by simp
  qed
qed

lemma marked_row: "state_row (fst (pg_mark_outbox_published db e t)) = state_row db" "state_row (fst (pg_record_outbox_failure db e x)) = state_row db"
  by (simp_all add: pg_mark_outbox_published_def pg_record_outbox_failure_def)

lemma dispatch_keeps:
  "db_reachable pl db \<Longrightarrow> dispatch_records (pg_api pl) source publish now db obs = (db', sent, n, m) \<Longrightarrow> db_reachable pl db' \<and> state_row db' = state_row db"
proof (induction obs arbitrary: db sent n m)
  case Nil
  then show ?case by simp
next
  case (Cons ob obs)
  let ?db1 = "if publish ob = None then fst (pg_mark_outbox_published db (ob_event_id ob) now)
    else fst (pg_record_outbox_failure db (ob_event_id ob) (the (publish ob)))"
  obtain sent1 n1 m1 where rest: "dispatch_records (pg_api pl) source publish now ?db1 obs = (db', sent1, n1, m1)"
    using Cons.prems(2) by (auto simp: pg_api_def Let_def split: option.splits prod.splits)
  have "db_reachable pl ?db1" using Cons.prems(1) by (auto intro: db_reachable.Published db_reachable.PublishFailed)
  from Cons.IH [OF this rest] show ?case by (simp add: marked_row split: if_splits)
qed

lemma system_sync:
  "system_reachable pl deployed db reps \<Longrightarrow> db_reachable pl db \<and> (\<forall>i rp. reps i = Some rp \<longrightarrow> in_sync db rp)"
proof (induction rule: system_reachable.induct)
  case Migrated
  then show ?case by (simp add: db_reachable.Migrated)
next
  case (Started db reps su db' rp i)
  note start = start_sync [of pl db su db' rp]
  have "in_sync db' other" if "reps j = Some other" for j other
    using start Started that by (auto simp: in_sync_def)
  then show ?case using start Started by auto
next
  case (Stopped db reps i)
  then show ?case by auto
next
  case (Handled db reps i rp env st rq call st' res)
  then have effect: "admin_effect (pg_api pl) (rv_admin env) (ra_admin st) (ra_admin st')" using handle_effect by blast
  have "in_sync (ad_store (ra_admin st)) (ad_replica (ra_admin st))" "db_reachable pl (ad_store (ra_admin st))"
    using Handled by auto
  from effect_sync [OF effect this(2,1)] Handled others_stay show ?case by auto
next
  case (Reloaded db reps i rp re mgr ds rp')
  then have "db_reachable pl db" and "in_sync db rp" by auto
  from reload_sync [OF this Reloaded.hyps(3,4)] Reloaded.IH show ?case by auto
next
  case (Dispatched db reps source publish now batch db' sent n m)
  then obtain obs where "dispatch_records (pg_api pl) source publish now db obs = (db', sent, n, m)"
    by (auto simp: dispatch_control_plane_outbox_once_def ebind_eq_Ok)
  with dispatch_keeps Dispatched.IH show ?case by (fastforce simp: in_sync_def)
qed


text \<open>Decimal text computed on integers, for the evaluation of the witness.\<close>

function int_digits :: "int \<Rightarrow> string" where
  "int_digits i = (if i < 10 then [char_of (48 + i)] else int_digits (i div 10) @ [char_of (48 + i mod 10)])"
  by auto
termination by (relation "measure nat") auto

declare int_digits.simps [simp del]

lemma nat_str_int_digits: "nat_str n = int_digits (int n)"
proof (induction n rule: nat_str.induct)
  case (1 n)
  have digit: "char_of (48 + k) = (char_of (48 + int k) :: char)" for k :: nat
    using char_of_nat [of "48 + k", where 'a = int] by simp
  show ?case
    using 1 by (subst nat_str.simps, subst int_digits.simps) (simp add: digit zdiv_int zmod_int)
qed

lemma int_str_digits [code]: "int_str i = (if i < 0 then CHR ''-'' # int_digits (- i) else int_digits i)"
  by (simp add: int_str_def nat_str_int_digits)

definition sample_startup :: startup_env where
  "sample_startup = \<lparr>su_replica = sample_replica_env, su_allow_inline = False,
     su_first = \<lparr>dc_nodes = ''n1'', dc_api_key = [], dc_protocol = ''http'', dc_api_key_ref = ''env:KEY''\<rparr>,
     su_second = \<lparr>dc_nodes = [], dc_api_key = [], dc_protocol = ''http'', dc_api_key_ref = []\<rparr>, su_call = sample_env\<lparr>env_audit_id := ''a0'', env_outbox_id := ''o0''\<rparr>\<rparr>"

definition sample_rollout_env :: "(unit, secret_provider) rollout_env" where
  "sample_rollout_env = \<lparr>rv_admin = sample_admin_env, rv_python = toy_python,
     rv_migration = \<lparr>export_documents = (\<lambda>w c coll. ExportText []), import_documents = (\<lambda>w c coll batch. (w, ImportList []))\<rparr>,
     rv_durable = True, rv_now = 5, rv_uuid = ''r1'', rv_isoformat = (\<lambda>_. ''t''), rv_fromisoformat = (\<lambda>_. None), rv_meanwhile = id,
     rv_brokers = None, rv_topic_prefix = ''docs'', rv_consumer_group = ''indexer'', rv_dlq_group = ''dlq'', rv_max_kafka_lag = 0,
     rv_send = (\<lambda>_. Acked), rv_event_env = (\<lambda>u. \<lparr>ev_now = 5, ev_uuid = u\<rparr>), rv_propagated = [], rv_trace = []\<rparr>"

definition sample_rules_call :: admin_call where
  "sample_rules_call = SetRoutingRules \<lparr>ru_collection = ''books'', ru_rules = [], ru_default_cluster = ''default-data-cluster''\<rparr>"

definition sample_running :: "ControlPlaneDb \<Rightarrow> Replica \<Rightarrow> (ControlPlaneDb, unit) rollout_admin" where
  "sample_running db rp = \<lparr>ra_admin = \<lparr>ad_store = db, ad_replica = rp, ad_provider = (), ad_sent = []\<rparr>, ra_events = db_empty, ra_log = []\<rparr>"

lemma sample_request_saved:
  "case start_replica (pg_api sample_platform) sample_startup migrated_db of
     (db, Ok rp) \<Rightarrow> (case handle_admin (pg_api sample_platform) sample_rollout_env sample_admin_request sample_rules_call (sample_running db rp) of
       (st', res) \<Rightarrow> res = Ok () \<and> map_option cr_revision (state_row db) = Some 1 \<and>
         map_option cr_revision (state_row (ad_store (ra_admin st'))) = Some 2)
   | _ \<Rightarrow> False"
  by code_simp


end
