(* ===== verification/Spec2Isabelle.thy ===== *)
theory Spec2Isabelle
  imports RolloutDomain SecretResolver Federation BackfillParity ControlPlane PostgresOutbox EventEnvelope DeliveryConvergence
    AuditDelivery AccessControl SearchMerge IngestRouter StateSnapshot RepairWindow OutboxRetention
    RateLimiter DlqResolver AdminSystem
begin

text \<open>
  A verification library for IMPOSBRO Search: a federated search API in front of Typesense clusters
  (\<open>query_api/app\<close>), a transactional control plane with a tamper-evident audit chain, and an
  indexing service (\<open>indexing_service/app\<close>) that applies the mutations of documents from Kafka.

  \<^bold>\<open>How the parts work together.\<close> Operators change clusters, collections, aliases, routing rules and rollouts
  through the admin API; every change is one compare-and-set commit of the whole desired state, with its
  audit row and its outbox record. The replicas of the API follow the durable head by polling and by
  notifications. A document that is ingested or deleted is authorized for its tenant, routed by the
  policies of its collection, stored as a sequenced event in the durable outbox, and published to Kafka;
  the consumer applies every event at most once per target cluster, under a checkpoint and a lock, or
  publishes it to the dead-letter queue. A search asks the clusters that the read policies name and
  merges their pages. A routing policy changes through a rollout whose phases demand machine-owned evidence:
  backfill, repair of concurrent mutations, exact parity, lag and dead letters. Tombstones register
  with the deletion ledger before they can be inserted; audit pages are delivered to a sink with a
  resumable, verified checkpoint.

  \<^bold>\<open>Common ground.\<close> \<open>Prelude\<close>: exceptions as the left of a sum (\<open>ebind\<close>, \<open>mapE\<close>, \<open>require\<close>), Python's ordered
  dictionaries as association lists, rows of a table. \<open>PyValue\<close>: JSON values with exact doubles, \<open>str\<close>,
  \<open>strip\<close>, \<open>fnmatch\<close>. \<open>Integrity\<close>: canonical JSON and digests of \<open>control_plane/contracts.py\<close>;
  SHA-256 is a field of the record \<open>platform\<close>.

  \<^bold>\<open>Routing.\<close> \<open>RolloutDomain\<close> is \<open>domain/routing_rollout.py\<close>: phases, gates, the transition table, persistence;
  its lemmas give the evidence behind every reachable rollout, the refusal of stale writers, the way
  back, and the round trip of the stored form. \<open>Federation\<close> is \<open>services/federation.py\<close>: the runtime of one
  replica, rules in priority order, write, delete and search targets; a document is searched where it is
  written, in every phase. \<open>Schemas\<close> holds the request models of \<open>models/schemas.py\<close>; a validated rule means
  in the federation what it says. \<open>Provider\<close> is the loops over the clusters. \<open>RoutingMigration\<close> and
  \<open>BackfillParity\<close> are \<open>services/routing_migration.py\<close>: parity passes exactly when both unions hold the same
  documents, a backfill that stops anywhere can be restarted, and it reaches parity.

  \<^bold>\<open>Control plane.\<close> \<open>ControlPlane\<close> is both stores of \<open>control_plane/\<close> (\<open>PostgresControlPlaneStore\<close> and the memory
  reference), with their invariant, the refinement between them and the audit chain; the locale
  \<open>control_plane_store\<close> is what a client relies on. \<open>StateSync\<close> is \<open>services/state_manager.py\<close>,
  \<open>services/config_sync.py\<close> and the reload and dispatch of \<open>main.py\<close>, over a record of store operations; the
  locale \<open>managed_store\<close> extends the contract and is interpreted on both stores. \<open>AdminMutations\<close>,
  \<open>AdminEffects\<close> and \<open>StateSnapshot\<close> are the handlers of \<open>routers/admin.py\<close> with all they do to the store and
  to the replica; \<open>AdminRollouts\<close> adds the rollout handlers. \<open>AdminSystem\<close> puts any number of replicas on one
  store, from their start in \<open>main.py\<close>: no administrative change is lost. \<open>KafkaEvidence\<close> is
  \<open>services/kafka_operations.py\<close>, \<open>RolloutEvidence\<close> shows that the evidence of a rollout comes from the machine
  and walks one rollout to its end, \<open>OutboxGrowth\<close> and \<open>RepairWindow\<close> that the repair pages cover every mutation
  of their window. \<open>AuditDelivery\<close> is \<open>control_plane/audit_delivery.py\<close>.

  \<^bold>\<open>Indexing.\<close> \<open>IndexingEvents\<close> and \<open>PostgresOutbox\<close> are \<open>indexing_events/\<close> and the producer of
  \<open>services/kafka_producer.py\<close>: sequences without gaps, idempotent retries, replay until nothing is pending,
  repair clones. \<open>DeletionLedger\<close> is \<open>control_plane/deletion_ledger.py\<close>. \<open>EventEnvelope\<close>, \<open>CheckpointStore\<close>,
  \<open>Consumer\<close> and \<open>DeliveryConvergence\<close> are the worker: the parsed form of a message, the checkpoints and
  their locks, retries and dead letters, commits, and that the newest event wins under redelivery.

  \<^bold>\<open>Access, search and ingestion.\<close> \<open>AccessControl\<close> is the guards of \<open>deps.py\<close>; \<open>Tenancy\<close> the tenant half of
  \<open>auth.py\<close>; \<open>SecretResolver\<close> is \<open>secret_resolver.py\<close>. \<open>Ranking\<close> and \<open>SearchMerge\<close> are the federated search of
  \<open>routers/search.py\<close>: the page served is the page of the merged result of all shards. \<open>IngestRouter\<close> is
  ingestion, batch ingestion, deletion and reads of \<open>routers/search.py\<close>. \<open>RateLimiter\<close> is
  \<open>services/rate_limiter.py\<close>: the fixed windows admit exactly the configured number of requests.

  \<^bold>\<open>Operators' tools.\<close> \<open>OutboxRetention\<close> is \<open>scripts/ops/outbox_retention.py\<close>: what it deletes, and that the newest
  event of every document and everything on hold stays. \<open>DlqResolver\<close> is \<open>scripts/ops/dlq_resolver.py\<close>: a record
  is committed past only after its evidence was reserved and the action was authorized.

  \<^bold>\<open>Reading the model.\<close> A record, datatype or function has the name of its class or function; state is passed
  explicitly; an uncaught exception is a value. Clocks, random ids, SHA-256, the text of floats and of
  times, CPython's \<open>int()\<close> and \<open>float()\<close>, pydantic's coercion, Typesense, Kafka, Redis and PostgreSQL's
  isolation are arguments or, for PostgreSQL, one transaction per step; what is assumed of them is a
  premise of the theorem that needs it. Strings are lists of 8-bit characters: text is what a Python
  string of Latin-1 characters is, and UTF-8 encodes as an argument where bytes matter.

  \<^bold>\<open>Bounds and fuel.\<close> No function of the model runs on fuel. Loops are structural recursions over the rows,
  clusters or candidates they visit; retry loops recurse on the attempts the settings allow, and the
  search window on what is left of the requested page, with a measure. Sequences and positions are integers
  with the 64-bit bounds of the columns as premises or as explicit refusals.

  \<^bold>\<open>Not modelled.\<close> Wiring and I/O: the FastAPI application, middlewares and background tasks of \<open>main.py\<close>,
  \<open>telemetry.py\<close>, \<open>metrics.py\<close>, \<open>structured_logging.py\<close>, \<open>observability.py\<close>, \<open>api_contract.py\<close>, health endpoints,
  the worker's \<open>main.py\<close>, SQL migrations. JSON Web Token verification in \<open>auth.py\<close>: cryptography of a
  library. The scripts that test, benchmark or release (\<open>scripts/smoke*\<close>, \<open>scripts/benchmark-k8s.py\<close>,
  \<open>scripts/test-helm-chart.py\<close>, \<open>scripts/ci\<close>): they drive the services from outside. The Admin UI: JavaScript.
\<close>

end
